(* ===== verification/Go_Prelude.thy ===== *)
theory Go_Prelude
  imports Main "HOL-Library.Word"
begin

text \<open>
  What every component of the model shares: Go's bytes, strings, slices and fixed-width
  integers, errors as values, and the small result monad the components are written in.

  \<^item> A Go \<open>byte\<close> is an \<open>8 word\<close> and a \<open>[]byte\<close> a list of them; a Go \<open>string\<close> is a
    \<open>string\<close> (a list of 8-bit characters, as Go strings are byte sequences).
  \<^item> \<open>int16\<close>, \<open>int32\<close>, \<open>int64\<close> values that travel on the wire are \<open>16 word\<close>,
    \<open>32 word\<close>, \<open>64 word\<close>, read as signed by \<open>sint\<close>; a Go \<open>int\<close> (64 bit on the
    supported platforms) that only holds lengths and counts is an \<open>int\<close>.
  \<^item> A function that returns \<open>(T, error)\<close> or may panic returns \<open>go_error + T\<close>; a runtime
    panic (slice or index out of range, \<open>make\<close> with a negative length) is the error value
    \<open>Panic\<close>, so that ``no input makes this panic'' is a statement of the model.
  \<^item> Error values keep the format string of the source's message and not its formatted
    arguments; \<open>BadConn\<close> is an error that wraps \<open>driver.ErrBadConn\<close>.
\<close>

unbundle bit_operations_syntax

named_theorems codec_simps \<open>round trips and lengths of the wire codecs\<close>
named_theorems res_simps \<open>the result monad on its two constructors\<close>

type_synonym byte = "8 word"
type_synonym bytes = "8 word list"
type_synonym int16 = "16 word"
type_synonym int32 = "32 word"
type_synonym int64 = "64 word"

subsection \<open>Errors\<close>

text \<open>\<open>FbError\<close> of \<open>errors.go\<close>: the structured error built from a status vector.\<close>

record fb_error =
  GDSCodes :: "int list"
  SQLCode :: int
  SQLState :: string
  Params :: "string list list"
  Warnings :: "int list"
  Message :: string

datatype go_error =
    Panic string
  | NetErr
  | BadConn string
  | Fb fb_error
  | OpResponse int
  | Plain string
  | Wrapped string go_error

text \<open>\<open>errors.Is(err, driver.ErrBadConn)\<close>: wrapping with \<open>%w\<close> keeps the chain.\<close>

primrec is_bad_conn :: "go_error \<Rightarrow> bool" where
  "is_bad_conn (Panic s) = False"
| "is_bad_conn NetErr = False"
| "is_bad_conn (BadConn s) = True"
| "is_bad_conn (Fb e) = False"
| "is_bad_conn (OpResponse n) = False"
| "is_bad_conn (Plain s) = False"
| "is_bad_conn (Wrapped s e) = is_bad_conn e"

primrec is_panic :: "go_error \<Rightarrow> bool" where
  "is_panic (Panic s) = True"
| "is_panic NetErr = False"
| "is_panic (BadConn s) = False"
| "is_panic (Fb e) = False"
| "is_panic (OpResponse n) = False"
| "is_panic (Plain s) = False"
| "is_panic (Wrapped s e) = is_panic e"

type_synonym 'a res = "go_error + 'a"

fun bind_res :: "'a res \<Rightarrow> ('a \<Rightarrow> 'b res) \<Rightarrow> 'b res" where
  "bind_res (Inl e) f = Inl e"
| "bind_res (Inr x) f = f x"

definition no_panic :: "'a res \<Rightarrow> bool" where
  "no_panic r \<longleftrightarrow> (case r of Inl e \<Rightarrow> \<not> is_panic e | Inr _ \<Rightarrow> True)"

lemma no_panic_simps [simp, res_simps]:
  "no_panic (Inr x)" "no_panic (Inl e) = (\<not> is_panic e)"
  by (simp_all add: no_panic_def)

lemma no_panic_bind:
  "no_panic r \<Longrightarrow> (\<And>x. r = Inr x \<Longrightarrow> no_panic (f x)) \<Longrightarrow> no_panic (bind_res r f)"
  by (cases r) auto

lemma bind_res_Inr [res_simps]:
  "bind_res r f = Inr y \<longleftrightarrow> (\<exists>x. r = Inr x \<and> f x = Inr y)"
  by (cases r) auto

lemma bind_res_assoc: "bind_res (bind_res r f) g = bind_res r (\<lambda>x. bind_res (f x) g)"
  by (cases r) auto

subsection \<open>Index and slice expressions\<close>

definition go_index :: "'a list \<Rightarrow> int \<Rightarrow> 'a res" where
  "go_index xs i =
     (if 0 \<le> i \<and> i < int (length xs) then Inr (xs ! nat i)
      else Inl (Panic ''index out of range''))"

text \<open>
  \<open>b[lo:hi]\<close>. Go allows \<open>hi\<close> up to the capacity of a slice; the model panics past the
  length, which is the stricter rule.
\<close>

definition go_slice :: "'a list \<Rightarrow> int \<Rightarrow> int \<Rightarrow> 'a list res" where
  "go_slice xs lo hi =
     (if 0 \<le> lo \<and> lo \<le> hi \<and> hi \<le> int (length xs)
      then Inr (take (nat hi - nat lo) (drop (nat lo) xs))
      else Inl (Panic ''slice bounds out of range''))"

lemma go_index_ok [simp]: "0 \<le> i \<Longrightarrow> i < int (length xs) \<Longrightarrow> go_index xs i = Inr (xs ! nat i)"
  by (simp add: go_index_def)

lemma go_slice_ok [simp]:
  "0 \<le> lo \<Longrightarrow> lo \<le> hi \<Longrightarrow> hi \<le> int (length xs) \<Longrightarrow>
   go_slice xs lo hi = Inr (take (nat hi - nat lo) (drop (nat lo) xs))"
  by (simp add: go_slice_def)

subsection \<open>Strings and bytes\<close>

definition str_to_bytes :: "string \<Rightarrow> bytes" where
  "str_to_bytes s = map of_char s"

definition bytes_to_str :: "bytes \<Rightarrow> string" where
  "bytes_to_str b = map (\<lambda>w. char_of (unat w)) b"

lemma length_str_to_bytes [simp]: "length (str_to_bytes s) = length s"
  by (simp add: str_to_bytes_def)

lemma length_bytes_to_str [simp]: "length (bytes_to_str b) = length b"
  by (simp add: bytes_to_str_def)

lemma unat_of_char: "unat (of_char c :: byte) = of_char c"
proof -
  have "(of_char c :: byte) = of_nat (of_char c)" by (simp only: of_nat_of_char)
  then show ?thesis by (simp add: unat_of_nat)
qed

lemma bytes_to_str_str_to_bytes [simp, codec_simps]: "bytes_to_str (str_to_bytes s) = s"
  by (induction s) (simp_all add: bytes_to_str_def str_to_bytes_def unat_of_char)

lemma str_to_bytes_inj: "str_to_bytes s = str_to_bytes t \<longleftrightarrow> s = t"
  by (metis bytes_to_str_str_to_bytes)

lemma of_char_char_of_byte: "of_char (char_of (unat w) :: char) = (w :: byte)"
proof -
  have "unat w < 256" using unsigned_less [of w] by simp
  then have "of_char (char_of (unat w) :: char) = unat w" by simp
  then have "unat (of_char (char_of (unat w) :: char) :: byte) = unat w"
    by (simp only: unat_of_char)
  then show ?thesis by (simp only: unsigned_word_eqI)
qed

lemma str_to_bytes_bytes_to_str [simp, codec_simps]: "str_to_bytes (bytes_to_str b) = b"
  by (induction b) (simp_all add: bytes_to_str_def str_to_bytes_def of_char_char_of_byte)

subsection \<open>Machines and their invariants\<close>

text \<open>
  A component whose operations change its state is run on a list of operations; the locale is
  the contract ``every operation keeps the invariant'' that its properties rest on.
\<close>

primrec run_ops :: "('op \<Rightarrow> 's \<Rightarrow> 's) \<Rightarrow> 'op list \<Rightarrow> 's \<Rightarrow> 's" where
  "run_ops step [] s = s"
| "run_ops step (x # xs) s = run_ops step xs (step x s)"

lemma run_ops_append: "run_ops step (xs @ ys) s = run_ops step ys (run_ops step xs s)"
  by (induction xs arbitrary: s) simp_all

locale machine =
  fixes step :: "'op \<Rightarrow> 's \<Rightarrow> 's"
    and inv :: "'s \<Rightarrow> bool"
  assumes step_inv: "inv s \<Longrightarrow> inv (step x s)"
begin

lemma run_inv: "inv s \<Longrightarrow> inv (run_ops step xs s)"
  by (induction xs arbitrary: s) (simp_all add: step_inv)

end

end
