(* ===== verification/Wire_Codec.thy ===== *)
theory Wire_Codec
  imports Go_Prelude
begin

text \<open>
  The byte-level codecs of \<open>utils.go\<close>: fixed-width integers in both byte orders, XDR
  counted bytes with their padding to four, and the BLR type descriptors of the parameter
  encoder. The encoders are the source's shifts and masks; \<open>encoding/binary\<close>'s decoders
  are the value of the first bytes, with a panic when there are too few.
  The locale \<open>fixed_codec\<close> is the contract every integer codec has with its users
  (parameter blocks, event buffers, packets): it is interpreted on each of them.
\<close>

subsection \<open>Byte sequences as numbers\<close>

fun le_val :: "bytes \<Rightarrow> nat" where
  "le_val [] = 0"
| "le_val (b # bs) = unat b + 256 * le_val bs"

definition be_val :: "bytes \<Rightarrow> nat" where
  "be_val bs = le_val (rev bs)"

fun le_bytes :: "nat \<Rightarrow> nat \<Rightarrow> bytes" where
  "le_bytes 0 x = []"
| "le_bytes (Suc n) x = of_nat (x mod 256) # le_bytes n (x div 256)"

definition be_bytes :: "nat \<Rightarrow> nat \<Rightarrow> bytes" where
  "be_bytes n x = rev (le_bytes n x)"

lemma length_le_bytes [simp]: "length (le_bytes n x) = n"
  by (induction n arbitrary: x) auto

lemma length_be_bytes [simp]: "length (be_bytes n x) = n"
  by (simp add: be_bytes_def)

lemma unat_byte_lt: "unat (b :: byte) < 256"
  using unsigned_less [of b] by simp

lemma unat_of_nat_byte: "x < 256 \<Longrightarrow> unat (of_nat x :: byte) = x"
  by (simp add: unat_of_nat)

lemma le_val_le_bytes: "le_val (le_bytes n x) = x mod 256 ^ n"
proof (induction n arbitrary: x)
  case (Suc n)
  have "le_val (le_bytes (Suc n) x) = x mod 256 + 256 * (x div 256 mod 256 ^ n)"
    by (simp add: Suc unat_of_nat_byte)
  also have "\<dots> = x mod 256 ^ Suc n"
    by (simp add: mod_mult2_eq)
  finally show ?case .
qed simp

lemma le_val_lt: "le_val bs < 256 ^ length bs"
proof (induction bs)
  case (Cons b bs)
  have "unat b < 256" by (rule unat_byte_lt)
  with Cons have "unat b + 256 * le_val bs < 256 + 256 * (256 ^ length bs - 1)"
    by (intro add_less_le_mono mult_le_mono) auto
  then show ?case by (simp add: algebra_simps)
qed simp

lemma le_bytes_le_val: "length bs = n \<Longrightarrow> le_bytes n (le_val bs) = bs"
proof (induction n arbitrary: bs)
  case (Suc n)
  then obtain b bs' where bs: "bs = b # bs'" and len: "length bs' = n"
    by (cases bs) auto
  have "(unat b + 256 * le_val bs') mod 256 = unat b"
    using unat_byte_lt [of b] by simp
  moreover have "(unat b + 256 * le_val bs') div 256 = le_val bs'"
    using unat_byte_lt [of b] by simp
  ultimately show ?case using Suc.IH [OF len] by (simp add: bs)
qed simp

lemma be_val_be_bytes: "be_val (be_bytes n x) = x mod 256 ^ n"
  by (simp add: be_val_def be_bytes_def le_val_le_bytes)

lemma be_bytes_be_val: "length bs = n \<Longrightarrow> be_bytes n (be_val bs) = bs"
  by (simp add: be_val_def be_bytes_def le_bytes_le_val)

lemma be_val_lt: "be_val bs < 256 ^ length bs"
  using le_val_lt [of "rev bs"] by (simp add: be_val_def)

lemma le_val_append: "le_val (xs @ ys) = le_val xs + 256 ^ length xs * le_val ys"
  by (induction xs) (simp_all add: algebra_simps)

lemma be_val_Nil [simp]: "be_val [] = 0"
  by (simp add: be_val_def)

lemma be_val_snoc: "be_val (xs @ [b]) = 256 * be_val xs + unat b"
  by (simp add: be_val_def)

lemma be_val_Cons: "be_val (b # bs) = unat b * 256 ^ length bs + be_val bs"
  by (simp add: be_val_def le_val_append)

subsection \<open>encoding/binary: the decoders of the standard library\<close>

definition le_uint :: "nat \<Rightarrow> bytes \<Rightarrow> nat res" where
  "le_uint n b = (if length b < n then Inl (Panic ''index out of range'') else Inr (le_val (take n b)))"

definition be_uint :: "nat \<Rightarrow> bytes \<Rightarrow> nat res" where
  "be_uint n b = (if length b < n then Inl (Panic ''index out of range'') else Inr (be_val (take n b)))"

subsection \<open>Integer encoders and decoders\<close>

text \<open>\<open>byte(i >> k & 0xFF)\<close> on a signed integer: an arithmetic shift, then the low byte.\<close>

definition byte_at :: "nat \<Rightarrow> 'a::len word \<Rightarrow> byte" where
  "byte_at k w = ucast (signed_drop_bit k w AND 0xFF)"

definition int32_to_bytes :: "int32 \<Rightarrow> bytes" where
  "int32_to_bytes i32 = [byte_at 0 i32, byte_at 8 i32, byte_at 16 i32, byte_at 24 i32]"

definition int64_to_bytes :: "int64 \<Rightarrow> bytes" where
  "int64_to_bytes i64 =
     [byte_at 0 i64, byte_at 8 i64, byte_at 16 i64, byte_at 24 i64,
      byte_at 32 i64, byte_at 40 i64, byte_at 48 i64, byte_at 56 i64]"

definition bint64_to_bytes :: "int64 \<Rightarrow> bytes" where
  "bint64_to_bytes i64 =
     [byte_at 56 i64, byte_at 48 i64, byte_at 40 i64, byte_at 32 i64,
      byte_at 24 i64, byte_at 16 i64, byte_at 8 i64, byte_at 0 i64]"

definition bint32_to_bytes :: "int32 \<Rightarrow> bytes" where
  "bint32_to_bytes i32 = [byte_at 24 i32, byte_at 16 i32, byte_at 8 i32, byte_at 0 i32]"

definition int16_to_bytes :: "int16 \<Rightarrow> bytes" where
  "int16_to_bytes i16 = [byte_at 0 i16, byte_at 8 i16]"

definition bytes_to_bint32 :: "bytes \<Rightarrow> int32 res" where
  "bytes_to_bint32 b = bind_res (be_uint 4 b) (\<lambda>n. Inr (of_nat n))"

definition bytes_to_int32 :: "bytes \<Rightarrow> int32 res" where
  "bytes_to_int32 b = bind_res (le_uint 4 b) (\<lambda>n. Inr (of_nat n))"

definition bytes_to_bint16 :: "bytes \<Rightarrow> int16 res" where
  "bytes_to_bint16 b = bind_res (be_uint 2 b) (\<lambda>n. Inr (of_nat n))"

definition bytes_to_buint16 :: "bytes \<Rightarrow> nat res" where
  "bytes_to_buint16 b = be_uint 2 b"

definition bytes_to_int16 :: "bytes \<Rightarrow> int16 res" where
  "bytes_to_int16 b = bind_res (le_uint 2 b) (\<lambda>n. Inr (of_nat n))"

definition bytes_to_uint16 :: "bytes \<Rightarrow> nat res" where
  "bytes_to_uint16 b = le_uint 2 b"

definition bytes_to_bint64 :: "bytes \<Rightarrow> int64 res" where
  "bytes_to_bint64 b = bind_res (be_uint 8 b) (\<lambda>n. Inr (of_nat n))"

definition bytes_to_int64 :: "bytes \<Rightarrow> int64 res" where
  "bytes_to_int64 b = bind_res (le_uint 8 b) (\<lambda>n. Inr (of_nat n))"

lemma byte_at_of_nat:
  fixes w :: "'a::len word"
  assumes "k + 8 \<le> LENGTH('a)"
  shows "byte_at k w = of_nat (unat w div 2 ^ k mod 256)"
proof -
  have m: "(0xFF :: 'a word) = mask 8"
    by (simp add: mask_eq_exp_minus_1)
  have bits: "bit (byte_at k w) n \<longleftrightarrow> bit (ucast (drop_bit k w) :: byte) n"
    if "n < 8" for n
    using assms that by (auto simp: byte_at_def m bit_simps not_le)
  have "byte_at k w = ucast (drop_bit k w)"
    by (rule bit_word_eqI) (simp add: bits)
  then have "unat (byte_at k w) = unat w div 2 ^ k mod 256"
    by (simp add: unsigned_ucast_eq unat_drop_bit_eq take_bit_eq_mod
        flip: drop_bit_eq_div)
  then show ?thesis by (simp add: word_unat_eq_iff unat_of_nat)
qed

lemma le_bytes_map: "le_bytes n x = map (\<lambda>k. of_nat (x div 2 ^ (8 * k) mod 256)) [0..<n]"
proof (induction n arbitrary: x)
  case (Suc n)
  have "x div 256 div 2 ^ (8 * k) = x div 2 ^ (8 * Suc k)" for k
    by (simp add: div_mult2_eq [symmetric] power_add)
  with Suc show ?case by (simp add: upt_conv_Cons map_Suc_upt [symmetric] del: upt_Suc)
qed simp

lemma int32_to_bytes_le: "int32_to_bytes w = le_bytes 4 (unat w)"
  by (simp add: int32_to_bytes_def byte_at_of_nat le_bytes_map upt_rec)

lemma int64_to_bytes_le: "int64_to_bytes w = le_bytes 8 (unat w)"
  by (simp add: int64_to_bytes_def byte_at_of_nat le_bytes_map upt_rec)

lemma int16_to_bytes_le: "int16_to_bytes w = le_bytes 2 (unat w)"
  by (simp add: int16_to_bytes_def byte_at_of_nat le_bytes_map upt_rec)

lemma bint32_to_bytes_be: "bint32_to_bytes w = be_bytes 4 (unat w)"
proof -
  have "bint32_to_bytes w = rev (int32_to_bytes w)"
    by (simp add: bint32_to_bytes_def int32_to_bytes_def)
  then show ?thesis by (simp add: int32_to_bytes_le be_bytes_def)
qed

lemma bint64_to_bytes_be: "bint64_to_bytes w = be_bytes 8 (unat w)"
proof -
  have "bint64_to_bytes w = rev (int64_to_bytes w)"
    by (simp add: bint64_to_bytes_def int64_to_bytes_def)
  then show ?thesis by (simp add: int64_to_bytes_le be_bytes_def)
qed

subsection \<open>The contract of a fixed-width codec\<close>

text \<open>
  An encoder of constant width and the decoder that reads a value back from the front of a
  buffer: the interface the parameter-block reader, the event buffer and the packet parsers
  rely on.
\<close>

text \<open>A sequence of \<open>n\<close> values of width \<open>w\<close>, one after another.\<close>

fun dec_seq :: "nat \<Rightarrow> (bytes \<Rightarrow> 'a res) \<Rightarrow> nat \<Rightarrow> bytes \<Rightarrow> 'a list res" where
  "dec_seq w dec 0 b = Inr []"
| "dec_seq w dec (Suc n) b =
     bind_res (dec b) (\<lambda>x. bind_res (dec_seq w dec n (drop w b)) (\<lambda>xs. Inr (x # xs)))"

locale fixed_codec =
  fixes width :: nat
    and enc :: "'a \<Rightarrow> bytes"
    and dec :: "bytes \<Rightarrow> 'a res"
  assumes enc_length: "length (enc x) = width"
    and dec_enc: "dec (enc x @ rest) = Inr x"
    and dec_short: "length b < width \<Longrightarrow> \<exists>m. dec b = Inl (Panic m)"
    and dec_long: "width \<le> length b \<Longrightarrow> \<exists>x. dec b = Inr x \<and> enc x = take width b"
begin

lemma dec_enc_Nil: "dec (enc x) = Inr x"
  using dec_enc [of x "[]"] by simp

lemma enc_inj: "enc x = enc y \<longleftrightarrow> x = y"
  by (metis dec_enc_Nil sum.inject(2))

lemma no_panic_dec_iff: "no_panic (dec b) \<longleftrightarrow> width \<le> length b"
  using dec_short [of b] dec_long [of b] by (cases "width \<le> length b") (auto simp: not_le)

lemma dec_take: "width \<le> length b \<Longrightarrow> dec (take width b) = dec b"
  by (metis dec_long dec_enc_Nil)

lemma dec_slice: "width \<le> n \<Longrightarrow> width \<le> length b \<Longrightarrow> dec (take n b) = dec b"
  using dec_take [of b] dec_take [of "take n b"] by (simp add: min_def)

lemma dec_frame: "width \<le> length b \<Longrightarrow> dec (b @ rest) = dec b"
  using dec_take [of b] dec_take [of "b @ rest"] by simp

lemma dec_seq_enc: "dec_seq width dec (length xs) (concat (map enc xs) @ rest) = Inr xs"
  by (induction xs) (simp_all add: dec_enc enc_length)

end

lemma le_uint_long: "n \<le> length b \<Longrightarrow> le_uint n b = Inr (le_val (take n b))"
  by (simp add: le_uint_def)

lemma be_uint_long: "n \<le> length b \<Longrightarrow> be_uint n b = Inr (be_val (take n b))"
  by (simp add: be_uint_def)

lemma unat_of_le_val: "8 * length b \<le> LENGTH('a) \<Longrightarrow> unat (of_nat (le_val b) :: 'a::len word) = le_val b"
proof -
  assume a: "8 * length b \<le> LENGTH('a)"
  have "le_val b < 2 ^ (8 * length b)"
    using le_val_lt [of b] by (simp add: power_mult)
  also have "\<dots> \<le> 2 ^ LENGTH('a)" using a by simp
  finally show ?thesis by (simp add: unat_of_nat)
qed

lemma unat_of_be_val: "8 * length b \<le> LENGTH('a) \<Longrightarrow> unat (of_nat (be_val b) :: 'a::len word) = be_val b"
  using unat_of_le_val [of "rev b"] by (simp add: be_val_def)

lemma le_codec:
  fixes enc :: "'a::len word \<Rightarrow> bytes"
  assumes enc: "\<And>w. enc w = le_bytes n (unat w)"
    and dec: "\<And>b. dec b = bind_res (le_uint n b) (\<lambda>x. Inr (of_nat x))"
    and n: "LENGTH('a) = 8 * n"
  shows "fixed_codec n enc dec"
proof
  have lt: "unat (x :: 'a word) < 256 ^ n" for x
    using unsigned_less [of x] by (simp add: n power_mult)
  fix x :: "'a word" and rest b
  show "length (enc x) = n" by (simp add: enc)
  show "dec (enc x @ rest) = Inr x"
    by (simp add: dec enc le_uint_long le_val_le_bytes lt)
  show "length b < n \<Longrightarrow> \<exists>m. dec b = Inl (Panic m)"
    by (simp add: dec le_uint_def)
  show "n \<le> length b \<Longrightarrow> \<exists>x. dec b = Inr x \<and> enc x = take n b"
    by (simp add: dec enc le_uint_long unat_of_le_val n le_bytes_le_val)
qed

lemma be_codec:
  fixes enc :: "'a::len word \<Rightarrow> bytes"
  assumes enc: "\<And>w. enc w = be_bytes n (unat w)"
    and dec: "\<And>b. dec b = bind_res (be_uint n b) (\<lambda>x. Inr (of_nat x))"
    and n: "LENGTH('a) = 8 * n"
  shows "fixed_codec n enc dec"
proof
  have lt: "unat (x :: 'a word) < 256 ^ n" for x
    using unsigned_less [of x] by (simp add: n power_mult)
  fix x :: "'a word" and rest b
  show "length (enc x) = n" by (simp add: enc)
  show "dec (enc x @ rest) = Inr x"
    by (simp add: dec enc be_uint_long be_val_be_bytes lt)
  show "length b < n \<Longrightarrow> \<exists>m. dec b = Inl (Panic m)"
    by (simp add: dec be_uint_def)
  show "n \<le> length b \<Longrightarrow> \<exists>x. dec b = Inr x \<and> enc x = take n b"
    by (simp add: dec enc be_uint_long unat_of_be_val n be_bytes_be_val)
qed

interpretation int16_codec: fixed_codec 2 int16_to_bytes bytes_to_int16
  by (rule le_codec) (simp_all add: int16_to_bytes_le bytes_to_int16_def)

interpretation int32_codec: fixed_codec 4 int32_to_bytes bytes_to_int32
  by (rule le_codec) (simp_all add: int32_to_bytes_le bytes_to_int32_def)

interpretation int64_codec: fixed_codec 8 int64_to_bytes bytes_to_int64
  by (rule le_codec) (simp_all add: int64_to_bytes_le bytes_to_int64_def)

interpretation bint32_codec: fixed_codec 4 bint32_to_bytes bytes_to_bint32
  by (rule be_codec) (simp_all add: bint32_to_bytes_be bytes_to_bint32_def)

interpretation bint64_codec: fixed_codec 8 bint64_to_bytes bytes_to_bint64
  by (rule be_codec) (simp_all add: bint64_to_bytes_be bytes_to_bint64_def)

subsection \<open>XDR counted bytes and BLR descriptors\<close>

definition xdr_padding :: "int \<Rightarrow> int" where
  "xdr_padding n = (if n mod 4 \<noteq> 0 then 4 - n mod 4 else 0)"

definition xdrBytes :: "bytes \<Rightarrow> bytes" where
  "xdrBytes bs =
     (let n = int (length bs);
          padding = xdr_padding n
      in [word_of_int (drop_bit 24 n AND 0xFF), word_of_int (drop_bit 16 n AND 0xFF),
          word_of_int (drop_bit 8 n AND 0xFF), word_of_int (n AND 0xFF)]
         @ bs @ replicate (nat padding) 0)"

definition xdrString :: "string \<Rightarrow> bytes" where
  "xdrString s = xdrBytes (str_to_bytes s)"

text \<open>Each \<open>_xToBlr\<close> returns the BLR type descriptor and the encoded value.\<close>

definition int64ToBlr :: "int64 \<Rightarrow> bytes \<times> bytes" where
  "int64ToBlr i64 = ([16, 0], bint64_to_bytes i64)"

definition int32ToBlr :: "int32 \<Rightarrow> bytes \<times> bytes" where
  "int32ToBlr i32 = ([8, 0], bint32_to_bytes i32)"

text \<open>A \<open>float64\<close> is its IEEE bit pattern; \<open>binary.Write\<close> emits it big-endian.\<close>

definition float64ToBlr :: "64 word \<Rightarrow> bytes \<times> bytes" where
  "float64ToBlr bits = ([27], be_bytes 8 (unat bits))"

definition bytesToBlr :: "bytes \<Rightarrow> bytes \<times> bytes" where
  "bytesToBlr v =
     (let nbytes = int (length v);
          pad_length = (4 - nbytes) AND 3
      in ([14, word_of_int (nbytes AND 255), word_of_int (drop_bit 8 nbytes)],
          v @ replicate (nat pad_length) 0))"

lemma int_and_3: "(x :: int) AND 3 = x mod 4"
  using take_bit_eq_mod [of 2 x] by (simp add: take_bit_eq_mask mask_eq_exp_minus_1)

lemma int_and_255: "(x :: int) AND 255 = x mod 256"
  using take_bit_eq_mod [of 8 x] by (simp add: take_bit_eq_mask mask_eq_exp_minus_1)

lemma pad4_eq: "(4 - int n) AND 3 = xdr_padding (int n)"
  unfolding int_and_3 xdr_padding_def by presburger

lemma xdr_padding_range: "0 \<le> xdr_padding n" "xdr_padding n \<le> 3"
  by (auto simp: xdr_padding_def)

lemma xdr_padding_dvd: "4 dvd n + xdr_padding n"
  unfolding xdr_padding_def by presburger

lemma word_of_int_mod_256: "word_of_int (x mod 256) = (word_of_int x :: byte)"
  using word_of_int_eq_iff [of "x mod 256" x, where ?'a = 8] by (simp add: take_bit_eq_mod)

lemma word_of_int_byte: "(word_of_int (drop_bit k (int n) AND 0xFF) :: byte) = of_nat (n div 2 ^ k mod 256)"
proof -
  have "drop_bit k (int n) AND 0xFF = int (n div 2 ^ k mod 256)"
    by (simp add: int_and_255 drop_bit_eq_div zdiv_int zmod_int)
  then show ?thesis by (simp only: of_int_of_nat_eq)
qed

lemma be_bytes_4_int:
  "be_bytes 4 n = [word_of_int (drop_bit 24 (int n) AND 0xFF), word_of_int (drop_bit 16 (int n) AND 0xFF),
          word_of_int (drop_bit 8 (int n) AND 0xFF), word_of_int (int n AND 0xFF)]"
proof -
  have "(word_of_int (int n AND 0xFF) :: byte) = of_nat (n mod 256)"
    using word_of_int_byte [of 0 n] by simp
  then show ?thesis
    by (simp only: word_of_int_byte) (simp add: be_bytes_def le_bytes_map upt_rec)
qed

lemma xdrBytes_eq: "xdrBytes bs = be_bytes 4 (length bs) @ bs @ replicate (nat (xdr_padding (int (length bs)))) 0"
  by (simp add: xdrBytes_def Let_def be_bytes_4_int)

lemma length_xdrBytes: "int (length (xdrBytes bs)) = 4 + int (length bs) + xdr_padding (int (length bs))"
  using xdr_padding_range [of "int (length bs)"] by (simp add: xdrBytes_eq)

lemma xdrBytes_aligned: "4 dvd length (xdrBytes bs)"
proof -
  have "4 dvd int (length (xdrBytes bs))"
    unfolding length_xdrBytes using xdr_padding_dvd [of "int (length bs)"] by presburger
  then show ?thesis by presburger
qed

lemma bytesToBlr_value: "snd (bytesToBlr v) = v @ replicate (nat (xdr_padding (int (length v)))) 0"
  by (simp add: bytesToBlr_def Let_def pad4_eq)

subsection \<open>Properties\<close>

text \<open>Every integer the driver puts on the wire is read back unchanged from the front of a
  message, and the five encoders emit exactly 4, 8, 8, 4 and 2 bytes.\<close>

theorem integer_codecs_roundtrip:
  "bytes_to_int32 (int32_to_bytes i @ rest) = Inr i \<and> length (int32_to_bytes i) = 4 \<and>
   bytes_to_int64 (int64_to_bytes l @ rest) = Inr l \<and> length (int64_to_bytes l) = 8 \<and>
   bytes_to_bint64 (bint64_to_bytes l @ rest) = Inr l \<and> length (bint64_to_bytes l) = 8 \<and>
   bytes_to_bint32 (bint32_to_bytes i @ rest) = Inr i \<and> length (bint32_to_bytes i) = 4 \<and>
   bytes_to_int16 (int16_to_bytes s @ rest) = Inr s \<and> length (int16_to_bytes s) = 2"
  by (simp add: int32_codec.dec_enc int32_codec.enc_length int64_codec.dec_enc int64_codec.enc_length
      bint64_codec.dec_enc bint64_codec.enc_length bint32_codec.dec_enc bint32_codec.enc_length
      int16_codec.dec_enc int16_codec.enc_length)

end
