(* ===== verification/Calendar.thy ===== *)
theory Calendar
  imports Wire_Codec "HOL-Library.Signed_Division"
begin

text \<open>
  DATE, TIME and TIMESTAMP on the wire: the encoders \<open>_convert_date\<close>,
  \<open>_convert_time\<close>, \<open>_convert_timestamp\<close> of \<open>utils.go\<close> and the decoders
  \<open>_parseDate\<close>, \<open>_parseTime\<close> of \<open>xsqlvar.go\<close>. A day travels as the signed number of
  days since 1858-11-17, a time of day as the number of 100-microsecond units.
  Go's integer division truncates towards zero: it is \<open>sdiv\<close> (and \<open>%\<close> is \<open>smod\<close>).
  The record \<open>go_time\<close> holds the civil components a \<open>time.Time\<close> reports; locations
  and their offsets are not modelled.
\<close>

record go_time =
  t_year :: int
  t_month :: int
  t_day :: int
  t_hour :: int
  t_minute :: int
  t_second :: int
  t_nanosecond :: int

definition convert_date_num :: "go_time \<Rightarrow> int" where
  "convert_date_num t =
     (let i = t_month t + 9;
          jy = t_year t + (i sdiv 12) - 1;
          jm = i smod 12;
          c = jy sdiv 100;
          jy = jy - 100 * c
      in (146097 * c) sdiv 4 + (1461 * jy) sdiv 4 + (153 * jm + 2) sdiv 5 + t_day t - 678882)"

definition convert_date :: "go_time \<Rightarrow> bytes" where
  "convert_date t = bint32_to_bytes (word_of_int (convert_date_num t))"

definition convert_time_num :: "go_time \<Rightarrow> int" where
  "convert_time_num t =
     (t_hour t * 3600 + t_minute t * 60 + t_second t) * 10000 + t_nanosecond t sdiv 100000"

definition convert_time :: "go_time \<Rightarrow> bytes" where
  "convert_time t = bint32_to_bytes (word_of_int (convert_time_num t))"

definition convert_timestamp :: "go_time \<Rightarrow> bytes" where
  "convert_timestamp t = concat [convert_date t, convert_time t]"

text \<open>The trailing four bytes of a WITH TIME ZONE value: an empty displacement and the zone id.\<close>

definition timezoneToBytes :: "int32 \<Rightarrow> bytes" where
  "timezoneToBytes tzID = [0, 0, ucast (signed_drop_bit 8 tzID), ucast tzID]"

definition dateToBlr :: "go_time \<Rightarrow> bytes \<times> bytes" where
  "dateToBlr t = ([12], convert_date t)"

definition timeToBlrNoTZ :: "go_time \<Rightarrow> bytes \<times> bytes" where
  "timeToBlrNoTZ t = ([13], convert_time t)"

definition timestampToBlrNoTZ :: "go_time \<Rightarrow> bytes \<times> bytes" where
  "timestampToBlrNoTZ t = ([35], convert_timestamp t)"

subsection \<open>The decoders\<close>

definition parse_date_num :: "int \<Rightarrow> int \<times> int \<times> int" where
  "parse_date_num n =
     (let nday = n + 678882;
          century = (4 * nday - 1) sdiv 146097;
          nday = 4 * nday - 1 - 146097 * century;
          day = nday sdiv 4;
          nday = (4 * day + 3) sdiv 1461;
          day = 4 * day + 3 - 1461 * nday;
          day = (day + 4) sdiv 4;
          month = (5 * day - 3) sdiv 153;
          day = 5 * day - 3 - 153 * month;
          day = (day + 5) sdiv 5;
          year = 100 * century + nday
      in if month < 10 then (year, month + 3, day) else (year + 1, month - 9, day))"

definition parseDate :: "bytes \<Rightarrow> (int \<times> int \<times> int) res" where
  "parseDate raw = bind_res (bytes_to_bint32 raw) (\<lambda>w. Inr (parse_date_num (sint w)))"

definition parse_time_num :: "int \<Rightarrow> int \<times> int \<times> int \<times> int" where
  "parse_time_num n =
     (let s = n sdiv 10000;
          m = s sdiv 60;
          h = m sdiv 60;
          m = m smod 60;
          s = s smod 60
      in (h, m, s, (n smod 10000) * 100000))"

definition parseTime :: "bytes \<Rightarrow> (int \<times> int \<times> int \<times> int) res" where
  "parseTime raw = bind_res (bytes_to_bint32 raw) (\<lambda>w. Inr (parse_time_num (sint w)))"

text \<open>
  What \<open>parseTimestamp\<close> and \<open>parseTimestampTz\<close> begin with: the date in the first four bytes, the time of
  day in the next four. These are the civil arguments of the \<open>time.Date\<close> call that follows.
\<close>

definition timestamp_fields :: "bytes \<Rightarrow> go_time res" where
  "timestamp_fields raw =
     bind_res (bind_res (go_slice raw 0 4) parseDate) (\<lambda>(year, month, day).
     bind_res (bind_res (go_slice raw 4 8) parseTime) (\<lambda>(h, m, s, n).
     Inr \<lparr> t_year = year, t_month = month, t_day = day,
           t_hour = h, t_minute = m, t_second = s, t_nanosecond = n \<rparr>))"


subsection \<open>The Gregorian calendar\<close>

definition leap_year :: "int \<Rightarrow> bool" where
  "leap_year y \<longleftrightarrow> 4 dvd y \<and> (\<not> 100 dvd y \<or> 400 dvd y)"

definition days_in_month :: "int \<Rightarrow> int \<Rightarrow> int" where
  "days_in_month y m =
     (if m = 2 then (if leap_year y then 29 else 28)
      else if m \<in> {4, 6, 9, 11} then 30 else 31)"

definition valid_date :: "int \<Rightarrow> int \<Rightarrow> int \<Rightarrow> bool" where
  "valid_date y m d \<longleftrightarrow> 1 \<le> m \<and> m \<le> 12 \<and> 1 \<le> d \<and> d \<le> days_in_month y m"

definition valid_time_of_day :: "go_time \<Rightarrow> bool" where
  "valid_time_of_day t \<longleftrightarrow>
     0 \<le> t_hour t \<and> t_hour t < 24 \<and> 0 \<le> t_minute t \<and> t_minute t < 60 \<and>
     0 \<le> t_second t \<and> t_second t < 60 \<and> 0 \<le> t_nanosecond t \<and> t_nanosecond t < 1000000000"

text \<open>The day after a date.\<close>

definition next_date :: "int \<times> int \<times> int \<Rightarrow> int \<times> int \<times> int" where
  "next_date = (\<lambda>(y, m, d).
     if d < days_in_month y m then (y, m, d + 1)
     else if m < 12 then (y, m + 1, 1) else (y + 1, 1, 1))"

lemma sdiv_nonneg: "0 \<le> a \<Longrightarrow> 0 < b \<Longrightarrow> a sdiv b = a div (b :: int)"
  by (cases a "0 :: int" rule: linorder_cases) (simp_all add: signed_divide_int_def)

lemma smod_nonneg: "0 \<le> a \<Longrightarrow> 0 < b \<Longrightarrow> a smod b = a mod (b :: int)"
  by (cases a "0 :: int" rule: linorder_cases) (simp_all add: signed_modulo_int_def)

text \<open>The March-based year: \<open>jy\<close> counts years from March, \<open>jm\<close> months from March.\<close>

definition march_num :: "int \<Rightarrow> int \<Rightarrow> int \<Rightarrow> int" where
  "march_num jy jm d =
     146097 * (jy div 100) div 4 + 1461 * (jy mod 100) div 4 + (153 * jm + 2) div 5 + d - 678882"

definition march_ok :: "int \<Rightarrow> int \<Rightarrow> int \<Rightarrow> bool" where
  "march_ok jy jm d \<longleftrightarrow> 0 \<le> jy \<and> 0 \<le> jm \<and> jm \<le> 11 \<and> 1 \<le> d \<and>
     d \<le> (if jm = 11 then (if leap_year (jy + 1) then 29 else 28)
          else if jm \<in> {1, 3, 6, 8} then 30 else 31)"

definition year_start :: "int \<Rightarrow> int" where
  "year_start jy = 146097 * (jy div 100) div 4 + 1461 * (jy mod 100) div 4 - 678882"

definition year_day :: "int \<Rightarrow> int \<Rightarrow> int" where
  "year_day jm d = (153 * jm + 2) div 5 + d - 1"

lemma march_num_split: "march_num jy jm d = year_start jy + year_day jm d + 1"
  by (simp add: march_num_def year_start_def year_day_def)

lemma march_months:
  assumes "march_ok jy jm d"
  shows "jm = 0 \<or> jm = 1 \<or> jm = 2 \<or> jm = 3 \<or> jm = 4 \<or> jm = 5 \<or> jm = 6 \<or> jm = 7 \<or>
      jm = 8 \<or> jm = 9 \<or> jm = 10 \<or> jm = 11"
proof -
  have "0 \<le> jm" "jm \<le> 11" using assms by (auto simp: march_ok_def)
  then show ?thesis by presburger
qed

lemma march_days:
  assumes "march_ok jy jm d"
  shows "1 \<le> d" "d \<le> 31" "jm \<in> {1, 3, 6, 8} \<Longrightarrow> d \<le> 30"
    and "jm = 11 \<Longrightarrow> d \<le> 28 + of_bool (leap_year (jy + 1))" and "jm = 11 \<Longrightarrow> d \<le> 29"
  using assms by (auto simp: march_ok_def split: if_splits)

lemma leap_split:
  "leap_year (jy + 1) \<longleftrightarrow> (if jy mod 100 = 99 then (jy div 100) mod 4 = 3 else (jy mod 100) mod 4 = 3)"
proof -
  define q ya where "q = jy div 100" and "ya = jy mod 100"
  have ya: "0 \<le> ya" "ya \<le> 99" by (simp_all add: ya_def)
  have jy: "jy + 1 = 100 * q + (ya + 1)" by (simp add: q_def ya_def)
  have "4 dvd 100 * q + (ya + 1) \<longleftrightarrow> 4 dvd ya + 1" by presburger
  then have l4: "4 dvd jy + 1 \<longleftrightarrow> ya mod 4 = 3" unfolding jy by presburger
  have l100: "100 dvd jy + 1 \<longleftrightarrow> ya = 99"
  proof -
    have "100 dvd jy + 1 \<longleftrightarrow> 100 dvd ya + 1" unfolding jy by (simp add: dvd_add_right_iff)
    also have "\<dots> \<longleftrightarrow> ya = 99" using ya zdvd_imp_le [of 100 "ya + 1"] by auto
    finally show ?thesis .
  qed
  have l400: "ya = 99 \<Longrightarrow> 400 dvd jy + 1 \<longleftrightarrow> q mod 4 = 3"
  proof -
    assume "ya = 99"
    then have "jy + 1 = 100 * (q + 1)" using jy by simp
    moreover have "400 dvd 100 * (q + 1) \<longleftrightarrow> 4 dvd q + 1"
      using dvd_times_left_cancel_iff [of 100 4 "q + 1"] by simp
    ultimately have "400 dvd jy + 1 \<longleftrightarrow> 4 dvd q + 1" by (simp only:)
    then show ?thesis by presburger
  qed
  show ?thesis
    unfolding leap_year_def l4 l100 q_def [symmetric] ya_def [symmetric]
    using l400 by (cases "ya = 99") auto
qed

lemma year_day_bound:
  assumes "march_ok jy jm d"
  shows "0 \<le> year_day jm d" "year_day jm d \<le> 364 + of_bool (leap_year (jy + 1))"
proof -
  note d = march_days [OF assms]
  show "0 \<le> year_day jm d"
    using march_months [OF assms] d(1) unfolding year_day_def by (elim disjE) simp_all
  show "year_day jm d \<le> 364 + of_bool (leap_year (jy + 1))"
    using march_months [OF assms] d unfolding year_day_def by auto
qed

lemma year_day_decode:
  assumes "march_ok jy jm d"
  shows "(5 * (year_day jm d + 1) - 3) div 153 = jm"
    and "(5 * (year_day jm d + 1) - 3 - 153 * jm + 5) div 5 = d"
proof -
  define r where "r = 5 * (year_day jm d + 1) - 3 - 153 * jm"
  have r: "5 * d - 5 \<le> r \<and> r \<le> 5 * d - 1 \<and> r < 153"
    using march_months [OF assms] march_days [OF assms] unfolding r_def year_day_def
    by (elim disjE) simp_all
  then show "(5 * (year_day jm d + 1) - 3) div 153 = jm"
    using march_days(1) [OF assms] by (intro int_div_pos_eq [where r = r]) (simp_all add: r_def)
  have "(r + 5) div 5 = d" using r by (intro int_div_pos_eq [where r = "r + 5 - 5 * d"]) simp_all
  then show "(5 * (year_day jm d + 1) - 3 - 153 * jm + 5) div 5 = d"
    by (simp add: r_def)
qed

lemma century_decode:
  fixes q ya r s :: int
  assumes "0 \<le> ya" "ya \<le> 99" "0 \<le> s" "s \<le> 364 + of_bool (if ya = 99 then q mod 4 = 3 else ya mod 4 = 3)"
    and n: "n = 146097 * q div 4 + 1461 * ya div 4 + s + 1"
  shows "(4 * n - 1) div 146097 = q"
    and "(4 * n - 1 - 146097 * q) div 4 = 1461 * ya div 4 + s"
    and "(4 * (1461 * ya div 4 + s) + 3) div 1461 = ya"
    and "(4 * (1461 * ya div 4 + s) + 3 - 1461 * ya + 4) div 4 = s + 1"
proof -
  define R where "R = 1461 * ya div 4 + s"
  have "146097 * q div 4 = 36524 * q + q div 4"
    using div_mult_self1 [of 4 q "36524 * q"] by simp
  then have q4: "4 * (146097 * q div 4) = 146097 * q - q mod 4"
    using mult_div_mod_eq [of 4 q] by linarith
  have "1461 * ya div 4 = 365 * ya + ya div 4"
    using div_mult_self1 [of 4 ya "365 * ya"] by simp
  then have y4: "4 * (1461 * ya div 4) = 1461 * ya - ya mod 4"
    using mult_div_mod_eq [of 4 ya] by linarith
  have r4: "4 * R = 1461 * ya - ya mod 4 + 4 * s" by (simp add: R_def y4)
  define A where "A = 146097 * q div 4"
  have "4 * n - 1 = 4 * A + 4 * R + 3"
    by (simp add: n R_def A_def)
  then have n4: "4 * n - 1 = 146097 * q - q mod 4 + 4 * R + 3"
    using q4 by (simp add: A_def)
  have yq: "0 \<le> q mod 4" "q mod 4 \<le> 3" "0 \<le> ya mod 4" "ya mod 4 \<le> 3" by simp_all
  have s365: "s \<le> 364 \<or> (s \<le> 365 \<and> ya = 99 \<and> q mod 4 = 3 \<and> ya mod 4 = 3) \<or>
      (s \<le> 365 \<and> ya \<noteq> 99 \<and> ya mod 4 = 3)"
    using assms(4) by (cases "ya = 99"; cases "q mod 4 = 3"; cases "ya mod 4 = 3") simp_all
  have "0 \<le> R" using assms(1,3) by (simp add: R_def)
  then have lo: "0 \<le> 4 * R + 3 - q mod 4" using yq by linarith
  have ya98: "ya \<noteq> 99 \<Longrightarrow> ya \<le> 98" using assms by simp
  have hi: "4 * R + 3 - q mod 4 < 146097"
  proof (cases "ya = 99")
    case True
    then have "ya mod 4 = 3" by simp
    then show ?thesis using s365 r4 True yq by auto
  next
    case False
    then show ?thesis using s365 r4 ya98 yq by auto
  qed
  show "(4 * n - 1) div 146097 = q"
    using lo hi n4 by (intro int_div_pos_eq [where r = "4 * R + 3 - q mod 4"]) simp_all
  have "4 * n - 1 - 146097 * q = 4 * R + (3 - q mod 4)" using n4 by simp
  then show "(4 * n - 1 - 146097 * q) div 4 = 1461 * ya div 4 + s"
    using yq by (simp add: R_def [symmetric])
  show "(4 * (1461 * ya div 4 + s) + 3) div 1461 = ya"
    unfolding R_def [symmetric]
    using s365 r4 yq assms(3) by (intro int_div_pos_eq [where r = "4 * s + 3 - ya mod 4"]) auto
  have "4 * R + 3 - 1461 * ya + 4 = 4 * (s + 1) + (3 - ya mod 4)" using r4 by simp
  then show "(4 * (1461 * ya div 4 + s) + 3 - 1461 * ya + 4) div 4 = s + 1"
    unfolding R_def [symmetric] using yq by simp
qed

lemma parse_march:
  assumes ok: "march_ok jy jm d"
  shows "parse_date_num (march_num jy jm d) =
     (if jm < 10 then (jy, jm + 3, d) else (jy + 1, jm - 9, d))"
proof -
  define q ya s where "q = jy div 100" and "ya = jy mod 100" and "s = year_day jm d"
  define n where "n = march_num jy jm d + 678882"
  have jy: "100 * q + ya = jy" by (simp add: q_def ya_def)
  have ya: "0 \<le> ya" "ya \<le> 99" by (simp_all add: ya_def)
  have q: "0 \<le> q" using ok by (simp add: q_def march_ok_def pos_imp_zdiv_nonneg_iff)
  have s: "0 \<le> s" "s \<le> 364 + of_bool (if ya = 99 then q mod 4 = 3 else ya mod 4 = 3)"
    using year_day_bound [OF ok] unfolding leap_split s_def q_def ya_def by (simp_all only:)
  have n: "n = 146097 * q div 4 + 1461 * ya div 4 + s + 1"
    by (simp add: n_def march_num_def s_def year_day_def q_def ya_def)
  note dec = century_decode [OF ya s n]
  define R where "R = 1461 * ya div 4 + s"
  have pos: "0 \<le> n - 1" "0 \<le> R" using q ya s by (simp_all add: n R_def)
  have 1: "(4 * n - 1) sdiv 146097 = q"
    using dec(1) pos by (simp add: sdiv_nonneg)
  have "0 \<le> 4 * n - 1 - 146097 * q"
    using minus_mult_div_eq_mod [of "4 * n - 1" 146097] pos_mod_sign [of 146097 "4 * n - 1"]
    unfolding dec(1) by linarith
  then have 2: "(4 * n - 1 - 146097 * q) sdiv 4 = R"
    using dec(2) by (simp add: sdiv_nonneg R_def)
  have 3: "(4 * R + 3) sdiv 1461 = ya"
    using dec(3) pos by (simp add: sdiv_nonneg R_def)
  have "0 \<le> 4 * R + 3 - 1461 * ya"
    using dec(3) minus_mult_div_eq_mod [of "4 * R + 3" 1461] pos_mod_sign [of 1461 "4 * R + 3"]
    unfolding R_def [symmetric] by (simp del: pos_mod_sign)
  then have 4: "(4 * R + 3 - 1461 * ya + 4) sdiv 4 = s + 1"
    using dec(4) by (simp add: sdiv_nonneg R_def)
  have 5: "(5 * (s + 1) - 3) sdiv 153 = jm"
    using year_day_decode(1) [OF ok] s by (simp add: sdiv_nonneg s_def)
  have "0 \<le> 5 * (s + 1) - 3 - 153 * jm"
    using year_day_decode(1) [OF ok] minus_mult_div_eq_mod [of "5 * (s + 1) - 3" 153]
      pos_mod_sign [of 153 "5 * (s + 1) - 3"]
    unfolding s_def [symmetric] by (simp del: pos_mod_sign)
  then have 6: "(5 * (s + 1) - 3 - 153 * jm + 5) sdiv 5 = d"
    using year_day_decode(2) [OF ok] by (simp add: sdiv_nonneg s_def)
  show ?thesis
    unfolding parse_date_num_def Let_def n_def [symmetric] 1 2 3 4 5 6
    using jy by simp
qed

lemma convert_date_march:
  assumes "1 \<le> t_year t" "valid_date (t_year t) (t_month t) (t_day t)"
  defines "jy \<equiv> (if t_month t \<le> 2 then t_year t - 1 else t_year t)"
    and "jm \<equiv> (if t_month t \<le> 2 then t_month t + 9 else t_month t - 3)"
  shows "convert_date_num t = march_num jy jm (t_day t)" "march_ok jy jm (t_day t)"
proof -
  have m: "1 \<le> t_month t" "t_month t \<le> 12" using assms(2) by (auto simp: valid_date_def)
  have jm: "(t_month t + 9) smod 12 = jm" "(t_month t + 9) sdiv 12 = (if t_month t \<le> 2 then 0 else 1)"
    using m by (auto simp: smod_nonneg sdiv_nonneg jm_def) presburger+
  have jy: "t_year t + (t_month t + 9) sdiv 12 - 1 = jy"
    unfolding jm jy_def by simp
  have nn: "0 \<le> jy" "0 \<le> jm" using assms(1) m by (auto simp: jy_def jm_def)
  show "convert_date_num t = march_num jy jm (t_day t)"
    unfolding convert_date_num_def Let_def jm(1) jy march_num_def
    using nn by (simp add: sdiv_nonneg minus_mult_div_eq_mod pos_imp_zdiv_nonneg_iff)
  show "march_ok jy jm (t_day t)"
    using assms(1,2) m nn
    by (auto simp: march_ok_def jy_def jm_def valid_date_def days_in_month_def split: if_splits)
qed

lemma parse_date_convert_date:
  assumes "1 \<le> t_year t" "valid_date (t_year t) (t_month t) (t_day t)"
  shows "parse_date_num (convert_date_num t) = (t_year t, t_month t, t_day t)"
proof -
  have m: "1 \<le> t_month t" "t_month t \<le> 12" using assms(2) by (auto simp: valid_date_def)
  show ?thesis
    unfolding convert_date_march(1) [OF assms] parse_march [OF convert_date_march(2) [OF assms]]
    using m by auto
qed

lemma sint_word_of_int32:
  "- 2147483648 \<le> n \<Longrightarrow> n < 2147483648 \<Longrightarrow> sint (word_of_int n :: int32) = n"
  by (simp add: signed_of_int signed_take_bit_int_eq_self)

lemma march_num_bounds:
  assumes "march_ok jy jm d" "jy \<le> 5000000"
  shows "- 678882 < march_num jy jm d" "march_num jy jm d < 2147483648"
proof -
  have y: "0 \<le> jy div 100" "jy div 100 \<le> 50000" "0 \<le> jy mod 100" "jy mod 100 \<le> 99"
    using assms by (auto simp: march_ok_def pos_imp_zdiv_nonneg_iff)
  have d: "0 \<le> year_day jm d" "year_day jm d \<le> 365"
    using year_day_bound [OF assms(1)] by (auto simp: of_bool_def split: if_splits)
  show "- 678882 < march_num jy jm d" "march_num jy jm d < 2147483648"
    unfolding march_num_split year_start_def using y d by (simp_all add: pos_imp_zdiv_nonneg_iff add_pos_nonneg)
qed

lemma quarter_step:
  fixes a k x :: int
  assumes "a = 4 * k + 1"
  shows "a * (x + 1) div 4 = a * x div 4 + k + of_bool (x mod 4 = 3)"
proof -
  have e: "a * x div 4 = k * x + x div 4" for x
    using div_mult_self2 [of 4 x "k * x"] unfolding assms by (simp add: algebra_simps)
  have "(x + 1) div 4 = x div 4 + of_bool (x mod 4 = 3)" by (simp add: of_bool_def) presburger
  then show ?thesis unfolding e by (simp add: distrib_left)
qed

lemma year_start_step:
  assumes "0 \<le> jy"
  shows "year_start (jy + 1) = year_start jy + 365 + of_bool (leap_year (jy + 1))"
proof -
  define q ya where "q = jy div 100" and "ya = jy mod 100"
  have ya: "0 \<le> ya" "ya \<le> 99" by (simp_all add: ya_def)
  have jy: "jy = 100 * q + ya" by (simp add: q_def ya_def)
  show ?thesis
  proof (cases "ya = 99")
    case True
    then have "jy + 1 = 100 * (q + 1)" using jy by simp
    then have "(jy + 1) div 100 = q + 1" "(jy + 1) mod 100 = 0" by simp_all
    moreover have "leap_year (jy + 1) = (q mod 4 = 3)"
      unfolding leap_split q_def [symmetric] ya_def [symmetric] True by simp
    moreover have "146097 * (q + 1) div 4 = 146097 * q div 4 + 36524 + of_bool (q mod 4 = 3)"
      by (rule quarter_step) simp
    ultimately show ?thesis
      unfolding year_start_def q_def [symmetric] ya_def [symmetric] True by simp
  next
    case False
    then have "(jy + 1) div 100 = q" "(jy + 1) mod 100 = ya + 1"
      using ya jy by (auto intro!: int_div_pos_eq int_mod_pos_eq)
    moreover have "leap_year (jy + 1) = (ya mod 4 = 3)"
      unfolding leap_split q_def [symmetric] ya_def [symmetric] using False by simp
    moreover have "1461 * (ya + 1) div 4 = 1461 * ya div 4 + 365 + of_bool (ya mod 4 = 3)"
      by (rule quarter_step) simp
    ultimately show ?thesis
      unfolding year_start_def q_def [symmetric] ya_def [symmetric] by simp
  qed
qed

lemma march_start: "march_num jy jm d = year_start jy + (153 * jm + 2) div 5 + d"
  by (simp add: march_num_def year_start_def)

lemma next_date_valid:
  assumes "valid_date y m d" "next_date (y, m, d) = (y', m', d')"
  shows "valid_date y' m' d'" "y \<le> y'"
  using assms by (auto simp: valid_date_def next_date_def days_in_month_def split: if_splits)

lemma convert_date_num_next:
  assumes "1 \<le> t_year t" "valid_date (t_year t) (t_month t) (t_day t)"
    and "next_date (t_year t, t_month t, t_day t) = (t_year u, t_month u, t_day u)"
  shows "convert_date_num u = convert_date_num t + 1"
proof -
  define y m d where "y = t_year t" and "m = t_month t" and "d = t_day t"
  have m: "m = 1 \<or> m = 2 \<or> m = 3 \<or> m = 4 \<or> m = 5 \<or> m = 6 \<or> m = 7 \<or> m = 8 \<or> m = 9 \<or>
      m = 10 \<or> m = 11 \<or> m = 12"
    using assms(2) unfolding valid_date_def m_def by presburger
  note nd = next_date_valid [OF assms(2,3)]
  have u1: "1 \<le> t_year u" using nd(2) assms(1) by simp
  have d: "1 \<le> d" "d \<le> days_in_month y m"
    using assms(2) by (auto simp: valid_date_def y_def m_def d_def)
  have nx: "(t_year u, t_month u, t_day u) = next_date (y, m, d)"
    using assms(3) by (simp add: y_def m_def d_def)
  have ys: "year_start y = year_start (y - 1) + 365 + of_bool (leap_year y)"
    using year_start_step [of "y - 1"] assms(1) by (simp add: y_def)
  show ?thesis
    unfolding convert_date_march(1) [OF assms(1,2)] convert_date_march(1) [OF u1 nd(1)] march_start
    unfolding y_def [symmetric] m_def [symmetric] d_def [symmetric]
    using m nx d ys
    by (elim disjE) (auto simp: next_date_def days_in_month_def split: if_splits)
qed

lemma parseDate_convert_date:
  assumes "1 \<le> t_year t" "t_year t \<le> 5000000" "valid_date (t_year t) (t_month t) (t_day t)"
  shows "parseDate (convert_date t) = Inr (t_year t, t_month t, t_day t)"
proof -
  define jy where "jy = (if t_month t \<le> 2 then t_year t - 1 else t_year t)"
  have "jy \<le> 5000000" using assms(2) by (simp add: jy_def)
  note b = march_num_bounds [OF convert_date_march(2) [OF assms(1,3)], folded jy_def, OF this]
  then have "sint (word_of_int (convert_date_num t) :: int32) = convert_date_num t"
    unfolding convert_date_march(1) [OF assms(1,3)] jy_def [symmetric]
    by (intro sint_word_of_int32) simp_all
  then show ?thesis
    using parse_date_convert_date [OF assms(1,3)]
    by (simp add: parseDate_def convert_date_def bint32_codec.dec_enc_Nil)
qed

lemma parseTime_convert_time:
  assumes "valid_time_of_day t"
  shows "parseTime (convert_time t) =
    Inr (t_hour t, t_minute t, t_second t, t_nanosecond t div 100000 * 100000)"
proof -
  define S f where "S = t_hour t * 3600 + t_minute t * 60 + t_second t" and "f = t_nanosecond t div 100000"
  have f: "0 \<le> f" "f < 10000" using assms by (auto simp: valid_time_of_day_def f_def)
  have S: "0 \<le> S" "S < 86400" using assms by (auto simp: valid_time_of_day_def S_def)
  have n: "convert_time_num t = S * 10000 + f"
    using assms by (simp add: convert_time_num_def S_def f_def valid_time_of_day_def sdiv_nonneg)
  have "(S * 10000 + f) div 10000 = S" "(S * 10000 + f) mod 10000 = f"
    using f by (simp_all add: int_div_pos_eq int_mod_pos_eq)
  moreover have "S div 60 = t_hour t * 60 + t_minute t" "S mod 60 = t_second t"
    "S div 60 div 60 = t_hour t" "S div 60 mod 60 = t_minute t"
  proof -
    show e: "S div 60 = t_hour t * 60 + t_minute t"
      using assms by (intro int_div_pos_eq [where r = "t_second t"]) (auto simp: S_def valid_time_of_day_def)
    show "S mod 60 = t_second t"
      using assms by (intro int_mod_pos_eq [where q = "t_hour t * 60 + t_minute t"]) (auto simp: S_def valid_time_of_day_def)
    show "S div 60 div 60 = t_hour t" unfolding e
      using assms by (intro int_div_pos_eq [where r = "t_minute t"]) (auto simp: valid_time_of_day_def)
    show "S div 60 mod 60 = t_minute t" unfolding e
      using assms by (intro int_mod_pos_eq [where q = "t_hour t"]) (auto simp: valid_time_of_day_def)
  qed
  ultimately have "parse_time_num (S * 10000 + f) = (t_hour t, t_minute t, t_second t, f * 100000)"
    using f S unfolding parse_time_num_def Let_def
    by (simp add: sdiv_nonneg smod_nonneg)
  moreover have "sint (word_of_int (S * 10000 + f) :: int32) = S * 10000 + f"
    using f S by (intro sint_word_of_int32) simp_all
  ultimately show ?thesis
    unfolding parseTime_def convert_time_def bint32_codec.dec_enc_Nil n by (simp add: f_def)
qed

lemma convert_date_length [simp, codec_simps]: "length (convert_date t) = 4"
  by (simp add: convert_date_def bint32_codec.enc_length)

lemma convert_time_length [simp, codec_simps]: "length (convert_time t) = 4"
  by (simp add: convert_time_def bint32_codec.enc_length)

lemma fields_convert_timestamp:
  assumes "1 \<le> t_year t" "t_year t \<le> 5000000" "valid_date (t_year t) (t_month t) (t_day t)"
    and "valid_time_of_day t"
  shows "timestamp_fields (convert_timestamp t @ rest) =
    Inr (t\<lparr>t_nanosecond := t_nanosecond t div 100000 * 100000\<rparr>)"
  using parseDate_convert_date [OF assms(1-3)] parseTime_convert_time [OF assms(4)]
  by (simp add: timestamp_fields_def convert_timestamp_def)

lemma next_date_iterate:
  assumes "1 \<le> t_year t" "valid_date (t_year t) (t_month t) (t_day t)"
    and "(next_date ^^ k) (t_year t, t_month t, t_day t) = (y, m, d)"
  shows "1 \<le> y" "valid_date y m d"
    and "t_year u = y \<Longrightarrow> t_month u = m \<Longrightarrow> t_day u = d \<Longrightarrow>
      convert_date_num u = convert_date_num t + int k"
proof (atomize (full), use assms(3) in \<open>induction k arbitrary: y m d u\<close>)
  case 0
  then show ?case using assms(1,2) by (auto simp: convert_date_num_def)
next
  case (Suc k)
  obtain y1 m1 d1 where s: "(next_date ^^ k) (t_year t, t_month t, t_day t) = (y1, m1, d1)"
    using prod_cases3 by blast
  define v where "v = t\<lparr>t_year := y1, t_month := m1, t_day := d1\<rparr>"
  have v: "1 \<le> t_year v" "valid_date (t_year v) (t_month v) (t_day v)"
    and cv: "convert_date_num v = convert_date_num t + int k"
    using Suc.IH [OF s, of v] by (simp_all add: v_def)
  have nx: "next_date (t_year v, t_month v, t_day v) = (y, m, d)"
    using Suc.prems s by (simp add: v_def)
  show ?case
    using next_date_valid [OF v(2) nx] v(1) convert_date_num_next [OF v, of u] cv nx by auto
qed

subsection \<open>Properties\<close>

definition sample_time :: go_time where
  "sample_time = \<lparr> t_year = 2024, t_month = 2, t_day = 29,
     t_hour = 23, t_minute = 59, t_second = 58, t_nanosecond = 123456789 \<rparr>"

text \<open>The day number counts days: the encoding of the date \<open>k\<close> days after a date is \<open>k\<close>
  greater, through month ends, leap days and the century rule, and day 0 is 1858-11-17.\<close>

theorem convert_date_counts_days:
  assumes "1 \<le> t_year t" "valid_date (t_year t) (t_month t) (t_day t)"
    and "(next_date ^^ k) (t_year t, t_month t, t_day t) = (t_year u, t_month u, t_day u)"
  shows "convert_date_num u = convert_date_num t + int k \<and>
    convert_date_num (v\<lparr>t_year := 1858, t_month := 11, t_day := 17\<rparr>) = 0"
  using next_date_iterate(3) [OF assms, of u]
  by (simp add: convert_date_num_def Let_def sdiv_nonneg smod_nonneg)

theorem convert_date_counts_days_witness:
  "convert_date_num (sample_time\<lparr>t_month := 3, t_day := 2\<rparr>) = convert_date_num sample_time + int 2"
  using convert_date_counts_days [of sample_time 2 "sample_time\<lparr>t_month := 3, t_day := 2\<rparr>"]
  by (simp add: sample_time_def valid_date_def days_in_month_def leap_year_def next_date_def
      numeral_2_eq_2)

end
