(* ===== verification/Param_Block.thy ===== *)
theory Param_Block
  imports Wire_Codec
begin

text \<open>
  Firebird parameter blocks (\<open>xpb.go\<close>): \<open>XPBWriter\<close> appends tagged values, \<open>XPBReader\<close> is a
  bounds-checked cursor over a block that may come from the server. Reader operations return
  \<open>go_error + value * reader\<close>: \<open>Inl\<close> is a Go panic only, an out-of-bounds read is recorded
  in the reader's sticky error. The locale \<open>bounded_read\<close> is the contract every reader
  operation gives its callers; programs built from bounded reads are bounded reads.
\<close>

record xpb_reader =
  rbuf :: bytes
  rpos :: int
  rerr :: "string option"

type_synonym 'a reading = "xpb_reader \<Rightarrow> ('a \<times> xpb_reader) res"

definition NewXPBReader :: "bytes \<Rightarrow> xpb_reader" where
  "NewXPBReader buf = \<lparr> rbuf = buf, rpos = 0, rerr = None \<rparr>"

definition rd_fail :: "string \<Rightarrow> xpb_reader \<Rightarrow> xpb_reader" where
  "rd_fail msg r = r\<lparr> rerr := (case rerr r of None \<Rightarrow> Some msg | Some e \<Rightarrow> Some e),
                     rpos := int (length (rbuf r)) \<rparr>"

definition rd_End :: "xpb_reader \<Rightarrow> bool" where
  "rd_End r \<longleftrightarrow> int (length (rbuf r)) \<le> rpos r"

definition rd_Next :: "(bool \<times> byte) reading" where
  "rd_Next r =
     (if rd_End r then Inr ((False, 0), r)
      else bind_res (go_index (rbuf r) (rpos r)) (\<lambda>b. Inr ((True, b), r\<lparr>rpos := rpos r + 1\<rparr>)))"

definition rd_Skip :: "int \<Rightarrow> unit reading" where
  "rd_Skip count r =
     (if count < 0 \<or> rpos r + count > int (length (rbuf r))
      then Inr ((), rd_fail ''parameter block skip of %d out of range'' r)
      else Inr ((), r\<lparr>rpos := rpos r + count\<rparr>))"

definition rd_Get :: "byte reading" where
  "rd_Get r =
     (if rpos r \<ge> int (length (rbuf r))
      then Inr (0, rd_fail ''parameter block read past end'' r)
      else bind_res (go_index (rbuf r) (rpos r)) (\<lambda>b. Inr (b, r)))"

definition rd_GetInt16 :: "int16 reading" where
  "rd_GetInt16 r =
     (if rpos r + 2 > int (length (rbuf r))
      then Inr (0, rd_fail ''parameter block int16 read past end'' r)
      else bind_res (bind_res (go_slice (rbuf r) (rpos r) (rpos r + 2)) bytes_to_int16) (\<lambda>v.
           Inr (v, r\<lparr>rpos := rpos r + 2\<rparr>)))"

definition rd_GetInt32 :: "int32 reading" where
  "rd_GetInt32 r =
     (if rpos r + 4 > int (length (rbuf r))
      then Inr (0, rd_fail ''parameter block int32 read past end'' r)
      else bind_res (bind_res (go_slice (rbuf r) (rpos r) (rpos r + 4)) bytes_to_int32) (\<lambda>v.
           Inr (v, r\<lparr>rpos := rpos r + 4\<rparr>)))"

definition rd_GetInt64 :: "int64 reading" where
  "rd_GetInt64 r =
     (if rpos r + 8 > int (length (rbuf r))
      then Inr (0, rd_fail ''parameter block int64 read past end'' r)
      else bind_res (bind_res (go_slice (rbuf r) (rpos r) (rpos r + 8)) bytes_to_int64) (\<lambda>v.
           Inr (v, r\<lparr>rpos := rpos r + 8\<rparr>)))"

text \<open>\<open>GetString\<close> reads its length as a signed 16-bit integer.\<close>

definition rd_GetString :: "string reading" where
  "rd_GetString r =
     bind_res (rd_GetInt16 r) (\<lambda>(l16, r).
     let l = sint l16 in
     if l < 0 \<or> rpos r + l > int (length (rbuf r))
     then Inr ('''', rd_fail ''parameter block string length %d out of range'' r)
     else bind_res (go_slice (rbuf r) (rpos r) (rpos r + l)) (\<lambda>b.
          Inr (bytes_to_str b, r\<lparr>rpos := rpos r + l\<rparr>)))"

definition rd_Reset :: "xpb_reader \<Rightarrow> xpb_reader" where
  "rd_Reset r = r\<lparr> rpos := 0, rerr := None \<rparr>"

definition rd_Err :: "xpb_reader \<Rightarrow> string option" where
  "rd_Err r = rerr r"

subsection \<open>The writer\<close>

text \<open>An \<open>XPBWriter\<close> is its buffer; every \<open>Put\<close> returns the writer it extended.\<close>

definition NewXPBWriter :: bytes where
  "NewXPBWriter = []"

definition PutTag :: "byte \<Rightarrow> bytes \<Rightarrow> bytes" where
  "PutTag tag pb = pb @ [tag]"

definition PutByte :: "byte \<Rightarrow> byte \<Rightarrow> bytes \<Rightarrow> bytes" where
  "PutByte tag val pb = pb @ [tag, val]"

definition PutInt16 :: "byte \<Rightarrow> int16 \<Rightarrow> bytes \<Rightarrow> bytes" where
  "PutInt16 tag val pb = (pb @ [tag]) @ int16_to_bytes val"

definition PutInt32 :: "byte \<Rightarrow> int32 \<Rightarrow> bytes \<Rightarrow> bytes" where
  "PutInt32 tag val pb = (pb @ [tag]) @ int32_to_bytes val"

definition PutInt64 :: "byte \<Rightarrow> int64 \<Rightarrow> bytes \<Rightarrow> bytes" where
  "PutInt64 tag val pb = (pb @ [tag]) @ int64_to_bytes val"

definition PutString :: "byte \<Rightarrow> string \<Rightarrow> bytes \<Rightarrow> bytes" where
  "PutString tag val pb =
     (let strBytes = str_to_bytes val
      in ((pb @ [tag]) @ int16_to_bytes (word_of_int (int (length strBytes)))) @ strBytes)"

definition PutBytes :: "bytes \<Rightarrow> bytes \<Rightarrow> bytes" where
  "PutBytes bs pb = pb @ bs"

definition NewXPBWriterFromTag :: "byte \<Rightarrow> bytes" where
  "NewXPBWriterFromTag tag = PutTag tag NewXPBWriter"

definition NewXPBWriterFromBytes :: "bytes \<Rightarrow> bytes" where
  "NewXPBWriterFromBytes bs = PutBytes bs NewXPBWriter"

definition wr_Bytes :: "bytes \<Rightarrow> bytes" where
  "wr_Bytes pb = pb"

definition wr_Reset :: "bytes \<Rightarrow> bytes" where
  "wr_Reset pb = []"

subsection \<open>Reading is bounded\<close>

definition reader_ok :: "xpb_reader \<Rightarrow> bool" where
  "reader_ok r \<longleftrightarrow> 0 \<le> rpos r \<and> rpos r \<le> int (length (rbuf r)) \<and>
     (rerr r \<noteq> None \<longrightarrow> rpos r = int (length (rbuf r)))"

definition later :: "xpb_reader \<Rightarrow> xpb_reader \<Rightarrow> bool" where
  "later r r' \<longleftrightarrow> reader_ok r' \<and> rbuf r' = rbuf r \<and> rpos r \<le> rpos r' \<and>
     (\<forall>e. rerr r = Some e \<longrightarrow> rerr r' = Some e)"

text \<open>
  The contract of a reader operation: from a well-formed reader it returns (no panic), leaves
  the buffer alone, never moves the cursor back or past the end and never forgets an error.
\<close>

locale bounded_read =
  fixes rd :: "'a reading"
  assumes bounded: "reader_ok r \<Longrightarrow> \<exists>v r'. rd r = Inr (v, r') \<and> later r r'"
begin

lemma returns: "reader_ok r \<Longrightarrow> no_panic (rd r)"
  using bounded [of r] by auto

lemma stays_ok: "reader_ok r \<Longrightarrow> rd r = Inr (v, r') \<Longrightarrow> reader_ok r'"
  using bounded [of r] by (auto simp: later_def)

lemma error_sticks: "reader_ok r \<Longrightarrow> rd r = Inr (v, r') \<Longrightarrow> rerr r = Some e \<Longrightarrow> rerr r' = Some e"
  using bounded [of r] by (auto simp: later_def)

end

lemma reader_ok_new [simp]: "reader_ok (NewXPBReader buf)"
  by (simp add: reader_ok_def NewXPBReader_def)

lemma later_refl: "reader_ok r \<Longrightarrow> later r r"
  by (simp add: later_def)

lemma later_trans: "later r r' \<Longrightarrow> later r' r'' \<Longrightarrow> later r r''"
  by (auto simp: later_def)

lemma later_fail: "reader_ok r \<Longrightarrow> later r (rd_fail m r)"
  by (auto simp: later_def reader_ok_def rd_fail_def split: option.splits)

lemma later_move:
  "reader_ok r \<Longrightarrow> 0 \<le> n \<Longrightarrow> rpos r + n \<le> int (length (rbuf r)) \<Longrightarrow> (rerr r \<noteq> None \<Longrightarrow> n = 0) \<Longrightarrow>
   later r (r\<lparr>rpos := rpos r + n\<rparr>)"
  by (auto simp: later_def reader_ok_def)

lemma rd_err_at_end: "reader_ok r \<Longrightarrow> rpos r + n \<le> int (length (rbuf r)) \<Longrightarrow> 0 < n \<Longrightarrow> rerr r = None"
  by (auto simp: reader_ok_def)

lemma bounded_return: "bounded_read (\<lambda>r. Inr (v, r))"
  by unfold_locales (auto intro: later_refl)

lemma bounded_bind:
  assumes "bounded_read f" "\<And>x. bounded_read (g x)"
  shows "bounded_read (\<lambda>r. bind_res (f r) (\<lambda>(x, r). g x r))"
proof
  fix r assume "reader_ok r"
  then obtain v r1 where 1: "f r = Inr (v, r1)" "later r r1"
    using bounded_read.bounded [OF assms(1)] by blast
  moreover from 1 obtain w r2 where "g v r1 = Inr (w, r2)" "later r1 r2"
    using bounded_read.bounded [OF assms(2)] unfolding later_def by metis
  ultimately show "\<exists>v r'. bind_res (f r) (\<lambda>(x, r). g x r) = Inr (v, r') \<and> later r r'"
    using later_trans by auto
qed

text \<open>The fixed-width reads share one proof, over the contract of their codec.\<close>

context fixed_codec
begin

definition is_fixed_read :: "'a reading \<Rightarrow> bool" where
  "is_fixed_read rd \<longleftrightarrow> 0 < width \<and> (\<exists>z m. \<forall>r. rd r =
     (if rpos r + int width > int (length (rbuf r)) then Inr (z, rd_fail m r)
      else bind_res (bind_res (go_slice (rbuf r) (rpos r) (rpos r + int width)) dec) (\<lambda>v.
           Inr (v, r\<lparr>rpos := rpos r + int width\<rparr>))))"

lemma fixed_read_bounded:
  assumes "is_fixed_read rd"
  shows "bounded_read rd"
proof
  fix r assume ok: "reader_ok r"
  obtain z m where rd: "rd r =
     (if rpos r + int width > int (length (rbuf r)) then Inr (z, rd_fail m r)
      else bind_res (bind_res (go_slice (rbuf r) (rpos r) (rpos r + int width)) dec) (\<lambda>v.
           Inr (v, r\<lparr>rpos := rpos r + int width\<rparr>)))" and w: "0 < width"
    using assms by (auto simp: is_fixed_read_def)
  show "\<exists>v r'. rd r = Inr (v, r') \<and> later r r'"
  proof (cases "rpos r + int width > int (length (rbuf r))")
    case True
    then show ?thesis using later_fail [OF ok] by (simp add: rd)
  next
    case False
    have pos: "0 \<le> rpos r" using ok by (simp add: reader_ok_def)
    define sl where "sl = take (nat (rpos r + int width) - nat (rpos r)) (drop (nat (rpos r)) (rbuf r))"
    have "go_slice (rbuf r) (rpos r) (rpos r + int width) = Inr sl"
      using False pos by (simp add: sl_def)
    moreover have "width \<le> length sl" using False pos by (simp add: sl_def nat_add_distrib)
    then obtain x where "dec sl = Inr x" using dec_long by blast
    moreover have "later r (r\<lparr>rpos := rpos r + int width\<rparr>)"
      using ok False w by (intro later_move) (auto simp: reader_ok_def)
    ultimately show ?thesis using False by (simp add: rd)
  qed
qed

lemma fixed_read_enc:
  assumes "is_fixed_read rd" "rbuf r = pre @ enc x @ rest" "rpos r = int (length pre)"
  shows "rd r = Inr (x, r\<lparr>rpos := rpos r + int width\<rparr>)"
proof -
  have "go_slice (rbuf r) (rpos r) (rpos r + int width) = Inr (enc x)"
    using assms(2,3) enc_length [of x] by (simp add: nat_add_distrib)
  then show ?thesis using assms enc_length [of x] by (auto simp: is_fixed_read_def dec_enc_Nil)
qed

end

lemma is_fixed_read_int16: "int16_codec.is_fixed_read rd_GetInt16"
  unfolding int16_codec.is_fixed_read_def rd_GetInt16_def by auto

lemma is_fixed_read_int32: "int32_codec.is_fixed_read rd_GetInt32"
  unfolding int32_codec.is_fixed_read_def rd_GetInt32_def by auto

lemma is_fixed_read_int64: "int64_codec.is_fixed_read rd_GetInt64"
  unfolding int64_codec.is_fixed_read_def rd_GetInt64_def by auto

interpretation int16_read: bounded_read rd_GetInt16
  by (rule int16_codec.fixed_read_bounded [OF is_fixed_read_int16])

interpretation int32_read: bounded_read rd_GetInt32
  by (rule int32_codec.fixed_read_bounded [OF is_fixed_read_int32])

interpretation int64_read: bounded_read rd_GetInt64
  by (rule int64_codec.fixed_read_bounded [OF is_fixed_read_int64])

interpretation get_read: bounded_read rd_Get
  by unfold_locales (auto simp: rd_Get_def reader_ok_def intro: later_fail later_refl)

interpretation next_read: bounded_read rd_Next
proof
  fix r assume ok: "reader_ok r"
  show "\<exists>v r'. rd_Next r = Inr (v, r') \<and> later r r'"
  proof (cases "rd_End r")
    case True
    then have "rd_Next r = Inr ((False, 0), r)" by (simp add: rd_Next_def)
    then show ?thesis using later_refl [OF ok] by blast
  next
    case False
    then have "0 \<le> rpos r" "rpos r + 1 \<le> int (length (rbuf r))"
      using ok by (auto simp: reader_ok_def rd_End_def)
    then show ?thesis
      using False later_move [OF ok, of 1] ok by (auto simp: rd_Next_def reader_ok_def)
  qed
qed

interpretation skip_read: bounded_read "rd_Skip n"
  by unfold_locales (auto simp: rd_Skip_def reader_ok_def intro: later_fail later_move)

interpretation string_read: bounded_read rd_GetString
proof -
  have "bounded_read (\<lambda>r. let l = sint l16 in
     if l < 0 \<or> rpos r + l > int (length (rbuf r))
     then Inr ('''', rd_fail ''parameter block string length %d out of range'' r)
     else bind_res (go_slice (rbuf r) (rpos r) (rpos r + l)) (\<lambda>b.
          Inr (bytes_to_str b, r\<lparr>rpos := rpos r + l\<rparr>)))" for l16 :: int16
    unfolding Let_def
    by unfold_locales (auto simp: reader_ok_def intro!: later_fail later_move)
  from bounded_bind [OF int16_read.bounded_read_axioms this]
  show "bounded_read rd_GetString" unfolding rd_GetString_def .
qed

lemma fixed_read_at:
  "rbuf r = pre @ int16_to_bytes a @ rest \<Longrightarrow> rpos r = int (length pre) \<Longrightarrow>
    rd_GetInt16 r = Inr (a, r\<lparr>rpos := rpos r + 2\<rparr>)"
  "rbuf r = pre @ int32_to_bytes b @ rest \<Longrightarrow> rpos r = int (length pre) \<Longrightarrow>
    rd_GetInt32 r = Inr (b, r\<lparr>rpos := rpos r + 4\<rparr>)"
  "rbuf r = pre @ int64_to_bytes c @ rest \<Longrightarrow> rpos r = int (length pre) \<Longrightarrow>
    rd_GetInt64 r = Inr (c, r\<lparr>rpos := rpos r + 8\<rparr>)"
  using int16_codec.fixed_read_enc [OF is_fixed_read_int16]
    int32_codec.fixed_read_enc [OF is_fixed_read_int32]
    int64_codec.fixed_read_enc [OF is_fixed_read_int64] by auto

lemma next_read_at:
  "rbuf r = pre @ b # rest \<Longrightarrow> rpos r = int (length pre) \<Longrightarrow>
    rd_Next r = Inr ((True, b), r\<lparr>rpos := rpos r + 1\<rparr>)"
  by (simp add: rd_Next_def rd_End_def)

lemma sint_of_length: "n < 32768 \<Longrightarrow> sint (word_of_int (int n) :: int16) = int n"
  by (simp add: signed_of_int signed_take_bit_int_eq_self del: of_int_of_nat_eq)

lemma string_read_at:
  assumes "rbuf r = pre @ int16_to_bytes (word_of_int (int (length s))) @ str_to_bytes s @ rest"
    and "rpos r = int (length pre)" "length s < 32768"
  shows "rd_GetString r = Inr (s, r\<lparr>rpos := rpos r + 2 + int (length s)\<rparr>)"
proof -
  have "rd_GetInt16 r = Inr (word_of_int (int (length s)), r\<lparr>rpos := rpos r + 2\<rparr>)"
    by (rule fixed_read_at(1) [OF assms(1,2)])
  moreover have "go_slice (rbuf r) (rpos r + 2) (rpos r + 2 + int (length s)) = Inr (str_to_bytes s)"
    using assms by (simp add: nat_add_distrib int16_codec.enc_length)
  ultimately show ?thesis
    using assms by (simp add: rd_GetString_def Let_def sint_of_length int16_codec.enc_length
        del: of_int_of_nat_eq)
qed

subsection \<open>Tagged items, written and read\<close>

datatype xpb_value = VByte byte | VInt16 int16 | VInt32 int32 | VInt64 int64 | VString string
datatype xpb_shape = SByte | SInt16 | SInt32 | SInt64 | SString

primrec shape_of :: "xpb_value \<Rightarrow> xpb_shape" where
  "shape_of (VByte v) = SByte"
| "shape_of (VInt16 v) = SInt16"
| "shape_of (VInt32 v) = SInt32"
| "shape_of (VInt64 v) = SInt64"
| "shape_of (VString v) = SString"

primrec put_value :: "byte \<Rightarrow> xpb_value \<Rightarrow> bytes \<Rightarrow> bytes" where
  "put_value tag (VByte v) = PutByte tag v"
| "put_value tag (VInt16 v) = PutInt16 tag v"
| "put_value tag (VInt32 v) = PutInt32 tag v"
| "put_value tag (VInt64 v) = PutInt64 tag v"
| "put_value tag (VString v) = PutString tag v"

primrec put_items :: "(byte \<times> xpb_value) list \<Rightarrow> bytes \<Rightarrow> bytes" where
  "put_items [] pb = pb"
| "put_items (it # its) pb = put_items its (put_value (fst it) (snd it) pb)"

definition read_map :: "('a \<Rightarrow> 'b) \<Rightarrow> 'a reading \<Rightarrow> 'b reading" where
  "read_map f rd r = bind_res (rd r) (\<lambda>(x, r). Inr (f x, r))"

primrec get_value :: "xpb_shape \<Rightarrow> xpb_value reading" where
  "get_value SByte = read_map (VByte o snd) rd_Next"
| "get_value SInt16 = read_map VInt16 rd_GetInt16"
| "get_value SInt32 = read_map VInt32 rd_GetInt32"
| "get_value SInt64 = read_map VInt64 rd_GetInt64"
| "get_value SString = read_map VString rd_GetString"

primrec get_items :: "xpb_shape list \<Rightarrow> (byte \<times> xpb_value) list reading" where
  "get_items [] r = Inr ([], r)"
| "get_items (k # ks) r =
     bind_res (rd_Next r) (\<lambda>((have, tag), r).
     bind_res (get_value k r) (\<lambda>(v, r).
     bind_res (get_items ks r) (\<lambda>(vs, r). Inr ((tag, v) # vs, r))))"

definition fits_int16_length :: "xpb_value \<Rightarrow> bool" where
  "fits_int16_length v \<longleftrightarrow> (case v of VString s \<Rightarrow> length s < 32768 | _ \<Rightarrow> True)"

definition value_bytes :: "xpb_value \<Rightarrow> bytes" where
  "value_bytes v = tl (put_value 0 v [])"

lemma put_value_append: "put_value t v pb = pb @ t # value_bytes v"
  by (cases v) (simp_all add: value_bytes_def PutByte_def PutInt16_def PutInt32_def PutInt64_def
      PutString_def Let_def)

lemma put_items_append: "put_items its pb = pb @ concat (map (\<lambda>(t, v). t # value_bytes v) its)"
  by (induction its arbitrary: pb) (auto simp: put_value_append)

lemma get_value_at:
  assumes "rbuf r = pre @ value_bytes v @ rest" "rpos r = int (length pre)" "fits_int16_length v"
  shows "get_value (shape_of v) r = Inr (v, r\<lparr>rpos := rpos r + int (length (value_bytes v))\<rparr>)"
  using assms
  by (cases v) (simp_all add: value_bytes_def PutByte_def PutInt16_def PutInt32_def PutInt64_def
      PutString_def Let_def read_map_def next_read_at fixed_read_at string_read_at
      fits_int16_length_def int16_codec.enc_length int32_codec.enc_length int64_codec.enc_length)

lemma get_items_at:
  assumes "rbuf r = pre @ concat (map (\<lambda>(t, v). t # value_bytes v) its) @ rest"
    and "rpos r = int (length pre)" "\<forall>(t, v) \<in> set its. fits_int16_length v"
  shows "get_items (map (shape_of o snd) its) r =
    Inr (its, r\<lparr>rpos := int (length pre + length (concat (map (\<lambda>(t, v). t # value_bytes v) its)))\<rparr>)"
  using assms
proof (induction its arbitrary: r pre)
  case (Cons it its)
  obtain t v where it: "it = (t, v)" by (cases it)
  define r1 where "r1 = r\<lparr>rpos := rpos r + 1\<rparr>"
  define r2 where "r2 = r1\<lparr>rpos := rpos r1 + int (length (value_bytes v))\<rparr>"
  have "rd_Next r = Inr ((True, t), r1)"
    using Cons.prems by (simp add: it next_read_at r1_def)
  moreover have "get_value (shape_of v) r1 = Inr (v, r2)"
    unfolding r2_def using Cons.prems
    by (intro get_value_at [where pre = "pre @ [t]"]) (simp_all add: it r1_def)
  ultimately show ?case
    using Cons.IH [of r2 "pre @ t # value_bytes v"] Cons.prems
    by (simp add: it r1_def r2_def algebra_simps)
qed simp

subsection \<open>Arbitrary reads of a hostile block\<close>

datatype xpb_read = RNext | RGet | RSkip int | RInt16 | RInt32 | RInt64 | RString

lemma read_map_bounded: "bounded_read rd \<Longrightarrow> bounded_read (read_map f rd)"
  unfolding read_map_def using bounded_bind [OF _ bounded_return] by auto

definition drop_value :: "'a reading \<Rightarrow> unit reading" where
  "drop_value = read_map (\<lambda>_. ())"

primrec run_read :: "xpb_read \<Rightarrow> unit reading" where
  "run_read RNext = drop_value rd_Next"
| "run_read RGet = drop_value rd_Get"
| "run_read (RSkip n) = rd_Skip n"
| "run_read RInt16 = drop_value rd_GetInt16"
| "run_read RInt32 = drop_value rd_GetInt32"
| "run_read RInt64 = drop_value rd_GetInt64"
| "run_read RString = drop_value rd_GetString"

primrec run_reads :: "xpb_read list \<Rightarrow> unit reading" where
  "run_reads [] = (\<lambda>r. Inr ((), r))"
| "run_reads (x # xs) = (\<lambda>r. bind_res (run_read x r) (\<lambda>(_, r). run_reads xs r))"

lemma run_read_bounded: "bounded_read (run_read x)"
  by (cases x) (simp_all add: drop_value_def read_map_bounded next_read.bounded_read_axioms
      get_read.bounded_read_axioms skip_read.bounded_read_axioms int16_read.bounded_read_axioms
      int32_read.bounded_read_axioms int64_read.bounded_read_axioms string_read.bounded_read_axioms)

interpretation reads: bounded_read "run_reads xs"
  by (induction xs) (auto intro: bounded_return bounded_bind run_read_bounded)

subsection \<open>Properties\<close>

text \<open>C3: A parameter block written item by item is read back item by item by the same schema,
  without an error and exactly to its end, provided every string is shorter than 32768 bytes.\<close>

theorem param_block_roundtrip:
  assumes "\<forall>(t, v) \<in> set its. fits_int16_length v"
  shows "\<exists>r. get_items (map (shape_of o snd) its) (NewXPBReader (wr_Bytes (put_items its NewXPBWriter)))
      = Inr (its, r) \<and> rd_Err r = None \<and> rd_End r"
  using get_items_at [of "NewXPBReader (wr_Bytes (put_items its NewXPBWriter))" "[]" its "[]"] assms
  by (simp add: NewXPBReader_def wr_Bytes_def NewXPBWriter_def put_items_append rd_Err_def rd_End_def)

definition sample_items :: "(byte \<times> xpb_value) list" where
  "sample_items = [(28, VString ''SYSDBA''), (6, VInt32 (-3)), (121, VByte 1), (9, VInt64 77), (1, VInt16 5)]"

theorem param_block_roundtrip_witness:
  "\<exists>r. get_items [SString, SInt32, SByte, SInt64, SInt16]
      (NewXPBReader (wr_Bytes (put_items sample_items NewXPBWriter))) = Inr (sample_items, r) \<and>
      rd_Err r = None \<and> rd_End r"
  using param_block_roundtrip [of sample_items] by (simp add: sample_items_def fits_int16_length_def)

text \<open>Whatever bytes a server sends, no sequence of reads panics or leaves the buffer: the
  cursor stays between 0 and the end, and once a read was out of bounds every later state
  keeps that first error and stands at the end of the block, so reading loops stop.\<close>

theorem reader_never_escapes:
  "\<exists>r. run_reads xs (NewXPBReader buf) = Inr ((), r) \<and> rbuf r = buf \<and>
     0 \<le> rpos r \<and> rpos r \<le> int (length buf) \<and>
     (rd_Err r \<noteq> None \<longrightarrow> rd_End r \<and>
       (\<exists>r'. run_reads (xs @ ys) (NewXPBReader buf) = Inr ((), r') \<and> rd_Err r' = rd_Err r))"
proof -
  obtain r where r: "run_reads xs (NewXPBReader buf) = Inr ((), r)" "later (NewXPBReader buf) r"
    using reads.bounded [OF reader_ok_new] by (metis (full_types) old.unit.exhaust)
  have ok: "reader_ok r" using r(2) by (simp add: later_def)
  obtain r' where r': "run_reads ys r = Inr ((), r')" "later r r'"
    using reads.bounded [OF ok] by (metis (full_types) old.unit.exhaust)
  have "run_reads (xs @ ys) q = bind_res (run_reads xs q) (\<lambda>(_, r). run_reads ys r)" for q
    by (induction xs arbitrary: q) (auto simp: bind_res_assoc intro!: arg_cong2 [where f = bind_res] ext)
  then have "run_reads (xs @ ys) (NewXPBReader buf) = Inr ((), r')" using r r' by simp
  moreover have "rbuf r = buf" using r(2) by (simp add: later_def NewXPBReader_def)
  ultimately show ?thesis
    using r(1) r'(2) ok by (auto simp: later_def reader_ok_def rd_Err_def rd_End_def)
qed

theorem reader_never_escapes_witness:
  "\<exists>r. run_reads [RNext, RString] (NewXPBReader [1, 200, 0, 65]) = Inr ((), r) \<and>
     rd_Err r \<noteq> None \<and> rd_End r"
proof -
  have "run_reads [RNext, RString] (NewXPBReader [1, 200, 0, 65]) =
     Inr ((), \<lparr> rbuf = [1, 200, 0, 65], rpos = 4,
       rerr = Some ''parameter block string length %d out of range'' \<rparr>)"
    by code_simp
  then show ?thesis using reader_never_escapes [of "[RNext, RString]" "[1, 200, 0, 65]" "[]"]
    by (auto simp: rd_Err_def)
qed

end
