(* ===== verification/Wire_Channel.thy ===== *)
theory Wire_Channel
  imports Go_Prelude
begin

text \<open>
  The byte channel under the protocol (\<open>wirechannel.go\<close>): optional compression and the
  optional stream ciphers Arc4 and ChaCha.

  RC4 is Go's \<open>crypto/rc4\<close>, written out. The ChaCha20 cipher is a third-party package and
  zlib a compressed stream format: \<open>chacha\<close> (key and nonce to a keystream, \<open>None\<close> when
  \<open>NewCipher\<close> refuses them), \<open>sha\<close>, \<open>deflate\<close> and \<open>inflate\<close> (the history of the stream
  and the next chunk) are arguments of the definitions that use them. A channel that has
  written keeps its history, so the argument functions need no state of their own.
\<close>

subsection \<open>Stream ciphers\<close>

record rc4_state =
  rc4_S :: "byte list"
  rc4_i :: byte
  rc4_j :: byte

definition swap_at :: "'a list \<Rightarrow> nat \<Rightarrow> nat \<Rightarrow> 'a list" where
  "swap_at xs i j = xs[i := xs ! j, j := xs ! i]"

primrec rc4_schedule :: "bytes \<Rightarrow> nat list \<Rightarrow> byte list \<times> byte \<Rightarrow> byte list \<times> byte" where
  "rc4_schedule key [] sj = sj"
| "rc4_schedule key (i # is) sj =
     (let S = fst sj; j = snd sj + S ! i + key ! (i mod length key)
      in rc4_schedule key is (swap_at S i (unat j), j))"

definition rc4_NewCipher :: "bytes \<Rightarrow> rc4_state res" where
  "rc4_NewCipher key =
     (if length key < 1 \<or> 256 < length key then Inl (Plain ''crypto/rc4: invalid key size'')
      else Inr \<lparr> rc4_S = fst (rc4_schedule key [0..<256] (map of_nat [0..<256], 0)),
                 rc4_i = 0, rc4_j = 0 \<rparr>)"

primrec rc4_xor :: "bytes \<Rightarrow> rc4_state \<Rightarrow> bytes \<times> rc4_state" where
  "rc4_xor [] c = ([], c)"
| "rc4_xor (v # vs) c =
     (let i = rc4_i c + 1;
          x = rc4_S c ! unat i;
          j = rc4_j c + x;
          y = rc4_S c ! unat j;
          S = (rc4_S c)[unat i := y, unat j := x];
          (out, c') = rc4_xor vs \<lparr> rc4_S = S, rc4_i = i, rc4_j = j \<rparr>
      in ((v XOR S ! unat (x + y)) # out, c'))"

text \<open>A ChaCha20 cipher object: its keystream and how much of it has been used.\<close>

record chacha_state =
  ks :: "nat \<Rightarrow> byte"
  ks_pos :: nat

primrec chacha_xor :: "bytes \<Rightarrow> chacha_state \<Rightarrow> bytes \<times> chacha_state" where
  "chacha_xor [] c = ([], c)"
| "chacha_xor (v # vs) c =
     (let (out, c') = chacha_xor vs (c\<lparr>ks_pos := ks_pos c + 1\<rparr>) in ((v XOR ks c (ks_pos c)) # out, c'))"

text \<open>
  What the channel needs of a cipher: it keeps lengths, it can be fed in chunks of any size,
  and a second copy of the same state undoes it and ends in the same state.
\<close>

locale stream_cipher =
  fixes xor_stream :: "bytes \<Rightarrow> 's \<Rightarrow> bytes \<times> 's"
  assumes xor_Nil: "xor_stream [] s = ([], s)"
    and xor_append: "xor_stream (a @ b) s =
      (let (x, s1) = xor_stream a s; (y, s2) = xor_stream b s1 in (x @ y, s2))"
    and xor_undo: "xor_stream (fst (xor_stream a s)) s = (a, snd (xor_stream a s))"
begin

lemma xor_stream_inj: "fst (xor_stream a s) = fst (xor_stream b s) \<Longrightarrow> a = b"
  by (metis fst_conv xor_undo)

lemma xor_chunks:
  "fst (xor_stream (a @ b) s) = fst (xor_stream a s) @ fst (xor_stream b (snd (xor_stream a s)))"
  by (simp add: xor_append case_prod_beta Let_def)

end

lemma xor_cancel: "((v :: byte) XOR k) XOR k = v"
  by (simp add: xor.assoc)

lemma rc4_xor_append:
  "rc4_xor (a @ b) s = (let (x, s1) = rc4_xor a s; (y, s2) = rc4_xor b s1 in (x @ y, s2))"
  by (induction a arbitrary: s) (simp_all add: Let_def case_prod_beta)

lemma rc4_xor_undo: "rc4_xor (fst (rc4_xor a s)) s = (a, snd (rc4_xor a s))"
  by (induction a arbitrary: s) (simp_all add: Let_def case_prod_beta xor_cancel)

interpretation rc4: stream_cipher rc4_xor
  by unfold_locales (simp_all add: rc4_xor_append rc4_xor_undo)

lemma chacha_xor_append:
  "chacha_xor (a @ b) s = (let (x, s1) = chacha_xor a s; (y, s2) = chacha_xor b s1 in (x @ y, s2))"
  by (induction a arbitrary: s) (simp_all add: Let_def case_prod_beta)

lemma chacha_xor_undo: "chacha_xor (fst (chacha_xor a s)) s = (a, snd (chacha_xor a s))"
  by (induction a arbitrary: s) (simp_all add: Let_def case_prod_beta xor_cancel)

interpretation chacha20: stream_cipher chacha_xor
  by unfold_locales (simp_all add: chacha_xor_append chacha_xor_undo)

subsection \<open>The channel\<close>

record wire_channel =
  ch_plugin :: string
  rc4reader :: "rc4_state option"
  rc4writer :: "rc4_state option"
  chacha20reader :: "chacha_state option"
  chacha20writer :: "chacha_state option"
  compressor :: "bytes list option"
  decompressor :: "bytes list option"

definition newWireChannel :: wire_channel where
  "newWireChannel = \<lparr> ch_plugin = '''', rc4reader = None, rc4writer = None, chacha20reader = None,
     chacha20writer = None, compressor = None, decompressor = None \<rparr>"

type_synonym chacha_cipher = "bytes \<Rightarrow> bytes \<Rightarrow> (nat \<Rightarrow> byte) option"

definition chacha_NewCipher :: "chacha_cipher \<Rightarrow> bytes \<Rightarrow> bytes \<Rightarrow> chacha_state res" where
  "chacha_NewCipher chacha key nonce =
     (case chacha key nonce of None \<Rightarrow> Inl (Plain ''chacha20: invalid key or nonce'')
      | Some k \<Rightarrow> Inr \<lparr> ks = k, ks_pos = 0 \<rparr>)"

text \<open>
  \<open>setCryptKey\<close>: the plugin name is stored first, so a refused key leaves it set. The result is
  the error, if any, and the channel.
\<close>

definition setCryptKey ::
  "chacha_cipher \<Rightarrow> (bytes \<Rightarrow> bytes) \<Rightarrow> string \<Rightarrow> bytes \<Rightarrow> bytes \<Rightarrow> wire_channel \<Rightarrow>
   go_error option \<times> wire_channel" where
  "setCryptKey chacha sha256 pl sessionKey nonce c =
     (let c = c\<lparr>ch_plugin := pl\<rparr> in
      if pl = ''ChaCha64'' \<or> pl = ''ChaCha'' then
        (let key = sha256 sessionKey in
         case chacha_NewCipher chacha key nonce of
           Inl e \<Rightarrow> (Some e, c)
         | Inr r \<Rightarrow> (let c = c\<lparr>chacha20reader := Some r\<rparr> in
             case chacha_NewCipher chacha key nonce of
               Inl e \<Rightarrow> (Some e, c)
             | Inr w \<Rightarrow> (None, c\<lparr>chacha20writer := Some w\<rparr>)))
      else if pl = ''Arc4'' then
        (case rc4_NewCipher sessionKey of
           Inl e \<Rightarrow> (Some e, c)
         | Inr r \<Rightarrow> (let c = c\<lparr>rc4reader := Some r\<rparr> in
             case rc4_NewCipher sessionKey of
               Inl e \<Rightarrow> (Some e, c)
             | Inr w \<Rightarrow> (None, c\<lparr>rc4writer := Some w\<rparr>)))
      else (Some (Plain ''Unknown wire encrypto plugin name:%s''), c))"

text \<open>\<open>zlib.NewReader\<close> reads the header of the peer's stream: with an error there is no decompressor.\<close>

definition enableCompression :: "go_error option \<Rightarrow> wire_channel \<Rightarrow> go_error option \<times> wire_channel" where
  "enableCompression zlib_err c =
     (zlib_err, c\<lparr>compressor := Some [], decompressor := (if zlib_err = None then Some [] else None)\<rparr>)"

definition nil_cipher :: "'a res" where
  "nil_cipher = Inl (Panic ''invalid memory address or nil pointer dereference'')"

text \<open>
  \<open>Write\<close>: the bytes handed to the socket. A compressed channel returns before it looks at the
  cipher. \<open>buf\<close> is encrypted into a zeroed \<open>dst\<close>, which an unknown plugin would send as it is.
\<close>

definition ch_write ::
  "(bytes list \<Rightarrow> bytes \<Rightarrow> bytes) \<Rightarrow> bytes \<Rightarrow> wire_channel \<Rightarrow> (bytes \<times> wire_channel) res" where
  "ch_write deflate buf c =
     (case compressor c of
        Some hist \<Rightarrow> Inr (deflate hist buf, c\<lparr>compressor := Some (hist @ [buf])\<rparr>)
      | None \<Rightarrow>
          if ch_plugin c \<noteq> '''' then
            if ch_plugin c = ''ChaCha64'' \<or> ch_plugin c = ''ChaCha'' then
              (case chacha20writer c of None \<Rightarrow> nil_cipher
               | Some s \<Rightarrow> let (dst, s') = chacha_xor buf s in Inr (dst, c\<lparr>chacha20writer := Some s'\<rparr>))
            else if ch_plugin c = ''Arc4'' then
              (case rc4writer c of None \<Rightarrow> nil_cipher
               | Some s \<Rightarrow> let (dst, s') = rc4_xor buf s in Inr (dst, c\<lparr>rc4writer := Some s'\<rparr>))
            else Inr (replicate (length buf) 0, c)
          else Inr (buf, c))"

text \<open>\<open>Read\<close> of the \<open>src\<close> bytes the socket delivered: what the caller's buffer receives.\<close>

definition ch_read ::
  "(bytes list \<Rightarrow> bytes \<Rightarrow> bytes) \<Rightarrow> bytes \<Rightarrow> wire_channel \<Rightarrow> (bytes \<times> wire_channel) res" where
  "ch_read inflate src c =
     (case decompressor c of
        Some hist \<Rightarrow> Inr (inflate hist src, c\<lparr>decompressor := Some (hist @ [src])\<rparr>)
      | None \<Rightarrow>
          if ch_plugin c \<noteq> '''' then
            if ch_plugin c = ''ChaCha64'' \<or> ch_plugin c = ''ChaCha'' then
              (case chacha20reader c of None \<Rightarrow> nil_cipher
               | Some s \<Rightarrow> let (dst, s') = chacha_xor src s in Inr (dst, c\<lparr>chacha20reader := Some s'\<rparr>))
            else if ch_plugin c = ''Arc4'' then
              (case rc4reader c of None \<Rightarrow> nil_cipher
               | Some s \<Rightarrow> let (dst, s') = rc4_xor src s in Inr (dst, c\<lparr>rc4reader := Some s'\<rparr>))
            else Inr (replicate (length src) 0, c)
          else Inr (src, c))"

text \<open>A session writes a list of buffers; the peer may receive the bytes in other chunks.\<close>

primrec ch_writes ::
  "(bytes list \<Rightarrow> bytes \<Rightarrow> bytes) \<Rightarrow> bytes list \<Rightarrow> wire_channel \<Rightarrow> (bytes \<times> wire_channel) res" where
  "ch_writes deflate [] c = Inr ([], c)"
| "ch_writes deflate (b # bs) c =
     bind_res (ch_write deflate b c) (\<lambda>(x, c). bind_res (ch_writes deflate bs c) (\<lambda>(y, c). Inr (x @ y, c)))"

primrec ch_reads ::
  "(bytes list \<Rightarrow> bytes \<Rightarrow> bytes) \<Rightarrow> bytes list \<Rightarrow> wire_channel \<Rightarrow> (bytes \<times> wire_channel) res" where
  "ch_reads inflate [] c = Inr ([], c)"
| "ch_reads inflate (b # bs) c =
     bind_res (ch_read inflate b c) (\<lambda>(x, c). bind_res (ch_reads inflate bs c) (\<lambda>(y, c). Inr (x @ y, c)))"

text \<open>With a cipher armed, writing and reading are the cipher on the concatenated stream.\<close>

lemma ch_writes_chacha:
  assumes "compressor c = None" "ch_plugin c \<in> {''ChaCha64'', ''ChaCha''}" "chacha20writer c = Some s"
  shows "ch_writes deflate bs c =
    Inr (fst (chacha_xor (concat bs) s), c\<lparr>chacha20writer := Some (snd (chacha_xor (concat bs) s))\<rparr>)"
  using assms
proof (induction bs arbitrary: c s)
  case Nil
  then show ?case by (cases c) auto
next
  case (Cons b bs)
  have "ch_write deflate b c = Inr (fst (chacha_xor b s), c\<lparr>chacha20writer := Some (snd (chacha_xor b s))\<rparr>)"
    using Cons.prems by (auto simp: ch_write_def case_prod_beta Let_def)
  then show ?case
    using Cons.prems Cons.IH [of "c\<lparr>chacha20writer := Some (snd (chacha_xor b s))\<rparr>"]
    by (simp add: chacha_xor_append case_prod_beta Let_def)
qed

lemma ch_reads_chacha:
  assumes "decompressor c = None" "ch_plugin c \<in> {''ChaCha64'', ''ChaCha''}" "chacha20reader c = Some s"
  shows "ch_reads inflate bs c =
    Inr (fst (chacha_xor (concat bs) s), c\<lparr>chacha20reader := Some (snd (chacha_xor (concat bs) s))\<rparr>)"
  using assms
proof (induction bs arbitrary: c s)
  case Nil
  then show ?case by (cases c) auto
next
  case (Cons b bs)
  have "ch_read inflate b c = Inr (fst (chacha_xor b s), c\<lparr>chacha20reader := Some (snd (chacha_xor b s))\<rparr>)"
    using Cons.prems by (auto simp: ch_read_def case_prod_beta Let_def)
  then show ?case
    using Cons.prems Cons.IH [of "c\<lparr>chacha20reader := Some (snd (chacha_xor b s))\<rparr>"]
    by (simp add: chacha_xor_append case_prod_beta Let_def)
qed

lemma ch_writes_rc4:
  assumes "compressor c = None" "ch_plugin c = ''Arc4''" "rc4writer c = Some s"
  shows "ch_writes deflate bs c =
    Inr (fst (rc4_xor (concat bs) s), c\<lparr>rc4writer := Some (snd (rc4_xor (concat bs) s))\<rparr>)"
  using assms
proof (induction bs arbitrary: c s)
  case Nil
  then show ?case by (cases c) auto
next
  case (Cons b bs)
  have "ch_write deflate b c = Inr (fst (rc4_xor b s), c\<lparr>rc4writer := Some (snd (rc4_xor b s))\<rparr>)"
    using Cons.prems by (auto simp: ch_write_def case_prod_beta Let_def)
  then show ?case
    using Cons.prems Cons.IH [of "c\<lparr>rc4writer := Some (snd (rc4_xor b s))\<rparr>"]
    by (simp add: rc4_xor_append case_prod_beta Let_def)
qed

lemma ch_reads_rc4:
  assumes "decompressor c = None" "ch_plugin c = ''Arc4''" "rc4reader c = Some s"
  shows "ch_reads inflate bs c =
    Inr (fst (rc4_xor (concat bs) s), c\<lparr>rc4reader := Some (snd (rc4_xor (concat bs) s))\<rparr>)"
  using assms
proof (induction bs arbitrary: c s)
  case Nil
  then show ?case by (cases c) auto
next
  case (Cons b bs)
  have "ch_read inflate b c = Inr (fst (rc4_xor b s), c\<lparr>rc4reader := Some (snd (rc4_xor b s))\<rparr>)"
    using Cons.prems by (auto simp: ch_read_def case_prod_beta Let_def)
  then show ?case
    using Cons.prems Cons.IH [of "c\<lparr>rc4reader := Some (snd (rc4_xor b s))\<rparr>"]
    by (simp add: rc4_xor_append case_prod_beta Let_def)
qed

text \<open>A compressed channel reads and writes by its history alone.\<close>

lemma ch_writes_compressed:
  "compressor c = Some h \<Longrightarrow> compressor d = Some h \<Longrightarrow>
   map_sum id fst (ch_writes deflate bs c) = map_sum id fst (ch_writes deflate bs d)"
proof (induction bs arbitrary: c d h)
  case (Cons b bs)
  define c1 d1 where "c1 = c\<lparr>compressor := Some (h @ [b])\<rparr>" and "d1 = d\<lparr>compressor := Some (h @ [b])\<rparr>"
  have "map_sum id fst (ch_writes deflate bs c1) = map_sum id fst (ch_writes deflate bs d1)"
    by (rule Cons.IH) (simp_all add: c1_def d1_def)
  then show ?case
    using Cons.prems
    by (cases "ch_writes deflate bs c1"; cases "ch_writes deflate bs d1")
      (auto simp: ch_write_def c1_def d1_def)
qed simp

lemma ch_reads_compressed:
  "decompressor c = Some h \<Longrightarrow> decompressor d = Some h \<Longrightarrow>
   map_sum id fst (ch_reads inflate bs c) = map_sum id fst (ch_reads inflate bs d)"
proof (induction bs arbitrary: c d h)
  case (Cons b bs)
  define c1 d1 where "c1 = c\<lparr>decompressor := Some (h @ [b])\<rparr>" and "d1 = d\<lparr>decompressor := Some (h @ [b])\<rparr>"
  have "map_sum id fst (ch_reads inflate bs c1) = map_sum id fst (ch_reads inflate bs d1)"
    by (rule Cons.IH) (simp_all add: c1_def d1_def)
  then show ?case
    using Cons.prems
    by (cases "ch_reads inflate bs c1"; cases "ch_reads inflate bs d1")
      (auto simp: ch_read_def c1_def d1_def)
qed simp

lemma setCryptKey_keeps:
  "ch_plugin (snd (setCryptKey chacha sha256 pl key nonce c)) = pl"
  "compressor (snd (setCryptKey chacha sha256 pl key nonce c)) = compressor c"
  "decompressor (snd (setCryptKey chacha sha256 pl key nonce c)) = decompressor c"
  by (simp_all add: setCryptKey_def Let_def split: sum.split)

subsection \<open>Properties\<close>

text \<open>C6: Two ends that armed the same cipher with the same session key and nonce understand each
  other: whatever buffers one end writes and however the network cuts the encrypted bytes into
  reads, the other end reads exactly what was written.\<close>

theorem encrypted_stream_roundtrip:
  assumes "setCryptKey chacha sha256 pl key nonce newWireChannel = (None, c)"
    and "setCryptKey chacha sha256 pl key nonce newWireChannel = (None, d)"
    and "ch_writes deflate bs c = Inr (cipher, c')" "concat chunks = cipher"
  shows "\<exists>d'. ch_reads inflate chunks d = Inr (concat bs, d')"
proof -
  consider (chacha) s where "pl \<in> {''ChaCha64'', ''ChaCha''}" "chacha20writer c = Some s"
      "chacha20reader c = Some s" "ch_plugin c = pl" "compressor c = None" "decompressor c = None"
    | (rc4) s where "pl = ''Arc4''" "rc4writer c = Some s" "rc4reader c = Some s" "ch_plugin c = pl"
      "compressor c = None" "decompressor c = None"
    using assms(1)
    by (auto simp: setCryptKey_def Let_def newWireChannel_def split: if_splits sum.splits)
  moreover have "d = c" using assms(1,2) by simp
  ultimately show ?thesis
  proof cases
    case chacha
    then have "ch_writes deflate bs c = Inr (fst (chacha_xor (concat bs) s),
        c\<lparr>chacha20writer := Some (snd (chacha_xor (concat bs) s))\<rparr>)"
      by (intro ch_writes_chacha) auto
    then show ?thesis
      using chacha assms(3,4) \<open>d = c\<close> ch_reads_chacha [of c s inflate chunks]
      by (simp add: chacha20.xor_undo)
  next
    case rc4
    then have "ch_writes deflate bs c = Inr (fst (rc4_xor (concat bs) s),
        c\<lparr>rc4writer := Some (snd (rc4_xor (concat bs) s))\<rparr>)"
      by (intro ch_writes_rc4) auto
    then show ?thesis
      using rc4 assms(3,4) \<open>d = c\<close> ch_reads_rc4 [of c s inflate chunks]
      by (simp add: rc4.xor_undo)
  qed
qed

definition demo_chacha :: chacha_cipher where
  "demo_chacha key nonce = (if length nonce = 12 then Some (\<lambda>n. of_nat (7 * n + 3)) else None)"

theorem encrypted_stream_roundtrip_witness:
  "\<exists>d'. ch_reads (\<lambda>h b. b) [[75], [67, 124]]
     (snd (setCryptKey demo_chacha id ''ChaCha'' [1, 2] (replicate 12 0) newWireChannel)) =
     Inr ([72, 73, 109], d')"
proof -
  define c where "c = snd (setCryptKey demo_chacha id ''ChaCha'' [1, 2] (replicate 12 0) newWireChannel)"
  have k: "setCryptKey demo_chacha id ''ChaCha'' [1, 2] (replicate 12 0) newWireChannel = (None, c)"
    by (simp add: c_def setCryptKey_def demo_chacha_def chacha_NewCipher_def newWireChannel_def Let_def)
  obtain c' where w: "ch_writes (\<lambda>h b. b) [[72, 73], [109]] c = Inr ([75, 67, 124], c')"
    by (simp add: c_def setCryptKey_def demo_chacha_def chacha_NewCipher_def newWireChannel_def Let_def
        ch_write_def)
  show ?thesis
    using encrypted_stream_roundtrip [OF k k w, of "[[75], [67, 124]]" "\<lambda>h b. b"]
    unfolding c_def [symmetric] by simp
qed

text \<open>C7: Once wire compression is on, arming a cipher changes nothing that reaches the network:
  every later write sends the compressed bytes in the clear, also where the peer's stream could not
  be opened, and every read takes the peer's bytes undeciphered, although the channel reports the
  cipher's name.\<close>

theorem compression_bypasses_cipher:
  "ch_plugin (snd (setCryptKey chacha sha256 pl key nonce (snd (enableCompression zlib_err c)))) = pl \<and>
   map_sum id fst (ch_writes deflate bs (snd (setCryptKey chacha sha256 pl key nonce (snd (enableCompression zlib_err c))))) =
     map_sum id fst (ch_writes deflate bs (snd (enableCompression zlib_err c))) \<and>
   map_sum id fst (ch_reads inflate bs (snd (setCryptKey chacha sha256 pl key nonce (snd (enableCompression None c))))) =
     map_sum id fst (ch_reads inflate bs (snd (enableCompression None c)))"
  by (intro conjI ch_writes_compressed [where h = "[]"] ch_reads_compressed [where h = "[]"])
    (simp_all add: setCryptKey_keeps, simp_all add: enableCompression_def)

end
