(* ===== verification/Consts.thy ===== *)
theory Consts
  imports Main
begin

text \<open>
  The protocol constants of \<open>consts.go\<close> that the model uses, with the numbers the code gives
  them. Go's untyped constants take the type of their context; here each is an abbreviation
  for a numeral, so it can be a byte, a 32-bit word or an integer.
\<close>

abbreviation (input) ptype_lazy_send :: "'a::{numeral}" where
  "ptype_lazy_send \<equiv> 5"

abbreviation (input) ptype_MASK :: "'a::{numeral}" where
  "ptype_MASK \<equiv> 255"

abbreviation (input) pflag_compress :: "'a::{numeral}" where
  "pflag_compress \<equiv> 256"

abbreviation (input) PROTOCOL_VERSION13 :: "'a::{numeral}" where
  "PROTOCOL_VERSION13 \<equiv> 13"

abbreviation (input) PROTOCOL_VERSION16 :: "'a::{numeral}" where
  "PROTOCOL_VERSION16 \<equiv> 16"

abbreviation (input) PROTOCOL_VERSION17 :: "'a::{numeral}" where
  "PROTOCOL_VERSION17 \<equiv> 17"

abbreviation (input) PROTOCOL_VERSION18 :: "'a::{numeral}" where
  "PROTOCOL_VERSION18 \<equiv> 18"

abbreviation (input) PROTOCOL_VERSION19 :: "'a::{numeral}" where
  "PROTOCOL_VERSION19 \<equiv> 19"

abbreviation (input) CURSOR_TYPE_SCROLLABLE :: "'a::{numeral}" where
  "CURSOR_TYPE_SCROLLABLE \<equiv> 1"

abbreviation (input) CNCT_user :: "'a::{numeral}" where
  "CNCT_user \<equiv> 1"

abbreviation (input) CNCT_host :: "'a::{numeral}" where
  "CNCT_host \<equiv> 4"

abbreviation (input) CNCT_user_verification :: "'a::{numeral}" where
  "CNCT_user_verification \<equiv> 6"

abbreviation (input) CNCT_specific_data :: "'a::{numeral}" where
  "CNCT_specific_data \<equiv> 7"

abbreviation (input) CNCT_plugin_name :: "'a::{numeral}" where
  "CNCT_plugin_name \<equiv> 8"

abbreviation (input) CNCT_login :: "'a::{numeral}" where
  "CNCT_login \<equiv> 9"

abbreviation (input) CNCT_plugin_list :: "'a::{numeral}" where
  "CNCT_plugin_list \<equiv> 10"

abbreviation (input) CNCT_client_crypt :: "'a::{numeral}" where
  "CNCT_client_crypt \<equiv> 11"

abbreviation (input) isc_info_end :: "'a::{numeral}" where
  "isc_info_end \<equiv> 1"

abbreviation (input) isc_info_truncated :: "'a::{numeral}" where
  "isc_info_truncated \<equiv> 2"

abbreviation (input) isc_info_flag_end :: "'a::{numeral}" where
  "isc_info_flag_end \<equiv> 127"

abbreviation (input) isc_info_ods_version :: "'a::{numeral}" where
  "isc_info_ods_version \<equiv> 32"

abbreviation (input) isc_info_svc_svr_db_info :: "'a::{numeral}" where
  "isc_info_svc_svr_db_info \<equiv> 50"

abbreviation (input) isc_info_svc_server_version :: "'a::{numeral}" where
  "isc_info_svc_server_version \<equiv> 55"

abbreviation (input) isc_info_svc_implementation :: "'a::{numeral}" where
  "isc_info_svc_implementation \<equiv> 56"

abbreviation (input) isc_info_svc_user_dbpath :: "'a::{numeral}" where
  "isc_info_svc_user_dbpath \<equiv> 58"

abbreviation (input) isc_info_svc_get_env :: "'a::{numeral}" where
  "isc_info_svc_get_env \<equiv> 59"

abbreviation (input) isc_info_svc_get_env_lock :: "'a::{numeral}" where
  "isc_info_svc_get_env_lock \<equiv> 60"

abbreviation (input) isc_info_svc_get_env_msg :: "'a::{numeral}" where
  "isc_info_svc_get_env_msg \<equiv> 61"

abbreviation (input) isc_info_svc_line :: "'a::{numeral}" where
  "isc_info_svc_line \<equiv> 62"

abbreviation (input) isc_info_svc_to_eof :: "'a::{numeral}" where
  "isc_info_svc_to_eof \<equiv> 63"

abbreviation (input) isc_info_svc_timeout :: "'a::{numeral}" where
  "isc_info_svc_timeout \<equiv> 64"

abbreviation (input) isc_info_svc_running :: "'a::{numeral}" where
  "isc_info_svc_running \<equiv> 67"

abbreviation (input) isc_tpb_version3 :: "'a::{numeral}" where
  "isc_tpb_version3 \<equiv> 3"

abbreviation (input) isc_tpb_consistency :: "'a::{numeral}" where
  "isc_tpb_consistency \<equiv> 1"

abbreviation (input) isc_tpb_concurrency :: "'a::{numeral}" where
  "isc_tpb_concurrency \<equiv> 2"

abbreviation (input) isc_tpb_wait :: "'a::{numeral}" where
  "isc_tpb_wait \<equiv> 6"

abbreviation (input) isc_tpb_nowait :: "'a::{numeral}" where
  "isc_tpb_nowait \<equiv> 7"

abbreviation (input) isc_tpb_read :: "'a::{numeral}" where
  "isc_tpb_read \<equiv> 8"

abbreviation (input) isc_tpb_write :: "'a::{numeral}" where
  "isc_tpb_write \<equiv> 9"

abbreviation (input) isc_tpb_read_committed :: "'a::{numeral}" where
  "isc_tpb_read_committed \<equiv> 15"

abbreviation (input) isc_tpb_rec_version :: "'a::{numeral}" where
  "isc_tpb_rec_version \<equiv> 17"

abbreviation (input) isc_tpb_no_rec_version :: "'a::{numeral}" where
  "isc_tpb_no_rec_version \<equiv> 18"

abbreviation (input) isc_spb_current_version :: "'a::{numeral}" where
  "isc_spb_current_version \<equiv> 2"

abbreviation (input) isc_spb_version :: "'a::{numeral}" where
  "isc_spb_version \<equiv> 2"

abbreviation (input) isc_spb_user_name :: "'a::{numeral}" where
  "isc_spb_user_name \<equiv> 28"

abbreviation (input) isc_spb_password :: "'a::{numeral}" where
  "isc_spb_password \<equiv> 29"

abbreviation (input) isc_spb_command_line :: "'a::{numeral}" where
  "isc_spb_command_line \<equiv> 105"

abbreviation (input) isc_spb_dbname :: "'a::{numeral}" where
  "isc_spb_dbname \<equiv> 106"

abbreviation (input) isc_spb_verbose :: "'a::{numeral}" where
  "isc_spb_verbose \<equiv> 107"

abbreviation (input) isc_spb_options :: "'a::{numeral}" where
  "isc_spb_options \<equiv> 108"

abbreviation (input) isc_spb_utf8_filename :: "'a::{numeral}" where
  "isc_spb_utf8_filename \<equiv> 118"

abbreviation (input) isc_spb_sec_userid :: "'a::{numeral}" where
  "isc_spb_sec_userid \<equiv> 5"

abbreviation (input) isc_spb_sec_groupid :: "'a::{numeral}" where
  "isc_spb_sec_groupid \<equiv> 6"

abbreviation (input) isc_spb_sec_username :: "'a::{numeral}" where
  "isc_spb_sec_username \<equiv> 7"

abbreviation (input) isc_spb_sec_password :: "'a::{numeral}" where
  "isc_spb_sec_password \<equiv> 8"

abbreviation (input) isc_spb_sec_firstname :: "'a::{numeral}" where
  "isc_spb_sec_firstname \<equiv> 10"

abbreviation (input) isc_spb_sec_middlename :: "'a::{numeral}" where
  "isc_spb_sec_middlename \<equiv> 11"

abbreviation (input) isc_spb_sec_lastname :: "'a::{numeral}" where
  "isc_spb_sec_lastname \<equiv> 12"

abbreviation (input) isc_spb_sec_admin :: "'a::{numeral}" where
  "isc_spb_sec_admin \<equiv> 13"

abbreviation (input) isc_dpb_version1 :: "'a::{numeral}" where
  "isc_dpb_version1 \<equiv> 1"

abbreviation (input) isc_dpb_page_size :: "'a::{numeral}" where
  "isc_dpb_page_size \<equiv> 4"

abbreviation (input) isc_dpb_force_write :: "'a::{numeral}" where
  "isc_dpb_force_write \<equiv> 24"

abbreviation (input) isc_dpb_user_name :: "'a::{numeral}" where
  "isc_dpb_user_name \<equiv> 28"

abbreviation (input) isc_dpb_password :: "'a::{numeral}" where
  "isc_dpb_password \<equiv> 29"

abbreviation (input) isc_dpb_lc_ctype :: "'a::{numeral}" where
  "isc_dpb_lc_ctype \<equiv> 48"

abbreviation (input) isc_dpb_overwrite :: "'a::{numeral}" where
  "isc_dpb_overwrite \<equiv> 54"

abbreviation (input) isc_dpb_sql_role_name :: "'a::{numeral}" where
  "isc_dpb_sql_role_name \<equiv> 60"

abbreviation (input) isc_dpb_sql_dialect :: "'a::{numeral}" where
  "isc_dpb_sql_dialect \<equiv> 63"

abbreviation (input) isc_dpb_set_db_charset :: "'a::{numeral}" where
  "isc_dpb_set_db_charset \<equiv> 68"

abbreviation (input) isc_dpb_process_id :: "'a::{numeral}" where
  "isc_dpb_process_id \<equiv> 71"

abbreviation (input) isc_dpb_process_name :: "'a::{numeral}" where
  "isc_dpb_process_name \<equiv> 74"

abbreviation (input) isc_dpb_utf8_filename :: "'a::{numeral}" where
  "isc_dpb_utf8_filename \<equiv> 77"

abbreviation (input) isc_dpb_client_version :: "'a::{numeral}" where
  "isc_dpb_client_version \<equiv> 80"

abbreviation (input) isc_dpb_host_name :: "'a::{numeral}" where
  "isc_dpb_host_name \<equiv> 82"

abbreviation (input) isc_dpb_os_user :: "'a::{numeral}" where
  "isc_dpb_os_user \<equiv> 83"

abbreviation (input) isc_dpb_specific_auth_data :: "'a::{numeral}" where
  "isc_dpb_specific_auth_data \<equiv> 84"

abbreviation (input) isc_dpb_session_time_zone :: "'a::{numeral}" where
  "isc_dpb_session_time_zone \<equiv> 91"

abbreviation (input) isc_dpb_max_blob_cache_size :: "'a::{numeral}" where
  "isc_dpb_max_blob_cache_size \<equiv> 103"

abbreviation (input) isc_dpb_max_inline_blob_size :: "'a::{numeral}" where
  "isc_dpb_max_inline_blob_size \<equiv> 104"

abbreviation (input) isc_spb_bkp_file :: "'a::{numeral}" where
  "isc_spb_bkp_file \<equiv> 5"

abbreviation (input) isc_spb_bkp_ignore_checksums :: "'a::{numeral}" where
  "isc_spb_bkp_ignore_checksums \<equiv> 1"

abbreviation (input) isc_spb_bkp_ignore_limbo :: "'a::{numeral}" where
  "isc_spb_bkp_ignore_limbo \<equiv> 2"

abbreviation (input) isc_spb_bkp_metadata_only :: "'a::{numeral}" where
  "isc_spb_bkp_metadata_only \<equiv> 4"

abbreviation (input) isc_spb_bkp_no_garbage_collect :: "'a::{numeral}" where
  "isc_spb_bkp_no_garbage_collect \<equiv> 8"

abbreviation (input) isc_spb_bkp_non_transportable :: "'a::{numeral}" where
  "isc_spb_bkp_non_transportable \<equiv> 32"

abbreviation (input) isc_spb_bkp_convert :: "'a::{numeral}" where
  "isc_spb_bkp_convert \<equiv> 64"

abbreviation (input) isc_spb_bkp_expand :: "'a::{numeral}" where
  "isc_spb_bkp_expand \<equiv> 8"

abbreviation (input) isc_spb_bkp_parallel_workers :: "'a::{numeral}" where
  "isc_spb_bkp_parallel_workers \<equiv> 21"

abbreviation (input) isc_spb_bkp_zip :: "'a::{numeral}" where
  "isc_spb_bkp_zip \<equiv> 65536"

abbreviation (input) isc_spb_res_buffers :: "'a::{numeral}" where
  "isc_spb_res_buffers \<equiv> 9"

abbreviation (input) isc_spb_res_page_size :: "'a::{numeral}" where
  "isc_spb_res_page_size \<equiv> 10"

abbreviation (input) isc_spb_res_parallel_workers :: "'a::{numeral}" where
  "isc_spb_res_parallel_workers \<equiv> 21"

abbreviation (input) isc_spb_res_deactivate_idx :: "'a::{numeral}" where
  "isc_spb_res_deactivate_idx \<equiv> 256"

abbreviation (input) isc_spb_res_no_shadow :: "'a::{numeral}" where
  "isc_spb_res_no_shadow \<equiv> 512"

abbreviation (input) isc_spb_res_no_validity :: "'a::{numeral}" where
  "isc_spb_res_no_validity \<equiv> 1024"

abbreviation (input) isc_spb_res_one_at_a_time :: "'a::{numeral}" where
  "isc_spb_res_one_at_a_time \<equiv> 2048"

abbreviation (input) isc_spb_res_replace :: "'a::{numeral}" where
  "isc_spb_res_replace \<equiv> 4096"

abbreviation (input) isc_spb_res_create :: "'a::{numeral}" where
  "isc_spb_res_create \<equiv> 8192"

abbreviation (input) isc_spb_res_use_all_space :: "'a::{numeral}" where
  "isc_spb_res_use_all_space \<equiv> 16384"

abbreviation (input) isc_spb_nbk_level :: "'a::{numeral}" where
  "isc_spb_nbk_level \<equiv> 5"

abbreviation (input) isc_spb_nbk_file :: "'a::{numeral}" where
  "isc_spb_nbk_file \<equiv> 6"

abbreviation (input) isc_spb_nbk_guid :: "'a::{numeral}" where
  "isc_spb_nbk_guid \<equiv> 8"

abbreviation (input) isc_spb_nbk_no_triggers :: "'a::{numeral}" where
  "isc_spb_nbk_no_triggers \<equiv> 1"

abbreviation (input) isc_spb_nbk_inplace :: "'a::{numeral}" where
  "isc_spb_nbk_inplace \<equiv> 2"

abbreviation (input) isc_spb_nbk_sequence :: "'a::{numeral}" where
  "isc_spb_nbk_sequence \<equiv> 4"

abbreviation (input) isc_spb_prp_page_buffers :: "'a::{numeral}" where
  "isc_spb_prp_page_buffers \<equiv> 5"

abbreviation (input) isc_spb_prp_sweep_interval :: "'a::{numeral}" where
  "isc_spb_prp_sweep_interval \<equiv> 6"

abbreviation (input) isc_spb_prp_reserve_space :: "'a::{numeral}" where
  "isc_spb_prp_reserve_space \<equiv> 11"

abbreviation (input) isc_spb_prp_write_mode :: "'a::{numeral}" where
  "isc_spb_prp_write_mode \<equiv> 12"

abbreviation (input) isc_spb_prp_access_mode :: "'a::{numeral}" where
  "isc_spb_prp_access_mode \<equiv> 13"

abbreviation (input) isc_spb_prp_set_sql_dialect :: "'a::{numeral}" where
  "isc_spb_prp_set_sql_dialect \<equiv> 14"

abbreviation (input) isc_spb_prp_activate :: "'a::{numeral}" where
  "isc_spb_prp_activate \<equiv> 256"

abbreviation (input) isc_spb_prp_db_online :: "'a::{numeral}" where
  "isc_spb_prp_db_online \<equiv> 512"

abbreviation (input) isc_spb_prp_nolinger :: "'a::{numeral}" where
  "isc_spb_prp_nolinger \<equiv> 1024"

abbreviation (input) isc_spb_prp_shutdown_mode :: "'a::{numeral}" where
  "isc_spb_prp_shutdown_mode \<equiv> 44"

abbreviation (input) isc_spb_prp_online_mode :: "'a::{numeral}" where
  "isc_spb_prp_online_mode \<equiv> 45"

abbreviation (input) isc_spb_prp_replica_mode :: "'a::{numeral}" where
  "isc_spb_prp_replica_mode \<equiv> 46"

abbreviation (input) isc_spb_rpr_commit_trans :: "'a::{numeral}" where
  "isc_spb_rpr_commit_trans \<equiv> 15"

abbreviation (input) isc_spb_rpr_rollback_trans :: "'a::{numeral}" where
  "isc_spb_rpr_rollback_trans \<equiv> 34"

abbreviation (input) isc_spb_tra_id :: "'a::{numeral}" where
  "isc_spb_tra_id \<equiv> 18"

abbreviation (input) isc_spb_single_tra_id :: "'a::{numeral}" where
  "isc_spb_single_tra_id \<equiv> 19"

abbreviation (input) isc_spb_multi_tra_id :: "'a::{numeral}" where
  "isc_spb_multi_tra_id \<equiv> 20"

abbreviation (input) isc_spb_tra_state :: "'a::{numeral}" where
  "isc_spb_tra_state \<equiv> 21"

abbreviation (input) isc_spb_tra_host_site :: "'a::{numeral}" where
  "isc_spb_tra_host_site \<equiv> 26"

abbreviation (input) isc_spb_tra_remote_site :: "'a::{numeral}" where
  "isc_spb_tra_remote_site \<equiv> 27"

abbreviation (input) isc_spb_tra_db_path :: "'a::{numeral}" where
  "isc_spb_tra_db_path \<equiv> 28"

abbreviation (input) isc_spb_tra_advise :: "'a::{numeral}" where
  "isc_spb_tra_advise \<equiv> 29"

abbreviation (input) isc_spb_tra_id_64 :: "'a::{numeral}" where
  "isc_spb_tra_id_64 \<equiv> 46"

abbreviation (input) isc_spb_single_tra_id_64 :: "'a::{numeral}" where
  "isc_spb_single_tra_id_64 \<equiv> 47"

abbreviation (input) isc_spb_multi_tra_id_64 :: "'a::{numeral}" where
  "isc_spb_multi_tra_id_64 \<equiv> 48"

abbreviation (input) isc_spb_rpr_commit_trans_64 :: "'a::{numeral}" where
  "isc_spb_rpr_commit_trans_64 \<equiv> 49"

abbreviation (input) isc_spb_rpr_rollback_trans_64 :: "'a::{numeral}" where
  "isc_spb_rpr_rollback_trans_64 \<equiv> 50"

abbreviation (input) isc_spb_prp_res_use_full :: "'a::{numeral}" where
  "isc_spb_prp_res_use_full \<equiv> 35"

abbreviation (input) isc_spb_prp_res :: "'a::{numeral}" where
  "isc_spb_prp_res \<equiv> 36"

abbreviation (input) isc_spb_prp_wm_async :: "'a::{numeral}" where
  "isc_spb_prp_wm_async \<equiv> 37"

abbreviation (input) isc_spb_prp_wm_sync :: "'a::{numeral}" where
  "isc_spb_prp_wm_sync \<equiv> 38"

abbreviation (input) isc_spb_prp_am_readonly :: "'a::{numeral}" where
  "isc_spb_prp_am_readonly \<equiv> 39"

abbreviation (input) isc_spb_prp_am_readwrite :: "'a::{numeral}" where
  "isc_spb_prp_am_readwrite \<equiv> 40"

abbreviation (input) isc_spb_trc_id :: "'a::{numeral}" where
  "isc_spb_trc_id \<equiv> 1"

abbreviation (input) isc_spb_trc_name :: "'a::{numeral}" where
  "isc_spb_trc_name \<equiv> 2"

abbreviation (input) isc_spb_trc_cfg :: "'a::{numeral}" where
  "isc_spb_trc_cfg \<equiv> 3"

abbreviation (input) isc_spb_num_att :: "'a::{numeral}" where
  "isc_spb_num_att \<equiv> 5"

abbreviation (input) isc_spb_num_db :: "'a::{numeral}" where
  "isc_spb_num_db \<equiv> 6"

abbreviation (input) isc_spb_sts_data_pages :: "'a::{numeral}" where
  "isc_spb_sts_data_pages \<equiv> 1"

abbreviation (input) isc_spb_sts_hdr_pages :: "'a::{numeral}" where
  "isc_spb_sts_hdr_pages \<equiv> 4"

abbreviation (input) isc_spb_sts_idx_pages :: "'a::{numeral}" where
  "isc_spb_sts_idx_pages \<equiv> 8"

abbreviation (input) isc_spb_sts_sys_relations :: "'a::{numeral}" where
  "isc_spb_sts_sys_relations \<equiv> 16"

abbreviation (input) isc_spb_sts_record_versions :: "'a::{numeral}" where
  "isc_spb_sts_record_versions \<equiv> 32"

abbreviation (input) isc_spb_sts_table :: "'a::{numeral}" where
  "isc_spb_sts_table \<equiv> 64"

abbreviation (input) isc_spb_rpr_validate_db :: "'a::{numeral}" where
  "isc_spb_rpr_validate_db \<equiv> 1"

abbreviation (input) isc_spb_rpr_sweep_db :: "'a::{numeral}" where
  "isc_spb_rpr_sweep_db \<equiv> 2"

abbreviation (input) isc_spb_rpr_mend_db :: "'a::{numeral}" where
  "isc_spb_rpr_mend_db \<equiv> 4"

abbreviation (input) isc_spb_rpr_list_limbo_trans :: "'a::{numeral}" where
  "isc_spb_rpr_list_limbo_trans \<equiv> 8"

abbreviation (input) isc_spb_rpr_kill_shadows :: "'a::{numeral}" where
  "isc_spb_rpr_kill_shadows \<equiv> 64"

abbreviation (input) isc_action_svc_backup :: "'a::{numeral}" where
  "isc_action_svc_backup \<equiv> 1"

abbreviation (input) isc_action_svc_restore :: "'a::{numeral}" where
  "isc_action_svc_restore \<equiv> 2"

abbreviation (input) isc_action_svc_repair :: "'a::{numeral}" where
  "isc_action_svc_repair \<equiv> 3"

abbreviation (input) isc_action_svc_add_user :: "'a::{numeral}" where
  "isc_action_svc_add_user \<equiv> 4"

abbreviation (input) isc_action_svc_delete_user :: "'a::{numeral}" where
  "isc_action_svc_delete_user \<equiv> 5"

abbreviation (input) isc_action_svc_modify_user :: "'a::{numeral}" where
  "isc_action_svc_modify_user \<equiv> 6"

abbreviation (input) isc_action_svc_properties :: "'a::{numeral}" where
  "isc_action_svc_properties \<equiv> 8"

abbreviation (input) isc_action_svc_db_stats :: "'a::{numeral}" where
  "isc_action_svc_db_stats \<equiv> 11"

abbreviation (input) isc_action_svc_get_fb_log :: "'a::{numeral}" where
  "isc_action_svc_get_fb_log \<equiv> 12"

abbreviation (input) isc_action_svc_nbak :: "'a::{numeral}" where
  "isc_action_svc_nbak \<equiv> 20"

abbreviation (input) isc_action_svc_nrest :: "'a::{numeral}" where
  "isc_action_svc_nrest \<equiv> 21"

abbreviation (input) isc_action_svc_trace_start :: "'a::{numeral}" where
  "isc_action_svc_trace_start \<equiv> 22"

abbreviation (input) isc_action_svc_trace_stop :: "'a::{numeral}" where
  "isc_action_svc_trace_stop \<equiv> 23"

abbreviation (input) isc_action_svc_trace_suspend :: "'a::{numeral}" where
  "isc_action_svc_trace_suspend \<equiv> 24"

abbreviation (input) isc_action_svc_trace_resume :: "'a::{numeral}" where
  "isc_action_svc_trace_resume \<equiv> 25"

abbreviation (input) isc_action_svc_trace_list :: "'a::{numeral}" where
  "isc_action_svc_trace_list \<equiv> 26"

abbreviation (input) isc_action_svc_set_mapping :: "'a::{numeral}" where
  "isc_action_svc_set_mapping \<equiv> 27"

abbreviation (input) isc_action_svc_drop_mapping :: "'a::{numeral}" where
  "isc_action_svc_drop_mapping \<equiv> 28"

abbreviation (input) isc_action_svc_display_user_adm :: "'a::{numeral}" where
  "isc_action_svc_display_user_adm \<equiv> 29"

abbreviation (input) isc_action_svc_nfix :: "'a::{numeral}" where
  "isc_action_svc_nfix \<equiv> 31"

abbreviation (input) isc_info_sql_select :: "'a::{numeral}" where
  "isc_info_sql_select \<equiv> 4"

abbreviation (input) isc_info_sql_bind :: "'a::{numeral}" where
  "isc_info_sql_bind \<equiv> 5"

abbreviation (input) isc_info_sql_describe_vars :: "'a::{numeral}" where
  "isc_info_sql_describe_vars \<equiv> 7"

abbreviation (input) isc_info_sql_describe_end :: "'a::{numeral}" where
  "isc_info_sql_describe_end \<equiv> 8"

abbreviation (input) isc_info_sql_sqlda_seq :: "'a::{numeral}" where
  "isc_info_sql_sqlda_seq \<equiv> 9"

abbreviation (input) isc_info_sql_type :: "'a::{numeral}" where
  "isc_info_sql_type \<equiv> 11"

abbreviation (input) isc_info_sql_sub_type :: "'a::{numeral}" where
  "isc_info_sql_sub_type \<equiv> 12"

abbreviation (input) isc_info_sql_scale :: "'a::{numeral}" where
  "isc_info_sql_scale \<equiv> 13"

abbreviation (input) isc_info_sql_length :: "'a::{numeral}" where
  "isc_info_sql_length \<equiv> 14"

abbreviation (input) isc_info_sql_null_ind :: "'a::{numeral}" where
  "isc_info_sql_null_ind \<equiv> 15"

abbreviation (input) isc_info_sql_field :: "'a::{numeral}" where
  "isc_info_sql_field \<equiv> 16"

abbreviation (input) isc_info_sql_relation :: "'a::{numeral}" where
  "isc_info_sql_relation \<equiv> 17"

abbreviation (input) isc_info_sql_owner :: "'a::{numeral}" where
  "isc_info_sql_owner \<equiv> 18"

abbreviation (input) isc_info_sql_alias :: "'a::{numeral}" where
  "isc_info_sql_alias \<equiv> 19"

abbreviation (input) isc_info_sql_sqlda_start :: "'a::{numeral}" where
  "isc_info_sql_sqlda_start \<equiv> 20"

abbreviation (input) isc_info_sql_stmt_type :: "'a::{numeral}" where
  "isc_info_sql_stmt_type \<equiv> 21"

abbreviation (input) isc_info_sql_records :: "'a::{numeral}" where
  "isc_info_sql_records \<equiv> 23"

abbreviation (input) isc_info_sql_stmt_select :: "'a::{numeral}" where
  "isc_info_sql_stmt_select \<equiv> 1"

abbreviation (input) isc_info_sql_stmt_insert :: "'a::{numeral}" where
  "isc_info_sql_stmt_insert \<equiv> 2"

abbreviation (input) isc_info_sql_stmt_update :: "'a::{numeral}" where
  "isc_info_sql_stmt_update \<equiv> 3"

abbreviation (input) isc_info_sql_stmt_delete :: "'a::{numeral}" where
  "isc_info_sql_stmt_delete \<equiv> 4"

abbreviation (input) isc_info_sql_stmt_exec_procedure :: "'a::{numeral}" where
  "isc_info_sql_stmt_exec_procedure \<equiv> 8"

abbreviation (input) isc_info_sql_stmt_select_for_upd :: "'a::{numeral}" where
  "isc_info_sql_stmt_select_for_upd \<equiv> 12"

abbreviation (input) isc_arg_end :: "'a::{zero}" where
  "isc_arg_end \<equiv> 0"

abbreviation (input) isc_arg_gds :: "'a::{numeral}" where
  "isc_arg_gds \<equiv> 1"

abbreviation (input) isc_arg_string :: "'a::{numeral}" where
  "isc_arg_string \<equiv> 2"

abbreviation (input) isc_arg_number :: "'a::{numeral}" where
  "isc_arg_number \<equiv> 4"

abbreviation (input) isc_arg_interpreted :: "'a::{numeral}" where
  "isc_arg_interpreted \<equiv> 5"

abbreviation (input) isc_arg_warning :: "'a::{numeral}" where
  "isc_arg_warning \<equiv> 18"

abbreviation (input) isc_arg_sql_state :: "'a::{numeral}" where
  "isc_arg_sql_state \<equiv> 19"

abbreviation (input) op_connect :: "'a::{numeral}" where
  "op_connect \<equiv> 1"

abbreviation (input) op_accept :: "'a::{numeral}" where
  "op_accept \<equiv> 3"

abbreviation (input) op_reject :: "'a::{numeral}" where
  "op_reject \<equiv> 4"

abbreviation (input) op_response :: "'a::{numeral}" where
  "op_response \<equiv> 9"

abbreviation (input) op_attach :: "'a::{numeral}" where
  "op_attach \<equiv> 19"

abbreviation (input) op_create :: "'a::{numeral}" where
  "op_create \<equiv> 20"

abbreviation (input) op_detach :: "'a::{numeral}" where
  "op_detach \<equiv> 21"

abbreviation (input) op_transaction :: "'a::{numeral}" where
  "op_transaction \<equiv> 29"

abbreviation (input) op_commit :: "'a::{numeral}" where
  "op_commit \<equiv> 30"

abbreviation (input) op_rollback :: "'a::{numeral}" where
  "op_rollback \<equiv> 31"

abbreviation (input) op_open_blob :: "'a::{numeral}" where
  "op_open_blob \<equiv> 35"

abbreviation (input) op_get_segment :: "'a::{numeral}" where
  "op_get_segment \<equiv> 36"

abbreviation (input) op_put_segment :: "'a::{numeral}" where
  "op_put_segment \<equiv> 37"

abbreviation (input) op_close_blob :: "'a::{numeral}" where
  "op_close_blob \<equiv> 39"

abbreviation (input) op_info_database :: "'a::{numeral}" where
  "op_info_database \<equiv> 40"

abbreviation (input) op_info_transaction :: "'a::{numeral}" where
  "op_info_transaction \<equiv> 42"

abbreviation (input) op_que_events :: "'a::{numeral}" where
  "op_que_events \<equiv> 48"

abbreviation (input) op_cancel_events :: "'a::{numeral}" where
  "op_cancel_events \<equiv> 49"

abbreviation (input) op_commit_retaining :: "'a::{numeral}" where
  "op_commit_retaining \<equiv> 50"

abbreviation (input) op_event :: "'a::{numeral}" where
  "op_event \<equiv> 52"

abbreviation (input) op_connect_request :: "'a::{numeral}" where
  "op_connect_request \<equiv> 53"

abbreviation (input) op_open_blob2 :: "'a::{numeral}" where
  "op_open_blob2 \<equiv> 56"

abbreviation (input) op_create_blob2 :: "'a::{numeral}" where
  "op_create_blob2 \<equiv> 57"

abbreviation (input) op_get_slice :: "'a::{numeral}" where
  "op_get_slice \<equiv> 58"

abbreviation (input) op_put_slice :: "'a::{numeral}" where
  "op_put_slice \<equiv> 59"

abbreviation (input) op_slice_response :: "'a::{numeral}" where
  "op_slice_response \<equiv> 60"

abbreviation (input) op_allocate_statement :: "'a::{numeral}" where
  "op_allocate_statement \<equiv> 62"

abbreviation (input) op_execute :: "'a::{numeral}" where
  "op_execute \<equiv> 63"

abbreviation (input) op_execute_immediate :: "'a::{numeral}" where
  "op_execute_immediate \<equiv> 64"

abbreviation (input) op_fetch :: "'a::{numeral}" where
  "op_fetch \<equiv> 65"

abbreviation (input) op_fetch_response :: "'a::{numeral}" where
  "op_fetch_response \<equiv> 66"

abbreviation (input) op_free_statement :: "'a::{numeral}" where
  "op_free_statement \<equiv> 67"

abbreviation (input) op_prepare_statement :: "'a::{numeral}" where
  "op_prepare_statement \<equiv> 68"

abbreviation (input) op_info_sql :: "'a::{numeral}" where
  "op_info_sql \<equiv> 70"

abbreviation (input) op_dummy :: "'a::{numeral}" where
  "op_dummy \<equiv> 71"

abbreviation (input) op_execute2 :: "'a::{numeral}" where
  "op_execute2 \<equiv> 76"

abbreviation (input) op_sql_response :: "'a::{numeral}" where
  "op_sql_response \<equiv> 78"

abbreviation (input) op_drop_database :: "'a::{numeral}" where
  "op_drop_database \<equiv> 81"

abbreviation (input) op_service_attach :: "'a::{numeral}" where
  "op_service_attach \<equiv> 82"

abbreviation (input) op_service_detach :: "'a::{numeral}" where
  "op_service_detach \<equiv> 83"

abbreviation (input) op_service_info :: "'a::{numeral}" where
  "op_service_info \<equiv> 84"

abbreviation (input) op_service_start :: "'a::{numeral}" where
  "op_service_start \<equiv> 85"

abbreviation (input) op_rollback_retaining :: "'a::{numeral}" where
  "op_rollback_retaining \<equiv> 86"

abbreviation (input) op_cancel :: "'a::{numeral}" where
  "op_cancel \<equiv> 91"

abbreviation (input) op_cont_auth :: "'a::{numeral}" where
  "op_cont_auth \<equiv> 92"

abbreviation (input) op_ping :: "'a::{numeral}" where
  "op_ping \<equiv> 93"

abbreviation (input) op_accept_data :: "'a::{numeral}" where
  "op_accept_data \<equiv> 94"

abbreviation (input) op_crypt :: "'a::{numeral}" where
  "op_crypt \<equiv> 96"

abbreviation (input) op_crypt_key_callback :: "'a::{numeral}" where
  "op_crypt_key_callback \<equiv> 97"

abbreviation (input) op_cond_accept :: "'a::{numeral}" where
  "op_cond_accept \<equiv> 98"

abbreviation (input) op_fetch_scroll :: "'a::{numeral}" where
  "op_fetch_scroll \<equiv> 112"

abbreviation (input) op_inline_blob :: "'a::{numeral}" where
  "op_inline_blob \<equiv> 114"

abbreviation (input) op_batch_create :: "'a::{numeral}" where
  "op_batch_create \<equiv> 99"

abbreviation (input) op_batch_msg :: "'a::{numeral}" where
  "op_batch_msg \<equiv> 100"

abbreviation (input) op_batch_exec :: "'a::{numeral}" where
  "op_batch_exec \<equiv> 101"

abbreviation (input) op_batch_rls :: "'a::{numeral}" where
  "op_batch_rls \<equiv> 102"

abbreviation (input) op_batch_cs :: "'a::{numeral}" where
  "op_batch_cs \<equiv> 103"

abbreviation (input) op_batch_sync :: "'a::{numeral}" where
  "op_batch_sync \<equiv> 110"

abbreviation (input) isc_sdl_version1 :: "'a::{numeral}" where
  "isc_sdl_version1 \<equiv> 1"

abbreviation (input) isc_sdl_relation :: "'a::{numeral}" where
  "isc_sdl_relation \<equiv> 2"

abbreviation (input) isc_sdl_field :: "'a::{numeral}" where
  "isc_sdl_field \<equiv> 4"

abbreviation (input) isc_sdl_struct :: "'a::{numeral}" where
  "isc_sdl_struct \<equiv> 6"

abbreviation (input) isc_sdl_variable :: "'a::{numeral}" where
  "isc_sdl_variable \<equiv> 7"

abbreviation (input) isc_sdl_scalar :: "'a::{numeral}" where
  "isc_sdl_scalar \<equiv> 8"

abbreviation (input) isc_sdl_tiny_integer :: "'a::{numeral}" where
  "isc_sdl_tiny_integer \<equiv> 9"

abbreviation (input) isc_sdl_short_integer :: "'a::{numeral}" where
  "isc_sdl_short_integer \<equiv> 10"

abbreviation (input) isc_sdl_long_integer :: "'a::{numeral}" where
  "isc_sdl_long_integer \<equiv> 11"

abbreviation (input) isc_sdl_do2 :: "'a::{numeral}" where
  "isc_sdl_do2 \<equiv> 34"

abbreviation (input) isc_sdl_do1 :: "'a::{numeral}" where
  "isc_sdl_do1 \<equiv> 35"

abbreviation (input) isc_sdl_element :: "'a::{numeral}" where
  "isc_sdl_element \<equiv> 36"

abbreviation (input) isc_sdl_eoc :: "'a::{numeral}" where
  "isc_sdl_eoc \<equiv> 255"

abbreviation (input) blr_type_text :: "'a::{numeral}" where
  "blr_type_text \<equiv> 14"

abbreviation (input) blr_type_text2 :: "'a::{numeral}" where
  "blr_type_text2 \<equiv> 15"

abbreviation (input) blr_type_int64 :: "'a::{numeral}" where
  "blr_type_int64 \<equiv> 16"

abbreviation (input) blr_type_bool :: "'a::{numeral}" where
  "blr_type_bool \<equiv> 23"

abbreviation (input) blr_type_dec64 :: "'a::{numeral}" where
  "blr_type_dec64 \<equiv> 24"

abbreviation (input) blr_type_dec128 :: "'a::{numeral}" where
  "blr_type_dec128 \<equiv> 25"

abbreviation (input) blr_type_int128 :: "'a::{numeral}" where
  "blr_type_int128 \<equiv> 26"

abbreviation (input) blr_type_double :: "'a::{numeral}" where
  "blr_type_double \<equiv> 27"

abbreviation (input) blr_type_time_tz :: "'a::{numeral}" where
  "blr_type_time_tz \<equiv> 28"

abbreviation (input) blr_type_ts_tz :: "'a::{numeral}" where
  "blr_type_ts_tz \<equiv> 29"

abbreviation (input) blr_type_timestamp :: "'a::{numeral}" where
  "blr_type_timestamp \<equiv> 35"

abbreviation (input) blr_type_varying :: "'a::{numeral}" where
  "blr_type_varying \<equiv> 37"

abbreviation (input) blr_type_varying2 :: "'a::{numeral}" where
  "blr_type_varying2 \<equiv> 38"

abbreviation (input) blr_type_cstring :: "'a::{numeral}" where
  "blr_type_cstring \<equiv> 40"

abbreviation (input) blr_type_cstring2 :: "'a::{numeral}" where
  "blr_type_cstring2 \<equiv> 41"

abbreviation (input) batchVersion1 :: "'a::{numeral}" where
  "batchVersion1 \<equiv> 1"

abbreviation (input) batchTagMultiError :: "'a::{numeral}" where
  "batchTagMultiError \<equiv> 1"

abbreviation (input) batchTagRecordCounts :: "'a::{numeral}" where
  "batchTagRecordCounts \<equiv> 2"

abbreviation (input) batchTagBufferBytes :: "'a::{numeral}" where
  "batchTagBufferBytes \<equiv> 3"

abbreviation (input) batchTagBlobPolicy :: "'a::{numeral}" where
  "batchTagBlobPolicy \<equiv> 4"

abbreviation (input) batchTagDetailedErrors :: "'a::{numeral}" where
  "batchTagDetailedErrors \<equiv> 5"

abbreviation (input) batchBlobIDUser :: "'a::{numeral}" where
  "batchBlobIDUser \<equiv> 2"

abbreviation (input) LevelReadCommittedNoWait :: "'a::{numeral}" where
  "LevelReadCommittedNoWait \<equiv> 1000"

abbreviation (input) p_req_async :: "'a::{numeral}" where
  "p_req_async \<equiv> 1"

abbreviation (input) EPB_version1 :: "'a::{numeral}" where
  "EPB_version1 \<equiv> 1"

abbreviation (input) partner_identification :: "'a::{zero}" where
  "partner_identification \<equiv> 0"

abbreviation (input) address_of_ast_routine :: "'a::{zero}" where
  "address_of_ast_routine \<equiv> 0"

abbreviation (input) argument_to_ast_routine :: "'a::{zero}" where
  "argument_to_ast_routine \<equiv> 0"

abbreviation (input) fb_cancel_raise :: "'a::{numeral}" where
  "fb_cancel_raise \<equiv> 3"

abbreviation (input) DSQL_close :: "'a::{numeral}" where
  "DSQL_close \<equiv> 1"

abbreviation (input) DSQL_drop :: "'a::{numeral}" where
  "DSQL_drop \<equiv> 2"

abbreviation (input) SQL_TYPE_TEXT :: "'a::{numeral}" where
  "SQL_TYPE_TEXT \<equiv> 452"

abbreviation (input) SQL_TYPE_VARYING :: "'a::{numeral}" where
  "SQL_TYPE_VARYING \<equiv> 448"

abbreviation (input) SQL_TYPE_SHORT :: "'a::{numeral}" where
  "SQL_TYPE_SHORT \<equiv> 500"

abbreviation (input) SQL_TYPE_LONG :: "'a::{numeral}" where
  "SQL_TYPE_LONG \<equiv> 496"

abbreviation (input) SQL_TYPE_FLOAT :: "'a::{numeral}" where
  "SQL_TYPE_FLOAT \<equiv> 482"

abbreviation (input) SQL_TYPE_DOUBLE :: "'a::{numeral}" where
  "SQL_TYPE_DOUBLE \<equiv> 480"

abbreviation (input) SQL_TYPE_D_FLOAT :: "'a::{numeral}" where
  "SQL_TYPE_D_FLOAT \<equiv> 530"

abbreviation (input) SQL_TYPE_TIMESTAMP :: "'a::{numeral}" where
  "SQL_TYPE_TIMESTAMP \<equiv> 510"

abbreviation (input) SQL_TYPE_BLOB :: "'a::{numeral}" where
  "SQL_TYPE_BLOB \<equiv> 520"

abbreviation (input) SQL_TYPE_ARRAY :: "'a::{numeral}" where
  "SQL_TYPE_ARRAY \<equiv> 540"

abbreviation (input) SQL_TYPE_QUAD :: "'a::{numeral}" where
  "SQL_TYPE_QUAD \<equiv> 550"

abbreviation (input) SQL_TYPE_TIME :: "'a::{numeral}" where
  "SQL_TYPE_TIME \<equiv> 560"

abbreviation (input) SQL_TYPE_DATE :: "'a::{numeral}" where
  "SQL_TYPE_DATE \<equiv> 570"

abbreviation (input) SQL_TYPE_INT64 :: "'a::{numeral}" where
  "SQL_TYPE_INT64 \<equiv> 580"

abbreviation (input) SQL_TYPE_INT128 :: "'a::{numeral}" where
  "SQL_TYPE_INT128 \<equiv> 32752"

abbreviation (input) SQL_TYPE_TIMESTAMP_TZ :: "'a::{numeral}" where
  "SQL_TYPE_TIMESTAMP_TZ \<equiv> 32754"

abbreviation (input) SQL_TYPE_TIME_TZ :: "'a::{numeral}" where
  "SQL_TYPE_TIME_TZ \<equiv> 32756"

abbreviation (input) SQL_TYPE_DEC_FIXED :: "'a::{numeral}" where
  "SQL_TYPE_DEC_FIXED \<equiv> 32758"

abbreviation (input) SQL_TYPE_DEC64 :: "'a::{numeral}" where
  "SQL_TYPE_DEC64 \<equiv> 32760"

abbreviation (input) SQL_TYPE_DEC128 :: "'a::{numeral}" where
  "SQL_TYPE_DEC128 \<equiv> 32762"

abbreviation (input) SQL_TYPE_BOOLEAN :: "'a::{numeral}" where
  "SQL_TYPE_BOOLEAN \<equiv> 32764"

abbreviation (input) SQL_TYPE_NULL :: "'a::{numeral}" where
  "SQL_TYPE_NULL \<equiv> 32766"

end
