(* ===== verification/Go_Strings.thy ===== *)
theory Go_Strings
  imports Go_Prelude "HOL-Library.Sublist"
begin

text \<open>
  The parts of Go's \<open>strings\<close>, \<open>strconv\<close> and \<open>encoding/hex\<close> packages that the driver calls.
  Strings are byte sequences. Case mapping and trimming are those of ASCII text: a letter
  outside ASCII is left alone and only the six ASCII white space characters are trimmed.
\<close>

definition digit_char :: "nat \<Rightarrow> char" where
  "digit_char d = char_of (48 + d)"

fun nat_itoa :: "nat \<Rightarrow> string" where
  "nat_itoa n = (if n < 10 then [digit_char n] else nat_itoa (n div 10) @ [digit_char (n mod 10)])"

declare nat_itoa.simps [simp del]

text \<open>\<open>strconv.Itoa\<close> and \<open>big.Int.String\<close>\<close>

definition itoa :: "int \<Rightarrow> string" where
  "itoa n = (if n < 0 then CHR ''-'' # nat_itoa (nat (- n)) else nat_itoa (nat n))"

definition is_digit :: "char \<Rightarrow> bool" where
  "is_digit c \<longleftrightarrow> 48 \<le> (of_char c :: nat) \<and> (of_char c :: nat) \<le> 57"

definition digit_val :: "char \<Rightarrow> nat" where
  "digit_val c = of_char c - 48"

text \<open>Reading decimal digits: \<open>strconv.ParseUint\<close> without its range check.\<close>

definition parse_nat :: "string \<Rightarrow> nat option" where
  "parse_nat s = (if s \<noteq> [] \<and> list_all is_digit s
     then Some (foldl (\<lambda>n c. 10 * n + digit_val c) 0 s) else None)"

text \<open>\<open>strconv.Atoi\<close> on 64-bit integers: an optional sign, digits, and the value in range.\<close>

definition atoi :: "string \<Rightarrow> int option" where
  "atoi s =
     (let (neg, ds) = (case s of c # cs \<Rightarrow>
            (if c = CHR ''-'' then (True, cs) else if c = CHR ''+'' then (False, cs) else (False, s))
          | [] \<Rightarrow> (False, s))
      in case parse_nat ds of None \<Rightarrow> None
         | Some n \<Rightarrow> (let v = (if neg then - int n else int n) in
             if - (2 ^ 63) \<le> v \<and> v < 2 ^ 63 then Some v else None))"

definition to_upper_char :: "char \<Rightarrow> char" where
  "to_upper_char c = (if 97 \<le> (of_char c :: nat) \<and> (of_char c :: nat) \<le> 122 then char_of (of_char c - 32 :: nat) else c)"

definition to_lower_char :: "char \<Rightarrow> char" where
  "to_lower_char c = (if 65 \<le> (of_char c :: nat) \<and> (of_char c :: nat) \<le> 90 then char_of (of_char c + 32 :: nat) else c)"

definition ToUpper :: "string \<Rightarrow> string" where
  "ToUpper = map to_upper_char"

definition ToLower :: "string \<Rightarrow> string" where
  "ToLower = map to_lower_char"

definition is_space :: "char \<Rightarrow> bool" where
  "is_space c \<longleftrightarrow> (of_char c :: nat) \<in> {9, 10, 11, 12, 13, 32}"

definition TrimSpace :: "string \<Rightarrow> string" where
  "TrimSpace s = rev (dropWhile is_space (rev (dropWhile is_space s)))"

text \<open>\<open>strings.TrimRight(s, " ")\<close>\<close>

definition trim_right_blank :: "string \<Rightarrow> string" where
  "trim_right_blank s = rev (dropWhile (\<lambda>c. c = CHR '' '') (rev s))"

text \<open>\<open>strings.Split(s, sep)\<close> for a one-character separator.\<close>

fun split_char :: "char \<Rightarrow> string \<Rightarrow> string list" where
  "split_char sep [] = [[]]"
| "split_char sep (c # cs) =
     (if c = sep then [] # split_char sep cs
      else (case split_char sep cs of p # ps \<Rightarrow> (c # p) # ps | [] \<Rightarrow> [[c]]))"

definition has_prefix :: "'a list \<Rightarrow> 'a list \<Rightarrow> bool" where
  "has_prefix pre s \<longleftrightarrow> take (length pre) s = pre"

definition has_suffix :: "'a list \<Rightarrow> 'a list \<Rightarrow> bool" where
  "has_suffix suf s \<longleftrightarrow> has_prefix (rev suf) (rev s)"

text \<open>\<open>strings.Replace(s, old, new, 1)\<close>, for a non-empty \<open>old\<close>.\<close>

fun replace_first :: "string \<Rightarrow> string \<Rightarrow> string \<Rightarrow> string" where
  "replace_first old new [] = []"
| "replace_first old new (c # cs) =
     (if has_prefix old (c # cs) then new @ drop (length old) (c # cs)
      else c # replace_first old new cs)"

text \<open>\<open>strings.Join\<close>\<close>

fun join_with :: "string \<Rightarrow> string list \<Rightarrow> string" where
  "join_with sep [] = []"
| "join_with sep [s] = s"
| "join_with sep (s # t # ss) = s @ sep @ join_with sep (t # ss)"

definition str_contains :: "string \<Rightarrow> string \<Rightarrow> bool" where
  "str_contains s sub \<longleftrightarrow> (\<exists>i \<in> {0..length s}. has_prefix sub (drop i s))"

text \<open>\<open>hex.EncodeToString\<close>\<close>

definition hex_digit :: "nat \<Rightarrow> char" where
  "hex_digit d = (if d < 10 then char_of (48 + d) else char_of (87 + d))"

definition hex_encode :: "bytes \<Rightarrow> string" where
  "hex_encode bs = concat (map (\<lambda>b. [hex_digit (unat b div 16), hex_digit (unat b mod 16)]) bs)"

lemma length_hex_encode: "length (hex_encode bs) = 2 * length bs"
  by (induction bs) (simp_all add: hex_encode_def)

subsection \<open>Decimal numerals\<close>

lemma of_char_digit [simp]: "d < 10 \<Longrightarrow> of_char (digit_char d) = (48 + d :: nat)"
  by (simp add: digit_char_def)

lemma digit_val_char [simp]: "d < 10 \<Longrightarrow> digit_val (digit_char d) = d"
  by (simp add: digit_val_def)

lemma is_digit_char [simp]: "d < 10 \<Longrightarrow> is_digit (digit_char d)"
  by (simp add: is_digit_def)

lemma nat_itoa_nonempty [simp]: "nat_itoa n \<noteq> []"
  by (subst nat_itoa.simps) simp

lemma parse_nat_itoa [simp]: "parse_nat (nat_itoa n) = Some n"
proof (induction n rule: nat_itoa.induct)
  case (1 n)
  show ?case
  proof (cases "n < 10")
    case True
    then show ?thesis by (subst nat_itoa.simps) (simp add: parse_nat_def)
  next
    case False
    then have IH: "parse_nat (nat_itoa (n div 10)) = Some (n div 10)" using 1 by simp
    have "nat_itoa n = nat_itoa (n div 10) @ [digit_char (n mod 10)]"
      using False by (subst nat_itoa.simps) simp
    then show ?thesis using IH by (auto simp: parse_nat_def split: if_splits)
  qed
qed

lemma nat_itoa_digits: "list_all is_digit (nat_itoa n)"
  using parse_nat_itoa [of n] unfolding parse_nat_def by (metis option.distinct(1))

lemma nat_itoa_inj: "nat_itoa m = nat_itoa n \<longleftrightarrow> m = n"
  by (metis option.inject parse_nat_itoa)

lemma length_nat_itoa: "0 < n \<Longrightarrow> 10 ^ (length (nat_itoa n) - 1) \<le> n \<and> n < 10 ^ length (nat_itoa n)"
proof (induction n rule: nat_itoa.induct)
  case (1 n)
  show ?case
  proof (cases "n < 10")
    case True
    then show ?thesis using 1(2) by (subst (1 2) nat_itoa.simps) simp
  next
    case False
    define k where "k = length (nat_itoa (n div 10))"
    have len: "length (nat_itoa n) = Suc k" using False by (subst nat_itoa.simps) (simp add: k_def)
    have k: "0 < k" by (simp add: k_def)
    have "10 ^ (k - 1) \<le> n div 10" "n div 10 < 10 ^ k" using 1(1) False by (simp_all add: k_def)
    moreover have "10 ^ k = 10 * (10 :: nat) ^ (k - 1)" using k by (cases k) simp_all
    ultimately show ?thesis unfolding len by (simp add: div_less_iff_less_mult less_eq_div_iff_mult_less_eq)
  qed
qed

lemma atoi_itoa: "- (2 ^ 63) \<le> n \<Longrightarrow> n < 2 ^ 63 \<Longrightarrow> atoi (itoa n) = Some n"
proof -
  assume r: "- (2 ^ 63) \<le> n" "n < 2 ^ 63"
  obtain c cs where c: "nat_itoa (nat n) = c # cs" by (cases "nat_itoa (nat n)") auto
  have "is_digit c" using nat_itoa_digits [of "nat n"] by (simp add: c)
  then have "c \<noteq> CHR ''-''" "c \<noteq> CHR ''+''" by (auto simp: is_digit_def)
  moreover have "parse_nat (c # cs) = Some (nat n)" using parse_nat_itoa [of "nat n"] by (simp add: c)
  ultimately show ?thesis using r by (auto simp: atoi_def itoa_def c Let_def)
qed

subsection \<open>Splitting\<close>

lemma split_char_nonempty [simp]: "split_char sep s \<noteq> []"
  by (induction s) (auto split: list.splits)

lemma join_split: "join_with [sep] (split_char sep s) = s"
proof (induction s)
  case (Cons c s)
  obtain p ps where "split_char sep s = p # ps" by (cases "split_char sep s") auto
  then show ?case using Cons by (cases ps) auto
qed simp

end
