(* ===== verification/Blob_Cache.thy ===== *)
theory Blob_Cache
  imports Wire_Codec "HOL-Library.AList"
begin

text \<open>
  Inline blobs (\<open>inline_blob.go\<close>): the per-transaction cache of blobs the server sent along
  with rows, its size accounting, and the in-place decoder of a segmented blob buffer.

  A Go map is an association list with distinct keys (an invariant below). A
  \<open>*inlineBlobCache\<close> that may be nil is an \<open>option\<close>. The mutex makes each operation atomic,
  so an interleaving of goroutines is a sequence of operations.
\<close>

subsection \<open>The cache\<close>

type_synonym blob_map = "(int64 \<times> bytes) list"

record blob_cache =
  maxSize :: int
  bsize :: int
  byTx :: "(int32 \<times> blob_map) list"

definition newInlineBlobCache :: "int \<Rightarrow> blob_cache" where
  "newInlineBlobCache maxSz =
     (let cacheSize = (if maxSz \<le> 0 then -1 else maxSz)
      in \<lparr> maxSize = cacheSize, bsize = 0, byTx = [] \<rparr>)"

definition blob_add :: "int32 \<Rightarrow> int64 \<Rightarrow> bytes \<Rightarrow> blob_cache option \<Rightarrow> bool \<times> blob_cache option" where
  "blob_add txHandle blobId data oc =
     (case oc of None \<Rightarrow> (False, None)
      | Some c \<Rightarrow>
          if maxSize c \<le> 0 then (False, Some c)
          else let dataLen = int (length data) in
            if bsize c + dataLen > maxSize c then (False, Some c)
            else let (byBlob, tx) = (case map_of (byTx c) txHandle of
                         None \<Rightarrow> ([], AList.update txHandle [] (byTx c))
                       | Some m \<Rightarrow> (m, byTx c)) in
              if map_of byBlob blobId \<noteq> None then (False, Some (c\<lparr>byTx := tx\<rparr>))
              else (True, Some (c\<lparr>byTx := AList.update txHandle (AList.update blobId data byBlob) tx,
                                  bsize := bsize c + dataLen\<rparr>)))"

definition getAndRemove :: "int32 \<Rightarrow> int64 \<Rightarrow> blob_cache option \<Rightarrow> bytes option \<times> blob_cache option" where
  "getAndRemove txHandle blobId oc =
     (case oc of None \<Rightarrow> (None, None)
      | Some c \<Rightarrow>
          if maxSize c \<le> 0 then (None, Some c)
          else (case map_of (byTx c) txHandle of None \<Rightarrow> (None, Some c)
          | Some byBlob \<Rightarrow>
              (case map_of byBlob blobId of None \<Rightarrow> (None, Some c)
               | Some data \<Rightarrow>
                   let byBlob' = AList.delete blobId byBlob;
                       sz = bsize c - int (length data);
                       sz = (if sz < 0 then 0 else sz)
                   in (Some data, Some (c\<lparr>bsize := sz,
                        byTx := (if byBlob' = [] then AList.delete txHandle (byTx c)
                                 else AList.update txHandle byBlob' (byTx c))\<rparr>)))))"

definition map_bytes :: "blob_map \<Rightarrow> int" where
  "map_bytes m = (\<Sum>(k, data) \<leftarrow> m. int (length data))"

definition clearTx :: "int32 \<Rightarrow> blob_cache option \<Rightarrow> blob_cache option" where
  "clearTx txHandle oc =
     (case oc of None \<Rightarrow> None
      | Some c \<Rightarrow>
          (case map_of (byTx c) txHandle of None \<Rightarrow> Some c
           | Some byBlob \<Rightarrow>
               let removed = map_bytes byBlob;
                   sz = bsize c - removed;
                   sz = (if sz < 0 then 0 else sz)
               in Some (c\<lparr>byTx := AList.delete txHandle (byTx c), bsize := sz\<rparr>)))"

definition clearAll :: "blob_cache option \<Rightarrow> blob_cache option" where
  "clearAll oc = map_option (\<lambda>c. c\<lparr>byTx := [], bsize := 0\<rparr>) oc"

subsection \<open>The invariant\<close>

definition total_bytes :: "(int32 \<times> blob_map) list \<Rightarrow> int" where
  "total_bytes tx = (\<Sum>(t, m) \<leftarrow> tx. map_bytes m)"

definition cache_ok :: "blob_cache \<Rightarrow> bool" where
  "cache_ok c \<longleftrightarrow> distinct (map fst (byTx c)) \<and>
     (\<forall>(t, m) \<in> set (byTx c). distinct (map fst m) \<and> m \<noteq> []) \<and>
     bsize c = total_bytes (byTx c) \<and>
     (if maxSize c \<le> 0 then byTx c = [] else bsize c \<le> maxSize c)"

definition cache_get :: "blob_cache option \<Rightarrow> int32 \<times> int64 \<Rightarrow> bytes option" where
  "cache_get oc = (\<lambda>(t, i). case oc of None \<Rightarrow> None
     | Some c \<Rightarrow> (case map_of (byTx c) t of None \<Rightarrow> None | Some m \<Rightarrow> map_of m i))"

lemma set_update_subset: "set (AList.update k v al) \<subseteq> insert (k, v) (set al)"
  by (induction al) auto

lemma set_delete_subset: "set (AList.delete k al) \<subseteq> set al"
  by (auto simp: AList.delete_eq)

lemma map_bytes_nonneg: "0 \<le> map_bytes m"
  unfolding map_bytes_def by (induction m) auto

lemma total_bytes_nonneg: "0 \<le> total_bytes m"
  unfolding total_bytes_def by (induction m) (auto simp: map_bytes_nonneg add_nonneg_nonneg)

lemma sum_update:
  fixes f :: "'b \<Rightarrow> int"
  assumes "distinct (map fst al)"
  shows "(\<Sum>(k, v) \<leftarrow> AList.update k v al. f v) =
    (\<Sum>(k, v) \<leftarrow> al. f v) + f v - (case map_of al k of None \<Rightarrow> 0 | Some w \<Rightarrow> f w)"
  using assms by (induction al) (auto split: option.splits simp: weak_map_of_SomeI dest: map_of_SomeD)

lemma sum_delete:
  fixes f :: "'b \<Rightarrow> int"
  assumes "distinct (map fst al)"
  shows "(\<Sum>(k, v) \<leftarrow> AList.delete k al. f v) =
    (\<Sum>(k, v) \<leftarrow> al. f v) - (case map_of al k of None \<Rightarrow> 0 | Some w \<Rightarrow> f w)"
  using assms
proof (induction al)
  case (Cons a al)
  show ?case
  proof (cases "fst a = k")
    case True
    then have "map_of al k = None" using Cons.prems by (auto simp: map_of_eq_None_iff)
    then have "AList.delete k al = al"
      by (force simp: AList.delete_eq map_of_eq_None_iff filter_id_conv)
    then show ?thesis using True by (cases a) simp
  next
    case False
    then show ?thesis using Cons by (cases a) (simp split: option.splits)
  qed
qed simp

lemma map_bytes_update:
  "distinct (map fst m) \<Longrightarrow> map_bytes (AList.update i d m) =
     map_bytes m + int (length d) - (case map_of m i of None \<Rightarrow> 0 | Some e \<Rightarrow> int (length e))"
  unfolding map_bytes_def using sum_update [of m "\<lambda>d. int (length d)" i d] by simp

lemma map_bytes_delete:
  "distinct (map fst m) \<Longrightarrow> map_bytes (AList.delete i m) =
     map_bytes m - (case map_of m i of None \<Rightarrow> 0 | Some e \<Rightarrow> int (length e))"
  unfolding map_bytes_def using sum_delete [of m "\<lambda>d. int (length d)" i] by simp

lemma total_bytes_update:
  "distinct (map fst tx) \<Longrightarrow> total_bytes (AList.update t m tx) =
     total_bytes tx + map_bytes m - (case map_of tx t of None \<Rightarrow> 0 | Some e \<Rightarrow> map_bytes e)"
  unfolding total_bytes_def using sum_update [of tx map_bytes t m] by simp

lemma total_bytes_delete:
  "distinct (map fst tx) \<Longrightarrow> total_bytes (AList.delete t tx) =
     total_bytes tx - (case map_of tx t of None \<Rightarrow> 0 | Some e \<Rightarrow> map_bytes e)"
  unfolding total_bytes_def using sum_delete [of tx map_bytes t] by simp

lemma map_bytes_Nil [simp]: "map_bytes [] = 0" by (simp add: map_bytes_def)
lemma total_bytes_Nil [simp]: "total_bytes [] = 0" by (simp add: total_bytes_def)

datatype cache_op = CAdd int32 int64 bytes | CGet int32 int64 | CClearTx int32 | CClearAll

primrec cache_step :: "cache_op \<Rightarrow> blob_cache option \<Rightarrow> blob_cache option" where
  "cache_step (CAdd t i d) c = snd (blob_add t i d c)"
| "cache_step (CGet t i) c = snd (getAndRemove t i c)"
| "cache_step (CClearTx t) c = clearTx t c"
| "cache_step CClearAll c = clearAll c"

definition opt_ok :: "blob_cache option \<Rightarrow> bool" where
  "opt_ok oc \<longleftrightarrow> (case oc of None \<Rightarrow> True | Some c \<Rightarrow> cache_ok c)"

lemma blob_add_ok:
  assumes "cache_ok c"
  shows "opt_ok (snd (blob_add t i d (Some c)))"
proof -
  have dist: "distinct (map fst (byTx c))" using assms by (simp add: cache_ok_def)
  show ?thesis
  proof (cases "map_of (byTx c) t")
    case None
    have "distinct (map fst (AList.update t [] (byTx c)))" by (rule distinct_update [OF dist])
    moreover have "map_of (AList.update t [] (byTx c)) t = Some []" by (simp add: update_conv)
    moreover have "set (AList.update t [(i, d)] (AList.update t [] (byTx c))) \<subseteq> {(t, [(i, d)])} \<union> set (byTx c)"
      unfolding update_last using set_update_subset [of t "[(i, d)]" "byTx c"] by simp
    ultimately show ?thesis
      using assms None
      by (auto simp: blob_add_def opt_ok_def cache_ok_def Let_def distinct_update
          total_bytes_update update_conv map_bytes_def split: if_splits)
  next
    case (Some m)
    then have m: "distinct (map fst m)" "m \<noteq> []"
      using assms map_of_SomeD [of "byTx c" t m] by (auto simp: cache_ok_def)
    define m' where "m' = AList.update i d m"
    have m': "distinct (map fst m')" "m' \<noteq> []"
      using m by (auto simp: m'_def distinct_update)
    have ent: "\<forall>(u, e) \<in> set (AList.update t m' (byTx c)). distinct (map fst e) \<and> e \<noteq> []"
      using set_update_subset [of t m' "byTx c"] assms m' by (auto simp: cache_ok_def)
    have tot: "map_of m i = None \<Longrightarrow> total_bytes (AList.update t m' (byTx c)) = total_bytes (byTx c) + int (length d)"
      using dist Some by (simp add: total_bytes_update m'_def map_bytes_update [OF m(1)])
    have "map_of m i = None \<Longrightarrow> 0 < maxSize c \<Longrightarrow> bsize c + int (length d) \<le> maxSize c \<Longrightarrow>
        cache_ok (c\<lparr>byTx := AList.update t m' (byTx c), bsize := bsize c + int (length d)\<rparr>)"
      using assms tot ent dist by (simp add: cache_ok_def distinct_update)
    then show ?thesis
      using assms Some by (simp add: blob_add_def opt_ok_def Let_def m'_def)
  qed
qed

lemma getAndRemove_ok:
  assumes "cache_ok c"
  shows "opt_ok (snd (getAndRemove t i (Some c)))"
proof (cases "maxSize c \<le> 0 \<or> map_of (byTx c) t = None \<or> map_of (the (map_of (byTx c) t)) i = None")
  case True
  then show ?thesis using assms by (auto simp: getAndRemove_def opt_ok_def split: option.splits)
next
  case False
  then obtain m d where m: "map_of (byTx c) t = Some m" "map_of m i = Some d" and mx: "0 < maxSize c"
    by auto
  have dist: "distinct (map fst (byTx c))" "distinct (map fst m)"
    using assms map_of_SomeD [OF m(1)] by (auto simp: cache_ok_def)
  define m' where "m' = AList.delete i m"
  have m': "map_bytes m' = map_bytes m - int (length d)"
    unfolding m'_def using map_bytes_delete [OF dist(2), of i] m(2) by simp
  define tx' where "tx' = (if m' = [] then AList.delete t (byTx c) else AList.update t m' (byTx c))"
  have tot: "total_bytes tx' = total_bytes (byTx c) - int (length d)"
    using m m' dist by (auto simp: tx'_def total_bytes_delete total_bytes_update)
  have "distinct (map fst m')" by (simp add: m'_def distinct_delete [OF dist(2)])
  moreover have "set tx' \<subseteq> set (byTx c) \<union> (if m' = [] then {} else {(t, m')})"
    using set_update_subset [of t m' "byTx c"] set_delete_subset [of t "byTx c"]
    by (auto simp: tx'_def)
  moreover have "distinct (map fst tx')"
    using dist(1) by (auto simp: tx'_def distinct_delete distinct_update)
  ultimately have "cache_ok (c\<lparr>bsize := total_bytes tx', byTx := tx'\<rparr>)"
    using assms mx tot by (auto simp: cache_ok_def split: if_splits)
  moreover have "snd (getAndRemove t i (Some c)) = Some (c\<lparr>bsize := total_bytes tx', byTx := tx'\<rparr>)"
    using m mx total_bytes_nonneg [of tx'] tot assms
    by (simp add: getAndRemove_def tx'_def m'_def [symmetric] Let_def cache_ok_def)
  ultimately show ?thesis by (simp add: opt_ok_def)
qed

lemma clearTx_ok:
  assumes "cache_ok c"
  shows "opt_ok (clearTx t (Some c))"
proof (cases "map_of (byTx c) t")
  case None
  then show ?thesis using assms by (simp add: clearTx_def opt_ok_def)
next
  case (Some m)
  have dist: "distinct (map fst (byTx c))" using assms by (simp add: cache_ok_def)
  have "total_bytes (AList.delete t (byTx c)) = bsize c - map_bytes m"
    using Some dist assms by (simp add: total_bytes_delete cache_ok_def)
  then show ?thesis
    using Some assms total_bytes_nonneg [of "AList.delete t (byTx c)"] map_bytes_nonneg [of m]
    by (auto simp: clearTx_def opt_ok_def cache_ok_def Let_def distinct_delete
        dest: set_delete_subset [THEN subsetD])
qed

interpretation cache: machine cache_step opt_ok
proof
  fix oc x assume ok: "opt_ok oc"
  show "opt_ok (cache_step x oc)"
  proof (cases oc)
    case None
    then show ?thesis
      by (cases x) (simp_all add: opt_ok_def blob_add_def getAndRemove_def clearTx_def clearAll_def)
  next
    case (Some c)
    then have "cache_ok c" using ok by (simp add: opt_ok_def)
    then show ?thesis
      using blob_add_ok getAndRemove_ok clearTx_ok unfolding Some
      by (cases x) (auto simp: opt_ok_def clearAll_def cache_ok_def)
  qed
qed

lemma new_cache_ok: "opt_ok (Some (newInlineBlobCache n))"
  by (simp add: opt_ok_def cache_ok_def newInlineBlobCache_def)

subsection \<open>The cache as a partial map\<close>

lemma cache_get_add:
  assumes "opt_ok oc"
  shows "cache_get (snd (blob_add t i d oc)) =
    (if fst (blob_add t i d oc) then (cache_get oc)((t, i) \<mapsto> d) else cache_get oc)"
    and "fst (blob_add t i d oc) \<Longrightarrow> cache_get oc (t, i) = None"
proof -
  show "cache_get (snd (blob_add t i d oc)) =
    (if fst (blob_add t i d oc) then (cache_get oc)((t, i) \<mapsto> d) else cache_get oc)"
    by (auto simp: blob_add_def cache_get_def Let_def update_conv fun_eq_iff split: option.splits)
  show "fst (blob_add t i d oc) \<Longrightarrow> cache_get oc (t, i) = None"
    by (auto simp: blob_add_def cache_get_def Let_def split: option.splits if_splits)
qed

lemma cache_get_remove:
  assumes "opt_ok oc"
  shows "fst (getAndRemove t i oc) = cache_get oc (t, i)"
    and "cache_get (snd (getAndRemove t i oc)) = (cache_get oc)((t, i) := None)"
proof -
  show "fst (getAndRemove t i oc) = cache_get oc (t, i)"
    using assms
    by (auto simp: getAndRemove_def cache_get_def opt_ok_def cache_ok_def Let_def split: option.splits if_splits)
  show "cache_get (snd (getAndRemove t i oc)) = (cache_get oc)((t, i) := None)"
  proof (rule ext, clarify)
    fix t' i'
    have e: "AList.delete i m = [] \<Longrightarrow> i' \<noteq> i \<Longrightarrow> map_of m i' = None" for m :: blob_map
      using delete_conv' [of i m] by (metis fun_upd_apply map_of.simps(1))
    show "cache_get (snd (getAndRemove t i oc)) (t', i') = ((cache_get oc)((t, i) := None)) (t', i')"
      using assms e
      by (auto simp: getAndRemove_def cache_get_def opt_ok_def cache_ok_def Let_def update_conv'
          delete_conv' split: option.splits if_splits)
  qed
qed

lemma cache_get_clear:
  "cache_get (clearTx t oc) = (\<lambda>(u, i). if u = t then None else cache_get oc (u, i))"
  "cache_get (clearAll oc) = (\<lambda>_. None)"
  by (auto simp: clearTx_def clearAll_def cache_get_def Let_def delete_conv' fun_eq_iff split: option.splits)

subsection \<open>The segmented buffer, decoded in place\<close>

text \<open>
  \<open>copy(buf[outPos:], buf[pos:pos+segLen])\<close> writes over the front of the buffer that is still
  being read; \<open>buf_copy\<close> is that write. The loop is over the remaining bytes.
\<close>

definition buf_copy :: "bytes \<Rightarrow> nat \<Rightarrow> bytes \<Rightarrow> bytes" where
  "buf_copy buf k src = take k buf @ take (length buf - k) src @ drop (k + length src) buf"

function inline_loop :: "bytes \<Rightarrow> nat \<Rightarrow> nat \<Rightarrow> bytes res" where
  "inline_loop buf outPos pos =
     (if pos < length buf then
        if pos + 2 > length buf then Inl (Plain ''invalid inline blob segment buffer length'')
        else bind_res (bind_res (go_slice buf (int pos) (int pos + 2)) bytes_to_uint16) (\<lambda>segLen.
          let pos = pos + 2 in
          if pos + segLen > length buf then Inl (Plain ''invalid inline blob segment length %d at %d'')
          else if segLen = 0 then inline_loop buf outPos pos
          else inline_loop (buf_copy buf outPos (take segLen (drop pos buf))) (outPos + segLen) (pos + segLen))
      else go_slice buf 0 (int outPos))"
  by pat_completeness auto
termination
  by (relation "measure (\<lambda>(buf, outPos, pos). length buf - pos)") (auto simp: buf_copy_def)

declare inline_loop.simps [simp del]

definition decodeInlineSegmentBuffer :: "bytes \<Rightarrow> bytes res" where
  "decodeInlineSegmentBuffer buf = (if length buf = 0 then Inr [] else inline_loop buf 0 0)"

definition blobIdToInt64 :: "bytes \<Rightarrow> int64 res" where
  "blobIdToInt64 blobId =
     (if length blobId \<noteq> 8 then Inl (Plain ''firebirdsql: blob id length %d, want 8'')
      else bytes_to_bint64 blobId)"

text \<open>The reference: segments of a 16-bit little-endian length and that many bytes.\<close>

function segments_of :: "bytes \<Rightarrow> bytes list option" where
  "segments_of [] = Some []"
| "segments_of [b] = None"
| "segments_of (b0 # b1 # rest) =
     (let n = le_val [b0, b1] in
      if n > length rest then None
      else map_option (Cons (take n rest)) (segments_of (drop n rest)))"
  by pat_completeness auto
termination by (relation "measure length") auto

lemma segments_of_step:
  assumes "2 \<le> length buf"
  shows "segments_of buf =
    (let n = le_val (take 2 buf); rest = drop 2 buf in
     if n > length rest then None else map_option (Cons (take n rest)) (segments_of (drop n rest)))"
  using assms by (cases buf rule: segments_of.cases) (simp_all add: Let_def numeral_2_eq_2)

lemma segments_of_short: "0 < length buf \<Longrightarrow> length buf < 2 \<Longrightarrow> segments_of buf = None"
  by (cases buf rule: segments_of.cases) simp_all

lemma buf_copy_facts:
  assumes "k + length src \<le> length buf"
  shows "length (buf_copy buf k src) = length buf"
    and "k + length src \<le> n \<Longrightarrow> drop n (buf_copy buf k src) = drop n buf"
    and "take (k + length src) (buf_copy buf k src) = take k buf @ src"
  using assms by (simp_all add: buf_copy_def)

lemma inline_loop_eq:
  assumes "out \<le> pos" "pos \<le> length buf"
  shows "(\<forall>segs. segments_of (drop pos buf) = Some segs \<longrightarrow> inline_loop buf out pos = Inr (take out buf @ concat segs)) \<and>
    (segments_of (drop pos buf) = None \<longrightarrow> (\<exists>m. inline_loop buf out pos = Inl (Plain m)))"
  using assms
proof (induction buf out pos rule: inline_loop.induct)
  case (1 buf out pos)
  show ?case
  proof (cases "pos + 2 \<le> length buf")
    case False
    then show ?thesis
      using 1(3,4) segments_of_short [of "drop pos buf"]
      by (cases "pos = length buf") (subst inline_loop.simps; simp)+
  next
    case True
    define n where "n = le_val (take 2 (drop pos buf))"
    have rd: "bind_res (go_slice buf (int pos) (int pos + 2)) bytes_to_uint16 = Inr n"
      using True by (simp add: bytes_to_uint16_def le_uint_long n_def nat_add_distrib)
    have step: "segments_of (drop pos buf) =
      (if pos + 2 + n > length buf then None
       else map_option (Cons (take n (drop (pos + 2) buf))) (segments_of (drop (pos + 2 + n) buf)))"
      using True segments_of_step [of "drop pos buf"]
      by (simp add: n_def [symmetric] Let_def algebra_simps less_diff_conv2 not_less)
    have eq: "inline_loop buf out pos =
       (if pos + 2 + n > length buf then Inl (Plain ''invalid inline blob segment length %d at %d'')
        else if n = 0 then inline_loop buf out (pos + 2)
        else inline_loop (buf_copy buf out (take n (drop (pos + 2) buf))) (out + n) (pos + 2 + n))"
      using True rd by (simp add: inline_loop.simps [of buf out pos] Let_def)
    consider (long) "pos + 2 + n > length buf" | (zero) "n = 0" | (seg) "pos + 2 + n \<le> length buf" "n \<noteq> 0"
      by linarith
    then show ?thesis
    proof cases
      case long
      then show ?thesis by (simp add: eq step)
    next
      case zero
      note IH = 1(1) [OF _ _ refl _ zero]
      show ?thesis using IH True zero 1(3) by (auto simp: eq step)
    next
      case seg
      define src where "src = take n (drop (pos + 2) buf)"
      have len: "length src = n" using seg by (simp add: src_def)
      note bc = buf_copy_facts [of out src buf]
      have "\<not> pos + 2 + n > length buf" using seg by simp
      note IH = 1(2) [OF _ _ refl this seg(2), folded src_def]
      have "out + n \<le> pos + 2 + n" "pos + 2 + n \<le> length (buf_copy buf out src)"
        using 1(3) seg bc(1) len by simp_all
      note IH = IH [OF _ _ this]
      have "drop (pos + 2 + n) (buf_copy buf out src) = drop (pos + 2 + n) buf"
        using bc(2) [of "pos + 2 + n"] len seg 1(3) by simp
      moreover have "take (out + n) (buf_copy buf out src) = take out buf @ src"
        using bc(3) len seg 1(3) by simp
      ultimately show ?thesis
        using IH True seg unfolding eq [folded src_def] step [folded src_def] by auto
    qed
  qed
qed

subsection \<open>Properties\<close>

text \<open>C4: The inline blob cache never holds more than its limit: after any sequence of operations
  of any goroutines, its recorded size is the number of bytes it stores, which is at least 0 and
  at most the configured maximum, and a cache created with a limit of 0 or less stays empty.\<close>

theorem blob_cache_bounded:
  "\<exists>c. run_ops cache_step ops (Some (newInlineBlobCache n)) = Some c \<and>
     bsize c = total_bytes (byTx c) \<and> 0 \<le> bsize c \<and> bsize c \<le> max 0 n \<and>
     distinct (map fst (byTx c))"
proof -
  have ex: "\<exists>c'. run_ops cache_step ops (Some c) = Some c' \<and> maxSize c' = maxSize c" for c
  proof (induction ops arbitrary: c)
    case (Cons x ops)
    have "\<exists>c1. cache_step x (Some c) = Some c1 \<and> maxSize c1 = maxSize c"
      by (cases x) (auto simp: blob_add_def getAndRemove_def clearTx_def clearAll_def Let_def split: option.splits)
    then show ?case using Cons.IH by force
  qed simp
  then obtain c where c: "run_ops cache_step ops (Some (newInlineBlobCache n)) = Some c"
    and mx: "maxSize c = maxSize (newInlineBlobCache n)" by blast
  have "cache_ok c" using cache.run_inv [OF new_cache_ok, of ops n] by (simp add: c opt_ok_def)
  then show ?thesis
    using c mx total_bytes_nonneg [of "byTx c"]
    by (auto simp: cache_ok_def newInlineBlobCache_def split: if_splits)
qed

text \<open>C5: Seen from outside, the cache is a partial map from (transaction, blob id) to data: a
  successful add binds a free key and a refused one changes nothing, getAndRemove returns the
  binding and removes it, and clearing forgets one transaction's blobs or all of them.\<close>

theorem blob_cache_refines_map:
  assumes "opt_ok oc"
  shows "cache_get (snd (blob_add t i d oc)) =
      (if fst (blob_add t i d oc) then (cache_get oc)((t, i) \<mapsto> d) else cache_get oc) \<and>
    (fst (blob_add t i d oc) \<longrightarrow> cache_get oc (t, i) = None) \<and>
    fst (getAndRemove t i oc) = cache_get oc (t, i) \<and>
    cache_get (snd (getAndRemove t i oc)) = (cache_get oc)((t, i) := None) \<and>
    cache_get (clearTx t oc) = (\<lambda>(u, j). if u = t then None else cache_get oc (u, j)) \<and>
    cache_get (clearAll oc) = (\<lambda>_. None)"
  using cache_get_add [OF assms] cache_get_remove [OF assms] cache_get_clear by blast

theorem blob_cache_refines_map_witness:
  "fst (getAndRemove 7 9 (snd (blob_add 7 9 [1, 2, 3] (Some (newInlineBlobCache 100))))) = Some [1, 2, 3]"
proof -
  define c where "c = snd (blob_add 7 9 [1, 2, 3] (Some (newInlineBlobCache 100)))"
  have "opt_ok c" using cache.step_inv [OF new_cache_ok, of "CAdd 7 9 [1, 2, 3]"] by (simp add: c_def)
  then have "fst (getAndRemove 7 9 c) = cache_get c (7, 9)" using blob_cache_refines_map by blast
  moreover have "cache_get c (7, 9) = Some [1, 2, 3]" unfolding c_def by code_simp
  ultimately show ?thesis by (simp add: c_def)
qed

text \<open>The decoder that compacts segments inside the very buffer it is reading returns exactly
  the concatenation of the segments, and an error for a truncated buffer; it never panics.\<close>

theorem inline_decode_correct:
  "(case segments_of buf of
      Some segs \<Rightarrow> decodeInlineSegmentBuffer buf = Inr (concat segs)
    | None \<Rightarrow> \<exists>m. decodeInlineSegmentBuffer buf = Inl (Plain m))"
  using inline_loop_eq [of 0 0 buf]
  by (cases "buf = []") (auto simp: decodeInlineSegmentBuffer_def split: option.splits)

end
