(* ===== verification/Wire_Protocol.thy ===== *)
theory Wire_Protocol
  imports Consts Calendar Go_Strings Blob_Cache Wire_Channel
begin

text \<open>
  The connection state and its packets (\<open>wireprotocol.go\<close>, \<open>inline_blob.go\<close>): packing, sending,
  receiving, the status vector and the generic response.

  \<open>wire_protocol\<close> is the struct of the code with a \<open>p_\<close> before its fields. The socket is
  four fields: \<open>p_inbound\<close> are the bytes the server will still deliver before the connection
  ends (so a statement for every \<open>p_inbound\<close> is a statement for every server),
  \<open>p_outbound\<close> the packets written so far, \<open>p_wr_ok\<close> whether the write of the \<open>n\<close>-th packet
  succeeds, and \<open>p_chan\<close> the cipher state. The packets are what the code hands to the channel
  and takes from it, before and after the channel's own transformation.
  \<open>p_env\<close> are the functions the code calls outside this library: the generated message and
  SQLSTATE tables, the character set encoders, \<open>crypt(3)\<close>, what \<open>zlib.NewReader\<close> says of the stream, and the facts of the host.

  An operation is \<open>wire_protocol \<Rightarrow> go_error + value * wire_protocol\<close>, so that what it leaves
  behind when it fails is part of the model.
\<close>

record go_env =
  errmsgs :: "int \<Rightarrow> string"
  gdsToSQLState :: "int \<Rightarrow> string"
  gdsToSQLCode :: "int \<Rightarrow> int"
  encodeCharset :: "string \<Rightarrow> string \<Rightarrow> string option"
  decodeCharset :: "bytes \<Rightarrow> string \<Rightarrow> string option"
  env_crypt :: "string \<Rightarrow> string \<Rightarrow> string"
  env_chacha :: chacha_cipher
  env_sha1 :: "bytes \<Rightarrow> bytes"
  env_sha256 :: "bytes \<Rightarrow> bytes"
  env_sysuser :: string
  env_hostname :: string
  env_executable :: "string option"
  env_pid :: int32
  env_uid :: int
  env_client_version :: string
  env_zlib :: "go_error option"

record wire_protocol =
  p_buf :: bytes
  p_inbound :: bytes
  p_outbound :: "bytes list"
  p_wr_ok :: "nat \<Rightarrow> bool"
  p_chan :: wire_channel
  p_env :: go_env
  p_dbHandle :: int32
  p_protocolVersion :: int
  p_acceptArchitecture :: int32
  p_acceptType :: int32
  p_lazyResponseCount :: int
  p_pluginName :: string
  p_user :: string
  p_password :: string
  p_authData :: "bytes option"
  p_charset :: string
  p_charsetByteLen :: int
  p_timezone :: string
  p_clientVersion :: string
  p_osUser :: string
  p_hostName :: string
  p_cursorFlags :: int32
  p_maxInlineBlobSize :: int32
  p_maxBlobCacheSize :: int32
  p_inlineBlobCache :: "blob_cache option"

type_synonym 'a wm = "wire_protocol \<Rightarrow> 'a res \<times> wire_protocol"

definition wret :: "'a \<Rightarrow> 'a wm" where
  "wret x p = (Inr x, p)"

definition werr :: "go_error \<Rightarrow> 'a wm" where
  "werr e p = (Inl e, p)"

definition wlift :: "'a res \<Rightarrow> 'a wm" where
  "wlift r p = (r, p)"

definition wbind :: "'a wm \<Rightarrow> ('a \<Rightarrow> 'b wm) \<Rightarrow> 'b wm" where
  "wbind m f p = (case m p of (Inl e, p') \<Rightarrow> (Inl e, p') | (Inr x, p') \<Rightarrow> f x p')"

text \<open>\<open>_, err = m\<close> with the error looked at by the caller, and \<open>m\<close> with its error dropped.\<close>

definition wtry :: "'a wm \<Rightarrow> 'a res wm" where
  "wtry m p = (case m p of
     (Inl e, p') \<Rightarrow> if is_panic e then (Inl e, p') else (Inr (Inl e), p')
   | (Inr x, p') \<Rightarrow> (Inr (Inr x), p'))"

definition wupd :: "(wire_protocol \<Rightarrow> wire_protocol) \<Rightarrow> unit wm" where
  "wupd f p = (Inr (), f p)"

lemma wbind_simps [simp]:
  "m p = (Inl e, p') \<Longrightarrow> wbind m f p = (Inl e, p')"
  "m p = (Inr x, p') \<Longrightarrow> wbind m f p = f x p'"
  by (simp_all add: wbind_def)

lemma wret_apply [simp]: "wret x p = (Inr x, p)" by (simp add: wret_def)
lemma werr_apply [simp]: "werr e p = (Inl e, p)" by (simp add: werr_def)
lemma wlift_apply [simp]: "wlift r p = (r, p)" by (simp add: wlift_def)
lemma wupd_apply [simp]: "wupd f p = (Inr (), f p)" by (simp add: wupd_def)

text \<open>\<open>maxWirePayload\<close>, \<open>BUFFER_LEN\<close>, ... of \<open>wireprotocol.go\<close>\<close>

abbreviation (input) BUFFER_LEN :: "'a::numeral" where "BUFFER_LEN \<equiv> 1024"
abbreviation (input) MAX_CHAR_LENGTH :: "'a::numeral" where "MAX_CHAR_LENGTH \<equiv> 32767"
abbreviation (input) BLOB_SEGMENT_SIZE :: "'a::numeral" where "BLOB_SEGMENT_SIZE \<equiv> 32000"
abbreviation (input) maxWirePayload :: "'a::numeral" where "maxWirePayload \<equiv> 16777216"
abbreviation (input) fetchRowBatchSize :: "'a::numeral" where "fetchRowBatchSize \<equiv> 400"

subsection \<open>Packing\<close>

definition appendBytes :: "bytes \<Rightarrow> wire_protocol \<Rightarrow> wire_protocol" where
  "appendBytes bs p = p\<lparr>p_buf := p_buf p @ bs\<rparr>"

definition packInt :: "int32 \<Rightarrow> wire_protocol \<Rightarrow> wire_protocol" where
  "packInt i p = p\<lparr>p_buf := p_buf p @ [ucast (signed_drop_bit 24 i AND 0xFF),
     ucast (signed_drop_bit 16 i AND 0xFF), ucast (signed_drop_bit 8 i AND 0xFF), ucast (i AND 0xFF)]\<rparr>"

definition packBytes :: "bytes \<Rightarrow> wire_protocol \<Rightarrow> wire_protocol" where
  "packBytes b p = p\<lparr>p_buf := p_buf p @ xdrBytes b\<rparr>"

definition encodeString :: "string \<Rightarrow> wire_protocol \<Rightarrow> string" where
  "encodeString s p = (case encodeCharset (p_env p) s (p_charset p) of Some v \<Rightarrow> v | None \<Rightarrow> s)"

definition packString :: "string \<Rightarrow> wire_protocol \<Rightarrow> wire_protocol" where
  "packString s p = p\<lparr>p_buf := p_buf p @ xdrBytes (str_to_bytes (encodeString s p))\<rparr>"

definition charsetLen :: "string \<Rightarrow> int" where
  "charsetLen cs =
     (if cs = ''UNICODE_FSS'' \<or> cs = ''UTF8'' then 4
      else if cs = ''BIG_5'' \<or> cs = ''SJIS_0208'' \<or> cs = ''KSC_5601'' \<or> cs = ''EUCJ_0208'' \<or>
              cs = ''GB_2312'' \<or> cs = ''KOI8R'' \<or> cs = ''KOI8U'' then 2
      else 1)"

subsection \<open>Sending and receiving\<close>

text \<open>The buffer is empty afterwards on either path; an empty buffer writes nothing.\<close>

definition sendPackets :: "unit wm" where
  "sendPackets p =
     (if p_buf p = [] then (Inr (), p)
      else if p_wr_ok p (length (p_outbound p))
      then (Inr (), p\<lparr>p_buf := [], p_outbound := p_outbound p @ [p_buf p]\<rparr>)
      else (Inl (BadConn ''driver: bad connection''), p\<lparr>p_buf := []\<rparr>))"

definition suspendBuffer :: "bytes wm" where
  "suspendBuffer p = (Inr (p_buf p), p\<lparr>p_buf := []\<rparr>)"

definition resumeBuffer :: "bytes \<Rightarrow> wire_protocol \<Rightarrow> wire_protocol" where
  "resumeBuffer b p = p\<lparr>p_buf := b\<rparr>"

text \<open>
  \<open>recvPackets\<close> returns its buffer along with the error; callers that drop the error go on with
  a buffer that was only partly filled, the rest being zero.
\<close>

definition recv_raw :: "int \<Rightarrow> (bytes \<times> go_error option) wm" where
  "recv_raw n p =
     (if n < 0 then (Inl (Panic ''makeslice: len out of range''), p)
      else if nat n \<le> length (p_inbound p)
      then (Inr (take (nat n) (p_inbound p), None), p\<lparr>p_inbound := drop (nat n) (p_inbound p)\<rparr>)
      else (Inr (p_inbound p @ replicate (nat n - length (p_inbound p)) 0, Some NetErr), p\<lparr>p_inbound := []\<rparr>))"

definition recvPackets :: "int \<Rightarrow> bytes wm" where
  "recvPackets n = wbind (recv_raw n) (\<lambda>(b, err). case err of None \<Rightarrow> wret b | Some e \<Rightarrow> werr e)"

definition recv_ignore :: "int \<Rightarrow> bytes wm" where
  "recv_ignore n = wbind (recv_raw n) (\<lambda>(b, err). wret b)"

definition recvPacketsAlignment :: "int \<Rightarrow> bytes wm" where
  "recvPacketsAlignment n =
     (let padding = n smod 4;
          padding = (if padding > 0 then 4 - padding else padding)
      in wbind (recv_raw (n + padding)) (\<lambda>(b, err).
         wbind (wlift (go_slice b 0 n)) (\<lambda>b.
         case err of None \<Rightarrow> wret b | Some e \<Rightarrow> werr e)))"

text \<open>Reading one big-endian integer, with and without looking at the error.\<close>

definition recv_int :: "int32 wm" where
  "recv_int = wbind (recvPackets 4) (\<lambda>b. wlift (bytes_to_bint32 b))"

definition recv_int_ignore :: "int32 wm" where
  "recv_int_ignore = wbind (recv_ignore 4) (\<lambda>b. wlift (bytes_to_bint32 b))"

lemma recvPackets_eq:
  "recvPackets n p =
     (if n < 0 then (Inl (Panic ''makeslice: len out of range''), p)
      else if nat n \<le> length (p_inbound p)
      then (Inr (take (nat n) (p_inbound p)), p\<lparr>p_inbound := drop (nat n) (p_inbound p)\<rparr>)
      else (Inl NetErr, p\<lparr>p_inbound := []\<rparr>))"
  by (simp add: recvPackets_def recv_raw_def wbind_def)

lemma recvPacketsAlignment_eq:
  assumes "0 \<le> n"
  shows "recvPacketsAlignment n p =
     (let k = nat (n + xdr_padding n) in
      if k \<le> length (p_inbound p)
      then (Inr (take (nat n) (p_inbound p)), p\<lparr>p_inbound := drop k (p_inbound p)\<rparr>)
      else (Inl NetErr, p\<lparr>p_inbound := []\<rparr>))"
proof -
  have pad: "(if n smod 4 > 0 then 4 - n smod 4 else n smod 4) = xdr_padding n"
    using assms by (auto simp: smod_nonneg xdr_padding_def)
  have k: "nat n \<le> nat (n + xdr_padding n)" "0 \<le> n + xdr_padding n"
    using assms xdr_padding_range [of n] by simp_all
  show ?thesis
    using assms k by (auto simp: recvPacketsAlignment_def recv_raw_def wbind_def pad Let_def min_def)
qed

lemma recv_int_eq:
  "recv_int p =
     (if 4 \<le> length (p_inbound p)
      then (bytes_to_bint32 (take 4 (p_inbound p)), p\<lparr>p_inbound := drop 4 (p_inbound p)\<rparr>)
      else (Inl NetErr, p\<lparr>p_inbound := []\<rparr>))"
  by (simp add: recv_int_def recvPackets_eq wbind_def)

lemma bint32_4: "length b = 4 \<Longrightarrow> \<exists>w. bytes_to_bint32 b = Inr w"
  using bint32_codec.dec_long [of b] by auto

lemma bint32_take4: "4 \<le> length b \<Longrightarrow> \<exists>w. bytes_to_bint32 (take 4 b) = Inr w"
  by (rule bint32_4) simp

subsection \<open>The status vector\<close>

record status_vector =
  sv_gdsCodes :: "int list"
  sv_sqlCode :: int
  sv_sqlState :: string
  sv_params :: "string list list"
  sv_warnings :: "int list"
  sv_message :: string

text \<open>The parser's local variables: \<open>gds_code\<close>, \<open>num_arg\<close>, \<open>currentIdx\<close>, \<open>inWarning\<close>.\<close>

record sv_vars =
  sv :: status_vector
  gds_code :: int
  num_arg :: int
  currentIdx :: int
  inWarning :: bool

definition sv_init :: sv_vars where
  "sv_init = \<lparr> sv = \<lparr> sv_gdsCodes = [], sv_sqlCode = 0, sv_sqlState = '''', sv_params = [],
     sv_warnings = [], sv_message = '''' \<rparr>,
     gds_code = 0, num_arg = 0, currentIdx = -1, inWarning = False \<rparr>"

definition append_param :: "int \<Rightarrow> string \<Rightarrow> status_vector \<Rightarrow> status_vector" where
  "append_param i s v =
     (if i \<ge> 0 then v\<lparr>sv_params := (sv_params v)[nat i := sv_params v ! nat i @ [s]]\<rparr> else v)"

text \<open>An argument of the current error: it replaces \<open>@N\<close> in the message and is recorded.\<close>

definition sv_argument :: "string \<Rightarrow> sv_vars \<Rightarrow> sv_vars" where
  "sv_argument s st =
     (let st = st\<lparr>num_arg := num_arg st + 1\<rparr> in
      if inWarning st then st
      else st\<lparr>sv := append_param (currentIdx st) s
        ((sv st)\<lparr>sv_message := replace_first (CHR ''@'' # itoa (num_arg st)) s (sv_message (sv st))\<rparr>)\<rparr>)"

definition sv_gds :: "go_env \<Rightarrow> int \<Rightarrow> sv_vars \<Rightarrow> sv_vars" where
  "sv_gds env code st =
     (let st = st\<lparr>gds_code := code\<rparr> in
      if code \<noteq> 0 then
        (let v = sv st; msg = errmsgs env code;
             v = v\<lparr>sv_gdsCodes := sv_gdsCodes v @ [code], sv_params := sv_params v @ [[]]\<rparr>
         in st\<lparr>inWarning := False, currentIdx := int (length (sv_gdsCodes v)) - 1, num_arg := 0,
               sv := v\<lparr>sv_message := sv_message v @
                 (if msg \<noteq> '''' then msg else ''unknown gds_code: '' @ itoa code)\<rparr>\<rparr>)
      else st)"

definition sv_warning :: "int \<Rightarrow> sv_vars \<Rightarrow> sv_vars" where
  "sv_warning code st =
     (if code \<noteq> 0 then st\<lparr>inWarning := True, num_arg := 0,
        sv := (sv st)\<lparr>sv_warnings := sv_warnings (sv st) @ [code]\<rparr>\<rparr> else st)"

definition sv_number :: "int \<Rightarrow> sv_vars \<Rightarrow> sv_vars" where
  "sv_number num st =
     sv_argument (itoa num)
       (if \<not> inWarning st \<and> gds_code st = 335544436
        then st\<lparr>sv := (sv st)\<lparr>sv_sqlCode := num\<rparr>\<rparr> else st)"

text \<open>A counted string of the vector, its length checked before it is read.\<close>

definition recv_sv_string :: "bytes wm" where
  "recv_sv_string = wbind recv_int (\<lambda>w. let nbytes = sint w in
     if nbytes < 0 \<or> nbytes > maxWirePayload
     then werr (Wrapped ''firebirdsql: status vector string length %d out of range: %w''
                 (BadConn ''driver: bad connection''))
     else recvPacketsAlignment nbytes)"

definition sv_item :: "go_env \<Rightarrow> int32 \<Rightarrow> sv_vars \<Rightarrow> sv_vars wm" where
  "sv_item env n st =
     (if n = isc_arg_gds then
        wbind recv_int (\<lambda>c. wret (sv_gds env (sint c) st))
      else if n = isc_arg_warning then
        wbind recv_int (\<lambda>c. wret (sv_warning (sint c) st))
      else if n = isc_arg_number then
        wbind recv_int (\<lambda>c. wret (sv_number (sint c) st))
      else if n = isc_arg_string then
        wbind recv_sv_string (\<lambda>b. wret (sv_argument (bytes_to_str b) st))
      else if n = isc_arg_interpreted then
        wbind recv_sv_string (\<lambda>b. wret (if inWarning st then st
          else st\<lparr>sv := (sv st)\<lparr>sv_message := sv_message (sv st) @ bytes_to_str b\<rparr>\<rparr>))
      else if n = isc_arg_sql_state then
        wbind recv_sv_string (\<lambda>b. wret (if inWarning st \<or> sv_sqlState (sv st) \<noteq> '''' then st
          else st\<lparr>sv := (sv st)\<lparr>sv_sqlState := bytes_to_str b\<rparr>\<rparr>))
      else wret st)"

text \<open>The index of the current error is one of its arguments, so recording an argument stays in range.\<close>

definition params_ok :: "sv_vars \<Rightarrow> bool" where
  "params_ok st \<longleftrightarrow> length (sv_gdsCodes (sv st)) = length (sv_params (sv st)) \<and> currentIdx st < int (length (sv_params (sv st)))"

lemma params_ok_init: "params_ok sv_init"
  by (simp add: params_ok_def sv_init_def)

lemma params_ok_argument: "params_ok st \<Longrightarrow> params_ok (sv_argument s st)"
  by (simp add: params_ok_def sv_argument_def append_param_def Let_def)

lemma params_ok_item: "params_ok st \<Longrightarrow> sv_item env n st p = (Inr st', q) \<Longrightarrow> params_ok st'"
  using params_ok_argument
  by (auto simp: sv_item_def sv_number_def sv_gds_def sv_warning_def params_ok_def wbind_def Let_def split: if_splits prod.splits sum.splits)

text \<open>
  Receiving only takes bytes off the front of the input and changes nothing else; this bounds
  every loop over the wire.
\<close>

definition reads :: "'a wm \<Rightarrow> bool" where
  "reads m \<longleftrightarrow> (\<forall>p. \<exists>k. snd (m p) = p\<lparr>p_inbound := drop k (p_inbound p)\<rparr>)"

lemma readsI: "(\<And>p. \<exists>k. snd (m p) = p\<lparr>p_inbound := drop k (p_inbound p)\<rparr>) \<Longrightarrow> reads m"
  by (simp add: reads_def)

lemma reads_state: "reads m \<Longrightarrow> m p = (r, p') \<Longrightarrow> \<exists>k. p' = p\<lparr>p_inbound := drop k (p_inbound p)\<rparr>"
  unfolding reads_def by (metis snd_conv)

lemma reads_le: "reads m \<Longrightarrow> length (p_inbound (snd (m p))) \<le> length (p_inbound p)"
proof -
  assume "reads m"
  then obtain k where "snd (m p) = p\<lparr>p_inbound := drop k (p_inbound p)\<rparr>" by (auto simp: reads_def)
  then show ?thesis by simp
qed

lemma reads_bind: "reads m \<Longrightarrow> (\<And>x. reads (f x)) \<Longrightarrow> reads (wbind m f)"
proof (rule readsI)
  fix p assume m: "reads m" and f: "\<And>x. reads (f x)"
  obtain r p1 where mp: "m p = (r, p1)" by (cases "m p")
  obtain k where p1: "p1 = p\<lparr>p_inbound := drop k (p_inbound p)\<rparr>" using reads_state [OF m mp] by blast
  show "\<exists>k. snd (wbind m f p) = p\<lparr>p_inbound := drop k (p_inbound p)\<rparr>"
  proof (cases r)
    case (Inl e)
    then show ?thesis using mp p1 by (auto simp: wbind_def)
  next
    case (Inr x)
    obtain j where "snd (f x p1) = p1\<lparr>p_inbound := drop j (p_inbound p1)\<rparr>"
      using f [of x] by (auto simp: reads_def)
    then have "snd (wbind m f p) = p\<lparr>p_inbound := drop (j + k) (p_inbound p)\<rparr>"
      using mp p1 Inr by (simp add: wbind_def)
    then show ?thesis by blast
  qed
qed

lemma reads_keep: "(\<And>p. snd (m p) = p) \<Longrightarrow> reads m"
  by (rule readsI, rule exI [of _ 0]) simp

lemma reads_basic [simp]: "reads (wret x)" "reads (werr e)" "reads (wlift r)"
  by (auto intro: reads_keep)

lemma reads_try [simp]: "reads m \<Longrightarrow> reads (wtry m)"
  unfolding reads_def wtry_def by (auto split: prod.splits sum.splits go_error.splits) (metis snd_conv)+

lemma reads_recv_raw [simp]: "reads (recv_raw n)"
proof (rule readsI)
  fix p
  show "\<exists>k. snd (recv_raw n p) = p\<lparr>p_inbound := drop k (p_inbound p)\<rparr>"
  proof (cases "n < 0")
    case True
    then show ?thesis by (intro exI [of _ 0]) (simp add: recv_raw_def)
  next
    case False
    then show ?thesis by (intro exI [of _ "nat n"]) (simp add: recv_raw_def)
  qed
qed

lemma reads_recv [simp]:
  "reads (recvPackets n)" "reads (recv_ignore n)" "reads (recvPacketsAlignment n)"
  unfolding recvPackets_def recv_ignore_def recvPacketsAlignment_def Let_def
  by (auto intro!: reads_bind split: option.splits)

lemma reads_recv_int [simp]: "reads recv_int" "reads recv_int_ignore"
  unfolding recv_int_def recv_int_ignore_def by (auto intro!: reads_bind)

lemma reads_sv_string [simp]: "reads recv_sv_string"
  unfolding recv_sv_string_def Let_def by (auto intro!: reads_bind)

lemma reads_sv_item [simp]: "reads (sv_item env n st)"
  unfolding sv_item_def by (auto intro!: reads_bind)

lemma recv_int_less: "recv_int p = (Inr w, p') \<Longrightarrow> length (p_inbound p') < length (p_inbound p)"
  by (auto simp: recv_int_eq split: if_splits)

function sv_loop :: "int32 \<Rightarrow> sv_vars \<Rightarrow> wire_protocol \<Rightarrow> status_vector res \<times> wire_protocol" where
  "sv_loop n st p =
     (if n = isc_arg_end then (Inr (sv st), p)
      else (case sv_item (p_env p) n st p of
              (Inl e, p1) \<Rightarrow> (Inl e, p1)
            | (Inr st', p1) \<Rightarrow>
                (case recv_int p1 of (Inl e, p2) \<Rightarrow> (Inl e, p2) | (Inr n', p2) \<Rightarrow> sv_loop n' st' p2)))"
  by pat_completeness auto
termination
proof (relation "measure (\<lambda>(n, st, p). length (p_inbound p))", simp, goal_cases)
  case (1 n st p r p1 st' r2 p2 n')
  then have "sv_item (p_env p) n st p = (Inr st', p1)" "recv_int p1 = (Inr n', p2)" by simp_all
  then show ?case using reads_le [OF reads_sv_item, of "p_env p" n st p] recv_int_less [of p1 n' p2] by simp
qed

declare sv_loop.simps [simp del]

definition parse_status_vector :: "status_vector wm" where
  "parse_status_vector = wbind recv_int (\<lambda>n. sv_loop n sv_init)"

subsection \<open>The generic response\<close>

text \<open>
  \<open>_parse_op_response\<close> returns a handle, an object id and a buffer beside its error, and some
  callers use them in spite of it: the error is part of the value here. \<open>Inl\<close> is a panic.
\<close>

type_synonym op_resp = "int32 \<times> bytes \<times> bytes \<times> go_error option"

definition sv_error :: "go_env \<Rightarrow> status_vector \<Rightarrow> go_error option" where
  "sv_error env v =
     (if sv_gdsCodes v \<noteq> [] \<or> sv_sqlCode v \<noteq> 0 then
        Some (Fb \<lparr> GDSCodes = sv_gdsCodes v,
          SQLCode = (if sv_sqlCode v = 0 \<and> sv_gdsCodes v \<noteq> []
                     then gdsToSQLCode env (hd (sv_gdsCodes v)) else sv_sqlCode v),
          SQLState = (if sv_sqlState v = '''' \<and> sv_gdsCodes v \<noteq> []
                      then gdsToSQLState env (hd (sv_gdsCodes v)) else sv_sqlState v),
          Params = sv_params v, Warnings = sv_warnings v, Message = sv_message v \<rparr>)
      else None)"

definition parse_op_response :: "op_resp wm" where
  "parse_op_response =
     wbind (wtry (recvPackets 16)) (\<lambda>rb. case rb of
       Inl e \<Rightarrow> wret (0, [], [], Some e)
     | Inr b \<Rightarrow>
         wbind (wlift (bind_res (go_slice b 0 4) bytes_to_bint32)) (\<lambda>h.
         wbind (wlift (go_slice b 4 12)) (\<lambda>oid.
         wbind (wlift (bind_res (go_slice b 12 (int (length b))) bytes_to_bint32)) (\<lambda>bl.
         let buf_len = sint bl in
         if buf_len < 0 \<or> buf_len > maxWirePayload
         then wret (h, oid, [], Some (Wrapped ''firebirdsql: response buffer length %d out of range: %w''
                (BadConn ''driver: bad connection'')))
         else wbind (if buf_len > 0 then wtry (recvPacketsAlignment buf_len) else wret (Inr [])) (\<lambda>rbuf.
           case rbuf of Inl e \<Rightarrow> wret (h, oid, [], Some e)
           | Inr buf \<Rightarrow>
               wbind (wtry parse_status_vector) (\<lambda>rv. case rv of
                 Inl e \<Rightarrow> wret (h, oid, buf, Some (Wrapped ''protocol error during status vector parsing: %w'' e))
               | Inr v \<Rightarrow> (\<lambda>p. (Inr (h, oid, buf, sv_error (p_env p) v), p))))))))"

subsection \<open>Sending small requests\<close>

definition op_packet :: "int32 list \<Rightarrow> wire_protocol \<Rightarrow> wire_protocol" where
  "op_packet is p = foldl (\<lambda>p i. packInt i p) p is"

definition opCryptCallback :: "unit wm" where
  "opCryptCallback p = sendPackets (packInt BUFFER_LEN (packInt 0 (packInt op_crypt_key_callback p)))"

subsection \<open>Waiting for a response\<close>

text \<open>\<open>for bytes_to_bint32(b) == op_dummy { b, _ = p.recvPackets(4) }\<close>\<close>

definition parse_discard :: "unit wm" where
  "parse_discard = wbind parse_op_response (\<lambda>_. wret ())"

lemma recv_int_ignore_eq:
  "recv_int_ignore p =
     (if 4 \<le> length (p_inbound p)
      then (bytes_to_bint32 (take 4 (p_inbound p)), p\<lparr>p_inbound := drop 4 (p_inbound p)\<rparr>)
      else (bytes_to_bint32 (p_inbound p @ replicate (4 - length (p_inbound p)) 0), p\<lparr>p_inbound := []\<rparr>))"
  by (simp add: recv_int_ignore_def recv_ignore_def recv_raw_def wbind_def)

lemma recv_int_ignore_total: "\<exists>w p'. recv_int_ignore p = (Inr w, p')"
  using bint32_take4 [of "p_inbound p"]
    bint32_4 [of "p_inbound p @ replicate (4 - length (p_inbound p)) 0"]
  by (auto simp: recv_int_ignore_eq)

lemma recv_ignore_total: "0 \<le> n \<Longrightarrow> \<exists>b p'. recv_ignore n p = (Inr b, p')"
  by (simp add: recv_ignore_def recv_raw_def wbind_def)

text \<open>An opcode read from an exhausted connection is 0.\<close>

lemma recv_int_ignore_eof: "p_inbound p = [] \<Longrightarrow> recv_int_ignore p = (Inr 0, p)"
  by (simp add: recv_int_ignore_eq) code_simp

lemma recv_int_ignore_less:
  "recv_int_ignore p = (Inr w, p') \<Longrightarrow> w \<noteq> 0 \<Longrightarrow> length (p_inbound p') < length (p_inbound p)"
  using recv_int_ignore_eof [of p] by (cases "p_inbound p = []") (auto simp: recv_int_ignore_eq split: if_splits)

function skip_dummy :: "int32 \<Rightarrow> wire_protocol \<Rightarrow> int32 res \<times> wire_protocol" where
  "skip_dummy w p =
     (if w = op_dummy then
        (case recv_int_ignore p of (Inl e, p1) \<Rightarrow> (Inl e, p1) | (Inr w', p1) \<Rightarrow> skip_dummy w' p1)
      else (Inr w, p))"
  by pat_completeness auto
termination
proof (relation "measure (\<lambda>(w, p). 2 * length (p_inbound p) + (if w = op_dummy then 1 else 0))", simp, goal_cases)
  case (1 w p r p1 w')
  then have r: "recv_int_ignore p = (Inr w', p1)" by simp
  have le: "length (p_inbound p1) \<le> length (p_inbound p)"
    using reads_le [OF reads_recv_int(2), of p] r by simp
  show ?case using 1(1) recv_int_ignore_less [OF r] le by (cases "w' = 0") auto
qed

declare skip_dummy.simps [simp del]

text \<open>\<open>op_crypt_key_callback\<close>: answer it and read 12 bytes and the next opcode.\<close>

definition crypt_callback :: "int32 wm" where
  "crypt_callback = wbind opCryptCallback (\<lambda>_. wbind (recv_ignore 12) (\<lambda>_. recv_int_ignore))"

lemma reads_sv_loop [simp]: "reads (sv_loop n st)"
proof (rule readsI)
  fix p
  show "\<exists>k. snd (sv_loop n st p) = p\<lparr>p_inbound := drop k (p_inbound p)\<rparr>"
  proof (induction n st p rule: sv_loop.induct)
    case (1 n st p)
    obtain r p1 where i: "sv_item (p_env p) n st p = (r, p1)" by fastforce
    obtain r2 p2 where v: "recv_int p1 = (r2, p2)" by fastforce
    obtain k where p1: "p1 = p\<lparr>p_inbound := drop k (p_inbound p)\<rparr>"
      using reads_state [OF reads_sv_item i] by blast
    obtain j where p2: "p2 = p1\<lparr>p_inbound := drop j (p_inbound p1)\<rparr>"
      using reads_state [OF reads_recv_int(1) v] by blast
    show ?case
    proof (cases "n = isc_arg_end")
      case True
      then show ?thesis by (intro exI [of _ 0]) (subst sv_loop.simps; simp)
    next
      case False
      show ?thesis
      proof (cases r)
        case (Inl e)
        then show ?thesis using False i p1 by (subst sv_loop.simps) auto
      next
        case st': (Inr st')
        show ?thesis
        proof (cases r2)
          case (Inl e)
          have "snd (sv_loop n st p) = p2" using False i v st' Inl by (subst sv_loop.simps) simp
          then show ?thesis using p1 p2 by auto
        next
          case (Inr n')
          have "sv_loop n st p = sv_loop n' st' p2" using False i v st' Inr by (subst sv_loop.simps) simp
          moreover obtain l where "snd (sv_loop n' st' p2) = p2\<lparr>p_inbound := drop l (p_inbound p2)\<rparr>"
            using 1 [OF False] i v st' Inr by metis
          ultimately show ?thesis using p1 p2 by auto
        qed
      qed
    qed
  qed
qed

lemma reads_status_vector [simp]: "reads parse_status_vector"
  unfolding parse_status_vector_def by (auto intro!: reads_bind)

lemma reads_parse_op_response [simp]: "reads parse_op_response"
proof -
  have fin: "reads (\<lambda>p. (Inr (h, oid, b, sv_error (p_env p) v), p))" for h oid b v
    by (rule reads_keep) simp
  show ?thesis
    unfolding parse_op_response_def Let_def
    by (auto intro!: reads_bind fin split: sum.splits)
qed

function skip_crypt :: "int32 \<Rightarrow> wire_protocol \<Rightarrow> int32 res \<times> wire_protocol" where
  "skip_crypt w p =
     (if w = op_crypt_key_callback then
        (case crypt_callback p of (Inl e, p1) \<Rightarrow> (Inl e, p1) | (Inr w', p1) \<Rightarrow> skip_crypt w' p1)
      else (Inr w, p))"
  by pat_completeness auto
termination
proof (relation "measure (\<lambda>(w, p). 2 * length (p_inbound p) + (if w = op_crypt_key_callback then 1 else 0))",
    simp, goal_cases)
  case (1 w p r p1 w')
  then have r: "crypt_callback p = (Inr w', p1)" by simp
  obtain p0 where p0: "opCryptCallback p = (Inr (), p0)" "p_inbound p0 = p_inbound p"
    using r by (auto simp: crypt_callback_def opCryptCallback_def sendPackets_def wbind_def packInt_def
        split: if_splits)
  obtain b p2 where b: "recv_ignore 12 p0 = (Inr b, p2)"
    using recv_ignore_total [of 12 p0] by auto
  then have p2: "recv_ignore 12 p0 = (Inr b, p2)" "length (p_inbound p2) \<le> length (p_inbound p0)"
    using reads_le [OF reads_recv(2), of 12 p0] by simp_all
  have w: "recv_int_ignore p2 = (Inr w', p1)" using r p0 p2 by (simp add: crypt_callback_def wbind_def)
  have "length (p_inbound p1) \<le> length (p_inbound p2)"
    using reads_le [OF reads_recv_int(2), of p2] w by simp
  then show ?case using 1(1) recv_int_ignore_less [OF w] p0 p2 by (cases "w' = 0") auto
qed

declare skip_crypt.simps [simp del]

text \<open>Answers to requests that were sent without waiting are taken off first.\<close>

function skip_lazy :: "int32 \<Rightarrow> wire_protocol \<Rightarrow> int32 res \<times> wire_protocol" where
  "skip_lazy w p =
     (if w = op_response \<and> p_lazyResponseCount p > 0 then
        (case parse_op_response (p\<lparr>p_lazyResponseCount := p_lazyResponseCount p - 1\<rparr>) of
           (Inl e, p1) \<Rightarrow> (Inl e, p1)
         | (Inr _, p1) \<Rightarrow>
             (case recv_int_ignore p1 of (Inl e, p2) \<Rightarrow> (Inl e, p2) | (Inr w', p2) \<Rightarrow> skip_lazy w' p2))
      else (Inr w, p))"
  by pat_completeness auto
termination
proof (relation "measure (\<lambda>(w, p). nat (p_lazyResponseCount p))", simp, goal_cases)
  case (1 w p r p1 x r2 p2 w')
  have "p_lazyResponseCount p1 = p_lazyResponseCount p - 1"
    using 1(2) [symmetric] reads_state [OF reads_parse_op_response] by fastforce
  moreover have "p_lazyResponseCount p2 = p_lazyResponseCount p1"
    using 1(4) [symmetric] reads_state [OF reads_recv_int(2)] by fastforce
  ultimately show ?case using 1(1) by simp
qed

declare skip_lazy.simps [simp del]

definition op_response_raw :: "op_resp wm" where
  "op_response_raw =
     wbind (wtry recv_int) (\<lambda>r. case r of Inl e \<Rightarrow> wret (0, [], [], Some e)
     | Inr w \<Rightarrow>
        wbind (skip_dummy w) (\<lambda>w.
        wbind (wtry (skip_crypt w)) (\<lambda>r. case r of Inl e \<Rightarrow> wret (0, [], [], Some e)
        | Inr w \<Rightarrow>
          wbind (skip_lazy w) (\<lambda>w.
          if w \<noteq> op_response then
            (if w = op_cont_auth then wret (0, [], [], Some (Plain ''Your user name and password are not defined. Ask your database administrator to set up a Firebird login.''))
             else wret (0, [], [], Some (OpResponse (sint w))))
          else parse_op_response))))"

text \<open>A caller that returns on error sees the error only.\<close>

definition opResponse :: "(int32 \<times> bytes \<times> bytes) wm" where
  "opResponse = wbind op_response_raw (\<lambda>(h, oid, b, err).
     case err of None \<Rightarrow> wret (h, oid, b) | Some e \<Rightarrow> werr e)"

end
