(* ===== verification/Wire_Response.thy ===== *)
theory Wire_Response
  imports Wire_Protocol
begin

text \<open>
  What the response reader of \<open>Wire_Protocol\<close> does: the encoding of status vectors and
  responses as a server writes them, that they are read back, that responses to lazily sent
  requests are taken off in order, and that no byte sequence makes the reader panic.
\<close>

subsection \<open>Reading what a server wrote\<close>

text \<open>The connection that has \<open>b\<close> still to deliver.\<close>

definition feed :: "bytes \<Rightarrow> wire_protocol \<Rightarrow> wire_protocol" where
  "feed b p = p\<lparr>p_inbound := b\<rparr>"

lemma feed_simps [simp]:
  "p_inbound (feed b p) = b" "feed b (feed c p) = feed b p" "p_env (feed b p) = p_env p"
  "p_lazyResponseCount (feed b p) = p_lazyResponseCount p"
  "p_acceptType (feed b p) = p_acceptType p" "p_protocolVersion (feed b p) = p_protocolVersion p"
  "p_inlineBlobCache (feed b p) = p_inlineBlobCache p" "p_buf (feed b p) = p_buf p"
  "p\<lparr>p_inbound := b\<rparr> = feed b p" "p_charset (feed b p) = p_charset p" "p_timezone (feed b p) = p_timezone p"
  "p_chan (feed b p) = p_chan p" "p_outbound (feed b p) = p_outbound p" "p_wr_ok (feed b p) = p_wr_ok p"
  "p_dbHandle (feed b p) = p_dbHandle p" "p_pluginName (feed b p) = p_pluginName p"
  by (simp_all add: feed_def)

lemma recv_int_enc [simp]: "recv_int (feed (bint32_to_bytes w @ rest) p) = (Inr w, feed rest p)"
  by (simp add: recv_int_eq bint32_codec.enc_length bint32_codec.dec_enc_Nil)

lemma recv_int_ignore_enc [simp]:
  "recv_int_ignore (feed (bint32_to_bytes w @ rest) p) = (Inr w, feed rest p)"
  by (simp add: recv_int_ignore_eq bint32_codec.enc_length bint32_codec.dec_enc_Nil)

lemma recv_exact [simp]:
  "n = int (length b) \<Longrightarrow> recvPackets n (feed (b @ rest) p) = (Inr b, feed rest p)"
  by (simp add: recvPackets_eq)

definition xdr_pad :: "bytes \<Rightarrow> bytes" where
  "xdr_pad b = b @ replicate (nat (xdr_padding (int (length b)))) 0"

lemma xdr_pad_Nil [simp]: "xdr_pad [] = []"
  by (simp add: xdr_pad_def xdr_padding_def)

lemma recv_aligned [simp]:
  "n = int (length b) \<Longrightarrow> recvPacketsAlignment n (feed (xdr_pad b @ rest) p) = (Inr b, feed rest p)"
  using xdr_padding_range [of "int (length b)"]
  by (simp add: recvPacketsAlignment_eq xdr_pad_def Let_def nat_add_distrib)

lemma xdrBytes_counted:
  "length b < 2 ^ 31 \<Longrightarrow> xdrBytes b = bint32_to_bytes (word_of_int (int (length b))) @ xdr_pad b"
proof -
  assume "length b < 2 ^ 31"
  then have "length b < 2 ^ LENGTH(32)" by simp
  then have "unat (word_of_int (int (length b)) :: int32) = length b"
    by (simp add: unat_of_nat take_bit_nat_eq_self)
  then show ?thesis by (simp only: xdrBytes_eq xdr_pad_def bint32_to_bytes_be)
qed

lemma sint_length32: "length b < 2 ^ 31 \<Longrightarrow> sint (word_of_int (int (length b)) :: int32) = int (length b)"
  by (rule sint_word_of_int32) simp_all

lemma recv_sv_string_enc [simp]:
  assumes "length b \<le> maxWirePayload"
  shows "recv_sv_string (feed (xdrBytes b @ rest) p) = (Inr b, feed rest p)"
proof -
  have l: "length b < 2 ^ 31" using assms by simp
  show ?thesis
    using assms unfolding xdrBytes_counted [OF l] recv_sv_string_def
    by (simp add: sint_length32 [OF l] Let_def del: of_int_of_nat_eq)
qed

text \<open>The clauses of a status vector, their encoding and their meaning.\<close>

datatype sv_clause =
    ClGds int32 | ClWarning int32 | ClNumber int32 | ClString bytes | ClInterpreted bytes | ClState bytes

primrec clause_bytes :: "sv_clause \<Rightarrow> bytes" where
  "clause_bytes (ClGds c) = bint32_to_bytes isc_arg_gds @ bint32_to_bytes c"
| "clause_bytes (ClWarning c) = bint32_to_bytes isc_arg_warning @ bint32_to_bytes c"
| "clause_bytes (ClNumber c) = bint32_to_bytes isc_arg_number @ bint32_to_bytes c"
| "clause_bytes (ClString b) = bint32_to_bytes isc_arg_string @ xdrBytes b"
| "clause_bytes (ClInterpreted b) = bint32_to_bytes isc_arg_interpreted @ xdrBytes b"
| "clause_bytes (ClState b) = bint32_to_bytes isc_arg_sql_state @ xdrBytes b"

primrec clause_fits :: "sv_clause \<Rightarrow> bool" where
  "clause_fits (ClGds c) = True"
| "clause_fits (ClWarning c) = True"
| "clause_fits (ClNumber c) = True"
| "clause_fits (ClString b) = (length b \<le> maxWirePayload)"
| "clause_fits (ClInterpreted b) = (length b \<le> maxWirePayload)"
| "clause_fits (ClState b) = (length b \<le> maxWirePayload)"

primrec clause_meaning :: "go_env \<Rightarrow> sv_clause \<Rightarrow> sv_vars \<Rightarrow> sv_vars" where
  "clause_meaning env (ClGds c) st = sv_gds env (sint c) st"
| "clause_meaning env (ClWarning c) st = sv_warning (sint c) st"
| "clause_meaning env (ClNumber c) st = sv_number (sint c) st"
| "clause_meaning env (ClString b) st = sv_argument (bytes_to_str b) st"
| "clause_meaning env (ClInterpreted b) st = (if inWarning st then st
     else st\<lparr>sv := (sv st)\<lparr>sv_message := sv_message (sv st) @ bytes_to_str b\<rparr>\<rparr>)"
| "clause_meaning env (ClState b) st = (if inWarning st \<or> sv_sqlState (sv st) \<noteq> '''' then st
     else st\<lparr>sv := (sv st)\<lparr>sv_sqlState := bytes_to_str b\<rparr>\<rparr>)"

definition vector_meaning :: "go_env \<Rightarrow> sv_clause list \<Rightarrow> status_vector" where
  "vector_meaning env cs = sv (foldl (\<lambda>st c. clause_meaning env c st) sv_init cs)"

definition vector_bytes :: "sv_clause list \<Rightarrow> bytes" where
  "vector_bytes cs = concat (map clause_bytes cs) @ bint32_to_bytes isc_arg_end"

lemma sv_loop_clauses:
  assumes "list_all clause_fits cs"
  shows "wbind recv_int (\<lambda>n. sv_loop n st) (feed (vector_bytes cs @ rest) p) =
    (Inr (sv (foldl (\<lambda>st c. clause_meaning (p_env p) c st) st cs)), feed rest p)"
  using assms
proof (induction cs arbitrary: st)
  case Nil
  show ?case by (simp add: vector_bytes_def wbind_def) (subst sv_loop.simps; simp)
next
  case (Cons c cs)
  have IH: "wbind recv_int (\<lambda>n. sv_loop n (clause_meaning (p_env p) c st)) (feed (vector_bytes cs @ rest) p) =
      (Inr (sv (foldl (\<lambda>st c. clause_meaning (p_env p) c st) (clause_meaning (p_env p) c st) cs)), feed rest p)"
    using Cons by simp
  define tl where "tl = vector_bytes cs @ rest"
  have v: "vector_bytes (c # cs) @ rest = clause_bytes c @ tl"
    by (simp add: vector_bytes_def tl_def)
  obtain n body where n: "clause_bytes c = bint32_to_bytes n @ body" "n \<noteq> isc_arg_end"
    "sv_item (p_env p) n st (feed (body @ tl) p) = (Inr (clause_meaning (p_env p) c st), feed tl p)"
    using Cons.prems by (cases c) (auto simp: sv_item_def wbind_def)
  have "wbind recv_int (\<lambda>n. sv_loop n st) (feed (clause_bytes c @ tl) p) =
     wbind recv_int (\<lambda>n. sv_loop n (clause_meaning (p_env p) c st)) (feed tl p)"
    using n by (simp add: wbind_def) (subst sv_loop.simps; simp)
  then show ?case using IH unfolding v by (simp add: tl_def)
qed

lemma parse_status_vector_clauses:
  "list_all clause_fits cs \<Longrightarrow> parse_status_vector (feed (vector_bytes cs @ rest) p) =
     (Inr (vector_meaning (p_env p) cs), feed rest p)"
  unfolding parse_status_vector_def vector_meaning_def by (rule sv_loop_clauses)

text \<open>A whole response.\<close>

record response =
  r_handle :: int32
  r_oid :: bytes
  r_data :: bytes
  r_status :: "sv_clause list"

definition response_fits :: "response \<Rightarrow> bool" where
  "response_fits r \<longleftrightarrow> length (r_oid r) = 8 \<and> length (r_data r) \<le> maxWirePayload \<and>
     list_all clause_fits (r_status r)"

definition response_body :: "response \<Rightarrow> bytes" where
  "response_body r = bint32_to_bytes (r_handle r) @ r_oid r @ xdrBytes (r_data r) @ vector_bytes (r_status r)"

definition response_bytes :: "response \<Rightarrow> bytes" where
  "response_bytes r = bint32_to_bytes op_response @ response_body r"

lemma parse_op_response_body:
  assumes "response_fits r"
  shows "parse_op_response (feed (response_body r @ rest) p) =
    (Inr (r_handle r, r_oid r, r_data r, sv_error (p_env p) (vector_meaning (p_env p) (r_status r))),
     feed rest p)"
proof -
  define d where "d = r_data r"
  have l: "length d < 2 ^ 31" "length d \<le> maxWirePayload" using assms by (simp_all add: d_def response_fits_def)
  define hd where "hd = bint32_to_bytes (r_handle r) @ r_oid r @ bint32_to_bytes (word_of_int (int (length d)))"
  have len: "length hd = 16" "length (r_oid r) = 8"
    using assms by (simp_all add: hd_def response_fits_def bint32_codec.enc_length)
  have b: "response_body r @ rest = hd @ xdr_pad d @ vector_bytes (r_status r) @ rest"
    by (simp add: response_body_def hd_def d_def [symmetric] xdrBytes_counted [OF l(1)])
  have h: "bind_res (go_slice hd 0 4) bytes_to_bint32 = Inr (r_handle r)"
    "go_slice hd 4 12 = Inr (r_oid r)"
    "bind_res (go_slice hd 12 16) bytes_to_bint32 = Inr (word_of_int (int (length d)))"
    using len by (simp_all add: hd_def bint32_codec.enc_length bint32_codec.dec_enc_Nil)
  have rb: "(if 0 < int (length d) then wtry (recvPacketsAlignment (int (length d))) else wret (Inr []))
      (feed (xdr_pad d @ vector_bytes (r_status r) @ rest) p) = (Inr (Inr d), feed (vector_bytes (r_status r) @ rest) p)"
    by (cases "d = []") (simp_all add: wtry_def)
  have sv: "wtry parse_status_vector (feed (vector_bytes (r_status r) @ rest) p) =
      (Inr (Inr (vector_meaning (p_env p) (r_status r))), feed rest p)"
    using assms by (simp add: wtry_def parse_status_vector_clauses response_fits_def)
  have "wtry (recvPackets 16) (feed (response_body r @ rest) p) =
      (Inr (Inr hd), feed (xdr_pad d @ vector_bytes (r_status r) @ rest) p)"
    using len by (simp add: b wtry_def)
  then show ?thesis
    unfolding parse_op_response_def
    using h len l rb sv
    by (cases "d = []")
      (simp_all add: sint_length32 [OF l(1)] d_def [symmetric] Let_def del: of_int_of_nat_eq)
qed

subsection \<open>No byte sequence makes the reader panic\<close>

definition never_panics :: "'a wm \<Rightarrow> bool" where
  "never_panics m \<longleftrightarrow> (\<forall>p. no_panic (fst (m p)))"

lemma never_panicsD: "never_panics m \<Longrightarrow> m p = (r, p') \<Longrightarrow> no_panic r"
  unfolding never_panics_def by (metis fst_conv)

lemma never_panics_bind:
  "never_panics m \<Longrightarrow> (\<And>x p p'. m p = (Inr x, p') \<Longrightarrow> no_panic (fst (f x p'))) \<Longrightarrow> never_panics (wbind m f)"
  unfolding never_panics_def wbind_def by (auto split: prod.splits sum.splits) (metis fst_conv no_panic_simps(2))

lemma never_panics_bind_all:
  "never_panics m \<Longrightarrow> (\<And>x. never_panics (f x)) \<Longrightarrow> never_panics (wbind m f)"
  by (rule never_panics_bind) (auto simp: never_panics_def)

lemma never_panics_basic [simp]:
  "never_panics (wret x)" "never_panics (werr e) = (\<not> is_panic e)" "never_panics (wlift r) = no_panic r"
  by (simp_all add: never_panics_def)

lemma never_panics_try [simp]: "never_panics m \<Longrightarrow> never_panics (wtry m)"
  unfolding never_panics_def wtry_def
  by (auto split: prod.splits sum.splits if_splits) (metis fst_conv is_panic.simps(1) no_panic_simps(2))

lemma recvPackets_length: "recvPackets n p = (Inr b, p') \<Longrightarrow> int (length b) = n"
  by (auto simp: recvPackets_eq split: if_splits)

lemma never_panics_recv [simp]:
  "0 \<le> n \<Longrightarrow> never_panics (recvPackets n)" "0 \<le> n \<Longrightarrow> never_panics (recvPacketsAlignment n)"
  "0 \<le> n \<Longrightarrow> never_panics (recv_ignore n)"
  by (auto simp: never_panics_def recvPackets_eq recvPacketsAlignment_eq Let_def recv_ignore_def
      recv_raw_def wbind_def)

lemma no_panic_bint32: "4 \<le> length b \<Longrightarrow> no_panic (bytes_to_bint32 b)"
  by (simp add: bint32_codec.no_panic_dec_iff)

lemma never_panics_recv_int [simp]: "never_panics recv_int" "never_panics recv_int_ignore"
proof -
  show "never_panics recv_int"
    by (auto simp: never_panics_def recv_int_eq no_panic_bint32)
  show "never_panics recv_int_ignore"
    by (auto simp: never_panics_def recv_int_ignore_eq no_panic_bint32)
qed

lemma never_panics_sv_string [simp]: "never_panics recv_sv_string"
  unfolding recv_sv_string_def Let_def by (rule never_panics_bind_all) auto

lemma never_panics_sv_item [simp]: "never_panics (sv_item env n st)"
  unfolding sv_item_def by (auto intro!: never_panics_bind_all)

lemma never_panics_sv_loop [simp]: "never_panics (sv_loop n st)"
  unfolding never_panics_def
proof
  fix p
  show "no_panic (fst (sv_loop n st p))"
  proof (induction n st p rule: sv_loop.induct)
    case (1 n st p)
    obtain r p1 where i: "sv_item (p_env p) n st p = (r, p1)" by fastforce
    obtain r2 p2 where v: "recv_int p1 = (r2, p2)" by fastforce
    have np: "no_panic r" "no_panic r2"
      using never_panicsD [OF never_panics_sv_item, OF i] never_panicsD [OF never_panics_recv_int(1), OF v]
      by simp_all
    show ?case
    proof (cases "n = isc_arg_end")
      case True
      then show ?thesis by (subst sv_loop.simps) simp
    next
      case False
      then show ?thesis
        using 1 i v np by (subst sv_loop.simps) (cases r; cases r2; simp)
    qed
  qed
qed

lemma never_panics_parse_op_response [simp]: "never_panics parse_op_response"
proof -
  have fin: "never_panics (\<lambda>p. (Inr (h, oid, b, sv_error (p_env p) v), p))" for h oid b v
    by (simp add: never_panics_def)
  have sv: "never_panics parse_status_vector"
    unfolding parse_status_vector_def by (rule never_panics_bind_all) auto
  have body: "never_panics (wbind (wtry parse_status_vector) (\<lambda>rv. case rv of
       Inl e \<Rightarrow> wret (h, oid, buf, Some (Wrapped m e))
     | Inr v \<Rightarrow> (\<lambda>p. (Inr (h, oid, buf, sv_error (p_env p) v), p))))" for h oid buf m
    by (rule never_panics_bind_all) (auto simp: sv fin split: sum.split)
  show ?thesis
    unfolding parse_op_response_def
  proof (rule never_panics_bind, simp, goal_cases)
    case (1 x p p')
    show ?case
    proof (cases x)
      case (Inl e)
      then show ?thesis by simp
    next
      case (Inr b)
      have len: "length b = 16"
        using 1 Inr recvPackets_length [of 16 p b p'] by (auto simp: wtry_def split: prod.splits sum.splits if_splits)
      obtain h where h: "bind_res (go_slice b 0 4) bytes_to_bint32 = Inr h"
        using bint32_take4 [of b] len by auto
      obtain l where l: "bind_res (go_slice b 12 (int (length b))) bytes_to_bint32 = Inr l"
        using bint32_4 [of "drop 12 b"] len by auto
      have oid: "go_slice b 4 12 = Inr (take 8 (drop 4 b))" using len by simp
      have "never_panics (let buf_len = sint l in
         if buf_len < 0 \<or> buf_len > maxWirePayload
         then wret (h, take 8 (drop 4 b), [], Some (Wrapped ''firebirdsql: response buffer length %d out of range: %w''
                (BadConn ''driver: bad connection'')))
         else wbind (if buf_len > 0 then wtry (recvPacketsAlignment buf_len) else wret (Inr [])) (\<lambda>rbuf.
           case rbuf of Inl e \<Rightarrow> wret (h, take 8 (drop 4 b), [], Some e)
           | Inr buf \<Rightarrow>
               wbind (wtry parse_status_vector) (\<lambda>rv. case rv of
                 Inl e \<Rightarrow> wret (h, take 8 (drop 4 b), buf, Some (Wrapped ''protocol error during status vector parsing: %w'' e))
               | Inr v \<Rightarrow> (\<lambda>p. (Inr (h, take 8 (drop 4 b), buf, sv_error (p_env p) v), p)))))"
        unfolding Let_def by (auto intro!: never_panics_bind_all body split: sum.split)
      then show ?thesis
        using Inr h l oid by (simp add: never_panics_def)
    qed
  qed
qed

lemma never_panics_skip_dummy [simp]: "never_panics (skip_dummy w)"
  unfolding never_panics_def
proof
  fix p
  show "no_panic (fst (skip_dummy w p))"
  proof (induction w p rule: skip_dummy.induct)
    case (1 w p)
    obtain w' p1 where r: "recv_int_ignore p = (Inr w', p1)" using recv_int_ignore_total [of p] by auto
    then show ?case using 1 by (cases "w = op_dummy") (subst skip_dummy.simps; simp)+
  qed
qed

lemma never_panics_callback [simp]: "never_panics crypt_callback"
  unfolding crypt_callback_def
  by (intro never_panics_bind_all) (simp_all, simp add: never_panics_def opCryptCallback_def sendPackets_def)

lemma never_panics_skip_crypt [simp]: "never_panics (skip_crypt w)"
  unfolding never_panics_def
proof
  fix p
  show "no_panic (fst (skip_crypt w p))"
  proof (induction w p rule: skip_crypt.induct)
    case (1 w p)
    obtain r p1 where i: "crypt_callback p = (r, p1)" by fastforce
    have "no_panic r" using never_panicsD [OF never_panics_callback, OF i] .
    then show ?case
      using 1 i by (cases "w = op_crypt_key_callback") (subst skip_crypt.simps; cases r; simp)+
  qed
qed

lemma never_panics_skip_lazy [simp]: "never_panics (skip_lazy w)"
  unfolding never_panics_def
proof
  fix p
  show "no_panic (fst (skip_lazy w p))"
  proof (induction w p rule: skip_lazy.induct)
    case (1 w p)
    obtain r p1 where i: "parse_op_response (p\<lparr>p_lazyResponseCount := p_lazyResponseCount p - 1\<rparr>) = (r, p1)"
      by fastforce
    obtain w' p2 where v: "recv_int_ignore p1 = (Inr w', p2)" using recv_int_ignore_total [of p1] by auto
    have np: "no_panic r" using never_panicsD [OF never_panics_parse_op_response, OF i] .
    show ?case
    proof (cases "w = op_response \<and> p_lazyResponseCount p > 0")
      case True
      then show ?thesis using 1 i v np by (subst skip_lazy.simps) (cases r; simp)
    next
      case False
      then show ?thesis by (subst skip_lazy.simps) (simp only: if_False; simp)
    qed
  qed
qed

lemma never_panics_op_response [simp]: "never_panics op_response_raw"
  unfolding op_response_raw_def
  by (auto intro!: never_panics_bind_all split: sum.split)

subsection \<open>Keep-alives and lazily sent requests\<close>

lemma feed_lazy [simp]: "(feed b p)\<lparr>p_lazyResponseCount := n\<rparr> = feed b (p\<lparr>p_lazyResponseCount := n\<rparr>)"
  by (cases p) (simp add: feed_def del: feed_simps)

lemma lazy_self: "p_lazyResponseCount p = n \<Longrightarrow> p\<lparr>p_lazyResponseCount := n\<rparr> = p"
  by (cases p) simp

definition dummies :: "nat \<Rightarrow> bytes" where
  "dummies k = concat (replicate k (bint32_to_bytes op_dummy))"

lemma skip_dummies:
  "w \<noteq> op_dummy \<Longrightarrow>
   wbind recv_int_ignore skip_dummy (feed (dummies k @ bint32_to_bytes w @ rest) p) = (Inr w, feed rest p)"
proof (induction k)
  case 0
  then show ?case by (simp add: dummies_def wbind_def) (subst skip_dummy.simps; simp)
next
  case (Suc k)
  have "dummies (Suc k) = bint32_to_bytes op_dummy @ dummies k" by (simp add: dummies_def)
  moreover have "skip_dummy op_dummy q = wbind recv_int_ignore skip_dummy q" for q
    by (subst skip_dummy.simps) (simp add: wbind_def split: prod.splits sum.splits)
  ultimately show ?case using Suc by (simp add: wbind_def)
qed

lemma skip_dummies_first:
  "w \<noteq> op_dummy \<Longrightarrow>
   \<exists>w0 r0. recv_int (feed (dummies k @ bint32_to_bytes w @ rest) p) = (Inr w0, feed r0 p) \<and>
     skip_dummy w0 (feed r0 p) = (Inr w, feed rest p)"
proof (cases k)
  case 0
  assume "w \<noteq> op_dummy"
  then show ?thesis using 0
    by (intro exI [of _ w] exI [of _ rest]) (simp add: dummies_def, subst skip_dummy.simps, simp)
next
  case (Suc j)
  assume w: "w \<noteq> op_dummy"
  have "dummies k = bint32_to_bytes op_dummy @ dummies j" by (simp add: dummies_def Suc)
  moreover have "skip_dummy op_dummy q = wbind recv_int_ignore skip_dummy q" for q
    by (subst skip_dummy.simps) (simp add: wbind_def split: prod.splits sum.splits)
  ultimately show ?thesis using skip_dummies [OF w, of j rest p]
    by (intro exI [of _ op_dummy] exI [of _ "dummies j @ bint32_to_bytes w @ rest"]) simp
qed

lemma skip_lazy_frames:
  assumes "list_all response_fits rs" "p_lazyResponseCount p = int (length rs)"
  shows "wbind recv_int_ignore skip_lazy (feed (concat (map response_bytes rs) @ bint32_to_bytes w @ rest) p) =
    (Inr w, feed rest (p\<lparr>p_lazyResponseCount := 0\<rparr>))"
  using assms
proof (induction rs arbitrary: p)
  case Nil
  then show ?case by (simp add: wbind_def lazy_self) (subst skip_lazy.simps; simp)
next
  case (Cons r rs)
  define q where "q = p\<lparr>p_lazyResponseCount := int (length rs)\<rparr>"
  define tl where "tl = concat (map response_bytes rs) @ bint32_to_bytes w @ rest"
  have q: "p\<lparr>p_lazyResponseCount := p_lazyResponseCount p - 1\<rparr> = q" using Cons.prems by (simp add: q_def)
  have "skip_lazy op_response (feed (response_body r @ tl) p) = wbind recv_int_ignore skip_lazy (feed tl q)"
    using Cons.prems parse_op_response_body [of r tl q]
    by (subst skip_lazy.simps) (simp add: q_def wbind_def)
  moreover have "wbind recv_int_ignore skip_lazy (feed tl q) = (Inr w, feed rest (p\<lparr>p_lazyResponseCount := 0\<rparr>))"
    using Cons.IH [of q] Cons.prems by (simp add: tl_def q_def)
  ultimately show ?case by (simp add: response_bytes_def [of r] tl_def wbind_def)
qed

lemma response_bytes_split:
  "concat (map response_bytes rs) @ bint32_to_bytes op_response @ rest =
   bint32_to_bytes op_response @ (case rs of [] \<Rightarrow> rest
     | r # rs' \<Rightarrow> response_body r @ concat (map response_bytes rs') @ bint32_to_bytes op_response @ rest)"
  by (cases rs) (simp_all add: response_bytes_def)

lemma op_response_frames:
  assumes "list_all response_fits rs" "response_fits r" "p_lazyResponseCount p = int (length rs)"
  shows "op_response_raw (feed (dummies k @ concat (map response_bytes rs) @ response_bytes r @ rest) p) =
    (Inr (r_handle r, r_oid r, r_data r, sv_error (p_env p) (vector_meaning (p_env p) (r_status r))),
     feed rest (p\<lparr>p_lazyResponseCount := 0\<rparr>))"
proof -
  let ?tl = "(case rs of [] \<Rightarrow> response_body r @ rest
     | r' # rs' \<Rightarrow> response_body r' @ concat (map response_bytes rs') @ bint32_to_bytes op_response @ response_body r @ rest)"
  have split: "concat (map response_bytes rs) @ response_bytes r @ rest = bint32_to_bytes op_response @ ?tl"
    using response_bytes_split [of rs "response_body r @ rest"] by (simp add: response_bytes_def)
  obtain w0 r0 where d: "recv_int (feed (dummies k @ bint32_to_bytes op_response @ ?tl) p) = (Inr w0, feed r0 p)"
    "skip_dummy w0 (feed r0 p) = (Inr op_response, feed ?tl p)"
    using skip_dummies_first [of op_response k ?tl p] by auto
  have c: "skip_crypt op_response q = (Inr op_response, q)" for q by (subst skip_crypt.simps) simp
  have l: "skip_lazy op_response (feed ?tl p) = (Inr op_response, feed (response_body r @ rest) (p\<lparr>p_lazyResponseCount := 0\<rparr>))"
    using skip_lazy_frames [OF assms(1,3), of op_response "response_body r @ rest"]
    unfolding response_bytes_split [of rs "response_body r @ rest"] by (simp add: wbind_def)
  have b: "parse_op_response (feed (response_body r @ rest) (p\<lparr>p_lazyResponseCount := 0\<rparr>)) =
    (Inr (r_handle r, r_oid r, r_data r, sv_error (p_env p) (vector_meaning (p_env p) (r_status r))),
     feed rest (p\<lparr>p_lazyResponseCount := 0\<rparr>))"
    using parse_op_response_body [OF assms(2), of rest "p\<lparr>p_lazyResponseCount := 0\<rparr>"] by simp
  show ?thesis
    unfolding op_response_raw_def split
    by (simp add: wtry_def d c l b wbind_def)
qed

subsection \<open>What a status vector means\<close>

lemma sv_error_None: "sv_error env v = None \<longleftrightarrow> sv_gdsCodes v = [] \<and> sv_sqlCode v = 0"
  by (simp add: sv_error_def)

definition is_error_clause :: "sv_clause \<Rightarrow> bool" where
  "is_error_clause c \<longleftrightarrow> (case c of ClGds w \<Rightarrow> sint w \<noteq> 0 | _ \<Rightarrow> False)"

definition clause_codes :: "sv_clause list \<Rightarrow> int list" where
  "clause_codes cs = concat (map (\<lambda>c. case c of ClGds w \<Rightarrow> if sint w \<noteq> 0 then [sint w] else [] | _ \<Rightarrow> []) cs)"

definition clause_warnings :: "sv_clause list \<Rightarrow> int list" where
  "clause_warnings cs = concat (map (\<lambda>c. case c of ClWarning w \<Rightarrow> if sint w \<noteq> 0 then [sint w] else [] | _ \<Rightarrow> []) cs)"

text \<open>The parser's variables stay in step: one parameter list for each code, the current one last.\<close>

definition sv_ok :: "sv_vars \<Rightarrow> bool" where
  "sv_ok st \<longleftrightarrow> length (sv_params (sv st)) = length (sv_gdsCodes (sv st)) \<and>
     currentIdx st = int (length (sv_gdsCodes (sv st))) - 1 \<and>
     (sv_gdsCodes (sv st) = [] \<longrightarrow> gds_code st = 0 \<and> sv_sqlCode (sv st) = 0)"

lemma sv_step:
  assumes "sv_ok st"
  shows "sv_ok (clause_meaning env c st)"
    and "sv_gdsCodes (sv (clause_meaning env c st)) = sv_gdsCodes (sv st) @ clause_codes [c]"
    and "sv_warnings (sv (clause_meaning env c st)) = sv_warnings (sv st) @ clause_warnings [c]"
  using assms
  by (cases c; auto simp: sv_ok_def sv_gds_def sv_warning_def sv_number_def sv_argument_def
      append_param_def clause_codes_def clause_warnings_def Let_def)+

lemma sv_fold:
  assumes "sv_ok st"
  shows "let st' = (\<lambda>cs. foldl (\<lambda>st c. clause_meaning env c st) st cs) in
    sv_ok (st' cs) \<and> sv_gdsCodes (sv (st' cs)) = sv_gdsCodes (sv st) @ clause_codes cs \<and>
    sv_warnings (sv (st' cs)) = sv_warnings (sv st) @ clause_warnings cs"
  unfolding Let_def using assms(1)
proof (induction cs arbitrary: st)
  case Nil
  then show ?case by (simp add: clause_codes_def clause_warnings_def)
next
  case (Cons c cs)
  then show ?case
    using sv_step [OF Cons.prems, of env c] by (simp add: clause_codes_def clause_warnings_def)
qed

lemma vector_meaning_codes:
  "sv_gdsCodes (vector_meaning env cs) = clause_codes cs"
  "sv_warnings (vector_meaning env cs) = clause_warnings cs"
  "length (sv_params (vector_meaning env cs)) = length (clause_codes cs)"
  "clause_codes cs = [] \<Longrightarrow> sv_sqlCode (vector_meaning env cs) = 0"
proof -
  have "sv_ok sv_init" by (simp add: sv_ok_def sv_init_def)
  note f = sv_fold [OF this, where env = env and cs = cs, unfolded Let_def]
  show "sv_gdsCodes (vector_meaning env cs) = clause_codes cs"
    "sv_warnings (vector_meaning env cs) = clause_warnings cs"
    "length (sv_params (vector_meaning env cs)) = length (clause_codes cs)"
    "clause_codes cs = [] \<Longrightarrow> sv_sqlCode (vector_meaning env cs) = 0"
    using f by (auto simp: vector_meaning_def sv_ok_def) (auto simp: sv_init_def)
qed

text \<open>An error that is returned as a value is never a panic.\<close>

definition err_ok :: "op_resp wm \<Rightarrow> bool" where
  "err_ok m \<longleftrightarrow> (\<forall>p h oid b e p'. m p = (Inr (h, oid, b, Some e), p') \<longrightarrow> \<not> is_panic e)"

lemma err_ok_bind: "(\<And>x p p'. m p = (Inr x, p') \<Longrightarrow> err_ok (f x)) \<Longrightarrow> err_ok (wbind m f)"
  unfolding err_ok_def wbind_def by (auto split: prod.splits sum.splits)

lemma wtry_error: "wtry m p = (Inr (Inl e), p') \<Longrightarrow> is_panic e \<Longrightarrow> Q"
  by (auto simp: wtry_def split: prod.splits sum.splits if_splits)

lemma err_ok_ret [simp]: "err_ok (wret (h, oid, b, Some e)) = (\<not> is_panic e)"
  "err_ok (wret (h, oid, b, None))"
  by (auto simp: err_ok_def)

lemma err_ok_parse: "err_ok parse_op_response"
proof -
  have fin: "err_ok (\<lambda>p. (Inr (h, oid, b, sv_error (p_env p) v), p))" for h oid b v
    by (auto simp: err_ok_def sv_error_def split: if_splits)
  show ?thesis
    unfolding parse_op_response_def Let_def
    by (auto intro!: err_ok_bind fin split: sum.splits if_splits) (erule (1) wtry_error)+
qed

lemma err_ok_raw: "err_ok op_response_raw"
  unfolding op_response_raw_def
  by (auto intro!: err_ok_bind err_ok_parse split: sum.splits) (erule (1) wtry_error)+

lemma op_response_error_no_panic:
  "op_response_raw p = (Inr (h, oid, b, Some e), p') \<Longrightarrow> \<not> is_panic e"
  using err_ok_raw unfolding err_ok_def by blast

lemma never_panics_opResponse [simp]: "never_panics opResponse"
proof -
  have fp: "no_panic (fst (op_response_raw p))" for p
    using never_panics_op_response by (simp add: never_panics_def)
  show ?thesis unfolding opResponse_def
  proof (rule never_panics_bind, simp, goal_cases)
    case (1 x p p')
    obtain h oid b err where x: "x = (h, oid, b, err)" by (cases x) auto
    have "\<forall>e. err = Some e \<longrightarrow> \<not> is_panic e"
      using op_response_error_no_panic 1 x by blast
    then show ?case by (cases err) (simp_all add: x)
  qed
qed

subsection \<open>Properties\<close>

text \<open>C8: Responses stay in step with requests: with \<open>n\<close> lazily sent requests outstanding, the
  driver discards keep-alives and exactly \<open>n\<close> well-formed responses and returns the handle,
  object id and data of the next one, leaving the bytes after it unread. It reports an error
  exactly when that response carries a non-zero gds code, and the error lists those codes and
  the warnings in order, with one parameter list for each code.\<close>

theorem responses_in_order:
  assumes "list_all response_fits rs" "response_fits r" "p_lazyResponseCount p = int (length rs)"
  shows "\<exists>err. op_response_raw (feed (dummies k @ concat (map response_bytes rs) @ response_bytes r @ rest) p) =
      (Inr (r_handle r, r_oid r, r_data r, err), feed rest (p\<lparr>p_lazyResponseCount := 0\<rparr>)) \<and>
    (err = None \<longleftrightarrow> clause_codes (r_status r) = []) \<and>
    (\<forall>e. err = Some e \<longrightarrow> (\<exists>f. e = Fb f \<and> GDSCodes f = clause_codes (r_status r) \<and>
       Warnings f = clause_warnings (r_status r) \<and> length (Params f) = length (GDSCodes f)))"
  unfolding op_response_frames [OF assms]
  using vector_meaning_codes [where env = "p_env p" and cs = "r_status r"]
  by (auto simp: sv_error_None) (auto simp: sv_error_def split: if_splits)

definition sample_env :: go_env where
  "sample_env = \<lparr> errmsgs = (\<lambda>_. ''Invalid @1''), gdsToSQLState = (\<lambda>_. ''HY000''), gdsToSQLCode = (\<lambda>_. - 999),
     encodeCharset = (\<lambda>s c. None), decodeCharset = (\<lambda>b c. None), env_crypt = (\<lambda>p s. ''9z'' @ p),
     env_chacha = demo_chacha, env_sha1 = (\<lambda>b. replicate 20 (of_nat (length b))),
     env_sha256 = (\<lambda>b. replicate 32 (of_nat (length b))),
     env_sysuser = ''u'', env_hostname = ''h'', env_executable = None, env_pid = 1, env_uid = 0,
     env_client_version = ''firebirdsql-go'', env_zlib = None \<rparr>"

definition sample_wire :: wire_protocol where
  "sample_wire = \<lparr> p_buf = [], p_inbound = [], p_outbound = [], p_wr_ok = (\<lambda>_. True), p_chan = newWireChannel,
     p_env = sample_env, p_dbHandle = 0, p_protocolVersion = 13, p_acceptArchitecture = 1, p_acceptType = 5,
     p_lazyResponseCount = 0, p_pluginName = '''', p_user = '''', p_password = '''', p_authData = None,
     p_charset = ''UTF8'', p_charsetByteLen = 4, p_timezone = '''', p_clientVersion = '''', p_osUser = '''',
     p_hostName = '''', p_cursorFlags = 0, p_maxInlineBlobSize = 65536, p_maxBlobCacheSize = 1000,
     p_inlineBlobCache = None \<rparr>"

definition sample_response :: response where
  "sample_response = \<lparr> r_handle = 3, r_oid = [0, 0, 0, 0, 0, 0, 0, 5], r_data = [1, 2, 3],
     r_status = [ClGds 335544569, ClString [65], ClState [52, 50, 48, 48, 48]] \<rparr>"

theorem responses_in_order_witness:
  "\<exists>err. op_response_raw (feed (dummies 2 @ response_bytes sample_response @ response_bytes sample_response @ [9])
      (sample_wire\<lparr>p_lazyResponseCount := 1\<rparr>)) =
     (Inr (3, [0, 0, 0, 0, 0, 0, 0, 5], [1, 2, 3], err), feed [9] sample_wire) \<and> err \<noteq> None"
proof -
  have "response_fits sample_response" "clause_codes (r_status sample_response) = [335544569]"
    by (simp_all add: response_fits_def sample_response_def clause_codes_def)
  then show ?thesis
    using responses_in_order [of "[sample_response]" sample_response "sample_wire\<lparr>p_lazyResponseCount := 1\<rparr>" 2 "[9]"]
    by (auto simp: sample_response_def sample_wire_def)
qed

text \<open>C9: Whatever bytes a server sends, in whatever state the connection is, reading a response
  ends without a panic: it returns a response or an error.\<close>

theorem response_never_panics:
  "no_panic (fst (op_response_raw p)) \<and> no_panic (fst (opResponse p))"
  using never_panics_op_response never_panics_opResponse by (simp add: never_panics_def)

end
