(* ===== verification/Wire_Requests.thy ===== *)
theory Wire_Requests
  imports Wire_Response
begin

text \<open>
  The requests of \<open>wireprotocol.go\<close>: every \<open>op...\<close> method packs integers, counted byte strings
  and raw 8-byte ids in order and sends the buffer. A packet is a list of fields, packed by
  \<open>packInt\<close>, \<open>packBytes\<close> and \<open>appendBytes\<close>; the parameter buffers (DPB) of attach and create
  and the user identification block of connect are built item by item.
\<close>

datatype field = FInt int32 | FBytes bytes | FRaw bytes

primrec pack_field :: "field \<Rightarrow> wire_protocol \<Rightarrow> wire_protocol" where
  "pack_field (FInt i) = packInt i"
| "pack_field (FBytes b) = packBytes b"
| "pack_field (FRaw b) = appendBytes b"

definition pack_fields :: "field list \<Rightarrow> wire_protocol \<Rightarrow> wire_protocol" where
  "pack_fields fs p = fold pack_field fs p"

definition send_fields :: "field list \<Rightarrow> unit wm" where
  "send_fields fs p = sendPackets (pack_fields fs p)"

definition FString :: "string \<Rightarrow> wire_protocol \<Rightarrow> field" where
  "FString s p = FBytes (str_to_bytes (encodeString s p))"

subsection \<open>Requests\<close>

definition opContAuth :: "bytes \<Rightarrow> string \<Rightarrow> string \<Rightarrow> string \<Rightarrow> unit wm" where
  "opContAuth authData authPluginName authPluginList keys p = send_fields
     [FInt op_cont_auth, FString (hex_encode authData) p, FString authPluginName p,
      FString authPluginList p, FString keys p] p"

definition opCrypt :: "string \<Rightarrow> unit wm" where
  "opCrypt plugin p = send_fields [FInt op_crypt, FString plugin p, FString ''Symmetric'' p] p"

definition opDropDatabase :: "unit wm" where
  "opDropDatabase p = send_fields [FInt op_drop_database, FInt (p_dbHandle p)] p"

definition opTransaction :: "bytes \<Rightarrow> unit wm" where
  "opTransaction tpb p = send_fields [FInt op_transaction, FInt (p_dbHandle p), FBytes tpb] p"

definition opCommit :: "int32 \<Rightarrow> unit wm" where
  "opCommit transHandle = send_fields [FInt op_commit, FInt transHandle]"

definition opCommitRetaining :: "int32 \<Rightarrow> unit wm" where
  "opCommitRetaining transHandle = send_fields [FInt op_commit_retaining, FInt transHandle]"

definition opRollback :: "int32 \<Rightarrow> unit wm" where
  "opRollback transHandle = send_fields [FInt op_rollback, FInt transHandle]"

definition opRollbackRetaining :: "int32 \<Rightarrow> unit wm" where
  "opRollbackRetaining transHandle = send_fields [FInt op_rollback_retaining, FInt transHandle]"

definition opAllocateStatement :: "unit wm" where
  "opAllocateStatement p = send_fields [FInt op_allocate_statement, FInt (p_dbHandle p)] p"

definition opInfoTransaction :: "int32 \<Rightarrow> bytes \<Rightarrow> unit wm" where
  "opInfoTransaction transHandle b = send_fields
     [FInt op_info_transaction, FInt transHandle, FInt 0, FBytes b, FInt BUFFER_LEN]"

definition opInfoDatabase :: "bytes \<Rightarrow> unit wm" where
  "opInfoDatabase bs p = send_fields
     [FInt op_info_database, FInt (p_dbHandle p), FInt 0, FBytes bs, FInt BUFFER_LEN] p"

definition opFreeStatement :: "int32 \<Rightarrow> int32 \<Rightarrow> unit wm" where
  "opFreeStatement stmtHandle mode = send_fields [FInt op_free_statement, FInt stmtHandle, FInt mode]"

definition INFO_SQL_SELECT_DESCRIBE_VARS :: bytes where
  "INFO_SQL_SELECT_DESCRIBE_VARS =
     [isc_info_sql_select, isc_info_sql_describe_vars, isc_info_sql_sqlda_seq, isc_info_sql_type,
      isc_info_sql_sub_type, isc_info_sql_scale, isc_info_sql_length, isc_info_sql_null_ind,
      isc_info_sql_field, isc_info_sql_relation, isc_info_sql_owner, isc_info_sql_alias,
      isc_info_sql_describe_end]"

definition INFO_SQL_BIND_DESCRIBE_VARS :: bytes where
  "INFO_SQL_BIND_DESCRIBE_VARS =
     [isc_info_sql_bind, isc_info_sql_describe_vars, isc_info_sql_sqlda_seq, isc_info_sql_type,
      isc_info_sql_sub_type, isc_info_sql_scale, isc_info_sql_length, isc_info_sql_null_ind,
      isc_info_sql_field, isc_info_sql_relation, isc_info_sql_owner, isc_info_sql_alias,
      isc_info_sql_describe_end]"

definition opPrepareStatement :: "int32 \<Rightarrow> int32 \<Rightarrow> string \<Rightarrow> unit wm" where
  "opPrepareStatement stmtHandle transHandle query p =
     (let bs = [isc_info_sql_stmt_type] @ INFO_SQL_SELECT_DESCRIBE_VARS
      in send_fields [FInt op_prepare_statement, FInt transHandle, FInt stmtHandle, FInt 3,
           FString query p, FBytes bs, FInt BUFFER_LEN] p)"

definition opInfoSql :: "int32 \<Rightarrow> bytes \<Rightarrow> unit wm" where
  "opInfoSql stmtHandle vars = send_fields
     [FInt op_info_sql, FInt stmtHandle, FInt 0, FBytes vars, FInt BUFFER_LEN]"

definition opFetch :: "int32 \<Rightarrow> bytes \<Rightarrow> unit wm" where
  "opFetch stmtHandle blr = send_fields
     [FInt op_fetch, FInt stmtHandle, FBytes blr, FInt 0, FInt fetchRowBatchSize]"

definition opFetchScroll :: "int32 \<Rightarrow> bytes \<Rightarrow> int32 \<Rightarrow> int32 \<Rightarrow> int32 \<Rightarrow> unit wm" where
  "opFetchScroll stmtHandle blr orientation offset count = send_fields
     [FInt op_fetch_scroll, FInt stmtHandle, FBytes blr, FInt 0, FInt count, FInt orientation, FInt offset]"

definition opDetach :: "unit wm" where
  "opDetach p = send_fields [FInt op_detach, FInt (p_dbHandle p)] p"

definition opOpenBlob :: "bytes \<Rightarrow> int32 \<Rightarrow> unit wm" where
  "opOpenBlob blobId transHandle = send_fields [FInt op_open_blob, FInt transHandle, FRaw blobId]"

definition opOpenBlob2 :: "bytes \<Rightarrow> int32 \<Rightarrow> unit wm" where
  "opOpenBlob2 blobId transHandle = send_fields
     [FInt op_open_blob2, FInt 0, FInt transHandle, FRaw blobId]"

definition opCreateBlob2 :: "int32 \<Rightarrow> unit wm" where
  "opCreateBlob2 transHandle = send_fields
     [FInt op_create_blob2, FInt 0, FInt transHandle, FInt 0, FInt 0]"

definition opGetSegment :: "int32 \<Rightarrow> unit wm" where
  "opGetSegment blobHandle = send_fields
     [FInt op_get_segment, FInt blobHandle, FInt BLOB_SEGMENT_SIZE, FInt 0]"

definition opPutSegment :: "int32 \<Rightarrow> bytes \<Rightarrow> unit wm" where
  "opPutSegment blobHandle seg_data =
     (let ln = int (length seg_data)
      in send_fields [FInt op_put_segment, FInt blobHandle, FInt (word_of_int ln), FInt (word_of_int ln),
           FRaw seg_data, FRaw (replicate (nat ((4 - ln) AND 3)) 0)])"

definition opCloseBlob :: "int32 \<Rightarrow> unit wm" where
  "opCloseBlob blobHandle = send_fields [FInt op_close_blob, FInt blobHandle]"

definition opConnectRequest :: "unit wm" where
  "opConnectRequest p = send_fields
     [FInt op_connect_request, FInt p_req_async, FInt (p_dbHandle p), FInt partner_identification] p"

definition opQueEvents :: "int32 \<Rightarrow> bytes \<Rightarrow> int32 \<Rightarrow> unit wm" where
  "opQueEvents auxHandle epb eventId = send_fields
     [FInt op_que_events, FInt auxHandle, FBytes epb, FInt address_of_ast_routine,
      FInt argument_to_ast_routine, FInt eventId]"

definition opCancelEvents :: "int32 \<Rightarrow> unit wm" where
  "opCancelEvents eventID p = send_fields [FInt op_cancel_events, FInt (p_dbHandle p), FInt eventID] p"

definition opCancel :: "int \<Rightarrow> unit wm" where
  "opCancel kind = send_fields [FInt op_cancel, FInt (word_of_int kind)]"

definition opServiceDetach :: "unit wm" where
  "opServiceDetach p = send_fields [FInt op_service_detach, FInt (p_dbHandle p)] p"

definition opServiceInfo :: "bytes \<Rightarrow> bytes \<Rightarrow> int32 \<Rightarrow> unit wm" where
  "opServiceInfo spb srb bufferLength p =
     (let bufferLength = (if sint bufferLength \<le> 0 then BUFFER_LEN else bufferLength)
      in send_fields [FInt op_service_info, FInt (p_dbHandle p), FInt 0, FBytes spb, FBytes srb,
           FInt bufferLength] p)"

definition opServiceStart :: "bytes \<Rightarrow> unit wm" where
  "opServiceStart spb p = send_fields [FInt op_service_start, FInt (p_dbHandle p), FInt 0, FBytes spb] p"

subsection \<open>Parameter buffers\<close>

text \<open>An item of a DPB: its tag, its length in one byte (\<open>byte(len(v))\<close>), its value.\<close>

definition dpb_item :: "byte \<Rightarrow> bytes \<Rightarrow> bytes" where
  "dpb_item tag v = [tag, of_nat (length v)] @ v"

definition dpb_int :: "byte \<Rightarrow> bytes \<Rightarrow> bytes" where
  "dpb_int tag v = [tag, 4] @ v"

definition appendAuthAndTimezone :: "bytes \<Rightarrow> wire_protocol \<Rightarrow> bytes" where
  "appendAuthAndTimezone dpb p =
     (let dpb = (case p_authData p of None \<Rightarrow> dpb
                 | Some d \<Rightarrow> dpb @ dpb_item isc_dpb_specific_auth_data (str_to_bytes (hex_encode d)))
      in if p_timezone p \<noteq> '''' then dpb @ dpb_item isc_dpb_session_time_zone (str_to_bytes (p_timezone p))
         else dpb)"

definition appendInlineBlobDPB :: "bytes \<Rightarrow> wire_protocol \<Rightarrow> bytes" where
  "appendInlineBlobDPB dpb p =
     (if p_protocolVersion p < PROTOCOL_VERSION19 then dpb
      else concat [dpb, dpb_int isc_dpb_max_inline_blob_size (int32_to_bytes (p_maxInlineBlobSize p)),
             dpb_int isc_dpb_max_blob_cache_size (int32_to_bytes (p_maxBlobCacheSize p))])"

definition appendExecuteTrailers :: "wire_protocol \<Rightarrow> wire_protocol" where
  "appendExecuteTrailers p =
     (let p = (if p_protocolVersion p \<ge> PROTOCOL_VERSION16 then appendBytes (bint32_to_bytes 0) p else p);
          p = (if p_protocolVersion p \<ge> PROTOCOL_VERSION18 then appendBytes (bint32_to_bytes (p_cursorFlags p)) p else p)
      in if p_protocolVersion p \<ge> PROTOCOL_VERSION19 then appendBytes (bint32_to_bytes (p_maxInlineBlobSize p)) p else p)"

definition appendClientInfoDPB :: "bytes \<Rightarrow> wire_protocol \<Rightarrow> bytes" where
  "appendClientInfoDPB dpb p =
     foldl (\<lambda>dpb (tag, v). if v = '''' \<or> length v > 255 then dpb else dpb @ dpb_item tag (str_to_bytes v)) dpb
       [(isc_dpb_client_version, p_clientVersion p), (isc_dpb_os_user, p_osUser p), (isc_dpb_host_name, p_hostName p)]"

definition create_dpb :: "string \<Rightarrow> string \<Rightarrow> string \<Rightarrow> wire_protocol \<Rightarrow> bytes" where
  "create_dpb user password role p =
     (let encode = str_to_bytes (p_charset p)
      in concat [[isc_dpb_version1],
           dpb_item isc_dpb_set_db_charset encode,
           dpb_item isc_dpb_lc_ctype encode,
           dpb_item isc_dpb_user_name (str_to_bytes (ToUpper user)),
           dpb_item isc_dpb_password (str_to_bytes password),
           dpb_item isc_dpb_sql_role_name (str_to_bytes role),
           dpb_int isc_dpb_sql_dialect (int32_to_bytes 3),
           dpb_int isc_dpb_force_write (bint32_to_bytes 1),
           dpb_int isc_dpb_overwrite (bint32_to_bytes 1),
           dpb_int isc_dpb_page_size (int32_to_bytes 4096),
           [isc_dpb_utf8_filename, 1, 1]])"

definition opCreate :: "string \<Rightarrow> string \<Rightarrow> string \<Rightarrow> string \<Rightarrow> unit wm" where
  "opCreate dbName user password role p =
     (let dpb = create_dpb user password role p;
          dpb = appendAuthAndTimezone dpb p;
          dpb = appendInlineBlobDPB dpb p
      in send_fields [FInt op_create, FInt 0, FString dbName p, FBytes dpb] p)"

text \<open>\<open>opAttach\<close> fills in the client identification of the connection before it packs.\<close>

definition resolve_client_info :: "wire_protocol \<Rightarrow> wire_protocol" where
  "resolve_client_info p =
     (let p = (if p_clientVersion p = '''' then p\<lparr>p_clientVersion := env_client_version (p_env p)\<rparr> else p);
          p = (if p_osUser p = '''' \<and> env_uid (p_env p) \<ge> 0 then p\<lparr>p_osUser := itoa (env_uid (p_env p))\<rparr> else p)
      in if p_hostName p = '''' then p\<lparr>p_hostName := env_hostname (p_env p)\<rparr> else p)"

definition process_name :: "go_env \<Rightarrow> string" where
  "process_name env =
     (case env_executable env of None \<Rightarrow> ''''
      | Some s \<Rightarrow> if length s > 255 then drop (length s - 255) s else s)"

definition attach_items :: "string \<Rightarrow> string \<Rightarrow> string \<Rightarrow> wire_protocol \<Rightarrow> bytes" where
  "attach_items user password role p =
     (let encode = str_to_bytes (p_charset p)
      in concat [[isc_dpb_version1],
           dpb_int isc_dpb_sql_dialect (int32_to_bytes 3),
           dpb_item isc_dpb_lc_ctype encode,
           dpb_item isc_dpb_user_name (str_to_bytes (ToUpper user)),
           dpb_item isc_dpb_password (str_to_bytes password),
           dpb_item isc_dpb_sql_role_name (str_to_bytes role),
           dpb_int isc_dpb_process_id (int32_to_bytes (env_pid (p_env p))),
           dpb_item isc_dpb_process_name (str_to_bytes (process_name (p_env p))),
           [isc_dpb_utf8_filename, 1, 1]])"

definition attach_dpb :: "string \<Rightarrow> string \<Rightarrow> string \<Rightarrow> wire_protocol \<Rightarrow> bytes" where
  "attach_dpb user password role p =
     (let dpb = attach_items user password role p;
          dpb = appendClientInfoDPB dpb p;
          dpb = appendAuthAndTimezone dpb p
      in appendInlineBlobDPB dpb p)"

definition opAttach :: "string \<Rightarrow> string \<Rightarrow> string \<Rightarrow> string \<Rightarrow> unit wm" where
  "opAttach dbName user password role p =
     (let p = resolve_client_info p;
          dpb = attach_dpb user password role p
      in send_fields [FInt op_attach, FInt 0, FString dbName p, FBytes dpb] p)"

definition opServiceAttach :: "unit wm" where
  "opServiceAttach p =
     (let spb = concat [[isc_spb_version, isc_spb_current_version],
            dpb_item isc_spb_user_name (str_to_bytes (p_user p)),
            dpb_item isc_spb_password (str_to_bytes (p_password p)),
            [isc_spb_utf8_filename, 1, 1]];
          spb = (case p_authData p of None \<Rightarrow> spb
            | Some d \<Rightarrow> spb @ dpb_item isc_dpb_specific_auth_data (str_to_bytes (hex_encode d)))
      in send_fields [FInt op_service_attach, FInt 0, FString ''service_mgr'' p, FBytes spb] p)"

subsection \<open>Packets as a server reads them\<close>

primrec field_bytes :: "field \<Rightarrow> bytes" where
  "field_bytes (FInt i) = bint32_to_bytes i"
| "field_bytes (FBytes b) = xdrBytes b"
| "field_bytes (FRaw b) = b"

lemma packInt_bytes: "packInt i p = appendBytes (bint32_to_bytes i) p"
proof -
  have "[ucast (signed_drop_bit 24 i AND 0xFF), ucast (signed_drop_bit 16 i AND 0xFF),
      ucast (signed_drop_bit 8 i AND 0xFF), ucast (i AND 0xFF)] = bint32_to_bytes i"
    by (simp add: bint32_to_bytes_def byte_at_def)
  then show ?thesis by (simp add: packInt_def appendBytes_def)
qed

lemma appendBytes_append: "appendBytes c (appendBytes b p) = appendBytes (b @ c) p"
  by (simp add: appendBytes_def)

lemma appendBytes_Nil: "appendBytes [] p = p"
  by (simp add: appendBytes_def)

lemma pack_fields_bytes: "pack_fields fs p = appendBytes (concat (map field_bytes fs)) p"
proof -
  have 1: "pack_field f p = appendBytes (field_bytes f) p" for f p
    by (cases f) (simp_all add: packInt_bytes packBytes_def appendBytes_def)
  have "fold pack_field fs p = appendBytes (concat (map field_bytes fs)) p"
    by (induction fs arbitrary: p) (simp_all add: 1 appendBytes_append appendBytes_Nil)
  then show ?thesis by (simp add: pack_fields_def)
qed

lemma send_fields_eq:
  assumes "p_wr_ok p (length (p_outbound p))" "fs \<noteq> []" "field_bytes (hd fs) \<noteq> []"
  shows "send_fields fs p = (Inr (), p\<lparr>p_buf := [],
     p_outbound := p_outbound p @ [p_buf p @ concat (map field_bytes fs)]\<rparr>)"
  using assms by (cases fs) (auto simp: send_fields_def pack_fields_bytes sendPackets_def appendBytes_def)

datatype field_shape = ShInt | ShBytes | ShRaw nat

primrec shape_of_field :: "field \<Rightarrow> field_shape" where
  "shape_of_field (FInt i) = ShInt"
| "shape_of_field (FBytes b) = ShBytes"
| "shape_of_field (FRaw b) = ShRaw (length b)"

primrec recv_field :: "field_shape \<Rightarrow> field wm" where
  "recv_field ShInt = wbind recv_int (\<lambda>i. wret (FInt i))"
| "recv_field ShBytes = wbind recv_int (\<lambda>n. wbind (recvPacketsAlignment (sint n)) (\<lambda>b. wret (FBytes b)))"
| "recv_field (ShRaw n) = wbind (recvPackets (int n)) (\<lambda>b. wret (FRaw b))"

primrec recv_fields :: "field_shape list \<Rightarrow> field list wm" where
  "recv_fields [] = wret []"
| "recv_fields (s # ss) = wbind (recv_field s) (\<lambda>f. wbind (recv_fields ss) (\<lambda>fs. wret (f # fs)))"

primrec field_fits :: "field \<Rightarrow> bool" where
  "field_fits (FInt i) = True"
| "field_fits (FBytes b) = (length b < 2 ^ 31)"
| "field_fits (FRaw b) = True"

lemma recv_field_enc:
  "field_fits f \<Longrightarrow> recv_field (shape_of_field f) (feed (field_bytes f @ rest) p) = (Inr f, feed rest p)"
proof (cases f)
  case (FBytes b)
  assume "field_fits f"
  then have l: "length b < 2 ^ 31" by (simp add: FBytes)
  show ?thesis
    unfolding FBytes field_bytes.simps xdrBytes_counted [OF l]
    by (simp add: wbind_def sint_length32 [OF l] del: of_int_of_nat_eq)
qed (simp_all add: wbind_def)

lemma recv_fields_enc:
  "list_all field_fits fs \<Longrightarrow>
   recv_fields (map shape_of_field fs) (feed (concat (map field_bytes fs) @ rest) p) = (Inr fs, feed rest p)"
  by (induction fs arbitrary: p) (simp_all add: wbind_def recv_field_enc)

text \<open>A DPB: a version byte, then items of a tag, a one-byte length and the value.\<close>

function parse_items :: "bytes \<Rightarrow> (byte \<times> bytes) list option" where
  "parse_items [] = Some []"
| "parse_items [t] = None"
| "parse_items (t # l # rest) =
     (if unat l > length rest then None
      else map_option (Cons (t, take (unat l) rest)) (parse_items (drop (unat l) rest)))"
  by pat_completeness auto
termination by (relation "measure length") auto

lemma unat_of_nat_byte_small: "n < 256 \<Longrightarrow> unat (of_nat n :: byte) = n"
  by (simp add: unat_of_nat take_bit_eq_mod)

lemma parse_items_item:
  "length v \<le> 255 \<Longrightarrow> parse_items (dpb_item t v @ rest) = map_option (Cons (t, v)) (parse_items rest)"
  by (simp add: dpb_item_def unat_of_nat_byte_small)

lemma dpb_int_item: "length v = 4 \<Longrightarrow> dpb_int t v = dpb_item t v"
  by (simp add: dpb_int_def dpb_item_def)

definition items_bytes :: "(byte \<times> bytes) list \<Rightarrow> bytes" where
  "items_bytes its = concat (map (\<lambda>(t, v). dpb_item t v) its)"

lemma items_bytes_append: "items_bytes (xs @ ys) = items_bytes xs @ items_bytes ys"
  by (simp add: items_bytes_def)

lemma items_bytes_one: "items_bytes [(t, v)] = dpb_item t v"
  by (simp add: items_bytes_def)

lemma parse_items_bytes:
  "\<forall>(t, v) \<in> set its. length v \<le> 255 \<Longrightarrow> parse_items (items_bytes its @ rest) = map_option ((@) its) (parse_items rest)"
proof (induction its)
  case Nil
  show ?case by (cases "parse_items rest") (simp_all add: items_bytes_def)
next
  case (Cons it its)
  then show ?case by (cases it; cases "parse_items rest") (simp_all add: items_bytes_def parse_items_item)
qed

text \<open>What the attach request is meant to say.\<close>

definition attach_intent :: "string \<Rightarrow> string \<Rightarrow> string \<Rightarrow> wire_protocol \<Rightarrow> (byte \<times> bytes) list" where
  "attach_intent user password role p =
     [(isc_dpb_sql_dialect, int32_to_bytes 3),
      (isc_dpb_lc_ctype, str_to_bytes (p_charset p)),
      (isc_dpb_user_name, str_to_bytes (ToUpper user)),
      (isc_dpb_password, str_to_bytes password),
      (isc_dpb_sql_role_name, str_to_bytes role),
      (isc_dpb_process_id, int32_to_bytes (env_pid (p_env p))),
      (isc_dpb_process_name, str_to_bytes (process_name (p_env p))),
      (isc_dpb_utf8_filename, [1])]
     @ map (\<lambda>(t, v). (t, str_to_bytes v)) (filter (\<lambda>(t, v). v \<noteq> '''' \<and> length v \<le> 255)
         [(isc_dpb_client_version, p_clientVersion p), (isc_dpb_os_user, p_osUser p), (isc_dpb_host_name, p_hostName p)])
     @ (case p_authData p of None \<Rightarrow> [] | Some d \<Rightarrow> [(isc_dpb_specific_auth_data, str_to_bytes (hex_encode d))])
     @ (if p_timezone p \<noteq> '''' then [(isc_dpb_session_time_zone, str_to_bytes (p_timezone p))] else [])
     @ (if p_protocolVersion p < PROTOCOL_VERSION19 then []
        else [(isc_dpb_max_inline_blob_size, int32_to_bytes (p_maxInlineBlobSize p)),
              (isc_dpb_max_blob_cache_size, int32_to_bytes (p_maxBlobCacheSize p))])"

lemma attach_dpb_intent: "attach_dpb user password role p = isc_dpb_version1 # items_bytes (attach_intent user password role p)"
  unfolding attach_dpb_def attach_items_def attach_intent_def appendClientInfoDPB_def
    appendAuthAndTimezone_def appendInlineBlobDPB_def items_bytes_def Let_def
  by (simp add: dpb_int_def dpb_item_def int32_codec.enc_length split: option.split)

lemma process_name_255: "length (process_name env) \<le> 255"
  by (auto simp: process_name_def split: option.split)

definition attach_fits :: "string \<Rightarrow> string \<Rightarrow> string \<Rightarrow> wire_protocol \<Rightarrow> bool" where
  "attach_fits user password role p \<longleftrightarrow> length (p_charset p) \<le> 255 \<and> length user \<le> 255 \<and>
     length password \<le> 255 \<and> length role \<le> 255 \<and> length (p_timezone p) \<le> 255 \<and>
     (case p_authData p of None \<Rightarrow> True | Some d \<Rightarrow> length d \<le> 127)"

lemma attach_intent_fits:
  "attach_fits user password role p \<Longrightarrow> \<forall>(t, v) \<in> set (attach_intent user password role p). length v \<le> 255"
  by (auto simp: attach_intent_def attach_fits_def ToUpper_def length_hex_encode process_name_255
      int32_codec.enc_length split: option.splits if_splits)

subsection \<open>Properties\<close>

text \<open>A request reaches the server as it was meant: the packet that leaves is the pending
  bytes followed by the fields in order, and a server reading fields of the same kinds gets
  exactly these fields and stops at the packet's end.\<close>

theorem request_packet_roundtrip:
  assumes "p_wr_ok p (length (p_outbound p))" "list_all field_fits (FInt op # fs)"
  shows "\<exists>pkt. send_fields (FInt op # fs) p = (Inr (), p\<lparr>p_buf := [], p_outbound := p_outbound p @ [p_buf p @ pkt]\<rparr>) \<and>
    recv_fields (map shape_of_field (FInt op # fs)) (feed (pkt @ rest) q) = (Inr (FInt op # fs), feed rest q)"
proof -
  have "field_bytes (FInt op) \<noteq> []"
    using bint32_codec.enc_length [of op] by auto
  then have "send_fields (FInt op # fs) p = (Inr (), p\<lparr>p_buf := [],
     p_outbound := p_outbound p @ [p_buf p @ concat (map field_bytes (FInt op # fs))]\<rparr>)"
    using assms(1) by (intro send_fields_eq) simp_all
  then show ?thesis using recv_fields_enc [OF assms(2)] by blast
qed

theorem request_packet_roundtrip_witness:
  "\<exists>pkt. opTransaction [3, 9, 15] sample_wire = (Inr (), sample_wire\<lparr>p_outbound := [pkt]\<rparr>) \<and>
    recv_fields [ShInt, ShInt, ShBytes] (feed (pkt @ [1]) sample_wire) =
      (Inr [FInt op_transaction, FInt 0, FBytes [3, 9, 15]], feed [1] sample_wire)"
  using request_packet_roundtrip [of sample_wire op_transaction "[FInt 0, FBytes [3, 9, 15]]" "[1]" sample_wire]
  by (simp add: opTransaction_def sample_wire_def)

text \<open>The attach parameter buffer says what the caller asked for: when no value is longer than
  255 bytes, the server reads rear exactly the intended items, among them the user name in upper
  case, the password, the role, the client identification and the inline blob limits for
  protocol 19.\<close>

theorem attach_dpb_roundtrip:
  assumes "attach_fits user password role p"
  shows "\<exists>items. attach_dpb user password role p = isc_dpb_version1 # items \<and>
    parse_items items = Some (attach_intent user password role p)"
  using parse_items_bytes [OF attach_intent_fits [OF assms], of "[]"] by (simp add: attach_dpb_intent)

theorem attach_dpb_roundtrip_witness:
  "\<exists>items. attach_dpb ''sysdba'' ''masterkey'' '''' sample_wire = isc_dpb_version1 # items \<and>
    parse_items items = Some (attach_intent ''sysdba'' ''masterkey'' '''' sample_wire)"
  using attach_dpb_roundtrip [of "''sysdba''" "''masterkey''" "''''" sample_wire]
  by (simp add: attach_fits_def sample_wire_def)

text \<open>A longer value escapes its item: the length byte is the length modulo 256, so of a
  password of 256 bytes or more the server reads only the first part as the password and the
  rest as further parameter items.\<close>

theorem long_password_injects_items:
  assumes "length pre < 256" "length ins = 256" "length (p_charset p) \<le> 255" "length user \<le> 255"
    and "parse_items (str_to_bytes ins) = Some its"
  shows "\<exists>items front rear. attach_dpb user (pre @ ins) role p = isc_dpb_version1 # items \<and>
    parse_items items = map_option (\<lambda>more. front @ [(isc_dpb_password, str_to_bytes pre)] @ its @ more) (parse_items rear)"
proof -
  have app: "parse_items (a @ b) = map_option ((@) xs) (parse_items b)" if "parse_items a = Some xs" for a b xs
    using that
  proof (induction a arbitrary: xs rule: parse_items.induct)
    case 1
    then show ?case by (cases "parse_items b") simp_all
  next
    case (3 t l rest)
    then show ?case by (cases "parse_items b") (auto split: if_splits)
  qed simp
  have insd: "dpb_item isc_dpb_password (str_to_bytes (pre @ ins)) = dpb_item isc_dpb_password (str_to_bytes pre) @ str_to_bytes ins"
    using assms(2) by (simp add: dpb_item_def str_to_bytes_def)
  define front :: "(byte \<times> bytes) list" where "front = [(isc_dpb_sql_dialect, int32_to_bytes 3), (isc_dpb_lc_ctype, str_to_bytes (p_charset p)),
      (isc_dpb_user_name, str_to_bytes (ToUpper user))]"
  define R where "R = drop 4 (attach_intent user (pre @ ins) role p)"
  define rear where "rear = items_bytes R"
  have "attach_intent user (pre @ ins) role p = front @ [(isc_dpb_password, str_to_bytes (pre @ ins))] @ R"
    by (simp add: attach_intent_def front_def R_def)
  then have "items_bytes (attach_intent user (pre @ ins) role p) =
      items_bytes (front @ [(isc_dpb_password, str_to_bytes pre)]) @ str_to_bytes ins @ rear"
    using insd items_bytes_append [of "[(isc_dpb_password, str_to_bytes (pre @ ins))]" R]
    by (simp add: rear_def items_bytes_append items_bytes_one)
  then have dpb: "attach_dpb user (pre @ ins) role p =
      isc_dpb_version1 # items_bytes (front @ [(isc_dpb_password, str_to_bytes pre)]) @ str_to_bytes ins @ rear"
    by (simp only: attach_dpb_intent)
  have fr: "\<forall>(t, v) \<in> set (front @ [(isc_dpb_password, str_to_bytes pre)]). length v \<le> 255"
    using assms by (auto simp: front_def ToUpper_def int32_codec.enc_length)
  have "parse_items (items_bytes (front @ [(isc_dpb_password, str_to_bytes pre)]) @ str_to_bytes ins @ rear) =
      map_option (\<lambda>more. front @ [(isc_dpb_password, str_to_bytes pre)] @ its @ more) (parse_items rear)"
    unfolding parse_items_bytes [OF fr] app [OF assms(5)] by (cases "parse_items rear") simp_all
  then show ?thesis using dpb by blast
qed

definition injected_role :: string where
  "injected_role = bytes_to_str ([isc_dpb_sql_role_name, 254] @ replicate 254 65)"

theorem long_password_injects_items_witness:
  "\<exists>items front rear. attach_dpb ''u'' (''pw'' @ injected_role) '''' sample_wire = isc_dpb_version1 # items \<and>
    parse_items items = map_option (\<lambda>more. front @ [(isc_dpb_password, str_to_bytes ''pw'')] @
      [(isc_dpb_sql_role_name, replicate 254 65)] @ more) (parse_items rear)"
  by (rule long_password_injects_items)
    (simp_all add: injected_role_def sample_wire_def)

end
