(* ===== verification/Wire_Relation.thy ===== *)
theory Wire_Relation
  imports Wire_Requests
begin

text \<open>
  What holds between the connection before an operation and after it. A relation that is reflexive
  and transitive and allows consuming input, taking a response off the lazy counter, packing and
  sending is respected by every request and by the response reader; it is instantiated with
  \<open>the cipher state is unchanged\<close> and with \<open>the unread input does not grow\<close>.
\<close>

lemma wbind_InrE:
  assumes "wbind m f p = (Inr y, q)"
  obtains x p1 where "m p = (Inr x, p1)" "f x p1 = (Inr y, q)"
  using assms unfolding wbind_def by (auto split: prod.splits sum.splits)

locale wire_relation =
  fixes R :: "wire_protocol \<Rightarrow> wire_protocol \<Rightarrow> bool"
  assumes stay: "R p p"
    and trans: "R p q \<Longrightarrow> R q r \<Longrightarrow> R p r"
    and consume: "R p (p\<lparr>p_inbound := drop k (p_inbound p)\<rparr>)"
    and lazy: "R p (p\<lparr>p_lazyResponseCount := n\<rparr>)"
    and sends: "R p (p\<lparr>p_buf := b, p_outbound := out\<rparr>)"
begin

definition keeps :: "'a wm \<Rightarrow> bool" where
  "keeps m \<longleftrightarrow> (\<forall>p. R p (snd (m p)))"

lemma keepsD: "keeps m \<Longrightarrow> m p = (r, p') \<Longrightarrow> R p p'"
  unfolding keeps_def by (metis snd_conv)

lemma keeps_bind: "keeps m \<Longrightarrow> (\<And>x. keeps (f x)) \<Longrightarrow> keeps (wbind m f)"
  unfolding keeps_def wbind_def by (auto split: prod.splits sum.splits) (metis snd_conv trans)+

lemma keeps_reads: "reads m \<Longrightarrow> keeps m"
  unfolding keeps_def reads_def by (metis consume)

lemma keeps_basic [simp]: "keeps (wret x)" "keeps (werr e)" "keeps (wlift r)"
  by (simp_all add: keeps_def stay)

lemma keeps_try [simp]: "keeps m \<Longrightarrow> keeps (wtry m)"
  unfolding keeps_def wtry_def by (auto split: prod.splits sum.splits) (metis snd_conv)+

lemma keeps_upd: "(\<And>p. R p (f p)) \<Longrightarrow> keeps (wupd f)"
  by (simp add: keeps_def wupd_def)

lemma packed: "R p (appendBytes b p)"
  using sends [where p = p and b = "p_buf p @ b" and out = "p_outbound p"] by (simp add: appendBytes_def)

lemma keeps_sendPackets [simp]: "keeps sendPackets"
proof -
  have "R p (p\<lparr>p_buf := []\<rparr>)" "R p (p\<lparr>p_buf := [], p_outbound := x\<rparr>)" for p x
    using sends [where p = p and b = "[]" and out = "p_outbound p"] sends [where p = p and b = "[]" and out = x] by simp_all
  then show ?thesis unfolding keeps_def sendPackets_def by (simp add: stay)
qed

lemma keeps_send_fields [simp]: "keeps (send_fields fs)"
proof -
  have "R p (snd (sendPackets (pack_fields fs p)))" for p
    using keeps_sendPackets packed [of p] unfolding keeps_def pack_fields_bytes by (meson trans)
  then show ?thesis by (simp add: keeps_def send_fields_def)
qed

lemma keeps_with_state: "(\<And>q. keeps (m q)) \<Longrightarrow> keeps (\<lambda>p. m p p)"
  by (simp add: keeps_def)

lemma keeps_skip_dummy [simp]: "keeps (skip_dummy w)"
  unfolding keeps_def
proof
  fix p
  show "R p (snd (skip_dummy w p))"
  proof (induction w p rule: skip_dummy.induct)
    case (1 w p)
    obtain w' p1 where r: "recv_int_ignore p = (Inr w', p1)" using recv_int_ignore_total [of p] by auto
    have "R p p1" by (rule keepsD [OF keeps_reads [OF reads_recv_int(2)] r])
    then show ?case
      using 1 r by (cases "w = op_dummy") (subst skip_dummy.simps; simp add: stay; blast intro: trans)+
  qed
qed

lemma keeps_callback: "keeps crypt_callback"
proof -
  have "keeps opCryptCallback"
    unfolding keeps_def opCryptCallback_def packInt_bytes
    using keeps_sendPackets packed unfolding keeps_def by (meson trans)
  then show ?thesis
    unfolding crypt_callback_def by (intro keeps_bind) (simp_all add: keeps_reads)
qed

lemma keeps_skip_crypt [simp]: "keeps (skip_crypt w)"
  unfolding keeps_def
proof
  fix p
  show "R p (snd (skip_crypt w p))"
  proof (induction w p rule: skip_crypt.induct)
    case (1 w p)
    obtain r p1 where r: "crypt_callback p = (r, p1)" by fastforce
    then have p1: "R p p1" by (rule keepsD [OF keeps_callback])
    show ?case
    proof (cases "w = op_crypt_key_callback")
      case True
      then have "r = Inr w' \<Longrightarrow> R p (snd (skip_crypt w' p1))" for w'
        using 1 [OF True r [symmetric], of w'] trans [OF p1, of "snd (skip_crypt w' p1)"] by simp
      then show ?thesis using True r p1 by (subst skip_crypt.simps) (cases r; simp)
    qed (subst skip_crypt.simps; simp add: stay)
  qed
qed

lemma keeps_skip_lazy [simp]: "keeps (skip_lazy w)"
  unfolding keeps_def
proof
  fix p
  show "R p (snd (skip_lazy w p))"
  proof (induction w p rule: skip_lazy.induct)
    case (1 w p)
    show ?case
    proof (cases "w = op_response \<and> p_lazyResponseCount p > 0")
      case True
      obtain r p1 where i: "parse_op_response (p\<lparr>p_lazyResponseCount := p_lazyResponseCount p - 1\<rparr>) = (r, p1)"
        by fastforce
      obtain w' p2 where v: "recv_int_ignore p1 = (Inr w', p2)" using recv_int_ignore_total [of p1] by auto
      have p1: "R p p1" using keepsD [OF keeps_reads [OF reads_parse_op_response] i] lazy trans by blast
      moreover have p2: "R p1 p2" by (rule keepsD [OF keeps_reads [OF reads_recv_int(2)] v])
      ultimately have "r = Inr y \<Longrightarrow> R p (snd (skip_lazy w' p2))" for y
        using 1 [OF True i [symmetric] _ v [symmetric], of y w'] trans [OF trans [OF p1 p2], of "snd (skip_lazy w' p2)"] by simp
      then show ?thesis using True i v p1 by (subst skip_lazy.simps) (cases r; simp)
    next
      case False
      then show ?thesis by (subst skip_lazy.simps) (simp only: if_False; simp add: stay)
    qed
  qed
qed

lemma keeps_op_response_raw [simp]: "keeps op_response_raw"
  unfolding op_response_raw_def
  by (auto intro!: keeps_bind simp: keeps_reads split: sum.split)

lemma keeps_opResponse [simp]: "keeps opResponse"
  unfolding opResponse_def by (auto intro!: keeps_bind split: option.split)

end

interpretation chan: wire_relation "\<lambda>p q. p_chan q = p_chan p"
  by unfold_locales simp_all

interpretation inbound: wire_relation "\<lambda>p q. length (p_inbound q) \<le> length (p_inbound p)"
  by unfold_locales simp_all

interpretation session: wire_relation "\<lambda>p q. p_env q = p_env p \<and> p_wr_ok q = p_wr_ok p \<and> p_dbHandle q = p_dbHandle p"
  by unfold_locales simp_all

text \<open>A response that arrives takes at least its opcode off the input.\<close>

lemma opResponse_less:
  assumes "opResponse p = (Inr x, p')"
  shows "length (p_inbound p') < length (p_inbound p)"
proof -
  obtain v where r: "op_response_raw p = (Inr v, p')" "snd (snd (snd v)) = None"
    using assms by (auto simp: opResponse_def wbind_def split: prod.splits sum.splits option.splits)
  define F where "F = (\<lambda>r :: int32 res. case r of Inl e \<Rightarrow> wret (0, [], [], Some e)
     | Inr w \<Rightarrow>
        wbind (skip_dummy w) (\<lambda>w.
        wbind (wtry (skip_crypt w)) (\<lambda>r. case r of Inl e \<Rightarrow> wret (0, [], [], Some e)
        | Inr w \<Rightarrow>
          wbind (skip_lazy w) (\<lambda>w.
          if w \<noteq> op_response then
            (if w = op_cont_auth then wret (0, [], [], Some (Plain ''Your user name and password are not defined. Ask your database administrator to set up a Firebird login.''))
             else wret (0, [], [], Some (OpResponse (sint w))))
          else parse_op_response))))"
  have F: "inbound.keeps (F r)" for r
    unfolding F_def by (auto intro!: inbound.keeps_bind simp: inbound.keeps_reads split: sum.split)
  have "wbind (wtry recv_int) F p = (Inr v, p')" using r(1) by (simp add: op_response_raw_def F_def)
  then obtain w p1 where i: "recv_int p = (Inr w, p1)" "F (Inr w) p1 = (Inr v, p')"
    using r(2) by (auto simp: wbind_def wtry_def F_def wret_def split: prod.splits sum.splits if_splits)
  have "length (p_inbound p') \<le> length (p_inbound p1)" by (rule inbound.keepsD [OF F i(2)])
  then show ?thesis using recv_int_less [OF i(1)] by simp
qed

subsection \<open>Sending and receiving one message\<close>

definition sent :: "bytes \<Rightarrow> wire_protocol \<Rightarrow> wire_protocol" where
  "sent b p = p\<lparr>p_buf := [], p_outbound := p_outbound p @ [p_buf p @ b]\<rparr>"

lemma sent_simps [simp]:
  "p_chan (sent b p) = p_chan p" "p_env (sent b p) = p_env p" "p_wr_ok (sent b p) = p_wr_ok p"
  "p_lazyResponseCount (sent b p) = p_lazyResponseCount p" "sent b (feed c p) = feed c (sent b p)"
  "p_buf (sent b p) = []" "p_outbound (sent b p) = p_outbound p @ [p_buf p @ b]"
  "p_pluginName (sent b p) = p_pluginName p"
  by (simp_all add: sent_def feed_def del: feed_simps)

lemma send_fields_sent:
  assumes "\<And>n. p_wr_ok p n" "fs \<noteq> []" "field_bytes (hd fs) \<noteq> []"
  shows "send_fields fs p = (Inr (), sent (concat (map field_bytes fs)) p)"
  using send_fields_eq [OF assms] by (simp add: sent_def)

lemma bint32_nonempty [simp]: "bint32_to_bytes w \<noteq> []"
  by (simp add: bint32_to_bytes_def)

lemma opResponse_frame:
  assumes "response_fits r" "clause_codes (r_status r) = []" "p_lazyResponseCount p = 0"
  shows "opResponse (feed (response_bytes r @ rest) p) = (Inr (r_handle r, r_oid r, r_data r), feed rest p)"
proof -
  have "op_response_raw (feed (response_bytes r @ rest) p) =
    (Inr (r_handle r, r_oid r, r_data r, sv_error (p_env p) (vector_meaning (p_env p) (r_status r))), feed rest p)"
    using op_response_frames [of "[]" r p 0 rest] assms(1,3) by (simp add: dummies_def lazy_self)
  moreover have "sv_error (p_env p) (vector_meaning (p_env p) (r_status r)) = None"
    using vector_meaning_codes [where env = "p_env p" and cs = "r_status r"] assms(2) by (simp add: sv_error_None)
  ultimately show ?thesis by (simp add: opResponse_def wbind_def)
qed


text \<open>A connection that can send and owes no responses.\<close>

definition calm :: "wire_protocol \<Rightarrow> bool" where
  "calm p \<longleftrightarrow> (\<forall>n. p_wr_ok p n) \<and> p_lazyResponseCount p = 0"

lemma calm_simps [simp]: "calm (feed b p) = calm p" "calm (sent b p) = calm p"
  by (simp_all add: calm_def)

lemma calm_send: "calm p \<Longrightarrow> send_fields (FInt w # fs) p = (Inr (), sent (concat (map field_bytes (FInt w # fs))) p)"
  by (rule send_fields_sent) (simp_all add: calm_def)

lemma never_panics_send [simp]: "never_panics (send_fields fs)" "never_panics sendPackets"
  by (auto simp: never_panics_def send_fields_def sendPackets_def)

end
