(* ===== verification/Srp.thy ===== *)
theory Srp
  imports Wire_Response
begin

text \<open>
  SRP-6a key agreement (\<open>srp.go\<close>) on Go's \<open>big.Int\<close>, which is HOL's \<open>int\<close> with Euclidean
  \<open>div\<close> and \<open>mod\<close>. SHA-1 and SHA-256 are functions of the environment. Random private keys are
  arguments. Both the client's and the test server's half are in the file, and the property is
  their agreement.
\<close>

text \<open>\<open>big.Int.Exp(b, e, n)\<close> by squaring\<close>

function mod_exp :: "int \<Rightarrow> nat \<Rightarrow> int \<Rightarrow> int" where
  "mod_exp b e n =
     (if e = 0 then 1 mod n
      else if even e then mod_exp (b * b mod n) (e div 2) n
      else b * mod_exp (b * b mod n) (e div 2) n mod n)"
  by pat_completeness auto
termination by (relation "measure (\<lambda>(b, e, n). e)") auto

declare mod_exp.simps [simp del]

lemma mod_exp_eq: "mod_exp b e n = b ^ e mod n"
proof (induction b e n rule: mod_exp.induct)
  case (1 b e n)
  show ?case
  proof (cases "e = 0")
    case True
    then show ?thesis by (subst mod_exp.simps) simp
  next
    case False
    have sq: "(b * b mod n) ^ (e div 2) mod n = b ^ (2 * (e div 2)) mod n"
      by (simp add: power_mod power_mult power2_eq_square)
    show ?thesis
    proof (cases "even e")
      case True
      then show ?thesis using False 1 sq by (subst mod_exp.simps) simp
    next
      case odd: False
      then have e: "e = Suc (2 * (e div 2))" by presburger
      have "mod_exp b e n = b * ((b * b mod n) ^ (e div 2) mod n) mod n"
        using False odd 1 by (subst mod_exp.simps) simp
      also have "\<dots> = b * b ^ (2 * (e div 2)) mod n" unfolding sq by (simp add: mod_mult_right_eq)
      also have "\<dots> = b ^ e mod n" by (subst (2) e) simp
      finally show ?thesis .
    qed
  qed
qed

text \<open>\<open>big.Int.Bytes\<close>: the minimal big-endian bytes of the absolute value.\<close>

definition big_Bytes :: "int \<Rightarrow> bytes" where
  "big_Bytes n = dropWhile (\<lambda>b. b = 0) (be_bytes (length (nat_itoa (nat \<bar>n\<bar>))) (nat \<bar>n\<bar>))"

text \<open>\<open>pad\<close>: the low 1024 bits, most significant byte first, without leading zeros.\<close>

primrec pad_loop :: "nat \<Rightarrow> int \<Rightarrow> bytes" where
  "pad_loop 0 n = []"
| "pad_loop (Suc k) n = word_of_int (n AND 255) # pad_loop k (n div 256)"

definition srp_pad :: "int \<Rightarrow> bytes" where
  "srp_pad v = dropWhile (\<lambda>b. b = 0) (rev (pad_loop 128 v))"

definition bigIntToBytes :: "int \<Rightarrow> bytes" where
  "bigIntToBytes v = srp_pad v"

definition bytesToBigInt :: "bytes \<Rightarrow> int" where
  "bytesToBigInt v = foldl (\<lambda>r b. r * 256 + uint b) 0 v"

definition srp_prime :: int where
  "srp_prime = 0xE67D2E994B2F900C3F41F08F5BB2627ED0D49EE1FE767A52EFCD565CD6E768812C3E1E9CE8F0A8BEA6CB13CD29DDEBF7A96D4A93B55D488DF099A15C89DCB0640738EB2CBDD9A8F7BAB561AB1B0DC1C6CDABF303264A08D1BCA932D1F1EE428B619D970F342ABA9A65793B8B2F041AE5364350C16F735F56ECBCA87BD57B29E7"

definition srp_g :: int where "srp_g = 2"

definition srp_k :: int where "srp_k = 1277432915985975349439481660349303019122249719989"

definition bigIntToSha1 :: "go_env \<Rightarrow> int \<Rightarrow> bytes" where
  "bigIntToSha1 env n = env_sha1 env (big_Bytes n)"

definition getScramble :: "go_env \<Rightarrow> int \<Rightarrow> int \<Rightarrow> int" where
  "getScramble env keyA keyB = bytesToBigInt (env_sha1 env (srp_pad keyA @ srp_pad keyB))"

definition getStringHash :: "go_env \<Rightarrow> string \<Rightarrow> int" where
  "getStringHash env s = bytesToBigInt (env_sha1 env (str_to_bytes s))"

definition getUserHash :: "go_env \<Rightarrow> bytes \<Rightarrow> string \<Rightarrow> string \<Rightarrow> int" where
  "getUserHash env salt user password =
     bytesToBigInt (env_sha1 env (salt @ env_sha1 env (str_to_bytes (user @ '':'' @ password))))"

text \<open>The public key of a private key made of 16 random bytes.\<close>

definition getClientSeed :: "bytes \<Rightarrow> int \<times> int" where
  "getClientSeed rnd = (let keya = bytesToBigInt rnd in (mod_exp srp_g (nat keya) srp_prime, keya))"

definition getVerifier :: "go_env \<Rightarrow> string \<Rightarrow> string \<Rightarrow> bytes \<Rightarrow> int" where
  "getVerifier env user password salt =
     (let x = getUserHash env salt user password in mod_exp srp_g (nat x) srp_prime)"

definition getServerSeed :: "bytes \<Rightarrow> int \<Rightarrow> int \<times> int" where
  "getServerSeed rnd v =
     (let keyb = bytesToBigInt rnd;
          gb = mod_exp srp_g (nat keyb) srp_prime;
          kv = srp_k * v mod srp_prime;
          keyB = (kv + gb) mod srp_prime
      in (keyB, keyb))"

definition client_secret :: "go_env \<Rightarrow> string \<Rightarrow> string \<Rightarrow> bytes \<Rightarrow> int \<Rightarrow> int \<Rightarrow> int \<Rightarrow> int" where
  "client_secret env user password salt keyA keyB keya =
     (let u = getScramble env keyA keyB;
          x = getUserHash env salt user password;
          gx = mod_exp srp_g (nat x) srp_prime;
          kgx = srp_k * gx mod srp_prime;
          diff = (keyB - kgx) mod srp_prime;
          ux = u * x mod srp_prime;
          aux = (keya + ux) mod srp_prime
      in mod_exp diff (nat aux) srp_prime)"

definition getClientSession :: "go_env \<Rightarrow> string \<Rightarrow> string \<Rightarrow> bytes \<Rightarrow> int \<Rightarrow> int \<Rightarrow> int \<Rightarrow> bytes" where
  "getClientSession env user password salt keyA keyB keya =
     bigIntToSha1 env (client_secret env user password salt keyA keyB keya)"

definition server_secret :: "go_env \<Rightarrow> string \<Rightarrow> string \<Rightarrow> bytes \<Rightarrow> int \<Rightarrow> int \<Rightarrow> int \<Rightarrow> int" where
  "server_secret env user password salt keyA keyB keyb =
     (let u = getScramble env keyA keyB;
          v = getVerifier env user password salt;
          vu = mod_exp v (nat u) srp_prime;
          avu = keyA * vu mod srp_prime
      in mod_exp avu (nat keyb) srp_prime)"

definition getServerSession :: "go_env \<Rightarrow> string \<Rightarrow> string \<Rightarrow> bytes \<Rightarrow> int \<Rightarrow> int \<Rightarrow> int \<Rightarrow> bytes" where
  "getServerSession env user password salt keyA keyB keyb =
     bigIntToSha1 env (server_secret env user password salt keyA keyB keyb)"

text \<open>The client's proof and the session key; any plugin but the two is a panic.\<close>

definition getClientProof ::
  "go_env \<Rightarrow> string \<Rightarrow> string \<Rightarrow> bytes \<Rightarrow> int \<Rightarrow> int \<Rightarrow> int \<Rightarrow> string \<Rightarrow> (bytes \<times> bytes) res" where
  "getClientProof env user password salt keyA keyB keya pluginName =
     (let keyK = getClientSession env user password salt keyA keyB keya;
          n1 = bytesToBigInt (bigIntToSha1 env srp_prime);
          n2 = bytesToBigInt (bigIntToSha1 env srp_g);
          n3 = mod_exp n1 (nat n2) srp_prime;
          n4 = getStringHash env user;
          msg = big_Bytes n3 @ big_Bytes n4 @ salt @ big_Bytes keyA @ big_Bytes keyB @ keyK
      in if pluginName = ''Srp'' then Inr (env_sha1 env msg, keyK)
         else if pluginName = ''Srp256'' then Inr (env_sha256 env msg, keyK)
         else Inl (Panic ''srp protocol error''))"

subsection \<open>Big integers and bytes\<close>

lemma bytesToBigInt_snoc: "bytesToBigInt (v @ [b]) = bytesToBigInt v * 256 + uint b"
  by (simp add: bytesToBigInt_def)

lemma bytesToBigInt_range: "0 \<le> bytesToBigInt v \<and> bytesToBigInt v < 256 ^ length v"
proof (induction v rule: rev_induct)
  case (snoc b v)
  have "0 \<le> uint b" "uint b < 256" using uint_lt2p [of b] by simp_all
  then show ?case using snoc by (simp add: bytesToBigInt_snoc)
qed (simp add: bytesToBigInt_def)

lemma bytesToBigInt_strip: "bytesToBigInt (dropWhile (\<lambda>b. b = 0) v) = bytesToBigInt v"
proof (induction v)
  case (Cons b v)
  have "bytesToBigInt (0 # v) = bytesToBigInt v" by (simp add: bytesToBigInt_def)
  then show ?case using Cons by simp
qed simp

lemma pad_loop_value: "bytesToBigInt (rev (pad_loop k n)) = n mod 256 ^ k"
proof (induction k arbitrary: n)
  case (Suc k)
  have "uint (word_of_int (n AND 255) :: byte) = n mod 256"
    by (simp add: int_and_255 uint_word_of_int take_bit_eq_mod)
  then have "bytesToBigInt (rev (pad_loop (Suc k) n)) = (n div 256 mod 256 ^ k) * 256 + n mod 256"
    using Suc by (simp add: bytesToBigInt_snoc)
  also have "\<dots> = n mod (256 * 256 ^ k)" by (simp add: zmod_zmult2_eq)
  finally show ?case by simp
qed (simp add: bytesToBigInt_def)

lemma bytesToBigInt_pad: "bytesToBigInt (bigIntToBytes v) = v mod 256 ^ 128"
  by (simp add: bigIntToBytes_def srp_pad_def bytesToBigInt_strip pad_loop_value)

lemma length_bigIntToBytes: "length (bigIntToBytes v) \<le> 128"
proof -
  have "length (pad_loop k n) = k" for k n by (induction k arbitrary: n) simp_all
  then show ?thesis unfolding bigIntToBytes_def srp_pad_def by (metis length_dropWhile_le length_rev)
qed

subsection \<open>Agreement\<close>

definition hash_160 :: "go_env \<Rightarrow> bool" where
  "hash_160 env \<longleftrightarrow> (\<forall>m. length (env_sha1 env m) = 20)"

lemma hash_bounds:
  assumes "hash_160 env"
  shows "0 \<le> getScramble env A B" "getScramble env A B < 2 ^ 160"
    "0 \<le> getUserHash env s us pw" "getUserHash env s us pw < 2 ^ 160"
  using assms bytesToBigInt_range [of "env_sha1 env m" for m]
  by (simp_all add: getScramble_def getUserHash_def hash_160_def)

lemma srp_prime_big: "2 ^ 321 < srp_prime"
  by (simp add: srp_prime_def)

lemma srp_secret_agreement:
  assumes "hash_160 env" "length rnda = 16"
    and "getClientSeed rnda = (keyA, keya)"
    and "getServerSeed rndb (getVerifier env user password salt) = (keyB, keyb)"
  shows "client_secret env user password salt keyA keyB keya = server_secret env user password salt keyA keyB keyb"
proof -
  define N where "N = srp_prime"
  define u where "u = getScramble env keyA keyB"
  define x where "x = getUserHash env salt user password"
  have u: "0 \<le> u" "u < 2 ^ 160" and x: "0 \<le> x" "x < 2 ^ 160"
    using hash_bounds [OF assms(1)] by (simp_all add: u_def x_def)
  have a: "0 \<le> keya" "keya < 2 ^ 128"
    using assms(2,3) bytesToBigInt_range [of rnda] by (auto simp: getClientSeed_def Let_def)
  have b: "0 \<le> keyb"
    using assms(4) bytesToBigInt_range [of rndb] by (auto simp: getServerSeed_def Let_def)
  have A: "keyA = srp_g ^ nat keya mod N"
    using assms(3) by (auto simp: getClientSeed_def Let_def mod_exp_eq N_def)
  have v: "getVerifier env user password salt = srp_g ^ nat x mod N"
    by (simp add: getVerifier_def Let_def mod_exp_eq x_def N_def)
  have B: "keyB = (srp_k * (srp_g ^ nat x mod N) mod N + srp_g ^ nat keyb mod N) mod N"
    using assms(4) unfolding v by (auto simp: getServerSeed_def Let_def mod_exp_eq N_def)
  have "u * x \<le> 2 ^ 160 * 2 ^ 160" using u x by (intro mult_mono) simp_all
  then have ux: "0 \<le> u * x" "u * x \<le> 2 ^ 320" using u x by (simp_all add: power_add [symmetric])
  have N: "2 ^ 321 < N" using srp_prime_big by (simp add: N_def)
  have "(2 :: int) ^ 128 + 2 ^ 320 < 2 ^ 321" by simp
  then have sum: "0 \<le> keya + u * x" "keya + u * x < N" using ux a N by linarith+
  have "(2 :: int) ^ 320 < 2 ^ 321" by simp
  then have "u * x < N" using ux N by linarith
  then have aux: "(keya + u * x mod N) mod N = keya + u * x" using ux sum by simp
  have diff: "(keyB - srp_k * (srp_g ^ nat x mod N) mod N) mod N = srp_g ^ nat keyb mod N"
    unfolding B by (simp add: mod_diff_left_eq)
  have "client_secret env user password salt keyA keyB keya = (srp_g ^ nat keyb) ^ nat (keya + u * x) mod N"
    unfolding client_secret_def Let_def mod_exp_eq u_def [symmetric] x_def [symmetric] N_def [symmetric] diff aux
    by (rule power_mod)
  also have "nat (keya + u * x) = nat keya + nat x * nat u"
    using a u x ux by (simp add: nat_add_distrib nat_mult_distrib mult.commute)
  also have "(srp_g ^ nat keyb) ^ (nat keya + nat x * nat u) mod N =
      (srp_g ^ nat keya * (srp_g ^ nat x) ^ nat u) ^ nat keyb mod N"
    by (simp add: power_mult [symmetric] power_add [symmetric] mult.commute)
  also have "\<dots> = ((srp_g ^ nat keya mod N) * ((srp_g ^ nat x mod N) ^ nat u mod N) mod N) ^ nat keyb mod N"
    by (simp add: power_mod mod_mult_eq)
  also have "\<dots> = server_secret env user password salt keyA keyB keyb"
    unfolding server_secret_def Let_def mod_exp_eq v N_def [symmetric] u_def A by (rule refl)
  finally show ?thesis .
qed

subsection \<open>Properties\<close>

text \<open>C10: The client and the server that holds the verifier of the same user name, password and
  salt derive the same session key, for every pair of random 16-byte private keys, with any
  hash functions of the right sizes. (The client reduces the exponent modulo the prime, not its
  order: with 128-bit keys and 160-bit hashes the reduction never takes effect.)\<close>

theorem srp_session_agreement:
  assumes "hash_160 env" "length rnda = 16"
    and "getClientSeed rnda = (keyA, keya)"
    and "getServerSeed rndb (getVerifier env user password salt) = (keyB, keyb)"
  shows "getClientSession env user password salt keyA keyB keya =
    getServerSession env user password salt keyA keyB keyb"
  by (simp add: getClientSession_def getServerSession_def srp_secret_agreement [OF assms])

theorem srp_session_agreement_witness:
  "\<exists>keyA keya keyB keyb.
     getClientSession sample_env ''SYSDBA'' ''masterkey'' [1, 2, 3] keyA keyB keya =
     getServerSession sample_env ''SYSDBA'' ''masterkey'' [1, 2, 3] keyA keyB keyb"
  using srp_session_agreement [of sample_env "replicate 16 7" _ _ "replicate 16 9" "''SYSDBA''" "''masterkey''" "[1, 2, 3]",
      OF _ _ surjective_pairing surjective_pairing]
  by (auto simp: hash_160_def sample_env_def)

text \<open>Keys survive their byte form: a value below 2^1024 is the big-endian value of its padded
  bytes, which have no leading zero byte and are at most 128.\<close>

theorem srp_key_bytes_roundtrip:
  assumes "0 \<le> v" "v < 2 ^ 1024"
  shows "bytesToBigInt (bigIntToBytes v) = v \<and> length (bigIntToBytes v) \<le> 128 \<and>
    (bigIntToBytes v \<noteq> [] \<longrightarrow> hd (bigIntToBytes v) \<noteq> 0)"
proof -
  have "(256 :: int) ^ 128 = 2 ^ 1024" by simp
  then have "bytesToBigInt (bigIntToBytes v) = v"
    using assms by (simp add: bytesToBigInt_pad)
  moreover have "length (bigIntToBytes v) \<le> 128" by (rule length_bigIntToBytes)
  moreover have "bigIntToBytes v \<noteq> [] \<longrightarrow> hd (bigIntToBytes v) \<noteq> 0"
    unfolding bigIntToBytes_def srp_pad_def using hd_dropWhile by blast
  ultimately show ?thesis by simp
qed

theorem srp_key_bytes_roundtrip_witness:
  "bytesToBigInt (bigIntToBytes 258) = 258"
  using srp_key_bytes_roundtrip [of 258] by simp

end
