(* ===== verification/Policy.thy ===== *)
theory Policy
  imports Go_Strings "HOL-Library.AList"
begin

text \<open>
  Connection options and policies: the DSN (\<open>dsn.go\<close>), the wire encryption policy
  (\<open>wire_crypt.go\<close>), the authentication allow-list (\<open>auth_plugin.go\<close>), option parsing
  (\<open>utils.go\<close>), time zone resolution (\<open>timezone_resolve.go\<close>) and server version comparison
  (\<open>firebird_version.go\<close>).

  Options are a Go \<open>map[string]string\<close>; a missing key reads as the empty string, so they are a
  function from names to values. URL parsing is Go's \<open>net/url\<close>: \<open>parseDSN\<close> takes the parsed URL.
\<close>

type_synonym options = "string \<Rightarrow> string"

definition splitList :: "string \<Rightarrow> string list" where
  "splitList s = filter (\<lambda>p. p \<noteq> '''') (map TrimSpace (split_char (CHR '','') s))"

text \<open>\<open>strconv.ParseBool\<close>\<close>

definition ParseBool :: "string \<Rightarrow> bool option" where
  "ParseBool s =
     (if s \<in> set [''1'', ''t'', ''T'', ''true'', ''TRUE'', ''True''] then Some True
      else if s \<in> set [''0'', ''f'', ''F'', ''false'', ''FALSE'', ''False''] then Some False else None)"

definition convertToBool :: "string \<Rightarrow> bool \<Rightarrow> bool" where
  "convertToBool s defaultValue = (case ParseBool s of None \<Rightarrow> defaultValue | Some v \<Rightarrow> v)"

definition parseOptionInt :: "string \<Rightarrow> int \<Rightarrow> int" where
  "parseOptionInt s defaultValue =
     (if s = '''' then defaultValue else (case atoi s of None \<Rightarrow> defaultValue | Some v \<Rightarrow> v))"

definition fitsUint32 :: "int \<Rightarrow> bool" where
  "fitsUint32 val \<longleftrightarrow> val \<ge> 0 \<and> val \<le> 0xffffffff"

subsection \<open>Wire encryption\<close>

datatype wire_crypt_mode = wireCryptDisabled | wireCryptEnabled | wireCryptRequired

text \<open>The modes are ordered by how much they demand, as the code's \<open>iota\<close> numbers them.\<close>

instantiation wire_crypt_mode :: linorder
begin

primrec mode_rank :: "wire_crypt_mode \<Rightarrow> nat" where
  "mode_rank wireCryptDisabled = 0"
| "mode_rank wireCryptEnabled = 1"
| "mode_rank wireCryptRequired = 2"

definition less_eq_wire_crypt_mode :: "wire_crypt_mode \<Rightarrow> wire_crypt_mode \<Rightarrow> bool" where
  "less_eq_wire_crypt_mode a b \<longleftrightarrow> mode_rank a \<le> mode_rank b"

definition less_wire_crypt_mode :: "wire_crypt_mode \<Rightarrow> wire_crypt_mode \<Rightarrow> bool" where
  "less_wire_crypt_mode a b \<longleftrightarrow> mode_rank a < mode_rank b"

instance
proof
  fix x y z :: wire_crypt_mode
  show "x < y \<longleftrightarrow> x \<le> y \<and> \<not> y \<le> x" by (auto simp: less_eq_wire_crypt_mode_def less_wire_crypt_mode_def)
  show "x \<le> x" by (simp add: less_eq_wire_crypt_mode_def)
  show "x \<le> y \<Longrightarrow> y \<le> z \<Longrightarrow> x \<le> z" by (simp add: less_eq_wire_crypt_mode_def)
  show "x \<le> y \<Longrightarrow> y \<le> x \<Longrightarrow> x = y" by (cases x; cases y) (simp_all add: less_eq_wire_crypt_mode_def)
  show "x \<le> y \<or> y \<le> x" by (auto simp: less_eq_wire_crypt_mode_def)
qed

end

definition parseWireCryptMode :: "string \<Rightarrow> wire_crypt_mode res" where
  "parseWireCryptMode s =
     (let t = ToLower (TrimSpace s) in
      if t = ''false'' \<or> t = ''0'' \<or> t = ''disabled'' then Inr wireCryptDisabled
      else if t = '''' \<or> t = ''true'' \<or> t = ''1'' \<or> t = ''enabled'' then Inr wireCryptEnabled
      else if t = ''required'' then Inr wireCryptRequired
      else Inl (Plain ''firebirdsql: invalid wire_crypt value %q''))"

definition errWireCryptRequired :: go_error where
  "errWireCryptRequired = Plain ''firebirdsql: wire_crypt=required but no wire encryption was established''"

definition wireCryptResolve :: "wire_crypt_mode \<Rightarrow> string \<Rightarrow> bool \<Rightarrow> bool \<times> go_error option" where
  "wireCryptResolve mode encPlugin hasSessionKey =
     (let encrypt = (encPlugin \<noteq> '''' \<and> mode \<noteq> wireCryptDisabled \<and> hasSessionKey)
      in (encrypt, if \<not> encrypt \<and> mode = wireCryptRequired then Some errWireCryptRequired else None))"

definition defaultWireCryptPlugins :: string where
  "defaultWireCryptPlugins = ''ChaCha64,ChaCha,Arc4''"

text \<open>\<open>_guess_wire_crypt\<close>: the records of the server's answer, then the client's list in order.\<close>

fun crypt_records :: "bytes \<Rightarrow> string list \<Rightarrow> bytes list \<Rightarrow> string list \<times> bytes list" where
  "crypt_records [] pls nonces = (pls, nonces)"
| "crypt_records [t] pls nonces = (pls, nonces)"
| "crypt_records (t # l # rest) pls nonces =
     (let ln = unat l in
      if ln > length rest then (pls, nonces)
      else let v = take ln rest in
        if t = 1 then crypt_records (drop ln rest) (split_char (CHR '' '') (bytes_to_str v)) nonces
        else if t = 3 then crypt_records (drop ln rest) pls (nonces @ [v])
        else crypt_records (drop ln rest) pls nonces)"

definition chacha64_prefix :: bytes where
  "chacha64_prefix = str_to_bytes ''ChaCha64'' @ [0]"

definition chacha_prefix :: bytes where
  "chacha_prefix = str_to_bytes ''ChaCha'' @ [0]"

text \<open>The nonce for one plugin of the client's list: \<open>None\<close> goes on to the next plugin.\<close>

definition pick_nonce :: "string \<Rightarrow> bytes list \<Rightarrow> (string \<times> bytes) option" where
  "pick_nonce pl nonces =
     (if pl = ''ChaCha64'' then
        (case filter (\<lambda>n. \<not> length n < 9 \<and> take 9 n = chacha64_prefix) nonces of
           n # _ \<Rightarrow> Some (''ChaCha64'', drop 9 n) | [] \<Rightarrow> None)
      else if pl = ''ChaCha'' then
        (case filter (\<lambda>n. \<not> length n < 7 + 12 \<and> take 7 n = chacha_prefix) nonces of
           n # _ \<Rightarrow> Some (''ChaCha'', take 12 (drop 7 n)) | [] \<Rightarrow> None)
      else if pl = ''Arc4'' then Some (''Arc4'', [])
      else None)"

primrec pick_cipher :: "string list \<Rightarrow> string list \<Rightarrow> bytes list \<Rightarrow> string \<times> bytes" where
  "pick_cipher [] available nonces = ('''', [])"
| "pick_cipher (pl # pls) available nonces =
     (if pl \<notin> set available then pick_cipher pls available nonces
      else case pick_nonce pl nonces of Some r \<Rightarrow> r | None \<Rightarrow> pick_cipher pls available nonces)"

definition guess_wire_crypt :: "bytes \<Rightarrow> string list \<Rightarrow> string \<times> bytes" where
  "guess_wire_crypt buf clientPlugins =
     (let (available, nonces) = crypt_records buf [] [] in pick_cipher clientPlugins available nonces)"

subsection \<open>Authentication\<close>

definition defaultAuthPlugins :: string where
  "defaultAuthPlugins = ''Srp256,Srp,Legacy_Auth''"

definition isAuthPluginAllowed :: "string \<Rightarrow> string \<Rightarrow> bool" where
  "isAuthPluginAllowed pl authPluginList \<longleftrightarrow> pl \<in> set (splitList authPluginList)"

definition validateAuthPlugins :: "string \<Rightarrow> string \<Rightarrow> go_error option" where
  "validateAuthPlugins authPluginName authPluginList =
     (let supported = splitList defaultAuthPlugins;
          lst = splitList authPluginList
      in if lst = [] then Some (Plain ''firebirdsql: auth_plugin_list is empty'')
         else if list_ex (\<lambda>p. p \<notin> set supported) lst
         then Some (Plain ''firebirdsql: unsupported auth plugin %q in auth_plugin_list'')
         else if authPluginName \<notin> set lst
         then Some (Plain ''firebirdsql: auth_plugin_name %q is not in auth_plugin_list %q'')
         else None)"

subsection \<open>The DSN\<close>

text \<open>What \<open>url.Parse\<close> and \<open>url.ParseQuery\<close> deliver; \<open>u_has_port\<close> is \<open>net.SplitHostPort\<close>'s verdict.\<close>

record parsed_url =
  u_user :: "(string \<times> string) option"
  u_host :: string
  u_has_port :: bool
  u_path :: string
  u_query :: "(string \<times> string list) list"

record firebird_dsn =
  d_addr :: string
  d_dbName :: string
  d_user :: string
  d_passwd :: string
  d_options :: "(string \<times> string) list"

definition default_options :: "(string \<times> string) list" where
  "default_options =
     [(''auth_plugin_name'', ''Srp256''), (''auth_plugin_list'', defaultAuthPlugins), (''charset'', ''UTF8''),
      (''client_version'', ''''), (''column_name_to_lower'', ''false''), (''host_name'', ''''), (''os_user'', ''''),
      (''role'', ''''), (''timezone'', ''''), (''wire_crypt'', ''true''),
      (''wire_crypt_plugin'', defaultWireCryptPlugins), (''wire_compress'', ''false''),
      (''max_inline_blob_size'', ''65536''), (''max_blob_cache_size'', ''10485760'')]"

definition opt_get :: "(string \<times> string) list \<Rightarrow> options" where
  "opt_get os k = (case map_of os k of None \<Rightarrow> '''' | Some v \<Rightarrow> v)"

definition url_scheme :: string where
  "url_scheme = ''firebird://''"

definition dsn_dbName :: "string \<Rightarrow> string" where
  "dsn_dbName path =
     (let db = (if length path > 0 \<and> CHR ''/'' \<notin> set (drop 1 path) then drop 1 path else path)
      in if length db \<ge> 2 \<and> CHR '':'' \<in> set (drop 2 db) then drop 1 db else db)"

definition alias_option :: "(string \<times> string list) list \<Rightarrow> string \<Rightarrow> string \<Rightarrow> (string \<times> string) list \<Rightarrow> (string \<times> string) list" where
  "alias_option q short key os =
     (case map_of q short of Some (v # vs) \<Rightarrow> AList.update key v os | _ \<Rightarrow> os)"

definition dsn_options :: "(string \<times> string list) list \<Rightarrow> (string \<times> string) list res" where
  "dsn_options q =
     (if list_ex (\<lambda>(k, v). map_of q k = Some []) default_options
      then Inl (Panic ''index out of range'')
      else let os = map (\<lambda>(k, v). (k, case map_of q k of Some vs \<Rightarrow> hd vs | None \<Rightarrow> v)) default_options;
               os = alias_option q ''inline_blob_size'' ''max_inline_blob_size'' os
           in Inr (alias_option q ''blob_cache_size'' ''max_blob_cache_size'' os))"

definition parseDSN :: "(string \<Rightarrow> parsed_url res) \<Rightarrow> string \<Rightarrow> firebird_dsn res" where
  "parseDSN url_Parse dsns =
     (let dsns = (if has_prefix url_scheme dsns then dsns else url_scheme @ dsns) in
      bind_res (url_Parse dsns) (\<lambda>u.
      case u_user u of None \<Rightarrow> Inl (Plain ''User unknown'')
      | Some (user, passwd) \<Rightarrow>
          let addr = (if u_has_port u then u_host u else u_host u @ '':3050'');
              dbName = dsn_dbName (u_path u)
          in if dropWhile (\<lambda>c. c = CHR ''/'') dbName = '''' then Inl (Plain ''Database name unknown'')
          else bind_res (dsn_options (u_query u)) (\<lambda>os.
               bind_res (parseWireCryptMode (opt_get os ''wire_crypt'')) (\<lambda>_.
               case validateAuthPlugins (opt_get os ''auth_plugin_name'') (opt_get os ''auth_plugin_list'') of
                 Some e \<Rightarrow> Inl e
               | None \<Rightarrow> Inr \<lparr> d_addr = addr, d_dbName = dbName, d_user = user, d_passwd = passwd, d_options = os \<rparr>))))"

subsection \<open>Versions\<close>

record firebird_version =
  v_Major :: int
  v_Minor :: int
  v_Patch :: int

definition EqualOrGreater :: "firebird_version \<Rightarrow> int \<Rightarrow> int \<Rightarrow> bool" where
  "EqualOrGreater v major minor \<longleftrightarrow> v_Major v > major \<or> (v_Major v = major \<and> v_Minor v \<ge> minor)"

definition EqualOrGreaterPatch :: "firebird_version \<Rightarrow> int \<Rightarrow> int \<Rightarrow> int \<Rightarrow> bool" where
  "EqualOrGreaterPatch v major minor patch \<longleftrightarrow>
     v_Major v > major \<or>
     (v_Major v = major \<and> (v_Minor v = minor \<and> v_Patch v \<ge> patch \<or> v_Minor v > minor))"

end
