(* ===== verification/Handshake.thy ===== *)
theory Handshake
  imports Wire_Relation Srp Policy
begin

text \<open>
  Connecting (\<open>opConnect\<close>, \<open>uid\<close>, \<open>_parse_connect_response\<close> of \<open>wireprotocol.go\<close>): the request,
  the server's choice of protocol and authentication plugin, SRP or legacy authentication, and
  the wire encryption decision.

  An early \<open>return\<close> with a nil error is the value \<open>None\<close> of a phase; the caller then returns
  without going through the later phases, as the code does. The client's key pair is an argument.
\<close>

subsection \<open>The connect request\<close>

definition getSrpClientPublicBytes :: "int \<Rightarrow> bytes" where
  "getSrpClientPublicBytes clientPublic =
     (let b = str_to_bytes (hex_encode (bigIntToBytes clientPublic)) in
      if length b > 254
      then [CNCT_specific_data, 255, 0] @ take 254 b
           @ [CNCT_specific_data, of_nat (length b - 254) + 1, 1] @ drop 254 b
      else [CNCT_specific_data, of_nat (length b) + 1, 0] @ b)"

definition crypt_auth :: "go_env \<Rightarrow> string \<Rightarrow> bytes res" where
  "crypt_auth env password =
     (let s = str_to_bytes (env_crypt env password ''9z'') in go_slice s 2 (int (length s)))"

definition uid :: "go_env \<Rightarrow> string \<Rightarrow> string \<Rightarrow> string \<Rightarrow> string \<Rightarrow> bool \<Rightarrow> int \<Rightarrow> bytes res" where
  "uid env user password authPluginName authPluginList wireCrypt clientPublic =
     (let userBytes = str_to_bytes (ToUpper user);
          sysUserBytes = str_to_bytes (env_sysuser env);
          hostnameBytes = str_to_bytes (env_hostname env);
          wireCryptByte = (if wireCrypt then 1 else 0)
      in bind_res
        (if authPluginName = ''Srp'' \<or> authPluginName = ''Srp256'' then Inr (getSrpClientPublicBytes clientPublic)
         else if authPluginName = ''Legacy_Auth'' then
           bind_res (crypt_auth env password) (\<lambda>b. Inr ([CNCT_specific_data, of_nat (length b) + 1, 0] @ b))
         else Inl (Panic ''Unknown plugin name:%s''))
        (\<lambda>specific_data. Inr (concat
          [dpb_item CNCT_login userBytes,
           dpb_item CNCT_plugin_name (str_to_bytes authPluginName),
           dpb_item CNCT_plugin_list (str_to_bytes authPluginList),
           specific_data,
           [CNCT_client_crypt, 4, wireCryptByte, 0, 0, 0],
           dpb_item CNCT_user sysUserBytes,
           dpb_item CNCT_host hostnameBytes,
           [CNCT_user_verification, 0]])))"

text \<open>
  \<open>advertisedProtocols\<close>: 20-byte records of version, architecture, minimum and maximum type and
  weight. The code writes them as hexadecimal text.
\<close>

definition protocol_record :: "int32 \<Rightarrow> int32 \<Rightarrow> int32 \<Rightarrow> bytes" where
  "protocol_record version maxType weight =
     concat (map bint32_to_bytes [version, 1, 0, maxType, weight])"

definition advertisedProtocols :: "bool \<Rightarrow> bytes list" where
  "advertisedProtocols wireCompress =
     (let mx = (if wireCompress then 0x105 else 5) in
      [protocol_record 0x0000000a 5 2, protocol_record 0xffff800b 5 4, protocol_record 0xffff800c 5 6,
       protocol_record 0xffff800d mx 8, protocol_record 0xffff800e mx 10, protocol_record 0xffff800f mx 12,
       protocol_record 0xffff8010 mx 14, protocol_record 0xffff8011 mx 16, protocol_record 0xffff8012 mx 18,
       protocol_record 0xffff8013 mx 20])"

definition opConnect :: "string \<Rightarrow> string \<Rightarrow> string \<Rightarrow> options \<Rightarrow> int \<Rightarrow> unit wm" where
  "opConnect dbName user password opts clientPublic p =
     (case parseWireCryptMode (opts ''wire_crypt'') of Inl e \<Rightarrow> (Inl e, p)
      | Inr mode \<Rightarrow>
          let wire_crypt = (mode \<noteq> wireCryptDisabled);
              wire_compress = (case ParseBool (opts ''wire_compress'') of Some True \<Rightarrow> True | _ \<Rightarrow> False);
              protocols = advertisedProtocols wire_compress
          in (case uid (p_env p) (ToUpper user) password (opts ''auth_plugin_name'') (opts ''auth_plugin_list'') wire_crypt clientPublic of
                Inl e \<Rightarrow> (Inl e, p)
              | Inr u \<Rightarrow> send_fields [FInt op_connect, FInt op_attach, FInt 3, FInt 1, FString dbName p,
                  FInt (word_of_int (int (length protocols))), FBytes u, FRaw (concat protocols)] p))"

subsection \<open>The connect response\<close>

definition recvHandshakeBlob :: "string \<Rightarrow> bytes wm" where
  "recvHandshakeBlob what =
     wbind (wtry recv_int) (\<lambda>r. case r of
       Inl e \<Rightarrow> werr (Wrapped ''firebirdsql: reading %s length: %w'' e)
     | Inr w \<Rightarrow> let ln = sint w in
         if ln < 0 \<or> ln > maxWirePayload then werr (Plain ''firebirdsql: %s length %d out of range'')
         else recvPacketsAlignment ln)"

definition errLoginUndefined :: go_error where
  "errLoginUndefined = Plain ''Your user name and password are not defined. Ask your database administrator to set up a Firebird login.''"

text \<open>\<open>bigIntFromHexString\<close>; on text that is no hexadecimal number \<open>big.Int\<close> leaves an undefined value.\<close>

definition hex_val :: "char \<Rightarrow> int option" where
  "hex_val c = (let n = of_char c :: int in
     if 48 \<le> n \<and> n \<le> 57 then Some (n - 48)
     else if 97 \<le> n \<and> n \<le> 102 then Some (n - 87)
     else if 65 \<le> n \<and> n \<le> 70 then Some (n - 55) else None)"

definition bigIntFromHexString :: "(string \<Rightarrow> int) \<Rightarrow> string \<Rightarrow> int" where
  "bigIntFromHexString undefined_big s =
     (let (neg, ds) = (case s of c # cs \<Rightarrow> (if c = CHR ''-'' then (True, cs) else if c = CHR ''+'' then (False, cs) else (False, s))
        | [] \<Rightarrow> (False, s)) in
      if ds \<noteq> [] \<and> list_all (\<lambda>c. hex_val c \<noteq> None) ds
      then (let v = foldl (\<lambda>n c. 16 * n + the (hex_val c)) 0 ds in if neg then - v else v)
      else undefined_big s)"

text \<open>The SRP data of the server: a salt with a 16-bit length, then the server's public key.\<close>

definition srp_server_data :: "(string \<Rightarrow> int) \<Rightarrow> bytes \<Rightarrow> (bytes \<times> int) res" where
  "srp_server_data undef data =
     (if length data < 2 then Inl (Plain ''firebirdsql: SRP server auth data too short (%d bytes)'')
      else bind_res (bind_res (go_slice data 0 2) bytes_to_uint16) (\<lambda>ln.
        if 4 + ln > length data then Inl (Plain ''firebirdsql: SRP salt length %d inconsistent with server auth data (%d bytes)'')
        else bind_res (go_slice data 2 (int ln + 2)) (\<lambda>salt.
             bind_res (go_slice data (4 + int ln) (int (length data))) (\<lambda>pub.
             Inr (salt, bigIntFromHexString undef (bytes_to_str pub))))))"

text \<open>The data the server did not send at first: op_cont_auth and its four fields.\<close>

definition cont_auth_data :: "options \<Rightarrow> int \<Rightarrow> bytes option wm" where
  "cont_auth_data opts clientPublic =
     (\<lambda>p. wbind (wtry (opContAuth (bigIntToBytes clientPublic) (p_pluginName p) (opts ''auth_plugin_list'') '''')) (\<lambda>_.
      wbind recv_int (\<lambda>oper.
      if oper = op_response then
        wbind parse_op_response (\<lambda>(h, oid, b, err). case err of Some e \<Rightarrow> werr e | None \<Rightarrow> wret None)
      else if oper \<noteq> op_cont_auth then werr errLoginUndefined
      else wbind (recvHandshakeBlob ''cont-auth data'') (\<lambda>data.
           wbind (recvHandshakeBlob ''cont-auth plugin name'') (\<lambda>_.
           wbind (recvHandshakeBlob ''cont-auth plugin list'') (\<lambda>_.
           wbind (recvHandshakeBlob ''cont-auth keys'') (\<lambda>_. wret (Some data))))))) p)"

text \<open>The authentication of a client the server has not yet accepted: authData and session key.\<close>

definition client_auth ::
  "(string \<Rightarrow> int) \<Rightarrow> string \<Rightarrow> string \<Rightarrow> options \<Rightarrow> int \<Rightarrow> int \<Rightarrow> bytes \<Rightarrow> (bytes \<times> bytes option) option wm" where
  "client_auth undef user password opts clientPublic clientSecret data = (\<lambda>p.
     if \<not> isAuthPluginAllowed (p_pluginName p) (opts ''auth_plugin_list'')
     then werr (Plain ''firebirdsql: server selected auth plugin %q which is not in the client allow-list'') p
     else if p_pluginName p = ''Srp'' \<or> p_pluginName p = ''Srp256'' then
       wbind (if data = [] then cont_auth_data opts clientPublic else wret (Some data)) (\<lambda>od.
       case od of None \<Rightarrow> wret None
       | Some data \<Rightarrow>
           if data = [] then werr errLoginUndefined
           else wbind (wlift (srp_server_data undef data)) (\<lambda>(salt, serverPublic).
                wbind (wlift (getClientProof (p_env p) (ToUpper user) password salt clientPublic serverPublic
                         clientSecret (p_pluginName p))) (\<lambda>(authData, sessionKey).
                wret (Some (authData, Some sessionKey))))) p
     else if p_pluginName p = ''Legacy_Auth'' then
       wbind (wlift (crypt_auth (p_env p) password)) (\<lambda>b. wret (Some (b, None))) p
     else werr errLoginUndefined p)"

text \<open>What a handshake has established before the encryption decision.\<close>

record negotiated =
  n_authData :: "bytes option"
  n_sessionKey :: "bytes option"
  n_plugin :: string
  n_nonce :: bytes

definition nothing_negotiated :: negotiated where
  "nothing_negotiated = \<lparr> n_authData = None, n_sessionKey = None, n_plugin = '''', n_nonce = [] \<rparr>"

definition accept_auth ::
  "(string \<Rightarrow> int) \<Rightarrow> string \<Rightarrow> string \<Rightarrow> options \<Rightarrow> int \<Rightarrow> int \<Rightarrow> int32 \<Rightarrow> negotiated option wm" where
  "accept_auth undef user password opts clientPublic clientSecret opcode =
     wbind (recvHandshakeBlob ''accept auth data'') (\<lambda>data.
     wbind (recvHandshakeBlob ''accept plugin name'') (\<lambda>pluginName.
     wbind (wupd (\<lambda>p. p\<lparr>p_pluginName := bytes_to_str pluginName\<rparr>)) (\<lambda>_.
     wbind recv_int (\<lambda>isAuthenticated.
     wbind (recvHandshakeBlob ''accept keys'') (\<lambda>_.
     wbind (if isAuthenticated = 0
            then wbind (client_auth undef user password opts clientPublic clientSecret data) (\<lambda>r.
                 wret (map_option (\<lambda>(a, k). (Some a, k)) r))
            else wret (Some (None, None))) (\<lambda>r.
     case r of None \<Rightarrow> wret None
     | Some (authData, sessionKey) \<Rightarrow>
         if opcode = op_cond_accept then
           wbind (wtry (opContAuth (case authData of None \<Rightarrow> [] | Some a \<Rightarrow> a)
                    (opts ''auth_plugin_name'') (opts ''auth_plugin_list'') '''')) (\<lambda>_.
           wbind opResponse (\<lambda>(h, oid, b).
           let (pl, nonce) = guess_wire_crypt b (splitList (opts ''wire_crypt_plugin''))
           in wret (Some \<lparr> n_authData = authData, n_sessionKey = sessionKey, n_plugin = pl, n_nonce = nonce \<rparr>)))
         else wret (Some \<lparr> n_authData = authData, n_sessionKey = sessionKey, n_plugin = '''', n_nonce = [] \<rparr>)))))))"

text \<open>The first phase: the opcode, the accepted protocol, the authentication.\<close>

definition connect_phase ::
  "(string \<Rightarrow> int) \<Rightarrow> string \<Rightarrow> string \<Rightarrow> options \<Rightarrow> int \<Rightarrow> int \<Rightarrow> (wire_crypt_mode \<times> negotiated) option wm" where
  "connect_phase undef user password opts clientPublic clientSecret =
     wbind recv_int_ignore (\<lambda>w.
     wbind (skip_dummy w) (\<lambda>opcode.
     if opcode = op_reject then werr (Plain ''_parse_connect_response() op_reject'')
     else if opcode = op_response then
       wbind parse_op_response (\<lambda>(h, oid, b, err). case err of Some e \<Rightarrow> werr e | None \<Rightarrow> wret None)
     else
       wbind (recv_ignore 12) (\<lambda>b.
       wbind (wlift (go_index b 3)) (\<lambda>version.
       wbind (wlift (bind_res (go_slice b 4 8) bytes_to_bint32)) (\<lambda>arch.
       wbind (wlift (bind_res (go_slice b 8 12) bytes_to_bint32)) (\<lambda>atype.
       wbind (wupd (\<lambda>p. p\<lparr>p_protocolVersion := uint version, p_acceptArchitecture := arch, p_acceptType := atype,
                          p_user := user, p_password := password\<rparr>)) (\<lambda>_.
       wbind (wupd (\<lambda>p. if p_acceptType p AND pflag_compress \<noteq> 0
                then p\<lparr>p_chan := snd (enableCompression (env_zlib (p_env p)) (p_chan p)), p_acceptType := p_acceptType p AND ptype_MASK\<rparr> else p)) (\<lambda>_.
       wbind (wlift (parseWireCryptMode (opts ''wire_crypt''))) (\<lambda>mode.
       wbind (if opcode = op_cond_accept \<or> opcode = op_accept_data
              then accept_auth undef user password opts clientPublic clientSecret opcode
              else if opcode \<noteq> op_accept then werr (Plain ''_parse_connect_response() protocol error'')
              else wret (Some nothing_negotiated)) (\<lambda>r.
       wret (map_option (Pair mode) r)))))))))))"

text \<open>The second phase: the encryption decision, and arming the cipher.\<close>

definition encrypt_phase :: "wire_crypt_mode \<Rightarrow> negotiated \<Rightarrow> unit wm" where
  "encrypt_phase mode n =
     (case wireCryptResolve mode (n_plugin n) (n_sessionKey n \<noteq> None) of
        (_, Some e) \<Rightarrow> werr e
      | (True, None) \<Rightarrow>
          wbind (opCrypt (n_plugin n)) (\<lambda>_.
          wbind (\<lambda>p. let (err, c) = setCryptKey (env_chacha (p_env p)) (env_sha256 (p_env p)) (n_plugin n)
                            (the (n_sessionKey n)) (n_nonce n) (p_chan p)
                     in ((case err of Some e \<Rightarrow> Inl e | None \<Rightarrow> Inr ()), p\<lparr>p_chan := c\<rparr>)) (\<lambda>_.
          wbind opResponse (\<lambda>_. wret ())))
      | (False, None) \<Rightarrow> wupd (\<lambda>p. p\<lparr>p_authData := n_authData n\<rparr>))"

definition parse_connect_response ::
  "(string \<Rightarrow> int) \<Rightarrow> string \<Rightarrow> string \<Rightarrow> options \<Rightarrow> int \<Rightarrow> int \<Rightarrow> unit wm" where
  "parse_connect_response undef user password opts clientPublic clientSecret =
     wbind (connect_phase undef user password opts clientPublic clientSecret) (\<lambda>r.
     case r of None \<Rightarrow> wret () | Some (mode, n) \<Rightarrow> encrypt_phase mode n)"

subsection \<open>What an operation yields\<close>

text \<open>Every result of an operation satisfies a predicate.\<close>

definition yields :: "'a wm \<Rightarrow> ('a \<Rightarrow> bool) \<Rightarrow> bool" where
  "yields m P \<longleftrightarrow> (\<forall>p x p'. m p = (Inr x, p') \<longrightarrow> P x)"

lemma yieldsD: "yields m P \<Longrightarrow> m p = (Inr x, p') \<Longrightarrow> P x"
  unfolding yields_def by blast

lemma yields_bind: "(\<And>x p p'. m p = (Inr x, p') \<Longrightarrow> yields (f x) P) \<Longrightarrow> yields (wbind m f) P"
  unfolding yields_def wbind_def by (auto split: prod.splits sum.splits)

lemma yields_basic [simp]: "yields (wret x) P = P x" "yields (werr e) P"
  by (simp_all add: yields_def)

lemma yields_trivial [simp]: "yields m (\<lambda>_. True)"
  by (simp add: yields_def)

subsection \<open>Choosing the cipher\<close>

definition usable_cipher :: "bytes \<Rightarrow> string \<Rightarrow> bool" where
  "usable_cipher buf pl \<longleftrightarrow> pl \<in> set (fst (crypt_records buf [] [])) \<and>
     pick_nonce pl (snd (crypt_records buf [] [])) \<noteq> None"

lemma pick_nonce_name: "pick_nonce pl ns = Some (c, n) \<Longrightarrow> c = pl \<and> c \<in> {''ChaCha64'', ''ChaCha'', ''Arc4''}"
  by (auto simp: pick_nonce_def split: if_splits list.splits)

lemma guess_wire_crypt_find:
  "fst (guess_wire_crypt buf cl) = (case find (usable_cipher buf) cl of None \<Rightarrow> '''' | Some c \<Rightarrow> c)"
  unfolding guess_wire_crypt_def usable_cipher_def
proof (induction cl)
  case (Cons c cl)
  show ?case
    using Cons pick_nonce_name [of c "snd (crypt_records buf [] [])"]
    by (auto simp: case_prod_beta Let_def split: option.splits)
qed (simp add: case_prod_beta Let_def)

lemma guess_wire_crypt_member:
  "fst (guess_wire_crypt buf cl) = '''' \<or> fst (guess_wire_crypt buf cl) \<in> set cl"
  unfolding guess_wire_crypt_find by (auto simp: find_Some_iff split: option.split)

lemma yields_chain: "yields m Q \<Longrightarrow> (\<And>x. Q x \<Longrightarrow> yields (f x) P) \<Longrightarrow> yields (wbind m f) P"
  unfolding yields_def wbind_def by (simp split: prod.splits sum.splits) blast

subsection \<open>The decision\<close>

definition cipher_from :: "options \<Rightarrow> negotiated option \<Rightarrow> bool" where
  "cipher_from opts r \<longleftrightarrow> (case r of None \<Rightarrow> True
     | Some n \<Rightarrow> n_plugin n = '''' \<or> n_plugin n \<in> set (splitList (opts ''wire_crypt_plugin'')))"

lemma yields_if: "(b \<Longrightarrow> yields m P) \<Longrightarrow> (\<not> b \<Longrightarrow> yields n P) \<Longrightarrow> yields (if b then m else n) P"
  by simp

lemma yields_any: "(\<And>x. yields (f x) P) \<Longrightarrow> yields (wbind m f) P"
  by (rule yields_bind)

lemma accept_auth_cipher:
  "yields (accept_auth undef user password opts A a opcode) (cipher_from opts)"
proof -
  have g: "yields (case guess_wire_crypt b (splitList (opts ''wire_crypt_plugin'')) of (pl, nonce)
           \<Rightarrow> wret (Some \<lparr> n_authData = d, n_sessionKey = k, n_plugin = pl, n_nonce = nonce \<rparr>)) (cipher_from opts)"
    for b d k
    using guess_wire_crypt_member [of b "splitList (opts ''wire_crypt_plugin'')"]
    by (simp add: case_prod_beta cipher_from_def)
  have none: "cipher_from opts None" and empty: "n_plugin n = '''' \<Longrightarrow> cipher_from opts (Some n)" for n
    by (simp_all add: cipher_from_def)
  show ?thesis
    unfolding accept_auth_def
    by (rule yields_any)+ (auto intro!: yields_any g none empty split: option.split)
qed

lemma connect_phase_cipher:
  "yields (connect_phase undef user password opts A a)
     (\<lambda>r. case r of None \<Rightarrow> True | Some (mode, n) \<Rightarrow> parseWireCryptMode (opts ''wire_crypt'') = Inr mode \<and>
        cipher_from opts (Some n))"
  (is "yields _ ?P")
proof -
  have none: "?P None" by simp
  have resp: "yields (wbind parse_op_response (\<lambda>(h, oid, b, err). case err of Some e \<Rightarrow> werr e | None \<Rightarrow> wret None)) ?P"
    by (auto intro!: yields_any split: option.split)
  have fin: "yields (wbind m (\<lambda>r. wret (map_option (Pair mode) r))) ?P"
    if "yields m (cipher_from opts)" "parseWireCryptMode (opts ''wire_crypt'') = Inr mode" for m mode
    using that by (intro yields_chain [OF that(1)]) (auto simp: cipher_from_def split: option.splits)
  have mode: "yields (wbind (wlift (parseWireCryptMode (opts ''wire_crypt''))) f) ?P"
    if "\<And>mode. parseWireCryptMode (opts ''wire_crypt'') = Inr mode \<Longrightarrow> yields (f mode) ?P" for f
    by (rule yields_bind, rule that) (auto simp: wlift_def)
  have sel: "yields (if b then accept_auth undef user password opts A a oc
      else if c then werr e else wret (Some nothing_negotiated)) (cipher_from opts)" for b c e oc
    using accept_auth_cipher [of undef user password opts A a oc]
    by (simp add: cipher_from_def nothing_negotiated_def)
  show ?thesis
    unfolding connect_phase_def
    apply (rule yields_any)+
    apply (rule yields_if, rule yields_basic(2), rule yields_if, rule resp)
    by (rule yields_any, rule yields_any, rule yields_any, rule yields_any, rule yields_any, rule yields_any,
        rule mode, rule fin, rule sel)
qed

end
