(* ===== verification/Handshake_Run.thy ===== *)
theory Handshake_Run
  imports Handshake
begin

text \<open>
  Whole handshakes: the messages of a server that follows the protocol, the session they lead to,
  and what the encryption policy guarantees of a connection that was set up.
\<close>

subsection \<open>What a server sends\<close>

record server_accept =
  sa_version :: "byte list"
  sa_arch :: int32
  sa_type :: int32
  sa_data :: bytes
  sa_plugin :: string
  sa_authenticated :: int32
  sa_keys :: bytes

definition accept_bytes :: "int32 \<Rightarrow> server_accept \<Rightarrow> bytes" where
  "accept_bytes opcode s = bint32_to_bytes opcode @ sa_version s @ bint32_to_bytes (sa_arch s) @
     bint32_to_bytes (sa_type s) @ xdrBytes (sa_data s) @ xdrBytes (str_to_bytes (sa_plugin s)) @
     bint32_to_bytes (sa_authenticated s) @ xdrBytes (sa_keys s)"

definition accept_fits :: "server_accept \<Rightarrow> bool" where
  "accept_fits s \<longleftrightarrow> length (sa_version s) = 4 \<and> length (sa_data s) \<le> maxWirePayload \<and>
     length (sa_plugin s) \<le> maxWirePayload \<and> length (sa_keys s) \<le> maxWirePayload"

definition server_auth_data :: "bytes \<Rightarrow> int \<Rightarrow> bytes" where
  "server_auth_data salt serverPublic =
     (let pub = str_to_bytes (hex_encode (bigIntToBytes serverPublic)) in
      le_bytes 2 (length salt) @ salt @ le_bytes 2 (length pub) @ pub)"

lemma recvHandshakeBlob_frame [simp]:
  "length b \<le> maxWirePayload \<Longrightarrow> recvHandshakeBlob what (feed (xdrBytes b @ rest) p) = (Inr b, feed rest p)"
  using sint_length32 [of b]
  by (simp add: recvHandshakeBlob_def xdrBytes_counted wbind_def wtry_def Let_def del: of_int_of_nat_eq)

lemma hex_val_digit: "d < 16 \<Longrightarrow> hex_val (hex_digit d) = Some (int d)"
proof -
  have "(of_char (char_of n) :: int) = int (n mod 256)" for n :: nat by (metis of_char_of of_nat_of_char)
  then show "d < 16 \<Longrightarrow> hex_val (hex_digit d) = Some (int d)" by (simp add: hex_val_def hex_digit_def Let_def)
qed

lemma hex_encode_Cons: "hex_encode (b # bs) = hex_digit (unat b div 16) # hex_digit (unat b mod 16) # hex_encode bs"
  by (simp add: hex_encode_def)

lemma foldl_hex:
  "foldl (\<lambda>n c. 16 * n + the (hex_val c)) v (hex_encode bs) = foldl (\<lambda>n b. n * 256 + uint b) v bs"
proof (induction bs arbitrary: v)
  case (Cons b bs)
  have step: "a = x \<Longrightarrow> c = y \<Longrightarrow> 16 * x + y = z \<Longrightarrow> 16 * (16 * v + a) + c = v * 256 + z" for a c x y z :: int
    by simp
  have "unat b < 256" by (rule unat_byte_lt)
  then have "the (hex_val (hex_digit (unat b div 16))) = int (unat b div 16)"
    "the (hex_val (hex_digit (unat b mod 16))) = int (unat b mod 16)"
    by (simp_all add: hex_val_digit div_less_iff_less_mult)
  moreover have "16 * int (unat b div 16) + int (unat b mod 16) = uint b"
    by (metis mult_div_mod_eq of_nat_add of_nat_mult of_nat_numeral uint_nat)
  ultimately have "16 * (16 * v + the (hex_val (hex_digit (unat b div 16)))) + the (hex_val (hex_digit (unat b mod 16)))
      = v * 256 + uint b" by (rule step)
  then show ?case unfolding hex_encode_Cons foldl_Cons by (simp only: Cons)
qed (simp add: hex_encode_def)

lemma hex_encode_digits: "list_all (\<lambda>c. hex_val c \<noteq> None) (hex_encode bs)"
proof (induction bs)
  case (Cons b bs)
  have "unat b < 256" by (rule unat_byte_lt)
  then show ?case using Cons by (simp add: hex_encode_def hex_val_digit div_less_iff_less_mult)
qed (simp add: hex_encode_def)

lemma hex_encode_head: "hex_encode bs = c # cs \<Longrightarrow> c \<noteq> CHR ''-'' \<and> c \<noteq> CHR ''+''"
  using hex_encode_digits [of bs] by (auto simp: hex_val_def Let_def)

lemma bigIntFromHexString_hex: "bs \<noteq> [] \<Longrightarrow> bigIntFromHexString undef (hex_encode bs) = bytesToBigInt bs"
proof -
  assume "bs \<noteq> []"
  then obtain c cs where h: "hex_encode bs = c # cs" by (cases bs) (auto simp: hex_encode_def)
  then have "bigIntFromHexString undef (hex_encode bs) =
      foldl (\<lambda>n c. 16 * n + the (hex_val c)) 0 (hex_encode bs)"
    using hex_encode_digits [of bs] hex_encode_head [OF h] unfolding h by (simp add: bigIntFromHexString_def)
  then show ?thesis by (simp add: foldl_hex bytesToBigInt_def)
qed


lemma srp_server_data_frame:
  assumes "length salt < 65536" "0 < B" "B < 2 ^ 1024"
  shows "srp_server_data undef (server_auth_data salt B) = Inr (salt, B)"
proof -
  have r: "bytesToBigInt (bigIntToBytes B) = B"
    using assms(2,3) by (simp add: bytesToBigInt_pad)
  then have ne: "bigIntToBytes B \<noteq> []" using assms(2) by (auto simp: bytesToBigInt_def)
  have l: "bytes_to_uint16 (le_bytes 2 (length salt)) = Inr (length salt)"
    using assms(1) by (simp add: bytes_to_uint16_def le_uint_def le_val_le_bytes)
  define pub where "pub = str_to_bytes (hex_encode (bigIntToBytes B))"
  have p: "bigIntFromHexString undef (bytes_to_str pub) = B"
    unfolding pub_def using bigIntFromHexString_hex [OF ne] r by simp
  have d: "server_auth_data salt B = le_bytes 2 (length salt) @ salt @ le_bytes 2 (length pub) @ pub"
    by (simp add: server_auth_data_def pub_def Let_def)
  have n: "nat (2 + int (length salt)) = 2 + length salt" "nat (4 + int (length salt)) = 4 + length salt"
    "nat (int (length salt) + 2) = length salt + 2"
    by simp_all
  show ?thesis
    unfolding srp_server_data_def d by (simp add: go_slice_def l p n)
qed


subsection \<open>A session with a server that follows the protocol\<close>

lemma seq_cong: "m p = (Inr x, q) \<Longrightarrow> wbind m f p = f x q"
  by (simp add: wbind_def)

lemma client_auth_frame:
  assumes "pl = ''Srp'' \<or> pl = ''Srp256''" "p_pluginName p = pl"
    and "isAuthPluginAllowed pl (opts ''auth_plugin_list'')"
    and "length salt < 65536" "0 < B" "B < 2 ^ 1024"
    and "getClientProof (p_env p) (ToUpper user) password salt A B a pl = Inr (proof, key)"
  shows "client_auth undef user password opts A a (server_auth_data salt B) p = (Inr (Some (proof, Some key)), p)"
proof -
  have "server_auth_data salt B \<noteq> []" by (simp add: server_auth_data_def Let_def numeral_2_eq_2)
  then show ?thesis
    using assms srp_server_data_frame [OF assms(4-6), of undef]
    unfolding client_auth_def by (auto simp: wbind_def)
qed

lemma opContAuth_frame:
  assumes "\<And>n. p_wr_ok p n"
  shows "\<exists>b. opContAuth d n l k p = (Inr (), sent b p)"
  using assms by (auto simp: opContAuth_def send_fields_eq sent_def bint32_to_bytes_def intro: exI)

lemma opCrypt_frame:
  assumes "\<And>n. p_wr_ok p n"
  shows "\<exists>b. opCrypt pl p = (Inr (), sent b p)"
  using assms by (auto simp: opCrypt_def send_fields_eq sent_def bint32_to_bytes_def intro: exI)

text \<open>Everything the server sends in a session that ends with the cipher armed.\<close>

definition good_server :: "go_env \<Rightarrow> options \<Rightarrow> server_accept \<Rightarrow> response \<Rightarrow> response \<Rightarrow> bool" where
  "good_server env opts s r ack \<longleftrightarrow>
     accept_fits s \<and> (sa_plugin s = ''Srp'' \<or> sa_plugin s = ''Srp256'') \<and>
     isAuthPluginAllowed (sa_plugin s) (opts ''auth_plugin_list'') \<and>
     sa_type s AND pflag_compress = 0 \<and> sa_authenticated s = 0 \<and>
     response_fits r \<and> clause_codes (r_status r) = [] \<and> response_fits ack \<and> clause_codes (r_status ack) = []"

definition accepted :: "server_accept \<Rightarrow> string \<Rightarrow> string \<Rightarrow> wire_protocol \<Rightarrow> wire_protocol" where
  "accepted s user password p = p\<lparr>p_protocolVersion := uint (sa_version s ! 3), p_acceptArchitecture := sa_arch s,
     p_acceptType := sa_type s, p_user := user, p_password := password, p_pluginName := sa_plugin s\<rparr>"

lemma accepted_simps [simp]:
  "p_chan (accepted s u w p) = p_chan p" "p_env (accepted s u w p) = p_env p" "p_wr_ok (accepted s u w p) = p_wr_ok p"
  "p_lazyResponseCount (accepted s u w p) = p_lazyResponseCount p" "p_pluginName (accepted s u w p) = sa_plugin s"
  by (simp_all add: accepted_def)

lemma accept_auth_frame:
  assumes "good_server (p_env p) opts s r ack" "\<And>n. p_wr_ok p n" "p_lazyResponseCount p = 0"
    and "sa_data s = server_auth_data salt B" "length salt < 65536" "0 < B" "B < 2 ^ 1024"
    and "getClientProof (p_env p) (ToUpper user) password salt A B a (sa_plugin s) = Inr (proof, key)"
    and "guess_wire_crypt (r_data r) (splitList (opts ''wire_crypt_plugin'')) = (pl, nonce)"
  shows "\<exists>b. accept_auth undef user password opts A a op_cond_accept
     (feed (xdrBytes (sa_data s) @ xdrBytes (str_to_bytes (sa_plugin s)) @ bint32_to_bytes (sa_authenticated s) @
        xdrBytes (sa_keys s) @ response_bytes r @ rest) p) =
     (Inr (Some \<lparr> n_authData = Some proof, n_sessionKey = Some key, n_plugin = pl, n_nonce = nonce \<rparr>),
      feed rest (sent b (p\<lparr>p_pluginName := sa_plugin s\<rparr>)))"
proof -
  define q where "q = p\<lparr>p_pluginName := sa_plugin s\<rparr>"
  have q: "p_pluginName q = sa_plugin s" "p_env q = p_env p" "p_wr_ok q = p_wr_ok p" "p_lazyResponseCount q = 0"
    "(feed b p)\<lparr>p_pluginName := sa_plugin s\<rparr> = feed b q" for b
    using assms(3) by (simp_all add: q_def feed_def del: feed_simps)
  obtain b where c: "opContAuth proof (opts ''auth_plugin_name'') (opts ''auth_plugin_list'') ''''
      (feed (response_bytes r @ rest) q) = (Inr (), sent b (feed (response_bytes r @ rest) q))"
    using opContAuth_frame [of "feed (response_bytes r @ rest) q" "proof" "opts ''auth_plugin_name''"
      "opts ''auth_plugin_list''" "''''"] assms(2) q by auto
  have a: "client_auth undef user password opts A a (server_auth_data salt B) (feed (response_bytes r @ rest) q) =
      (Inr (Some (proof, Some key)), feed (response_bytes r @ rest) q)"
    using assms q by (intro client_auth_frame) (auto simp: good_server_def)
  have o: "opResponse (feed (response_bytes r @ rest) (sent b q)) = (Inr (r_handle r, r_oid r, r_data r), feed rest (sent b q))"
    using assms(1) q by (intro opResponse_frame) (auto simp: good_server_def)
  have len: "length (server_auth_data salt B) \<le> maxWirePayload" "length (sa_plugin s) \<le> maxWirePayload"
    "length (sa_keys s) \<le> maxWirePayload" "sa_authenticated s = 0"
    using assms(1,4) by (auto simp: good_server_def accept_fits_def)
  show ?thesis
    unfolding q_def [symmetric] accept_auth_def assms(4)
    by (rule exI [of _ b]) (simp add: len wbind_def wtry_def wupd_def q a c o assms(9))
qed

lemma connect_phase_frame:
  assumes "good_server (p_env p) opts s r ack" "\<And>n. p_wr_ok p n" "p_lazyResponseCount p = 0"
    and "sa_data s = server_auth_data salt B" "length salt < 65536" "0 < B" "B < 2 ^ 1024"
    and "getClientProof (p_env p) (ToUpper user) password salt A B a (sa_plugin s) = Inr (proof, key)"
    and "guess_wire_crypt (r_data r) (splitList (opts ''wire_crypt_plugin'')) = (pl, nonce)"
    and "parseWireCryptMode (opts ''wire_crypt'') = Inr mode"
  shows "\<exists>b. connect_phase undef user password opts A a
     (feed (accept_bytes op_cond_accept s @ response_bytes r @ rest) p) =
     (Inr (Some (mode, \<lparr> n_authData = Some proof, n_sessionKey = Some key, n_plugin = pl, n_nonce = nonce \<rparr>)),
      feed rest (sent b (accepted s user password p)))"
proof -
  define tl where "tl = xdrBytes (sa_data s) @ xdrBytes (str_to_bytes (sa_plugin s)) @
     bint32_to_bytes (sa_authenticated s) @ xdrBytes (sa_keys s) @ response_bytes r @ rest"
  define hd where "hd = sa_version s @ bint32_to_bytes (sa_arch s) @ bint32_to_bytes (sa_type s)"
  define q where "q = p\<lparr>p_protocolVersion := uint (sa_version s ! 3), p_acceptArchitecture := sa_arch s,
     p_acceptType := sa_type s, p_user := user, p_password := password\<rparr>"
  have q: "p_env q = p_env p" "p_wr_ok q = p_wr_ok p" "p_lazyResponseCount q = 0"
      "q\<lparr>p_pluginName := sa_plugin s\<rparr> = accepted s user password p" "p_acceptType q = sa_type s"
    "(feed c p)\<lparr>p_protocolVersion := uint (sa_version s ! 3), p_acceptArchitecture := sa_arch s,
     p_acceptType := sa_type s, p_user := user, p_password := password\<rparr> = feed c q" for c
    using assms(3) by (simp_all add: q_def feed_def accepted_def del: feed_simps)
  have v: "length (sa_version s) = 4" and z: "sa_type s AND pflag_compress = 0"
    using assms(1) by (simp_all add: good_server_def accept_fits_def)
  have b: "accept_bytes op_cond_accept s @ response_bytes r @ rest = bint32_to_bytes op_cond_accept @ hd @ tl"
    by (simp add: accept_bytes_def hd_def tl_def)
  have h: "length hd = 12" "hd ! 3 = sa_version s ! 3" "bytes_to_bint32 (take 4 (drop 4 hd)) = Inr (sa_arch s)"
    "bytes_to_bint32 (drop 8 hd) = Inr (sa_type s)"
    using v bint32_codec.dec_enc_Nil by (simp_all add: hd_def nth_append bint32_codec.enc_length)
  have d: "skip_dummy op_cond_accept y = (Inr op_cond_accept, y)" for y by (subst skip_dummy.simps) simp
  have i: "recv_ignore 12 (feed (hd @ tl) p) = (Inr hd, feed tl p)"
    using h(1) by (simp add: recv_ignore_def recv_raw_def wbind_def)
  obtain c where acc: "accept_auth undef user password opts A a op_cond_accept (feed tl q) =
      (Inr (Some \<lparr> n_authData = Some proof, n_sessionKey = Some key, n_plugin = pl, n_nonce = nonce \<rparr>),
      feed rest (sent c (q\<lparr>p_pluginName := sa_plugin s\<rparr>)))"
    using accept_auth_frame [where p = q and s = s and r = r and rest = rest and undef = undef and user = user
      and password = password and opts = opts and A = A and a = a] assms q unfolding tl_def by (metis (no_types, lifting))
  show ?thesis
    unfolding connect_phase_def b
    by (rule exI [of _ c]) (simp add: h wbind_def d i
        wupd_def q z assms(10) acc)
qed

subsection \<open>The decision, run\<close>

definition armed :: "wire_channel \<Rightarrow> bool" where
  "armed c \<longleftrightarrow> ch_plugin c = ''Arc4'' \<and> rc4writer c \<noteq> None \<and> rc4reader c \<noteq> None \<or>
     (ch_plugin c = ''ChaCha64'' \<or> ch_plugin c = ''ChaCha'') \<and> chacha20writer c \<noteq> None \<and> chacha20reader c \<noteq> None"

lemma setCryptKey_armed: "setCryptKey chacha sha256 pl key nonce c = (None, c') \<Longrightarrow> armed c' \<and> ch_plugin c' = pl"
  by (auto simp: setCryptKey_def Let_def armed_def split: if_splits sum.splits)

lemma encrypt_phase_run:
  assumes "encrypt_phase mode n p = (Inr (), p')" "wireCryptResolve mode (n_plugin n) (n_sessionKey n \<noteq> None) = (True, e)"
  shows "armed (p_chan p') \<and> ch_plugin (p_chan p') = n_plugin n"
proof -
  let ?arm = "\<lambda>p. let (err, c) = setCryptKey (env_chacha (p_env p)) (env_sha256 (p_env p)) (n_plugin n)
       (the (n_sessionKey n)) (n_nonce n) (p_chan p)
     in ((case err of Some e \<Rightarrow> Inl e | None \<Rightarrow> Inr ()), p\<lparr>p_chan := c\<rparr>)"
  have "e = None" using assms(2) by (auto simp: wireCryptResolve_def Let_def)
  then have "wbind (opCrypt (n_plugin n)) (\<lambda>_. wbind ?arm (\<lambda>_. wbind opResponse (\<lambda>_. wret ()))) p = (Inr (), p')"
    using assms by (simp add: encrypt_phase_def)
  then obtain p1 c x where 1: "setCryptKey (env_chacha (p_env p1)) (env_sha256 (p_env p1)) (n_plugin n)
       (the (n_sessionKey n)) (n_nonce n) (p_chan p1) = (None, c)" "opResponse (p1\<lparr>p_chan := c\<rparr>) = (Inr x, p')"
    by (fastforce simp: wbind_def split: prod.splits sum.splits option.splits)
  have "p_chan p' = c" using chan.keepsD [OF chan.keeps_opResponse 1(2)] by simp
  then show ?thesis using setCryptKey_armed [OF 1(1)] by simp
qed

lemma handshake_run:
  assumes "good_server (p_env p) opts s r ack" "\<And>n. p_wr_ok p n" "p_lazyResponseCount p = 0"
    and "hash_160 (p_env p)" "length rnda = 16" "getClientSeed rnda = (A, a)"
    and "getServerSeed rndb (getVerifier (p_env p) (ToUpper user) password salt) = (B, b)" "0 < B"
    and "sa_data s = server_auth_data salt B" "length salt < 65536"
    and "parseWireCryptMode (opts ''wire_crypt'') = Inr mode" "mode \<noteq> wireCryptDisabled"
    and "guess_wire_crypt (r_data r) (splitList (opts ''wire_crypt_plugin'')) = (pl, nonce)" "pl \<noteq> ''''"
    and "setCryptKey (env_chacha (p_env p)) (env_sha256 (p_env p)) pl
           (getServerSession (p_env p) (ToUpper user) password salt A B b) nonce (p_chan p) = (None, c)"
  shows "\<exists>p'. parse_connect_response undef user password opts A a
       (feed (accept_bytes op_cond_accept s @ response_bytes r @ response_bytes ack @ rest) p) = (Inr (), p') \<and>
     p_chan p' = c \<and> p_inbound p' = rest \<and>
     fst (connect_phase undef user password opts A a
       (feed (accept_bytes op_cond_accept s @ response_bytes r @ response_bytes ack @ rest) p)) \<noteq> Inr None"
proof -
  define key where "key = getClientSession (p_env p) (ToUpper user) password salt A B a"
  have key: "key = getServerSession (p_env p) (ToUpper user) password salt A B b"
    unfolding key_def getClientSession_def getServerSession_def
    by (simp add: srp_secret_agreement [OF assms(4-7)])
  have "B = B mod srp_prime" using assms(7) by (auto simp: getServerSeed_def Let_def)
  then have B: "B < 2 ^ 1024" using pos_mod_bound [of srp_prime B] by (simp add: srp_prime_def)
  obtain ad where pf: "getClientProof (p_env p) (ToUpper user) password salt A B a (sa_plugin s) = Inr (ad, key)"
    using assms(1) by (auto simp: getClientProof_def Let_def key_def good_server_def)
  define n where "n = \<lparr> n_authData = Some ad, n_sessionKey = Some key, n_plugin = pl, n_nonce = nonce \<rparr>"
  obtain o1 where c: "connect_phase undef user password opts A a
      (feed (accept_bytes op_cond_accept s @ response_bytes r @ response_bytes ack @ rest) p) =
      (Inr (Some (mode, n)), feed (response_bytes ack @ rest) (sent o1 (accepted s user password p)))"
    unfolding n_def
    using connect_phase_frame [OF assms(1-3,9,10,8) B pf assms(13,11)] by blast
  define q where "q = sent o1 (accepted s user password p)"
  have q: "p_env q = p_env p" "p_wr_ok q = p_wr_ok p" "p_lazyResponseCount q = 0" "p_chan q = p_chan p"
    using assms(3) by (simp_all add: q_def)
  obtain o2 where s: "opCrypt pl (feed (response_bytes ack @ rest) q) = (Inr (), sent o2 (feed (response_bytes ack @ rest) q))"
    using opCrypt_frame [of "feed (response_bytes ack @ rest) q" pl] assms(2) q by auto
  define q2 where "q2 = (sent o2 q)\<lparr>p_chan := c\<rparr>"
  have f: "(feed x (sent o2 q))\<lparr>p_chan := c\<rparr> = feed x q2" for x
    by (simp add: q2_def feed_def del: feed_simps)
  have q2: "p_lazyResponseCount q2 = 0" "p_chan q2 = c" using q by (simp_all add: q2_def)
  have o: "opResponse (feed (response_bytes ack @ rest) q2) = (Inr (r_handle ack, r_oid ack, r_data ack), feed rest q2)"
    using assms(1) q2 by (intro opResponse_frame) (auto simp: good_server_def)
  have "encrypt_phase mode n (feed (response_bytes ack @ rest) q) = (Inr (), feed rest q2)"
    using s o assms(12,14,15) q
    by (simp add: encrypt_phase_def n_def wireCryptResolve_def Let_def wbind_def f key)
  then have "parse_connect_response undef user password opts A a
       (feed (accept_bytes op_cond_accept s @ response_bytes r @ response_bytes ack @ rest) p) = (Inr (), feed rest q2)"
    using c by (simp add: parse_connect_response_def wbind_def q_def)
  then show ?thesis using q2 c by (intro exI [of _ "feed rest q2"]) simp
qed

subsection \<open>A concrete session\<close>

definition hs_wire :: wire_protocol where
  "hs_wire = sample_wire\<lparr>p_env := sample_env\<lparr>env_sha1 := (\<lambda>_. replicate 20 0)\<rparr>\<rparr>"

definition hs_key :: "int \<times> int" where
  "hs_key = getServerSeed (replicate 16 0) (getVerifier (p_env hs_wire) (ToUpper ''sysdba'') ''masterkey'' [1, 2])"

definition hs_accept :: server_accept where
  "hs_accept = \<lparr> sa_version = [0, 0, 0, 13], sa_arch = 1, sa_type = 5, sa_data = server_auth_data [1, 2] (fst hs_key),
     sa_plugin = ''Srp256'', sa_authenticated = 0, sa_keys = [] \<rparr>"

definition hs_offer :: response where
  "hs_offer = \<lparr> r_handle = 0, r_oid = replicate 8 0, r_data = [1, 4] @ str_to_bytes ''Arc4'', r_status = [] \<rparr>"

definition required_opts :: options where
  "required_opts k = (if k = ''wire_crypt'' then ''required'' else if k = ''wire_crypt_plugin'' then ''Arc4''
     else if k = ''auth_plugin_list'' then ''Srp256,Srp'' else '''')"

definition empty_response :: response where
  "empty_response = \<lparr> r_handle = 0, r_oid = replicate 8 0, r_data = [], r_status = [] \<rparr>"

definition hs_stream :: bytes where
  "hs_stream = accept_bytes op_cond_accept hs_accept @ response_bytes hs_offer @ response_bytes empty_response @ [9]"

lemma required_opts_mode: "parseWireCryptMode (required_opts ''wire_crypt'') = Inr wireCryptRequired"
  by code_simp

lemma hs_facts:
  "good_server (p_env hs_wire) required_opts hs_accept hs_offer empty_response"
  "hash_160 (p_env hs_wire)" "0 < fst hs_key"
  "guess_wire_crypt (r_data hs_offer) (splitList (required_opts ''wire_crypt_plugin'')) = (''Arc4'', [])"
  "\<exists>c. setCryptKey (env_chacha (p_env hs_wire)) (env_sha256 (p_env hs_wire)) ''Arc4''
     (getServerSession (p_env hs_wire) (ToUpper ''sysdba'') ''masterkey'' [1, 2] A (fst hs_key) (snd hs_key)) []
     (p_chan hs_wire) = (None, c)"
proof -
  have z: "bytesToBigInt (replicate n 0) = 0" for n by (induction n) (simp_all add: bytesToBigInt_def)
  have k: "hs_key = (srp_k + 1, 0)"
    by (simp add: hs_key_def getServerSeed_def getVerifier_def mod_exp_eq getUserHash_def hs_wire_def
        sample_wire_def sample_env_def z srp_k_def srp_prime_def srp_g_def Let_def)
  show "0 < fst hs_key" unfolding k by (simp add: srp_k_def)
  show "hash_160 (p_env hs_wire)" by (simp add: hash_160_def hs_wire_def sample_wire_def sample_env_def)
  have "length (server_auth_data [1, 2] v) \<le> maxWirePayload" for v
    using length_bigIntToBytes [of v] by (simp add: server_auth_data_def Let_def length_hex_encode)
  moreover have "isAuthPluginAllowed ''Srp256'' (required_opts ''auth_plugin_list'')" by code_simp
  ultimately show "good_server (p_env hs_wire) required_opts hs_accept hs_offer empty_response"
    by (simp add: good_server_def accept_fits_def hs_accept_def hs_offer_def empty_response_def response_fits_def
        clause_codes_def)
  show "guess_wire_crypt (r_data hs_offer) (splitList (required_opts ''wire_crypt_plugin'')) = (''Arc4'', [])"
    by code_simp
  show "\<exists>c. setCryptKey (env_chacha (p_env hs_wire)) (env_sha256 (p_env hs_wire)) ''Arc4''
     (getServerSession (p_env hs_wire) (ToUpper ''sysdba'') ''masterkey'' [1, 2] A (fst hs_key) (snd hs_key)) []
     (p_chan hs_wire) = (None, c)"
    by (simp add: setCryptKey_def Let_def getServerSession_def bigIntToSha1_def rc4_NewCipher_def hs_wire_def sample_wire_def
        sample_env_def)
qed

lemma hs_premises:
  "p_wr_ok hs_wire n" "p_lazyResponseCount hs_wire = 0" "sa_data hs_accept = server_auth_data [1, 2] (fst hs_key)"
  "length (replicate 16 (0 :: byte)) = 16" "length [1, 2 :: byte] < 65536"
  "getClientSeed (replicate 16 0) = (fst (getClientSeed (replicate 16 0)), snd (getClientSeed (replicate 16 0)))"
  "wireCryptRequired \<noteq> wireCryptDisabled" "''Arc4'' \<noteq> ''''"
  "getServerSeed (replicate 16 0) (getVerifier (p_env hs_wire) (ToUpper ''sysdba'') ''masterkey'' [1, 2]) =
      (fst hs_key, snd hs_key)"
  by (simp_all add: hs_wire_def sample_wire_def hs_accept_def) (simp add: hs_key_def hs_wire_def sample_wire_def)

lemma hs_run:
  "\<exists>p'. parse_connect_response undef ''sysdba'' ''masterkey'' required_opts (fst (getClientSeed (replicate 16 0)))
       (snd (getClientSeed (replicate 16 0))) (feed hs_stream hs_wire) = (Inr (), p') \<and> p_inbound p' = [9] \<and>
     fst (connect_phase undef ''sysdba'' ''masterkey'' required_opts (fst (getClientSeed (replicate 16 0)))
       (snd (getClientSeed (replicate 16 0))) (feed hs_stream hs_wire)) \<noteq> Inr None"
proof -
  obtain c where c: "setCryptKey (env_chacha (p_env hs_wire)) (env_sha256 (p_env hs_wire)) ''Arc4''
     (getServerSession (p_env hs_wire) (ToUpper ''sysdba'') ''masterkey'' [1, 2] (fst (getClientSeed (replicate 16 0)))
      (fst hs_key) (snd hs_key)) [] (p_chan hs_wire) = (None, c)"
    using hs_facts(5) by blast
  show ?thesis
    unfolding hs_stream_def
    using handshake_run [OF hs_facts(1) hs_premises(1,2) hs_facts(2) hs_premises(4,6,9) hs_facts(3)
        hs_premises(3,5) required_opts_mode hs_premises(7) hs_facts(4) hs_premises(8) c,
        where rest = "[9]" and undef = undef]
    by blast
qed

subsection \<open>Properties\<close>

text \<open>C12: With wire_crypt=required, a handshake that succeeds has armed a cipher, and one of the
  client's own list, unless the server answered the connect request (or op_cont_auth) with an
  op_response that carries no error: the one exit that does not reach the policy.\<close>

theorem required_fails_closed:
  assumes "parseWireCryptMode (opts ''wire_crypt'') = Inr wireCryptRequired"
    and "parse_connect_response undef user password opts A a p = (Inr (), p')"
  shows "fst (connect_phase undef user password opts A a p) = Inr None \<or>
     armed (p_chan p') \<and> ch_plugin (p_chan p') \<in> set (splitList (opts ''wire_crypt_plugin''))"
proof (cases "fst (connect_phase undef user password opts A a p) = Inr None")
  case False
  obtain r p1 where c: "connect_phase undef user password opts A a p = (r, p1)" by fastforce
  then obtain mode n where r: "r = Inr (Some (mode, n))"
    using False assms(2) by (cases r) (auto simp: parse_connect_response_def wbind_def)
  have m: "mode = wireCryptRequired" "cipher_from opts (Some n)"
    using yieldsD [OF connect_phase_cipher c [unfolded r]] assms(1) by auto
  have e: "encrypt_phase wireCryptRequired n p1 = (Inr (), p')"
    using assms(2) c r m by (simp add: parse_connect_response_def wbind_def)
  then have w: "wireCryptResolve wireCryptRequired (n_plugin n) (n_sessionKey n \<noteq> None) = (True, None)"
    by (auto simp: encrypt_phase_def wireCryptResolve_def Let_def split: if_splits)
  then have "n_plugin n \<noteq> ''''" by (auto simp: wireCryptResolve_def Let_def)
  then show ?thesis using encrypt_phase_run [OF e w] m(2) by (auto simp: cipher_from_def)
qed simp

theorem required_fails_closed_witness:
  "\<exists>p'. parse_connect_response (\<lambda>_. 0) ''sysdba'' ''masterkey'' required_opts (fst (getClientSeed (replicate 16 0)))
       (snd (getClientSeed (replicate 16 0))) (feed hs_stream hs_wire) = (Inr (), p') \<and>
     armed (p_chan p') \<and> ch_plugin (p_chan p') \<in> set (splitList (required_opts ''wire_crypt_plugin''))"
  using hs_run [of "\<lambda>_. 0"] required_fails_closed [where opts = required_opts, OF required_opts_mode] by blast

text \<open>C11: The whole session with a server that follows the protocol and holds the verifier of the
  same user, password and salt: the client reads the server's public key, answers, picks the first
  cipher of its list the server offers and arms it with the very session key the server computed;
  nothing of the stream beyond the acknowledgement is consumed.\<close>

theorem handshake_agrees_on_key:
  assumes "good_server (p_env p) opts s r ack" "\<And>n. p_wr_ok p n" "p_lazyResponseCount p = 0"
    and "hash_160 (p_env p)" "length rnda = 16" "getClientSeed rnda = (A, a)"
    and "getServerSeed rndb (getVerifier (p_env p) (ToUpper user) password salt) = (B, b)" "0 < B"
    and "sa_data s = server_auth_data salt B" "length salt < 65536"
    and "parseWireCryptMode (opts ''wire_crypt'') = Inr mode" "mode \<noteq> wireCryptDisabled"
    and "guess_wire_crypt (r_data r) (splitList (opts ''wire_crypt_plugin'')) = (pl, nonce)" "pl \<noteq> ''''"
    and "setCryptKey (env_chacha (p_env p)) (env_sha256 (p_env p)) pl
           (getServerSession (p_env p) (ToUpper user) password salt A B b) nonce (p_chan p) = (None, c)"
  shows "\<exists>p'. parse_connect_response undef user password opts A a
       (feed (accept_bytes op_cond_accept s @ response_bytes r @ response_bytes ack @ rest) p) = (Inr (), p') \<and>
     p_chan p' = c \<and> p_inbound p' = rest \<and>
     fst (connect_phase undef user password opts A a
       (feed (accept_bytes op_cond_accept s @ response_bytes r @ response_bytes ack @ rest) p)) \<noteq> Inr None"
  by (rule handshake_run [OF assms])

theorem handshake_agrees_on_key_witness:
  "\<exists>c p'. setCryptKey (env_chacha (p_env hs_wire)) (env_sha256 (p_env hs_wire)) ''Arc4''
       (getServerSession (p_env hs_wire) (ToUpper ''sysdba'') ''masterkey'' [1, 2] (fst (getClientSeed (replicate 16 0)))
        (fst hs_key) (snd hs_key)) [] (p_chan hs_wire) = (None, c) \<and>
     parse_connect_response (\<lambda>_. 0) ''sysdba'' ''masterkey'' required_opts (fst (getClientSeed (replicate 16 0)))
       (snd (getClientSeed (replicate 16 0))) (feed hs_stream hs_wire) = (Inr (), p') \<and> p_chan p' = c \<and> p_inbound p' = [9]"
proof -
  obtain c where c: "setCryptKey (env_chacha (p_env hs_wire)) (env_sha256 (p_env hs_wire)) ''Arc4''
     (getServerSession (p_env hs_wire) (ToUpper ''sysdba'') ''masterkey'' [1, 2] (fst (getClientSeed (replicate 16 0)))
      (fst hs_key) (snd hs_key)) [] (p_chan hs_wire) = (None, c)"
    using hs_facts(5) by blast
  show ?thesis
    unfolding hs_stream_def
    using handshake_agrees_on_key [OF hs_facts(1) hs_premises(1,2) hs_facts(2) hs_premises(4,6,9) hs_facts(3)
        hs_premises(3,5) required_opts_mode hs_premises(7) hs_facts(4) hs_premises(8) c, where rest = "[9]" and undef = "\<lambda>_. 0"] c
    by blast
qed

text \<open>C13: An op_response without error, the server's answer to a connect request the code takes for
  a refusal, ends the handshake successfully: no protocol is agreed, nobody is authenticated, and
  wire_crypt=required is not consulted.\<close>

theorem empty_response_skips_policy:
  assumes "response_fits r" "clause_codes (r_status r) = []"
  shows "parse_connect_response undef user password opts A a (feed (response_bytes r @ rest) p) = (Inr (), feed rest p)"
proof -
  have d: "skip_dummy op_response q = (Inr op_response, q)" for q by (subst skip_dummy.simps) simp
  have "sv_error (p_env p) (vector_meaning (p_env p) (r_status r)) = None"
    using vector_meaning_codes [where env = "p_env p" and cs = "r_status r"] assms(2) by (simp add: sv_error_None)
  then show ?thesis
    using parse_op_response_body [OF assms(1), of rest p]
    by (simp add: parse_connect_response_def connect_phase_def response_bytes_def wbind_def d)
qed

theorem empty_response_skips_policy_witness:
  "parseWireCryptMode (required_opts ''wire_crypt'') = Inr wireCryptRequired \<and>
   parse_connect_response (\<lambda>_. 0) ''U'' ''P'' required_opts 1 1 (feed (response_bytes empty_response @ [7]) sample_wire) =
     (Inr (), feed [7] sample_wire) \<and> \<not> armed (p_chan sample_wire)"
proof -
  note required_opts_mode
  moreover have "response_fits empty_response" "clause_codes (r_status empty_response) = []"
    by (simp_all add: empty_response_def response_fits_def clause_codes_def)
  ultimately show ?thesis
    using empty_response_skips_policy [of empty_response "\<lambda>_. 0" "''U''" "''P''" required_opts 1 1 "[7]" sample_wire]
    by (simp add: armed_def sample_wire_def newWireChannel_def)
qed

text \<open>The cipher is the first one of the client's list the server offers in a usable form (with its
  nonce where it needs one), and none when there is no such cipher: the server cannot choose, nor
  make the client take a cipher its list does not name.\<close>

theorem cipher_is_first_usable:
  "fst (guess_wire_crypt buf clientPlugins) = (case find (usable_cipher buf) clientPlugins of None \<Rightarrow> '''' | Some c \<Rightarrow> c)"
  by (rule guess_wire_crypt_find)

lemma validated_plugin:
  assumes "validateAuthPlugins name lst = None"
  shows "name \<in> {''Srp256'', ''Srp'', ''Legacy_Auth''}" "isAuthPluginAllowed name lst"
    "set (splitList lst) \<subseteq> {''Srp256'', ''Srp'', ''Legacy_Auth''}"
proof -
  have "splitList defaultAuthPlugins = [''Srp256'', ''Srp'', ''Legacy_Auth'']" by code_simp
  then have "set (splitList lst) \<subseteq> {''Srp256'', ''Srp'', ''Legacy_Auth''} \<and> name \<in> set (splitList lst)"
    using assms unfolding validateAuthPlugins_def Let_def
    by (simp only: split: if_splits) (fastforce simp: list_ex_iff)+
  then show "name \<in> {''Srp256'', ''Srp'', ''Legacy_Auth''}" "isAuthPluginAllowed name lst"
    "set (splitList lst) \<subseteq> {''Srp256'', ''Srp'', ''Legacy_Auth''}"
    by (auto simp: isAuthPluginAllowed_def)
qed

lemma parseDSN_accepts:
  assumes "parseDSN url_Parse s = Inr d"
  shows "validateAuthPlugins (opt_get (d_options d) ''auth_plugin_name'') (opt_get (d_options d) ''auth_plugin_list'') = None"
    "\<exists>mode. parseWireCryptMode (opt_get (d_options d) ''wire_crypt'') = Inr mode"
    "\<exists>c \<in> set (d_dbName d). c \<noteq> CHR ''/''"
proof -
  obtain u :: parsed_url where u: "(case u_user u of None \<Rightarrow> Inl (Plain ''User unknown'')
      | Some (user, passwd) \<Rightarrow>
          let addr = (if u_has_port u then u_host u else u_host u @ '':3050'');
              dbName = dsn_dbName (u_path u)
          in if dropWhile (\<lambda>c. c = CHR ''/'') dbName = '''' then Inl (Plain ''Database name unknown'')
          else bind_res (dsn_options (u_query u)) (\<lambda>os.
               bind_res (parseWireCryptMode (opt_get os ''wire_crypt'')) (\<lambda>_.
               case validateAuthPlugins (opt_get os ''auth_plugin_name'') (opt_get os ''auth_plugin_list'') of
                 Some e \<Rightarrow> Inl e
               | None \<Rightarrow> Inr \<lparr> d_addr = addr, d_dbName = dbName, d_user = user, d_passwd = passwd, d_options = os \<rparr>))) = Inr d"
    using assms unfolding parseDSN_def Let_def bind_res_Inr by blast
  then obtain os mode where o: "parseWireCryptMode (opt_get os ''wire_crypt'') = Inr mode"
    "validateAuthPlugins (opt_get os ''auth_plugin_name'') (opt_get os ''auth_plugin_list'') = None"
    "d_options d = os" "d_dbName d = dsn_dbName (u_path u)"
    and n: "dropWhile (\<lambda>c. c = CHR ''/'') (dsn_dbName (u_path u)) \<noteq> ''''"
    unfolding Let_def by (fastforce simp: bind_res_Inr split: option.splits if_splits)
  then show "validateAuthPlugins (opt_get (d_options d) ''auth_plugin_name'') (opt_get (d_options d) ''auth_plugin_list'') = None"
    "\<exists>mode. parseWireCryptMode (opt_get (d_options d) ''wire_crypt'') = Inr mode"
    by blast+
  show "\<exists>c \<in> set (d_dbName d). c \<noteq> CHR ''/''" using n o(4) by (auto simp: dropWhile_eq_Nil_conv)
qed

text \<open>A connection string the driver accepts names a database, sets a valid encryption policy and
  lists only plugins the driver implements, its own among them; so opening the connection never
  reaches the panic on an unknown plugin (given a crypt function that returns its two salt characters).\<close>

theorem accepted_dsn_connects:
  assumes "parseDSN url_Parse s = Inr d" "\<And>salt. 2 \<le> length (env_crypt (p_env p) password salt)"
  shows "(\<exists>c \<in> set (d_dbName d). c \<noteq> CHR ''/'') \<and>
    isAuthPluginAllowed (opt_get (d_options d) ''auth_plugin_name'') (opt_get (d_options d) ''auth_plugin_list'') \<and>
    set (splitList (opt_get (d_options d) ''auth_plugin_list'')) \<subseteq> {''Srp256'', ''Srp'', ''Legacy_Auth''} \<and>
    no_panic (fst (opConnect (d_dbName d) (d_user d) password (opt_get (d_options d)) A p))"
proof -
  obtain mode where m: "parseWireCryptMode (opt_get (d_options d) ''wire_crypt'') = Inr mode"
    using parseDSN_accepts(2) [OF assms(1)] by blast
  have v: "opt_get (d_options d) ''auth_plugin_name'' \<in> {''Srp256'', ''Srp'', ''Legacy_Auth''}"
    by (rule validated_plugin(1) [OF parseDSN_accepts(1) [OF assms(1)]])
  have "\<exists>u. uid (p_env p) user password (opt_get (d_options d) ''auth_plugin_name'') l w A = Inr u" for user l w
    using v assms(2) by (auto simp: uid_def Let_def crypt_auth_def go_slice_def)
  then obtain u where "\<And>user l w. uid (p_env p) user password (opt_get (d_options d) ''auth_plugin_name'') l w A = Inr (u user l w)"
    by metis
  then have "no_panic (fst (opConnect (d_dbName d) (d_user d) password (opt_get (d_options d)) A p))"
    by (simp add: opConnect_def m Let_def send_fields_def sendPackets_def)
  then show ?thesis
    using parseDSN_accepts [OF assms(1)] validated_plugin by blast
qed

definition hs_url :: "string \<Rightarrow> parsed_url res" where
  "hs_url s = Inr \<lparr> u_user = Some (''sysdba'', ''masterkey''), u_host = ''localhost'', u_has_port = False,
     u_path = ''/employee'', u_query = [(''wire_crypt'', [''required''])] \<rparr>"

theorem accepted_dsn_connects_witness:
  "\<exists>d. parseDSN hs_url ''sysdba:masterkey@localhost/employee?wire_crypt=required'' = Inr d \<and> d_dbName d = ''employee'' \<and>
     no_panic (fst (opConnect (d_dbName d) (d_user d) ''masterkey'' (opt_get (d_options d)) 1 sample_wire))"
proof -
  define r where "r = parseDSN hs_url ''sysdba:masterkey@localhost/employee?wire_crypt=required''"
  have "case r of Inl e \<Rightarrow> False | Inr d \<Rightarrow> d_dbName d = ''employee''" unfolding r_def by code_simp
  then obtain d where d: "r = Inr d" "d_dbName d = ''employee''" by (cases r) auto
  have "no_panic (fst (opConnect (d_dbName d) (d_user d) ''masterkey'' (opt_get (d_options d)) 1 sample_wire))"
    using accepted_dsn_connects [OF d(1) [unfolded r_def], of sample_wire "''masterkey''" 1]
    by (simp add: sample_wire_def sample_env_def)
  then show ?thesis using d unfolding r_def by blast
qed

end
