(* ===== verification/Service_Requests.thy ===== *)
theory Service_Requests
  imports Param_Block Policy Consts
begin

text \<open>
  The requests of the service managers (\<open>service_manager.go\<close>, \<open>backup_manager.go\<close>,
  \<open>nbackup_manager.go\<close>, \<open>maintenance_manager.go\<close>, \<open>user_manager.go\<close>, \<open>trace_manager.go\<close>):
  their option structs with the functional options (a Go option \<open>func(*T)\<close> is a function on the
  record), and the service parameter block each operation starts the service with.
\<close>

text \<open>\<open>for _, opt := range opts { opt(&res) }\<close>\<close>

definition apply_options :: "('a \<Rightarrow> 'a) list \<Rightarrow> 'a \<Rightarrow> 'a" where
  "apply_options opts res = foldl (\<lambda>r opt. opt r) res opts"

subsection \<open>Options\<close>

record backup_options =
  bk_IgnoreChecksums :: bool
  bk_IgnoreLimboTransactions :: bool
  bk_MetadataOnly :: bool
  bk_GarbageCollect :: bool
  bk_Transportable :: bool
  bk_ConvertExternalTablesToInternalTables :: bool
  bk_Expand :: bool
  bk_Zip :: bool
  bk_ParallelWorkers :: int32

record restore_options =
  rs_Replace :: bool
  rs_DeactivateIndexes :: bool
  rs_RestoreShadows :: bool
  rs_EnforceConstraints :: bool
  rs_CommitAfterEachTable :: bool
  rs_UseAllPageSpace :: bool
  rs_PageSize :: int32
  rs_CacheBuffers :: int32
  rs_ParallelWorkers :: int32

definition GetDefaultBackupOptions :: backup_options where
  "GetDefaultBackupOptions = \<lparr> bk_IgnoreChecksums = False,
     bk_IgnoreLimboTransactions = False,
     bk_MetadataOnly = False,
     bk_GarbageCollect = True,
     bk_Transportable = True,
     bk_ConvertExternalTablesToInternalTables = True,
     bk_Expand = False,
     bk_Zip = False,
     bk_ParallelWorkers = 0 \<rparr>"

definition WithIgnoreChecksums :: "backup_options \<Rightarrow> backup_options" where
  "WithIgnoreChecksums opts = opts\<lparr>bk_IgnoreChecksums := True\<rparr>"

definition WithoutIgnoreChecksums :: "backup_options \<Rightarrow> backup_options" where
  "WithoutIgnoreChecksums opts = opts\<lparr>bk_IgnoreChecksums := False\<rparr>"

definition WithIgnoreLimboTransactions :: "backup_options \<Rightarrow> backup_options" where
  "WithIgnoreLimboTransactions opts = opts\<lparr>bk_IgnoreLimboTransactions := True\<rparr>"

definition WithoutIgnoreLimboTransactions :: "backup_options \<Rightarrow> backup_options" where
  "WithoutIgnoreLimboTransactions opts = opts\<lparr>bk_IgnoreLimboTransactions := False\<rparr>"

definition WithMetadataOnly :: "backup_options \<Rightarrow> backup_options" where
  "WithMetadataOnly opts = opts\<lparr>bk_MetadataOnly := True\<rparr>"

definition WithoutMetadataOnly :: "backup_options \<Rightarrow> backup_options" where
  "WithoutMetadataOnly opts = opts\<lparr>bk_MetadataOnly := False\<rparr>"

definition WithGarbageCollect :: "backup_options \<Rightarrow> backup_options" where
  "WithGarbageCollect opts = opts\<lparr>bk_GarbageCollect := True\<rparr>"

definition WithoutGarbageCollect :: "backup_options \<Rightarrow> backup_options" where
  "WithoutGarbageCollect opts = opts\<lparr>bk_GarbageCollect := False\<rparr>"

definition WithTransportable :: "backup_options \<Rightarrow> backup_options" where
  "WithTransportable opts = opts\<lparr>bk_Transportable := True\<rparr>"

definition WithoutTransportable :: "backup_options \<Rightarrow> backup_options" where
  "WithoutTransportable opts = opts\<lparr>bk_Transportable := False\<rparr>"

definition WithConvertExternalTablesToInternalTables :: "backup_options \<Rightarrow> backup_options" where
  "WithConvertExternalTablesToInternalTables opts = opts\<lparr>bk_ConvertExternalTablesToInternalTables := True\<rparr>"

definition WithoutConvertExternalTablesToInternalTables :: "backup_options \<Rightarrow> backup_options" where
  "WithoutConvertExternalTablesToInternalTables opts = opts\<lparr>bk_ConvertExternalTablesToInternalTables := False\<rparr>"

definition WithExpand :: "backup_options \<Rightarrow> backup_options" where
  "WithExpand opts = opts\<lparr>bk_Expand := True\<rparr>"

definition WithoutExpand :: "backup_options \<Rightarrow> backup_options" where
  "WithoutExpand opts = opts\<lparr>bk_Expand := False\<rparr>"

definition WithZip :: "backup_options \<Rightarrow> backup_options" where
  "WithZip opts = opts\<lparr>bk_Zip := True\<rparr>"

definition WithoutZip :: "backup_options \<Rightarrow> backup_options" where
  "WithoutZip opts = opts\<lparr>bk_Zip := False\<rparr>"

definition WithBackupParallelWorkers :: "int32 \<Rightarrow> backup_options \<Rightarrow> backup_options" where
  "WithBackupParallelWorkers parallelWorkers opts = opts\<lparr>bk_ParallelWorkers := parallelWorkers\<rparr>"

definition WithoutBackupParallelWorkers :: "backup_options \<Rightarrow> backup_options" where
  "WithoutBackupParallelWorkers opts = opts\<lparr>bk_ParallelWorkers := 0\<rparr>"

definition NewBackupOptions :: "(backup_options \<Rightarrow> backup_options) list \<Rightarrow> backup_options" where
  "NewBackupOptions opts = apply_options opts GetDefaultBackupOptions"

definition GetDefaultRestoreOptions :: restore_options where
  "GetDefaultRestoreOptions = \<lparr> rs_Replace = False,
     rs_DeactivateIndexes = False,
     rs_RestoreShadows = True,
     rs_EnforceConstraints = True,
     rs_CommitAfterEachTable = False,
     rs_UseAllPageSpace = False,
     rs_PageSize = 0,
     rs_CacheBuffers = 0,
     rs_ParallelWorkers = 0 \<rparr>"

definition WithReplace :: "restore_options \<Rightarrow> restore_options" where
  "WithReplace opts = opts\<lparr>rs_Replace := True\<rparr>"

definition WithoutReplace :: "restore_options \<Rightarrow> restore_options" where
  "WithoutReplace opts = opts\<lparr>rs_Replace := False\<rparr>"

definition WithDeactivateIndexes :: "restore_options \<Rightarrow> restore_options" where
  "WithDeactivateIndexes opts = opts\<lparr>rs_DeactivateIndexes := True\<rparr>"

definition WithRestoreShadows :: "restore_options \<Rightarrow> restore_options" where
  "WithRestoreShadows opts = opts\<lparr>rs_RestoreShadows := True\<rparr>"

definition WithoutRestoreShadows :: "restore_options \<Rightarrow> restore_options" where
  "WithoutRestoreShadows opts = opts\<lparr>rs_RestoreShadows := False\<rparr>"

definition WithEnforceConstraints :: "restore_options \<Rightarrow> restore_options" where
  "WithEnforceConstraints opts = opts\<lparr>rs_EnforceConstraints := True\<rparr>"

definition WithoutEnforceConstraints :: "restore_options \<Rightarrow> restore_options" where
  "WithoutEnforceConstraints opts = opts\<lparr>rs_EnforceConstraints := False\<rparr>"

definition WithCommitAfterEachTable :: "restore_options \<Rightarrow> restore_options" where
  "WithCommitAfterEachTable opts = opts\<lparr>rs_CommitAfterEachTable := True\<rparr>"

definition WithoutCommitAfterEachTable :: "restore_options \<Rightarrow> restore_options" where
  "WithoutCommitAfterEachTable opts = opts\<lparr>rs_CommitAfterEachTable := False\<rparr>"

definition WithUseAllPageSpace :: "restore_options \<Rightarrow> restore_options" where
  "WithUseAllPageSpace opts = opts\<lparr>rs_UseAllPageSpace := True\<rparr>"

definition WithoutUseAllPageSpace :: "restore_options \<Rightarrow> restore_options" where
  "WithoutUseAllPageSpace opts = opts\<lparr>rs_UseAllPageSpace := False\<rparr>"

definition WithPageSize :: "int32 \<Rightarrow> restore_options \<Rightarrow> restore_options" where
  "WithPageSize pageSize opts = opts\<lparr>rs_PageSize := pageSize\<rparr>"

definition WithCacheBuffers :: "int32 \<Rightarrow> restore_options \<Rightarrow> restore_options" where
  "WithCacheBuffers cacheBuffers opts = opts\<lparr>rs_CacheBuffers := cacheBuffers\<rparr>"

definition WithRestoreParallelWorkers :: "int32 \<Rightarrow> restore_options \<Rightarrow> restore_options" where
  "WithRestoreParallelWorkers parallelWorkers opts = opts\<lparr>rs_ParallelWorkers := parallelWorkers\<rparr>"

definition WithoutRestoreParallelWorkers :: "restore_options \<Rightarrow> restore_options" where
  "WithoutRestoreParallelWorkers opts = opts\<lparr>rs_ParallelWorkers := 0\<rparr>"

definition NewRestoreOptions :: "(restore_options \<Rightarrow> restore_options) list \<Rightarrow> restore_options" where
  "NewRestoreOptions opts = apply_options opts GetDefaultRestoreOptions"

record statistics_options =
  st_UserDataPages :: bool
  st_UserIndexPages :: bool
  st_OnlyHeaderPages :: bool
  st_SystemRelationsAndIndexes :: bool
  st_RecordVersions :: bool
  st_Tables :: "string list"

record service_manager_options =
  sm_WireCrypt :: bool
  sm_AuthPlugin :: string

definition GetDefaultStatisticsOptions :: statistics_options where
  "GetDefaultStatisticsOptions = \<lparr> st_UserDataPages = True,
     st_UserIndexPages = True,
     st_OnlyHeaderPages = False,
     st_SystemRelationsAndIndexes = False,
     st_RecordVersions = False,
     st_Tables = [] \<rparr>"

definition WithUserDataPages :: "statistics_options \<Rightarrow> statistics_options" where
  "WithUserDataPages opts = opts\<lparr>st_UserDataPages := True\<rparr>"

definition WithoutUserDataPages :: "statistics_options \<Rightarrow> statistics_options" where
  "WithoutUserDataPages opts = opts\<lparr>st_UserDataPages := False\<rparr>"

definition WithUserIndexPages :: "statistics_options \<Rightarrow> statistics_options" where
  "WithUserIndexPages opts = opts\<lparr>st_UserIndexPages := True\<rparr>"

definition WithoutIndexPages :: "statistics_options \<Rightarrow> statistics_options" where
  "WithoutIndexPages opts = opts\<lparr>st_UserIndexPages := False\<rparr>"

definition WithOnlyHeaderPages :: "statistics_options \<Rightarrow> statistics_options" where
  "WithOnlyHeaderPages opts = opts\<lparr>st_OnlyHeaderPages := True\<rparr>"

definition WithoutOnlyHeaderPages :: "statistics_options \<Rightarrow> statistics_options" where
  "WithoutOnlyHeaderPages opts = opts\<lparr>st_OnlyHeaderPages := False\<rparr>"

definition WithSystemRelationsAndIndexes :: "statistics_options \<Rightarrow> statistics_options" where
  "WithSystemRelationsAndIndexes opts = opts\<lparr>st_SystemRelationsAndIndexes := True\<rparr>"

definition WithoutSystemRelationsAndIndexes :: "statistics_options \<Rightarrow> statistics_options" where
  "WithoutSystemRelationsAndIndexes opts = opts\<lparr>st_SystemRelationsAndIndexes := False\<rparr>"

definition WithRecordVersions :: "statistics_options \<Rightarrow> statistics_options" where
  "WithRecordVersions opts = opts\<lparr>st_RecordVersions := True\<rparr>"

definition WithoutRecordVersions :: "statistics_options \<Rightarrow> statistics_options" where
  "WithoutRecordVersions opts = opts\<lparr>st_RecordVersions := False\<rparr>"

definition WithTables :: "string list \<Rightarrow> statistics_options \<Rightarrow> statistics_options" where
  "WithTables tables opts = opts\<lparr>st_Tables := tables\<rparr>"

definition NewStatisticsOptions :: "(statistics_options \<Rightarrow> statistics_options) list \<Rightarrow> statistics_options" where
  "NewStatisticsOptions opts = apply_options opts GetDefaultStatisticsOptions"

definition GetDefaultServiceManagerOptions :: service_manager_options where
  "GetDefaultServiceManagerOptions = \<lparr> sm_WireCrypt = True,
     sm_AuthPlugin = ''Srp256'' \<rparr>"

definition WithWireCrypt :: "service_manager_options \<Rightarrow> service_manager_options" where
  "WithWireCrypt opts = opts\<lparr>sm_WireCrypt := True\<rparr>"

definition WithoutWireCrypt :: "service_manager_options \<Rightarrow> service_manager_options" where
  "WithoutWireCrypt opts = opts\<lparr>sm_WireCrypt := False\<rparr>"

definition WithAuthPlugin :: "string \<Rightarrow> service_manager_options \<Rightarrow> service_manager_options" where
  "WithAuthPlugin authPlugin opts = opts\<lparr>sm_AuthPlugin := authPlugin\<rparr>"

definition NewServiceManagerOptions :: "(service_manager_options \<Rightarrow> service_manager_options) list \<Rightarrow> service_manager_options" where
  "NewServiceManagerOptions opts = apply_options opts GetDefaultServiceManagerOptions"

definition sm_opts_WithoutWireCrypt :: "service_manager_options \<Rightarrow> service_manager_options" where
  "sm_opts_WithoutWireCrypt sm = sm\<lparr>sm_WireCrypt := False\<rparr>"

definition sm_opts_WithWireCrypt :: "service_manager_options \<Rightarrow> service_manager_options" where
  "sm_opts_WithWireCrypt sm = sm\<lparr>sm_WireCrypt := True\<rparr>"

definition sm_opts_WithAuthPlugin :: "service_manager_options \<Rightarrow> string \<Rightarrow> service_manager_options" where
  "sm_opts_WithAuthPlugin sm authPlugin = sm\<lparr>sm_AuthPlugin := authPlugin\<rparr>"

record nbackup_options =
  nb_Level :: int32
  nb_Guid :: string
  nb_NoDBTriggers :: bool
  nb_InPlaceRestore :: bool
  nb_PreserveSequence :: bool

definition GetDefaultNBackupOptions :: nbackup_options where
  "GetDefaultNBackupOptions = \<lparr> nb_Level = -1,
     nb_Guid = '''',
     nb_NoDBTriggers = False,
     nb_InPlaceRestore = False,
     nb_PreserveSequence = False \<rparr>"

definition WithLevel :: "int \<Rightarrow> nbackup_options \<Rightarrow> nbackup_options" where
  "WithLevel level opts = opts\<lparr>nb_Level := word_of_int level\<rparr>"

definition WithGuid :: "string \<Rightarrow> nbackup_options \<Rightarrow> nbackup_options" where
  "WithGuid guid opts = opts\<lparr>nb_Guid := guid\<rparr>"

definition WithoutDBTriggers :: "nbackup_options \<Rightarrow> nbackup_options" where
  "WithoutDBTriggers opts = opts\<lparr>nb_NoDBTriggers := True\<rparr>"

definition WithDBTriggers :: "nbackup_options \<Rightarrow> nbackup_options" where
  "WithDBTriggers opts = opts\<lparr>nb_NoDBTriggers := False\<rparr>"

definition WithInPlaceRestore :: "nbackup_options \<Rightarrow> nbackup_options" where
  "WithInPlaceRestore opts = opts\<lparr>nb_InPlaceRestore := True\<rparr>"

definition WithPlaceRestore :: "nbackup_options \<Rightarrow> nbackup_options" where
  "WithPlaceRestore opts = opts\<lparr>nb_InPlaceRestore := False\<rparr>"

definition WithPreserveSequence :: "nbackup_options \<Rightarrow> nbackup_options" where
  "WithPreserveSequence opts = opts\<lparr>nb_PreserveSequence := True\<rparr>"

definition WithoutPreserveSequence :: "nbackup_options \<Rightarrow> nbackup_options" where
  "WithoutPreserveSequence opts = opts\<lparr>nb_PreserveSequence := False\<rparr>"

definition NewNBackupOptions :: "(nbackup_options \<Rightarrow> nbackup_options) list \<Rightarrow> nbackup_options" where
  "NewNBackupOptions opts = apply_options opts GetDefaultNBackupOptions"

record fb_user =
  usr_Username :: "string option"
  usr_Password :: "string option"
  usr_FirstName :: "string option"
  usr_MiddleName :: "string option"
  usr_LastName :: "string option"
  usr_UserId :: int32
  usr_GroupId :: int32
  usr_Admin :: "bool option"

record user_manager_options =
  um_SecurityDB :: string

definition WithSecurityDB :: "string \<Rightarrow> user_manager_options \<Rightarrow> user_manager_options" where
  "WithSecurityDB securityDB opts = opts\<lparr>um_SecurityDB := securityDB\<rparr>"

definition GetDefaultUserManagerOptions :: user_manager_options where
  "GetDefaultUserManagerOptions = \<lparr> um_SecurityDB = '''' \<rparr>"

definition NewUserManagerOptions :: "(user_manager_options \<Rightarrow> user_manager_options) list \<Rightarrow> user_manager_options" where
  "NewUserManagerOptions opts = apply_options opts GetDefaultUserManagerOptions"

definition WithUsername :: "string \<Rightarrow> fb_user \<Rightarrow> fb_user" where
  "WithUsername username opts = opts\<lparr>usr_Username := Some username\<rparr>"

definition WithPassword :: "string \<Rightarrow> fb_user \<Rightarrow> fb_user" where
  "WithPassword password opts = opts\<lparr>usr_Password := Some password\<rparr>"

definition WithFirstName :: "string \<Rightarrow> fb_user \<Rightarrow> fb_user" where
  "WithFirstName firstname opts = opts\<lparr>usr_FirstName := Some firstname\<rparr>"

definition WithMiddleName :: "string \<Rightarrow> fb_user \<Rightarrow> fb_user" where
  "WithMiddleName middlename opts = opts\<lparr>usr_MiddleName := Some middlename\<rparr>"

definition WithLastName :: "string \<Rightarrow> fb_user \<Rightarrow> fb_user" where
  "WithLastName lastname opts = opts\<lparr>usr_LastName := Some lastname\<rparr>"

definition WithUserId :: "int32 \<Rightarrow> fb_user \<Rightarrow> fb_user" where
  "WithUserId userId opts = opts\<lparr>usr_UserId := userId\<rparr>"

definition WithGroupId :: "int32 \<Rightarrow> fb_user \<Rightarrow> fb_user" where
  "WithGroupId groupId opts = opts\<lparr>usr_GroupId := groupId\<rparr>"

definition WithAdmin :: "fb_user \<Rightarrow> fb_user" where
  "WithAdmin opts = opts\<lparr>usr_Admin := Some True\<rparr>"

definition WithoutAdmin :: "fb_user \<Rightarrow> fb_user" where
  "WithoutAdmin opts = opts\<lparr>usr_Admin := Some False\<rparr>"

definition blank_user :: fb_user where
  "blank_user = \<lparr> usr_Username = None, usr_Password = None, usr_FirstName = None, usr_MiddleName = None,
     usr_LastName = None, usr_UserId = - 1, usr_GroupId = - 1, usr_Admin = None \<rparr>"

definition NewUser :: "(fb_user \<Rightarrow> fb_user) list \<Rightarrow> fb_user" where
  "NewUser opts = apply_options opts blank_user"

subsection \<open>Backup and restore\<close>

definition mask_if :: "bool \<Rightarrow> int32 \<Rightarrow> int32 \<Rightarrow> int32" where
  "mask_if b flag m = (if b then m OR flag else m)"

definition backup_mask :: "backup_options \<Rightarrow> int32" where
  "backup_mask o1 =
     mask_if (bk_Zip o1) isc_spb_bkp_zip
       (mask_if (bk_Expand o1) isc_spb_bkp_expand
       (mask_if (bk_ConvertExternalTablesToInternalTables o1) isc_spb_bkp_convert
       (mask_if (\<not> bk_Transportable o1) isc_spb_bkp_non_transportable
       (mask_if (\<not> bk_GarbageCollect o1) isc_spb_bkp_no_garbage_collect
       (mask_if (bk_MetadataOnly o1) isc_spb_bkp_metadata_only
       (mask_if (bk_IgnoreLimboTransactions o1) isc_spb_bkp_ignore_limbo
       (mask_if (bk_IgnoreChecksums o1) isc_spb_bkp_ignore_checksums 0)))))))"

definition put_if :: "bool \<Rightarrow> (bytes \<Rightarrow> bytes) \<Rightarrow> bytes \<Rightarrow> bytes" where
  "put_if b f pb = (if b then f pb else pb)"

definition backup_spb :: "string \<Rightarrow> string \<Rightarrow> backup_options \<Rightarrow> bool \<Rightarrow> bytes" where
  "backup_spb database backup o1 verbose =
     (let spb = NewXPBWriterFromTag isc_action_svc_backup;
          spb = PutString isc_spb_dbname database spb;
          spb = PutString isc_spb_bkp_file backup spb;
          spb = PutInt32 isc_spb_options (backup_mask o1) spb;
          spb = put_if (0 < sint (bk_ParallelWorkers o1)) (PutInt32 isc_spb_bkp_parallel_workers (bk_ParallelWorkers o1)) spb
      in put_if verbose (PutTag isc_spb_verbose) spb)"

definition restore_mask :: "restore_options \<Rightarrow> int32" where
  "restore_mask o1 =
     mask_if (rs_UseAllPageSpace o1) isc_spb_res_use_all_space
       (mask_if (rs_CommitAfterEachTable o1) isc_spb_res_one_at_a_time
       (mask_if (\<not> rs_EnforceConstraints o1) isc_spb_res_no_validity
       (mask_if (\<not> rs_RestoreShadows o1) isc_spb_res_no_shadow
       (mask_if (rs_DeactivateIndexes o1) isc_spb_res_deactivate_idx
       (if rs_Replace o1 then 0 OR isc_spb_res_replace else 0 OR isc_spb_res_create)))))"

definition restore_spb :: "string \<Rightarrow> string \<Rightarrow> restore_options \<Rightarrow> bool \<Rightarrow> bytes" where
  "restore_spb backup database o1 verbose =
     (let spb = NewXPBWriterFromTag isc_action_svc_restore;
          spb = PutString isc_spb_dbname database spb;
          spb = PutString isc_spb_bkp_file backup spb;
          spb = PutInt32 isc_spb_options (restore_mask o1) spb;
          spb = put_if (0 < sint (rs_ParallelWorkers o1)) (PutInt32 isc_spb_res_parallel_workers (rs_ParallelWorkers o1)) spb;
          spb = put_if verbose (PutTag isc_spb_verbose) spb;
          spb = put_if (0 < sint (rs_PageSize o1)) (PutInt32 isc_spb_res_page_size (rs_PageSize o1)) spb
      in put_if (0 < sint (rs_CacheBuffers o1)) (PutInt32 isc_spb_res_buffers (rs_CacheBuffers o1)) spb)"

subsection \<open>Incremental backup\<close>

definition nb_GetOptionsMask :: "nbackup_options \<Rightarrow> int32" where
  "nb_GetOptionsMask o1 =
     mask_if (nb_PreserveSequence o1) isc_spb_nbk_sequence
       (mask_if (nb_InPlaceRestore o1) isc_spb_nbk_inplace
       (mask_if (nb_NoDBTriggers o1) isc_spb_nbk_no_triggers 0))"

definition put_nb_options :: "nbackup_options \<Rightarrow> bytes \<Rightarrow> bytes" where
  "put_nb_options o1 = put_if (nb_GetOptionsMask o1 \<noteq> 0) (PutInt32 isc_spb_options (nb_GetOptionsMask o1))"

definition nbackup_spb :: "string \<Rightarrow> string \<Rightarrow> nbackup_options \<Rightarrow> bytes" where
  "nbackup_spb database backup o1 =
     (let spb = NewXPBWriterFromTag isc_action_svc_nbak;
          spb = PutString isc_spb_dbname database spb;
          spb = PutString isc_spb_nbk_file backup spb;
          level = (if sint (nb_Level o1) < 0 \<and> nb_Guid o1 = '''' then 0 else nb_Level o1);
          spb = PutInt32 isc_spb_nbk_level level spb;
          spb = put_if (nb_Guid o1 \<noteq> '''') (PutString isc_spb_nbk_guid (nb_Guid o1)) spb
      in put_nb_options o1 spb)"

definition nrestore_spb :: "string list \<Rightarrow> string \<Rightarrow> nbackup_options \<Rightarrow> bytes" where
  "nrestore_spb backups database o1 =
     (let spb = NewXPBWriterFromTag isc_action_svc_nrest;
          spb = PutString isc_spb_dbname database spb;
          spb = foldl (\<lambda>pb file. PutString isc_spb_nbk_file file pb) spb backups
      in put_nb_options o1 spb)"

definition nfixup_spb :: "string \<Rightarrow> nbackup_options \<Rightarrow> bytes" where
  "nfixup_spb database o1 =
     (let spb = NewXPBWriterFromTag isc_action_svc_nfix;
          spb = PutString isc_spb_dbname database spb
      in put_nb_options o1 spb)"

subsection \<open>Maintenance\<close>

text \<open>One definition per operation; each starts the properties or the repair action.\<close>

definition setAccessMode_spb :: "string \<Rightarrow> byte \<Rightarrow> bytes" where
  "setAccessMode_spb database mode =
     PutByte isc_spb_prp_access_mode mode (PutString isc_spb_dbname database (NewXPBWriterFromTag isc_action_svc_properties))"

definition SetAccessModeReadWrite_spb :: "string \<Rightarrow> bytes" where
  "SetAccessModeReadWrite_spb database =
     setAccessMode_spb database isc_spb_prp_am_readwrite"

definition SetAccessModeReadOnly_spb :: "string \<Rightarrow> bytes" where
  "SetAccessModeReadOnly_spb database =
     setAccessMode_spb database isc_spb_prp_am_readonly"

definition SetDialect_spb :: "string \<Rightarrow> int \<Rightarrow> bytes" where
  "SetDialect_spb database dialect =
     PutInt32 isc_spb_prp_set_sql_dialect (word_of_int dialect) (PutString isc_spb_dbname database (NewXPBWriterFromTag isc_action_svc_properties))"

definition SetPageBuffers_spb :: "string \<Rightarrow> int \<Rightarrow> bytes" where
  "SetPageBuffers_spb database pageCount =
     PutInt32 isc_spb_prp_page_buffers (word_of_int pageCount) (PutString isc_spb_dbname database (NewXPBWriterFromTag isc_action_svc_properties))"

definition setWriteMode_spb :: "string \<Rightarrow> byte \<Rightarrow> bytes" where
  "setWriteMode_spb database mode =
     PutByte isc_spb_prp_write_mode mode (PutString isc_spb_dbname database (NewXPBWriterFromTag isc_action_svc_properties))"

definition SetWriteModeAsync_spb :: "string \<Rightarrow> bytes" where
  "SetWriteModeAsync_spb database =
     setWriteMode_spb database isc_spb_prp_wm_async"

definition SetWriteModeSync_spb :: "string \<Rightarrow> bytes" where
  "SetWriteModeSync_spb database =
     setWriteMode_spb database isc_spb_prp_wm_sync"

definition SetReplicaMode_spb :: "string \<Rightarrow> byte \<Rightarrow> bytes" where
  "SetReplicaMode_spb database mode =
     PutByte isc_spb_prp_replica_mode mode (PutString isc_spb_dbname database (NewXPBWriterFromTag isc_action_svc_properties))"

definition setPageFill_spb :: "string \<Rightarrow> byte \<Rightarrow> bytes" where
  "setPageFill_spb database mode =
     PutByte isc_spb_prp_reserve_space mode (PutString isc_spb_dbname database (NewXPBWriterFromTag isc_action_svc_properties))"

definition SetPageFillNoReserve_spb :: "string \<Rightarrow> bytes" where
  "SetPageFillNoReserve_spb database =
     setPageFill_spb database isc_spb_prp_res_use_full"

definition SetPageFillReserve_spb :: "string \<Rightarrow> bytes" where
  "SetPageFillReserve_spb database =
     setPageFill_spb database isc_spb_prp_res"

definition Shutdown_spb :: "string \<Rightarrow> byte \<Rightarrow> int \<Rightarrow> bytes" where
  "Shutdown_spb database shutdownMode timeout =
     PutInt32 shutdownMode (word_of_int timeout) (PutString isc_spb_dbname database (NewXPBWriterFromTag isc_action_svc_properties))"

definition Online_spb :: "string \<Rightarrow> bytes" where
  "Online_spb database =
     PutInt32 isc_spb_options isc_spb_prp_db_online (PutString isc_spb_dbname database (NewXPBWriterFromTag isc_action_svc_properties))"

definition NoLinger_spb :: "string \<Rightarrow> bytes" where
  "NoLinger_spb database =
     PutInt32 isc_spb_options isc_spb_prp_nolinger (PutString isc_spb_dbname database (NewXPBWriterFromTag isc_action_svc_properties))"

definition ShutdownEx_spb :: "string \<Rightarrow> byte \<Rightarrow> byte \<Rightarrow> int \<Rightarrow> bytes" where
  "ShutdownEx_spb database operationMode shutdownModeEx timeout =
     PutInt32 shutdownModeEx (word_of_int timeout) (PutByte isc_spb_prp_shutdown_mode operationMode (PutString isc_spb_dbname database (NewXPBWriterFromTag isc_action_svc_properties)))"

definition OnlineEx_spb :: "string \<Rightarrow> byte \<Rightarrow> bytes" where
  "OnlineEx_spb database operationMode =
     PutByte isc_spb_prp_online_mode operationMode (PutString isc_spb_dbname database (NewXPBWriterFromTag isc_action_svc_properties))"

definition SetSweepInterval_spb :: "string \<Rightarrow> int \<Rightarrow> bytes" where
  "SetSweepInterval_spb database transactions =
     PutInt32 isc_spb_prp_sweep_interval (word_of_int transactions) (PutString isc_spb_dbname database (NewXPBWriterFromTag isc_action_svc_properties))"

definition Sweep_spb :: "string \<Rightarrow> bytes" where
  "Sweep_spb database =
     PutInt32 isc_spb_options isc_spb_rpr_sweep_db (PutString isc_spb_dbname database (NewXPBWriterFromTag isc_action_svc_repair))"

definition ActivateShadow_spb :: "string \<Rightarrow> bytes" where
  "ActivateShadow_spb shadow =
     PutInt32 isc_spb_options isc_spb_prp_activate (PutString isc_spb_dbname shadow (NewXPBWriterFromTag isc_action_svc_properties))"

definition KillShadow_spb :: "string \<Rightarrow> bytes" where
  "KillShadow_spb database =
     PutInt32 isc_spb_options isc_spb_rpr_kill_shadows (PutString isc_spb_dbname database (NewXPBWriterFromTag isc_action_svc_repair))"

definition Mend_spb :: "string \<Rightarrow> bytes" where
  "Mend_spb database =
     PutInt32 isc_spb_options isc_spb_rpr_mend_db (PutString isc_spb_dbname database (NewXPBWriterFromTag isc_action_svc_repair))"

definition Validate_spb :: "string \<Rightarrow> int \<Rightarrow> bytes" where
  "Validate_spb database options =
     PutInt32 isc_spb_options (isc_spb_rpr_validate_db OR word_of_int options) (PutString isc_spb_dbname database (NewXPBWriterFromTag isc_action_svc_repair))"

definition CommitTransaction_spb :: "string \<Rightarrow> int64 \<Rightarrow> bytes" where
  "CommitTransaction_spb database transaction =
     (let spb = PutString isc_spb_dbname database (NewXPBWriterFromTag isc_action_svc_repair) in
      if fitsUint32 (sint transaction) then PutInt32 isc_spb_rpr_commit_trans (ucast transaction) spb
      else PutInt64 isc_spb_rpr_commit_trans_64 transaction spb)"

definition RollbackTransaction_spb :: "string \<Rightarrow> int64 \<Rightarrow> bytes" where
  "RollbackTransaction_spb database transaction =
     (let spb = PutString isc_spb_dbname database (NewXPBWriterFromTag isc_action_svc_repair) in
      if fitsUint32 (sint transaction) then PutInt32 isc_spb_rpr_rollback_trans (ucast transaction) spb
      else PutInt64 isc_spb_rpr_rollback_trans_64 transaction spb)"

definition limbo_spb :: "string \<Rightarrow> bytes" where
  "limbo_spb database = PutInt32 isc_spb_options isc_spb_rpr_list_limbo_trans
     (PutString isc_spb_dbname database (NewXPBWriterFromTag isc_action_svc_repair))"

subsection \<open>Users\<close>

definition put_opt :: "byte \<Rightarrow> string option \<Rightarrow> bytes \<Rightarrow> bytes" where
  "put_opt tag v pb = (case v of None \<Rightarrow> pb | Some s \<Rightarrow> PutString tag s pb)"

definition usr_GetSpb :: "fb_user \<Rightarrow> bytes" where
  "usr_GetSpb u =
     (let srb = put_opt isc_spb_sec_username (usr_Username u) NewXPBWriter;
          srb = put_opt isc_spb_sec_password (usr_Password u) srb;
          srb = put_opt isc_spb_sec_firstname (usr_FirstName u) srb;
          srb = put_opt isc_spb_sec_middlename (usr_MiddleName u) srb;
          srb = put_opt isc_spb_sec_lastname (usr_LastName u) srb;
          srb = put_if (usr_UserId u \<noteq> - 1) (PutInt32 isc_spb_sec_userid (usr_UserId u)) srb;
          srb = put_if (usr_GroupId u \<noteq> - 1) (PutInt32 isc_spb_sec_groupid (usr_GroupId u)) srb
      in case usr_Admin u of None \<Rightarrow> srb
         | Some a \<Rightarrow> PutInt32 isc_spb_sec_admin (if a then 1 else 0) srb)"

definition user_action_spb :: "string \<Rightarrow> byte \<Rightarrow> fb_user option \<Rightarrow> bytes" where
  "user_action_spb securityDb action user =
     (let spb = NewXPBWriterFromTag action;
          spb = (case user of None \<Rightarrow> spb | Some u \<Rightarrow> PutBytes (usr_GetSpb u) spb)
      in put_if (securityDb \<noteq> '''') (PutString isc_spb_dbname securityDb) spb)"

text \<open>\<open>DeleteUser\<close> dereferences the name: without one it panics.\<close>

definition deleted_user :: "fb_user \<Rightarrow> fb_user res" where
  "deleted_user user = (case usr_Username user of
       None \<Rightarrow> Inl (Panic ''invalid memory address or nil pointer dereference'')
     | Some n \<Rightarrow> Inr (NewUser [WithUsername n]))"

definition mapping_spb :: "string \<Rightarrow> byte \<Rightarrow> bytes" where
  "mapping_spb securityDb action =
     put_if (securityDb \<noteq> '''') (PutString isc_spb_dbname securityDb) (NewXPBWriterFromTag action)"

subsection \<open>Statistics and traces\<close>

definition stats_effective :: "statistics_options \<Rightarrow> statistics_options" where
  "stats_effective o1 = (if st_OnlyHeaderPages o1
     then o1\<lparr>st_UserDataPages := False, st_UserIndexPages := False, st_SystemRelationsAndIndexes := False,
             st_RecordVersions := False\<rparr>
     else o1)"

definition stats_mask :: "statistics_options \<Rightarrow> int32" where
  "stats_mask o1 =
     mask_if (st_Tables o1 \<noteq> []) isc_spb_sts_table
       (mask_if (st_RecordVersions o1) isc_spb_sts_record_versions
       (mask_if (st_SystemRelationsAndIndexes o1) isc_spb_sts_sys_relations
       (mask_if (st_UserIndexPages o1) isc_spb_sts_idx_pages
       (mask_if (st_OnlyHeaderPages o1) isc_spb_sts_hdr_pages
       (mask_if (st_UserDataPages o1) isc_spb_sts_data_pages 0)))))"

definition stats_spb :: "string \<Rightarrow> statistics_options \<Rightarrow> bytes" where
  "stats_spb database o1 =
     (let o1 = stats_effective o1;
          spb = NewXPBWriterFromTag isc_action_svc_db_stats;
          spb = PutString isc_spb_dbname database spb;
          spb = PutInt32 isc_spb_options (stats_mask o1) spb
      in put_if (st_Tables o1 \<noteq> []) (PutString isc_spb_command_line (join_with '' '' (st_Tables o1))) spb)"

definition trace_start_spb :: "string \<Rightarrow> string \<Rightarrow> bytes" where
  "trace_start_spb name config =
     PutString isc_spb_trc_cfg config
       (put_if (length name > 0) (PutString isc_spb_trc_name name) (NewXPBWriterFromTag isc_action_svc_trace_start))"

definition trace_id_spb :: "byte \<Rightarrow> int32 \<Rightarrow> bytes" where
  "trace_id_spb action id1 = PutInt32 isc_spb_trc_id id1 (NewXPBWriterFromTag action)"

end
