(* ===== verification/Service_Manager.thy ===== *)
theory Service_Manager
  imports Service_Requests Handshake
begin

text \<open>
  The service manager (\<open>service_manager.go\<close>) and the managers built on it: attaching, starting a
  service, polling it for lines or for a byte stream, reading its reports, and the trace session
  (\<open>trace_manager.go\<close>) with its states.

  A \<open>*ServiceManager\<close> is its connection. A goroutine that feeds a channel its caller drains until
  it closes is the list of what it sends. Polling loops consume the server's answers, so they are
  total functions; the pauses between polls are left out. \<open>conn.Close()\<close> on the socket returns nil.
\<close>

subsection \<open>Attaching\<close>

definition service_addr :: "string \<Rightarrow> string" where
  "service_addr addr = (if CHR '':'' \<notin> set addr then addr @ '':3050'' else addr)"

definition service_options :: "service_manager_options \<Rightarrow> (string \<times> string) list" where
  "service_options o1 =
     [(''auth_plugin_name'', sm_AuthPlugin o1), (''auth_plugin_list'', defaultAuthPlugins),
      (''wire_crypt'', if sm_WireCrypt o1 then ''true'' else ''false''),
      (''wire_crypt_plugin'', defaultWireCryptPlugins)]"

definition NewServiceManager ::
  "(string \<Rightarrow> int) \<Rightarrow> string \<Rightarrow> string \<Rightarrow> service_manager_options \<Rightarrow> int \<Rightarrow> int \<Rightarrow> unit wm" where
  "NewServiceManager undef user password o1 clientPublic clientSecret =
     (let opts = opt_get (service_options o1) in
      case validateAuthPlugins (opts ''auth_plugin_name'') (opts ''auth_plugin_list'') of
        Some e \<Rightarrow> werr e
      | None \<Rightarrow>
          wbind (opConnect '''' user password opts clientPublic) (\<lambda>_.
          wbind (parse_connect_response undef user password opts clientPublic clientSecret) (\<lambda>_.
          wbind opServiceAttach (\<lambda>_.
          wbind opResponse (\<lambda>(h, oid, b). wupd (\<lambda>p. p\<lparr>p_dbHandle := h\<rparr>))))))"

definition svc_WireCipher :: "wire_protocol \<Rightarrow> string" where
  "svc_WireCipher p = ch_plugin (p_chan p)"

definition svc_Close :: "unit wm" where
  "svc_Close = wbind opServiceDetach (\<lambda>_. wbind opResponse (\<lambda>_. wret ()))"

definition ServiceStart :: "bytes \<Rightarrow> unit wm" where
  "ServiceStart spb = wbind (opServiceStart spb) (\<lambda>_. wbind opResponse (\<lambda>_. wret ()))"

subsection \<open>Asking the service\<close>

definition GetServiceInfoSPBPreamble :: bytes where
  "GetServiceInfoSPBPreamble = [isc_spb_version, isc_spb_current_version]"

definition GetServiceInfo :: "bytes \<Rightarrow> bytes \<Rightarrow> int32 \<Rightarrow> bytes wm" where
  "GetServiceInfo spb srb bufferLength =
     wbind (opServiceInfo spb srb bufferLength) (\<lambda>_.
     wbind opResponse (\<lambda>(h, oid, buf).
     if buf = [] then werr (Plain ''response buffer is empty'')
     else wbind (wlift (go_index srb 0)) (\<lambda>item.
          if hd buf \<noteq> item then werr (Plain ''wrong item %d response buffer'') else wret buf)))"

text \<open>Running a reader over a whole buffer: its value, or the error it latched.\<close>

definition read_whole :: "'a reading \<Rightarrow> bytes \<Rightarrow> 'a res" where
  "read_whole rd buf = bind_res (rd (NewXPBReader buf)) (\<lambda>(v, r).
     case rd_Err r of None \<Rightarrow> Inr v | Some e \<Rightarrow> Inl (Plain e))"

definition GetServiceInfoInt :: "byte \<Rightarrow> int16 wm" where
  "GetServiceInfoInt item =
     wbind (GetServiceInfo GetServiceInfoSPBPreamble [item] BUFFER_LEN) (\<lambda>buf.
     wlift (read_whole rd_GetInt16 (tl buf)))"

definition GetServiceInfoString :: "byte \<Rightarrow> string wm" where
  "GetServiceInfoString item =
     wbind (GetServiceInfo GetServiceInfoSPBPreamble [item] (- 1)) (\<lambda>buf.
     wlift (read_whole rd_GetString (tl buf)))"

definition GetServerVersionString :: "string wm" where
  "GetServerVersionString = GetServiceInfoString isc_info_svc_server_version"

definition GetArchitecture :: "string wm" where
  "GetArchitecture = GetServiceInfoString isc_info_svc_implementation"

definition GetHomeDir :: "string wm" where
  "GetHomeDir = GetServiceInfoString isc_info_svc_get_env"

definition GetSecurityDatabasePath :: "string wm" where
  "GetSecurityDatabasePath = GetServiceInfoString isc_info_svc_user_dbpath"

definition GetLockFileDir :: "string wm" where
  "GetLockFileDir = GetServiceInfoString isc_info_svc_get_env_lock"

definition GetMsgFileDir :: "string wm" where
  "GetMsgFileDir = GetServiceInfoString isc_info_svc_get_env_msg"

definition IsRunning :: "bool wm" where
  "IsRunning = wbind (GetServiceInfoInt isc_info_svc_running) (\<lambda>w. wret (sint w > 0))"

text \<open>A line of output, and whether the output has ended.\<close>

definition GetString :: "(string \<times> bool) wm" where
  "GetString =
     wbind (GetServiceInfo GetServiceInfoSPBPreamble [isc_info_svc_line] (- 1)) (\<lambda>buf.
     if length buf < 4 then werr (Plain ''firebirdsql: service line response too short (%d bytes)'')
     else if take 4 buf = [isc_info_svc_line, 0, 0, isc_info_end] then wret ('''', True)
     else wbind (wlift (read_whole rd_GetString (tl buf))) (\<lambda>s. wret (s, False)))"

subsection \<open>Every answer consumes input\<close>

definition consumes :: "'a wm \<Rightarrow> bool" where
  "consumes m \<longleftrightarrow> (\<forall>p x p'. m p = (Inr x, p') \<longrightarrow> length (p_inbound p') < length (p_inbound p))"

lemma consumesD: "consumes m \<Longrightarrow> m p = (Inr x, p') \<Longrightarrow> length (p_inbound p') < length (p_inbound p)"
  unfolding consumes_def by blast

lemma consumes_opResponse: "consumes opResponse"
  unfolding consumes_def using opResponse_less by blast

lemma consumesI: "(\<And>p x p'. m p = (Inr x, p') \<Longrightarrow> length (p_inbound p') < length (p_inbound p)) \<Longrightarrow> consumes m"
  unfolding consumes_def by blast

lemma consumes_bind:
  assumes m: "consumes m" and f: "\<And>x. inbound.keeps (f x)"
  shows "consumes (wbind m f)"
proof (rule consumesI)
  fix p x p' assume "wbind m f p = (Inr x, p')"
  then obtain y q where "m p = (Inr y, q)" "f y q = (Inr x, p')" by (rule wbind_InrE)
  then show "length (p_inbound p') < length (p_inbound p)"
    using consumesD [OF m] inbound.keepsD [OF f] by (meson le_less_trans)
qed

lemma consumes_after:
  assumes m: "inbound.keeps m" and f: "\<And>x. consumes (f x)"
  shows "consumes (wbind m f)"
proof (rule consumesI)
  fix p x p' assume "wbind m f p = (Inr x, p')"
  then obtain y q where "m p = (Inr y, q)" "f y q = (Inr x, p')" by (rule wbind_InrE)
  then show "length (p_inbound p') < length (p_inbound p)"
    using consumesD [OF f] inbound.keepsD [OF m] by (meson less_le_trans)
qed

lemma keeps_info [simp]: "inbound.keeps (opServiceInfo spb srb n)"
  using inbound.keeps_send_fields unfolding inbound.keeps_def opServiceInfo_def Let_def by simp

lemma consumes_GetServiceInfo: "consumes (GetServiceInfo spb srb n)"
  unfolding GetServiceInfo_def
  by (intro consumes_after consumes_bind keeps_info consumes_opResponse) (auto intro!: inbound.keeps_bind)

lemma consumes_GetString: "consumes GetString"
  unfolding GetString_def
  by (rule consumes_bind [OF consumes_GetServiceInfo]) (auto intro!: inbound.keeps_bind)

lemma consumes_IsRunning: "consumes IsRunning"
  unfolding IsRunning_def GetServiceInfoInt_def
  by (intro consumes_bind consumes_GetServiceInfo) simp_all

subsection \<open>Polling\<close>

type_synonym 'a streaming = "wire_protocol \<Rightarrow> 'a list \<times> unit res \<times> wire_protocol"

function WaitStrings :: "string streaming" where
  "WaitStrings p =
     (case GetString p of
        (Inl e, p') \<Rightarrow> ([], Inl e, p')
      | (Inr (line, eof), p') \<Rightarrow>
          if eof then ([], Inr (), p')
          else (let (ls, r, q) = WaitStrings p' in (line # ls, r, q)))"
  by pat_completeness auto
termination
  by (relation "measure (\<lambda>p. length (p_inbound p))") (auto dest!: consumesD [OF consumes_GetString] dest: sym)

declare WaitStrings.simps [simp del]

text \<open>\<open>WaitString\<close>: every line with a line feed.\<close>

definition WaitString :: "wire_protocol \<Rightarrow> string \<times> unit res \<times> wire_protocol" where
  "WaitString p = (let (ls, r, q) = WaitStrings p in (concat (map (\<lambda>s. s @ [CHR 0x0A]) ls), r, q))"

function svc_Wait :: "wire_protocol \<Rightarrow> unit res \<times> wire_protocol" where
  "svc_Wait p =
     (case IsRunning p of
        (Inl e, p') \<Rightarrow> (Inl e, p')
      | (Inr running, p') \<Rightarrow> if \<not> running then (Inr (), p') else svc_Wait p')"
  by pat_completeness auto
termination
  by (relation "measure (\<lambda>p. length (p_inbound p))") (auto dest!: consumesD [OF consumes_IsRunning] dest: sym)

declare svc_Wait.simps [simp del]

text \<open>
  One round of \<open>WaitBuffer\<close>: the chunk it sends on, if any, and the buffer length of the next round,
  \<open>None\<close> when the stream has ended.
\<close>

definition stream_step :: "int32 \<Rightarrow> bytes \<Rightarrow> (bytes option \<times> int32 option) res" where
  "stream_step bufferLength buf =
     (let item = hd buf in
      if item = isc_info_svc_to_eof then
        if length buf < 4 then Inl (Plain ''firebirdsql: service stream chunk too short (%d bytes)'')
        else bind_res (bind_res (go_slice buf 1 3) bytes_to_uint16) (\<lambda>dataLen.
          if dataLen = 0 then
            (if buf ! 3 = isc_info_svc_timeout then Inr (None, Some bufferLength)
             else if buf ! 3 \<noteq> isc_info_end then Inl (Plain ''unexpected end of stream'')
             else Inr (None, None))
          else if 3 + dataLen > length buf
          then Inl (Plain ''firebirdsql: service stream chunk length %d exceeds buffer (%d bytes)'')
          else bind_res (go_slice buf 3 (3 + int dataLen)) (\<lambda>chunk. Inr (Some chunk, Some bufferLength)))
      else if item = isc_info_truncated then
        if sint bufferLength \<ge> maxWirePayload then Inl (Plain ''firebirdsql: service response exceeds %d bytes'')
        else Inr (None, Some (bufferLength * 2))
      else if item = isc_info_end then Inr (None, None)
      else Inr (None, Some bufferLength))"

definition wait_spb :: bytes where
  "wait_spb = PutByte isc_info_svc_timeout 1 (NewXPBWriterFromBytes GetServiceInfoSPBPreamble)"

definition wait_round :: "int32 \<Rightarrow> (bytes option \<times> int32 option) wm" where
  "wait_round bufferLength =
     wbind (GetServiceInfo wait_spb [isc_info_svc_to_eof] bufferLength) (\<lambda>buf. wlift (stream_step bufferLength buf))"

lemma consumes_wait_round: "consumes (wait_round n)"
  unfolding wait_round_def by (intro consumes_bind consumes_GetServiceInfo) simp

definition opt_list :: "'a option \<Rightarrow> 'a list" where
  "opt_list c = (case c of None \<Rightarrow> [] | Some x \<Rightarrow> [x])"

function wait_rounds :: "int32 \<Rightarrow> bytes streaming" where
  "wait_rounds n p =
     (case wait_round n p of
        (Inl e, p') \<Rightarrow> ([], Inl e, p')
      | (Inr (c, None), p') \<Rightarrow> (opt_list c, Inr (), p')
      | (Inr (c, Some n'), p') \<Rightarrow> (let (cs, r, q) = wait_rounds n' p' in (opt_list c @ cs, r, q)))"
  by pat_completeness auto
termination
  by (relation "measure (\<lambda>(n, p). length (p_inbound p))") (auto dest!: consumesD [OF consumes_wait_round] dest: sym)

declare wait_rounds.simps [simp del]

definition WaitBuffer :: "bytes streaming" where
  "WaitBuffer = wait_rounds BUFFER_LEN"

definition ServiceAttach :: "bytes \<Rightarrow> bool \<Rightarrow> string streaming" where
  "ServiceAttach spb verbose p =
     (case ServiceStart spb p of
        (Inl e, p') \<Rightarrow> ([], Inl e, p')
      | (Inr _, p') \<Rightarrow> if verbose then WaitStrings p' else (let (r, q) = svc_Wait p' in ([], r, q)))"

definition ServiceAttachBuffer :: "bytes \<Rightarrow> bytes streaming" where
  "ServiceAttachBuffer spb p =
     (case ServiceStart spb p of (Inl e, p') \<Rightarrow> ([], Inl e, p') | (Inr _, p') \<Rightarrow> WaitBuffer p')"

definition doGetFbLog :: "unit wm" where
  "doGetFbLog = ServiceStart [isc_action_svc_get_fb_log]"

definition doGetDbStats :: "string \<Rightarrow> statistics_options \<Rightarrow> unit wm" where
  "doGetDbStats database o1 = ServiceStart (stats_spb database o1)"

text \<open>\<open>GetFbLog\<close> and \<open>GetDbStats\<close>: start, then the lines.\<close>

definition started_strings :: "unit wm \<Rightarrow> string streaming" where
  "started_strings start p = (case start p of (Inl e, p') \<Rightarrow> ([], Inl e, p') | (Inr _, p') \<Rightarrow> WaitStrings p')"

definition GetFbLog :: "string streaming" where
  "GetFbLog = started_strings doGetFbLog"

definition GetDbStats :: "string \<Rightarrow> statistics_options \<Rightarrow> string streaming" where
  "GetDbStats database o1 = started_strings (doGetDbStats database o1)"

definition started_string :: "unit wm \<Rightarrow> wire_protocol \<Rightarrow> string \<times> unit res \<times> wire_protocol" where
  "started_string start p = (case start p of (Inl e, p') \<Rightarrow> ('''', Inl e, p') | (Inr _, p') \<Rightarrow> WaitString p')"

definition GetFbLogString :: "wire_protocol \<Rightarrow> string \<times> unit res \<times> wire_protocol" where
  "GetFbLogString = started_string doGetFbLog"

definition GetDbStatsString :: "string \<Rightarrow> statistics_options \<Rightarrow> wire_protocol \<Rightarrow> string \<times> unit res \<times> wire_protocol" where
  "GetDbStatsString database o1 = started_string (doGetDbStats database o1)"

end
