(* ===== verification/Service_Reports.thy ===== *)
theory Service_Reports
  imports Service_Manager
begin

text \<open>
  What the managers read out of a service's byte stream: \<open>GetSvrDbInfo\<close>, \<open>GetLimboTransactions\<close>,
  \<open>GetUsers\<close>; and the operations of the managers as whole runs.

  The loops \<open>for { have, val := srb.Next(); ... }\<close> share one fuelled loop. Each round takes a tag off
  the block, so one unit of fuel more than the block has bytes is enough (\<open>read_loop_fuel\<close>).
\<close>

subsection \<open>The loop over a block\<close>

definition no_fuel :: go_error where
  "no_fuel = Panic ''fuel''"

primrec read_loop :: "(byte \<Rightarrow> bool) \<Rightarrow> (byte \<Rightarrow> 'a \<Rightarrow> 'a reading) \<Rightarrow> nat \<Rightarrow> 'a \<Rightarrow> 'a reading" where
  "read_loop stop step 0 a r = Inl no_fuel"
| "read_loop stop step (Suc n) a r =
     bind_res (rd_Next r) (\<lambda>((have, val), r).
       if \<not> have \<or> stop val then Inr (a, r)
       else bind_res (step val a r) (\<lambda>(a, r). read_loop stop step n a r))"

definition read_block :: "(byte \<Rightarrow> bool) \<Rightarrow> (byte \<Rightarrow> 'a \<Rightarrow> 'a reading) \<Rightarrow> 'a \<Rightarrow> bytes \<Rightarrow> 'a res" where
  "read_block stop step a buf = read_whole (read_loop stop step (Suc (length buf)) a) buf"

lemma next_progress:
  assumes "reader_ok r" "rd_Next r = Inr ((True, v), r')"
  shows "rpos r' = rpos r + 1 \<and> rpos r < int (length (rbuf r)) \<and> rbuf r' = rbuf r"
proof -
  have "\<not> rd_End r" using assms(2) by (auto simp: rd_Next_def)
  then show ?thesis using assms by (auto simp: rd_Next_def rd_End_def reader_ok_def)
qed

text \<open>A step that may fail with an error of its own, but otherwise reads within bounds.\<close>

definition bounded_step :: "(byte \<Rightarrow> 'a \<Rightarrow> 'a reading) \<Rightarrow> bool" where
  "bounded_step step \<longleftrightarrow> (\<forall>t a r. reader_ok r \<longrightarrow>
     (case step t a r of Inl e \<Rightarrow> \<not> is_panic e | Inr (v, r') \<Rightarrow> later r r'))"

lemma bounded_stepI: "(\<And>t a. bounded_read (step t a)) \<Longrightarrow> bounded_step step"
proof -
  assume b: "\<And>t a. bounded_read (step t a)"
  have "case step t a r of Inl e \<Rightarrow> \<not> is_panic e | Inr (v, r') \<Rightarrow> later r r'" if "reader_ok r" for t a r
    using bounded_read.bounded [OF b that, of t a] by auto
  then show ?thesis by (simp add: bounded_step_def)
qed

lemma read_loop_ok:
  assumes "bounded_step step" "reader_ok r" "int (length (rbuf r)) - rpos r < int n"
  shows "no_panic (read_loop stop step n a r)"
  using assms(2,3)
proof (induction n arbitrary: a r)
  case 0
  then show ?case by (simp add: reader_ok_def)
next
  case (Suc n)
  obtain have1 val r1 where n: "rd_Next r = Inr ((have1, val), r1)" "later r r1"
    using next_read.bounded [OF Suc.prems(1)] by auto
  show ?case
  proof (cases "have1 \<and> \<not> stop val")
    case True
    have p: "rpos r1 = rpos r + 1" "rbuf r1 = rbuf r" using next_progress [OF Suc.prems(1)] n True by auto
    have ok: "reader_ok r1" using n(2) by (simp add: later_def)
    show ?thesis
    proof (cases "step val a r1")
      case (Inl e)
      then show ?thesis using assms(1) ok n True by (auto simp: bounded_step_def split: sum.splits)
    next
      case (Inr x)
      then obtain v r2 where s: "step val a r1 = Inr (v, r2)" by (cases x) auto
      have l: "later r1 r2" using assms(1) ok s unfolding bounded_step_def by (auto split: sum.splits)
      have "no_panic (read_loop stop step n v r2)"
        by (rule Suc.IH) (use l p Suc.prems(2) in \<open>auto simp: later_def\<close>)
      then show ?thesis using n s True by simp
    qed
  qed (use n in auto)
qed

text \<open>So the fuel never runs out, and reading a report never panics.\<close>

lemma read_block_ok:
  assumes "bounded_step step"
  shows "no_panic (read_block stop step a buf)"
proof -
  have "no_panic (read_loop stop step (Suc (length buf)) a (NewXPBReader buf))"
    by (rule read_loop_ok [OF assms]) (simp_all add: NewXPBReader_def reader_ok_def)
  then show ?thesis
    unfolding read_block_def read_whole_def by (intro no_panic_bind) (auto split: option.split)
qed

subsection \<open>The reports\<close>

record svr_db_info =
  AttachmentsCount :: int
  DatabaseCount :: int
  Databases :: "string list"

definition svr_db_step :: "byte \<Rightarrow> svr_db_info \<Rightarrow> svr_db_info reading" where
  "svr_db_step val i =
     (if val = isc_spb_num_att then read_map (\<lambda>w. i\<lparr>AttachmentsCount := sint w\<rparr>) rd_GetInt32
      else if val = isc_spb_num_db then read_map (\<lambda>w. i\<lparr>DatabaseCount := sint w\<rparr>) rd_GetInt32
      else if val = isc_spb_dbname then read_map (\<lambda>s. i\<lparr>Databases := Databases i @ [s]\<rparr>) rd_GetString
      else (\<lambda>r. Inr (i, r)))"

definition svr_db_report :: "bytes \<Rightarrow> svr_db_info res" where
  "svr_db_report = read_block (\<lambda>val. val = isc_info_flag_end) svr_db_step
     \<lparr> AttachmentsCount = 0, DatabaseCount = 0, Databases = [] \<rparr>"

definition GetSvrDbInfo :: "svr_db_info wm" where
  "GetSvrDbInfo =
     wbind (GetServiceInfo GetServiceInfoSPBPreamble [isc_info_svc_svr_db_info] (- 1)) (\<lambda>buf. wlift (svr_db_report buf))"

definition limbo_step :: "byte \<Rightarrow> int list \<Rightarrow> int list reading" where
  "limbo_step val tids =
     (if val = isc_spb_single_tra_id \<or> val = isc_spb_multi_tra_id then read_map (\<lambda>w. tids @ [sint w]) rd_GetInt32
      else if val = isc_spb_single_tra_id_64 \<or> val = isc_spb_multi_tra_id_64
      then read_map (\<lambda>w. tids @ [sint w]) rd_GetInt64
      else if val = isc_spb_tra_id then read_map (\<lambda>_. tids) (rd_Skip 4)
      else if val = isc_spb_tra_id_64 then read_map (\<lambda>_. tids) (rd_Skip 8)
      else if val = isc_spb_tra_state \<or> val = isc_spb_tra_advise then read_map (\<lambda>_. tids) (rd_Skip 1)
      else if val = isc_spb_tra_host_site \<or> val = isc_spb_tra_remote_site \<or> val = isc_spb_tra_db_path
      then read_map (\<lambda>_. tids) rd_GetString
      else (\<lambda>r. Inr (tids, r)))"

definition limbo_report :: "bytes \<Rightarrow> int list res" where
  "limbo_report = read_block (\<lambda>_. False) limbo_step []"

text \<open>The users read so far, and the one being read.\<close>

definition users_step :: "byte \<Rightarrow> fb_user list \<times> fb_user option \<Rightarrow> (fb_user list \<times> fb_user option) reading" where
  "users_step val st =
     (let (users, user) = st in
      if val = isc_spb_sec_username then
        read_map (\<lambda>s. (users @ opt_list user, Some (NewUser [WithUsername s]))) rd_GetString
      else case user of None \<Rightarrow> (\<lambda>r. Inl (Plain ''firebirdsql: user field 0x%02x before any username''))
      | Some u \<Rightarrow>
          if val = isc_spb_sec_firstname then read_map (\<lambda>s. (users, Some (u\<lparr>usr_FirstName := Some s\<rparr>))) rd_GetString
          else if val = isc_spb_sec_middlename then read_map (\<lambda>s. (users, Some (u\<lparr>usr_MiddleName := Some s\<rparr>))) rd_GetString
          else if val = isc_spb_sec_lastname then read_map (\<lambda>s. (users, Some (u\<lparr>usr_LastName := Some s\<rparr>))) rd_GetString
          else if val = isc_spb_sec_userid then read_map (\<lambda>w. (users, Some (u\<lparr>usr_UserId := w\<rparr>))) rd_GetInt32
          else if val = isc_spb_sec_groupid then read_map (\<lambda>w. (users, Some (u\<lparr>usr_GroupId := w\<rparr>))) rd_GetInt32
          else if val = isc_spb_sec_admin then read_map (\<lambda>w. (users, Some (u\<lparr>usr_Admin := Some (sint w > 0)\<rparr>))) rd_GetInt32
          else (\<lambda>r. Inr ((users, Some u), r)))"

definition users_report :: "bytes \<Rightarrow> fb_user list res" where
  "users_report acc = bind_res (read_block (\<lambda>_. False) users_step ([], None) acc) (\<lambda>(users, user).
     Inr (users @ opt_list user))"

text \<open>Accumulating the whole stream, then reading it; an error of the stream comes first.\<close>

definition stream_report :: "(bytes \<Rightarrow> 'a res) \<Rightarrow> bytes list \<times> unit res \<times> wire_protocol \<Rightarrow> 'a res \<times> wire_protocol" where
  "stream_report rep out = (case out of (chunks, r, q) \<Rightarrow> (bind_res r (\<lambda>_. rep (concat chunks)), q))"

lemma svr_db_step_bounded: "bounded_step svr_db_step"
  by (rule bounded_stepI)
    (simp add: svr_db_step_def read_map_bounded int32_read.bounded_read_axioms string_read.bounded_read_axioms
      bounded_return)

lemma limbo_step_bounded: "bounded_step limbo_step"
  by (rule bounded_stepI)
    (simp add: limbo_step_def read_map_bounded int32_read.bounded_read_axioms int64_read.bounded_read_axioms
      string_read.bounded_read_axioms skip_read.bounded_read_axioms bounded_return)

lemma users_step_bounded: "bounded_step users_step"
proof -
  have b: "bounded_read (users_step t (us, Some u))" for t us u
    by (simp add: users_step_def read_map_bounded int32_read.bounded_read_axioms string_read.bounded_read_axioms
        bounded_return)
  have n: "case users_step t (us, None) r of Inl e \<Rightarrow> \<not> is_panic e | Inr (v, r') \<Rightarrow> later r r'" if "reader_ok r" for t us r
  proof (cases "t = isc_spb_sec_username")
    case True
    have "\<exists>v r'. read_map (\<lambda>s. (us @ opt_list None, Some (NewUser [WithUsername s]))) rd_GetString r = Inr (v, r') \<and> later r r'"
      by (rule bounded_read.bounded [OF read_map_bounded [OF string_read.bounded_read_axioms] that])
    then show ?thesis using True by (auto simp: users_step_def)
  qed (simp add: users_step_def)
  show ?thesis
    unfolding bounded_step_def
  proof (intro allI impI)
    fix t r and st :: "fb_user list \<times> fb_user option" assume r: "reader_ok r"
    obtain us uo where st: "st = (us, uo)" by (cases st)
    show "case users_step t st r of Inl e \<Rightarrow> \<not> is_panic e | Inr (v, r') \<Rightarrow> later r r'"
    proof (cases uo)
      case (Some u)
      then show ?thesis using bounded_read.bounded [OF b r, of t us u] st by auto
    qed (simp only: st n [OF r])
  qed
qed

subsection \<open>Reading what was written\<close>

text \<open>A reader between the bytes it has read and those it has yet to read.\<close>

definition rd_at :: "bytes \<Rightarrow> bytes \<Rightarrow> xpb_reader" where
  "rd_at pre rest = \<lparr> rbuf = pre @ rest, rpos = int (length pre), rerr = None \<rparr>"

lemma rd_at_new: "NewXPBReader b = rd_at [] b"
  by (simp add: NewXPBReader_def rd_at_def)

lemma rd_at_simps [simp]:
  "rbuf (rd_at pre rest) = pre @ rest" "rpos (rd_at pre rest) = int (length pre)" "rerr (rd_at pre rest) = None"
  by (simp_all add: rd_at_def)

lemma next_rd_at [simp]: "rd_Next (rd_at pre (b # rest)) = Inr ((True, b), rd_at (pre @ [b]) rest)"
  by (simp add: next_read_at rd_at_def)

lemma next_rd_end [simp]: "rd_Next (rd_at pre []) = Inr ((False, 0), rd_at pre [])"
  by (simp add: rd_Next_def rd_End_def)

lemma values_rd_at [simp]:
  "rd_GetInt32 (rd_at pre (value_bytes (VInt32 w) @ rest)) = Inr (w, rd_at (pre @ value_bytes (VInt32 w)) rest)"
  "rd_GetInt64 (rd_at pre (value_bytes (VInt64 x) @ rest)) = Inr (x, rd_at (pre @ value_bytes (VInt64 x)) rest)"
  "length s < 32768 \<Longrightarrow>
    rd_GetString (rd_at pre (value_bytes (VString s) @ rest)) = Inr (s, rd_at (pre @ value_bytes (VString s)) rest)"
  by (simp_all add: value_bytes_def PutInt32_def PutInt64_def PutString_def Let_def fixed_read_at string_read_at)
    (simp_all add: rd_at_def int16_codec.enc_length int32_codec.enc_length int64_codec.enc_length)

definition block_bytes :: "(byte \<times> xpb_value) list \<Rightarrow> bytes" where
  "block_bytes its = concat (map (\<lambda>(t, v). t # value_bytes v) its)"

lemma block_bytes_simps [simp]:
  "block_bytes [] = []" "block_bytes ((t, v) # its) = t # value_bytes v @ block_bytes its"
  "block_bytes (xs @ ys) = block_bytes xs @ block_bytes ys"
  by (simp_all add: block_bytes_def)

lemma length_block: "length its \<le> length (block_bytes its)"
  by (induction its) auto

text \<open>
  A step reads an item when it takes the item's value off the block and applies \<open>f\<close>, a partial
  function on the state. A block of such items is read as the composition of the \<open>f\<close>.
\<close>

definition reads_item :: "(byte \<Rightarrow> 'a \<Rightarrow> 'a reading) \<Rightarrow> (byte \<Rightarrow> xpb_value \<Rightarrow> 'a \<Rightarrow> 'a option) \<Rightarrow> byte \<Rightarrow> xpb_value \<Rightarrow> bool" where
  "reads_item step f t v \<longleftrightarrow> (\<forall>a a' pre rest. f t v a = Some a' \<longrightarrow>
     step t a (rd_at pre (value_bytes v @ rest)) = Inr (a', rd_at (pre @ value_bytes v) rest))"

primrec run_items :: "(byte \<Rightarrow> xpb_value \<Rightarrow> 'a \<Rightarrow> 'a option) \<Rightarrow> (byte \<times> xpb_value) list \<Rightarrow> 'a \<Rightarrow> 'a option" where
  "run_items f [] a = Some a"
| "run_items f (it # its) a = Option.bind (f (fst it) (snd it) a) (run_items f its)"

lemma run_items_append: "run_items f (xs @ ys) a = Option.bind (run_items f xs a) (run_items f ys)"
  by (induction xs arbitrary: a) (auto split: Option.bind_split)

lemma read_loop_items:
  assumes "\<And>t v. (t, v) \<in> set its \<Longrightarrow> \<not> stop t \<and> reads_item step f t v"
    and "run_items f its a = Some a'" "length its < n"
  shows "read_loop stop step n a (rd_at pre (block_bytes its @ rest)) =
      read_loop stop step (n - length its) a' (rd_at (pre @ block_bytes its) rest)"
  using assms
proof (induction its arbitrary: a n pre)
  case (Cons it its)
  obtain t v where it: "it = (t, v)" by (cases it)
  obtain m where n: "n = Suc m" using Cons.prems(3) by (cases n) auto
  obtain b where b: "f t v a = Some b" "run_items f its b = Some a'"
    using Cons.prems(2) it by (auto split: Option.bind_splits)
  have "step t a (rd_at (pre @ [t]) (value_bytes v @ block_bytes its @ rest)) =
      Inr (b, rd_at (pre @ t # value_bytes v) (block_bytes its @ rest))"
    using Cons.prems(1) [of t v] it b(1) by (auto simp: reads_item_def)
  moreover have "\<not> stop t" using Cons.prems(1) [of t v] it by simp
  moreover have "read_loop stop step m b (rd_at (pre @ t # value_bytes v) (block_bytes its @ rest)) =
      read_loop stop step (m - length its) a' (rd_at ((pre @ t # value_bytes v) @ block_bytes its) rest)"
    by (rule Cons.IH [OF _ b(2)]) (use Cons.prems(1,3) n in auto)
  ultimately show ?case by (simp add: n it)
qed simp

lemma read_block_items:
  assumes "\<And>t v. (t, v) \<in> set its \<Longrightarrow> \<not> stop t \<and> reads_item step f t v" "run_items f its a = Some a'"
  shows "read_block stop step a (block_bytes its) = Inr a'"
proof -
  have "length its < Suc (length (block_bytes its))" using length_block [of its] by simp
  then obtain m where "Suc (length (block_bytes its)) - length its = Suc m"
    using length_block [of its] by (metis Suc_diff_le)
  then have "read_loop stop step (Suc (length (block_bytes its))) a (rd_at [] (block_bytes its)) =
      Inr (a', rd_at (block_bytes its) [])"
    using read_loop_items [of its stop step f a a' "Suc (length (block_bytes its))" "[]" "[]"] assms length_block [of its]
    by (simp del: read_loop.simps(2)) simp
  then show ?thesis
    by (simp add: read_block_def read_whole_def rd_at_new rd_Err_def del: read_loop.simps)
qed

definition opt_item :: "byte \<Rightarrow> string option \<Rightarrow> (byte \<times> xpb_value) list" where
  "opt_item t v = (case v of None \<Rightarrow> [] | Some s \<Rightarrow> [(t, VString s)])"

definition user_items :: "fb_user \<Rightarrow> (byte \<times> xpb_value) list" where
  "user_items u =
     opt_item isc_spb_sec_username (usr_Username u) @ opt_item isc_spb_sec_password (usr_Password u) @
     opt_item isc_spb_sec_firstname (usr_FirstName u) @ opt_item isc_spb_sec_middlename (usr_MiddleName u) @
     opt_item isc_spb_sec_lastname (usr_LastName u) @
     (if usr_UserId u \<noteq> - 1 then [(isc_spb_sec_userid, VInt32 (usr_UserId u))] else []) @
     (if usr_GroupId u \<noteq> - 1 then [(isc_spb_sec_groupid, VInt32 (usr_GroupId u))] else []) @
     (case usr_Admin u of None \<Rightarrow> [] | Some a \<Rightarrow> [(isc_spb_sec_admin, VInt32 (if a then 1 else 0))])"

lemma put_block:
  "PutString t s pb = pb @ block_bytes [(t, VString s)]" "PutInt32 t w pb = pb @ block_bytes [(t, VInt32 w)]"
  "PutInt64 t x pb = pb @ block_bytes [(t, VInt64 x)]"
  by (simp_all add: value_bytes_def PutString_def PutInt32_def PutInt64_def Let_def)

lemma put_opt_block: "put_opt t v pb = pb @ block_bytes (opt_item t v)"
  by (simp add: put_opt_def opt_item_def put_block split: option.split)

lemma usr_GetSpb_items: "usr_GetSpb u = block_bytes (user_items u)"
  unfolding usr_GetSpb_def user_items_def Let_def put_opt_block put_if_def
  by (simp add: put_block NewXPBWriter_def split: option.split)

definition users_read :: "byte \<Rightarrow> xpb_value \<Rightarrow> fb_user list \<times> fb_user option \<Rightarrow> (fb_user list \<times> fb_user option) option" where
  "users_read t v st =
     (let (users, user) = st in
      if \<not> fits_int16_length v then None
      else if t = isc_spb_sec_username then
        (case v of VString s \<Rightarrow> Some (users @ opt_list user, Some (NewUser [WithUsername s])) | _ \<Rightarrow> None)
      else case user of None \<Rightarrow> None
      | Some u \<Rightarrow>
        (case v of
           VString s \<Rightarrow>
             if t = isc_spb_sec_firstname then Some (users, Some (u\<lparr>usr_FirstName := Some s\<rparr>))
             else if t = isc_spb_sec_middlename then Some (users, Some (u\<lparr>usr_MiddleName := Some s\<rparr>))
             else if t = isc_spb_sec_lastname then Some (users, Some (u\<lparr>usr_LastName := Some s\<rparr>)) else None
         | VInt32 w \<Rightarrow>
             if t = isc_spb_sec_userid then Some (users, Some (u\<lparr>usr_UserId := w\<rparr>))
             else if t = isc_spb_sec_groupid then Some (users, Some (u\<lparr>usr_GroupId := w\<rparr>))
             else if t = isc_spb_sec_admin then Some (users, Some (u\<lparr>usr_Admin := Some (sint w > 0)\<rparr>)) else None
         | _ \<Rightarrow> None))"

lemma users_read_item: "reads_item users_step users_read t v"
  unfolding reads_item_def
  by (auto simp: users_read_def users_step_def read_map_def fits_int16_length_def
      split: xpb_value.splits option.splits if_splits)

text \<open>A user as the server lists it: a name, no password, texts a 16-bit length can count.\<close>

definition listed_user :: "fb_user \<Rightarrow> bool" where
  "listed_user u \<longleftrightarrow> usr_Username u \<noteq> None \<and> usr_Password u = None \<and>
     (\<forall>s \<in> set_option (usr_Username u) \<union> set_option (usr_FirstName u) \<union> set_option (usr_MiddleName u)
        \<union> set_option (usr_LastName u). length s < 32768)"

lemma run_user:
  assumes "listed_user u"
  shows "run_items users_read (user_items u) (us, cur) = Some (us @ opt_list cur, Some u)"
proof -
  obtain n where n: "usr_Username u = Some n" "length n < 32768" "usr_Password u = None"
    using assms by (auto simp: listed_user_def)
  define u1 where "u1 = NewUser [WithUsername n]"
  define u2 where "u2 = u1\<lparr>usr_FirstName := usr_FirstName u, usr_MiddleName := usr_MiddleName u, usr_LastName := usr_LastName u\<rparr>"
  have u1: "u1 = blank_user\<lparr>usr_Username := Some n\<rparr>"
    by (simp add: u1_def NewUser_def apply_options_def WithUsername_def)
  have 1: "run_items users_read (opt_item isc_spb_sec_username (usr_Username u) @ opt_item isc_spb_sec_password (usr_Password u))
      (us, cur) = Some (us @ opt_list cur, Some u1)"
    using n by (simp add: opt_item_def users_read_def fits_int16_length_def u1_def)
  have 2: "run_items users_read (opt_item isc_spb_sec_firstname (usr_FirstName u) @
      opt_item isc_spb_sec_middlename (usr_MiddleName u) @ opt_item isc_spb_sec_lastname (usr_LastName u)) (vs, Some u1) =
      Some (vs, Some u2)" for vs
    using assms unfolding u2_def u1
    by (simp add: opt_item_def users_read_def fits_int16_length_def listed_user_def blank_user_def split: option.split)
  have 3: "run_items users_read ((if usr_UserId u \<noteq> - 1 then [(isc_spb_sec_userid, VInt32 (usr_UserId u))] else []) @
     (if usr_GroupId u \<noteq> - 1 then [(isc_spb_sec_groupid, VInt32 (usr_GroupId u))] else []) @
     (case usr_Admin u of None \<Rightarrow> [] | Some a \<Rightarrow> [(isc_spb_sec_admin, VInt32 (if a then 1 else 0))])) (vs, Some u2) =
     Some (vs, Some (u2\<lparr>usr_UserId := usr_UserId u, usr_GroupId := usr_GroupId u, usr_Admin := usr_Admin u\<rparr>))" for vs
    by (simp add: users_read_def fits_int16_length_def u2_def u1 blank_user_def split: option.split)
  have "u2\<lparr>usr_UserId := usr_UserId u, usr_GroupId := usr_GroupId u, usr_Admin := usr_Admin u\<rparr> = u"
    using n by (cases u) (simp add: u2_def u1 blank_user_def)
  then show ?thesis
    using 1 2 3 by (simp add: user_items_def run_items_append del: append_assoc flip: append_assoc)
qed

lemma run_users:
  assumes "list_all listed_user vs"
  shows "\<exists>ds c. run_items users_read (concat (map user_items vs)) (us, cur) = Some (ds, c) \<and>
     ds @ opt_list c = us @ opt_list cur @ vs"
  using assms
proof (induction vs arbitrary: us cur)
  case (Cons v vs)
  then show ?case using run_user [of v us cur] Cons.IH [of "us @ opt_list cur" "Some v"]
    by (auto simp: run_items_append opt_list_def)
qed simp

lemma users_report_items:
  assumes "list_all listed_user vs"
  shows "users_report (concat (map usr_GetSpb vs)) = Inr vs"
proof -
  obtain ds c where r: "run_items users_read (concat (map user_items vs)) ([], None) = Some (ds, c)" "ds @ opt_list c = vs"
    using run_users [OF assms, of "[]" None] by (auto simp: opt_list_def)
  have "concat (map usr_GetSpb vs) = block_bytes (concat (map user_items vs))"
    by (induction vs) (simp_all add: usr_GetSpb_items)
  then show ?thesis
    using read_block_items [OF _ r(1), of "\<lambda>_. False" users_step] users_read_item r(2)
    by (simp add: users_report_def)
qed

subsection \<open>A service that answers\<close>

lemma ask_answered:
  assumes "calm p" "response_fits r" "clause_codes (r_status r) = []"
  obtains p1 q where "send_fields (FInt w # fs) (feed (response_bytes r @ rest) p) = (Inr (), p1)"
    "opResponse p1 = (Inr (r_handle r, r_oid r, r_data r), feed rest q)" "calm q" "p_dbHandle q = p_dbHandle p"
proof -
  let ?q = "sent (concat (map field_bytes (FInt w # fs))) p"
  have "opResponse (feed (response_bytes r @ rest) ?q) = (Inr (r_handle r, r_oid r, r_data r), feed rest ?q)"
    using assms by (intro opResponse_frame) (simp_all add: calm_def)
  moreover have "send_fields (FInt w # fs) (feed (response_bytes r @ rest) p) = (Inr (), feed (response_bytes r @ rest) ?q)"
    using assms(1) by (subst calm_send) simp_all
  moreover have "p_dbHandle ?q = p_dbHandle p" by (simp add: sent_def)
  ultimately show thesis using that [of "feed (response_bytes r @ rest) ?q" ?q] assms(1) by simp
qed

lemma ServiceStart_answered:
  assumes "calm p" "response_fits r" "clause_codes (r_status r) = []"
  obtains q where "ServiceStart spb (feed (response_bytes r @ rest) p) = (Inr (), feed rest q)" "calm q"
proof -
  obtain p1 q where "send_fields [FInt op_service_start, FInt (p_dbHandle p), FInt 0, FBytes spb]
      (feed (response_bytes r @ rest) p) = (Inr (), p1)"
    "opResponse p1 = (Inr (r_handle r, r_oid r, r_data r), feed rest q)" "calm q"
    by (rule ask_answered [OF assms])
  then show thesis using that [of q] by (simp add: ServiceStart_def opServiceStart_def wbind_def)
qed

lemma GetServiceInfo_answered:
  assumes "calm p" "response_fits r" "clause_codes (r_status r) = []" "r_data r = item # d"
  obtains q where "GetServiceInfo spb [item] n (feed (response_bytes r @ rest) p) = (Inr (item # d), feed rest q)" "calm q"
proof -
  obtain p1 q where "send_fields [FInt op_service_info, FInt (p_dbHandle p), FInt 0, FBytes spb, FBytes [item],
        FInt (if sint n \<le> 0 then BUFFER_LEN else n)] (feed (response_bytes r @ rest) p) = (Inr (), p1)"
    "opResponse p1 = (Inr (r_handle r, r_oid r, r_data r), feed rest q)" "calm q"
    by (rule ask_answered [OF assms(1-3)])
  then show thesis using that [of q] assms(4) by (simp add: GetServiceInfo_def opServiceInfo_def wbind_def)
qed

text \<open>What a server answers to a request for stream data: the next chunk, or nothing yet.\<close>

datatype stream_answer = Chunk bytes | NothingYet

definition answer_data :: "stream_answer \<Rightarrow> bytes" where
  "answer_data a = (case a of
     Chunk c \<Rightarrow> isc_info_svc_to_eof # le_bytes 2 (length c) @ c
   | NothingYet \<Rightarrow> [isc_info_svc_to_eof, 0, 0, isc_info_svc_timeout])"

definition end_data :: bytes where
  "end_data = [isc_info_svc_to_eof, 0, 0, isc_info_end]"

definition answer_fits :: "stream_answer \<Rightarrow> bool" where
  "answer_fits a \<longleftrightarrow> (case a of Chunk c \<Rightarrow> c \<noteq> [] \<and> length c < 65536 | NothingYet \<Rightarrow> True)"

primrec answer_chunk :: "stream_answer \<Rightarrow> bytes option" where
  "answer_chunk (Chunk c) = Some c"
| "answer_chunk NothingYet = None"

definition service_response :: "bytes \<Rightarrow> response" where
  "service_response d = \<lparr> r_handle = 0, r_oid = replicate 8 0, r_data = d, r_status = [] \<rparr>"

lemma service_response_simps [simp]:
  "r_data (service_response d) = d" "clause_codes (r_status (service_response d)) = []"
  "response_fits (service_response d) \<longleftrightarrow> length d \<le> maxWirePayload"
  by (simp_all add: service_response_def clause_codes_def response_fits_def)

lemma stream_step_answer:
  assumes "answer_fits a"
  shows "stream_step n (answer_data a) = Inr (answer_chunk a, Some n)"
proof (cases a)
  case (Chunk c)
  obtain l0 l1 where l: "le_bytes 2 (length c) = [l0, l1]"
    by (simp add: numeral_2_eq_2)
  have "bytes_to_uint16 [l0, l1] = Inr (length c)"
    using assms Chunk l [symmetric] by (simp add: bytes_to_uint16_def le_uint_def le_val_le_bytes answer_fits_def)
  moreover have "c \<noteq> []" using assms Chunk by (simp add: answer_fits_def)
  ultimately show ?thesis
    using Chunk l by (cases c) (auto simp: stream_step_def answer_data_def Let_def go_slice_def)
next
  case NothingYet
  have "stream_step n [isc_info_svc_to_eof, 0, 0, isc_info_svc_timeout] = Inr (None, Some n)"
    by (simp add: stream_step_def go_slice_def bytes_to_uint16_def le_uint_def)
  then show ?thesis using NothingYet by (simp add: answer_data_def)
qed

lemma stream_step_end: "stream_step n end_data = Inr (None, None)"
  by (simp add: stream_step_def end_data_def go_slice_def bytes_to_uint16_def le_uint_def)

definition stream_bytes :: "stream_answer list \<Rightarrow> bytes" where
  "stream_bytes as = concat (map (\<lambda>a. response_bytes (service_response (answer_data a))) as) @
     response_bytes (service_response end_data)"

definition stream_chunks :: "stream_answer list \<Rightarrow> bytes list" where
  "stream_chunks as = concat (map (opt_list o answer_chunk) as)"

lemma wait_rounds_answered:
  assumes "calm p" "list_all answer_fits as"
  shows "\<exists>q. wait_rounds n (feed (stream_bytes as @ rest) p) = (stream_chunks as, Inr (), feed rest q) \<and> calm q"
  using assms
proof (induction as arbitrary: p)
  case Nil
  have d: "r_data (service_response end_data) = isc_info_svc_to_eof # [0, 0, isc_info_end]"
    "response_fits (service_response end_data)" "clause_codes (r_status (service_response end_data)) = []"
    by (simp_all add: end_data_def)
  obtain q where "GetServiceInfo wait_spb [isc_info_svc_to_eof] n (feed (response_bytes (service_response end_data) @ rest) p) =
      (Inr end_data, feed rest q)" "calm q"
    unfolding end_data_def by (rule GetServiceInfo_answered [OF Nil(1) d(2,3,1), unfolded end_data_def])
  then show ?case
    by (intro exI [of _ q]) (subst wait_rounds.simps,
      simp add: wait_round_def wbind_def stream_step_end stream_bytes_def stream_chunks_def opt_list_def)
next
  case (Cons a as)
  let ?tl = "stream_bytes as @ rest"
  have len: "length (answer_data a) \<le> maxWirePayload" and d: "answer_data a = isc_info_svc_to_eof # tl (answer_data a)"
    using Cons.prems(2) by (auto simp: answer_data_def answer_fits_def split: stream_answer.split)
  obtain q where i: "GetServiceInfo wait_spb [isc_info_svc_to_eof] n
      (feed (response_bytes (service_response (answer_data a)) @ ?tl) p) = (Inr (answer_data a), feed ?tl q)" "calm q"
  proof -
    have r: "response_fits (service_response (answer_data a))" "clause_codes (r_status (service_response (answer_data a))) = []"
      "r_data (service_response (answer_data a)) = isc_info_svc_to_eof # tl (answer_data a)"
      using len d by simp_all
    show thesis by (rule GetServiceInfo_answered [OF Cons.prems(1) r]) (rule that, simp_all flip: d)
  qed
  obtain q' where "wait_rounds n (feed ?tl q) = (stream_chunks as, Inr (), feed rest q')" "calm q'"
    using Cons.IH [OF i(2)] Cons.prems(2) by auto
  then show ?case
    using i stream_step_answer [of a n] Cons.prems(2)
    by (intro exI [of _ q']) (subst wait_rounds.simps,
      simp add: wait_round_def wbind_def stream_bytes_def stream_chunks_def)
qed

end
