(* ===== verification/Service_Ops.thy ===== *)
theory Service_Ops
  imports Service_Reports
begin

text \<open>
  The managers' operations as whole runs (\<open>backup_manager.go\<close>, \<open>nbackup_manager.go\<close>,
  \<open>maintenance_manager.go\<close>, \<open>user_manager.go\<close>, \<open>trace_manager.go\<close>) and the properties of the
  service side. \<open>conn\<close> is what the connection builder returned: an error or a connected manager.
\<close>

subsection \<open>One connection per operation\<close>

type_synonym 'a service_run = "'a list \<times> unit res \<times> wire_protocol option"

definition serviceAttach :: "wire_protocol res \<Rightarrow> bytes \<Rightarrow> bool \<Rightarrow> string service_run" where
  "serviceAttach conn spb verbose =
     (case conn of Inl e \<Rightarrow> ([], Inl e, None)
      | Inr p \<Rightarrow> (let (ls, r, q) = ServiceAttach spb verbose p in (ls, r, Some (snd (svc_Close q)))))"

definition serviceAttachBuffer :: "wire_protocol res \<Rightarrow> bytes \<Rightarrow> bytes service_run" where
  "serviceAttachBuffer conn spb =
     (case conn of Inl e \<Rightarrow> ([], Inl e, None)
      | Inr p \<Rightarrow> (let (cs, r, q) = ServiceAttachBuffer spb p in (cs, r, Some (snd (svc_Close q)))))"

definition bm_Backup :: "wire_protocol res \<Rightarrow> string \<Rightarrow> string \<Rightarrow> backup_options \<Rightarrow> bool \<Rightarrow> string service_run" where
  "bm_Backup conn database backup o1 verbose = serviceAttach conn (backup_spb database backup o1 verbose) verbose"

definition bm_Restore :: "wire_protocol res \<Rightarrow> string \<Rightarrow> string \<Rightarrow> restore_options \<Rightarrow> bool \<Rightarrow> string service_run" where
  "bm_Restore conn backup database o1 verbose = serviceAttach conn (restore_spb backup database o1 verbose) verbose"

definition nbm_Backup :: "wire_protocol res \<Rightarrow> string \<Rightarrow> string \<Rightarrow> nbackup_options \<Rightarrow> bool \<Rightarrow> string service_run" where
  "nbm_Backup conn database backup o1 verbose = serviceAttach conn (nbackup_spb database backup o1) verbose"

definition nbm_Restore :: "wire_protocol res \<Rightarrow> string list \<Rightarrow> string \<Rightarrow> nbackup_options \<Rightarrow> bool \<Rightarrow> string service_run" where
  "nbm_Restore conn backups database o1 verbose = serviceAttach conn (nrestore_spb backups database o1) verbose"

definition nbm_Fixup :: "wire_protocol res \<Rightarrow> string \<Rightarrow> nbackup_options \<Rightarrow> bool \<Rightarrow> string service_run" where
  "nbm_Fixup conn database o1 verbose = serviceAttach conn (nfixup_spb database o1) verbose"

text \<open>Every maintenance operation but the limbo list: attach with its block, without output.\<close>

definition mm_attach :: "wire_protocol res \<Rightarrow> bytes \<Rightarrow> unit res" where
  "mm_attach conn spb = fst (snd (serviceAttach conn spb False))"

definition GetLimboTransactions :: "wire_protocol res \<Rightarrow> string \<Rightarrow> int list res" where
  "GetLimboTransactions conn database =
     (let (chunks, r, q) = serviceAttachBuffer conn (limbo_spb database) in
      bind_res r (\<lambda>_. limbo_report (concat chunks)))"

subsection \<open>Users\<close>

definition userAction :: "string \<Rightarrow> byte \<Rightarrow> fb_user option \<Rightarrow> wire_protocol \<Rightarrow> unit res \<times> wire_protocol" where
  "userAction securityDb action user p =
     (let (ls, r, q) = ServiceAttach (user_action_spb securityDb action user) False p in (r, q))"

definition userActionStart :: "string \<Rightarrow> byte \<Rightarrow> fb_user option \<Rightarrow> unit wm" where
  "userActionStart securityDb action user = ServiceStart (user_action_spb securityDb action user)"

definition AddUser :: "string \<Rightarrow> fb_user \<Rightarrow> unit wm" where
  "AddUser securityDb user = userAction securityDb isc_action_svc_add_user (Some user)"

definition DeleteUser :: "string \<Rightarrow> fb_user \<Rightarrow> unit wm" where
  "DeleteUser securityDb user =
     wbind (wlift (deleted_user user)) (\<lambda>del. userAction securityDb isc_action_svc_delete_user (Some del))"

definition ModifyUser :: "string \<Rightarrow> fb_user \<Rightarrow> unit wm" where
  "ModifyUser securityDb user = userAction securityDb isc_action_svc_modify_user (Some user)"

definition GetUsers :: "string \<Rightarrow> fb_user list wm" where
  "GetUsers securityDb =
     wbind (userActionStart securityDb isc_action_svc_display_user_adm None) (\<lambda>_ p.
       stream_report users_report (WaitBuffer p))"

definition adminRoleMappingAction :: "string \<Rightarrow> byte \<Rightarrow> wire_protocol \<Rightarrow> unit res \<times> wire_protocol" where
  "adminRoleMappingAction securityDb action p =
     (let (ls, r, q) = ServiceAttach (mapping_spb securityDb action) False p in (r, q))"

definition SetAdminRoleMapping :: "string \<Rightarrow> unit wm" where
  "SetAdminRoleMapping securityDb = adminRoleMappingAction securityDb isc_action_svc_set_mapping"

definition DropAdminRoleMapping :: "string \<Rightarrow> unit wm" where
  "DropAdminRoleMapping securityDb = adminRoleMappingAction securityDb isc_action_svc_drop_mapping"

subsection \<open>Trace sessions\<close>

datatype session_state = SessionStopped | SessionRunning | SessionPaused

record trace_session =
  ts_conn :: "wire_protocol option"
  ts_id :: int32
  ts_state :: session_state

text \<open>\<open>Trace session ID (\d+) word\<close>: the digits of the leftmost match.\<close>

definition trace_match_here :: "string \<Rightarrow> string \<Rightarrow> string option" where
  "trace_match_here word s =
     (let ds = takeWhile is_digit (drop 17 s) in
      if has_prefix ''Trace session ID '' s \<and> ds \<noteq> [] \<and> has_prefix ('' '' @ word) (drop (17 + length ds) s)
      then Some ds else None)"

fun trace_match :: "string \<Rightarrow> string \<Rightarrow> string option" where
  "trace_match word [] = trace_match_here word []"
| "trace_match word (c # cs) =
     (case trace_match_here word (c # cs) of Some ds \<Rightarrow> Some ds | None \<Rightarrow> trace_match word cs)"

definition errParseInt :: go_error where
  "errParseInt = Plain ''strconv.ParseInt: value out of range''"

definition StartWithName :: "wire_protocol res \<Rightarrow> string \<Rightarrow> string \<Rightarrow> trace_session res" where
  "StartWithName conn name config =
     bind_res conn (\<lambda>p.
     case wbind (ServiceStart (trace_start_spb name config)) (\<lambda>_. GetString) p of
       (Inl e, q) \<Rightarrow> Inl e
     | (Inr (s, eof), q) \<Rightarrow>
         (case trace_match ''started'' s of
            None \<Rightarrow> Inl (Plain ''unable to start trace session: %s'')
          | Some ds \<Rightarrow> (case parse_nat ds of
                None \<Rightarrow> Inl errParseInt
              | Some n \<Rightarrow> if n \<ge> 2 ^ 31 then Inl errParseInt
                  else Inr \<lparr> ts_conn = Some q, ts_id = of_nat n, ts_state = SessionRunning \<rparr>)))"

definition trace_Start :: "wire_protocol res \<Rightarrow> string \<Rightarrow> trace_session res" where
  "trace_Start conn config = StartWithName conn '''' config"

text \<open>The lines of \<open>List\<close>; an error while reading them, or of the connection, returns no error.\<close>

definition trace_List :: "wire_protocol res \<Rightarrow> string res" where
  "trace_List conn =
     (case conn of Inl e \<Rightarrow> Inr ''''
      | Inr p \<Rightarrow>
          (case ServiceStart [isc_action_svc_trace_list] p of
             (Inl e, q) \<Rightarrow> Inl e
           | (Inr _, q) \<Rightarrow>
               (case WaitString q of (s, Inl e, _) \<Rightarrow> (if is_panic e then Inl e else Inr '''') | (s, Inr _, _) \<Rightarrow> Inr s)))"

text \<open>A control operation on a connection of its own; the reply must name the session as \<open>word\<close>.\<close>

definition trace_control :: "wire_protocol res \<Rightarrow> byte \<Rightarrow> string \<Rightarrow> string \<Rightarrow> int32 \<Rightarrow> unit res" where
  "trace_control conn action word failed id1 =
     bind_res conn (\<lambda>p.
     bind_res (fst (wbind (ServiceStart (trace_id_spb action id1)) (\<lambda>_. GetString) p)) (\<lambda>(s, eof).
     if trace_match word s = None then Inl (Plain failed) else Inr ()))"

definition trace_Stop :: "wire_protocol res \<Rightarrow> trace_session \<Rightarrow> unit res \<times> trace_session" where
  "trace_Stop conn ts =
     (if ts_state ts = SessionStopped then (Inl (Plain ''session already stopped''), ts)
      else case trace_control conn isc_action_svc_trace_stop ''stopped'' ''unable to stop trace session: %s'' (ts_id ts) of
        Inl e \<Rightarrow> (Inl e, ts) | Inr _ \<Rightarrow> (Inr (), ts\<lparr>ts_state := SessionStopped\<rparr>))"

definition trace_Pause :: "wire_protocol res \<Rightarrow> trace_session \<Rightarrow> unit res \<times> trace_session" where
  "trace_Pause conn ts =
     (if ts_state ts \<noteq> SessionRunning then (Inl (Plain ''session not running''), ts)
      else case trace_control conn isc_action_svc_trace_suspend ''paused'' ''unable to pause trace session: %s'' (ts_id ts) of
        Inl e \<Rightarrow> (Inl e, ts) | Inr _ \<Rightarrow> (Inr (), ts\<lparr>ts_state := SessionPaused\<rparr>))"

definition trace_Resume :: "wire_protocol res \<Rightarrow> trace_session \<Rightarrow> unit res \<times> trace_session" where
  "trace_Resume conn ts =
     (if ts_state ts \<noteq> SessionPaused then (Inl (Plain ''session not paused''), ts)
      else case trace_control conn isc_action_svc_trace_resume ''resumed'' ''unable to resume trace session: %s'' (ts_id ts) of
        Inl e \<Rightarrow> (Inl e, ts) | Inr _ \<Rightarrow> (Inr (), ts\<lparr>ts_state := SessionRunning\<rparr>))"

definition trace_Close :: "wire_protocol res \<Rightarrow> trace_session \<Rightarrow> unit res \<times> trace_session" where
  "trace_Close conn ts =
     (case (if ts_state ts \<noteq> SessionStopped then trace_Stop conn ts else (Inr (), ts)) of
        (Inl e, ts) \<Rightarrow> (Inl e, ts)
      | (Inr _, ts) \<Rightarrow>
          (case ts_conn ts of
             None \<Rightarrow> (Inl (Panic ''invalid memory address or nil pointer dereference''), ts)
           | Some p \<Rightarrow>
               (case svc_Close p of
                  (Inl e, p) \<Rightarrow> (Inl e, ts\<lparr>ts_conn := Some p\<rparr>)
                | (Inr _, p) \<Rightarrow> (Inr (), ts\<lparr>ts_conn := None\<rparr>))))"

end
