(* ===== verification/Service_Props.thy ===== *)
theory Service_Props
  imports Service_Ops
begin

text \<open>
  What holds of the services: no answer of a server makes them panic or poll for ever without
  input, user records survive any chunking of the stream, request blocks say what their options
  say, and a trace session goes through its states in order.
\<close>

subsection \<open>No panics\<close>

lemma never_panics_requests [simp]:
  "never_panics (opServiceInfo spb srb n)" "never_panics (opServiceStart spb)" "never_panics opServiceDetach"
  using never_panics_send(1)
  by (simp_all add: never_panics_def opServiceInfo_def opServiceStart_def opServiceDetach_def Let_def)

lemma never_panics_GetServiceInfo [simp]: "never_panics (GetServiceInfo spb [item] n)"
  unfolding GetServiceInfo_def by (auto intro!: never_panics_bind_all)

lemma read_whole_no_panic: "bounded_read rd \<Longrightarrow> no_panic (read_whole rd buf)"
  unfolding read_whole_def
  by (intro no_panic_bind bounded_read.returns) (auto split: option.split)

lemma never_panics_GetString [simp]: "never_panics GetString"
  unfolding GetString_def
  by (auto intro!: never_panics_bind_all read_whole_no_panic string_read.bounded_read_axioms)

lemma never_panics_IsRunning [simp]: "never_panics IsRunning"
  unfolding IsRunning_def GetServiceInfoInt_def
  by (auto intro!: never_panics_bind_all read_whole_no_panic int16_read.bounded_read_axioms)

lemma stream_step_no_panic: "buf \<noteq> [] \<Longrightarrow> no_panic (stream_step n buf)"
proof -
  have "\<exists>k. bind_res (go_slice buf 1 3) bytes_to_uint16 = Inr k" if "4 \<le> length buf"
    using that by (auto simp: go_slice_def bytes_to_uint16_def le_uint_def)
  then show ?thesis
    by (auto simp: stream_step_def Let_def go_slice_def not_less)
qed

lemma GetServiceInfo_item:
  assumes "GetServiceInfo spb [item] n p = (Inr buf, q)"
  shows "\<exists>d. buf = item # d"
  using assms unfolding GetServiceInfo_def
  by (elim wbind_InrE) (auto split: if_splits elim!: wbind_InrE simp: neq_Nil_conv)

lemma never_panics_wait_round [simp]: "never_panics (wait_round n)"
  unfolding wait_round_def
proof (rule never_panics_bind)
  fix buf p p' assume "GetServiceInfo wait_spb [isc_info_svc_to_eof] n p = (Inr buf, p')"
  then have "buf \<noteq> []" using GetServiceInfo_item by fastforce
  then show "no_panic (fst (wlift (stream_step n buf) p'))" by (simp add: stream_step_no_panic)
qed simp

lemma WaitStrings_no_panic: "no_panic (fst (snd (WaitStrings p)))"
proof (induction p rule: WaitStrings.induct)
  case (1 p)
  obtain r p' where g: "GetString p = (r, p')" by fastforce
  have "no_panic r" by (rule never_panicsD [OF never_panics_GetString g])
  then show ?case
    using 1 g by (subst WaitStrings.simps) (cases r; auto simp: case_prod_beta split: if_splits)
qed

lemma svc_Wait_no_panic: "no_panic (fst (svc_Wait p))"
proof (induction p rule: svc_Wait.induct)
  case (1 p)
  obtain r p' where g: "IsRunning p = (r, p')" by fastforce
  have "no_panic r" by (rule never_panicsD [OF never_panics_IsRunning g])
  then show ?case using 1 g by (subst svc_Wait.simps) (cases r; auto)
qed

lemma wait_rounds_no_panic: "no_panic (fst (snd (wait_rounds n p)))"
proof (induction n p rule: wait_rounds.induct)
  case (1 n p)
  obtain r p' where g: "wait_round n p = (r, p')" by fastforce
  have np: "no_panic r" by (rule never_panicsD [OF never_panics_wait_round g])
  show ?case
  proof (cases r)
    case (Inr x)
    obtain c on where x: "x = (c, on)" by (cases x)
    show ?thesis
      using 1 [OF g [symmetric] Inr x [symmetric]] g Inr x
      by (subst wait_rounds.simps) (cases on; auto simp: case_prod_beta)
  qed (use g np in \<open>subst wait_rounds.simps; simp\<close>)
qed

lemma users_report_no_panic: "no_panic (users_report buf)"
  unfolding users_report_def by (intro no_panic_bind read_block_ok users_step_bounded) auto

lemma never_panics_ServiceStart [simp]: "never_panics (ServiceStart spb)"
  unfolding ServiceStart_def by (auto intro!: never_panics_bind_all)

text \<open>C14: Whatever a server sends, in whatever state the connection is, polling for lines, for
  completion or for a byte stream returns without panicking, and so does reading the lists of users
  and of limbo transactions and the server's database report out of any bytes.\<close>

theorem services_never_panic:
  "no_panic (fst (snd (WaitStrings p))) \<and> no_panic (fst (svc_Wait p)) \<and> no_panic (fst (snd (WaitBuffer p))) \<and>
   no_panic (fst (GetUsers securityDb p)) \<and> no_panic (fst (GetSvrDbInfo p)) \<and> no_panic (limbo_report buf)"
proof -
  have "never_panics (\<lambda>p. stream_report users_report (WaitBuffer p))"
    unfolding never_panics_def WaitBuffer_def stream_report_def
    using wait_rounds_no_panic users_report_no_panic
    by (auto simp: case_prod_beta intro!: no_panic_bind)
  then have "never_panics (GetUsers securityDb)"
    unfolding GetUsers_def userActionStart_def by (intro never_panics_bind_all) simp_all
  moreover have "never_panics GetSvrDbInfo"
    unfolding GetSvrDbInfo_def
    by (rule never_panics_bind_all) (auto simp: svr_db_report_def intro!: read_block_ok svr_db_step_bounded)
  ultimately show ?thesis
    using WaitStrings_no_panic svc_Wait_no_panic wait_rounds_no_panic
    by (auto simp: WaitBuffer_def limbo_report_def never_panics_def intro!: read_block_ok limbo_step_bounded)
qed

subsection \<open>Streams\<close>

text \<open>C15: The list of users survives the stream: however the server cuts the records into chunks (in
  the middle of a record or of a length), and however often it answers that there is nothing yet,
  GetUsers returns exactly the users, with every field, and reads nothing beyond the stream's end.\<close>

theorem users_across_chunks:
  assumes "calm p" "list_all listed_user users" "list_all answer_fits answers"
    and "concat (stream_chunks answers) = concat (map usr_GetSpb users)"
  shows "\<exists>q. GetUsers securityDb
      (feed (response_bytes (service_response []) @ stream_bytes answers @ rest) p) = (Inr users, feed rest q)"
proof -
  obtain q where 1: "ServiceStart (user_action_spb securityDb isc_action_svc_display_user_adm None)
      (feed (response_bytes (service_response []) @ stream_bytes answers @ rest) p) =
      (Inr (), feed (stream_bytes answers @ rest) q)" "calm q"
    by (rule ServiceStart_answered [OF assms(1), of "service_response []"]) simp_all
  obtain q' where 2: "WaitBuffer (feed (stream_bytes answers @ rest) q) = (stream_chunks answers, Inr (), feed rest q')"
    using wait_rounds_answered [OF 1(2) assms(3)] by (auto simp: WaitBuffer_def)
  show ?thesis
    using 1 2 users_report_items [OF assms(2)] assms(4)
    by (auto simp: GetUsers_def userActionStart_def stream_report_def wbind_def)
qed

definition sample_users :: "fb_user list" where
  "sample_users = [NewUser [WithUsername ''SYSDBA'', WithFirstName ''Sys'', WithAdmin],
     NewUser [WithUsername ''BOB'', WithLastName ''B'', WithUserId 7]]"

definition sample_answers :: "stream_answer list" where
  "sample_answers = (let b = concat (map usr_GetSpb sample_users) in
     [Chunk (take 5 b), NothingYet, Chunk (drop 5 b)])"

theorem users_across_chunks_witness:
  "\<exists>q. GetUsers '''' (feed (response_bytes (service_response []) @ stream_bytes sample_answers @ [1]) sample_wire) =
     (Inr sample_users, feed [1] q)"
proof -
  have "list_all listed_user sample_users"
    by (simp add: sample_users_def listed_user_def NewUser_def apply_options_def blank_user_def WithUsername_def
        WithFirstName_def WithLastName_def WithAdmin_def WithUserId_def)
  moreover have "list_all answer_fits sample_answers"
    by (simp add: sample_answers_def sample_users_def usr_GetSpb_def answer_fits_def NewUser_def apply_options_def
        blank_user_def WithUsername_def WithFirstName_def WithLastName_def WithAdmin_def WithUserId_def put_opt_def
        put_if_def NewXPBWriter_def PutString_def PutInt32_def Let_def int16_codec.enc_length int32_codec.enc_length)
  moreover have "calm sample_wire" by (simp add: calm_def sample_wire_def)
  moreover have "concat (stream_chunks sample_answers) = concat (map usr_GetSpb sample_users)"
    by (simp add: sample_answers_def stream_chunks_def opt_list_def Let_def)
  ultimately show ?thesis by (intro users_across_chunks)
qed

text \<open>The length of the buffer a stream is asked for never grows: an answer that the data was
  truncated does not name the item that was asked for, so it is refused before the code that
  would double the length sees it.\<close>

theorem truncated_never_grows:
  assumes "wait_round n p = (Inr (c, Some n'), q)"
  shows "n' = n"
proof -
  obtain buf where b: "GetServiceInfo wait_spb [isc_info_svc_to_eof] n p = (Inr buf, q)"
    "stream_step n buf = Inr (c, Some n')"
    using assms unfolding wait_round_def by (elim wbind_InrE) (auto simp: wlift_def)
  have "hd buf = isc_info_svc_to_eof" using GetServiceInfo_item [OF b(1)] by auto
  then show ?thesis using b(2)
    by (auto simp: stream_step_def Let_def bind_res_Inr split: if_splits)
qed

theorem truncated_never_grows_witness:
  "\<exists>q. wait_round 1000 (feed (response_bytes (service_response (answer_data NothingYet)) @ []) sample_wire) =
     (Inr (None, Some 1000), q)"
proof -
  have c: "calm sample_wire" by (simp add: calm_def sample_wire_def)
  obtain q where "GetServiceInfo wait_spb [isc_info_svc_to_eof] 1000
      (feed (response_bytes (service_response (answer_data NothingYet)) @ []) sample_wire) =
      (Inr (isc_info_svc_to_eof # [0, 0, isc_info_svc_timeout]), q)"
    by (rule GetServiceInfo_answered [where spb = wait_spb and n = 1000 and rest = "[]", OF c, of "service_response (answer_data NothingYet)" isc_info_svc_to_eof "[0, 0, isc_info_svc_timeout]"])
      (simp_all add: answer_data_def)
  moreover have "stream_step 1000 (isc_info_svc_to_eof # [0, 0, isc_info_svc_timeout]) = Inr (None, Some (1000 :: int32))"
    by (simp add: stream_step_def go_slice_def bytes_to_uint16_def le_uint_def)
  ultimately obtain n' where r: "wait_round 1000 (feed (response_bytes (service_response (answer_data NothingYet)) @ []) sample_wire) =
      (Inr (None, Some n'), q)"
    by (simp add: wait_round_def wbind_def)
  then show ?thesis using truncated_never_grows [OF r] by blast
qed

subsection \<open>Requests\<close>

text \<open>A restore request says what its options say: each flag of the option mask is set exactly when
  its option asks for it, and exactly one of replace and create is.\<close>

theorem restore_mask_decodes:
  "(restore_mask o1 AND isc_spb_res_replace \<noteq> 0) = rs_Replace o1 \<and>
   (restore_mask o1 AND isc_spb_res_create \<noteq> 0) = (\<not> rs_Replace o1) \<and>
   (restore_mask o1 AND isc_spb_res_deactivate_idx \<noteq> 0) = rs_DeactivateIndexes o1 \<and>
   (restore_mask o1 AND isc_spb_res_no_shadow \<noteq> 0) = (\<not> rs_RestoreShadows o1) \<and>
   (restore_mask o1 AND isc_spb_res_no_validity \<noteq> 0) = (\<not> rs_EnforceConstraints o1) \<and>
   (restore_mask o1 AND isc_spb_res_one_at_a_time \<noteq> 0) = rs_CommitAfterEachTable o1 \<and>
   (restore_mask o1 AND isc_spb_res_use_all_space \<noteq> 0) = rs_UseAllPageSpace o1"
  by (cases "rs_Replace o1"; cases "rs_DeactivateIndexes o1"; cases "rs_RestoreShadows o1";
      cases "rs_EnforceConstraints o1"; cases "rs_CommitAfterEachTable o1"; cases "rs_UseAllPageSpace o1")
    (simp_all add: restore_mask_def mask_if_def)

text \<open>A backup that asks to expand asks for no garbage collection instead: the two flags have the
  same value, so the request with the first option is, byte for byte, the request with the second.\<close>

theorem expand_requests_no_garbage_collection:
  "backup_spb database backup (WithExpand (WithGarbageCollect o1)) verbose =
   backup_spb database backup (WithoutExpand (WithoutGarbageCollect o1)) verbose"
  by (simp add: backup_spb_def backup_mask_def mask_if_def Let_def WithExpand_def WithoutExpand_def
      WithGarbageCollect_def WithoutGarbageCollect_def)

text \<open>What a server reads: the transaction a commit request names.\<close>

definition commit_target :: "bytes \<Rightarrow> int option" where
  "commit_target item = (case item of
     t # v \<Rightarrow>
       if t = isc_spb_rpr_commit_trans then (case bytes_to_int32 v of Inl e \<Rightarrow> None | Inr w \<Rightarrow> Some (uint w))
       else if t = isc_spb_rpr_commit_trans_64 then (case bytes_to_int64 v of Inl e \<Rightarrow> None | Inr w \<Rightarrow> Some (sint w))
       else None
   | [] \<Rightarrow> None)"

text \<open>How a server lists a limbo transaction, by the driver's own rule for what fits 32 bits.\<close>

definition limbo_item :: "int64 \<Rightarrow> byte \<times> xpb_value" where
  "limbo_item t = (if fitsUint32 (sint t) then (isc_spb_single_tra_id, VInt32 (ucast t))
     else (isc_spb_single_tra_id_64, VInt64 t))"

definition limbo_read :: "byte \<Rightarrow> xpb_value \<Rightarrow> int list \<Rightarrow> int list option" where
  "limbo_read t v tids = (case v of
     VInt32 w \<Rightarrow> if t = isc_spb_single_tra_id then Some (tids @ [sint w]) else None
   | VInt64 w \<Rightarrow> if t = isc_spb_single_tra_id_64 then Some (tids @ [sint w]) else None
   | _ \<Rightarrow> None)"

lemma limbo_read_item: "reads_item limbo_step limbo_read t v"
  unfolding reads_item_def
  by (auto simp: limbo_read_def limbo_step_def read_map_def split: xpb_value.splits if_splits)

lemma run_limbo:
  "run_items limbo_read (map limbo_item ts) tids =
     Some (tids @ map (\<lambda>t. if fitsUint32 (sint t) then sint (ucast t :: int32) else sint t) ts)"
  by (induction ts arbitrary: tids) (simp_all add: limbo_item_def limbo_read_def)

lemma ucast_fits: "fitsUint32 (sint (t :: int64)) \<Longrightarrow> uint (ucast t :: int32) = sint t"
proof -
  assume f: "fitsUint32 (sint t)"
  have "uint (ucast t :: int32) = uint t mod 2 ^ 32" by (simp add: unsigned_ucast_eq take_bit_eq_mod)
  also have "uint t = sint t" using f by (simp add: fitsUint32_def uint_sint take_bit_eq_mod)
  finally show ?thesis using f by (simp add: fitsUint32_def)
qed

lemma sint32_high: "sint (w :: int32) = (if uint w < 2 ^ 31 then uint w else uint w - 2 ^ 32)"
proof -
  have u: "0 \<le> uint w" "uint w < 2 ^ 32" using uint_lt2p [of w] by simp_all
  have s: "sint w = (uint w + 2 ^ 31) mod 2 ^ 32 - 2 ^ 31"
    by (simp add: sint_uint signed_take_bit_eq_take_bit_shift take_bit_eq_mod)
  have "(uint w + 2 ^ 31) mod 2 ^ 32 = (uint w - 2 ^ 31) mod 2 ^ 32" by (simp add: mod_eq_dvd_iff)
  then show ?thesis using u s by (cases "uint w < 2 ^ 31") simp_all
qed

text \<open>Committing names the transaction it was given, in 32 bits or in 64, for every identifier. The
  list of limbo transactions reads 32-bit identifiers as signed: those from 2^31 to 2^32 - 1, which
  the commit request writes as 32-bit, come back as negative numbers that name no transaction.\<close>

theorem transaction_ids:
  "commit_target (drop (length (PutString isc_spb_dbname database (NewXPBWriterFromTag isc_action_svc_repair)))
      (CommitTransaction_spb database t)) = Some (sint t) \<and>
   limbo_report (block_bytes [limbo_item t]) =
     Inr [if 2 ^ 31 \<le> sint t \<and> sint t < 2 ^ 32 then sint t - 2 ^ 32 else sint t]"
proof
  have d: "bytes_to_int32 (int32_to_bytes w) = Inr w" "bytes_to_int64 (int64_to_bytes x) = Inr x" for w x
    by (simp_all add: int32_codec.dec_enc_Nil int64_codec.dec_enc_Nil)
  show "commit_target (drop (length (PutString isc_spb_dbname database (NewXPBWriterFromTag isc_action_svc_repair)))
      (CommitTransaction_spb database t)) = Some (sint t)"
    by (simp add: CommitTransaction_spb_def Let_def PutInt32_def PutInt64_def commit_target_def d ucast_fits)
  have "limbo_report (block_bytes (map limbo_item [t])) =
      Inr ([] @ map (\<lambda>t. if fitsUint32 (sint t) then sint (ucast t :: int32) else sint t) [t])"
    unfolding limbo_report_def
    by (rule read_block_items [where f = limbo_read, OF _ run_limbo]) (simp add: limbo_read_item)
  then show "limbo_report (block_bytes [limbo_item t]) =
     Inr [if 2 ^ 31 \<le> sint t \<and> sint t < 2 ^ 32 then sint t - 2 ^ 32 else sint t]"
    by (auto simp: sint32_high ucast_fits) (auto simp: fitsUint32_def)
qed

subsection \<open>Trace sessions\<close>

datatype trace_op = TStop "wire_protocol res" | TPause "wire_protocol res" | TResume "wire_protocol res" | TClose "wire_protocol res"

primrec trace_step :: "trace_op \<Rightarrow> trace_session \<Rightarrow> trace_session" where
  "trace_step (TStop c) ts = snd (trace_Stop c ts)"
| "trace_step (TPause c) ts = snd (trace_Pause c ts)"
| "trace_step (TResume c) ts = snd (trace_Resume c ts)"
| "trace_step (TClose c) ts = snd (trace_Close c ts)"

text \<open>The transitions the service's trace sessions have.\<close>

inductive session_move :: "session_state \<Rightarrow> session_state \<Rightarrow> bool" where
  pause: "session_move SessionRunning SessionPaused"
| resume: "session_move SessionPaused SessionRunning"
| stop: "s \<noteq> SessionStopped \<Longrightarrow> session_move s SessionStopped"

inductive_simps session_move_simps: "session_move s s'"

lemma trace_step_move:
  "ts_id (trace_step x ts) = ts_id ts \<and>
   (ts_state (trace_step x ts) = ts_state ts \<or> session_move (ts_state ts) (ts_state (trace_step x ts)))"
  by (cases x; cases "ts_state ts")
    (auto simp: trace_Stop_def trace_Pause_def trace_Resume_def trace_Close_def session_move_simps
      split: sum.splits prod.splits option.splits)

interpretation stopped_session: machine trace_step "\<lambda>ts. ts_state ts = SessionStopped \<and> ts_id ts = i" for i
proof
  fix ts :: trace_session and x assume "ts_state ts = SessionStopped \<and> ts_id ts = i"
  then show "ts_state (trace_step x ts) = SessionStopped \<and> ts_id (trace_step x ts) = i"
    using trace_step_move [of x ts] by (auto simp: session_move_simps)
qed

text \<open>A trace session moves only as the protocol allows (running and paused alternate, both may
  stop), stopping either stops it or leaves it as it was, and once stopped it stays stopped under
  any further operations, its identifier unchanged.\<close>

theorem trace_session_lifecycle:
  "(ts_state (trace_step x ts) = ts_state ts \<or> session_move (ts_state ts) (ts_state (trace_step x ts))) \<and>
   (trace_Stop c ts = (Inr (), ts\<lparr>ts_state := SessionStopped\<rparr>) \<or> snd (trace_Stop c ts) = ts) \<and>
   ts_state (run_ops trace_step ops (ts\<lparr>ts_state := SessionStopped\<rparr>)) = SessionStopped \<and>
   ts_id (run_ops trace_step ops (ts\<lparr>ts_state := SessionStopped\<rparr>)) = ts_id ts"
  using trace_step_move [of x ts] stopped_session.run_inv [of "ts\<lparr>ts_state := SessionStopped\<rparr>" "ts_id ts" ops]
  by (auto simp: trace_Stop_def split: sum.split)

end
