(* ===== verification/Xsqlvar.thy ===== *)
theory Xsqlvar
  imports Wire_Codec Consts "HOL-Library.Signed_Division"
begin

text \<open>
  Column descriptors (\<open>xsqlvar.go\<close>): the struct \<open>xSQLVAR\<close>, what the driver derives from a
  type code, and \<open>calcBlr\<close>, the BLR description of a row of columns.
  Go's \<open>int\<close> fields are \<open>int\<close>; a map literal that is looked up without a check gives the
  zero value for a key it lacks.
\<close>

record array_dimension =
  LowerBound :: int
  ad_Length :: int

record array_meta =
  am_TableName :: string
  am_FieldName :: string
  am_TypeID :: int
  am_BlrTypeID :: int
  am_Scale :: int32
  am_SubType :: int32
  am_Length :: "32 word"
  am_FieldBytes :: "32 word"
  am_Dimensions :: "array_dimension list"
  am_fieldSource :: string

record xsqlvar =
  sqltype :: int
  sqlscale :: int
  sqlsubtype :: int
  sqllen :: int
  null_ok :: bool
  fieldname :: string
  relname :: string
  ownname :: string
  aliasname :: string
  arrayMeta :: "array_meta option"

text \<open>The zero value that \<open>make([]xSQLVAR, n)\<close> fills a slice with.\<close>

definition zero_var :: xsqlvar where
  "zero_var = \<lparr> sqltype = 0, sqlscale = 0, sqlsubtype = 0, sqllen = 0, null_ok = False,
     fieldname = '''', relname = '''', ownname = '''', aliasname = '''', arrayMeta = None \<rparr>"

subsection \<open>Type tables\<close>

definition xsqlvarTypeLength :: "(int \<times> int) list" where
  "xsqlvarTypeLength =
     [(SQL_TYPE_TEXT, -1), (SQL_TYPE_VARYING, -1), (SQL_TYPE_SHORT, 4), (SQL_TYPE_LONG, 4),
      (SQL_TYPE_FLOAT, 4), (SQL_TYPE_TIME, 4), (SQL_TYPE_DATE, 4), (SQL_TYPE_DOUBLE, 8),
      (SQL_TYPE_TIMESTAMP, 8), (SQL_TYPE_BLOB, 8), (SQL_TYPE_ARRAY, 8), (SQL_TYPE_QUAD, 8),
      (SQL_TYPE_INT64, 8), (SQL_TYPE_INT128, 16), (SQL_TYPE_TIMESTAMP_TZ, 12), (SQL_TYPE_TIME_TZ, 8),
      (SQL_TYPE_DEC64, 8), (SQL_TYPE_DEC128, 16), (SQL_TYPE_DEC_FIXED, 16), (SQL_TYPE_BOOLEAN, 1)]"

definition xsqlvarTypeDisplayLength :: "(int \<times> int) list" where
  "xsqlvarTypeDisplayLength =
     [(SQL_TYPE_TEXT, -1), (SQL_TYPE_VARYING, -1), (SQL_TYPE_SHORT, 6), (SQL_TYPE_LONG, 11),
      (SQL_TYPE_FLOAT, 17), (SQL_TYPE_TIME, 11), (SQL_TYPE_DATE, 10), (SQL_TYPE_DOUBLE, 17),
      (SQL_TYPE_TIMESTAMP, 22), (SQL_TYPE_BLOB, 0), (SQL_TYPE_ARRAY, -1), (SQL_TYPE_QUAD, 20),
      (SQL_TYPE_INT64, 20), (SQL_TYPE_INT128, 20), (SQL_TYPE_TIMESTAMP_TZ, 28), (SQL_TYPE_TIME_TZ, 17),
      (SQL_TYPE_DEC64, 16), (SQL_TYPE_DEC128, 34), (SQL_TYPE_DEC_FIXED, 34), (SQL_TYPE_BOOLEAN, 5)]"

definition xsqlvarTypeName :: "(int \<times> string) list" where
  "xsqlvarTypeName =
     [(SQL_TYPE_TEXT, ''TEXT''), (SQL_TYPE_VARYING, ''VARYING''), (SQL_TYPE_SHORT, ''SHORT''),
      (SQL_TYPE_LONG, ''LONG''), (SQL_TYPE_FLOAT, ''FLOAT''), (SQL_TYPE_TIME, ''TIME''),
      (SQL_TYPE_DATE, ''DATE''), (SQL_TYPE_DOUBLE, ''DOUBLE''), (SQL_TYPE_TIMESTAMP, ''TIMESTAMP''),
      (SQL_TYPE_BLOB, ''BLOB''), (SQL_TYPE_ARRAY, ''ARRAY''), (SQL_TYPE_QUAD, ''QUAD''),
      (SQL_TYPE_INT64, ''INT64''), (SQL_TYPE_INT128, ''INT128''),
      (SQL_TYPE_TIMESTAMP_TZ, ''TIMESTAMP WITH TIMEZONE''), (SQL_TYPE_TIME_TZ, ''TIME WITH TIMEZONE''),
      (SQL_TYPE_DEC64, ''DECFLOAT(16)''), (SQL_TYPE_DEC128, ''DECFLOAT(34)''),
      (SQL_TYPE_DEC_FIXED, ''DECFIXED''), (SQL_TYPE_BOOLEAN, ''BOOLEAN'')]"

definition lookup_or :: "'b \<Rightarrow> ('a \<times> 'b) list \<Rightarrow> 'a \<Rightarrow> 'b" where
  "lookup_or d m k = (case map_of m k of Some v \<Rightarrow> v | None \<Rightarrow> d)"

definition ioLength :: "xsqlvar \<Rightarrow> int" where
  "ioLength x = (if sqltype x = SQL_TYPE_TEXT then sqllen x else lookup_or 0 xsqlvarTypeLength (sqltype x))"

definition displayLength :: "xsqlvar \<Rightarrow> int" where
  "displayLength x =
     (if sqltype x = SQL_TYPE_TEXT \<or> sqltype x = SQL_TYPE_VARYING then sqllen x
      else lookup_or 0 xsqlvarTypeDisplayLength (sqltype x))"

definition hasPrecisionScale :: "xsqlvar \<Rightarrow> bool" where
  "hasPrecisionScale x \<longleftrightarrow>
     (sqltype x = SQL_TYPE_SHORT \<or> sqltype x = SQL_TYPE_LONG \<or> sqltype x = SQL_TYPE_QUAD \<or>
      sqltype x = SQL_TYPE_INT64 \<or> sqltype x = SQL_TYPE_INT128 \<or> sqltype x = SQL_TYPE_DEC64 \<or>
      sqltype x = SQL_TYPE_DEC128 \<or> sqltype x = SQL_TYPE_DEC_FIXED) \<and> sqlscale x \<noteq> 0"

definition typename :: "xsqlvar \<Rightarrow> string" where
  "typename x = lookup_or '''' xsqlvarTypeName (sqltype x)"

text \<open>\<open>scantype\<close>: the Go type a column scans into; the last one is \<open>reflect.TypeOf(nil)\<close>.\<close>

datatype scan_type = ScanString | ScanInt64 | ScanTime | ScanFloat64 | ScanBool | ScanBytes | ScanArrayValue | ScanNil

definition scantype :: "xsqlvar \<Rightarrow> scan_type" where
  "scantype x =
     (let t = sqltype x in
      if t = SQL_TYPE_TEXT \<or> t = SQL_TYPE_VARYING then ScanString
      else if t = SQL_TYPE_SHORT \<or> t = SQL_TYPE_LONG \<or> t = SQL_TYPE_INT64 then
        (if sqlscale x \<noteq> 0 then ScanString else ScanInt64)
      else if t = SQL_TYPE_INT128 then ScanString
      else if t = SQL_TYPE_DATE \<or> t = SQL_TYPE_TIME \<or> t = SQL_TYPE_TIMESTAMP then ScanTime
      else if t = SQL_TYPE_FLOAT \<or> t = SQL_TYPE_DOUBLE then ScanFloat64
      else if t = SQL_TYPE_BOOLEAN then ScanBool
      else if t = SQL_TYPE_BLOB then ScanBytes
      else if t = SQL_TYPE_ARRAY then ScanArrayValue
      else if t = SQL_TYPE_TIMESTAMP_TZ \<or> t = SQL_TYPE_TIME_TZ then ScanTime
      else if t = SQL_TYPE_DEC64 \<or> t = SQL_TYPE_DEC128 \<or> t = SQL_TYPE_DEC_FIXED then ScanString
      else ScanNil)"

subsection \<open>\<open>calcBlr\<close>\<close>

text \<open>
  The buffer is allocated once, eight bytes for each column and eight more, and written at the
  running index \<open>n\<close>; a write past it would panic.
\<close>

definition blr_write :: "bytes \<Rightarrow> bytes \<times> nat \<Rightarrow> (bytes \<times> nat) res" where
  "blr_write bs st =
     (let (blr, n) = st in
      if n + length bs \<le> length blr then Inr (take n blr @ bs @ drop (n + length bs) blr, n + length bs)
      else Inl (Panic ''index out of range''))"

definition go_byte :: "int \<Rightarrow> byte" where
  "go_byte x = word_of_int x"

definition blr_column :: "xsqlvar \<Rightarrow> bytes" where
  "blr_column x =
     (let scale = (if sqlscale x < 0 then sqlscale x + 256 else sqlscale x);
          t = sqltype x;
          counted = (\<lambda>c. [c, go_byte (sqllen x AND 255), go_byte (drop_bit 8 (sqllen x))]);
          scaled = (\<lambda>c. [c, go_byte scale])
      in if t = SQL_TYPE_VARYING then counted 37
         else if t = SQL_TYPE_TEXT then counted 14
         else if t = SQL_TYPE_LONG then scaled 8
         else if t = SQL_TYPE_SHORT then scaled 7
         else if t = SQL_TYPE_INT64 then scaled 16
         else if t = SQL_TYPE_INT128 then scaled 26
         else if t = SQL_TYPE_QUAD then scaled 9
         else if t = SQL_TYPE_DEC_FIXED then scaled 26
         else if t = SQL_TYPE_DOUBLE then [27]
         else if t = SQL_TYPE_FLOAT then [10]
         else if t = SQL_TYPE_D_FLOAT then [11]
         else if t = SQL_TYPE_DATE then [12]
         else if t = SQL_TYPE_TIME then [13]
         else if t = SQL_TYPE_TIMESTAMP then [35]
         else if t = SQL_TYPE_BLOB then [9, 0]
         else if t = SQL_TYPE_ARRAY then [9, 0]
         else if t = SQL_TYPE_BOOLEAN then [23]
         else if t = SQL_TYPE_NULL then [14, 0, 0]
         else if t = SQL_TYPE_DEC64 then [24]
         else if t = SQL_TYPE_DEC128 then [25]
         else if t = SQL_TYPE_TIME_TZ then [28]
         else if t = SQL_TYPE_TIMESTAMP_TZ then [29]
         else [])"

primrec blr_columns :: "xsqlvar list \<Rightarrow> bytes \<times> nat \<Rightarrow> (bytes \<times> nat) res" where
  "blr_columns [] st = Inr st"
| "blr_columns (x # xs) st =
     bind_res (blr_write (blr_column x) st) (\<lambda>st.
     bind_res (blr_write [7, 0] st) (\<lambda>st. blr_columns xs st))"

definition calcBlr :: "xsqlvar list \<Rightarrow> bytes res" where
  "calcBlr xsqlda =
     (let ln = int (length xsqlda) * 2;
          blr = replicate (nat (ln * 4 + 8)) 0
      in bind_res (blr_write [5, 2, 4, 0, go_byte (ln AND 255), go_byte (drop_bit 8 ln)] (blr, 0)) (\<lambda>st.
         bind_res (blr_columns xsqlda st) (\<lambda>st.
         bind_res (blr_write [255, 76] st) (\<lambda>(blr, n). Inr (take n blr)))))"

subsection \<open>What a server reads in it\<close>

text \<open>A type of a BLR message: a counted text, an integer with its scale, or a code alone.\<close>

datatype blr_type = BlrCounted byte nat | BlrScaled byte int | BlrPlain byte

definition blr_type_of :: "bytes \<Rightarrow> (blr_type \<times> bytes) option" where
  "blr_type_of b = (case b of
     [] \<Rightarrow> None
   | c # r \<Rightarrow>
       if c \<in> {14, 37} then (case r of lo # hi # r \<Rightarrow> Some (BlrCounted c (unat lo + 256 * unat hi), r) | _ \<Rightarrow> None)
       else if c \<in> {7, 8, 9, 16, 26} then (case r of s # r \<Rightarrow> Some (BlrScaled c (sint s), r) | _ \<Rightarrow> None)
       else if c \<in> {10, 11, 12, 13, 23, 24, 25, 27, 28, 29, 35} then Some (BlrPlain c, r)
       else None)"

primrec blr_types :: "nat \<Rightarrow> bytes \<Rightarrow> (blr_type list \<times> bytes) option" where
  "blr_types 0 b = Some ([], b)"
| "blr_types (Suc n) b =
     Option.bind (blr_type_of b) (\<lambda>(t, b). Option.bind (blr_types n b) (\<lambda>(ts, b). Some (t # ts, b)))"

definition parse_blr_message :: "bytes \<Rightarrow> blr_type list option" where
  "parse_blr_message b = (case b of
     v # bg # m # z # lo # hi # r \<Rightarrow>
       if v = 5 \<and> bg = 2 \<and> m = 4 \<and> z = 0 then
         Option.bind (blr_types (unat lo + 256 * unat hi) r) (\<lambda>(ts, r). if r = [255, 76] then Some ts else None)
       else None
   | _ \<Rightarrow> None)"

text \<open>The type a column of each SQL type is described by.\<close>

definition column_type :: "xsqlvar \<Rightarrow> blr_type option" where
  "column_type x = map_option (\<lambda>f. f x) (map_of
     [(SQL_TYPE_VARYING, \<lambda>x. BlrCounted 37 (nat (sqllen x))), (SQL_TYPE_TEXT, \<lambda>x. BlrCounted 14 (nat (sqllen x))),
      (SQL_TYPE_NULL, \<lambda>x. BlrCounted 14 0), (SQL_TYPE_SHORT, \<lambda>x. BlrScaled 7 (sqlscale x)),
      (SQL_TYPE_LONG, \<lambda>x. BlrScaled 8 (sqlscale x)), (SQL_TYPE_INT64, \<lambda>x. BlrScaled 16 (sqlscale x)),
      (SQL_TYPE_INT128, \<lambda>x. BlrScaled 26 (sqlscale x)), (SQL_TYPE_DEC_FIXED, \<lambda>x. BlrScaled 26 (sqlscale x)),
      (SQL_TYPE_QUAD, \<lambda>x. BlrScaled 9 (sqlscale x)), (SQL_TYPE_BLOB, \<lambda>x. BlrScaled 9 0),
      (SQL_TYPE_ARRAY, \<lambda>x. BlrScaled 9 0), (SQL_TYPE_DOUBLE, \<lambda>x. BlrPlain 27), (SQL_TYPE_FLOAT, \<lambda>x. BlrPlain 10),
      (SQL_TYPE_D_FLOAT, \<lambda>x. BlrPlain 11), (SQL_TYPE_DATE, \<lambda>x. BlrPlain 12), (SQL_TYPE_TIME, \<lambda>x. BlrPlain 13),
      (SQL_TYPE_TIMESTAMP, \<lambda>x. BlrPlain 35), (SQL_TYPE_BOOLEAN, \<lambda>x. BlrPlain 23), (SQL_TYPE_DEC64, \<lambda>x. BlrPlain 24),
      (SQL_TYPE_DEC128, \<lambda>x. BlrPlain 25), (SQL_TYPE_TIME_TZ, \<lambda>x. BlrPlain 28), (SQL_TYPE_TIMESTAMP_TZ, \<lambda>x. BlrPlain 29)]
     (sqltype x))"

definition column_fits :: "xsqlvar \<Rightarrow> bool" where
  "column_fits x \<longleftrightarrow> 0 \<le> sqllen x \<and> sqllen x < 65536 \<and> -128 \<le> sqlscale x \<and> sqlscale x < 128"

lemma go_byte_low: "unat (go_byte (n AND 255)) = nat (n mod 256)"
proof -
  have "uint (go_byte (n AND 255)) = n mod 256"
    by (simp add: go_byte_def int_and_255 uint_word_of_int)
  then show ?thesis by (simp add: unat_eq_nat_uint)
qed

lemma go_byte_halves:
  assumes "0 \<le> n" "n < 65536"
  shows "unat (go_byte (n AND 255)) + 256 * unat (go_byte (drop_bit 8 n)) = nat n"
proof -
  have "uint (go_byte (drop_bit 8 n)) = n div 256"
    using assms by (simp add: go_byte_def uint_word_of_int drop_bit_eq_div)
  then have "unat (go_byte (drop_bit 8 n)) = nat (n div 256)" by (simp add: unat_eq_nat_uint)
  moreover have "nat (n mod 256) + 256 * nat (n div 256) = nat n"
    using assms by (simp add: nat_mod_distrib nat_div_distrib)
  ultimately show ?thesis by (simp add: go_byte_low)
qed

lemma sint_go_byte:
  assumes "-128 \<le> n" "n < 128"
  shows "sint (go_byte (if n < 0 then n + 256 else n)) = n"
proof -
  have "go_byte (if n < 0 then n + 256 else n) = word_of_int n"
    by (simp add: go_byte_def)
  moreover have "sint (word_of_int n :: byte) = n"
    using assms by (subst sint_sbintrunc') (simp add: signed_take_bit_int_eq_self)
  ultimately show ?thesis by simp
qed

lemma blr_column_read:
  assumes "column_fits x" "column_type x = Some t"
  shows "blr_type_of (blr_column x @ r) = Some (t, r)"
  using assms(2) go_byte_halves [of "sqllen x"] sint_go_byte [of "sqlscale x"] assms(1)
  unfolding column_type_def
  by (auto simp: blr_column_def blr_type_of_def column_fits_def Let_def split: if_splits)

lemma blr_write_at: "length b = n + m \<Longrightarrow> length bs \<le> m \<Longrightarrow>
  blr_write bs (b, n) = Inr (take n b @ bs @ drop (n + length bs) b, n + length bs)"
  by (simp add: blr_write_def)

lemma blr_column_length: "length (blr_column x) \<le> 3"
  by (simp add: blr_column_def Let_def)

definition row_bytes :: "xsqlvar list \<Rightarrow> bytes" where
  "row_bytes xs = concat (map (\<lambda>x. blr_column x @ [7, 0]) xs)"

lemma row_bytes_length: "length (row_bytes xs) \<le> 5 * length xs"
proof (induction xs)
  case (Cons x xs)
  then show ?case using blr_column_length [of x] by (simp add: row_bytes_def)
qed (simp add: row_bytes_def)

lemma blr_columns_eq:
  assumes "n + 5 * length xs \<le> length b"
  shows "blr_columns xs (b, n) =
    Inr (take n b @ row_bytes xs @ drop (n + length (row_bytes xs)) b, n + length (row_bytes xs))"
  using assms
proof (induction xs arbitrary: b n)
  case (Cons x xs)
  let ?k = "n + length (blr_column x) + 2"
  have c: "length (blr_column x) \<le> 3" by (rule blr_column_length)
  let ?b = "take n b @ (blr_column x @ [7, 0]) @ drop ?k b"
  have "bind_res (blr_write (blr_column x) (b, n)) (blr_write [7, 0]) = Inr (?b, ?k)"
    using c Cons.prems by (simp add: blr_write_def add.commute)
  then obtain st where "blr_write (blr_column x) (b, n) = Inr st" "blr_write [7, 0] st = Inr (?b, ?k)"
    by (auto simp: bind_res_Inr)
  moreover have "blr_columns xs (?b, ?k) = Inr (take ?k ?b @ row_bytes xs @ drop (?k + length (row_bytes xs)) ?b,
      ?k + length (row_bytes xs))"
    using c Cons.prems by (intro Cons.IH) simp
  moreover have "take ?k ?b @ row_bytes xs @ drop (?k + length (row_bytes xs)) ?b =
      take n b @ row_bytes (x # xs) @ drop (n + length (row_bytes (x # xs))) b"
    using c Cons.prems by (simp add: row_bytes_def add_ac)
  ultimately show ?case by (simp add: row_bytes_def add_ac)
qed (simp add: row_bytes_def)

lemma blr_columns_fresh:
  assumes "5 * length xs \<le> m"
  shows "blr_columns xs (h @ replicate m 0, length h) =
    Inr (h @ row_bytes xs @ replicate (m - length (row_bytes xs)) 0, length h + length (row_bytes xs))"
  using assms by (subst blr_columns_eq) simp_all

lemma calcBlr_eq:
  "calcBlr xs = Inr ([5, 2, 4, 0, go_byte (int (length xs) * 2 AND 255), go_byte (drop_bit 8 (int (length xs) * 2))]
     @ row_bytes xs @ [255, 76])"
proof -
  define h where "h = [5, 2, 4, 0, go_byte (int (length xs) * 2 AND 255), go_byte (drop_bit 8 (int (length xs) * 2))]"
  define m where "m = 8 * length xs + 2"
  let ?k = "length h + length (row_bytes xs)"
  have len: "nat (int (length xs) * 2 * 4 + 8) = length h + m" by (simp add: h_def m_def)
  have r: "length (row_bytes xs) + 2 \<le> m" using row_bytes_length [of xs] by (simp add: m_def)
  have w: "blr_write h (replicate (length h + m) 0, 0) = Inr (h @ replicate m 0, length h)"
    by (simp add: blr_write_def)
  have c: "blr_columns xs (h @ replicate m 0, length h) = Inr (h @ row_bytes xs @ replicate (m - length (row_bytes xs)) 0, ?k)"
    by (rule blr_columns_fresh) (simp add: m_def)
  have "blr_write [255, 76] (h @ row_bytes xs @ replicate (m - length (row_bytes xs)) 0, ?k) =
      Inr (h @ row_bytes xs @ [255, 76] @ replicate (m - length (row_bytes xs) - 2) 0, ?k + 2)"
    using r by (simp add: blr_write_def)
  then show ?thesis
    unfolding calcBlr_def Let_def len h_def [symmetric] w c bind_res.simps by simp
qed

lemma blr_types_row:
  assumes "list_all column_fits xs" "map column_type xs = map Some ts"
  shows "blr_types (length xs * 2) (row_bytes xs @ r) = Some (concat (map (\<lambda>t. [t, BlrScaled 7 0]) ts), r)"
  using assms
proof (induction xs arbitrary: ts)
  case (Cons x xs)
  then obtain t us where "ts = t # us" "column_type x = Some t" "map column_type xs = map Some us"
    by (cases ts) auto
  moreover have "blr_type_of ([7, 0] @ b) = Some (BlrScaled 7 0, b)" for b by (simp add: blr_type_of_def)
  ultimately show ?case
    using Cons blr_column_read [of x t "[7, 0] @ row_bytes xs @ r"] by (simp add: row_bytes_def)
qed (simp add: row_bytes_def)

subsection \<open>Properties\<close>

text \<open>A row is described to the server as it was described by it: for up to 32767 columns of
  the types the driver knows, with 16-bit lengths and signed 8-bit scales, the BLR message of
  \<open>calcBlr\<close> parses back to each column's type and length or scale in order, each followed by its
  null indicator, and fills exactly the buffer the code allocated for it.\<close>

theorem row_description_roundtrip:
  assumes "length xs < 32768" "list_all column_fits xs" "map column_type xs = map Some ts"
  shows "\<exists>b. calcBlr xs = Inr b \<and> parse_blr_message b = Some (concat (map (\<lambda>t. [t, BlrScaled 7 0]) ts))"
proof -
  have "unat (go_byte (int (length xs) * 2 AND 255)) + 256 * unat (go_byte (drop_bit 8 (int (length xs) * 2))) = length xs * 2"
    using assms(1) by (subst go_byte_halves) auto
  then show ?thesis
    using blr_types_row [OF assms(2,3), of "[255, 76]"] by (simp add: calcBlr_eq parse_blr_message_def)
qed

definition sample_columns :: "xsqlvar list" where
  "sample_columns =
     [zero_var\<lparr>sqltype := SQL_TYPE_VARYING, sqllen := 300\<rparr>, zero_var\<lparr>sqltype := SQL_TYPE_INT64, sqlscale := -2\<rparr>,
      zero_var\<lparr>sqltype := SQL_TYPE_TIMESTAMP\<rparr>]"

theorem row_description_roundtrip_witness:
  "\<exists>b. calcBlr sample_columns = Inr b \<and> parse_blr_message b =
     Some [BlrCounted 37 300, BlrScaled 7 0, BlrScaled 16 (-2), BlrScaled 7 0, BlrPlain 35, BlrScaled 7 0]"
  using row_description_roundtrip [of sample_columns "[BlrCounted 37 300, BlrScaled 16 (-2), BlrPlain 35]"]
  by (simp add: sample_columns_def column_fits_def column_type_def zero_var_def)

end
