(* ===== verification/Describe.thy ===== *)
theory Describe
  imports Wire_Relation Xsqlvar
begin

text \<open>
  Describing a statement (\<open>wireprotocol.go\<close>): the decoder of the per-column metadata the server
  sends for a select list or a list of parameters, and the loops that ask for the rest when an
  answer was truncated.

  \<open>select_items\<close> is \<open>_parse_select_items\<close>: it walks the buffer item by item and returns the
  column index reached and the descriptors. The code returns -1 for ``complete'' and the last
  column's number for ``truncated'', from which the next request starts.
\<close>

subsection \<open>The item decoder\<close>

definition set_column :: "int \<Rightarrow> (xsqlvar \<Rightarrow> xsqlvar) \<Rightarrow> xsqlvar list \<Rightarrow> xsqlvar list" where
  "set_column index f xs = xs[nat (index - 1) := f (xs ! nat (index - 1))]"

definition requireIndex :: "int \<Rightarrow> xsqlvar list \<Rightarrow> unit res" where
  "requireIndex index xs =
     (if index < 1 \<or> index > int (length xs)
      then Inl (Plain ''firebirdsql: describe-vars item 0x%02x with invalid index %d'') else Inr ())"

definition number_item ::
  "string \<Rightarrow> (int \<Rightarrow> xsqlvar \<Rightarrow> xsqlvar) \<Rightarrow> bytes \<Rightarrow> int \<Rightarrow> xsqlvar list \<Rightarrow> (int \<times> xsqlvar list) res" where
  "number_item short upd payload index xs =
     bind_res (requireIndex index xs) (\<lambda>_.
     if length payload < 4 then Inl (Plain short)
     else bind_res (bytes_to_int32 payload) (\<lambda>w. Inr (index, set_column index (upd (sint w)) xs)))"

definition text_item ::
  "(string \<Rightarrow> xsqlvar \<Rightarrow> xsqlvar) \<Rightarrow> bytes \<Rightarrow> int \<Rightarrow> xsqlvar list \<Rightarrow> (int \<times> xsqlvar list) res" where
  "text_item upd payload index xs =
     bind_res (requireIndex index xs) (\<lambda>_. Inr (index, set_column index (upd (bytes_to_str payload)) xs))"

definition seq_item :: "bytes \<Rightarrow> xsqlvar list \<Rightarrow> (int \<times> xsqlvar list) res" where
  "seq_item payload xs =
     (if length payload < 4 then Inl (Plain ''firebirdsql: short sqlda_seq payload (%d bytes)'')
      else bind_res (bytes_to_int32 payload) (\<lambda>w.
        let index = sint w in
        if index < 1 \<or> index > int (length xs)
        then Inl (Plain ''firebirdsql: sqlda_seq %d out of range [1,%d]'') else Inr (index, xs)))"

definition select_item :: "byte \<Rightarrow> bytes \<Rightarrow> int \<Rightarrow> xsqlvar list \<Rightarrow> (int \<times> xsqlvar list) res" where
  "select_item item payload index xs =
     (if item = isc_info_sql_sqlda_seq then seq_item payload xs
      else if item = isc_info_sql_type then
        number_item ''firebirdsql: short sql_type payload (%d bytes)''
          (\<lambda>t. sqltype_update (\<lambda>_. if t smod 2 \<noteq> 0 then t - 1 else t)) payload index xs
      else if item = isc_info_sql_sub_type then
        number_item ''firebirdsql: short sub_type payload (%d bytes)'' (\<lambda>n. sqlsubtype_update (\<lambda>_. n)) payload index xs
      else if item = isc_info_sql_scale then
        number_item ''firebirdsql: short scale payload (%d bytes)'' (\<lambda>n. sqlscale_update (\<lambda>_. n)) payload index xs
      else if item = isc_info_sql_length then
        number_item ''firebirdsql: short length payload (%d bytes)'' (\<lambda>n. sqllen_update (\<lambda>_. n)) payload index xs
      else if item = isc_info_sql_null_ind then
        number_item ''firebirdsql: short null_ind payload (%d bytes)'' (\<lambda>n. null_ok_update (\<lambda>_. n \<noteq> 0)) payload index xs
      else if item = isc_info_sql_field then text_item (\<lambda>s. fieldname_update (\<lambda>_. s)) payload index xs
      else if item = isc_info_sql_relation then text_item (\<lambda>s. relname_update (\<lambda>_. s)) payload index xs
      else if item = isc_info_sql_owner then text_item (\<lambda>s. ownname_update (\<lambda>_. s)) payload index xs
      else if item = isc_info_sql_alias then text_item (\<lambda>s. aliasname_update (\<lambda>_. s)) payload index xs
      else Inr (index, xs))"

function select_items :: "int \<Rightarrow> bytes \<Rightarrow> xsqlvar list \<Rightarrow> (int \<times> xsqlvar list) res" where
  "select_items index [] xs = Inr (-1, xs)"
| "select_items index (item # rest) xs =
     (if item = isc_info_end then Inr (-1, xs)
      else if item = isc_info_truncated then Inr (index, xs)
      else if item = isc_info_sql_describe_end then select_items index rest xs
      else if length rest < 2 then Inl (Plain ''firebirdsql: truncated describe-vars item 0x%02x'')
      else case bytes_to_uint16 (take 2 rest) of
        Inl e \<Rightarrow> Inl e
      | Inr ln \<Rightarrow>
          let body = drop 2 rest in
          if ln > length body then Inl (Plain ''firebirdsql: invalid describe-vars length %d for item 0x%02x'')
          else case select_item item (take ln body) index xs of
            Inl e \<Rightarrow> Inl e
          | Inr (index, xs) \<Rightarrow> select_items index (drop ln body) xs)"
  by pat_completeness auto
termination by (relation "measure (\<lambda>(i, b, xs). length b)") auto

declare select_items.simps(2) [simp del]

definition parse_select_items :: "bytes \<Rightarrow> xsqlvar list \<Rightarrow> (int \<times> xsqlvar list) res" where
  "parse_select_items buf xsqlda = select_items 0 buf xsqlda"

subsection \<open>Asking for the rest\<close>

definition describe_from :: "int32 \<Rightarrow> bytes \<Rightarrow> int \<Rightarrow> unit wm" where
  "describe_from stmtHandle vars next =
     opInfoSql stmtHandle ([isc_info_sql_sqlda_start, 2] @ int16_to_bytes (word_of_int next) @ vars)"

text \<open>
  One round asks from column \<open>next\<close> on and decodes the answer; the loop goes on while the answer
  was truncated. It returns the last answer too, as the caller's variable \<open>buf\<close> now holds it.
\<close>

definition describe_answer :: "string \<Rightarrow> string \<Rightarrow> bytes \<Rightarrow> xsqlvar list \<Rightarrow> (int \<times> bytes \<times> xsqlvar list) res" where
  "describe_answer short bad buf xs =
     (if length buf < 4 then Inl (Plain short)
      else bind_res (bind_res (go_slice buf 2 4) bytes_to_int16) (\<lambda>w.
        let ln = sint w in
        if ln < 0 \<or> 4 + ln \<ge> int (length buf) then Inl (Plain bad)
        else bind_res (go_slice buf (4 + ln) (int (length buf))) (\<lambda>items.
          bind_res (parse_select_items items xs) (\<lambda>(next, xs). Inr (next, buf, xs)))))"

definition describe_round :: "string \<Rightarrow> string \<Rightarrow> bytes \<Rightarrow> int32 \<Rightarrow> int \<Rightarrow> xsqlvar list \<Rightarrow> (int \<times> bytes \<times> xsqlvar list) wm" where
  "describe_round short bad vars stmtHandle next xs =
     wbind (describe_from stmtHandle vars next) (\<lambda>_.
     wbind opResponse (\<lambda>(h, oid, buf). wlift (describe_answer short bad buf xs)))"

lemma describe_from_keeps: "inbound.keeps (describe_from h vars n)" "chan.keeps (describe_from h vars n)"
  unfolding describe_from_def opInfoSql_def by simp_all

lemma describe_round_less:
  assumes "describe_round s b vars h n xs p = (Inr x, q)"
  shows "length (p_inbound q) < length (p_inbound p)"
proof -
  obtain u p1 v p2 where 1: "describe_from h vars n p = (Inr u, p1)" "opResponse p1 = (Inr v, p2)" "q = p2"
    using assms unfolding describe_round_def
    by (elim wbind_InrE) (auto simp: split_beta)
  then show ?thesis
    using inbound.keepsD [OF describe_from_keeps(1) 1(1)] opResponse_less [OF 1(2)] by simp
qed

function describe_more ::
  "string \<Rightarrow> string \<Rightarrow> bytes \<Rightarrow> int32 \<Rightarrow> int \<Rightarrow> bytes \<Rightarrow> xsqlvar list \<Rightarrow> (bytes \<times> xsqlvar list) wm" where
  "describe_more short bad vars stmtHandle next buf xs p =
     (if next \<le> 0 then (Inr (buf, xs), p)
      else case describe_round short bad vars stmtHandle next xs p of
        (Inl e, q) \<Rightarrow> (Inl e, q)
      | (Inr (next, buf, xs), q) \<Rightarrow> describe_more short bad vars stmtHandle next buf xs q)"
  by pat_completeness auto
termination
  by (relation "measure (\<lambda>(s, b, v, h, n, buf, xs, p). length (p_inbound p))")
    (auto dest!: sym [of _ "describe_round _ _ _ _ _ _ _"] describe_round_less)

declare describe_more.simps [simp del]

definition select_more :: "int32 \<Rightarrow> int \<Rightarrow> bytes \<Rightarrow> xsqlvar list \<Rightarrow> (bytes \<times> xsqlvar list) wm" where
  "select_more = describe_more ''firebirdsql: short select describe continuation (%d bytes)''
     ''firebirdsql: invalid select describe continuation length'' INFO_SQL_SELECT_DESCRIBE_VARS"

definition bind_more :: "int32 \<Rightarrow> int \<Rightarrow> bytes \<Rightarrow> xsqlvar list \<Rightarrow> (bytes \<times> xsqlvar list) wm" where
  "bind_more = describe_more ''firebirdsql: short bind describe continuation (%d bytes)''
     ''firebirdsql: invalid bind describe continuation length'' INFO_SQL_BIND_DESCRIBE_VARS"

lemma describe_more_progress:
  "describe_more s b v h n buf xs p = (Inr (buf', xs'), q) \<Longrightarrow>
   (buf' = buf \<and> q = p) \<or> length (p_inbound q) < length (p_inbound p)"
proof (induction s b v h n buf xs p rule: describe_more.induct)
  case (1 s b v h n buf xs p)
  show ?case
  proof (cases "n \<le> 0")
    case False
    then obtain n1 b1 x1 p1 where r: "describe_round s b v h n xs p = (Inr (n1, b1, x1), p1)"
      "describe_more s b v h n1 b1 x1 p1 = (Inr (buf', xs'), q)"
      using 1(2) by (subst (asm) describe_more.simps) (auto split: prod.splits sum.splits)
    then show ?thesis
      using 1(1) [OF False r(1) [symmetric]] describe_round_less [OF r(1)] by fastforce
  qed (use 1(2) in \<open>subst (asm) describe_more.simps; simp\<close>)
qed

subsection \<open>\<open>parse_xsqlda\<close>\<close>

text \<open>
  The describe block of a select: the column count, the descriptors and, while they were truncated,
  the rest. \<open>i\<close> is the index after the two tags.
\<close>

definition select_head :: "nat \<Rightarrow> bytes \<Rightarrow> (int \<times> xsqlvar list) res" where
  "select_head i buf =
     (if i + 2 > length buf then Inl (Plain ''firebirdsql: truncated select describe-vars length'')
      else bind_res (bytes_to_uint16 (take 2 (drop i buf))) (\<lambda>ln.
        let i = i + 2 in
        if ln < 4 \<or> i + ln > length buf
        then Inl (Plain ''firebirdsql: invalid select describe column-count length %d'')
        else bind_res (bytes_to_int32 (take ln (drop i buf))) (\<lambda>c.
          let col_len = sint c in
          if col_len < 0 \<or> col_len > 65535
          then Inl (Plain ''firebirdsql: invalid select describe column count %d'')
          else parse_select_items (drop (i + ln) buf) (replicate (nat col_len) zero_var))))"

definition select_block :: "int32 \<Rightarrow> nat \<Rightarrow> bytes \<Rightarrow> (bytes \<times> xsqlvar list) wm" where
  "select_block stmtHandle i buf =
     wbind (wlift (select_head i buf)) (\<lambda>(next, xs). select_more stmtHandle next buf xs)"

lemma select_block_progress:
  assumes "select_block h i buf p = (Inr (buf', xs), q)"
  shows "(buf' = buf \<and> q = p) \<or> length (p_inbound q) < length (p_inbound p)"
proof -
  obtain n ys where "select_more h n buf ys p = (Inr (buf', xs), q)"
    using assms unfolding select_block_def by (auto elim!: wbind_InrE)
  then show ?thesis unfolding select_more_def by (auto dest: describe_more_progress)
qed

text \<open>
  The loop over the answer. After a describe block \<open>i\<close> stands at the column count, two bytes after
  the block's tags and two after its length, and \<open>buf\<close> is the last answer: the code does not move
  \<open>i\<close> past the block.
\<close>

function xsqlda_loop :: "int32 \<Rightarrow> nat \<Rightarrow> bytes \<Rightarrow> int32 \<Rightarrow> xsqlvar list \<Rightarrow> (int32 \<times> xsqlvar list) wm" where
  "xsqlda_loop stmtHandle i buf stmt_type xsqlda p =
     (if i < length buf then
        if i + 3 \<le> length buf \<and> buf ! i = isc_info_sql_stmt_type \<and> buf ! (i + 1) = 4 \<and> buf ! (i + 2) = 0 then
          (case bytes_to_uint16 (take 2 (drop (i + 1) buf)) of
             Inl e \<Rightarrow> (Inl e, p)
           | Inr ln \<Rightarrow>
               if ln < 4 \<or> i + 3 + ln > length buf
               then (Inl (Plain ''firebirdsql: invalid sql_stmt_type payload length %d''), p)
               else case bytes_to_int32 (take ln (drop (i + 3) buf)) of
                 Inl e \<Rightarrow> (Inl e, p)
               | Inr t \<Rightarrow> xsqlda_loop stmtHandle (i + 3 + ln) buf t xsqlda p)
        else if i + 2 \<le> length buf \<and> buf ! i = isc_info_sql_select \<and> buf ! (i + 1) = isc_info_sql_describe_vars then
          (case select_block stmtHandle (i + 2) buf p of
             (Inl e, q) \<Rightarrow> (Inl e, q)
           | (Inr (buf', xs), q) \<Rightarrow> xsqlda_loop stmtHandle (i + 4) buf' stmt_type xs q)
        else (Inr (stmt_type, xsqlda), p)
      else (Inr (stmt_type, xsqlda), p))"
  by pat_completeness auto
termination
proof (relation "measures [\<lambda>(h, i, buf, t, xs, p). length (p_inbound p),
    \<lambda>(h, i, buf, t, xs, p). length buf - i]", simp, goal_cases)
  case (2 h i buf t xs p r q y buf' xs')
  then have "select_block h (i + 2) buf p = (Inr (buf', xs'), q)" by simp
  then show ?case using select_block_progress 2(1) by fastforce
qed auto

declare xsqlda_loop.simps [simp del]

definition parse_xsqlda :: "bytes \<Rightarrow> int32 \<Rightarrow> (int32 \<times> xsqlvar list) wm" where
  "parse_xsqlda buf stmtHandle = xsqlda_loop stmtHandle 0 buf 0 []"

subsection \<open>\<open>_fetchBindXsqlda\<close>\<close>

text \<open>An answer that does not look like a parameter list is \<open>nil, nil\<close>: no descriptors, no error.\<close>

definition bind_head :: "bytes \<Rightarrow> (int \<times> xsqlvar list) option res" where
  "bind_head buf =
     (if length buf < 8 then Inr None
      else if buf ! 0 \<noteq> isc_info_sql_bind \<or> buf ! 1 \<noteq> isc_info_sql_describe_vars then Inr None
      else bind_res (bytes_to_int16 (take 2 (drop 2 buf))) (\<lambda>w.
        let ln = sint w in
        if ln \<noteq> 4 \<or> 4 + ln > int (length buf) then Inr None
        else bind_res (bytes_to_int32 (take 4 (drop 4 buf))) (\<lambda>c.
          let col_len = sint c in
          if col_len < 0 \<or> col_len > 65535 then Inr None
          else bind_res (parse_select_items (drop (nat (4 + ln)) buf) (replicate (nat col_len) zero_var))
            (\<lambda>r. Inr (Some r)))))"

definition fetchBindXsqlda :: "int32 \<Rightarrow> xsqlvar list wm" where
  "fetchBindXsqlda stmtHandle =
     wbind (opInfoSql stmtHandle INFO_SQL_BIND_DESCRIBE_VARS) (\<lambda>_.
     wbind opResponse (\<lambda>(h, oid, buf).
     wbind (wlift (bind_head buf)) (\<lambda>r.
     case r of None \<Rightarrow> wret []
     | Some (next, xs) \<Rightarrow> wbind (bind_more stmtHandle next buf xs) (\<lambda>(buf, xs). wret xs))))"

end
