(* ===== verification/Describe_Trip.thy ===== *)
theory Describe_Trip
  imports Describe_Props
begin

text \<open>
  The describe exchange end to end: how a server lays out its columns (\<open>column_bytes\<close>), cuts them
  into answers, and what the driver makes of them.
\<close>

subsection \<open>A column as the server describes it\<close>

definition item_bytes :: "byte \<times> bytes \<Rightarrow> bytes" where
  "item_bytes it = fst it # le_bytes 2 (length (snd it)) @ snd it"

definition wire_num :: "int \<Rightarrow> bytes" where
  "wire_num n = int32_to_bytes (word_of_int n)"

text \<open>\<open>flag\<close> is the nullable bit the server may leave in the type code.\<close>

definition column_items :: "int \<Rightarrow> bool \<Rightarrow> xsqlvar \<Rightarrow> (byte \<times> bytes) list" where
  "column_items i flag x =
     [(isc_info_sql_sqlda_seq, wire_num i), (isc_info_sql_type, wire_num (sqltype x + (if flag then 1 else 0))),
      (isc_info_sql_sub_type, wire_num (sqlsubtype x)), (isc_info_sql_scale, wire_num (sqlscale x)),
      (isc_info_sql_length, wire_num (sqllen x)), (isc_info_sql_null_ind, wire_num (if null_ok x then 1 else 0)),
      (isc_info_sql_field, str_to_bytes (fieldname x)), (isc_info_sql_relation, str_to_bytes (relname x)),
      (isc_info_sql_owner, str_to_bytes (ownname x)), (isc_info_sql_alias, str_to_bytes (aliasname x))]"

definition column_bytes :: "int \<Rightarrow> bool \<times> xsqlvar \<Rightarrow> bytes" where
  "column_bytes i fx = concat (map item_bytes (column_items i (fst fx) (snd fx))) @ [isc_info_sql_describe_end]"

definition describable :: "xsqlvar \<Rightarrow> bool" where
  "describable x \<longleftrightarrow> var_ok x \<and> sqltype x + 1 < 2 ^ 31 \<and>
     (\<forall>s \<in> {fieldname x, relname x, ownname x, aliasname x}. length s < 65536)"

lemma wire_num_length [simp]: "length (wire_num n) = 4"
  by (simp add: wire_num_def int32_codec.enc_length)

lemma wire_num_read: "bytes_to_int32 (wire_num n) = Inr (word_of_int n)"
  by (simp add: wire_num_def int32_codec.dec_enc_Nil)

lemma sint_wire: "- (2 ^ 31) \<le> n \<Longrightarrow> n < 2 ^ 31 \<Longrightarrow> sint (word_of_int n :: int32) = n"
  by (rule sint_word_of_int32) simp_all

lemma select_items_item:
  assumes "length v < 65536" "t \<notin> {isc_info_end, isc_info_truncated, isc_info_sql_describe_end}"
  shows "select_items k (item_bytes (t, v) @ r) xs =
    bind_res (select_item t v k xs) (\<lambda>(k, xs). select_items k r xs)"
proof -
  obtain l0 l1 where l: "le_bytes 2 (length v) = [l0, l1]" by (simp add: numeral_2_eq_2)
  have "bytes_to_uint16 [l0, l1] = Inr (length v)"
    using assms(1) l [symmetric] by (simp add: bytes_to_uint16_def le_uint_def le_val_le_bytes)
  then show ?thesis
    using assms(2) l by (cases "select_item t v k xs") (auto simp: item_bytes_def select_items.simps(2) Let_def)
qed

lemma set_column_twice: "set_column i f (set_column i g xs) = set_column i (f \<circ> g) xs"
  by (cases "nat (i - 1) < length xs") (simp_all add: set_column_def list_update_beyond)

lemma set_column_length [simp]: "length (set_column i f xs) = length xs"
  by (simp add: set_column_def)

lemma number_item_eq:
  "requireIndex i xs = Inr () \<Longrightarrow> sint (word_of_int n :: int32) = n \<Longrightarrow>
   number_item s upd (wire_num n) i xs = Inr (i, set_column i (upd n) xs)"
  by (simp add: number_item_def wire_num_read)

lemma text_item_eq:
  "requireIndex i xs = Inr () \<Longrightarrow> text_item upd (str_to_bytes s) i xs = Inr (i, set_column i (upd s) xs)"
  by (simp add: text_item_def)

text \<open>What each item of a column does, once the column's number is known.\<close>

lemma column_item_steps:
  assumes "describable x" "1 \<le> i" "i \<le> int (length xs)" "i < 65536"
  shows
    "select_item isc_info_sql_sqlda_seq (wire_num i) k xs = Inr (i, xs)"
    "select_item isc_info_sql_type (wire_num (sqltype x + (if flag then 1 else 0))) i xs =
       Inr (i, set_column i (\<lambda>y. y\<lparr>sqltype := sqltype x\<rparr>) xs)"
    "select_item isc_info_sql_sub_type (wire_num (sqlsubtype x)) i xs = Inr (i, set_column i (\<lambda>y. y\<lparr>sqlsubtype := sqlsubtype x\<rparr>) xs)"
    "select_item isc_info_sql_scale (wire_num (sqlscale x)) i xs = Inr (i, set_column i (\<lambda>y. y\<lparr>sqlscale := sqlscale x\<rparr>) xs)"
    "select_item isc_info_sql_length (wire_num (sqllen x)) i xs = Inr (i, set_column i (\<lambda>y. y\<lparr>sqllen := sqllen x\<rparr>) xs)"
    "select_item isc_info_sql_null_ind (wire_num (if null_ok x then 1 else 0)) i xs =
       Inr (i, set_column i (\<lambda>y. y\<lparr>null_ok := null_ok x\<rparr>) xs)"
    "select_item isc_info_sql_field (str_to_bytes s) i xs = Inr (i, set_column i (\<lambda>y. y\<lparr>fieldname := s\<rparr>) xs)"
    "select_item isc_info_sql_relation (str_to_bytes s) i xs = Inr (i, set_column i (\<lambda>y. y\<lparr>relname := s\<rparr>) xs)"
    "select_item isc_info_sql_owner (str_to_bytes s) i xs = Inr (i, set_column i (\<lambda>y. y\<lparr>ownname := s\<rparr>) xs)"
    "select_item isc_info_sql_alias (str_to_bytes s) i xs = Inr (i, set_column i (\<lambda>y. y\<lparr>aliasname := s\<rparr>) xs)"
proof -
  have r: "requireIndex i xs = Inr ()" using assms(2,3) by (simp add: requireIndex_def)
  have s: "sint (word_of_int n :: int32) = n" if "n \<in> {sqltype x, sqltype x + 1, sqlsubtype x, sqlscale x, sqllen x, i, 0, 1}" for n
    using assms that by (intro sint_wire) (auto simp: describable_def var_ok_def)
  have n: "number_item u upd (wire_num n) i xs = Inr (i, set_column i (upd n) xs)"
    if "n \<in> {sqltype x, sqltype x + 1, sqlsubtype x, sqlscale x, sqllen x, i, 0, 1}" for u upd n
    by (rule number_item_eq [OF r s [OF that]])
  show "select_item isc_info_sql_sqlda_seq (wire_num i) k xs = Inr (i, xs)"
    using assms(2,3) s [of i] by (simp add: select_item_def seq_item_def wire_num_read)
  have e: "even (sqltype x)" using assms(1) by (simp add: describable_def var_ok_def)
  show "select_item isc_info_sql_type (wire_num (sqltype x + (if flag then 1 else 0))) i xs =
       Inr (i, set_column i (\<lambda>y. y\<lparr>sqltype := sqltype x\<rparr>) xs)"
    using n [of "sqltype x + 1"] n [of "sqltype x"] e by (cases flag) (simp_all add: select_item_def smod_2_even)
  show
    "select_item isc_info_sql_sub_type (wire_num (sqlsubtype x)) i xs = Inr (i, set_column i (\<lambda>y. y\<lparr>sqlsubtype := sqlsubtype x\<rparr>) xs)"
    "select_item isc_info_sql_scale (wire_num (sqlscale x)) i xs = Inr (i, set_column i (\<lambda>y. y\<lparr>sqlscale := sqlscale x\<rparr>) xs)"
    "select_item isc_info_sql_length (wire_num (sqllen x)) i xs = Inr (i, set_column i (\<lambda>y. y\<lparr>sqllen := sqllen x\<rparr>) xs)"
    "select_item isc_info_sql_null_ind (wire_num (if null_ok x then 1 else 0)) i xs =
       Inr (i, set_column i (\<lambda>y. y\<lparr>null_ok := null_ok x\<rparr>) xs)"
    "select_item isc_info_sql_field (str_to_bytes s) i xs = Inr (i, set_column i (\<lambda>y. y\<lparr>fieldname := s\<rparr>) xs)"
    "select_item isc_info_sql_relation (str_to_bytes s) i xs = Inr (i, set_column i (\<lambda>y. y\<lparr>relname := s\<rparr>) xs)"
    "select_item isc_info_sql_owner (str_to_bytes s) i xs = Inr (i, set_column i (\<lambda>y. y\<lparr>ownname := s\<rparr>) xs)"
    "select_item isc_info_sql_alias (str_to_bytes s) i xs = Inr (i, set_column i (\<lambda>y. y\<lparr>aliasname := s\<rparr>) xs)"
    by (simp_all add: select_item_def n text_item_eq [OF r])
qed

lemma column_read:
  assumes "describable x" "1 \<le> i" "i \<le> int (length xs)" "i < 65536"
  shows "select_items k (column_bytes i (flag, x) @ r) xs =
    select_items i r (set_column i (\<lambda>y. x\<lparr>arrayMeta := arrayMeta y\<rparr>) xs)"
proof -
  have l: "length (str_to_bytes s) < 65536" if "s \<in> {fieldname x, relname x, ownname x, aliasname x}" for s
    using assms(1) that by (auto simp: describable_def)
  have upd: "((\<lambda>y. y\<lparr>aliasname := aliasname x\<rparr>) \<circ> (\<lambda>y. y\<lparr>ownname := ownname x\<rparr>) \<circ> (\<lambda>y. y\<lparr>relname := relname x\<rparr>) \<circ>
      (\<lambda>y. y\<lparr>fieldname := fieldname x\<rparr>) \<circ> (\<lambda>y. y\<lparr>null_ok := null_ok x\<rparr>) \<circ> (\<lambda>y. y\<lparr>sqllen := sqllen x\<rparr>) \<circ>
      (\<lambda>y. y\<lparr>sqlscale := sqlscale x\<rparr>) \<circ> (\<lambda>y. y\<lparr>sqlsubtype := sqlsubtype x\<rparr>) \<circ> (\<lambda>y. y\<lparr>sqltype := sqltype x\<rparr>)) =
      (\<lambda>y. x\<lparr>arrayMeta := arrayMeta y\<rparr>)"
    by (rule ext) simp
  have "select_items i (isc_info_sql_describe_end # r) ys = select_items i r ys" for ys
    by (simp add: select_items.simps(2))
  then have "select_items k (column_bytes i (flag, x) @ r) xs =
    select_items i r (set_column i (\<lambda>y. y\<lparr>aliasname := aliasname x\<rparr>) (set_column i (\<lambda>y. y\<lparr>ownname := ownname x\<rparr>)
      (set_column i (\<lambda>y. y\<lparr>relname := relname x\<rparr>) (set_column i (\<lambda>y. y\<lparr>fieldname := fieldname x\<rparr>)
      (set_column i (\<lambda>y. y\<lparr>null_ok := null_ok x\<rparr>) (set_column i (\<lambda>y. y\<lparr>sqllen := sqllen x\<rparr>)
      (set_column i (\<lambda>y. y\<lparr>sqlscale := sqlscale x\<rparr>) (set_column i (\<lambda>y. y\<lparr>sqlsubtype := sqlsubtype x\<rparr>)
      (set_column i (\<lambda>y. y\<lparr>sqltype := sqltype x\<rparr>) xs)))))))))"
    using assms l
    by (simp add: column_bytes_def column_items_def select_items_item column_item_steps del: length_str_to_bytes split del: if_split)
  then show ?thesis using upd by (simp only: set_column_twice comp_assoc)
qed

text \<open>The items after a column's number change that column only.\<close>

definition own_item :: "int \<Rightarrow> nat \<Rightarrow> byte \<times> bytes \<Rightarrow> bool" where
  "own_item i n it \<longleftrightarrow> length (snd it) < 65536 \<and>
     fst it \<notin> {isc_info_end, isc_info_truncated, isc_info_sql_describe_end} \<and>
     (\<exists>g. (\<forall>y. arrayMeta (g y) = arrayMeta y) \<and>
        (\<forall>xs. length xs = n \<longrightarrow> select_item (fst it) (snd it) i xs = Inr (i, set_column i g xs)))"

lemma own_itemI:
  assumes "\<And>xs. length xs = n \<Longrightarrow> select_item t v i xs = Inr (i, set_column i g xs)"
    "length v < 65536" "t \<notin> {isc_info_end, isc_info_truncated, isc_info_sql_describe_end}"
    "\<And>y. arrayMeta (g y) = arrayMeta y"
  shows "own_item i n (t, v)"
  using assms by (auto simp: own_item_def)

definition same_but :: "int \<Rightarrow> xsqlvar list \<Rightarrow> xsqlvar list \<Rightarrow> bool" where
  "same_but i xs ys \<longleftrightarrow> length ys = length xs \<and> map arrayMeta ys = map arrayMeta xs \<and>
     take (nat (i - 1)) ys = take (nat (i - 1)) xs"

lemma same_but_set: "(\<And>y. arrayMeta (g y) = arrayMeta y) \<Longrightarrow> same_but i xs (set_column i g xs)"
  by (cases "nat (i - 1) < length xs")
    (auto simp: same_but_def set_column_def map_update list_update_same_conv list_update_beyond)

lemma same_but_trans: "same_but i xs ys \<Longrightarrow> same_but i ys zs \<Longrightarrow> same_but i xs zs"
  by (simp add: same_but_def)

lemma own_items_read:
  "list_all (own_item i (length xs)) its \<Longrightarrow>
   \<exists>ys. select_items i (concat (map item_bytes its) @ r) xs = select_items i r ys \<and> same_but i xs ys"
proof (induction its arbitrary: xs)
  case Nil
  show ?case by (auto simp: same_but_def)
next
  case (Cons it its)
  obtain t v where it: "it = (t, v)" by (cases it)
  obtain g where g: "\<And>y. arrayMeta (g y) = arrayMeta y"
    "select_item t v i xs = Inr (i, set_column i g xs)" "length v < 65536"
    "t \<notin> {isc_info_end, isc_info_truncated, isc_info_sql_describe_end}"
    using Cons.prems it by (auto simp: own_item_def)
  obtain ys where "select_items i (concat (map item_bytes its) @ r) (set_column i g xs) = select_items i r ys"
    "same_but i (set_column i g xs) ys"
    using Cons.IH [of "set_column i g xs"] Cons.prems by auto
  moreover have "same_but i xs ys"
    by (rule same_but_trans [OF same_but_set [OF g(1)]]) fact
  ultimately show ?case
    using g by (intro exI [of _ ys]) (simp add: it select_items_item)
qed

lemma column_items_own:
  assumes "describable x" "1 \<le> i" "i \<le> int n" "i < 65536"
  shows "list_all (own_item i n) (tl (column_items i flag x))"
proof -
  have l: "length s < 65536" if "s \<in> {fieldname x, relname x, ownname x, aliasname x}" for s
    using assms(1) that by (auto simp: describable_def)
  have s: "length xs = n \<Longrightarrow> i \<le> int (length xs)" for xs :: "xsqlvar list" using assms(3) by simp
  note steps = column_item_steps [OF assms(1,2) s assms(4)]
  show ?thesis
    unfolding column_items_def list.sel list.pred_inject
    by (intro conjI; (rule own_itemI, erule steps | simp)?) (simp_all add: l)
qed

lemma column_prefix_read:
  assumes "describable x" "1 \<le> i" "i \<le> int (length xs)" "i < 65536"
  shows "\<exists>ys. select_items k (concat (map item_bytes (take m (column_items i flag x))) @ r) xs =
      select_items (if m = 0 then k else i) r ys \<and> same_but i xs ys"
proof (cases m)
  case 0
  then show ?thesis by (auto simp: same_but_def)
next
  case (Suc m')
  have c: "column_items i flag x = (isc_info_sql_sqlda_seq, wire_num i) # tl (column_items i flag x)"
    by (simp add: column_items_def)
  have "list_all (own_item i (length xs)) (take m' (tl (column_items i flag x)))"
    using column_items_own [OF assms, of flag] by (auto simp: list_all_iff dest: in_set_takeD)
  then obtain ys where "select_items i (concat (map item_bytes (take m' (tl (column_items i flag x)))) @ r) xs =
      select_items i r ys" "same_but i xs ys"
    using own_items_read by blast
  then show ?thesis
    using Suc column_item_steps(1) [OF assms, of k]
    by (subst c, intro exI [of _ ys]) (simp add: select_items_item)
qed

subsection \<open>A list of columns cut into answers\<close>

primrec columns_bytes :: "nat \<Rightarrow> (bool \<times> xsqlvar) list \<Rightarrow> bytes" where
  "columns_bytes a [] = []"
| "columns_bytes a (c # cs) = column_bytes (int a) c @ columns_bytes (Suc a) cs"

text \<open>A cut \<open>(m, k)\<close>: the answer has \<open>m\<close> whole columns and \<open>k\<close> items of the next one.\<close>

definition cut_bytes :: "(bool \<times> xsqlvar) list \<Rightarrow> nat \<Rightarrow> nat \<times> nat \<Rightarrow> bytes" where
  "cut_bytes cols a c =
     columns_bytes a (take (fst c) (drop (a - 1) cols)) @
     (if snd c = 0 then [] else concat (map item_bytes (take (snd c)
        (column_items (int (a + fst c)) (fst (cols ! (a + fst c - 1))) (snd (cols ! (a + fst c - 1))))))) @
     [isc_info_truncated]"

definition next_start :: "nat \<Rightarrow> nat \<times> nat \<Rightarrow> nat" where
  "next_start a c = (if snd c = 0 then a + fst c - 1 else a + fst c)"

definition cut_ok :: "nat \<Rightarrow> nat \<Rightarrow> nat \<times> nat \<Rightarrow> bool" where
  "cut_ok n a c \<longleftrightarrow> 0 < fst c + snd c \<and> (if snd c = 0 then a + fst c \<le> n + 1 else a + fst c \<le> n)"

primrec cuts_ok :: "nat \<Rightarrow> nat \<Rightarrow> (nat \<times> nat) list \<Rightarrow> bool" where
  "cuts_ok n a [] = True"
| "cuts_ok n a (c # cs) = (cut_ok n a c \<and> cuts_ok n (next_start a c) cs)"

text \<open>The answers, the column each starts at, and the column the last one starts at.\<close>

primrec answers :: "(bool \<times> xsqlvar) list \<Rightarrow> nat \<Rightarrow> (nat \<times> nat) list \<Rightarrow> bytes list" where
  "answers cols a [] = [columns_bytes a (drop (a - 1) cols) @ [isc_info_end]]"
| "answers cols a (c # cs) = cut_bytes cols a c # answers cols (next_start a c) cs"

primrec starts :: "nat \<Rightarrow> (nat \<times> nat) list \<Rightarrow> nat list" where
  "starts a [] = [a]"
| "starts a (c # cs) = a # starts (next_start a c) cs"

definition filled :: "(bool \<times> xsqlvar) list \<Rightarrow> nat \<Rightarrow> xsqlvar list \<Rightarrow> bool" where
  "filled cols a xs \<longleftrightarrow> length xs = length cols \<and> list_all (\<lambda>x. arrayMeta x = None) xs \<and>
     take (a - 1) xs = take (a - 1) (map snd cols)"

lemma columns_read:
  assumes "list_all (describable \<circ> snd) cs" "1 \<le> a" "a + length cs \<le> Suc (length xs)" "length xs < 65536"
    "list_all (\<lambda>x. arrayMeta x = None) xs"
  shows "select_items k (columns_bytes a cs @ r) xs =
    select_items (if cs = [] then k else int (a + length cs - 1)) r
      (take (a - 1) xs @ map snd cs @ drop (a - 1 + length cs) xs)"
  using assms
proof (induction cs arbitrary: a k xs)
  case (Cons c cs)
  obtain flag x where c: "c = (flag, x)" by (cases c)
  have x: "arrayMeta x = None" "describable x" using Cons.prems(1) c by (auto simp: describable_def var_ok_def)
  let ?ys = "xs[a - 1 := x]"
  have a: "a - 1 < length xs" "nat (int a - 1) = a - 1" using Cons.prems by auto
  have "arrayMeta (xs ! (a - 1)) = None" using Cons.prems(5) a by (simp add: list_all_length)
  then have "set_column (int a) (\<lambda>y. x\<lparr>arrayMeta := arrayMeta y\<rparr>) xs = ?ys"
    using a x by (cases x) (simp add: set_column_def)
  then have "select_items k (columns_bytes a (c # cs) @ r) xs = select_items (int a) (columns_bytes (Suc a) cs @ r) ?ys"
    using column_read [OF x(2), of "int a" xs k flag "columns_bytes (Suc a) cs @ r"] Cons.prems(2,3,4) c by simp
  moreover have "list_all (\<lambda>x. arrayMeta x = None) ?ys"
    using Cons.prems(5) x by (auto simp: list_all_iff dest!: subsetD [OF set_update_subset_insert])
  moreover have "take a ?ys = take (a - 1) xs @ [x]"
    using a Cons.prems(2) by (cases a) (simp_all add: take_Suc_conv_app_nth)
  ultimately show ?case
    using Cons.IH [of "Suc a" ?ys "int a"] Cons.prems c by (cases a) auto
qed simp

lemma cut_read:
  assumes "filled cols a xs" "list_all (describable \<circ> snd) cols" "length cols < 65536" "1 \<le> a" "cut_ok (length cols) a c"
  shows "\<exists>ys. parse_select_items (cut_bytes cols a c) xs = Inr (int (next_start a c), ys) \<and> filled cols (a + fst c) ys"
proof -
  let ?cs = "take (fst c) (drop (a - 1) cols)"
  let ?ys = "take (a - 1) xs @ map snd ?cs @ drop (a - 1 + length ?cs) xs"
  let ?tl = "if snd c = 0 then [] else concat (map item_bytes (take (snd c)
        (column_items (int (a + fst c)) (fst (cols ! (a + fst c - 1))) (snd (cols ! (a + fst c - 1))))))"
  have len: "length ?cs = fst c" using assms(4,5) by (auto simp: cut_ok_def split: if_splits)
  have d: "list_all (describable \<circ> snd) ?cs"
    using assms(2) by (auto simp: list_all_iff dest!: in_set_takeD in_set_dropD)
  have l: "a + fst c \<le> Suc (length cols)" using assms(5) by (auto simp: cut_ok_def split: if_splits)
  have xs: "length xs = length cols" "list_all (\<lambda>x. arrayMeta x = None) xs"
    "take (a - 1) xs = take (a - 1) (map snd cols)"
    using assms(1) by (auto simp: filled_def)
  have r: "select_items 0 (columns_bytes a ?cs @ ?tl @ [isc_info_truncated]) xs =
      select_items (if fst c = 0 then 0 else int (a + fst c - 1)) (?tl @ [isc_info_truncated]) ?ys"
    using columns_read [OF d assms(4), of xs 0 "?tl @ [isc_info_truncated]"] len l xs assms(3) by auto
  have ys: "filled cols (a + fst c) ?ys"
  proof -
    have "list_all (\<lambda>x. arrayMeta x = None) (map snd ?cs)"
      using d by (auto simp: list_all_iff describable_def var_ok_def)
    then have 1: "list_all (\<lambda>x. arrayMeta x = None) ?ys"
      using xs(2) by (auto simp: list_all_iff dest: in_set_takeD in_set_dropD)
    have "take (a - 1) (map snd cols) @ map snd ?cs = take (a - 1 + fst c) (map snd cols)"
      by (simp add: take_add take_map drop_map)
    then have "take (a + fst c - 1) ?ys = take (a + fst c - 1) (map snd cols)"
      using xs len assms(4) l by (simp add: take_map drop_map)
    then show ?thesis using 1 xs(1) len l assms(4) by (simp add: filled_def)
  qed
  obtain ys where r: "select_items 0 (columns_bytes a ?cs @ ?tl @ [isc_info_truncated]) xs =
      select_items (if fst c = 0 then 0 else int (a + fst c - 1)) (?tl @ [isc_info_truncated]) ys"
    and ys: "filled cols (a + fst c) ys"
    using r ys by blast
  show ?thesis
  proof (cases "snd c = 0")
    case True
    then have "0 < fst c" using assms(5) by (simp add: cut_ok_def)
    then show ?thesis
      using r ys True by (auto simp: parse_select_items_def cut_bytes_def next_start_def select_items.simps(2))
  next
    case False
    let ?i = "a + fst c"
    have i: "?i \<le> length cols" "1 \<le> int ?i" using False assms(4,5) by (simp_all add: cut_ok_def)
    have x: "describable (snd (cols ! (?i - 1)))"
      using assms(2) i assms(4) by (simp add: list_all_length)
    have iy: "int ?i \<le> int (length ys)" using ys i by (simp add: filled_def)
    obtain zs where z: "select_items (if fst c = 0 then 0 else int (?i - 1)) (?tl @ [isc_info_truncated]) ys =
        select_items (int ?i) [isc_info_truncated] zs" "same_but (int ?i) ys zs"
      using column_prefix_read [OF x i(2) iy, of "if fst c = 0 then 0 else int (?i - 1)" "snd c"
          "fst (cols ! (?i - 1))" "[isc_info_truncated]"] i False assms(3) by auto
    have "filled cols ?i zs"
    proof -
      have "map arrayMeta zs = map arrayMeta ys" using z(2) by (simp add: same_but_def)
      then have "list_all (\<lambda>x. arrayMeta x = None) zs"
        using ys unfolding filled_def list_all_length by (metis length_map nth_map)
      moreover have "nat (int ?i - 1) = ?i - 1" by simp
      ultimately show ?thesis using z(2) ys by (simp only: filled_def same_but_def)
    qed
    then show ?thesis
      using r z(1) False by (auto simp: parse_select_items_def cut_bytes_def next_start_def select_items.simps(2))
  qed
qed

lemma last_read:
  assumes "filled cols a xs" "list_all (describable \<circ> snd) cols" "length cols < 65536" "1 \<le> a" "a \<le> Suc (length cols)"
  shows "parse_select_items (columns_bytes a (drop (a - 1) cols) @ [isc_info_end]) xs = Inr (-1, map snd cols)"
proof -
  let ?cs = "drop (a - 1) cols"
  have d: "list_all (describable \<circ> snd) ?cs"
    using assms(2) by (auto simp: list_all_iff dest!: in_set_dropD)
  have xs: "length xs = length cols" "take (a - 1) xs = take (a - 1) (map snd cols)" "list_all (\<lambda>x. arrayMeta x = None) xs"
    using assms(1) by (auto simp: filled_def)
  have "take (a - 1) xs @ map snd ?cs @ drop (a - 1 + length ?cs) xs = map snd cols"
    using xs(1,2) assms(4,5) by (simp add: drop_map flip: drop_map)
  then show ?thesis
    using columns_read [OF d assms(4), of xs 0 "[isc_info_end]"] xs assms(3-5)
    by (simp add: parse_select_items_def select_items.simps(2))
qed

subsection \<open>The exchange\<close>

text \<open>An answer's data: the two tags of the request, the column count, the items.\<close>

definition answer_head :: "byte \<Rightarrow> nat \<Rightarrow> bytes" where
  "answer_head tag n = [tag, isc_info_sql_describe_vars, 4, 0] @ wire_num (int n)"

definition describe_response :: "byte \<Rightarrow> nat \<Rightarrow> bytes \<Rightarrow> response" where
  "describe_response tag n items =
     \<lparr> r_handle = 0, r_oid = replicate 8 0, r_data = answer_head tag n @ items, r_status = [] \<rparr>"

definition describe_request :: "int32 \<Rightarrow> bytes \<Rightarrow> nat \<Rightarrow> bytes" where
  "describe_request h vars a = concat (map field_bytes
     [FInt op_info_sql, FInt h, FInt 0,
      FBytes ([isc_info_sql_sqlda_start, 2] @ int16_to_bytes (word_of_int (int a)) @ vars), FInt BUFFER_LEN])"

definition asked :: "int32 \<Rightarrow> bytes \<Rightarrow> nat list \<Rightarrow> wire_protocol \<Rightarrow> wire_protocol" where
  "asked h vars as p = fold (\<lambda>a. sent (describe_request h vars a)) as p"

lemma length_answer_head [simp]: "length (answer_head t n) = 8"
  by (simp add: answer_head_def)

lemma describe_round_answer:
  assumes "calm p" "length items + 8 \<le> maxWirePayload" "items \<noteq> []" "parse_select_items items xs = Inr (k, ys)"
  shows "describe_round s b vars h (int a) xs (feed (response_bytes (describe_response t n items) @ rest) p) =
    (Inr (k, answer_head t n @ items, ys), feed rest (sent (describe_request h vars a) p))"
proof -
  let ?r = "describe_response t n items" and ?q = "sent (describe_request h vars a) p"
  have f: "describe_from h vars (int a) (feed (response_bytes ?r @ rest) p) = (Inr (), feed (response_bytes ?r @ rest) ?q)"
    unfolding describe_from_def opInfoSql_def describe_request_def using assms(1) by (subst calm_send) simp_all
  have "response_fits ?r" "clause_codes (r_status ?r) = []" "p_lazyResponseCount ?q = 0"
    using assms(1,2) by (simp_all add: describe_response_def response_fits_def clause_codes_def calm_def)
  then have o: "opResponse (feed (response_bytes ?r @ rest) ?q) = (Inr (r_handle ?r, r_oid ?r, r_data ?r), feed rest ?q)"
    by (rule opResponse_frame)
  have "bytes_to_int16 [4, 0] = Inr 4" by (simp add: bytes_to_int16_def le_uint_def)
  moreover have "take 2 (drop 2 (answer_head t n @ items)) = [4, 0]" by (simp add: answer_head_def)
  ultimately have "describe_answer s b (answer_head t n @ items) xs = Inr (k, answer_head t n @ items, ys)"
    using assms(3,4) by (simp add: describe_answer_def)
  then show ?thesis using f o by (simp add: describe_round_def wbind_def describe_response_def)
qed

definition answers_fit :: "bytes list \<Rightarrow> bool" where
  "answers_fit as \<longleftrightarrow> list_all (\<lambda>b. length b + 8 \<le> maxWirePayload) as"

lemma filled_less: "filled cols a xs \<Longrightarrow> b \<le> a \<Longrightarrow> filled cols b xs"
proof -
  assume f: "filled cols a xs" and b: "b \<le> a"
  have "take (b - 1) (take (a - 1) xs) = take (b - 1) (take (a - 1) (map snd cols))"
    using f by (simp add: filled_def)
  then show ?thesis using f b by (auto simp: filled_def min_def split: if_splits)
qed

lemma describe_more_answers:
  assumes "calm p" "list_all (describable \<circ> snd) cols" "length cols < 65536" "filled cols a xs"
    "1 \<le> a" "a \<le> length cols" "cuts_ok (length cols) a cs" "answers_fit (answers cols a cs)"
  shows "describe_more s b vars h (int a) buf xs
      (feed (concat (map (response_bytes \<circ> describe_response t n) (answers cols a cs)) @ rest) p) =
    (Inr (answer_head t n @ last (answers cols a cs), map snd cols), feed rest (asked h vars (starts a cs) p))"
  using assms
proof (induction cs arbitrary: p a xs buf)
  case Nil
  let ?items = "columns_bytes a (drop (a - 1) cols) @ [isc_info_end]"
  have i: "parse_select_items ?items xs = Inr (-1, map snd cols)"
    by (rule last_read [OF Nil.prems(4,2,3,5)]) (use Nil.prems(6) in simp)
  have l: "length ?items + 8 \<le> maxWirePayload" "?items \<noteq> []" using Nil.prems(8) by (simp_all add: answers_fit_def)
  show ?case
    using describe_round_answer [OF Nil.prems(1) l i, of s b vars h a t n rest] Nil.prems(5)
    by (subst describe_more.simps) (simp add: asked_def describe_more.simps [of s b vars h "-1"])
next
  case (Cons c cs)
  let ?items = "cut_bytes cols a c" and ?rest = "concat (map (response_bytes \<circ> describe_response t n) (answers cols (next_start a c) cs)) @ rest"
  have c: "cut_ok (length cols) a c" "cuts_ok (length cols) (next_start a c) cs" using Cons.prems(7) by simp_all
  obtain ys where ys: "parse_select_items ?items xs = Inr (int (next_start a c), ys)" "filled cols (a + fst c) ys"
    using cut_read [OF Cons.prems(4,2,3,5) c(1)] by blast
  have n: "1 \<le> next_start a c" "next_start a c \<le> length cols" "next_start a c \<le> a + fst c"
    using c(1) Cons.prems(5) by (auto simp: cut_ok_def next_start_def split: if_splits)
  have l: "length ?items + 8 \<le> maxWirePayload" "?items \<noteq> []"
    using Cons.prems(8) by (simp_all add: answers_fit_def cut_bytes_def)
  let ?q = "sent (describe_request h vars a) p"
  have "describe_more s b vars h (int (next_start a c)) (answer_head t n @ ?items) ys (feed ?rest ?q) =
      (Inr (answer_head t n @ last (answers cols (next_start a c) cs), map snd cols),
       feed rest (asked h vars (starts (next_start a c) cs) ?q))"
    by (rule Cons.IH) (use Cons.prems c n filled_less [OF ys(2) n(3)] in \<open>simp_all add: answers_fit_def\<close>)
  moreover have "answers cols (next_start a c) cs \<noteq> []" by (cases cs) simp_all
  ultimately show ?case
    using describe_round_answer [OF Cons.prems(1) l ys(1), of s b vars h a t n ?rest] Cons.prems(5)
    by (subst describe_more.simps) (simp add: asked_def)
qed

subsection \<open>A prepare response\<close>

text \<open>The first answer comes with the statement: its type, then the describe block.\<close>

definition prepare_answer :: "int32 \<Rightarrow> nat \<Rightarrow> bytes \<Rightarrow> bytes" where
  "prepare_answer t n items = [isc_info_sql_stmt_type, 4, 0] @ int32_to_bytes t @ answer_head isc_info_sql_select n @ items"

lemma select_head_answer:
  assumes "n < 65536"
  shows "select_head 9 (prepare_answer t n items) = parse_select_items items (replicate n zero_var)"
proof -
  have d: "drop 9 (prepare_answer t n items) = [4, 0] @ wire_num (int n) @ items"
    "drop 11 (prepare_answer t n items) = wire_num (int n) @ items" "drop 15 (prepare_answer t n items) = items"
    "length (prepare_answer t n items) = 15 + length items"
    by (simp_all add: prepare_answer_def answer_head_def int32_codec.enc_length)
  have "bytes_to_uint16 [4, 0] = Inr 4" by (simp add: bytes_to_uint16_def le_uint_def)
  moreover have "sint (word_of_int (int n) :: int32) = int n" using assms by (intro sint_wire) simp_all
  ultimately show ?thesis
    using assms d by (simp add: select_head_def wire_num_read)
qed

lemma xsqlda_type:
  "xsqlda_loop h 0 (prepare_answer t n items) t0 xs p = xsqlda_loop h 7 (prepare_answer t n items) t xs p"
proof -
  let ?b = "prepare_answer t n items"
  have "bytes_to_uint16 [4, 0] = Inr 4" by (simp add: bytes_to_uint16_def le_uint_def)
  moreover have "take 2 (drop 1 ?b) = [4, 0]" "?b ! 0 = 21" "?b ! 1 = 4" "?b ! Suc (Suc 0) = 0" "take 4 (drop 3 ?b) = int32_to_bytes t"
    "length ?b = 15 + length items"
    by (simp_all add: prepare_answer_def int32_codec.enc_length)
  ultimately show ?thesis
    by (subst xsqlda_loop.simps) (simp add: int32_codec.dec_enc_Nil)
qed

lemma xsqlda_select:
  assumes "select_block h 9 (prepare_answer t n items) p = (Inr (b, ys), q)"
  shows "xsqlda_loop h 7 (prepare_answer t n items) t xs p = xsqlda_loop h 11 b t ys q"
proof -
  let ?b = "prepare_answer t n items"
  have "?b ! 7 = isc_info_sql_select" "?b ! 8 = isc_info_sql_describe_vars" "length ?b = 15 + length items"
    by (simp_all add: prepare_answer_def answer_head_def int32_codec.enc_length nth_append)
  then show ?thesis using assms by (subst xsqlda_loop.simps) simp
qed

text \<open>Where the loop reads on: the number at offset 11 of the last answer.\<close>

definition stale_number :: "(bool \<times> xsqlvar) list \<Rightarrow> (nat \<times> nat) list \<Rightarrow> nat" where
  "stale_number cols cs = (if cs = [] then length cols else last (starts 1 cs))"

lemma wire_num_small:
  assumes "n < 65536"
  shows "wire_num (int n) = [of_nat (n mod 256), of_nat (n div 256), 0, 0]"
proof -
  have "unat (word_of_int (int n) :: int32) = n"
    using assms by (simp add: unat_of_nat take_bit_nat_eq_self)
  moreover have "le_bytes 4 n = [of_nat (n mod 256), of_nat (n div 256 mod 256), of_nat (n div 65536 mod 256), of_nat (n div 16777216 mod 256)]"
    by (simp add: le_bytes_map upt_rec)
  ultimately show ?thesis
    using assms by (simp only: wire_num_def int32_to_bytes_le) simp
qed

lemma of_nat_byte_eq: "n < 256 \<Longrightarrow> m < 256 \<Longrightarrow> (of_nat n :: byte) = of_nat m \<longleftrightarrow> n = m"
  by (metis unat_of_nat_byte)

lemma number_pattern:
  assumes "n < 65536" "l < 256" "u < 256"
  shows "(of_nat (n mod 256) :: byte) = of_nat l \<and> (of_nat (n div 256) :: byte) = of_nat u \<longleftrightarrow> n = l + 256 * u"
proof -
  have "n mod 256 = l \<and> n div 256 = u \<longleftrightarrow> n = l + 256 * u" using assms by auto
  then show ?thesis using assms by (simp add: of_nat_byte_eq)
qed

lemma stale_reads:
  assumes "n < 65536" "length b > 14" "take 4 (drop 11 b) = wire_num (int n)"
  shows "(b ! 11 = isc_info_sql_stmt_type \<and> b ! (11 + 1) = 4 \<and> b ! (11 + 2) = 0) \<longleftrightarrow> n = 1045"
    "(b ! 11 = isc_info_sql_select \<and> b ! (11 + 1) = isc_info_sql_describe_vars) \<longleftrightarrow> n = 1796"
proof -
  have "drop 11 b ! 0 = of_nat (n mod 256)" "drop 11 b ! 1 = of_nat (n div 256)" "drop 11 b ! 2 = 0"
    using arg_cong [OF assms(3), of "\<lambda>l. l ! 0"] arg_cong [OF assms(3), of "\<lambda>l. l ! 1"]
      arg_cong [OF assms(3), of "\<lambda>l. l ! 2"] assms(1) by (simp_all add: wire_num_small)
  then have b: "b ! 11 = of_nat (n mod 256)" "b ! 12 = of_nat (n div 256)" "b ! 13 = 0"
    using assms(2) by simp_all
  show "(b ! 11 = isc_info_sql_stmt_type \<and> b ! (11 + 1) = 4 \<and> b ! (11 + 2) = 0) \<longleftrightarrow> n = 1045"
    "(b ! 11 = isc_info_sql_select \<and> b ! (11 + 1) = isc_info_sql_describe_vars) \<longleftrightarrow> n = 1796"
    using number_pattern [of n 21 4] number_pattern [of n 4 7] assms(1) b by simp_all
qed

lemma last_answer: "last (answers cols a cs) = columns_bytes (last (starts a cs)) (drop (last (starts a cs) - 1) cols) @ [isc_info_end]"
proof (induction cs arbitrary: a)
  case (Cons c cs)
  have "answers cols (next_start a c) cs \<noteq> []" "starts (next_start a c) cs \<noteq> []" by (cases cs; simp)+
  then show ?case using Cons by simp
qed simp

lemma next_start_bounds: "cut_ok n a c \<Longrightarrow> 1 \<le> a \<Longrightarrow> 1 \<le> next_start a c \<and> next_start a c \<le> n"
  by (auto simp: cut_ok_def next_start_def split: if_splits)

lemma last_start_bounds: "cuts_ok n a cs \<Longrightarrow> 1 \<le> a \<Longrightarrow> a \<le> n \<Longrightarrow> 1 \<le> last (starts a cs) \<and> last (starts a cs) \<le> n"
proof (induction cs arbitrary: a)
  case (Cons c cs)
  have "starts (next_start a c) cs \<noteq> []" by (cases cs; simp)
  then show ?case using Cons next_start_bounds [of n a c] by simp
qed simp

text \<open>The last answer, as \<open>buf\<close> holds it when the loop reads on.\<close>

definition last_buffer :: "int32 \<Rightarrow> (bool \<times> xsqlvar) list \<Rightarrow> (nat \<times> nat) list \<Rightarrow> bytes" where
  "last_buffer t cols cs = (case cs of
     [] \<Rightarrow> prepare_answer t (length cols) (last (answers cols 1 cs))
   | _ \<Rightarrow> answer_head isc_info_sql_select (length cols) @ last (answers cols 1 cs))"

lemma column_starts: "\<exists>r. column_bytes i c = [isc_info_sql_sqlda_seq, 4, 0] @ wire_num i @ [isc_info_sql_type, 4, 0] @
    wire_num (sqltype (snd c) + (if fst c then 1 else 0)) @ r"
proof -
  have "le_bytes 2 4 = [4, 0 :: byte]" by (simp add: numeral_2_eq_2)
  then show ?thesis by (simp add: column_bytes_def column_items_def item_bytes_def)
qed

lemma last_buffer_tail:
  assumes "cs \<noteq> []" "cuts_ok (length cols) 1 cs"
  defines "z \<equiv> last (starts 1 cs)"
  obtains r where "last_buffer t cols cs = answer_head isc_info_sql_select (length cols) @
    [isc_info_sql_sqlda_seq, 4, 0] @ wire_num (int z) @ [isc_info_sql_type, 4, 0] @
    wire_num (sqltype (snd (cols ! (z - 1))) + (if fst (cols ! (z - 1)) then 1 else 0)) @ r @ [isc_info_end]"
proof -
  obtain c cs' where c: "cs = c # cs'" using assms(1) by (cases cs) auto
  have n: "1 \<le> length cols" using assms(2) c by (auto simp: cut_ok_def split: if_splits)
  have z: "1 \<le> z" "z \<le> length cols" using last_start_bounds [OF assms(2)] n by (simp_all add: z_def)
  then have d: "drop (z - 1) cols = (cols ! (z - 1)) # drop z cols"
    by (metis Cons_nth_drop_Suc Suc_le_eq Suc_pred' diff_less less_le_trans zero_less_one)
  obtain r where "column_bytes (int z) (cols ! (z - 1)) = [isc_info_sql_sqlda_seq, 4, 0] @ wire_num (int z) @ [isc_info_sql_type, 4, 0] @
      wire_num (sqltype (snd (cols ! (z - 1))) + (if fst (cols ! (z - 1)) then 1 else 0)) @ r"
    using column_starts by blast
  moreover have "last_buffer t cols cs = answer_head isc_info_sql_select (length cols) @
      columns_bytes z (drop (z - 1) cols) @ [isc_info_end]"
    using c by (simp add: last_buffer_def last_answer z_def del: starts.simps answers.simps)
  ultimately show thesis
    using that [of "r @ columns_bytes (Suc z) (drop z cols)"] d by simp
qed

lemma last_buffer_number:
  assumes "cuts_ok (length cols) 1 cs"
  shows "take 4 (drop 11 (last_buffer t cols cs)) = wire_num (int (stale_number cols cs))" "14 < length (last_buffer t cols cs)"
proof -
  have "take 4 (drop 11 (last_buffer t cols cs)) = wire_num (int (stale_number cols cs)) \<and> 14 < length (last_buffer t cols cs)"
  proof (cases "cs = []")
    case True
    then show ?thesis
      by (simp add: last_buffer_def stale_number_def prepare_answer_def answer_head_def int32_codec.enc_length)
  next
    case False
    show ?thesis
      by (rule last_buffer_tail [OF False assms, of t]) (simp add: stale_number_def False)
  qed
  then show "take 4 (drop 11 (last_buffer t cols cs)) = wire_num (int (stale_number cols cs))"
    "14 < length (last_buffer t cols cs)" by simp_all
qed

definition describe_answers :: "(bool \<times> xsqlvar) list \<Rightarrow> (nat \<times> nat) list \<Rightarrow> bytes" where
  "describe_answers cols cs = concat (map (response_bytes \<circ> describe_response isc_info_sql_select (length cols)) (tl (answers cols 1 cs)))"

lemma parse_xsqlda_answers:
  assumes "calm p" "list_all (describable \<circ> snd) cols" "length cols < 65536" "cuts_ok (length cols) 1 cs"
    "answers_fit (answers cols 1 cs)"
  shows "parse_xsqlda (prepare_answer t (length cols) (hd (answers cols 1 cs))) h (feed (describe_answers cols cs @ rest) p) =
    xsqlda_loop h 11 (last_buffer t cols cs) t (map snd cols)
      (feed rest (asked h INFO_SQL_SELECT_DESCRIBE_VARS (tl (starts 1 cs)) p))"
proof -
  let ?first = "prepare_answer t (length cols) (hd (answers cols 1 cs))" and ?zs = "replicate (length cols) zero_var"
  have f: "filled cols 1 ?zs" by (simp add: filled_def list_all_length zero_var_def)
  have "select_block h 9 ?first (feed (describe_answers cols cs @ rest) p) =
      (Inr (last_buffer t cols cs, map snd cols), feed rest (asked h INFO_SQL_SELECT_DESCRIBE_VARS (tl (starts 1 cs)) p))"
  proof (cases cs)
    case Nil
    have "parse_select_items (columns_bytes 1 (drop (1 - 1) cols) @ [isc_info_end]) ?zs = Inr (-1, map snd cols)"
      by (rule last_read [OF f assms(2,3)]) simp_all
    then show ?thesis
      using Nil assms(3)
      by (simp add: select_block_def select_head_answer wbind_def select_more_def describe_more.simps [of _ _ _ _ "-1"]
          describe_answers_def last_buffer_def asked_def)
  next
    case (Cons c cs')
    have c: "cut_ok (length cols) 1 c" "cuts_ok (length cols) (next_start 1 c) cs'" using assms(4) Cons by simp_all
    obtain ys where ys: "parse_select_items (cut_bytes cols 1 c) ?zs = Inr (int (next_start 1 c), ys)" "filled cols (1 + fst c) ys"
      using cut_read [OF f assms(2,3) _ c(1)] by auto
    have n: "1 \<le> next_start 1 c" "next_start 1 c \<le> length cols" "next_start 1 c \<le> 1 + fst c"
      using next_start_bounds [OF c(1)] by (auto simp: next_start_def)
    have "answers_fit (answers cols (next_start 1 c) cs')" using assms(5) Cons by (simp add: answers_fit_def)
    then have "select_more h (int (next_start 1 c)) ?first ys (feed (describe_answers cols cs @ rest) p) =
      (Inr (answer_head isc_info_sql_select (length cols) @ last (answers cols (next_start 1 c) cs'), map snd cols),
       feed rest (asked h INFO_SQL_SELECT_DESCRIBE_VARS (starts (next_start 1 c) cs') p))"
      using describe_more_answers [OF assms(1-3) filled_less [OF ys(2) n(3)] n(1,2) c(2)]
      by (simp add: select_more_def describe_answers_def Cons)
    moreover have "answers cols (next_start 1 c) cs' \<noteq> []" by (cases cs') simp_all
    ultimately show ?thesis
      using ys(1) assms(3) Cons by (simp add: select_block_def select_head_answer wbind_def last_buffer_def)
  qed
  then show ?thesis
    unfolding parse_xsqlda_def xsqlda_type by (rule xsqlda_select)
qed

lemma xsqlda_stop:
  assumes "n < 65536" "take 4 (drop i b) = wire_num (int n)" "n \<noteq> 1045" "n \<noteq> 1796"
  shows "xsqlda_loop h i b t xs p = (Inr (t, xs), p)"
proof -
  have l: "i + 3 < length b" using arg_cong [OF assms(2), of length] by simp
  have "drop i b ! 0 = of_nat (n mod 256)" "drop i b ! 1 = of_nat (n div 256)"
    using arg_cong [OF assms(2), of "\<lambda>l. l ! 0"] arg_cong [OF assms(2), of "\<lambda>l. l ! 1"] assms(1)
    by (simp_all add: wire_num_small)
  then have b: "b ! i = of_nat (n mod 256)" "b ! (i + 1) = of_nat (n div 256)" using l by simp_all
  have "\<not> (b ! i = 21 \<and> b ! (i + 1) = 4)" "\<not> (b ! i = 4 \<and> b ! (i + 1) = 7)"
    using number_pattern [of n 21 4] number_pattern [of n 4 7] assms(1,3,4) b by simp_all
  then show ?thesis by (subst xsqlda_loop.simps) auto
qed

lemma describe_roundtrip_steps:
  assumes "calm p" "list_all (describable \<circ> snd) cols" "length cols < 65536" "cuts_ok (length cols) 1 cs"
    "answers_fit (answers cols 1 cs)" "stale_number cols cs \<noteq> 1045" "stale_number cols cs \<noteq> 1796"
  shows "parse_xsqlda (prepare_answer t (length cols) (hd (answers cols 1 cs))) h (feed (describe_answers cols cs @ rest) p) =
    (Inr (t, map snd cols), feed rest (asked h INFO_SQL_SELECT_DESCRIBE_VARS (tl (starts 1 cs)) p))"
proof -
  have "stale_number cols cs < 65536"
  proof (cases cs)
    case (Cons c cs')
    then have "1 \<le> length cols" using assms(4) by (auto simp: cut_ok_def split: if_splits)
    then show ?thesis using last_start_bounds [OF assms(4)] assms(3) Cons by (simp add: stale_number_def)
  qed (use assms(3) in \<open>simp add: stale_number_def\<close>)
  then show ?thesis
    using parse_xsqlda_answers [OF assms(1-5)] xsqlda_stop [OF _ last_buffer_number(1) [OF assms(4)] assms(6,7)] by simp
qed

subsection \<open>Properties\<close>

text \<open>C17: The columns of a select reach the driver as the server has them, however the server cuts the
  description into answers (whole columns and then any number of items of the next one): the
  driver asks again from the right column each time, and ends with every column's type without the
  nullable bit, subtype, scale, length, nullability and names, and the statement type, having read
  exactly the answers. It needs that the last answer starts at neither column 1045 nor 1796 (or,
  in one answer, that there are neither 1045 nor 1796 columns).\<close>

theorem describe_roundtrip:
  assumes "calm p" "list_all (describable \<circ> snd) cols" "length cols < 65536" "cuts_ok (length cols) 1 cs"
    "answers_fit (answers cols 1 cs)" "stale_number cols cs \<noteq> 1045" "stale_number cols cs \<noteq> 1796"
  shows "parse_xsqlda (prepare_answer t (length cols) (hd (answers cols 1 cs))) h (feed (describe_answers cols cs @ rest) p) =
    (Inr (t, map snd cols), feed rest (asked h INFO_SQL_SELECT_DESCRIBE_VARS (tl (starts 1 cs)) p))"
  using describe_roundtrip_steps [OF assms] .

definition sample_cols :: "(bool \<times> xsqlvar) list" where
  "sample_cols =
     [(True, zero_var\<lparr>sqltype := SQL_TYPE_VARYING, sqllen := 60, null_ok := True, fieldname := ''NAME'', relname := ''T''\<rparr>),
      (False, zero_var\<lparr>sqltype := SQL_TYPE_LONG, sqlscale := -2, sqllen := 4, aliasname := ''PRICE''\<rparr>)]"

definition quiet_wire :: wire_protocol where
  "quiet_wire = sample_wire\<lparr>p_lazyResponseCount := 0, p_wr_ok := (\<lambda>_. True)\<rparr>"

theorem describe_roundtrip_witness:
  "parse_xsqlda (prepare_answer 1 2 (hd (answers sample_cols 1 [(0, 3), (1, 0)]))) 7
     (feed (describe_answers sample_cols [(0, 3), (1, 0)]) quiet_wire) =
     (Inr (1, map snd sample_cols), feed [] (asked 7 INFO_SQL_SELECT_DESCRIBE_VARS [1, 1] quiet_wire))"
proof -
  have l: "length sample_cols = 2" by (simp add: sample_cols_def)
  have "list_all (describable \<circ> snd) sample_cols"
    by (simp add: sample_cols_def describable_def var_ok_def zero_var_def)
  moreover have "cuts_ok (length sample_cols) 1 [(0, 3), (1, 0)]"
    by (simp add: l cut_ok_def next_start_def)
  moreover have "answers_fit (answers sample_cols 1 [(0, 3), (1, 0)])"
    by (simp add: answers_fit_def cut_bytes_def next_start_def sample_cols_def column_bytes_def column_items_def item_bytes_def zero_var_def)
  moreover have "calm quiet_wire" by (simp add: quiet_wire_def calm_def)
  ultimately show ?thesis
    using describe_roundtrip [of quiet_wire sample_cols "[(0, 3), (1, 0)]" 1 7 "[]"]
    by (simp add: l stale_number_def next_start_def)
qed

text \<open>C18: A wide select can lose its statement type: \<open>parse_xsqlda\<close> does not move past the describe block,
  so it reads on at offset 11 of the last answer. When that answer starts at column 1045 the bytes
  there look like a statement type, and the driver takes 264960 for the type the server sent.\<close>

theorem wide_select_loses_statement_type:
  assumes "calm p" "list_all (describable \<circ> snd) cols" "length cols < 65536" "cuts_ok (length cols) 1 cs"
    "answers_fit (answers cols 1 cs)" "cs \<noteq> []" "last (starts 1 cs) = 1045"
    "0 \<le> sqltype (snd (cols ! 1044))" "sqltype (snd (cols ! 1044)) < 1000"
  shows "\<exists>q. parse_xsqlda (prepare_answer t (length cols) (hd (answers cols 1 cs))) h (feed (describe_answers cols cs @ rest) p) =
    (Inr (264960, map snd cols), q)"
proof -
  let ?b = "last_buffer t cols cs" and ?x = "cols ! 1044"
  define w where "w = nat (sqltype (snd ?x) + (if fst ?x then 1 else 0))"
  obtain r where r: "?b = answer_head isc_info_sql_select (length cols) @ [isc_info_sql_sqlda_seq, 4, 0] @ wire_num (int 1045) @
      [isc_info_sql_type, 4, 0] @ wire_num (int w) @ r @ [isc_info_end]"
    using last_buffer_tail [OF assms(6,4), of t] assms(7,8) by (auto simp: w_def)
  have n: "wire_num (int 1045) = [21, 4, 0, 0]" using wire_num_small [of 1045] by simp
  have b: "take 2 (drop 12 ?b) = [4, 0]" "take 4 (drop 14 ?b) = [0, 11, 4, 0]" "take 4 (drop 18 ?b) = wire_num (int w)"
    "?b ! 11 = 21" "?b ! 12 = 4" "?b ! 13 = 0" "20 < length ?b"
    unfolding r n by (simp_all add: answer_head_def nth_append)
  have "bytes_to_uint16 [4, 0] = Inr 4" "bytes_to_int32 [0, 11, 4, 0] = Inr 264960"
    by (simp_all add: bytes_to_uint16_def bytes_to_int32_def le_uint_def)
  then have "xsqlda_loop h 11 ?b t (map snd cols) q = xsqlda_loop h 18 ?b 264960 (map snd cols) q" for q
    using b by (subst xsqlda_loop.simps) simp
  moreover have "xsqlda_loop h 18 ?b 264960 (map snd cols) q = (Inr (264960, map snd cols), q)" for q
    by (rule xsqlda_stop [OF _ b(3)]) (use assms(8,9) in \<open>auto simp: w_def\<close>)
  ultimately show ?thesis
    using parse_xsqlda_answers [OF assms(1-5)] by simp
qed

theorem wide_select_loses_statement_type_witness:
  "\<exists>cols cs q. length cols = 1045 \<and> list_all (\<lambda>x. sqltype (snd x) = SQL_TYPE_LONG) cols \<and>
     parse_xsqlda (prepare_answer isc_info_sql_stmt_select 1045 (hd (answers cols 1 cs))) 7 (feed (describe_answers cols cs) quiet_wire) =
     (Inr (264960, map snd cols), q)"
proof -
  let ?x = "zero_var\<lparr>sqltype := SQL_TYPE_LONG\<rparr>"
  let ?cols = "replicate 1045 (False, ?x)"
  have x: "?cols ! 1044 = (False, ?x)" by simp
  have d: "describable ?x" by (simp add: describable_def var_ok_def zero_var_def)
  have c: "length (column_bytes i (False, ?x)) = 55" for i
    by (simp add: column_bytes_def column_items_def item_bytes_def zero_var_def)
  have l: "length (columns_bytes a (replicate n (False, ?x))) = 55 * n" for a n
    by (induction n arbitrary: a) (simp_all add: c)
  have "list_all (describable \<circ> snd) ?cols"
    using d by (auto simp: list_all_iff)
  moreover have "answers_fit (answers ?cols 1 [(1044, 1)])"
    using l c by (simp add: answers_fit_def cut_bytes_def next_start_def column_items_def item_bytes_def)
  moreover have "calm quiet_wire" by (simp add: quiet_wire_def calm_def)
  ultimately have "\<exists>q. parse_xsqlda (prepare_answer isc_info_sql_stmt_select 1045 (hd (answers ?cols 1 [(1044, 1)]))) 7
      (feed (describe_answers ?cols [(1044, 1)] @ []) quiet_wire) = (Inr (264960, map snd ?cols), q)"
    using wide_select_loses_statement_type [of quiet_wire ?cols "[(1044, 1)]" isc_info_sql_stmt_select 7 "[]"] x
    by (simp add: cut_ok_def next_start_def zero_var_def)
  then show ?thesis
    by (intro exI [of _ ?cols] exI [of _ "[(1044, 1)]"]) (auto simp: list_all_iff)
qed

end
