(* ===== verification/Decfloat.thy ===== *)
theory Decfloat
  imports Srp
begin

text \<open>
  Decimal floating point (\<open>decfloat.go\<close>): densely packed decimals, the IEEE 754 decimal64 and
  decimal128 encodings and their text in the scientific notation of the General Decimal
  Arithmetic specification.

  \<open>big.Int\<close> values and the \<open>uint\<close>/\<open>uint32\<close> locals, which stay far below their width, are \<open>int\<close>.
  The exponent is an \<open>int32\<close>: the formatter gets it from the server as a column's scale.
\<close>

subsection \<open>Densely packed decimals\<close>

definition decimal64DPDMask :: int where "decimal64DPDMask = 0x3ffffffffffff"
definition decimal128DPDMask :: int where "decimal128DPDMask = 0x3fffffffffffffffffffffffffff"

definition dpdBitToInt :: "int \<Rightarrow> int \<Rightarrow> int" where
  "dpdBitToInt dpd msk = (if dpd AND msk \<noteq> 0 then 1 else 0)"

definition dpdToInt :: "int \<Rightarrow> int res" where
  "dpdToInt dpd =
     (let b9 = dpdBitToInt dpd 0x0200; b8 = dpdBitToInt dpd 0x0100; b7 = dpdBitToInt dpd 0x0080;
          b6 = dpdBitToInt dpd 0x0040; b5 = dpdBitToInt dpd 0x0020; b4 = dpdBitToInt dpd 0x0010;
          b3 = dpdBitToInt dpd 0x0008; b2 = dpdBitToInt dpd 0x0004; b1 = dpdBitToInt dpd 0x0002;
          b0 = dpdBitToInt dpd 0x0001;
          digits = (\<lambda>d2 d1 d0. Inr (d2 * 100 + d1 * 10 + d0))
      in if b3 = 0 then digits (b9 * 4 + b8 * 2 + b7) (b6 * 4 + b5 * 2 + b4) (b2 * 4 + b1 * 2 + b0)
         else if b3 = 1 \<and> b2 = 0 \<and> b1 = 0 then digits (b9 * 4 + b8 * 2 + b7) (b6 * 4 + b5 * 2 + b4) (8 + b0)
         else if b3 = 1 \<and> b2 = 0 \<and> b1 = 1 then digits (b9 * 4 + b8 * 2 + b7) (8 + b4) (b6 * 4 + b5 * 2 + b0)
         else if b3 = 1 \<and> b2 = 1 \<and> b1 = 0 then digits (8 + b7) (b6 * 4 + b5 * 2 + b4) (b9 * 4 + b8 * 2 + b0)
         else if b6 = 0 \<and> b5 = 0 \<and> b3 = 1 \<and> b2 = 1 \<and> b1 = 1 then digits (8 + b7) (8 + b4) (b9 * 4 + b8 * 2 + b0)
         else if b6 = 0 \<and> b5 = 1 \<and> b3 = 1 \<and> b2 = 1 \<and> b1 = 1 then digits (8 + b7) (b9 * 4 + b8 * 2 + b4) (8 + b0)
         else if b6 = 1 \<and> b5 = 0 \<and> b3 = 1 \<and> b2 = 1 \<and> b1 = 1 then digits (b9 * 4 + b8 * 2 + b7) (8 + b4) (8 + b0)
         else if b6 = 1 \<and> b5 = 1 \<and> b3 = 1 \<and> b2 = 1 \<and> b1 = 1 then digits (8 + b7) (8 + b4) (8 + b0)
         else Inl (Plain ''invalid DPD encoding: %d''))"

text \<open>The loop takes the lowest ten bits each time and stores them from the end of the slice.\<close>

primrec dpd_segments :: "nat \<Rightarrow> int \<Rightarrow> int list" where
  "dpd_segments 0 dpdBits = []"
| "dpd_segments (Suc n) dpdBits = dpd_segments n (drop_bit 10 dpdBits) @ [dpdBits mod 1024]"

primrec add_segments :: "int \<Rightarrow> int list \<Rightarrow> int res" where
  "add_segments v [] = Inr v"
| "add_segments v (dpd # ss) = bind_res (dpdToInt dpd) (\<lambda>n. add_segments (v * 1000 + n) ss)"

definition calcSignificand :: "int \<Rightarrow> int \<Rightarrow> nat \<Rightarrow> int res" where
  "calcSignificand pfx dpdBits numBits = add_segments pfx (dpd_segments (numBits div 10) dpdBits)"

subsection \<open>The two encodings\<close>

text \<open>The results \<open>coefficient\<close> (\<open>nil\<close> for a special value), \<open>exponent\<close>, \<open>negative\<close>, \<open>special\<close>.\<close>

type_synonym decimal = "int option \<times> int32 \<times> bool \<times> string"

definition decimal128ToSignDigitsExponent :: "bytes \<Rightarrow> decimal res" where
  "decimal128ToSignDigitsExponent b =
     bind_res (go_index b 0) (\<lambda>b0. bind_res (go_index b 1) (\<lambda>b1. bind_res (go_index b 2) (\<lambda>b2.
     let negative = (b0 AND 0x80 = 0x80);
         cf = push_bit 10 (uint (b0 AND 0x7f)) + push_bit 2 (uint b1) + uint (drop_bit 6 b2)
     in if cf AND 0x1F000 = 0x1F000 then Inr (None, 0, negative, ''NaN'')
        else if cf AND 0x1F000 = 0x1E000 then Inr (None, 0, negative, ''Infinity'')
        else bind_res
          (if cf AND 0x18000 = 0 then Inr (cf AND 0xfff, drop_bit 12 cf AND 7)
           else if cf AND 0x18000 = 0x8000 then Inr (0x1000 + (cf AND 0xfff), drop_bit 12 cf AND 7)
           else if cf AND 0x18000 = 0x10000 then Inr (0x2000 + (cf AND 0xfff), drop_bit 12 cf AND 7)
           else if cf AND 0x1e000 = 0x18000 then Inr (cf AND 0xfff, 8 + (drop_bit 12 cf AND 1))
           else if cf AND 0x1e000 = 0x1a000 then Inr (0x1000 + (cf AND 0xfff), 8 + (drop_bit 12 cf AND 1))
           else if cf AND 0x1e000 = 0x1c000 then Inr (0x2000 + (cf AND 0xfff), 8 + (drop_bit 12 cf AND 1))
           else Inl (Plain ''decimal128 combination field error: cf=0x%x''))
          (\<lambda>(exponent, pfx).
             bind_res (calcSignificand pfx (bytesToBigInt b AND decimal128DPDMask) 110) (\<lambda>coefficient.
             Inr (Some coefficient, word_of_int (exponent - 6176), negative, ''''))))))"

subsection \<open>Text\<close>

definition formatPlain :: "string \<Rightarrow> int32 \<Rightarrow> string" where
  "formatPlain digits exponent =
     (if exponent = 0 then digits
      else let frac = sint (- exponent) in
        if int (length digits) > frac
        then take (nat (int (length digits) - frac)) digits @ ''.'' @ drop (nat (int (length digits) - frac)) digits
        else ''0.'' @ replicate (nat (frac - int (length digits))) (CHR ''0'') @ digits)"

definition formatScientific :: "string \<Rightarrow> int32 \<Rightarrow> string" where
  "formatScientific digits adjexp =
     (let mant = (if length digits = 1 then digits else take 1 digits @ ''.'' @ drop 1 digits)
      in if sint adjexp < 0 then mant @ ''E'' @ ''-'' @ itoa (sint (- adjexp))
         else mant @ ''E'' @ ''+'' @ itoa (sint adjexp))"

text \<open>The coefficient is not looked at when \<open>special\<close> is set; it is \<open>nil\<close> only then.\<close>

definition formatDecimalGDA :: "int option \<Rightarrow> int32 \<Rightarrow> bool \<Rightarrow> string \<Rightarrow> string" where
  "formatDecimalGDA coefficient exponent negative special =
     (let body = (if special \<noteq> '''' then special
        else (let digits = (case coefficient of None \<Rightarrow> ''<nil>'' | Some c \<Rightarrow> itoa c);
                  adjexp = exponent + word_of_int (int (length digits)) - 1
              in if sint exponent \<le> 0 \<and> sint adjexp \<ge> -6 then formatPlain digits exponent
                 else formatScientific digits adjexp))
      in if negative then ''-'' @ body else body)"

definition decimalFixedToString :: "bytes \<Rightarrow> int32 \<Rightarrow> string res" where
  "decimalFixedToString b scale =
     bind_res (decimal128ToSignDigitsExponent b) (\<lambda>(coefficient, _, negative, special).
       Inr (formatDecimalGDA coefficient scale negative special))"

definition decimal128ToString :: "bytes \<Rightarrow> string res" where
  "decimal128ToString b =
     bind_res (decimal128ToSignDigitsExponent b) (\<lambda>(coefficient, exponent, negative, special).
       Inr (formatDecimalGDA coefficient exponent negative special))"

definition decimal64ToString :: "bytes \<Rightarrow> string res" where
  "decimal64ToString b =
     bind_res (go_index b 0) (\<lambda>b0. bind_res (go_index b 1) (\<lambda>b1.
     let negative = (b0 AND 0x80 = 0x80);
         cf = drop_bit 2 (uint b0) AND 0x1f;
         exponent = push_bit 6 (uint b0 AND 3) + (drop_bit 2 (uint b1) AND 0x3f)
     in if cf = 0x1f then Inr (formatDecimalGDA None 0 negative ''NaN'')
        else if cf = 0x1e then Inr (formatDecimalGDA None 0 negative ''Infinity'')
        else bind_res
          (if cf AND 0x18 = 0 then Inr (exponent, cf AND 7)
           else if cf AND 0x18 = 8 then Inr (0x100 + exponent, cf AND 7)
           else if cf AND 0x18 = 0x10 then Inr (0x200 + exponent, cf AND 7)
           else if cf AND 0x1e = 0x18 then Inr (exponent, 8 + (cf AND 1))
           else if cf AND 0x1e = 0x1a then Inr (0x100 + exponent, 8 + (cf AND 1))
           else if cf AND 0x1e = 0x1c then Inr (0x200 + exponent, 8 + (cf AND 1))
           else Inl (Plain ''decimal64 combination field error: cf=0x%x''))
          (\<lambda>(exponent, pfx).
             bind_res (calcSignificand pfx (bytesToBigInt b AND decimal64DPDMask) 50) (\<lambda>coefficient.
             Inr (formatDecimalGDA (Some coefficient) (word_of_int (exponent - 398)) negative '''')))))"

subsection \<open>Packing three digits\<close>

text \<open>
  The standard's encoder, from the bits of the three digits: \<open>a b c d\<close>, \<open>e f g h\<close>, \<open>i j k m\<close> with
  the highest bit first; the result is written from its lowest bit.
\<close>

definition dpd_pack_bits :: "bool list \<Rightarrow> bool list \<Rightarrow> bool list \<Rightarrow> bool list" where
  "dpd_pack_bits x y z = (case (x, y, z) of
     ([a, b, c, d], [e, f, g, h], [i, j, k, m]) \<Rightarrow> rev (
       if \<not> a \<and> \<not> e \<and> \<not> i then [b, c, d, f, g, h, False, j, k, m]
       else if \<not> a \<and> \<not> e \<and> i then [b, c, d, f, g, h, True, False, False, m]
       else if \<not> a \<and> e \<and> \<not> i then [b, c, d, j, k, h, True, False, True, m]
       else if \<not> a \<and> e \<and> i then [b, c, d, True, False, h, True, True, True, m]
       else if a \<and> \<not> e \<and> \<not> i then [j, k, d, f, g, h, True, True, False, m]
       else if a \<and> \<not> e \<and> i then [f, g, d, False, True, h, True, True, True, m]
       else if a \<and> e \<and> \<not> i then [j, k, d, False, False, h, True, True, True, m]
       else [False, False, d, True, True, h, True, True, True, m]))"

definition digit_bits :: "int \<Rightarrow> bool list" where
  "digit_bits n = [bit n 3, bit n 2, bit n 1, bit n 0]"

definition dpd_encode :: "int \<Rightarrow> int" where
  "dpd_encode n = horner_sum of_bool 2
     (dpd_pack_bits (digit_bits (n div 100)) (digit_bits (n div 10 mod 10)) (digit_bits (n mod 10)))"

lemma dpdBitToInt_bit: "dpdBitToInt n (2 ^ k) = of_bool (bit n k)"
  by (simp add: dpdBitToInt_def and_exp_eq_0_iff_not_bit)

lemma dpdBitToInt_bits:
  "dpdBitToInt n 0x200 = of_bool (bit n 9)" "dpdBitToInt n 0x100 = of_bool (bit n 8)" "dpdBitToInt n 0x80 = of_bool (bit n 7)"
  "dpdBitToInt n 0x40 = of_bool (bit n 6)" "dpdBitToInt n 0x20 = of_bool (bit n 5)" "dpdBitToInt n 0x10 = of_bool (bit n 4)"
  "dpdBitToInt n 0x8 = of_bool (bit n 3)" "dpdBitToInt n 0x4 = of_bool (bit n 2)" "dpdBitToInt n 0x2 = of_bool (bit n 1)"
  "dpdBitToInt n 0x1 = of_bool (bit n 0)"
  using dpdBitToInt_bit [of n 9] dpdBitToInt_bit [of n 8] dpdBitToInt_bit [of n 7] dpdBitToInt_bit [of n 6]
    dpdBitToInt_bit [of n 5] dpdBitToInt_bit [of n 4] dpdBitToInt_bit [of n 3] dpdBitToInt_bit [of n 2]
    dpdBitToInt_bit [of n 1] dpdBitToInt_bit [of n 0] by simp_all

text \<open>Ten bits of any kind decode to three digits; none of them takes the error branch.\<close>

lemma dpdToInt_total: "\<exists>k. dpdToInt n = Inr k \<and> 0 \<le> k \<and> k < 1000"
  unfolding dpdToInt_def dpdBitToInt_bits Let_def
  by (cases "bit n 3"; cases "bit n 2"; cases "bit n 1"; cases "bit n 6"; cases "bit n 5") (simp_all add: of_bool_def)

lemma digit_value:
  fixes x :: int
  assumes "0 \<le> x" "x < 10"
  shows "x = 8 * of_bool (bit x 3) + 4 * of_bool (bit x 2) + 2 * of_bool (bit x 1) + of_bool (bit x 0)"
    "bit x 3 \<Longrightarrow> \<not> bit x 2 \<and> \<not> bit x 1"
proof -
  have "x = 0 \<or> x = 1 \<or> x = 2 \<or> x = 3 \<or> x = 4 \<or> x = 5 \<or> x = 6 \<or> x = 7 \<or> x = 8 \<or> x = 9"
    using assms by arith
  then have "x = 8 * of_bool (bit x 3) + 4 * of_bool (bit x 2) + 2 * of_bool (bit x 1) + of_bool (bit x 0) \<and>
     (bit x 3 \<longrightarrow> \<not> bit x 2 \<and> \<not> bit x 1)"
    by (elim disjE) (simp_all add: bit_numeral_rec numeral_eq_Suc)
  then show "x = 8 * of_bool (bit x 3) + 4 * of_bool (bit x 2) + 2 * of_bool (bit x 1) + of_bool (bit x 0)"
    "bit x 3 \<Longrightarrow> \<not> bit x 2 \<and> \<not> bit x 1" by blast+
qed

lemma length_dpd_pack [simp]: "length (dpd_pack_bits (digit_bits x) (digit_bits y) (digit_bits z)) = 10"
  by (simp add: dpd_pack_bits_def digit_bits_def)

lemma dpd_encode_range: "0 \<le> dpd_encode n \<and> dpd_encode n < 1024"
proof -
  have "dpd_encode n = take_bit 10 (dpd_encode n)"
    unfolding dpd_encode_def by (rule bit_eqI) (simp add: bit_take_bit_iff bit_horner_sum_bit_iff)
  moreover have "0 \<le> take_bit 10 (dpd_encode n)" "take_bit 10 (dpd_encode n) < 2 ^ 10"
    by (rule take_bit_nonnegative, rule take_bit_int_less_exp)
  ultimately show ?thesis by simp
qed

lemma dpdToInt_encode:
  assumes "0 \<le> n" "n < 1000"
  shows "dpdToInt (dpd_encode n) = Inr n"
proof -
  define x where "x = n div 100"
  define y where "y = n div 10 mod 10"
  define z where "z = n mod 10"
  have "n div 100 = n div 10 div 10" by (simp flip: zdiv_zmult2_eq)
  then have "n div 10 = x * 10 + y" by (simp add: x_def y_def)
  moreover have "n = n div 10 * 10 + z" by (simp add: z_def)
  ultimately have n: "n = x * 100 + y * 10 + z" by simp
  have d: "0 \<le> x" "x < 10" "0 \<le> y" "y < 10" "0 \<le> z" "z < 10" using assms by (auto simp: x_def y_def z_def)
  define bs where "bs = dpd_pack_bits (digit_bits x) (digit_bits y) (digit_bits z)"
  have b: "bit (dpd_encode n) k = bs ! k" if "k < 10" for k
    using that by (simp add: dpd_encode_def bit_horner_sum_bit_iff bs_def x_def y_def z_def)
  have b1: "bit (dpd_encode n) 1 = bs ! 1" by (rule b) simp
  note bits = b1 b [of 9, simplified] b [of 8, simplified] b [of 7, simplified] b [of 6, simplified] b [of 5, simplified]
    b [of 4, simplified] b [of 3, simplified] b [of 2, simplified] b [of 0, simplified]
  note dx = digit_value [OF d(1,2)] and dy = digit_value [OF d(3,4)] and dz = digit_value [OF d(5,6)]
  have "dpdToInt (dpd_encode n) = Inr (x * 100 + y * 10 + z)"
  proof -
    have "bs = rev (
       if \<not> bit x 3 \<and> \<not> bit y 3 \<and> \<not> bit z 3 then [bit x 2, bit x 1, bit x 0, bit y 2, bit y 1, bit y 0, False, bit z 2, bit z 1, bit z 0]
       else if \<not> bit x 3 \<and> \<not> bit y 3 \<and> bit z 3 then [bit x 2, bit x 1, bit x 0, bit y 2, bit y 1, bit y 0, True, False, False, bit z 0]
       else if \<not> bit x 3 \<and> bit y 3 \<and> \<not> bit z 3 then [bit x 2, bit x 1, bit x 0, bit z 2, bit z 1, bit y 0, True, False, True, bit z 0]
       else if \<not> bit x 3 \<and> bit y 3 \<and> bit z 3 then [bit x 2, bit x 1, bit x 0, True, False, bit y 0, True, True, True, bit z 0]
       else if bit x 3 \<and> \<not> bit y 3 \<and> \<not> bit z 3 then [bit z 2, bit z 1, bit x 0, bit y 2, bit y 1, bit y 0, True, True, False, bit z 0]
       else if bit x 3 \<and> \<not> bit y 3 \<and> bit z 3 then [bit y 2, bit y 1, bit x 0, False, True, bit y 0, True, True, True, bit z 0]
       else if bit x 3 \<and> bit y 3 \<and> \<not> bit z 3 then [bit z 2, bit z 1, bit x 0, False, False, bit y 0, True, True, True, bit z 0]
       else [False, False, bit x 0, True, True, bit y 0, True, True, True, bit z 0])"
      by (simp add: bs_def dpd_pack_bits_def digit_bits_def)
    then show ?thesis
      unfolding dpdToInt_def dpdBitToInt_bits Let_def bits
      using dx dy dz
      by (cases "bit x 3"; cases "bit y 3"; cases "bit z 3") simp_all
  qed
  then show ?thesis using n by simp
qed

subsection \<open>Packing a coefficient\<close>

primrec pack_segments :: "nat \<Rightarrow> int \<Rightarrow> int" where
  "pack_segments 0 c = 0"
| "pack_segments (Suc n) c = pack_segments n (c div 1000) * 1024 + dpd_encode (c mod 1000)"

lemma pack_segments_range: "0 \<le> pack_segments n c \<and> pack_segments n c < 1024 ^ n"
proof (induction n arbitrary: c)
  case (Suc n)
  have "pack_segments n (c div 1000) * 1024 + 1024 \<le> 1024 ^ n * 1024"
    using Suc [of "c div 1000"] by simp
  then show ?case using Suc [of "c div 1000"] dpd_encode_range [of "c mod 1000"] by simp
qed simp

lemma segment_split:
  fixes p e :: int
  assumes "0 \<le> e" "e < 1024"
  shows "drop_bit 10 (p * 1024 + e) = p" "(p * 1024 + e) mod 1024 = e"
  using assms by (simp_all add: drop_bit_eq_div)

lemma add_segments_append: "add_segments v (xs @ ys) = bind_res (add_segments v xs) (\<lambda>w. add_segments w ys)"
  by (induction xs arbitrary: v) (simp_all add: bind_res_assoc)

lemma add_packed: "0 \<le> c \<Longrightarrow> add_segments v (dpd_segments n (pack_segments n c)) = Inr (v * 1000 ^ n + c mod 1000 ^ n)"
proof (induction n arbitrary: c)
  case (Suc n)
  let ?e = "dpd_encode (c mod 1000)"
  have "add_segments v (dpd_segments (Suc n) (pack_segments (Suc n) c)) =
      add_segments v (dpd_segments n (pack_segments n (c div 1000)) @ [?e])"
    using segment_split [of ?e "pack_segments n (c div 1000)"] dpd_encode_range [of "c mod 1000"] by simp
  also have "\<dots> = Inr ((v * 1000 ^ n + c div 1000 mod 1000 ^ n) * 1000 + c mod 1000)"
    using Suc dpdToInt_encode [of "c mod 1000"] by (simp add: add_segments_append)
  also have "(v * 1000 ^ n + c div 1000 mod 1000 ^ n) * 1000 + c mod 1000 = v * 1000 ^ Suc n + c mod 1000 ^ Suc n"
    by (simp add: algebra_simps zmod_zmult2_eq)
  finally show ?case .
qed simp

subsection \<open>Fields of a bit pattern\<close>

lemma and_field: "x AND ((2 ^ n - 1) * 2 ^ k) = (x div 2 ^ k mod 2 ^ n) * 2 ^ k" for x :: int
proof -
  have "x AND push_bit k (mask n) = push_bit k (take_bit n (drop_bit k x))"
    by (rule bit_eqI) (auto simp: bit_and_iff bit_push_bit_iff bit_mask_iff bit_take_bit_iff bit_drop_bit_eq)
  then show ?thesis by (simp add: push_bit_eq_mult mask_eq_exp_minus_1 take_bit_eq_mod drop_bit_eq_div)
qed

lemma and_low: "x AND (2 ^ n - 1) = x mod 2 ^ n" for x :: int
  using and_field [of x n 0] by simp

lemma field_split:
  fixes t lo :: int
  assumes "0 \<le> lo" "lo < 2 ^ k"
  shows "(t * 2 ^ k + lo) div 2 ^ k = t" "(t * 2 ^ k + lo) mod 2 ^ k = lo"
  using assms by simp_all

lemma be_bytes_nth: "i < n \<Longrightarrow> be_bytes n x ! i = of_nat (x div 256 ^ (n - Suc i) mod 256)"
  by (simp add: be_bytes_def rev_nth le_bytes_map) (simp add: power_mult)

lemma bytesToBigInt_be: "x < 256 ^ n \<Longrightarrow> bytesToBigInt (be_bytes n x) = int x"
proof -
  assume x: "x < 256 ^ n"
  have "bytesToBigInt v = int (be_val v)" for v
  proof (induction v rule: rev_induct)
    case Nil
    show ?case by (simp add: bytesToBigInt_def)
  next
    case (snoc b v)
    then show ?case by (simp add: bytesToBigInt_snoc be_val_snoc)
  qed
  then show ?thesis using x by (simp add: be_val_be_bytes)
qed

lemma be_byte_int:
  assumes "0 \<le> N" "i < n"
  shows "uint (be_bytes n (nat N) ! i) = N div 256 ^ (n - Suc i) mod 256"
proof -
  have "uint (be_bytes n (nat N) ! i) = int (nat N div 256 ^ (n - Suc i) mod 256)"
    using assms(2) by (simp add: be_bytes_nth unsigned_of_nat take_bit_eq_mod)
  also have "\<dots> = N div 256 ^ (n - Suc i) mod 256" using assms(1) by (simp add: zdiv_int zmod_int)
  finally show ?thesis .
qed

lemma byte_sign: "(b AND 0x80 = 0x80) \<longleftrightarrow> uint b div 128 mod 2 = 1" for b :: byte
proof -
  have "uint (b AND 0x80) = (uint b div 2 ^ 7 mod 2 ^ 1) * 2 ^ 7"
    using and_field [of "uint b" 1 7] by (simp add: uint_and)
  then have "uint (b AND 0x80) = uint (0x80 :: byte) \<longleftrightarrow> uint b div 128 mod 2 = 1" by simp
  then show ?thesis by (simp only: word_uint_eq_iff)
qed

lemma byte_low: "uint (b AND 0x7f) = uint b mod 128" for b :: byte
  using and_low [of "uint b" 7] by (simp add: uint_and)

lemma uint_drop: "uint (drop_bit k b) = uint b div 2 ^ k" for b :: byte
proof -
  have "take_bit 8 (uint b) = uint b" using uint_lt2p [of b] by (intro take_bit_int_eq_self) simp_all
  then show ?thesis by (simp add: unsigned_drop_bit_eq flip: drop_bit_eq_div)
qed

text \<open>The combination field: the exponent's two high bits and the leading digit in five bits.\<close>

definition combination :: "int \<Rightarrow> int \<Rightarrow> int" where
  "combination h p = (if p < 8 then h * 8 + p else 24 + 2 * h + (p - 8))"

definition pattern128 :: "bool \<Rightarrow> int \<Rightarrow> int \<Rightarrow> bytes" where
  "pattern128 neg cf T = be_bytes 16 (nat (of_bool neg * 2 ^ 127 + cf * 2 ^ 110 + T))"

definition encode128 :: "bool \<Rightarrow> int \<Rightarrow> int \<Rightarrow> bytes" where
  "encode128 neg c e =
     (let q = e + 6176
      in pattern128 neg (combination (q div 4096) (c div 10 ^ 33) * 4096 + q mod 4096) (pack_segments 11 (c mod 10 ^ 33)))"

lemma pattern128_read:
  assumes "0 \<le> cf" "cf < 2 ^ 17" "0 \<le> T" "T < 2 ^ 110"
  shows "((pattern128 neg cf T ! 0) AND 0x80 = 0x80) = neg"
    "push_bit 10 (uint ((pattern128 neg cf T ! 0) AND 0x7f)) + push_bit 2 (uint (pattern128 neg cf T ! 1)) +
       uint (drop_bit 6 (pattern128 neg cf T ! 2)) = cf"
    "bytesToBigInt (pattern128 neg cf T) AND decimal128DPDMask = T"
    "length (pattern128 neg cf T) = 16"
proof -
  define s :: int where "s = of_bool neg"
  define N where "N = s * 2 ^ 127 + cf * 2 ^ 110 + T"
  have s: "0 \<le> s" "s \<le> 1" by (simp_all add: s_def)
  have N: "0 \<le> N" using assms s by (simp add: N_def)
  have "N < 2 * 2 ^ 127"
  proof -
    have "cf * 2 ^ 110 + T < 2 ^ 17 * 2 ^ 110"
      using assms by simp
    then show ?thesis using s by (simp add: N_def)
  qed
  then have lt: "nat N < 256 ^ 16" using N by simp
  have p: "pattern128 neg cf T = be_bytes 16 (nat N)" by (simp add: pattern128_def N_def s_def)
  have d110: "N div 2 ^ 110 = s * 2 ^ 17 + cf"
  proof -
    have "N = (s * 2 ^ 17 + cf) * 2 ^ 110 + T" by (simp add: N_def)
    then show ?thesis using field_split(1) [OF assms(3,4)] by metis
  qed
  have d120: "N div 2 ^ 120 = s * 128 + cf div 1024"
  proof -
    have "N div 2 ^ 120 = (s * 2 ^ 17 + cf) div 2 ^ 10" using d110 by (simp flip: zdiv_zmult2_eq)
    then show ?thesis by simp
  qed
  have d112: "N div 2 ^ 112 = s * 2 ^ 15 + cf div 4"
  proof -
    have "N div 2 ^ 112 = (s * 2 ^ 17 + cf) div 2 ^ 2" using d110 by (simp flip: zdiv_zmult2_eq)
    then show ?thesis by simp
  qed
  show "length (pattern128 neg cf T) = 16" by (simp add: pattern128_def)
  have cf10: "0 \<le> cf div 1024" "cf div 1024 < 128" using assms by auto
  have b0: "uint (be_bytes 16 (nat N) ! 0) = s * 128 + cf div 1024"
    using be_byte_int [OF N, of 0 16] d120 s cf10 by simp
  have b1: "uint (be_bytes 16 (nat N) ! 1) = cf div 4 mod 256"
  proof -
    have "(s * 2 ^ 15 + cf div 4) mod 256 = cf div 4 mod 256"
      using mod_mult_self3 [of "s * 128" 256 "cf div 4"] by (simp add: mult.commute)
    then show ?thesis using be_byte_int [OF N, of 1 16] d112 by simp
  qed
  have b2: "uint (be_bytes 16 (nat N) ! 2) div 64 = cf mod 4"
  proof -
    have "x mod 256 div 64 = x div 64 mod 4" for x :: int
      using zmod_zmult2_eq [of 4 x 64] by simp
    then have "uint (be_bytes 16 (nat N) ! 2) div 64 = N div 2 ^ 104 div 64 mod 4"
      using be_byte_int [OF N, of 2 16] by simp
    also have "\<dots> = (s * 2 ^ 17 + cf) mod 4" using d110 by (simp flip: zdiv_zmult2_eq)
    also have "\<dots> = cf mod 4" using mod_mult_self3 [of "s * 2 ^ 15" 4 cf] by (simp add: mult.commute)
    finally show ?thesis .
  qed
  show "((pattern128 neg cf T ! 0) AND 0x80 = 0x80) = neg"
    using b0 cf10 s by (simp add: byte_sign p) (simp add: s_def)
  show "push_bit 10 (uint ((pattern128 neg cf T ! 0) AND 0x7f)) + push_bit 2 (uint (pattern128 neg cf T ! 1)) +
       uint (drop_bit 6 (pattern128 neg cf T ! 2)) = cf"
  proof -
    have "cf div 1024 = cf div 4 div 256" by (simp flip: zdiv_zmult2_eq)
    then have "cf div 1024 * 1024 + cf div 4 mod 256 * 4 = cf div 4 * 4"
      using div_mult_mod_eq [of "cf div 4" 256] by linarith
    then have sum: "cf div 1024 * 1024 + cf div 4 mod 256 * 4 + cf mod 4 = cf"
      using div_mult_mod_eq [of cf 4] by linarith
    have "uint ((be_bytes 16 (nat N) ! 0) AND 0x7f) = cf div 1024"
      unfolding byte_low b0 using cf10 mod_mult_self3 [of s 128 "cf div 1024"] by simp
    moreover have "uint (drop_bit 6 (be_bytes 16 (nat N) ! 2)) = cf mod 4"
      unfolding uint_drop using b2 by simp
    ultimately show ?thesis unfolding p b1 push_bit_eq_mult using sum by simp
  qed
  have "decimal128DPDMask = 2 ^ 110 - 1" by (simp add: decimal128DPDMask_def)
  then have "N AND decimal128DPDMask = N mod 2 ^ 110" using and_low [of N 110] by metis
  moreover have "N mod 2 ^ 110 = T"
  proof -
    have "N = (s * 2 ^ 17 + cf) * 2 ^ 110 + T" by (simp add: N_def)
    then show ?thesis using field_split(2) [OF assms(3,4)] by metis
  qed
  ultimately show "bytesToBigInt (pattern128 neg cf T) AND decimal128DPDMask = T"
    using bytesToBigInt_be [OF lt] N by (simp add: p)
qed

text \<open>The masks of the combination field, on its five bits and the twelve below them.\<close>

lemma combination_masks:
  fixes t lo :: int
  assumes "0 \<le> lo" "lo < 4096"
  shows "(t * 4096 + lo) AND 0x1F000 = (t mod 32) * 4096" "(t * 4096 + lo) AND 0x18000 = (t div 8 mod 4) * 0x8000"
    "(t * 4096 + lo) AND 0x1e000 = (t div 2 mod 16) * 0x2000" "(t * 4096 + lo) AND 0xfff = lo"
    "drop_bit 12 (t * 4096 + lo) AND 7 = t mod 8" "drop_bit 12 (t * 4096 + lo) AND 1 = t mod 2"
proof -
  have t: "(t * 4096 + lo) div 4096 = t" "(t * 4096 + lo) mod 4096 = lo" using assms by simp_all
  have d: "(t * 4096 + lo) div 32768 = t div 8" "(t * 4096 + lo) div 8192 = t div 2"
    using t(1) zdiv_zmult2_eq [of 8 "t * 4096 + lo" 4096] zdiv_zmult2_eq [of 2 "t * 4096 + lo" 4096] by simp_all
  show "(t * 4096 + lo) AND 0x1F000 = (t mod 32) * 4096" using and_field [of "t * 4096 + lo" 5 12] t by simp
  show "(t * 4096 + lo) AND 0x18000 = (t div 8 mod 4) * 0x8000" using and_field [of "t * 4096 + lo" 2 15] d by simp
  show "(t * 4096 + lo) AND 0x1e000 = (t div 2 mod 16) * 0x2000" using and_field [of "t * 4096 + lo" 4 13] d by simp
  show "(t * 4096 + lo) AND 0xfff = lo" using and_low [of "t * 4096 + lo" 12] t by simp
  have "drop_bit 12 (t * 4096 + lo) = t" using t by (simp add: drop_bit_eq_div)
  then show "drop_bit 12 (t * 4096 + lo) AND 7 = t mod 8" "drop_bit 12 (t * 4096 + lo) AND 1 = t mod 2"
    using and_low [of t 3] and_low [of t 1] by simp_all
qed

lemma combination_range: "0 \<le> h \<Longrightarrow> h \<le> 2 \<Longrightarrow> 0 \<le> p \<Longrightarrow> p \<le> 9 \<Longrightarrow> 0 \<le> combination h p \<and> combination h p < 30"
  by (simp add: combination_def)

lemma combination_cases:
  assumes "0 \<le> h" "h \<le> 2" "0 \<le> p" "p \<le> 9"
  shows "p < 8 \<Longrightarrow> combination h p div 8 = h \<and> combination h p mod 8 = p"
    "\<not> p < 8 \<Longrightarrow> combination h p div 8 = 3 \<and> combination h p div 2 = 12 + h \<and> combination h p mod 2 = p - 8"
proof -
  show "p < 8 \<Longrightarrow> combination h p div 8 = h \<and> combination h p mod 8 = p"
    using assms by (simp add: combination_def)
  assume "\<not> p < 8"
  then have "p = 8 \<or> p = 9" "h = 0 \<or> h = 1 \<or> h = 2" using assms by auto
  then show "combination h p div 8 = 3 \<and> combination h p div 2 = 12 + h \<and> combination h p mod 2 = p - 8"
    by (elim disjE) (simp_all add: combination_def)
qed

lemma three_values: "0 \<le> h \<Longrightarrow> h \<le> 2 \<Longrightarrow> h = 0 \<or> h = 1 \<or> h = (2 :: int)"
  by auto

lemma decode128:
  assumes "0 \<le> h" "h \<le> 2" "0 \<le> p" "p \<le> 9" "0 \<le> lo" "lo < 4096" "0 \<le> T" "T < 2 ^ 110"
  shows "decimal128ToSignDigitsExponent (pattern128 neg (combination h p * 4096 + lo) T) =
    bind_res (calcSignificand p T 110) (\<lambda>c. Inr (Some c, word_of_int (h * 4096 + lo - 6176), neg, ''''))"
proof -
  let ?t = "combination h p" and ?b = "pattern128 neg (combination h p * 4096 + lo) T"
  note t = combination_range [OF assms(1-4)]
  have cf: "0 \<le> ?t * 4096 + lo" "?t * 4096 + lo < 2 ^ 17" using t assms(5,6) by simp_all
  note r = pattern128_read [OF cf assms(7,8), of neg]
  have i: "go_index ?b 0 = Inr (?b ! 0)" "go_index ?b 1 = Inr (?b ! 1)" "go_index ?b 2 = Inr (?b ! 2)"
    using r(4) by simp_all
  have m: "?t mod 32 = ?t" using t by simp
  show ?thesis
  proof (cases "p < 8")
    case True
    then show ?thesis
      using combination_cases(1) [OF assms(1-4) True] three_values [OF assms(1,2)] t
      unfolding decimal128ToSignDigitsExponent_def i bind_res.simps Let_def r(1-3) combination_masks [OF assms(5,6)] m
      by (elim disjE) (simp_all add: add.commute)
  next
    case False
    then show ?thesis
      using combination_cases(2) [OF assms(1-4) False] three_values [OF assms(1,2)] t
      unfolding decimal128ToSignDigitsExponent_def i bind_res.simps Let_def r(1-3) combination_masks [OF assms(5,6)] m
      by (elim disjE) (simp_all add: add.commute)
  qed
qed

definition pattern64 :: "bool \<Rightarrow> int \<Rightarrow> int \<Rightarrow> bytes" where
  "pattern64 neg cf T = be_bytes 8 (nat (of_bool neg * 2 ^ 63 + cf * 2 ^ 50 + T))"

definition encode64 :: "bool \<Rightarrow> int \<Rightarrow> int \<Rightarrow> bytes" where
  "encode64 neg c e =
     (let q = e + 398
      in pattern64 neg (combination (q div 256) (c div 10 ^ 15) * 256 + q mod 256) (pack_segments 5 (c mod 10 ^ 15)))"

lemma pattern64_read:
  fixes neg :: bool
  assumes "0 \<le> t" "t < 32" "0 \<le> lo" "lo < 256" "0 \<le> T" "T < 2 ^ 50"
  defines "b \<equiv> pattern64 neg (t * 256 + lo) T"
  shows "((b ! 0) AND 0x80 = 0x80) = neg" "drop_bit 2 (uint (b ! 0)) AND 0x1f = t"
    "push_bit 6 (uint (b ! 0) AND 3) + (drop_bit 2 (uint (b ! 1)) AND 0x3f) = lo"
    "bytesToBigInt b AND decimal64DPDMask = T" "length b = 8"
proof -
  define s :: int where "s = of_bool neg"
  define N where "N = s * 2 ^ 63 + (t * 256 + lo) * 2 ^ 50 + T"
  have s: "0 \<le> s" "s \<le> 1" by (simp_all add: s_def)
  have N: "0 \<le> N" using assms s by (simp add: N_def)
  have "(t * 256 + lo) * 2 ^ 50 + T < 2 ^ 13 * 2 ^ 50" using assms by simp
  then have lt: "nat N < 256 ^ 8" using s N by (simp add: N_def)
  have b: "b = be_bytes 8 (nat N)" by (simp add: b_def pattern64_def N_def s_def)
  have split: "N = ((s * 32 + t) * 256 + lo) * 2 ^ 50 + T" by (simp add: N_def)
  have d50: "N div 2 ^ 50 = (s * 32 + t) * 256 + lo" using field_split(1) [OF assms(5,6)] split by metis
  have d56: "N div 2 ^ 56 = (s * 32 + t) * 4 + lo div 64"
  proof -
    have "N div 2 ^ 56 = ((s * 32 + t) * 256 + lo) div 2 ^ 6" using d50 by (simp flip: zdiv_zmult2_eq)
    then show ?thesis by simp
  qed
  have lo: "0 \<le> lo div 64" "lo div 64 < 4" using assms by auto
  have b0: "uint (b ! 0) = (s * 32 + t) * 4 + lo div 64"
    using be_byte_int [OF N, of 0 8] d56 s assms(1,2) lo by (simp add: b)
  have b1: "uint (b ! 1) div 4 = lo mod 64"
  proof -
    have "x mod 256 div 4 = x div 4 mod 64" for x :: int using zmod_zmult2_eq [of 64 x 4] by simp
    then have "uint (b ! 1) div 4 = N div 2 ^ 48 div 4 mod 64" using be_byte_int [OF N, of 1 8] by (simp add: b)
    also have "\<dots> = ((s * 32 + t) * 256 + lo) mod 64" using d50 by (simp flip: zdiv_zmult2_eq)
    also have "\<dots> = lo mod 64" using mod_mult_self3 [of "(s * 32 + t) * 4" 64 lo] by (simp add: algebra_simps)
    finally show ?thesis .
  qed
  show "length b = 8" by (simp add: b)
  show "((b ! 0) AND 0x80 = 0x80) = neg"
  proof -
    have "((s * 32 + t) * 4 + lo div 64) div 128 = s"
      using assms(1,2) lo div_mult_self3 [of 128 s "t * 4 + lo div 64"] by (simp add: algebra_simps)
    then show ?thesis using b0 s by (simp add: byte_sign) (simp add: s_def)
  qed
  show "drop_bit 2 (uint (b ! 0)) AND 0x1f = t"
  proof -
    have "drop_bit 2 (uint (b ! 0)) = s * 32 + t" using b0 lo by (simp add: drop_bit_eq_div)
    then show ?thesis using and_low [of "s * 32 + t" 5] assms(1,2) mod_mult_self3 [of s 32 t] by simp
  qed
  show "push_bit 6 (uint (b ! 0) AND 3) + (drop_bit 2 (uint (b ! 1)) AND 0x3f) = lo"
  proof -
    have "uint (b ! 0) AND 3 = lo div 64"
      using and_low [of "uint (b ! 0)" 2] b0 lo mod_mult_self3 [of "s * 32 + t" 4 "lo div 64"] by simp
    moreover have "drop_bit 2 (uint (b ! 1)) AND 0x3f = lo mod 64"
      using and_low [of "lo mod 64" 6] b1 by (simp add: drop_bit_eq_div)
    ultimately show ?thesis by (simp add: push_bit_eq_mult)
  qed
  have "decimal64DPDMask = 2 ^ 50 - 1" by (simp add: decimal64DPDMask_def)
  then have "N AND decimal64DPDMask = N mod 2 ^ 50" using and_low [of N 50] by metis
  moreover have "N mod 2 ^ 50 = T" using field_split(2) [OF assms(5,6)] split by metis
  ultimately show "bytesToBigInt b AND decimal64DPDMask = T"
    using bytesToBigInt_be [OF lt] N by (simp add: b)
qed

lemma five_bit_masks:
  fixes t :: int
  assumes "0 \<le> t" "t < 32"
  shows "t AND 0x18 = (t div 8) * 8" "t AND 0x1e = (t div 2) * 2" "t AND 7 = t mod 8" "t AND 1 = t mod 2"
proof -
  have "t div 8 mod 4 = t div 8" "t div 2 mod 16 = t div 2" using assms by simp_all
  then show "t AND 0x18 = (t div 8) * 8" "t AND 0x1e = (t div 2) * 2"
    using and_field [of t 2 3] and_field [of t 4 1] by simp_all
  show "t AND 7 = t mod 8" using and_low [of t 3] by simp
  show "t AND 1 = t mod 2" using and_low [of t 1] by simp
qed
lemma decode64:
  assumes "0 \<le> h" "h \<le> 2" "0 \<le> p" "p \<le> 9" "0 \<le> lo" "lo < 256" "0 \<le> T" "T < 2 ^ 50"
  shows "decimal64ToString (pattern64 neg (combination h p * 256 + lo) T) =
    bind_res (calcSignificand p T 50) (\<lambda>c. Inr (formatDecimalGDA (Some c) (word_of_int (h * 256 + lo - 398)) neg ''''))"
proof -
  let ?t = "combination h p" and ?b = "pattern64 neg (combination h p * 256 + lo) T"
  note t = combination_range [OF assms(1-4)]
  have t32: "0 \<le> ?t" "?t < 32" using t by simp_all
  note r = pattern64_read [OF t32 assms(5-8), of neg]
  have i: "go_index ?b 0 = Inr (?b ! 0)" "go_index ?b 1 = Inr (?b ! 1)"
    using r(5) by simp_all
  note m = five_bit_masks [OF t32]
  show ?thesis
  proof (cases "p < 8")
    case True
    then show ?thesis
      using combination_cases(1) [OF assms(1-4) True] three_values [OF assms(1,2)] t
      unfolding decimal64ToString_def i bind_res.simps Let_def r(1-4) m
      by (elim disjE) (simp_all add: add.commute)
  next
    case False
    then show ?thesis
      using combination_cases(2) [OF assms(1-4) False] three_values [OF assms(1,2)] t
      unfolding decimal64ToString_def i bind_res.simps Let_def r(1-4) m
      by (elim disjE) (simp_all add: add.commute)
  qed
qed

end
