(* ===== verification/Decfloat_Text.thy ===== *)
theory Decfloat_Text
  imports Decfloat
begin

text \<open>
  The text of a decimal, read back. \<open>gda_number\<close> is the numeric-string reader of the General
  Decimal Arithmetic specification: a sign, digits with at most one point, an optional exponent;
  it gives the sign, the coefficient and the exponent, so that trailing zeros count.
\<close>

definition gda_exponent :: "string \<Rightarrow> int option" where
  "gda_exponent s = (case s of
     [] \<Rightarrow> Some 0
   | [e] \<Rightarrow> None
   | e # sg # ds \<Rightarrow> map_option (\<lambda>n. if sg = CHR ''-'' then - int n else int n) (parse_nat ds))"

definition gda_number :: "string \<Rightarrow> (bool \<times> nat \<times> int) option" where
  "gda_number s =
     (let neg = (case s of [] \<Rightarrow> False | c # _ \<Rightarrow> c = CHR ''-'');
          body = (if neg then tl s else s);
          mant = takeWhile (\<lambda>c. c \<noteq> CHR ''E'') body;
          whole = takeWhile (\<lambda>c. c \<noteq> CHR ''.'') mant;
          frac = drop 1 (dropWhile (\<lambda>c. c \<noteq> CHR ''.'') mant)
      in Option.bind (gda_exponent (dropWhile (\<lambda>c. c \<noteq> CHR ''E'') body)) (\<lambda>x.
         map_option (\<lambda>n. (neg, n, x - int (length frac))) (parse_nat (whole @ frac))))"

lemma digits_avoid:
  "list_all is_digit ds \<Longrightarrow> CHR ''E'' \<notin> set ds \<and> CHR ''.'' \<notin> set ds \<and> CHR ''-'' \<notin> set ds"
  by (auto simp: list_all_iff is_digit_def)

lemma span_avoid: "c \<notin> set ds \<Longrightarrow> takeWhile (\<lambda>x. x \<noteq> c) (ds @ c # r) = ds \<and> dropWhile (\<lambda>x. x \<noteq> c) (ds @ c # r) = c # r"
  by (induction ds) auto

lemma span_all: "c \<notin> set ds \<Longrightarrow> takeWhile (\<lambda>x. x \<noteq> c) ds = ds \<and> dropWhile (\<lambda>x. x \<noteq> c) ds = []"
  by (induction ds) auto

lemma parse_zeros: "ds \<noteq> [] \<Longrightarrow> list_all is_digit ds \<Longrightarrow> parse_nat (replicate k (CHR ''0'') @ ds) = parse_nat ds"
proof (induction k)
  case (Suc k)
  then show ?case by (auto simp: parse_nat_def digit_val_def is_digit_def)
qed simp

text \<open>An unsigned body \<open>whole\<close> or \<open>whole.frac\<close> with an optional exponent.\<close>

lemma gda_body:
  assumes "list_all is_digit whole" "list_all is_digit frac" "whole \<noteq> []" "parse_nat (whole @ frac) = Some c"
    "ex = [] \<or> hd ex = CHR ''E''" "gda_exponent ex = Some x"
    "pt = (if frac = [] then [] else ''.'')"
  shows "gda_number ((if neg then ''-'' else []) @ whole @ pt @ frac @ ex) = Some (neg, c, x - int (length frac))"
proof -
  let ?body = "whole @ pt @ frac @ ex"
  have a: "CHR ''E'' \<notin> set (whole @ pt @ frac)" "CHR ''.'' \<notin> set whole" "CHR ''-'' \<notin> set whole"
    using digits_avoid [OF assms(1)] digits_avoid [OF assms(2)] assms(7) by auto
  have m: "takeWhile (\<lambda>x. x \<noteq> CHR ''E'') ?body = whole @ pt @ frac \<and> dropWhile (\<lambda>x. x \<noteq> CHR ''E'') ?body = ex"
  proof (cases ex)
    case Nil
    then show ?thesis using span_all [OF a(1)] by simp
  next
    case (Cons e es)
    then show ?thesis using span_avoid [OF a(1), of es] assms(5) by simp
  qed
  have f: "takeWhile (\<lambda>x. x \<noteq> CHR ''.'') (whole @ pt @ frac) = whole \<and>
      drop 1 (dropWhile (\<lambda>x. x \<noteq> CHR ''.'') (whole @ pt @ frac)) = frac"
    using span_all [OF a(2)] span_avoid [OF a(2), of frac] assms(7) by auto
  have "hd whole \<noteq> CHR ''-''" using a(3) assms(3) by (cases whole) auto
  then have n: "(case (if neg then ''-'' else []) @ ?body of [] \<Rightarrow> False | c # _ \<Rightarrow> c = CHR ''-'') = neg"
    using assms(3) by (cases whole) auto
  have b: "(if neg then tl ((if neg then ''-'' else []) @ ?body) else (if neg then ''-'' else []) @ ?body) = ?body"
    by simp
  show ?thesis unfolding gda_number_def Let_def n b using m f assms(4,6) by simp
qed

lemma itoa_nat: "itoa (int c) = nat_itoa c"
  by (simp add: itoa_def)

lemma sint_of_int32: "- (2 ^ 31) \<le> n \<Longrightarrow> n < 2 ^ 31 \<Longrightarrow> sint (word_of_int n :: int32) = n"
  by (simp add: signed_of_int signed_take_bit_int_eq_self)

lemma sint_bounds32: "- (2 ^ 31) \<le> sint (w :: int32)" "sint w < 2 ^ 31"
  using sint_greater_eq [of w] sint_less [of w] by simp_all

lemma sint_minus32: "- (2 ^ 31) < sint e \<Longrightarrow> sint (- e :: int32) = - sint e"
proof -
  assume e: "- (2 ^ 31) < sint e"
  have "- e = word_of_int (- sint e)" by simp
  then show ?thesis using sint_of_int32 [of "- sint e"] e sint_bounds32 [of e] by simp
qed

lemma gda_plain:
  assumes "sint e \<le> 0" "- (2 ^ 31) < sint e"
  shows "gda_number ((if neg then ''-'' else []) @ formatPlain (nat_itoa c) e) = Some (neg, c, sint e)"
proof (cases "e = 0")
  case True
  then show ?thesis
    using gda_body [of "nat_itoa c" "[]" c "[]" 0 "[]" neg] nat_itoa_digits [of c]
    by (simp add: formatPlain_def gda_exponent_def)
next
  case False
  define k where "k = nat (- sint e)"
  have "sint e \<noteq> 0" using False by (metis signed_0 signed_word_eqI)
  then have k: "sint (- e) = int k" "0 < k" using assms sint_minus32 [OF assms(2)] by (simp_all add: k_def)
  let ?d = "nat_itoa c"
  show ?thesis
  proof (cases "length ?d > k")
    case True
    let ?w = "take (length ?d - k) ?d" and ?f = "drop (length ?d - k) ?d"
    have "list_all is_digit ?w" "list_all is_digit ?f"
      using nat_itoa_digits [of c] by (auto simp: list_all_iff dest: in_set_takeD in_set_dropD)
    moreover have "nat (int (length ?d) - int k) = length ?d - k" by simp
    then have "formatPlain ?d e = ?w @ ''.'' @ ?f" using True k False by (simp add: formatPlain_def Let_def)
    ultimately show ?thesis
      using gda_body [of ?w ?f c "[]" 0 "''.''" neg] True k by (simp add: gda_exponent_def k_def)
  next
    case short: False
    let ?f = "replicate (k - length ?d) (CHR ''0'') @ ?d"
    have "parse_nat (''0'' @ ?f) = Some c"
      using parse_zeros [of ?d "Suc (k - length ?d)"] nat_itoa_digits [of c] by simp
    moreover have "nat (int k - int (length ?d)) = k - length ?d" by simp
    then have "formatPlain ?d e = ''0.'' @ ?f" using short k False by (simp add: formatPlain_def Let_def)
    moreover have "list_all is_digit ''0''" "list_all is_digit ?f"
      using nat_itoa_digits [of c] by (auto simp: list_all_iff is_digit_def)
    ultimately show ?thesis
      using gda_body [of "''0''" ?f c "[]" 0 "''.''" neg] short k by (simp add: gda_exponent_def k_def)
  qed
qed

lemma gda_exponent_signed:
  "gda_exponent (''E'' @ (if x < 0 then ''-'' else ''+'') @ nat_itoa (nat \<bar>x\<bar>)) = Some x"
  using parse_nat_itoa [of "nat \<bar>x\<bar>"] by (auto simp: gda_exponent_def)

lemma gda_scientific:
  assumes "- (2 ^ 31) < sint a"
  shows "gda_number ((if neg then ''-'' else []) @ formatScientific (nat_itoa c) a) =
    Some (neg, c, sint a - int (length (nat_itoa c)) + 1)"
proof -
  let ?d = "nat_itoa c"
  let ?ex = "''E'' @ (if sint a < 0 then ''-'' else ''+'') @ nat_itoa (nat \<bar>sint a\<bar>)"
  have ex: "gda_exponent ?ex = Some (sint a)" by (rule gda_exponent_signed)
  obtain x xs where d: "?d = x # xs" by (cases ?d) auto
  have dig: "list_all is_digit [x]" "list_all is_digit xs" using nat_itoa_digits [of c] d by simp_all
  have "parse_nat ([x] @ xs) = Some c" using parse_nat_itoa [of c] d by simp
  then have "gda_number ((if neg then ''-'' else []) @ [x] @ (if xs = [] then [] else ''.'') @ xs @ ?ex) =
      Some (neg, c, sint a - int (length xs))"
    using gda_body [OF dig _ _ _ ex, of c "if xs = [] then [] else ''.''" neg] by simp
  moreover have "formatScientific ?d a = [x] @ (if xs = [] then [] else ''.'') @ xs @ ?ex"
    using sint_minus32 [OF assms] d by (auto simp: formatScientific_def itoa_def)
  ultimately show ?thesis using d by simp
qed

lemma format_reads_back:
  assumes "- (2 ^ 31) < sint e" "sint e + int (length (nat_itoa c)) \<le> 2 ^ 31"
  shows "gda_number (formatDecimalGDA (Some (int c)) e neg '''') = Some (neg, c, sint e)"
proof -
  let ?n = "int (length (nat_itoa c))"
  define a where "a = e + word_of_int ?n - 1"
  have "1 \<le> ?n" by (cases "nat_itoa c") simp_all
  moreover have "a = word_of_int (sint e + ?n - 1)" by (simp add: a_def)
  ultimately have a: "sint a = sint e + ?n - 1" using assms sint_of_int32 [of "sint e + ?n - 1"] by simp
  have f: "formatDecimalGDA (Some (int c)) e neg '''' = (if neg then ''-'' else []) @
      (if sint e \<le> 0 \<and> sint a \<ge> -6 then formatPlain (nat_itoa c) e else formatScientific (nat_itoa c) a)"
    by (simp add: formatDecimalGDA_def itoa_nat a_def Let_def)
  show ?thesis
  proof (cases "sint e \<le> 0 \<and> sint a \<ge> -6")
    case True
    then show ?thesis using gda_plain [OF _ assms(1), of neg c] f by simp
  next
    case False
    have "- (2 ^ 31) < sint a" using a assms(1) \<open>1 \<le> ?n\<close> by simp
    then show ?thesis using gda_scientific [of a neg c] f False a by auto
  qed
qed

text \<open>The exponent's sign is written twice when negating it wraps around.\<close>

lemma format_least_exponent: "formatDecimalGDA (Some 5) (word_of_int (- (2 ^ 31))) False '''' = ''5E--2147483648''"
proof -
  have "sint (word_of_int (- (2 ^ 31)) :: int32) = - (2 ^ 31)" "sint (- (word_of_int (- (2 ^ 31))) :: int32) = - (2 ^ 31)"
    by simp_all
  then show ?thesis
    by (simp add: formatDecimalGDA_def formatScientific_def itoa_def nat_itoa.simps digit_char_def char_of_def bit_numeral_rec bit_0)
qed

subsection \<open>Decimals of the wire\<close>

lemma encoded_digits:
  fixes c :: int
  assumes "0 \<le> c" "c < 10 * 1000 ^ k"
  shows "0 \<le> c div 1000 ^ k" "c div 1000 ^ k \<le> 9"
    "calcSignificand (c div 1000 ^ k) (pack_segments k (c mod 1000 ^ k)) (10 * k) = Inr c"
proof -
  show "0 \<le> c div 1000 ^ k" using assms(1) by (simp add: pos_imp_zdiv_nonneg_iff)
  have "c div 1000 ^ k < 10"
  proof (rule ccontr)
    assume "\<not> c div 1000 ^ k < 10"
    then have "10 * 1000 ^ k \<le> (c div 1000 ^ k) * 1000 ^ k" by simp
    also have "\<dots> \<le> c"
    proof -
      have "0 \<le> c mod 1000 ^ k" by (rule pos_mod_sign) simp
      then show ?thesis using div_mult_mod_eq [of c "1000 ^ k"] by linarith
    qed
    finally show False using assms(2) by simp
  qed
  then show "c div 1000 ^ k \<le> 9" by simp
  have "0 \<le> c mod 1000 ^ k" by simp
  then show "calcSignificand (c div 1000 ^ k) (pack_segments k (c mod 1000 ^ k)) (10 * k) = Inr c"
    using add_packed [of "c mod 1000 ^ k" "c div 1000 ^ k" k] by (simp add: calcSignificand_def div_mult_mod_eq)
qed

lemma decode_encode128:
  assumes "c < 10 ^ 34" "- 6176 \<le> e" "e < 6112"
  shows "decimal128ToSignDigitsExponent (encode128 neg (int c) e) = Inr (Some (int c), word_of_int e, neg, '''')"
proof -
  have c: "0 \<le> int c" "int c < 10 * 1000 ^ 11" using assms(1) by simp_all
  note d = encoded_digits [OF c]
  let ?q = "e + 6176"
  have q: "0 \<le> ?q div 4096" "?q div 4096 \<le> 2" "0 \<le> ?q mod 4096" "?q mod 4096 < 4096" "?q div 4096 * 4096 + ?q mod 4096 = ?q"
    using assms(2,3) by auto
  have p: "(10 :: int) ^ 33 = 1000 ^ 11" by simp
  have T: "0 \<le> pack_segments 11 (int c mod 1000 ^ 11)" "pack_segments 11 (int c mod 1000 ^ 11) < 2 ^ 110"
    using pack_segments_range [of 11 "int c mod 1000 ^ 11"] by simp_all
  show ?thesis
    unfolding encode128_def Let_def p
    using decode128 [OF q(1,2) d(1,2) q(3,4) T, of neg] d(3) q(5) by simp
qed

lemma decode_encode64:
  assumes "c < 10 ^ 16" "- 398 \<le> e" "e < 370"
  shows "decimal64ToString (encode64 neg (int c) e) = Inr (formatDecimalGDA (Some (int c)) (word_of_int e) neg '''')"
proof -
  have c: "0 \<le> int c" "int c < 10 * 1000 ^ 5" using assms(1) by simp_all
  note d = encoded_digits [OF c]
  let ?q = "e + 398"
  have q: "0 \<le> ?q div 256" "?q div 256 \<le> 2" "0 \<le> ?q mod 256" "?q mod 256 < 256" "?q div 256 * 256 + ?q mod 256 = ?q"
    using assms(2,3) by auto
  have p: "(10 :: int) ^ 15 = 1000 ^ 5" by simp
  have T: "0 \<le> pack_segments 5 (int c mod 1000 ^ 5)" "pack_segments 5 (int c mod 1000 ^ 5) < 2 ^ 50"
    using pack_segments_range [of 5 "int c mod 1000 ^ 5"] by simp_all
  show ?thesis
    unfolding encode64_def Let_def p
    using decode64 [OF q(1,2) d(1,2) q(3,4) T, of neg] d(3) q(5) by simp
qed

lemma short_itoa: "c < 10 ^ n \<Longrightarrow> 0 < n \<Longrightarrow> length (nat_itoa c) \<le> n"
proof (cases "c = 0")
  case False
  assume c: "c < 10 ^ n" "0 < n"
  have "10 ^ (length (nat_itoa c) - 1) < (10 :: nat) ^ n" using length_nat_itoa [of c] False c(1) by linarith
  then have "length (nat_itoa c) - 1 < n" by (rule power_less_imp_less_exp [rotated]) simp
  then show ?thesis by simp
qed (simp add: nat_itoa.simps)

subsection \<open>Properties\<close>

text \<open>C19: A DECFLOAT reaches the application exactly. Every decimal a server can hold (34 digits with an
  exponent from -6176 to 6111, or 16 digits with one from -398 to 369), encoded as IEEE 754
  decimal128 or decimal64 with densely packed digits, becomes a text that reads back, by the
  General Decimal Arithmetic rules, as the same sign, coefficient and exponent; a column of the
  old fixed type reads back with the column's scale as its exponent.\<close>

theorem decfloat_roundtrip:
  assumes "c < 10 ^ 34" "- 6176 \<le> e" "e < 6112" "d < 10 ^ 16" "- 398 \<le> f" "f < 370" "\<bar>sint scale\<bar> < 2 ^ 30"
  shows "(\<exists>s. decimal128ToString (encode128 neg (int c) e) = Inr s \<and> gda_number s = Some (neg, c, e)) \<and>
    (\<exists>s. decimal64ToString (encode64 neg (int d) f) = Inr s \<and> gda_number s = Some (neg, d, f)) \<and>
    (\<exists>s. decimalFixedToString (encode128 neg (int c) e) scale = Inr s \<and> gda_number s = Some (neg, c, sint scale))"
proof -
  have l: "length (nat_itoa c) \<le> 34" "length (nat_itoa d) \<le> 16" using short_itoa assms(1,4) by simp_all
  have e: "sint (word_of_int e :: int32) = e" "sint (word_of_int f :: int32) = f"
    using assms by (simp_all add: sint_of_int32)
  have "gda_number (formatDecimalGDA (Some (int c)) (word_of_int e) neg '''') = Some (neg, c, e)"
    using format_reads_back [of "word_of_int e" c neg] e(1) l(1) assms(2,3) by simp
  moreover have "gda_number (formatDecimalGDA (Some (int d)) (word_of_int f) neg '''') = Some (neg, d, f)"
    using format_reads_back [of "word_of_int f" d neg] e(2) l(2) assms(5,6) by simp
  moreover have "gda_number (formatDecimalGDA (Some (int c)) scale neg '''') = Some (neg, c, sint scale)"
    using format_reads_back [of scale c neg] l(1) assms(7) by simp
  ultimately show ?thesis
    using decode_encode128 [OF assms(1-3), of neg] decode_encode64 [OF assms(4-6), of neg]
    by (simp add: decimal128ToString_def decimalFixedToString_def)
qed

theorem decfloat_roundtrip_witness:
  "(\<exists>s. decimal128ToString (encode128 True 1234500 (-3)) = Inr s \<and> gda_number s = Some (True, 1234500, -3)) \<and>
   (\<exists>s. decimal64ToString (encode64 True 9999999999999999 369) = Inr s \<and> gda_number s = Some (True, 9999999999999999, 369)) \<and>
   (\<exists>s. decimalFixedToString (encode128 True 1234500 (-3)) (-2) = Inr s \<and> gda_number s = Some (True, 1234500, -2))"
  using decfloat_roundtrip [of 1234500 "-3" 9999999999999999 369 "-2" True] by simp

end
