(* ===== verification/Column_Values.thy ===== *)
theory Column_Values
  imports Describe_Props Decfloat_Text
begin

text \<open>
  Column values (\<open>xSQLVAR.value\<close> and the functions it calls): from the raw bytes of a column to
  the Go value the application sees.

  \<open>go_value\<close> is the \<open>interface{}\<close> of the code, one constructor for each dynamic type it holds; an
  integer is the value of its \<open>int64\<close>, a float its IEEE bit pattern. A \<open>time.Time\<close> is the
  argument list of the \<open>time.Date\<close> call that makes it: in a location, or in UTC and then shown
  \<open>.In(loc)\<close>. \<open>date_unix\<close> is the instant \<open>time.Date\<close> makes of its arguments. What the code asks of the
  zone database and of the generated zone table is the record \<open>time_env\<close>: \<open>te_lookup\<close> is
  \<open>Location.lookup\<close>, the name and offset of a zone at a second since 1970 in UTC, with the seconds from
  which and up to which they hold. \<open>time.Date\<close> panics without a location, as documented.
\<close>

datatype go_loc = Local | Named string | UTC | FixedZone string int

datatype go_value =
    VNil
  | VInt int
  | VStr string
  | VBytes bytes
  | VBool bool
  | VFloat "64 word"
  | VDate go_time go_loc
  | VInstant go_time go_loc

record time_env =
  te_known :: "string \<Rightarrow> bool"
  te_today :: "int \<times> int \<times> int"
  te_lookup :: "go_loc \<Rightarrow> int \<Rightarrow> string \<times> int \<times> int \<times> int"
  te_zone_name :: "int \<Rightarrow> string"
  te_zone_id :: "string \<Rightarrow> int32"

subsection \<open>Instants and their zones\<close>

abbreviation (input) first_second :: int where "first_second \<equiv> - (2 ^ 63)"
abbreviation (input) last_second :: int where "last_second \<equiv> 2 ^ 63 - 1"

fun zone_lookup :: "time_env \<Rightarrow> go_loc \<Rightarrow> int \<Rightarrow> string \<times> int \<times> int \<times> int" where
  "zone_lookup te UTC sec = (''UTC'', 0, first_second, last_second)"
| "zone_lookup te (FixedZone name offset) sec = (name, offset, first_second, last_second)"
| "zone_lookup te loc sec = te_lookup te loc sec"

definition zone_at :: "time_env \<Rightarrow> go_loc \<Rightarrow> int \<Rightarrow> string \<times> int" where
  "zone_at te loc sec = (case zone_lookup te loc sec of (name, offset, _, _) \<Rightarrow> (name, offset))"

text \<open>The days of a civil date since 1970-01-01, and its seconds; a month or a clock out of range runs over.\<close>

definition unix_days :: "int \<Rightarrow> int \<Rightarrow> int \<Rightarrow> int" where
  "unix_days y m d =
     (let i = m + 9; jy = y + i div 12 - 1
      in 146097 * (jy div 100) div 4 + 1461 * (jy mod 100) div 4 + (153 * (i mod 12) + 2) div 5 + d - 719469)"

definition civil_seconds :: "go_time \<Rightarrow> int" where
  "civil_seconds t = unix_days (t_year t) (t_month t) (t_day t) * 86400 +
     t_hour t * 3600 + t_minute t * 60 + t_second t + t_nanosecond t div 1000000000"

text \<open>
  \<open>time.Date\<close>: the zone is looked up at the civil time as if it were UTC; where the instant its offset
  gives lies outside the zone, the offset is that of the zone there.
\<close>

definition date_offset :: "time_env \<Rightarrow> go_loc \<Rightarrow> go_time \<Rightarrow> int" where
  "date_offset te loc t =
     (let unix = civil_seconds t; (name, offset, since, until) = zone_lookup te loc unix
      in if offset \<noteq> 0 \<and> (unix - offset < since \<or> until \<le> unix - offset) then snd (zone_at te loc (unix - offset)) else offset)"

definition date_unix :: "time_env \<Rightarrow> go_loc \<Rightarrow> go_time \<Rightarrow> int" where
  "date_unix te loc t = civil_seconds t - date_offset te loc t"

text \<open>\<open>time.Date(..., loc).Zone()\<close>, and \<open>time.Date(..., time.UTC).In(loc).Zone()\<close>.\<close>

definition te_zone :: "time_env \<Rightarrow> go_loc \<Rightarrow> go_time \<Rightarrow> string \<times> int" where
  "te_zone te loc t = zone_at te loc (date_unix te loc t)"

definition te_utc_zone :: "time_env \<Rightarrow> go_loc \<Rightarrow> go_time \<Rightarrow> string \<times> int" where
  "te_utc_zone te loc t = zone_at te loc (civil_seconds t)"

text \<open>The reading of the clock of a location at an instant, as the seconds of a civil time.\<close>

definition local_seconds :: "time_env \<Rightarrow> go_loc \<Rightarrow> int \<Rightarrow> int" where
  "local_seconds te loc sec = sec + snd (zone_at te loc sec)"

subsection \<open>Dates and times\<close>

text \<open>\<open>tz := time.Local; if timezone != "" { tz, _ = time.LoadLocation(timezone) }\<close>: nil on error.\<close>

definition load_zone :: "time_env \<Rightarrow> string \<Rightarrow> go_loc option" where
  "load_zone te timezone =
     (if timezone \<noteq> '''' then (if te_known te timezone then Some (Named timezone) else None) else Some Local)"

definition go_Date :: "go_time \<Rightarrow> go_loc option \<Rightarrow> go_value res" where
  "go_Date t loc = (case loc of
     None \<Rightarrow> Inl (Panic ''time: missing Location in call to Date'')
   | Some l \<Rightarrow> Inr (VDate t l))"

definition date_value :: "time_env \<Rightarrow> bytes \<Rightarrow> string \<Rightarrow> go_value res" where
  "date_value te raw timezone =
     (let tz = load_zone te timezone
      in bind_res (parseDate raw) (\<lambda>(year, month, day).
         go_Date \<lparr> t_year = year, t_month = month, t_day = day, t_hour = 0, t_minute = 0, t_second = 0, t_nanosecond = 0 \<rparr> tz))"

definition time_value :: "time_env \<Rightarrow> bytes \<Rightarrow> string \<Rightarrow> go_value res" where
  "time_value te raw timezone =
     (let tz = load_zone te timezone
      in bind_res (parseTime raw) (\<lambda>(h, m, s, n).
         let (ny, nm, nd) = te_today te;
             t = \<lparr> t_year = ny, t_month = nm, t_day = nd, t_hour = h, t_minute = m, t_second = s, t_nanosecond = n \<rparr>
         in bind_res (go_Date t tz) (\<lambda>v. case v of
              VDate t l \<Rightarrow>
                (let (zone, offset) = te_zone te l t
                 in go_Date (t\<lparr>t_year := 0, t_month := 1, t_day := 1\<rparr>) (Some (FixedZone zone offset)))
            | _ \<Rightarrow> Inr v)))"

definition timestamp_value :: "time_env \<Rightarrow> bytes \<Rightarrow> string \<Rightarrow> go_value res" where
  "timestamp_value te raw timezone =
     (let tz = load_zone te timezone in bind_res (timestamp_fields raw) (\<lambda>t. go_Date t tz))"

definition parseTimezoneID :: "time_env \<Rightarrow> bytes \<Rightarrow> go_loc res" where
  "parseTimezoneID te idRaw =
     bind_res (bytes_to_buint16 idRaw) (\<lambda>i.
       let name = te_zone_name te (int i)
       in Inr (if name \<noteq> '''' \<and> te_known te name then Named name else UTC))"

text \<open>
  A time with zone is read on 2020-01-01 in UTC; its wall clock in the zone is the UTC seconds of
  the day shifted by the zone's offset.
\<close>

definition wall_clock :: "go_time \<Rightarrow> int \<Rightarrow> go_time" where
  "wall_clock t offset =
     (let ns = t_nanosecond t;
          secs = t_hour t * 3600 + t_minute t * 60 + t_second t + ns div 1000000000 + offset
      in \<lparr> t_year = 0, t_month = 1, t_day = 1, t_hour = secs div 3600 mod 24, t_minute = secs div 60 mod 60,
           t_second = secs mod 60, t_nanosecond = ns mod 1000000000 \<rparr>)"

definition time_tz_value :: "time_env \<Rightarrow> bytes \<Rightarrow> go_value res" where
  "time_tz_value te raw =
     bind_res (bind_res (go_slice raw 0 4) parseTime) (\<lambda>(h, m, s, n).
     bind_res (bind_res (go_slice raw 6 8) (parseTimezoneID te)) (\<lambda>loc.
       let t = \<lparr> t_year = 2020, t_month = 1, t_day = 1, t_hour = h, t_minute = m, t_second = s, t_nanosecond = n \<rparr>;
           (zone, offset) = te_utc_zone te loc t
       in go_Date (wall_clock t offset) (Some (FixedZone zone offset))))"

definition timestamp_tz_value :: "time_env \<Rightarrow> bytes \<Rightarrow> go_value res" where
  "timestamp_tz_value te raw =
     bind_res (timestamp_fields raw) (\<lambda>t.
     bind_res (bind_res (go_slice raw 10 12) (parseTimezoneID te)) (\<lambda>loc. Inr (VInstant t loc)))"

subsection \<open>Texts and numbers\<close>

definition parseString :: "go_env \<Rightarrow> xsqlvar \<Rightarrow> bytes \<Rightarrow> string \<Rightarrow> go_value" where
  "parseString env x raw charset =
     (if sqlsubtype x = 1 \<or> charset = ''OCTETS'' then VBytes raw
      else if charset = ''UNICODE_FSS'' \<or> charset = ''UTF8'' then VStr (bytes_to_str raw)
      else (case decodeCharset env raw charset of Some v \<Rightarrow> VStr v | None \<Rightarrow> VBytes raw))"

abbreviation (input) maxDecimalScale :: "'a::numeral" where "maxDecimalScale \<equiv> 38"

definition scale_error :: go_error where
  "scale_error = Wrapped ''firebirdsql: NUMERIC/DECIMAL scale %d out of range: %w'' (BadConn ''driver: bad connection'')"

definition scaledIntValue :: "xsqlvar \<Rightarrow> int \<Rightarrow> go_value res" where
  "scaledIntValue x i =
     (if sqlscale x > 0 then
        (if sqlscale x > maxDecimalScale then Inl scale_error else Inr (VStr (itoa (i * 10 ^ nat (sqlscale x)))))
      else if sqlscale x < 0 then Inr (VStr (formatDecimalGDA (Some \<bar>i\<bar>) (word_of_int (sqlscale x)) (i < 0) ''''))
      else Inr (VInt i))"

definition int128_value :: "xsqlvar \<Rightarrow> bytes \<Rightarrow> go_value res" where
  "int128_value x raw =
     bind_res (go_index raw 0) (\<lambda>b0.
       let n = int (be_val raw);
           n = (if b0 AND 0x80 \<noteq> 0 then n - 2 ^ 128 else n)
       in if sqlscale x < 0 then Inr (VStr (formatDecimalGDA (Some \<bar>n\<bar>) (word_of_int (sqlscale x)) (n < 0) ''''))
          else if sqlscale x > 0 then
            (if sqlscale x > maxDecimalScale then Inl scale_error else Inr (VStr (itoa (n * 10 ^ nat (sqlscale x)))))
          else Inr (VStr (itoa n)))"

text \<open>\<open>float64(f32)\<close> on bit patterns: exact, with the subnormals of the narrow format normalised.\<close>

fun top_bit :: "nat \<Rightarrow> nat" where
  "top_bit m = (if m < 2 then 0 else Suc (top_bit (m div 2)))"

declare top_bit.simps [simp del]

definition widen_float :: "32 word \<Rightarrow> 64 word" where
  "widen_float w =
     (let s = of_nat (unat (drop_bit 31 w)); e = unat (drop_bit 23 w AND 0xff); m = unat (w AND 0x7fffff);
          k = top_bit m;
          fields = (\<lambda>e m. push_bit 63 s OR push_bit 52 (of_nat e) OR of_nat m)
      in if e = 255 then fields 2047 (m * 2 ^ 29)
         else if e \<noteq> 0 then fields (e + 896) (m * 2 ^ 29)
         else if m = 0 then fields 0 0
         else fields (k + 874) ((m - 2 ^ k) * 2 ^ (52 - k)))"

text \<open>\<open>binary.Read\<close> of a big-endian float: short input is an error.\<close>

definition read_float32 :: "bytes \<Rightarrow> go_value res" where
  "read_float32 raw = (if length raw < 4 then Inl (Plain ''unexpected EOF'')
     else Inr (VFloat (widen_float (of_nat (be_val (take 4 raw))))))"

definition read_float64 :: "bytes \<Rightarrow> go_value res" where
  "read_float64 raw = (if length raw < 8 then Inl (Plain ''unexpected EOF'')
     else Inr (VFloat (of_nat (be_val (take 8 raw)))))"

definition text_value :: "go_env \<Rightarrow> xsqlvar \<Rightarrow> bytes \<Rightarrow> string \<Rightarrow> go_value" where
  "text_value env x raw charset =
     (if sqlsubtype x = 1 \<or> charset = ''None'' then VBytes raw
      else (case parseString env x raw charset of
        VStr s \<Rightarrow> VStr (trim_right_blank s)
      | VBytes b \<Rightarrow> VStr (trim_right_blank (bytes_to_str b))
      | v \<Rightarrow> v))"

subsection \<open>The value of a column\<close>

definition column_value :: "go_env \<Rightarrow> time_env \<Rightarrow> string \<Rightarrow> string \<Rightarrow> xsqlvar \<Rightarrow> bytes \<Rightarrow> go_value res" where
  "column_value env te timezone charset x raw =
     (let t = sqltype x in
      if t = SQL_TYPE_TEXT then Inr (text_value env x raw charset)
      else if t = SQL_TYPE_VARYING then
        Inr (if sqlsubtype x = 1 then VBytes raw else parseString env x raw charset)
      else if t = SQL_TYPE_SHORT then
        bind_res (bytes_to_bint32 raw) (\<lambda>w. scaledIntValue x (sint (ucast w :: int16)))
      else if t = SQL_TYPE_LONG then bind_res (bytes_to_bint32 raw) (\<lambda>w. scaledIntValue x (sint w))
      else if t = SQL_TYPE_INT64 then bind_res (bytes_to_bint64 raw) (\<lambda>w. scaledIntValue x (sint w))
      else if t = SQL_TYPE_INT128 then int128_value x raw
      else if t = SQL_TYPE_DATE then date_value te raw timezone
      else if t = SQL_TYPE_TIME then time_value te raw timezone
      else if t = SQL_TYPE_TIMESTAMP then timestamp_value te raw timezone
      else if t = SQL_TYPE_TIME_TZ then time_tz_value te raw
      else if t = SQL_TYPE_TIMESTAMP_TZ then timestamp_tz_value te raw
      else if t = SQL_TYPE_FLOAT then read_float32 raw
      else if t = SQL_TYPE_DOUBLE then read_float64 raw
      else if t = SQL_TYPE_BOOLEAN then bind_res (go_index raw 0) (\<lambda>b. Inr (VBool (b \<noteq> 0)))
      else if t = SQL_TYPE_BLOB \<or> t = SQL_TYPE_ARRAY then Inr (VBytes raw)
      else if t = SQL_TYPE_DEC_FIXED then map_sum id VStr (decimalFixedToString raw (word_of_int (sqlscale x)))
      else if t = SQL_TYPE_DEC64 then map_sum id VStr (decimal64ToString raw)
      else if t = SQL_TYPE_DEC128 then map_sum id VStr (decimal128ToString raw)
      else Inr VNil)"

end
