(* ===== verification/Fetch.thy ===== *)
theory Fetch
  imports Column_Values
begin

text \<open>
  Fetching (\<open>wireprotocol.go\<close>, \<open>inline_blob.go\<close>): blobs the server sends ahead of the rows, one
  row, a batch of rows, and the segments of a blob that was not sent ahead.
\<close>

subsection \<open>Blobs sent ahead\<close>

definition recv_counted :: "string \<Rightarrow> bytes wm" where
  "recv_counted msg = wbind recv_int (\<lambda>w. let n = sint w in
     if n < 0 \<or> n > maxWirePayload then werr (Wrapped msg (BadConn ''driver: bad connection''))
     else if n > 0 then recvPacketsAlignment n else wret [])"

definition parseInlineBlobPayload :: "(int32 \<times> int64 \<times> bytes) wm" where
  "parseInlineBlobPayload =
     wbind recv_int (\<lambda>txHandle.
     wbind (recvPackets 8) (\<lambda>b. wbind (wlift (bytes_to_bint64 b)) (\<lambda>blobId.
     wbind (recv_counted ''firebirdsql: inline blob info length %d out of range: %w'') (\<lambda>_.
     wbind (recv_counted ''firebirdsql: inline blob data length %d out of range: %w'') (\<lambda>raw.
     wbind (wlift (decodeInlineSegmentBuffer raw)) (\<lambda>data. wret (txHandle, blobId, data)))))))"

definition cache_blob :: "int32 \<Rightarrow> int64 \<Rightarrow> bytes \<Rightarrow> wire_protocol \<Rightarrow> wire_protocol" where
  "cache_blob txHandle blobId data p =
     p\<lparr>p_inlineBlobCache := snd (blob_add txHandle blobId data (p_inlineBlobCache p))\<rparr>"

text \<open>One packet after its opcode, and the next opcode.\<close>

definition inline_step :: "int32 wm" where
  "inline_step = wbind parseInlineBlobPayload (\<lambda>(txHandle, blobId, data).
     wbind (wupd (cache_blob txHandle blobId data)) (\<lambda>_. recv_int))"

lemma reads_recv_counted [simp]: "reads (recv_counted m)"
  unfolding recv_counted_def Let_def by (auto intro!: reads_bind)

lemma reads_inline_payload [simp]: "reads parseInlineBlobPayload"
  unfolding parseInlineBlobPayload_def by (auto intro!: reads_bind)

lemma inline_step_less:
  assumes "inline_step p = (Inr w, q)"
  shows "length (p_inbound q) < length (p_inbound p)"
proof -
  obtain tx bid data p1 where 1: "parseInlineBlobPayload p = (Inr (tx, bid, data), p1)"
    "recv_int (cache_blob tx bid data p1) = (Inr w, q)"
    using assms unfolding inline_step_def by (elim wbind_InrE) (auto elim!: wbind_InrE)
  have "length (p_inbound p1) \<le> length (p_inbound p)" using reads_le [OF reads_inline_payload, of p] 1(1) by simp
  moreover have "p_inbound (cache_blob tx bid data p1) = p_inbound p1" by (simp add: cache_blob_def)
  ultimately show ?thesis using recv_int_less [OF 1(2)] by simp
qed

function consumeInlineBlobsStarting :: "int32 \<Rightarrow> int32 wm" where
  "consumeInlineBlobsStarting w p =
     (if w = op_inline_blob then
        (case inline_step p of (Inl e, q) \<Rightarrow> (Inl e, q) | (Inr w, q) \<Rightarrow> consumeInlineBlobsStarting w q)
      else (Inr w, p))"
  by pat_completeness auto
termination
  by (relation "measure (\<lambda>(w, p). length (p_inbound p))") (auto dest!: sym [of _ "inline_step _"] inline_step_less)

declare consumeInlineBlobsStarting.simps [simp del]

definition clearInlineBlobCache :: "int32 \<Rightarrow> wire_protocol \<Rightarrow> wire_protocol" where
  "clearInlineBlobCache txHandle p = p\<lparr>p_inlineBlobCache := clearTx txHandle (p_inlineBlobCache p)\<rparr>"

definition clearAllInlineBlobCache :: "wire_protocol \<Rightarrow> wire_protocol" where
  "clearAllInlineBlobCache p = p\<lparr>p_inlineBlobCache := clearAll (p_inlineBlobCache p)\<rparr>"

subsection \<open>One row\<close>

definition recv_column :: "xsqlvar \<Rightarrow> bytes wm" where
  "recv_column x =
     wbind (if ioLength x < 0 then wbind recv_int (\<lambda>w. wret (sint w)) else wret (ioLength x)) (\<lambda>ln.
     if ln < 0 \<or> ln > maxWirePayload
     then werr (Wrapped ''firebirdsql: column data length %d out of range: %w'' (BadConn ''driver: bad connection''))
     else recvPacketsAlignment ln)"

definition wire_value :: "time_env \<Rightarrow> xsqlvar \<Rightarrow> bytes \<Rightarrow> go_value wm" where
  "wire_value te x raw p = (column_value (p_env p) te (p_timezone p) (p_charset p) x raw, p)"

text \<open>Before protocol 13 every column is followed by its null flag.\<close>

primrec row_flags :: "time_env \<Rightarrow> xsqlvar list \<Rightarrow> go_value list wm" where
  "row_flags te [] = wret []"
| "row_flags te (x # xs) =
     wbind (recv_column x) (\<lambda>raw. wbind recv_int (\<lambda>nullFlag.
     wbind (if nullFlag = 0 then wire_value te x raw else wret VNil) (\<lambda>v.
     wbind (row_flags te xs) (\<lambda>vs. wret (v # vs)))))"

text \<open>From protocol 13 on a null bitmap comes first.\<close>

primrec row_bitmap :: "time_env \<Rightarrow> bytes \<Rightarrow> nat \<Rightarrow> xsqlvar list \<Rightarrow> go_value list wm" where
  "row_bitmap te nullBytes i [] = wret []"
| "row_bitmap te nullBytes i (x # xs) =
     wbind (wlift (go_index nullBytes (int (i div 8)))) (\<lambda>b.
     wbind (if b AND push_bit (i mod 8) 1 \<noteq> 0 then wret VNil
            else wbind (recv_column x) (wire_value te x)) (\<lambda>v.
     wbind (row_bitmap te nullBytes (Suc i) xs) (\<lambda>vs. wret (v # vs))))"

definition readRow :: "time_env \<Rightarrow> xsqlvar list \<Rightarrow> go_value list wm" where
  "readRow te xsqlda p =
     (if p_protocolVersion p < PROTOCOL_VERSION13 then row_flags te xsqlda p
      else wbind (recvPacketsAlignment ((int (length xsqlda) + 7) sdiv 8)) (\<lambda>nullBytes.
           row_bitmap te nullBytes 0 xsqlda) p)"

lemma reads_recv_column [simp]: "reads (recv_column x)"
  unfolding recv_column_def by (auto intro!: reads_bind)

lemma reads_wire_value [simp]: "reads (wire_value te x raw)"
  by (rule reads_keep) (simp add: wire_value_def)

lemma reads_row [simp]: "reads (row_flags te xs)" "reads (row_bitmap te nb i xs)"
  by (induction xs arbitrary: i) (auto intro!: reads_bind)

lemma reads_readRow [simp]: "reads (readRow te xs)"
proof -
  have "reads (\<lambda>p. wbind (recvPacketsAlignment n) (\<lambda>nb. row_bitmap te nb 0 xs) p)" for n
    by (intro reads_bind) simp_all
  then show ?thesis using reads_row(1) [of te xs] unfolding reads_def readRow_def by auto
qed

subsection \<open>A batch of rows\<close>

definition fetch_failed :: "int32 \<Rightarrow> string \<Rightarrow> 'a wm" where
  "fetch_failed w other =
     (if w = op_response then wbind parse_op_response (\<lambda>(h, oid, b, err).
        case err of Some e \<Rightarrow> werr e | None \<Rightarrow> werr (Plain ''opFetchResponse:Internal Error''))
      else werr (Plain other))"

text \<open>A row, and then the header of the next one: its status and its count.\<close>

definition fetch_step :: "time_env \<Rightarrow> xsqlvar list \<Rightarrow> (go_value list \<times> int32 \<times> int) wm" where
  "fetch_step te xsqlda =
     wbind (readRow te xsqlda) (\<lambda>r.
     wbind recv_int (\<lambda>w. wbind (consumeInlineBlobsStarting w) (\<lambda>nextOp.
     if nextOp \<noteq> op_fetch_response then fetch_failed nextOp ''opFetchResponse: unexpected op %d''
     else wbind recv_int (\<lambda>status. wbind recv_int (\<lambda>count. wret (r, status, sint count))))))"

lemma consume_le: "length (p_inbound (snd (consumeInlineBlobsStarting w p))) \<le> length (p_inbound p)"
proof (induction w p rule: consumeInlineBlobsStarting.induct)
  case (1 w p)
  obtain r q where s: "inline_step p = (r, q)" by fastforce
  show ?case
  proof (cases "w = op_inline_blob")
    case True
    show ?thesis
    proof (cases r)
      case (Inl e)
      have "length (p_inbound q) \<le> length (p_inbound p)"
      proof -
        obtain u p1 where u: "parseInlineBlobPayload p = (u, p1)" by fastforce
        have le: "length (p_inbound p1) \<le> length (p_inbound p)" using reads_le [OF reads_inline_payload, of p] u by simp
        show ?thesis
        proof (cases u)
          case (Inr y)
          obtain tx bid data where y: "y = (tx, bid, data)" by (cases y) auto
          have "recv_int (cache_blob tx bid data p1) = (r, q)" using s u Inr y by (simp add: inline_step_def wbind_def)
          then show ?thesis using le reads_le [OF reads_recv_int(1), of "cache_blob tx bid data p1"] by (simp add: cache_blob_def)
        qed (use s u le in \<open>simp add: inline_step_def wbind_def\<close>)
      qed
      then show ?thesis using s Inl by (subst consumeInlineBlobsStarting.simps) simp
    next
      case (Inr w')
      then show ?thesis using 1 [OF True s [symmetric] Inr] inline_step_less [of p w' q] s True
        by (subst consumeInlineBlobsStarting.simps) simp
    qed
  qed (subst consumeInlineBlobsStarting.simps; simp)
qed

lemma fetch_step_less:
  assumes "fetch_step te xs p = (Inr (r, st, c), q)"
  shows "length (p_inbound q) < length (p_inbound p)"
proof -
  obtain p1 w p2 nw p3 st' p4 c' where 1: "readRow te xs p = (Inr r, p1)" "recv_int p1 = (Inr w, p2)"
    "consumeInlineBlobsStarting w p2 = (Inr nw, p3)" "recv_int p3 = (Inr st', p4)" "recv_int p4 = (Inr c', q)"
    using assms unfolding fetch_step_def fetch_failed_def
    by (elim wbind_InrE) (auto split: if_splits option.splits elim!: wbind_InrE)
  have "length (p_inbound p1) \<le> length (p_inbound p)" using reads_le [OF reads_readRow, of te xs p] 1(1) by simp
  moreover have "length (p_inbound p3) \<le> length (p_inbound p2)" using consume_le [of w p2] 1(3) by simp
  ultimately show ?thesis
    using recv_int_less [OF 1(2)] recv_int_less [OF 1(4)] recv_int_less [OF 1(5)] by simp
qed

function fetch_rows :: "time_env \<Rightarrow> xsqlvar list \<Rightarrow> int32 \<Rightarrow> int \<Rightarrow> (go_value list list \<times> int32) wm" where
  "fetch_rows te xsqlda status count p =
     (if count > 0 then
        (case fetch_step te xsqlda p of
           (Inl e, q) \<Rightarrow> (Inl e, q)
         | (Inr (r, status, count), q) \<Rightarrow> 
             (case fetch_rows te xsqlda status count q of
                (Inl e, q) \<Rightarrow> (Inl e, q)
              | (Inr (rs, st), q) \<Rightarrow> (Inr (r # rs, st), q)))
      else (Inr ([], status), p))"
  by pat_completeness auto
termination
  by (relation "measure (\<lambda>(te, xs, st, c, p). length (p_inbound p))")
    (auto dest!: sym [of _ "fetch_step _ _ _"] fetch_step_less)

declare fetch_rows.simps [simp del]

definition fetch_op :: "time_env \<Rightarrow> xsqlvar list \<Rightarrow> int32 \<Rightarrow> (go_value list list \<times> bool) wm" where
  "fetch_op te xsqlda w =
     (if w \<noteq> op_fetch_response then fetch_failed w ''opFetchResponse:Internal Error''
      else wbind recv_int (\<lambda>status. wbind recv_int (\<lambda>c. let count = sint c in
        if count < 0 then werr (Wrapped ''firebirdsql: fetch response row count %d out of range: %w'' (BadConn ''driver: bad connection''))
        else wbind (fetch_rows te xsqlda status count) (\<lambda>(rows, status). wret (rows, status \<noteq> 100)))))"

definition opFetchResponse :: "time_env \<Rightarrow> xsqlvar list \<Rightarrow> (go_value list list \<times> bool) wm" where
  "opFetchResponse te xsqlda =
     wbind (wtry recv_int) (\<lambda>r. case r of
       Inl e \<Rightarrow> werr (Wrapped ''firebirdsql: reading fetch response header: %w'' (BadConn ''driver: bad connection''))
     | Inr w \<Rightarrow>
        wbind (skip_dummy w) (\<lambda>w. wbind (skip_lazy w) (\<lambda>w.
        wbind (consumeInlineBlobsStarting w) (fetch_op te xsqlda))))"

subsection \<open>The segments of a blob\<close>

function split_segments :: "bytes \<Rightarrow> bytes res" where
  "split_segments buf =
     (if buf = [] then Inr []
      else if length buf < 2 then
        Inl (Wrapped ''firebirdsql: BLOB segment header truncated (%d trailing bytes): %w'' (BadConn ''driver: bad connection''))
      else case bytes_to_uint16 (take 2 buf) of
        Inl e \<Rightarrow> Inl e
      | Inr ln \<Rightarrow>
          if ln + 2 > length buf then
            Inl (Wrapped ''firebirdsql: BLOB segment length %d exceeds response (%d bytes left): %w'' (BadConn ''driver: bad connection''))
          else bind_res (split_segments (drop (ln + 2) buf)) (\<lambda>rest. Inr (take ln (drop 2 buf) @ rest)))"
  by pat_completeness auto
termination by (relation "measure length") auto

declare split_segments.simps [simp del]

text \<open>One \<open>op_get_segment\<close>, whose send error is dropped, and what its answer adds to the blob.\<close>

definition segment_step :: "int32 \<Rightarrow> (int32 \<times> bytes) wm" where
  "segment_step blobHandle =
     wbind (wtry (opGetSegment blobHandle)) (\<lambda>_.
     wbind opResponse (\<lambda>(more_data, oid, rbuf).
     wbind (wlift (split_segments rbuf)) (\<lambda>seg. wret (more_data, seg))))"

lemma segment_step_less:
  assumes "segment_step h p = (Inr x, q)"
  shows "length (p_inbound q) < length (p_inbound p)"
proof -
  obtain u p1 v p2 where 1: "wtry (opGetSegment h) p = (Inr u, p1)" "opResponse p1 = (Inr v, p2)" "q = p2"
    using assms unfolding segment_step_def by (elim wbind_InrE) (auto elim!: wbind_InrE)
  have k: "inbound.keeps (wtry (opGetSegment h))" by (simp add: opGetSegment_def)
  show ?thesis using inbound.keepsD [OF k 1(1)] opResponse_less [OF 1(2)] 1(3) by simp
qed

function segment_loop :: "int32 \<Rightarrow> int32 \<Rightarrow> bytes wm" where
  "segment_loop blobHandle more_data p =
     (if more_data \<noteq> 2 then
        (case segment_step blobHandle p of
           (Inl e, q) \<Rightarrow> (Inl e, q)
         | (Inr (more_data, seg), q) \<Rightarrow>
             (case segment_loop blobHandle more_data q of
                (Inl e, q) \<Rightarrow> (Inl e, q)
              | (Inr blob, q) \<Rightarrow> (Inr (seg @ blob), q)))
      else (Inr [], p))"
  by pat_completeness auto
termination
  by (relation "measure (\<lambda>(h, m, p). length (p_inbound p))")
    (auto dest!: sym [of _ "segment_step _ _"] segment_step_less)

declare segment_loop.simps [simp del]

definition close_blob :: "int32 \<Rightarrow> unit wm" where
  "close_blob blobHandle =
     wbind (wtry (opCloseBlob blobHandle)) (\<lambda>_. \<lambda>p.
     if p_acceptType p AND ptype_MASK = ptype_lazy_send
     then (Inr (), p\<lparr>p_lazyResponseCount := p_lazyResponseCount p + 1\<rparr>)
     else wbind opResponse (\<lambda>_. wret ()) p)"

definition fetch_segments :: "bytes \<Rightarrow> int32 \<Rightarrow> bytes wm" where
  "fetch_segments blobId transHandle =
     wbind (wtry (opOpenBlob2 blobId transHandle)) (\<lambda>_.
     wbind opResponse (\<lambda>(blobHandle, oid, buf).
     wbind (segment_loop blobHandle 1) (\<lambda>blob.
     wbind (close_blob blobHandle) (\<lambda>_. wret blob))))"

text \<open>The pending packet is set aside for the exchange and put back on every path.\<close>

definition getBlobSegments :: "bytes \<Rightarrow> int32 \<Rightarrow> bytes wm" where
  "getBlobSegments blobId transHandle p =
     (case (case blobIdToInt64 blobId of
              Inr i \<Rightarrow> getAndRemove transHandle i (p_inlineBlobCache p)
            | Inl e \<Rightarrow> (None, p_inlineBlobCache p)) of
        (Some data, cache) \<Rightarrow> (Inr data, p\<lparr>p_inlineBlobCache := cache\<rparr>)
      | (None, cache) \<Rightarrow>
          (let (r, q) = fetch_segments blobId transHandle (p\<lparr>p_inlineBlobCache := cache, p_buf := []\<rparr>)
           in (r, resumeBuffer (p_buf p) q)))"

end
