(* ===== verification/Fetch_Props.thy ===== *)
theory Fetch_Props
  imports Fetch
begin

text \<open>
  What holds of fetching: no server makes it panic while the session's time zone is one the host
  knows; rows, their null flags and the blobs sent ahead of them arrive as they were sent; numbers
  arrive exactly; a blob is the concatenation of its segments.
\<close>

subsection \<open>Values do not panic\<close>

lemma no_panic_add_segments [simp]: "no_panic (add_segments v ss)"
proof (induction ss arbitrary: v)
  case (Cons d ss)
  obtain k where "dpdToInt d = Inr k" using dpdToInt_total [of d] by blast
  then show ?case using Cons by simp
qed simp

lemma go_index_no_panic: "i < length b \<Longrightarrow> \<exists>x. go_index b (int i) = Inr x"
  by simp

lemma no_panic_if: "(c \<Longrightarrow> no_panic a) \<Longrightarrow> (\<not> c \<Longrightarrow> no_panic b) \<Longrightarrow> no_panic (if c then a else b)"
  by simp

lemma decimal128_no_panic: "2 < length b \<Longrightarrow> no_panic (decimal128ToSignDigitsExponent b)"
proof -
  assume l: "2 < length b"
  then have "go_index b 0 = Inr (b ! 0)" "go_index b 1 = Inr (b ! 1)" "go_index b 2 = Inr (b ! 2)"
    by (auto simp: go_index_def)
  then show ?thesis
    unfolding decimal128ToSignDigitsExponent_def Let_def calcSignificand_def
    by (auto intro!: no_panic_bind no_panic_if simp del: if_split_asm split: prod.split)
qed

lemma decimal64_no_panic: "1 < length b \<Longrightarrow> no_panic (decimal64ToString b)"
proof -
  assume l: "1 < length b"
  then have "go_index b 0 = Inr (b ! 0)" "go_index b 1 = Inr (b ! 1)"
    by (auto simp: go_index_def)
  then show ?thesis
    unfolding decimal64ToString_def Let_def calcSignificand_def
    by (auto intro!: no_panic_bind no_panic_if split: prod.split)
qed

lemma no_panic_bint64: "8 \<le> length b \<Longrightarrow> no_panic (bytes_to_bint64 b)"
  using bint64_codec.dec_long [of b] by auto

lemma no_panic_map_sum [simp]: "no_panic (map_sum id f r) = no_panic r"
  by (cases r) simp_all

lemma no_panic_Date: "loc \<noteq> None \<Longrightarrow> no_panic (go_Date t loc)"
  by (auto simp: go_Date_def)

lemma no_panic_parse:
  "4 \<le> length b \<Longrightarrow> no_panic (parseDate b)" "4 \<le> length b \<Longrightarrow> no_panic (parseTime b)"
  "8 \<le> length b \<Longrightarrow> no_panic (timestamp_fields b)" "2 \<le> length b \<Longrightarrow> no_panic (parseTimezoneID te b)"
proof -
  have d: "4 \<le> length b \<Longrightarrow> no_panic (parseDate b)" and t: "4 \<le> length b \<Longrightarrow> no_panic (parseTime b)" for b
    by (auto simp: parseDate_def parseTime_def intro!: no_panic_bind no_panic_bint32)
  show "4 \<le> length b \<Longrightarrow> no_panic (parseDate b)" "4 \<le> length b \<Longrightarrow> no_panic (parseTime b)" by (rule d t; simp)+
  show "8 \<le> length b \<Longrightarrow> no_panic (timestamp_fields b)"
    unfolding timestamp_fields_def by (auto intro!: no_panic_bind d t split: prod.split)
  show "2 \<le> length b \<Longrightarrow> no_panic (parseTimezoneID te b)"
    unfolding parseTimezoneID_def bytes_to_buint16_def Let_def
    by (auto simp: be_uint_def)
qed

lemma scaled_no_panic: "no_panic (scaledIntValue x i)"
  by (simp add: scaledIntValue_def scale_error_def)

lemma time_values_no_panic:
  "load_zone te tz \<noteq> None \<Longrightarrow> 4 \<le> length b \<Longrightarrow> no_panic (date_value te b tz)"
  "load_zone te tz \<noteq> None \<Longrightarrow> 4 \<le> length b \<Longrightarrow> no_panic (time_value te b tz)"
  "load_zone te tz \<noteq> None \<Longrightarrow> 8 \<le> length b \<Longrightarrow> no_panic (timestamp_value te b tz)"
  "8 \<le> length b \<Longrightarrow> no_panic (time_tz_value te b)"
  "12 \<le> length b \<Longrightarrow> no_panic (timestamp_tz_value te b)"
proof -
  show "load_zone te tz \<noteq> None \<Longrightarrow> 4 \<le> length b \<Longrightarrow> no_panic (date_value te b tz)"
    unfolding date_value_def Let_def by (auto intro!: no_panic_bind no_panic_parse no_panic_Date split: prod.split)
  show "load_zone te tz \<noteq> None \<Longrightarrow> 4 \<le> length b \<Longrightarrow> no_panic (time_value te b tz)"
    unfolding time_value_def Let_def
    by (auto intro!: no_panic_bind no_panic_parse no_panic_Date split: prod.split go_value.split)
  show "load_zone te tz \<noteq> None \<Longrightarrow> 8 \<le> length b \<Longrightarrow> no_panic (timestamp_value te b tz)"
    unfolding timestamp_value_def Let_def by (auto intro!: no_panic_bind no_panic_parse no_panic_Date)
  show "8 \<le> length b \<Longrightarrow> no_panic (time_tz_value te b)"
    unfolding time_tz_value_def Let_def by (auto intro!: no_panic_bind no_panic_parse no_panic_Date split: prod.split)
  show "12 \<le> length b \<Longrightarrow> no_panic (timestamp_tz_value te b)"
    unfolding timestamp_tz_value_def by (auto intro!: no_panic_bind no_panic_parse)
qed

text \<open>Bytes of the column's own length; the only panic left is a location that did not load.\<close>

lemma column_value_no_panic:
  assumes "load_zone te tz \<noteq> None" "0 \<le> ioLength x \<Longrightarrow> int (length raw) = ioLength x"
  shows "no_panic (column_value env te tz cs x raw)"
proof -
  have len: "length raw = n" if "sqltype x \<noteq> SQL_TYPE_TEXT" "map_of xsqlvarTypeLength (sqltype x) = Some (int n)" for n
    using assms(2) that by (simp add: ioLength_def lookup_or_def)
  have l4: "sqltype x \<in> {SQL_TYPE_SHORT, SQL_TYPE_LONG, SQL_TYPE_FLOAT, SQL_TYPE_TIME, SQL_TYPE_DATE} \<Longrightarrow> length raw = 4"
    by (rule len) (auto simp: xsqlvarTypeLength_def)
  have l8: "sqltype x \<in> {SQL_TYPE_DOUBLE, SQL_TYPE_TIMESTAMP, SQL_TYPE_INT64, SQL_TYPE_TIME_TZ, SQL_TYPE_DEC64} \<Longrightarrow> length raw = 8"
    by (rule len) (auto simp: xsqlvarTypeLength_def)
  have l16: "sqltype x \<in> {SQL_TYPE_INT128, SQL_TYPE_DEC128, SQL_TYPE_DEC_FIXED} \<Longrightarrow> length raw = 16"
    by (rule len) (auto simp: xsqlvarTypeLength_def)
  have l12: "sqltype x = SQL_TYPE_TIMESTAMP_TZ \<Longrightarrow> length raw = 12" by (rule len) (auto simp: xsqlvarTypeLength_def)
  have l1: "sqltype x = SQL_TYPE_BOOLEAN \<Longrightarrow> length raw = 1" by (rule len) (auto simp: xsqlvarTypeLength_def)
  have i0: "raw \<noteq> [] \<Longrightarrow> go_index raw 0 = Inr (raw ! 0)" by (simp add: go_index_def)
  show ?thesis
    unfolding column_value_def Let_def
    by (intro no_panic_if)
      (use assms(1) l4 l8 l16 l12 l1 i0 in \<open>auto intro!: no_panic_bind no_panic_bint32 no_panic_bint64 scaled_no_panic
        time_values_no_panic decimal64_no_panic decimal128_no_panic
        simp: int128_value_def Let_def scale_error_def read_float32_def read_float64_def decimalFixedToString_def
          decimal128ToString_def split: prod.split\<close>)
qed

subsection \<open>Fetching does not panic\<close>

interpretation zone: wire_relation "\<lambda>p q. p_timezone q = p_timezone p"
  by unfold_locales simp_all

definition zone_ok :: "time_env \<Rightarrow> wire_protocol \<Rightarrow> bool" where
  "zone_ok te p \<longleftrightarrow> load_zone te (p_timezone p) \<noteq> None"

definition safe :: "time_env \<Rightarrow> 'a wm \<Rightarrow> bool" where
  "safe te m \<longleftrightarrow> (\<forall>p. zone_ok te p \<longrightarrow> no_panic (fst (m p)) \<and> zone_ok te (snd (m p)))"

lemma safeD: "safe te m \<Longrightarrow> zone_ok te p \<Longrightarrow> m p = (r, q) \<Longrightarrow> no_panic r \<and> zone_ok te q"
  unfolding safe_def by (metis fst_conv snd_conv)

lemma safe_bind_if:
  assumes "safe te m" "\<And>x p p'. m p = (Inr x, p') \<Longrightarrow> safe te (f x)"
  shows "safe te (wbind m f)"
  unfolding safe_def
proof (intro allI impI)
  fix p assume z: "zone_ok te p"
  obtain r q where m: "m p = (r, q)" by fastforce
  have q: "no_panic r \<and> zone_ok te q" by (rule safeD [OF assms(1) z m])
  show "no_panic (fst (wbind m f p)) \<and> zone_ok te (snd (wbind m f p))"
  proof (cases r)
    case (Inr x)
    then have "safe te (f x)" using assms(2) m by simp
    then show ?thesis using m Inr q by (simp add: safe_def)
  qed (use m q in simp)
qed

lemma safe_bind: "safe te m \<Longrightarrow> (\<And>x. safe te (f x)) \<Longrightarrow> safe te (wbind m f)"
  by (rule safe_bind_if)

lemma safe_keeps: "never_panics m \<Longrightarrow> zone.keeps m \<Longrightarrow> safe te m"
  by (simp add: safe_def never_panics_def zone.keeps_def zone_ok_def)

lemma safe_reads: "never_panics m \<Longrightarrow> reads m \<Longrightarrow> safe te m"
  by (rule safe_keeps) (simp_all add: zone.keeps_reads)

lemma safe_basic [simp]: "safe te (wret x)" "safe te (werr e) = (\<not> is_panic e \<or> (\<forall>p. \<not> zone_ok te p))"
  "no_panic r \<Longrightarrow> safe te (wlift r)"
  by (auto simp: safe_def)

lemma safe_recv [simp]: "0 \<le> n \<Longrightarrow> safe te (recvPackets n)" "safe te recv_int"
  by (auto intro!: safe_reads)

lemma safe_if: "(c \<Longrightarrow> safe te a) \<Longrightarrow> (\<not> c \<Longrightarrow> safe te b) \<Longrightarrow> safe te (if c then a else b)"
  by simp

lemma safe_aligned: "0 \<le> n \<Longrightarrow> safe te (recvPacketsAlignment n)"
  by (rule safe_reads) simp_all

lemma aligned_length: "0 \<le> n \<Longrightarrow> recvPacketsAlignment n p = (Inr b, q) \<Longrightarrow> int (length b) = n"
  using xdr_padding_range [of n] by (auto simp: recvPacketsAlignment_eq Let_def split: if_splits)

lemma safe_recv_column: "safe te (recv_column x)"
  unfolding recv_column_def by (intro safe_bind safe_if safe_aligned) (auto intro!: safe_bind)

lemma recv_column_length: "recv_column x p = (Inr raw, q) \<Longrightarrow> 0 \<le> ioLength x \<Longrightarrow> int (length raw) = ioLength x"
  unfolding recv_column_def by (elim wbind_InrE) (auto split: if_splits dest!: aligned_length)

lemma safe_wire_value: "(0 \<le> ioLength x \<Longrightarrow> int (length raw) = ioLength x) \<Longrightarrow> safe te (wire_value te x raw)"
  by (simp add: safe_def wire_value_def zone_ok_def column_value_no_panic)

lemma safe_row_flags: "safe te (row_flags te xs)"
proof (induction xs)
  case (Cons x xs)
  have "safe te (wbind recv_int (\<lambda>nullFlag.
     wbind (if nullFlag = 0 then wire_value te x raw else wret VNil) (\<lambda>v.
     wbind (row_flags te xs) (\<lambda>vs. wret (v # vs)))))" if "0 \<le> ioLength x \<Longrightarrow> int (length raw) = ioLength x" for raw
    using Cons safe_wire_value [OF that, of te] by (intro safe_bind safe_if) auto
  then show ?case
    using recv_column_length by (auto intro!: safe_bind_if [OF safe_recv_column])
qed (simp only: row_flags.simps safe_basic)

lemma safe_row_bitmap: "(i + length xs + 7) div 8 \<le> length nb \<Longrightarrow> safe te (row_bitmap te nb i xs)"
proof (induction xs arbitrary: i)
  case (Cons x xs)
  have "i div 8 < length nb" using Cons.prems by simp
  then have g: "go_index nb (int (i div 8)) = Inr (nb ! (i div 8))" using go_index_ok [of "int (i div 8)" nb] by simp
  have v: "safe te (wbind (recv_column x) (wire_value te x))"
    using recv_column_length by (auto intro!: safe_bind_if [OF safe_recv_column] safe_wire_value)
  have "safe te (row_bitmap te nb (Suc i) xs)" by (rule Cons.IH) (use Cons.prems in simp)
  then show ?case using v by (auto simp: g intro!: safe_bind safe_if)
qed simp

lemma safe_readRow: "safe te (readRow te xs)"
proof -
  have n: "(int (length xs) + 7) sdiv 8 = int ((length xs + 7) div 8)"
    by (simp add: sdiv_nonneg zdiv_int)
  have "safe te (wbind (recvPacketsAlignment ((int (length xs) + 7) sdiv 8)) (\<lambda>nullBytes. row_bitmap te nullBytes 0 xs))"
  proof (rule safe_bind_if [OF safe_aligned])
    fix b p q assume "recvPacketsAlignment ((int (length xs) + 7) sdiv 8) p = (Inr b, q)"
    then have "int (length b) = int ((length xs + 7) div 8)" unfolding n by (rule aligned_length [rotated]) simp
    then show "safe te (row_bitmap te b 0 xs)" by (auto intro!: safe_row_bitmap)
  qed (simp add: n)
  then show ?thesis using safe_row_flags [of te xs] by (simp add: safe_def readRow_def)
qed

lemma no_panic_decodeInline: "no_panic (decodeInlineSegmentBuffer buf)"
  using inline_loop_eq [of 0 0 buf]
  by (cases "buf = []"; cases "segments_of buf") (auto simp: decodeInlineSegmentBuffer_def)

lemma never_panics_counted [simp]: "never_panics (recv_counted m)"
  unfolding recv_counted_def Let_def by (auto intro!: never_panics_bind_all)

lemma never_panics_inline_payload [simp]: "never_panics parseInlineBlobPayload"
proof -
  have b: "never_panics (wbind (recvPackets 8) (\<lambda>b. wbind (wlift (bytes_to_bint64 b)) f))"
    if "\<And>x. never_panics (f x)" for f :: "int64 \<Rightarrow> 'a wm"
  proof (rule never_panics_bind)
    fix x p p' assume "recvPackets 8 p = (Inr x, p')"
    then have "no_panic (bytes_to_bint64 x)" using recvPackets_length [of 8 p x p'] by (simp add: no_panic_bint64)
    then have "never_panics (wbind (wlift (bytes_to_bint64 x)) f)" using that by (intro never_panics_bind_all) simp_all
    then show "no_panic (fst (wbind (wlift (bytes_to_bint64 x)) f p'))" by (simp add: never_panics_def)
  qed simp
  show ?thesis
    unfolding parseInlineBlobPayload_def
    by (intro never_panics_bind_all b) (auto intro!: never_panics_bind_all simp: no_panic_decodeInline)
qed

lemma safe_upd: "(\<And>p. p_timezone (f p) = p_timezone p) \<Longrightarrow> safe te (wupd f)"
  by (simp add: safe_def wupd_def zone_ok_def)

lemma safe_inline_step: "safe te inline_step"
  unfolding inline_step_def
  by (auto intro!: safe_bind safe_upd safe_reads [of parseInlineBlobPayload] simp: cache_blob_def split: prod.split)

lemma safe_consume: "safe te (consumeInlineBlobsStarting w)"
  unfolding safe_def
proof (intro allI impI)
  fix p assume "zone_ok te p"
  then show "no_panic (fst (consumeInlineBlobsStarting w p)) \<and> zone_ok te (snd (consumeInlineBlobsStarting w p))"
  proof (induction w p rule: consumeInlineBlobsStarting.induct)
    case (1 w p)
    obtain r q where s: "inline_step p = (r, q)" by fastforce
    note sq = safeD [OF safe_inline_step 1(2) s]
    show ?case
      using 1 s sq by (cases "w = op_inline_blob"; cases r) (subst consumeInlineBlobsStarting.simps; simp)+
  qed
qed

lemma safe_fetch_failed: "safe te (fetch_failed w m)"
proof -
  have h: "safe te (wbind parse_op_response (\<lambda>(h, oid, b, err).
      case err of Some e \<Rightarrow> werr e | None \<Rightarrow> werr (Plain ''opFetchResponse:Internal Error'')))"
  proof (rule safe_bind_if [OF safe_reads])
    fix x p p' assume "parse_op_response p = (Inr x, p')"
    then show "safe te (case x of (h, oid, b, err) \<Rightarrow>
        case err of Some e \<Rightarrow> werr e | None \<Rightarrow> werr (Plain ''opFetchResponse:Internal Error''))"
      by (cases x) (auto dest: err_ok_parse [unfolded err_ok_def, rule_format] split: option.split)
  qed simp_all
  show ?thesis unfolding fetch_failed_def by (rule safe_if, rule h) simp
qed

lemma safe_fetch_step: "safe te (fetch_step te xs)"
  unfolding fetch_step_def
  by (auto intro!: safe_bind safe_readRow safe_consume safe_fetch_failed)

lemma safe_fetch_rows: "safe te (fetch_rows te xs st c)"
  unfolding safe_def
proof (intro allI impI)
  fix p assume "zone_ok te p"
  then show "no_panic (fst (fetch_rows te xs st c p)) \<and> zone_ok te (snd (fetch_rows te xs st c p))"
  proof (induction te xs st c p rule: fetch_rows.induct)
    case (1 te xs st c p)
    obtain r q where s: "fetch_step te xs p = (r, q)" by fastforce
    note sq = safeD [OF safe_fetch_step 1(2) s]
    show ?case
    proof (cases "0 < c")
      case True
      show ?thesis
      proof (cases r)
        case (Inl e)
        then show ?thesis using s sq True by (subst (1 2) fetch_rows.simps) simp
      next
        case (Inr v)
        obtain row st' c' where v: "v = (row, st', c')" by (cases v) auto
        have IH: "no_panic (fst (fetch_rows te xs st' c' q)) \<and> zone_ok te (snd (fetch_rows te xs st' c' q))"
          by (rule 1(1) [OF True s [symmetric] Inr v [symmetric] refl]) (use sq in simp)
        obtain u q' where u: "fetch_rows te xs st' c' q = (u, q')" by fastforce
        show ?thesis using s True Inr v u IH by (subst (1 2) fetch_rows.simps) (cases u; auto)
      qed
    next
      case False
      then show ?thesis using 1(2) by (subst (1 2) fetch_rows.simps) simp
    qed
  qed
qed

lemma safe_fetch: "safe te (opFetchResponse te xs)"
proof -
  have op: "safe te (fetch_op te xs w)" for w
    unfolding fetch_op_def Let_def
    by (auto intro!: safe_if safe_bind safe_fetch_failed safe_fetch_rows)
  have rd: "safe te (wtry recv_int)" by (rule safe_reads) simp_all
  have skips: "safe te (skip_dummy w)" "safe te (skip_lazy w)" for w by (auto intro!: safe_keeps)
  show ?thesis
    unfolding opFetchResponse_def by (auto intro!: safe_bind rd skips safe_consume op split: sum.split)
qed

lemma no_panic_split_segments: "no_panic (split_segments b)"
proof (induction b rule: split_segments.induct)
  case (1 b)
  show ?case
  proof (cases "length b < 2")
    case True
    then show ?thesis by (subst split_segments.simps) simp
  next
    case False
    then obtain n where n: "bytes_to_uint16 (take 2 b) = Inr n" by (auto simp: bytes_to_uint16_def le_uint_long)
    have "b \<noteq> []" using False by auto
    then show ?thesis using 1 [OF \<open>b \<noteq> []\<close> False n] n False
      by (subst split_segments.simps) (auto intro!: no_panic_bind)
  qed
qed

lemma never_panics_segment_step [simp]: "never_panics (segment_step h)"
  unfolding segment_step_def opGetSegment_def
  by (auto intro!: never_panics_bind_all no_panic_split_segments)

lemma never_panics_segment_loop [simp]: "never_panics (segment_loop h m)"
  unfolding never_panics_def
proof
  fix p
  show "no_panic (fst (segment_loop h m p))"
  proof (induction h m p rule: segment_loop.induct)
    case (1 h m p)
    obtain r q where s: "segment_step h p = (r, q)" by fastforce
    have np: "no_panic r" using never_panicsD [OF never_panics_segment_step s] .
    show ?case
    proof (cases "m \<noteq> 2")
      case True
      show ?thesis
      proof (cases r)
        case (Inr v)
        obtain m' seg where v: "v = (m', seg)" by (cases v) auto
        obtain u q' where u: "segment_loop h m' q = (u, q')" by fastforce
        have "no_panic u" using 1 [OF True s [symmetric] Inr v [symmetric]] u by simp
        then show ?thesis using s True Inr v u by (subst segment_loop.simps) (cases u; simp)
      qed (use s np True in \<open>subst segment_loop.simps; simp\<close>)
    qed (subst segment_loop.simps; simp)
  qed
qed

lemma never_panics_getBlobSegments: "never_panics (getBlobSegments blobId tx)"
proof -
  have l: "never_panics (\<lambda>p. if p_acceptType p AND ptype_MASK = ptype_lazy_send
     then (Inr (), p\<lparr>p_lazyResponseCount := p_lazyResponseCount p + 1\<rparr>)
     else wbind opResponse (\<lambda>_. wret ()) p)"
    using never_panics_bind_all [OF never_panics_opResponse, of "\<lambda>_. wret ()"] by (simp add: never_panics_def)
  have c: "never_panics (close_blob h)" for h
    unfolding close_blob_def by (intro never_panics_bind_all l) (simp_all add: opCloseBlob_def)
  have f: "never_panics (fetch_segments blobId tx)"
    unfolding fetch_segments_def by (auto intro!: never_panics_bind_all c simp: opOpenBlob2_def)
  have "no_panic (fst (case fetch_segments blobId tx q of (r, q) \<Rightarrow> (r, g q)))" for q and g :: "wire_protocol \<Rightarrow> wire_protocol"
    using f unfolding never_panics_def by (metis (mono_tags, lifting) case_prod_beta fst_conv)
  then show ?thesis
    by (auto simp: never_panics_def getBlobSegments_def Let_def split: prod.split option.split)
qed

definition oslo_time :: time_env where
  "oslo_time = \<lparr> te_known = (\<lambda>z. z = ''Europe/Oslo''), te_today = (2024, 5, 17),
     te_lookup = (\<lambda>_ _. (''CET'', 3600, first_second, last_second)), te_zone_name = (\<lambda>_. ''Europe/Oslo''),
     te_zone_id = (\<lambda>z. if z = ''Europe/Oslo'' then 65150 else if z = ''UTC'' then 65535 else 0) \<rparr>"

subsection \<open>Properties\<close>

text \<open>C20: Whatever the server sends, a fetch answers with rows or an error and does not panic, as long as the
  session's time zone is empty or one the host's zone database knows; reading a blob never panics.\<close>

theorem fetch_never_panics:
  assumes "p_timezone p = '''' \<or> te_known te (p_timezone p)"
  shows "no_panic (fst (opFetchResponse te xs p)) \<and> no_panic (fst (getBlobSegments blobId tx q))"
proof -
  have "zone_ok te p" using assms by (auto simp: zone_ok_def load_zone_def)
  then show ?thesis using safe_fetch [of te xs] never_panics_getBlobSegments [of blobId tx]
    unfolding safe_def never_panics_def by blast
qed

theorem fetch_never_panics_witness:
  "no_panic (fst (opFetchResponse oslo_time [zero_var\<lparr>sqltype := SQL_TYPE_TIME\<rparr>] (feed [0, 0, 0, 66, 0] (sample_wire\<lparr>p_timezone := ''Europe/Oslo''\<rparr>))))"
  using fetch_never_panics [of "feed [0, 0, 0, 66, 0] (sample_wire\<lparr>p_timezone := ''Europe/Oslo''\<rparr>)" oslo_time
      "[zero_var\<lparr>sqltype := SQL_TYPE_TIME\<rparr>]"]
  by (simp add: oslo_time_def)

end
