(* ===== verification/Fetch_Trip.thy ===== *)
theory Fetch_Trip
  imports Fetch_Props
begin

text \<open>
  Fetching, end to end: what a server writes for a batch of rows, blobs sent ahead of them
  included, and what the driver makes of it.
\<close>

subsection \<open>Columns and rows on the wire\<close>

text \<open>A cell is the bytes of a column and whether it is null.\<close>

type_synonym cell = "bytes \<times> bool"

definition raw_fits :: "xsqlvar \<Rightarrow> bytes \<Rightarrow> bool" where
  "raw_fits x raw \<longleftrightarrow> length raw \<le> maxWirePayload \<and> (0 \<le> ioLength x \<longrightarrow> int (length raw) = ioLength x)"

definition cell_bytes :: "xsqlvar \<Rightarrow> bytes \<Rightarrow> bytes" where
  "cell_bytes x raw = (if ioLength x < 0 then xdrBytes raw else xdr_pad raw)"

lemma recv_column_enc [simp]:
  assumes "raw_fits x raw"
  shows "recv_column x (feed (cell_bytes x raw @ rest) p) = (Inr raw, feed rest p)"
proof -
  have l: "length raw < 2 ^ 31" using assms by (simp add: raw_fits_def)
  show ?thesis
    using assms unfolding raw_fits_def recv_column_def cell_bytes_def xdrBytes_counted [OF l]
    by (cases "ioLength x < 0") (simp_all add: sint_length32 [OF l] Let_def del: of_int_of_nat_eq)
qed

text \<open>The null bitmap: bit \<open>i mod 8\<close> of byte \<open>i div 8\<close> is set for a null column \<open>i\<close>.\<close>

definition null_bitmap :: "bool list \<Rightarrow> bytes" where
  "null_bitmap ns = map (\<lambda>j. horner_sum of_bool 2 (take 8 (drop (8 * j) ns))) [0 ..< (length ns + 7) div 8]"

lemma null_bitmap_bit:
  assumes "i < length ns"
  shows "go_index (null_bitmap ns) (int (i div 8)) = Inr (null_bitmap ns ! (i div 8))"
    and "null_bitmap ns ! (i div 8) AND push_bit (i mod 8) 1 \<noteq> 0 \<longleftrightarrow> ns ! i"
proof -
  define k m where "k = i div 8" and "m = i mod 8"
  have i: "i = 8 * k + m" and m: "m < 8" by (simp_all add: k_def m_def)
  have j: "k < (length ns + 7) div 8" using assms by (simp add: i)
  show "go_index (null_bitmap ns) (int (i div 8)) = Inr (null_bitmap ns ! (i div 8))"
    using j by (simp add: null_bitmap_def k_def)
  have "m < length (take 8 (drop (8 * k) ns))" using assms m by (simp add: i)
  then have "bit (null_bitmap ns ! k) m \<longleftrightarrow> take 8 (drop (8 * k) ns) ! m"
    using j m by (simp add: null_bitmap_def bit_horner_sum_bit_word_iff)
  also have "take 8 (drop (8 * k) ns) ! m = ns ! i" using assms m by (simp add: i)
  finally show "null_bitmap ns ! (i div 8) AND push_bit (i mod 8) 1 \<noteq> 0 \<longleftrightarrow> ns ! i"
    by (simp add: bit_iff_and_push_bit_not_eq_0 k_def m_def)
qed

fun cells_bitmap :: "xsqlvar list \<Rightarrow> cell list \<Rightarrow> bytes" where
  "cells_bitmap (x # xs) ((raw, null) # cs) = (if null then [] else cell_bytes x raw) @ cells_bitmap xs cs"
| "cells_bitmap _ _ = []"

fun cells_flags :: "xsqlvar list \<Rightarrow> cell list \<Rightarrow> bytes" where
  "cells_flags (x # xs) ((raw, null) # cs) =
     cell_bytes x raw @ bint32_to_bytes (if null then -1 else 0) @ cells_flags xs cs"
| "cells_flags _ _ = []"

definition row_bytes :: "int \<Rightarrow> xsqlvar list \<Rightarrow> cell list \<Rightarrow> bytes" where
  "row_bytes version xs cs =
     (if version < PROTOCOL_VERSION13 then cells_flags xs cs
      else xdr_pad (null_bitmap (map snd cs)) @ cells_bitmap xs cs)"

text \<open>The values of a row: null, or what \<open>xSQLVAR.value\<close> makes of the bytes.\<close>

fun row_means :: "time_env \<Rightarrow> wire_protocol \<Rightarrow> xsqlvar list \<Rightarrow> cell list \<Rightarrow> go_value list \<Rightarrow> bool" where
  "row_means te p [] [] [] = True"
| "row_means te p (x # xs) ((raw, null) # cs) (v # vs) =
     (raw_fits x raw \<and>
      (if null then v = VNil else column_value (p_env p) te (p_timezone p) (p_charset p) x raw = Inr v) \<and>
      row_means te p xs cs vs)"
| "row_means te p _ _ _ = False"

lemma row_means_same:
  assumes "p_env q = p_env p" "p_timezone q = p_timezone p" "p_charset q = p_charset p"
  shows "row_means te q = row_means te p"
proof -
  have "row_means te q xs cs vs = row_means te p xs cs vs" for xs cs vs
    using assms by (induction te p xs cs vs rule: row_means.induct) simp_all
  then show ?thesis by blast
qed

lemma row_means_cong [simp]: "row_means te (feed b p) = row_means te p"
  by (rule row_means_same) simp_all

lemma row_means_lengths: "row_means te p xs cs vs \<Longrightarrow> length cs = length xs \<and> length vs = length xs"
  by (induction te p xs cs vs rule: row_means.induct) (auto split: if_splits)

lemma wire_value_enc: "column_value (p_env p) te (p_timezone p) (p_charset p) x raw = Inr v \<Longrightarrow>
  wire_value te x raw (feed b p) = (Inr v, feed b p)"
  by (simp add: wire_value_def)

lemma row_flags_enc:
  "row_means te p xs cs vs \<Longrightarrow> row_flags te xs (feed (cells_flags xs cs @ rest) p) = (Inr vs, feed rest p)"
  by (induction te p xs cs vs rule: row_means.induct) (auto simp: wbind_def wire_value_enc split: if_splits)

lemma row_bitmap_enc:
  "row_means te p xs cs vs \<Longrightarrow> drop i all = cs \<Longrightarrow> i + length cs = length all \<Longrightarrow>
   row_bitmap te (null_bitmap (map snd all)) i xs (feed (cells_bitmap xs cs @ rest) p) = (Inr vs, feed rest p)"
proof (induction te p xs cs vs arbitrary: i rule: row_means.induct)
  case (2 te p x xs raw null cs v vs)
  have i: "i < length (map snd all)" using 2(4) by simp
  have "all ! i = (raw, null)" using 2(3) i hd_drop_conv_nth [of i all] by simp
  then have n: "map snd all ! i = null" using i by simp
  note b = null_bitmap_bit [OF i, unfolded n]
  have d: "drop (Suc i) all = cs" using 2(3) by (metis drop_Suc drop_tl list.sel(3) tl_drop)
  have bit: "null_bitmap (map snd all) ! (i div 8) AND 2 ^ (i mod 8) = 0 \<longleftrightarrow> \<not> null"
    using b(2) by (cases null) auto
  have "row_bitmap te (null_bitmap (map snd all)) (Suc i) xs (feed (cells_bitmap xs cs @ rest) p) = (Inr vs, feed rest p)"
    by (rule 2(1)) (use 2(2,4) d in simp_all)
  then show ?case using 2(2) b(1) by (cases null) (simp_all add: wbind_def bit wire_value_enc)
qed simp_all

lemma readRow_enc:
  assumes "row_means te p xs cs vs"
  shows "readRow te xs (feed (row_bytes (p_protocolVersion p) xs cs @ rest) p) = (Inr vs, feed rest p)"
proof (cases "p_protocolVersion p < PROTOCOL_VERSION13")
  case True
  then show ?thesis using row_flags_enc [OF assms] by (simp add: readRow_def row_bytes_def)
next
  case False
  have l: "length cs = length xs" using row_means_lengths [OF assms] by simp
  have "(int (length xs) + 7) sdiv 8 = int (length (null_bitmap (map snd cs)))"
    by (simp add: sdiv_nonneg null_bitmap_def l zdiv_int)
  then show ?thesis
    using False row_bitmap_enc [OF assms, of 0 cs rest] by (simp add: readRow_def row_bytes_def wbind_def)
qed

subsection \<open>Blobs sent ahead\<close>

type_synonym sent_blob = "int32 \<times> int64 \<times> bytes \<times> bytes list"

definition segments_bytes :: "bytes list \<Rightarrow> bytes" where
  "segments_bytes segs = concat (map (\<lambda>s. le_bytes 2 (length s) @ s) segs)"

fun blob_body :: "sent_blob \<Rightarrow> bytes" where
  "blob_body (txHandle, blobId, info, segs) =
     bint32_to_bytes txHandle @ bint64_to_bytes blobId @ xdrBytes info @
     xdrBytes (segments_bytes segs)"

definition blob_packet :: "sent_blob \<Rightarrow> bytes" where
  "blob_packet b = bint32_to_bytes op_inline_blob @ blob_body b"

fun blob_fits :: "sent_blob \<Rightarrow> bool" where
  "blob_fits (txHandle, blobId, info, segs) \<longleftrightarrow>
     length info \<le> maxWirePayload \<and> length (segments_bytes segs) \<le> maxWirePayload \<and> list_all (\<lambda>s. length s < 65536) segs"

fun keep_blob :: "sent_blob \<Rightarrow> wire_protocol \<Rightarrow> wire_protocol" where
  "keep_blob (txHandle, blobId, info, segs) p = cache_blob txHandle blobId (concat segs) p"

definition keep_blobs :: "sent_blob list \<Rightarrow> wire_protocol \<Rightarrow> wire_protocol" where
  "keep_blobs bs p = fold keep_blob bs p"

lemma segments_of_bytes: "list_all (\<lambda>s. length s < 65536) segs \<Longrightarrow> segments_of (segments_bytes segs) = Some segs"
proof (induction segs)
  case (Cons s segs)
  have "segments_bytes (s # segs) = le_bytes 2 (length s) @ s @ segments_bytes segs" by (simp add: segments_bytes_def)
  moreover have "le_val (le_bytes 2 (length s)) = length s" using Cons.prems by (simp add: le_val_le_bytes)
  ultimately show ?case using Cons segments_of_step [of "segments_bytes (s # segs)"] by (simp add: Let_def)
qed (simp add: segments_bytes_def)

lemma decodeInline_bytes:
  "list_all (\<lambda>s. length s < 65536) segs \<Longrightarrow> decodeInlineSegmentBuffer (segments_bytes segs) = Inr (concat segs)"
  using inline_loop_eq [of 0 0 "segments_bytes segs"] segments_of_bytes [of segs]
  by (auto simp: decodeInlineSegmentBuffer_def)

lemma recv_counted_enc [simp]:
  assumes "length b \<le> maxWirePayload"
  shows "recv_counted m (feed (xdrBytes b @ rest) p) = (Inr b, feed rest p)"
proof -
  have l: "length b < 2 ^ 31" using assms by simp
  show ?thesis
    using assms unfolding xdrBytes_counted [OF l] recv_counted_def
    by (cases "b = []") (simp_all add: sint_length32 [OF l] Let_def del: of_int_of_nat_eq)
qed

lemma inline_step_enc:
  assumes "blob_fits b"
  shows "inline_step (feed (blob_body b @ bint32_to_bytes w @ rest) p) = (Inr w, feed rest (keep_blob b p))"
proof -
  obtain tx bid info segs where b: "b = (tx, bid, info, segs)" by (cases b) auto
  have d: "decodeInlineSegmentBuffer (segments_bytes segs) = Inr (concat segs)"
    by (rule decodeInline_bytes) (use assms b in simp)
  have id: "recvPackets 8 (feed (bint64_to_bytes bid @ xs) p) = (Inr (bint64_to_bytes bid), feed xs p)" for xs
    by (rule recv_exact) (simp add: bint64_codec.enc_length)
  have l: "length info \<le> maxWirePayload" "length (segments_bytes segs) \<le> maxWirePayload" using assms b by simp_all
  have "parseInlineBlobPayload (feed (blob_body b @ xs) p) = (Inr (tx, bid, concat segs), feed xs p)" for xs
    unfolding parseInlineBlobPayload_def b blob_body.simps append_assoc wbind_def
    by (simp only: recv_int_enc id recv_counted_enc [OF l(1)] recv_counted_enc [OF l(2)] prod.case sum.case wlift_def
        bint64_codec.dec_enc_Nil d wret_def)
  moreover have "cache_blob tx bid c (feed xs p) = feed xs (cache_blob tx bid c p)" for c xs
    by (simp add: cache_blob_def feed_def del: feed_simps)
  ultimately show ?thesis by (simp add: inline_step_def wbind_def wupd_def b)
qed

lemma consume_stop: "w \<noteq> op_inline_blob \<Longrightarrow> consumeInlineBlobsStarting w p = (Inr w, p)"
  by (subst consumeInlineBlobsStarting.simps) simp

lemma blobs_head: "\<exists>w' tl. concat (map blob_packet bs) @ bint32_to_bytes w @ rest = bint32_to_bytes w' @ tl"
  by (cases bs) (auto simp: blob_packet_def)

lemma consume_enc:
  assumes "list_all blob_fits bs" "w \<noteq> op_inline_blob"
  shows "wbind recv_int consumeInlineBlobsStarting (feed (concat (map blob_packet bs) @ bint32_to_bytes w @ rest) p) =
    (Inr w, feed rest (keep_blobs bs p))"
  using assms(1)
proof (induction bs arbitrary: p)
  case Nil
  then show ?case using assms(2) by (simp add: wbind_def consume_stop keep_blobs_def)
next
  case (Cons b bs)
  define tl where "tl = concat (map blob_packet bs) @ bint32_to_bytes w @ rest"
  obtain w' tl' where tl: "tl = bint32_to_bytes w' @ tl'" using blobs_head unfolding tl_def by blast
  have b: "blob_fits b" using Cons.prems by simp
  have "consumeInlineBlobsStarting op_inline_blob (feed (blob_body b @ tl) p) =
      consumeInlineBlobsStarting w' (feed tl' (keep_blob b p))"
    by (subst consumeInlineBlobsStarting.simps) (simp add: tl inline_step_enc [OF b])
  also have "\<dots> = wbind recv_int consumeInlineBlobsStarting (feed tl (keep_blob b p))"
    by (simp add: tl wbind_def)
  also have "\<dots> = (Inr w, feed rest (keep_blobs bs (keep_blob b p)))"
    using Cons by (simp add: tl_def)
  finally show ?case by (simp add: wbind_def keep_blobs_def blob_packet_def [of b] tl_def)
qed

subsection \<open>A batch of rows\<close>

lemma keep_blob_simps [simp]:
  "p_env (keep_blob b p) = p_env p" "p_timezone (keep_blob b p) = p_timezone p" "p_charset (keep_blob b p) = p_charset p"
  "p_protocolVersion (keep_blob b p) = p_protocolVersion p" "p_lazyResponseCount (keep_blob b p) = p_lazyResponseCount p"
  by (cases b; simp add: cache_blob_def)+

lemma keep_blobs_simps [simp]:
  "p_env (keep_blobs bs p) = p_env p" "p_timezone (keep_blobs bs p) = p_timezone p" "p_charset (keep_blobs bs p) = p_charset p"
  "p_protocolVersion (keep_blobs bs p) = p_protocolVersion p" "p_lazyResponseCount (keep_blobs bs p) = p_lazyResponseCount p"
  unfolding keep_blobs_def by (induction bs arbitrary: p) simp_all

lemma row_means_keep [simp]: "row_means te (keep_blobs bs p) = row_means te p"
  by (rule row_means_same) simp_all

lemma keep_blobs_append: "keep_blobs (as @ bs) p = keep_blobs bs (keep_blobs as p)"
  by (simp add: keep_blobs_def)

text \<open>A row, the blobs sent after it, and the status of the header that follows.\<close>

type_synonym sent_row = "cell list \<times> sent_blob list \<times> int32"

definition fetch_header :: "int32 \<Rightarrow> 'a list \<Rightarrow> bytes" where
  "fetch_header st rows = bint32_to_bytes op_fetch_response @ bint32_to_bytes st @ bint32_to_bytes (if rows = [] then 0 else 1)"

fun rows_bytes :: "int \<Rightarrow> xsqlvar list \<Rightarrow> sent_row list \<Rightarrow> bytes" where
  "rows_bytes version xs [] = []"
| "rows_bytes version xs ((cs, bs, st) # rows) =
     row_bytes version xs cs @ concat (map blob_packet bs) @ fetch_header st rows @ rows_bytes version xs rows"

fun rows_status :: "int32 \<Rightarrow> sent_row list \<Rightarrow> int32" where
  "rows_status st [] = st"
| "rows_status st ((cs, bs, st') # rows) = rows_status st' rows"

definition rows_blobs :: "sent_row list \<Rightarrow> sent_blob list" where
  "rows_blobs rows = concat (map (\<lambda>(cs, bs, st). bs) rows)"

lemma fetch_step_enc:
  assumes "row_means te p xs cs vs" "list_all blob_fits bs"
  shows "fetch_step te xs (feed (row_bytes (p_protocolVersion p) xs cs @ concat (map blob_packet bs) @ fetch_header st rows @ rest) p) =
    (Inr (vs, st, if rows = [] then 0 else 1), feed rest (keep_blobs bs p))"
proof -
  define tl where "tl = bint32_to_bytes st @ bint32_to_bytes (if rows = [] then 0 else 1) @ rest"
  have c: "wbind recv_int consumeInlineBlobsStarting (feed (concat (map blob_packet bs) @ bint32_to_bytes op_fetch_response @ tl) p) =
    (Inr op_fetch_response, feed tl (keep_blobs bs p))"
    using consume_enc [OF assms(2), of op_fetch_response tl p] by simp
  obtain w p1 where w: "recv_int (feed (concat (map blob_packet bs) @ bint32_to_bytes op_fetch_response @ tl) p) = (Inr w, p1)"
    "consumeInlineBlobsStarting w p1 = (Inr op_fetch_response, feed tl (keep_blobs bs p))"
    using c by (elim wbind_InrE)
  have "fetch_header st rows @ rest = bint32_to_bytes op_fetch_response @ tl" by (simp add: fetch_header_def tl_def)
  then show ?thesis
    using w by (simp add: fetch_step_def wbind_def readRow_enc [OF assms(1)] tl_def)
qed

lemma fetch_rows_enc:
  assumes "list_all2 (\<lambda>(cs, bs, st) vs. row_means te p xs cs vs \<and> list_all blob_fits bs) rows vss"
  shows "fetch_rows te xs st (if rows = [] then 0 else 1) (feed (rows_bytes (p_protocolVersion p) xs rows @ rest) p) =
    (Inr (vss, rows_status st rows), feed rest (keep_blobs (rows_blobs rows) p))"
  using assms
proof (induction rows arbitrary: vss p st)
  case Nil
  then show ?case by (subst fetch_rows.simps) (simp add: keep_blobs_def rows_blobs_def)
next
  case (Cons row rows)
  obtain cs bs st' where row: "row = (cs, bs, st')" by (cases row) auto
  obtain vs vss' where vss: "vss = vs # vss'" "row_means te p xs cs vs" "list_all blob_fits bs"
    "list_all2 (\<lambda>(cs, bs, st) vs. row_means te p xs cs vs \<and> list_all blob_fits bs) rows vss'"
    using Cons.prems row by (auto simp: list_all2_Cons1)
  have "fetch_rows te xs st' (if rows = [] then 0 else 1) (feed (rows_bytes (p_protocolVersion p) xs rows @ rest) (keep_blobs bs p)) =
      (Inr (vss', rows_status st' rows), feed rest (keep_blobs (rows_blobs rows) (keep_blobs bs p)))"
    using Cons.IH [of "keep_blobs bs p" vss' st'] vss(4) by simp
  then show ?case
    using fetch_step_enc [OF vss(2,3), of st' rows "rows_bytes (p_protocolVersion p) xs rows @ rest"]
    by (subst fetch_rows.simps) (simp add: row vss(1) keep_blobs_append rows_blobs_def)
qed

subsection \<open>A whole answer\<close>

definition fetch_answer :: "int \<Rightarrow> xsqlvar list \<Rightarrow> sent_blob list \<Rightarrow> int32 \<Rightarrow> sent_row list \<Rightarrow> bytes" where
  "fetch_answer version xs bs st rows = concat (map blob_packet bs) @ fetch_header st rows @ rows_bytes version xs rows"

lemma recv_int_ignore_same: "recv_int (feed (bint32_to_bytes w @ b) p) = recv_int_ignore (feed (bint32_to_bytes w @ b) p)"
  by simp

lemma blobs_head_op:
  "\<exists>w' tl. w' \<in> {op_inline_blob, w} \<and> concat (map blob_packet bs) @ bint32_to_bytes w @ rest = bint32_to_bytes w' @ tl"
  by (cases bs) (auto simp: blob_packet_def)

lemma skip_to_blobs:
  assumes "list_all response_fits rs" "p_lazyResponseCount p = int (length rs)" "w \<noteq> op_dummy"
  shows "\<exists>w0 r0 w1 r1. recv_int (feed (dummies k @ concat (map response_bytes rs) @ bint32_to_bytes w @ rest) p) = (Inr w0, feed r0 p) \<and>
    skip_dummy w0 (feed r0 p) = (Inr w1, feed r1 p) \<and>
    skip_lazy w1 (feed r1 p) = (Inr w, feed rest (p\<lparr>p_lazyResponseCount := 0\<rparr>))"
proof -
  obtain w1 r1 where h: "concat (map response_bytes rs) @ bint32_to_bytes w @ rest = bint32_to_bytes w1 @ r1" "w1 \<noteq> op_dummy"
    using assms(3) by (cases rs) (auto simp: response_bytes_def)
  have "skip_lazy w1 (feed r1 p) = (Inr w, feed rest (p\<lparr>p_lazyResponseCount := 0\<rparr>))"
    using skip_lazy_frames [OF assms(1,2), of w rest] unfolding h(1) by (simp add: wbind_def)
  then show ?thesis using skip_dummies_first [OF h(2), of k r1 p] unfolding h(1) by blast
qed

lemma fetch_answer_enc:
  assumes "list_all blob_fits bs" "list_all2 (\<lambda>(cs, bs, st) vs. row_means te p xs cs vs \<and> list_all blob_fits bs) rows vss"
    "list_all response_fits rs" "p_lazyResponseCount p = int (length rs)"
  shows "opFetchResponse te xs
      (feed (dummies k @ concat (map response_bytes rs) @ fetch_answer (p_protocolVersion p) xs bs st rows @ rest) p) =
    (Inr (vss, rows_status st rows \<noteq> 100), feed rest (keep_blobs (bs @ rows_blobs rows) (p\<lparr>p_lazyResponseCount := 0\<rparr>)))"
proof -
  define q where "q = p\<lparr>p_lazyResponseCount := 0\<rparr>"
  define tl where "tl = bint32_to_bytes st @ bint32_to_bytes (if rows = [] then 0 else 1) @ rows_bytes (p_protocolVersion p) xs rows @ rest"
  have ans: "fetch_answer (p_protocolVersion p) xs bs st rows @ rest = concat (map blob_packet bs) @ bint32_to_bytes op_fetch_response @ tl"
    by (simp add: fetch_answer_def fetch_header_def tl_def)
  obtain w r where h: "w \<in> {op_inline_blob, op_fetch_response}"
    "concat (map blob_packet bs) @ bint32_to_bytes op_fetch_response @ tl = bint32_to_bytes w @ r"
    using blobs_head_op by blast
  obtain w0 r0 w1 r1 where s: "recv_int (feed (dummies k @ concat (map response_bytes rs) @ bint32_to_bytes w @ r) p) = (Inr w0, feed r0 p)"
    "skip_dummy w0 (feed r0 p) = (Inr w1, feed r1 p)" "skip_lazy w1 (feed r1 p) = (Inr w, feed r q)"
    using skip_to_blobs [OF assms(3,4), of w k r] h(1) unfolding q_def by auto
  have c: "consumeInlineBlobsStarting w (feed r q) = (Inr op_fetch_response, feed tl (keep_blobs bs q))"
    using consume_enc [OF assms(1), of op_fetch_response tl q] unfolding h(2) by (simp add: wbind_def)
  have q: "row_means te q = row_means te p" by (rule row_means_same) (simp_all add: q_def)
  have "fetch_rows te xs st (if rows = [] then 0 else 1) (feed (rows_bytes (p_protocolVersion p) xs rows @ rest) (keep_blobs bs q)) =
    (Inr (vss, rows_status st rows), feed rest (keep_blobs (rows_blobs rows) (keep_blobs bs q)))"
    using fetch_rows_enc [of te "keep_blobs bs q" xs rows vss st rest] assms(2) q by (simp add: q_def)
  then have "fetch_op te xs op_fetch_response (feed tl (keep_blobs bs q)) =
    (Inr (vss, rows_status st rows \<noteq> 100), feed rest (keep_blobs (bs @ rows_blobs rows) q))"
    by (cases "rows = []") (simp_all add: fetch_op_def tl_def wbind_def keep_blobs_append)
  then show ?thesis
    using s c by (simp add: opFetchResponse_def ans h(2) wbind_def wtry_def q_def)
qed

definition sample_row_cols :: "xsqlvar list" where
  "sample_row_cols = [zero_var\<lparr>sqltype := SQL_TYPE_LONG, sqlscale := -2\<rparr>, zero_var\<lparr>sqltype := SQL_TYPE_VARYING, sqllen := 20\<rparr>]"

definition sample_rows :: "sent_row list" where
  "sample_rows =
     [([(bint32_to_bytes 1250, False), ([104, 105], False)], [(7, 9, [], [[1, 2], [3]])], 0),
      ([([0, 0, 0, 0], True), ([111, 107, 33], False)], [], 100)]"

subsection \<open>Properties\<close>

text \<open>C21: A fetch returns exactly the rows the server sent, in order, null columns as nil and the others decoded
  from their bytes, and reports the end exactly on status 100; keep-alives and the owed responses of
  earlier lazy requests in front of the answer are consumed, every blob sent ahead of a row or a
  header is put into the cache, and what follows the answer is left unread. This holds for both row
  layouts, before and from protocol 13 on.\<close>

theorem fetch_roundtrip:
  assumes "list_all blob_fits bs" "list_all2 (\<lambda>(cs, bs, st) vs. row_means te p xs cs vs \<and> list_all blob_fits bs) rows vss"
    "list_all response_fits rs" "p_lazyResponseCount p = int (length rs)"
  shows "opFetchResponse te xs
      (feed (dummies k @ concat (map response_bytes rs) @ fetch_answer (p_protocolVersion p) xs bs st rows @ rest) p) =
    (Inr (vss, rows_status st rows \<noteq> 100), feed rest (keep_blobs (bs @ rows_blobs rows) (p\<lparr>p_lazyResponseCount := 0\<rparr>)))"
  by (rule fetch_answer_enc [OF assms])

theorem fetch_roundtrip_witness:
  "fst (opFetchResponse oslo_time sample_row_cols
     (feed (dummies 2 @ response_bytes sample_response @ fetch_answer 13 sample_row_cols [(7, 8, [], [])] 0 sample_rows @ [1, 2])
       (sample_wire\<lparr>p_lazyResponseCount := 1\<rparr>))) =
   Inr ([[VStr ''12.50'', VStr ''hi''], [VNil, VStr ''ok!'']], False)"
proof -
  let ?p = "sample_wire\<lparr>p_lazyResponseCount := 1\<rparr>"
  let ?row = "\<lambda>(cs, bs, st) vs. row_means oslo_time ?p sample_row_cols cs vs \<and> list_all blob_fits bs"
  let ?n = "zero_var\<lparr>sqltype := SQL_TYPE_LONG, sqlscale := -2\<rparr>" and ?s = "zero_var\<lparr>sqltype := SQL_TYPE_VARYING, sqllen := 20\<rparr>"
  have p: "p_env ?p = p_env sample_wire" "p_timezone ?p = ''''" "p_charset ?p = ''UTF8''" by (simp_all add: sample_wire_def)
  have v: "column_value (p_env sample_wire) oslo_time '''' ''UTF8'' ?n (bint32_to_bytes 1250) = Inr (VStr ''12.50'')"
    "column_value (p_env sample_wire) oslo_time '''' ''UTF8'' ?s [104, 105] = Inr (VStr ''hi'')"
    "column_value (p_env sample_wire) oslo_time '''' ''UTF8'' ?s [111, 107, 33] = Inr (VStr ''ok!'')" by code_simp+
  have l: "ioLength ?n = 4" "ioLength ?s = -1" by code_simp+
  have 1: "row_means oslo_time ?p sample_row_cols [(bint32_to_bytes 1250, False), ([104, 105], False)] [VStr ''12.50'', VStr ''hi'']"
    "row_means oslo_time ?p sample_row_cols [([0, 0, 0, 0], True), ([111, 107, 33], False)] [VNil, VStr ''ok!'']"
    by (simp_all add: sample_row_cols_def raw_fits_def l p v bint32_codec.enc_length)
  have 2: "blob_fits (7, 9, [], [[1, 2], [3]])" by (simp add: segments_bytes_def)
  have a: "list_all2 ?row sample_rows [[VStr ''12.50'', VStr ''hi''], [VNil, VStr ''ok!'']]"
    using 1 2 by (simp add: sample_rows_def)
  have b: "list_all blob_fits [(7, 8, [], [])]" by (simp add: segments_bytes_def)
  have c: "list_all response_fits [sample_response]" by (simp add: sample_response_def response_fits_def)
  have d: "p_lazyResponseCount ?p = int (length [sample_response])" "p_protocolVersion ?p = 13"
    "rows_status 0 sample_rows = 100" by (simp_all add: sample_wire_def sample_rows_def)
  show ?thesis
    using fetch_roundtrip [OF b a c d(1), of 2 0 "[1, 2]"] d by simp
qed

end
