(* ===== verification/Zoned_Time.thy ===== *)
theory Zoned_Time
  imports Column_Values
begin

text \<open>
  Times with a time zone: how they are encoded (\<open>utils.go\<close>, \<open>timezone_resolve.go\<close>) and what
  reading them back (\<open>xsqlvar.go\<close>) gives. A \<open>time.Time\<close> is the civil components and the location
  \<open>time.Date\<close> made it of; \<open>t.UTC()\<close> takes off the offset \<open>time.Date\<close> took, moving the date when the clock
  leaves the day.
\<close>

definition prev_date :: "int \<times> int \<times> int \<Rightarrow> int \<times> int \<times> int" where
  "prev_date = (\<lambda>(y, m, d).
     if 1 < d then (y, m, d - 1)
     else if 1 < m then (y, m - 1, days_in_month y (m - 1)) else (y - 1, 12, 31))"

definition clock_seconds :: "go_time \<Rightarrow> int" where
  "clock_seconds t = t_hour t * 3600 + t_minute t * 60 + t_second t"

definition add_seconds :: "go_time \<Rightarrow> int \<Rightarrow> go_time" where
  "add_seconds t s =
     (let secs = clock_seconds t + s;
          days = secs div 86400;
          (y, m, d) = (if 0 \<le> days then (next_date ^^ nat days) else (prev_date ^^ nat (- days)))
                        (t_year t, t_month t, t_day t)
      in \<lparr> t_year = y, t_month = m, t_day = d, t_hour = secs mod 86400 div 3600, t_minute = secs div 60 mod 60,
           t_second = secs mod 60, t_nanosecond = t_nanosecond t \<rparr>)"

definition utc_of :: "time_env \<Rightarrow> go_loc \<Rightarrow> go_time \<Rightarrow> go_time" where
  "utc_of te loc t = add_seconds t (- date_offset te loc t)"

fun loc_name :: "go_loc \<Rightarrow> string" where
  "loc_name Local = ''Local''"
| "loc_name (Named n) = n"
| "loc_name UTC = ''UTC''"
| "loc_name (FixedZone n offset) = n"

definition resolveTimezone :: "time_env \<Rightarrow> string \<Rightarrow> string \<Rightarrow> int32" where
  "resolveTimezone te locName sessionTimezone =
     (if te_zone_id te locName \<noteq> 0 then te_zone_id te locName
      else if sessionTimezone \<noteq> '''' \<and> te_zone_id te sessionTimezone \<noteq> 0 then te_zone_id te sessionTimezone
      else te_zone_id te ''UTC'')"

text \<open>A time of day is put on today's date for its conversion.\<close>

definition on_today :: "time_env \<Rightarrow> go_time \<Rightarrow> go_time" where
  "on_today te t = (let (y, m, d) = te_today te in t\<lparr>t_year := y, t_month := m, t_day := d\<rparr>)"

definition convert_time_tz :: "time_env \<Rightarrow> go_time \<Rightarrow> go_loc \<Rightarrow> int32 \<Rightarrow> bytes" where
  "convert_time_tz te t loc tzID = concat [convert_time (utc_of te loc (on_today te t)), timezoneToBytes tzID]"

definition convert_timestamp_tz :: "time_env \<Rightarrow> go_time \<Rightarrow> go_loc \<Rightarrow> int32 \<Rightarrow> bytes" where
  "convert_timestamp_tz te t loc tzID = concat [convert_timestamp (utc_of te loc t), timezoneToBytes tzID]"

definition timeToBlr :: "time_env \<Rightarrow> go_time \<Rightarrow> go_loc \<Rightarrow> int \<Rightarrow> string \<Rightarrow> bytes \<times> bytes" where
  "timeToBlr te t loc protocolVersion sessionTimezone =
     (if protocolVersion \<ge> PROTOCOL_VERSION16
      then ([28], convert_time_tz te t loc (resolveTimezone te (loc_name loc) sessionTimezone))
      else timeToBlrNoTZ t)"

definition timestampToBlr :: "time_env \<Rightarrow> go_time \<Rightarrow> go_loc \<Rightarrow> int \<Rightarrow> string \<Rightarrow> bytes \<times> bytes" where
  "timestampToBlr te t loc protocolVersion sessionTimezone =
     (if protocolVersion \<ge> PROTOCOL_VERSION16
      then ([29], convert_timestamp_tz te t loc (resolveTimezone te (loc_name loc) sessionTimezone))
      else timestampToBlrNoTZ t)"

subsection \<open>Reading back\<close>

lemma add_seconds_time:
  assumes "valid_time_of_day t"
  shows "valid_time_of_day (add_seconds t s)" "clock_seconds (add_seconds t s) = (clock_seconds t + s) mod 86400"
    "t_nanosecond (add_seconds t s) = t_nanosecond t"
proof -
  define S where "S = clock_seconds t + s"
  have e: "t_hour (add_seconds t s) = S mod 86400 div 3600" "t_minute (add_seconds t s) = S div 60 mod 60"
    "t_second (add_seconds t s) = S mod 60" "t_nanosecond (add_seconds t s) = t_nanosecond t"
    by (simp_all add: add_seconds_def S_def Let_def split: prod.split)
  define D where "D = S mod 86400"
  have D: "0 \<le> D" "D < 86400" by (simp_all add: D_def)
  have d: "D = 60 * (S div 60 mod 1440) + S mod 60" using zmod_zmult2_eq [of 1440 S 60] by (simp add: D_def)
  have "0 \<le> S mod 60" "S mod 60 < 60" by simp_all
  then have q: "D div 60 = S div 60 mod 1440" "D mod 60 = S mod 60"
    using d int_div_pos_eq [of D 60 "S div 60 mod 1440" "S mod 60"] int_mod_pos_eq [of D 60 "S div 60 mod 1440" "S mod 60"] by simp_all
  have "(S div 60 mod 1440) mod 60 = S div 60 mod 60" by (rule mod_mod_cancel) simp
  then have m: "S div 60 mod 60 = D div 60 mod 60" "S mod 60 = D mod 60" using q by simp_all
  have h: "0 \<le> D div 3600" "D div 3600 < 24" using D by auto
  show "valid_time_of_day (add_seconds t s)"
    using assms h by (simp add: valid_time_of_day_def e m flip: D_def)
  have "D div 3600 = D div 60 div 60" using zdiv_zmult2_eq [of 60 D 60] by simp
  then have "D div 3600 * 3600 + D div 60 mod 60 * 60 + D mod 60 = D"
    using div_mult_mod_eq [of D 60] div_mult_mod_eq [of "D div 60" 60] by linarith
  then show "clock_seconds (add_seconds t s) = (clock_seconds t + s) mod 86400"
    by (simp add: clock_seconds_def [of "add_seconds t s"] e m flip: D_def S_def)
  show "t_nanosecond (add_seconds t s) = t_nanosecond t" by (fact e)
qed

definition known_zone :: "time_env \<Rightarrow> go_loc \<Rightarrow> int32 \<Rightarrow> bool" where
  "known_zone te loc tzID \<longleftrightarrow> unat tzID < 65536 \<and>
     (case loc of Named n \<Rightarrow> n \<noteq> '''' \<and> te_zone_name te (int (unat tzID)) = n \<and> te_known te n
      | UTC \<Rightarrow> te_zone_name te (int (unat tzID)) = '''' | _ \<Rightarrow> False)"

lemma day_clock: "(x div 3600 mod 24) * 3600 + (x div 60 mod 60) * 60 + x mod 60 = x mod (86400 :: int)"
  using zmod_zmult2_eq [of 24 x 3600] zmod_zmult2_eq [of 60 x 60] by simp

lemma zone_id_bytes:
  assumes "unat tzID < 65536"
  shows "be_val [ucast (signed_drop_bit 8 tzID), ucast tzID] = unat (tzID :: int32)"
proof -
  have "(ucast (signed_drop_bit 8 tzID) :: byte) = ucast (drop_bit 8 tzID)"
    by (rule bit_word_eqI) (auto simp: bit_ucast_iff bit_signed_drop_bit_iff bit_drop_bit_eq)
  then have "unat (ucast (signed_drop_bit 8 tzID) :: byte) = unat tzID div 256"
    using assms by (simp add: unsigned_ucast_eq take_bit_eq_mod drop_bit_eq_div unat_div_distrib less_mult_imp_div_less)
  moreover have "unat (ucast tzID :: byte) = unat tzID mod 256"
    by (simp add: unsigned_ucast_eq take_bit_eq_mod)
  ultimately show ?thesis by (simp add: be_val_def)
qed

lemma parse_zone_bytes:
  assumes "known_zone te loc tzID"
  shows "bind_res (go_slice (convert_time t @ timezoneToBytes tzID) 6 8) (parseTimezoneID te) = Inr loc"
proof -
  have "go_slice (convert_time t @ timezoneToBytes tzID) 6 8 = Inr [ucast (signed_drop_bit 8 tzID), ucast tzID]"
    by (simp add: timezoneToBytes_def numeral_2_eq_2)
  then show ?thesis
    using assms zone_id_bytes [of tzID]
    by (cases loc) (auto simp: known_zone_def parseTimezoneID_def bytes_to_buint16_def be_uint_def)
qed

subsection \<open>Local times that exist\<close>

text \<open>
  What is relied on of a location near a second: its offsets are below a day, and up to a day away
  what \<open>lookup\<close> gives is the span in which it holds, of two days at least.
\<close>

definition regular_near :: "time_env \<Rightarrow> go_loc \<Rightarrow> int \<Rightarrow> bool" where
  "regular_near te loc u \<longleftrightarrow> (\<forall>sec. \<bar>snd (zone_at te loc sec)\<bar> < 86400) \<and>
     (\<forall>sec. \<bar>sec - u\<bar> < 86400 \<longrightarrow> (case zone_lookup te loc sec of (name, offset, since, until) \<Rightarrow>
        since \<le> sec \<and> sec < until \<and> 172800 \<le> until - since \<and>
        (\<forall>sec'. since \<le> sec' \<and> sec' < until \<and> \<bar>sec' - u\<bar> < 86400 \<longrightarrow> zone_lookup te loc sec' = zone_lookup te loc sec)))"

lemma regular_span:
  assumes "regular_near te loc u" "\<bar>a - u\<bar> < 86400" "zone_lookup te loc a = (name, offset, since, until)"
  shows "since \<le> a" "a < until" "172800 \<le> until - since"
    "since \<le> b \<Longrightarrow> b < until \<Longrightarrow> \<bar>b - u\<bar> < 86400 \<Longrightarrow> zone_lookup te loc b = zone_lookup te loc a"
proof -
  note near = mp [OF spec [OF conjunct2 [OF assms(1) [unfolded regular_near_def]], of a] assms(2), unfolded assms(3) prod.case]
  have r: "since \<le> a" "a < until" "172800 \<le> until - since"
      "\<forall>sec'. since \<le> sec' \<and> sec' < until \<and> \<bar>sec' - u\<bar> < 86400 \<longrightarrow> zone_lookup te loc sec' = (name, offset, since, until)"
    using near by blast+
  then show "since \<le> a" "a < until" "172800 \<le> until - since" by -
  show "since \<le> b \<Longrightarrow> b < until \<Longrightarrow> \<bar>b - u\<bar> < 86400 \<Longrightarrow> zone_lookup te loc b = zone_lookup te loc a"
    unfolding assms(3) using r(4) by blast
qed

lemma no_third_zone_ordered:
  assumes "regular_near te loc u" "\<bar>a - u\<bar> < 86400" "\<bar>b - u\<bar> < 86400" "\<bar>c - u\<bar> < 86400" "a < b" "b < c"
  shows "zone_lookup te loc a = zone_lookup te loc b \<or> zone_lookup te loc b = zone_lookup te loc c"
proof (rule ccontr)
  assume n: "\<not> ?thesis"
  obtain name offset since until where l: "zone_lookup te loc b = (name, offset, since, until)" using prod_cases4 by blast
  note r = regular_span [OF assms(1,3) l]
  have "a < since" using r(2) r(4) [of a] assms(2,5) n by fastforce
  moreover have "until \<le> c" using r(1) r(4) [of c] assms(4,6) n by fastforce
  ultimately show False using r(3) assms(2,4) by linarith
qed

lemma no_third_zone:
  assumes "regular_near te loc u" "\<bar>a - u\<bar> < 86400" "\<bar>b - u\<bar> < 86400" "\<bar>c - u\<bar> < 86400"
  shows "zone_lookup te loc a = zone_lookup te loc b \<or> zone_lookup te loc b = zone_lookup te loc c \<or>
    zone_lookup te loc a = zone_lookup te loc c"
proof -
  note o = no_third_zone_ordered [OF assms(1)]
  have "a = b \<or> b = c \<or> a = c \<or> a < b \<and> b < c \<or> a < c \<and> c < b \<or> b < a \<and> a < c \<or> b < c \<and> c < a \<or> c < a \<and> a < b \<or> c < b \<and> b < a"
    by linarith
  then show ?thesis using o [of a b c] o [of a c b] o [of b a c] o [of b c a] o [of c a b] o [of c b a] assms(2-4) by metis
qed

text \<open>\<open>time.Date\<close> finds the instant whose local reading is the time asked for, when there is one.\<close>

lemma date_unix_exists:
  assumes "regular_near te loc (civil_seconds t)"
  shows "local_seconds te loc (date_unix te loc t) = civil_seconds t \<longleftrightarrow> (\<exists>sec. local_seconds te loc sec = civil_seconds t)"
proof
  define u where "u = civil_seconds t"
  have small: "\<bar>snd (zone_at te loc sec)\<bar> < 86400" for sec using assms by (simp add: regular_near_def)
  obtain name o1 since until where l: "zone_lookup te loc u = (name, o1, since, until)" using prod_cases4 by blast
  have z1: "snd (zone_at te loc u) = o1" by (simp add: zone_at_def l)
  note r = regular_span [OF assms [folded u_def] _ l, simplified]
  assume "\<exists>sec. local_seconds te loc sec = civil_seconds t"
  then obtain sec where s: "sec + snd (zone_at te loc sec) = u" by (auto simp: local_seconds_def u_def)
  define v where "v = u - o1"
  show "local_seconds te loc (date_unix te loc t) = civil_seconds t"
  proof (cases "o1 \<noteq> 0 \<and> (v < since \<or> until \<le> v)")
    case False
    then have d: "date_unix te loc t = v" by (auto simp: date_unix_def date_offset_def l v_def simp flip: u_def)
    have "zone_lookup te loc v = zone_lookup te loc u"
      using False r(4) [of v] small [of u] z1 by (cases "o1 = 0") (auto simp: v_def)
    then show ?thesis using d by (simp add: local_seconds_def zone_at_def l v_def flip: u_def)
  next
    case True
    have near: "\<bar>u - u\<bar> < 86400" "\<bar>v - u\<bar> < 86400" "\<bar>sec - u\<bar> < 86400"
      using small [of u] small [of sec] s z1 by (auto simp: v_def)
    have "zone_lookup te loc v \<noteq> zone_lookup te loc u"
      using True regular_span(1,2) [OF assms [folded u_def] near(2)] l by fastforce
    moreover have "zone_lookup te loc sec \<noteq> zone_lookup te loc u"
    proof
      assume e: "zone_lookup te loc sec = zone_lookup te loc u"
      then have "sec = v" using s by (simp add: zone_at_def l v_def)
      then show False using True regular_span(1,2) [OF assms [folded u_def] near(3)] e l by fastforce
    qed
    ultimately have "zone_lookup te loc sec = zone_lookup te loc v"
      using no_third_zone [OF assms [folded u_def] near] by metis
    then have e: "snd (zone_at te loc v) = snd (zone_at te loc sec)" by (simp add: zone_at_def)
    have "date_unix te loc t = u - snd (zone_at te loc v)"
      using True by (simp add: date_unix_def date_offset_def l v_def flip: u_def)
    then have "date_unix te loc t = sec" using s e by simp
    then show ?thesis using s by (simp add: local_seconds_def u_def)
  qed
qed blast

subsection \<open>Properties\<close>

text \<open>C1: A timestamp of the years 1 to 5000000 that the driver encodes is read back, in the session's
  time zone, as \<open>time.Date\<close> of the same civil date and time of day, to the 100 microseconds the wire
  carries, whatever bytes follow it; in a zone the host does not know reading it panics. Where the
  zone is regular about that time, the clock of the time that is returned shows what was written
  exactly when the zone's clock shows it at all: a time that a change of the clock leaves out comes
  back as another.\<close>

theorem timestamp_roundtrip:
  assumes "1 \<le> t_year t" "t_year t \<le> 5000000" "valid_date (t_year t) (t_month t) (t_day t)"
    and "valid_time_of_day t"
  shows "timestamp_value te (convert_timestamp t @ rest) timezone =
      (case load_zone te timezone of
         None \<Rightarrow> Inl (Panic ''time: missing Location in call to Date'')
       | Some loc \<Rightarrow> Inr (VDate (t\<lparr>t_nanosecond := t_nanosecond t div 100000 * 100000\<rparr>) loc)) \<and>
    (\<forall>loc. regular_near te loc (civil_seconds t) \<longrightarrow>
      (local_seconds te loc (date_unix te loc (t\<lparr>t_nanosecond := t_nanosecond t div 100000 * 100000\<rparr>)) = civil_seconds t \<longleftrightarrow>
       (\<exists>sec. local_seconds te loc sec = civil_seconds t)))"
proof -
  let ?t = "t\<lparr>t_nanosecond := t_nanosecond t div 100000 * 100000\<rparr>"
  have "0 \<le> t_nanosecond t" "t_nanosecond t < 1000000000" using assms(4) by (simp_all add: valid_time_of_day_def)
  then have "t_nanosecond t div 100000 * 100000 div 1000000000 = 0" "t_nanosecond t div 1000000000 = 0"
    by (simp_all add: div_pos_pos_trivial)
  then have c: "civil_seconds ?t = civil_seconds t" by (simp add: civil_seconds_def)
  have "timestamp_value te (convert_timestamp t @ rest) timezone = go_Date ?t (load_zone te timezone)"
    by (simp add: timestamp_value_def fields_convert_timestamp [OF assms])
  then show ?thesis using date_unix_exists [of te _ ?t] by (simp add: go_Date_def c)
qed

text \<open>A zone by its table of changes: from a second on, a name and an offset.\<close>

fun table_lookup :: "int \<Rightarrow> string \<times> int \<Rightarrow> (int \<times> string \<times> int) list \<Rightarrow> int \<Rightarrow> string \<times> int \<times> int \<times> int" where
  "table_lookup since (name, offset) [] sec = (name, offset, since, last_second)"
| "table_lookup since (name, offset) ((at, zone) # changes) sec =
     (if sec < at then (name, offset, since, at) else table_lookup at zone changes sec)"

text \<open>The changes of the clock in Oslo from 2019 to 2024.\<close>

definition oslo_changes :: "(int \<times> string \<times> int) list" where
  "oslo_changes =
     [(1553994000, ''CEST'', 7200), (1572138000, ''CET'', 3600), (1585443600, ''CEST'', 7200), (1603587600, ''CET'', 3600),
      (1616893200, ''CEST'', 7200), (1635642000, ''CET'', 3600), (1648342800, ''CEST'', 7200), (1667091600, ''CET'', 3600),
      (1679792400, ''CEST'', 7200), (1698541200, ''CET'', 3600), (1711846800, ''CEST'', 7200), (1729990800, ''CET'', 3600)]"

definition summer_time :: time_env where
  "summer_time = \<lparr> te_known = (\<lambda>z. z = ''Europe/Oslo''), te_today = (2024, 7, 1),
     te_lookup = (\<lambda>_. table_lookup first_second (''CET'', 3600) oslo_changes),
     te_zone_name = (\<lambda>i. if i = 65150 then ''Europe/Oslo'' else []),
     te_zone_id = (\<lambda>z. if z = ''Europe/Oslo'' then 65150 else if z = ''UTC'' then 65535 else 0) \<rparr>"

lemma oslo_lookup_2024:
  "1698541200 \<le> sec \<Longrightarrow> sec < 1729990800 \<Longrightarrow> te_lookup summer_time (Named n) sec =
    (if sec < 1711846800 then (''CET'', 3600, 1698541200, 1711846800) else (''CEST'', 7200, 1711846800, 1729990800))"
  by (simp add: summer_time_def oslo_changes_def)

lemma oslo_offsets: "snd (zone_at summer_time (Named n) sec) = 3600 \<or> snd (zone_at summer_time (Named n) sec) = 7200"
  by (simp add: zone_at_def summer_time_def oslo_changes_def)

lemma oslo_regular:
  assumes "1698541200 + 86400 \<le> u" "u + 86400 \<le> 1729990800"
  shows "regular_near summer_time (Named n) u"
proof -
  have "\<bar>snd (zone_at summer_time (Named n) sec)\<bar> < 86400" for sec using oslo_offsets [of n sec] by auto
  moreover have "1698541200 \<le> sec" "sec < 1729990800" if "\<bar>sec - u\<bar> < 86400" for sec using that assms by auto
  ultimately show ?thesis by (auto simp: regular_near_def oslo_lookup_2024)
qed

text \<open>An evening in February; and half past two of the night in which the clock is put forward.\<close>

definition skipped_time :: go_time where
  "skipped_time = \<lparr> t_year = 2024, t_month = 3, t_day = 31, t_hour = 2, t_minute = 30, t_second = 0, t_nanosecond = 0 \<rparr>"

theorem timestamp_roundtrip_witness:
  "timestamp_value summer_time (convert_timestamp sample_time @ [7]) ''Europe/Oslo'' =
     Inr (VDate (sample_time\<lparr>t_nanosecond := 123400000\<rparr>) (Named ''Europe/Oslo'')) \<and>
   local_seconds summer_time (Named ''Europe/Oslo'') (date_unix summer_time (Named ''Europe/Oslo'') (sample_time\<lparr>t_nanosecond := 123400000\<rparr>)) =
     civil_seconds sample_time \<and>
   timestamp_value summer_time (convert_timestamp skipped_time) ''Europe/Oslo'' = Inr (VDate skipped_time (Named ''Europe/Oslo'')) \<and>
   local_seconds summer_time (Named ''Europe/Oslo'') (date_unix summer_time (Named ''Europe/Oslo'') skipped_time) \<noteq> civil_seconds skipped_time \<and>
   timestamp_value summer_time (convert_timestamp skipped_time) ''Mars/Olympus'' = Inl (Panic ''time: missing Location in call to Date'')"
proof -
  let ?l = "Named ''Europe/Oslo''"
  have c: "civil_seconds sample_time = 1709251198" "civil_seconds skipped_time = 1711852200"
    by (simp_all add: civil_seconds_def sample_time_def skipped_time_def unix_days_def)
  have ok: "valid_date 2024 2 29" "valid_date 2024 3 31" "valid_time_of_day sample_time" "valid_time_of_day skipped_time"
    by (simp_all add: sample_time_def skipped_time_def valid_date_def days_in_month_def leap_year_def valid_time_of_day_def)
  have z: "load_zone summer_time ''Europe/Oslo'' = Some ?l" "load_zone summer_time ''Mars/Olympus'' = None"
    by (simp_all add: load_zone_def summer_time_def)
  have shown: "\<exists>sec. local_seconds summer_time ?l sec = 1709251198"
    by (rule exI [of _ 1709247598]) (simp add: local_seconds_def zone_at_def oslo_lookup_2024)
  have skipped: "local_seconds summer_time ?l sec \<noteq> 1711852200" for sec
  proof
    assume s: "local_seconds summer_time ?l sec = 1711852200"
    then have "1698541200 \<le> sec" "sec < 1729990800" using oslo_offsets [of "''Europe/Oslo''" sec] by (auto simp: local_seconds_def)
    then show False using s by (simp add: local_seconds_def zone_at_def oslo_lookup_2024 split: if_splits)
  qed
  have r: "regular_near summer_time ?l (civil_seconds sample_time)" "regular_near summer_time ?l (civil_seconds skipped_time)"
    unfolding c by (rule oslo_regular; simp)+
  show ?thesis
    using timestamp_roundtrip [of sample_time summer_time "[7]" "''Europe/Oslo''"]
      timestamp_roundtrip [of skipped_time summer_time "[]" "''Europe/Oslo''"]
      timestamp_roundtrip [of skipped_time summer_time "[]" "''Mars/Olympus''"] ok r shown skipped z c
    by (auto simp: sample_time_def skipped_time_def)
qed

text \<open>C2: A time with time zone does not come back as it was written when the zone's offset today differs from
  its offset on the base date: the encoder takes off the offset of the clock today, the decoder adds
  that of 2020-01-01, so the clock read is the clock written plus the difference, modulo a day. The
  zone's offset is the same throughout 2020-01-01, and may be any at other times.\<close>

theorem time_tz_shifts:
  assumes "valid_time_of_day t" "known_zone te loc tzID"
    "\<And>sec. 1577836800 \<le> sec \<Longrightarrow> sec < 1577923200 \<Longrightarrow> zone_at te loc sec = (z2, o2)"
  shows "\<exists>t'. time_tz_value te (convert_time_tz te t loc tzID) = Inr (VDate t' (FixedZone z2 o2)) \<and>
    clock_seconds t' = (clock_seconds t + o2 - date_offset te loc (on_today te t)) mod 86400 \<and>
    t_nanosecond t' = t_nanosecond t div 100000 * 100000"
proof -
  define o1 where "o1 = date_offset te loc (on_today te t)"
  define u where "u = add_seconds (on_today te t) (- o1)"
  define ns where "ns = t_nanosecond t div 100000 * 100000"
  define v where "v = \<lparr> t_year = 2020, t_month = 1, t_day = 1, t_hour = t_hour u, t_minute = t_minute u,
    t_second = t_second u, t_nanosecond = ns \<rparr>"
  have t: "valid_time_of_day (on_today te t)" "clock_seconds (on_today te t) = clock_seconds t"
    "t_nanosecond (on_today te t) = t_nanosecond t"
    using assms(1) by (simp_all add: on_today_def valid_time_of_day_def clock_seconds_def split: prod.split)
  have u: "valid_time_of_day u" "clock_seconds u = (clock_seconds t - o1) mod 86400" "t_nanosecond u = t_nanosecond t"
    using add_seconds_time [OF t(1), of "- o1"] t by (simp_all add: u_def)
  have b: "convert_time_tz te t loc tzID = convert_time u @ timezoneToBytes tzID"
    by (simp add: convert_time_tz_def utc_of_def o1_def u_def)
  have p: "bind_res (go_slice (convert_time u @ timezoneToBytes tzID) 0 4) parseTime =
      Inr (t_hour u, t_minute u, t_second u, ns)"
    using parseTime_convert_time [OF u(1)] u(3) by (simp add: ns_def)
  have ns: "0 \<le> ns" "ns < 1000000000" using assms(1) by (auto simp: ns_def valid_time_of_day_def)
  have "0 \<le> clock_seconds u" "clock_seconds u < 86400" by (simp_all add: u(2))
  moreover have "civil_seconds v = 1577836800 + clock_seconds u"
    using ns by (simp add: civil_seconds_def v_def clock_seconds_def unix_days_def div_pos_pos_trivial)
  ultimately have z: "te_utc_zone te loc v = (z2, o2)" by (simp add: te_utc_zone_def assms(3))
  have r: "time_tz_value te (convert_time_tz te t loc tzID) = Inr (VDate (wall_clock v o2) (FixedZone z2 o2))"
    unfolding time_tz_value_def b p parse_zone_bytes [OF assms(2)]
    using z by (simp add: go_Date_def Let_def v_def)
  have "clock_seconds (wall_clock v o2) = (clock_seconds u + o2) mod 86400"
    unfolding clock_seconds_def [of "wall_clock v o2"] wall_clock_def Let_def
    using ns day_clock [of "clock_seconds u + o2"] by (simp add: v_def clock_seconds_def)
  then have "clock_seconds (wall_clock v o2) = (clock_seconds t + o2 - o1) mod 86400"
    by (simp add: u(2) mod_add_left_eq diff_add_eq)
  moreover have "t_nanosecond (wall_clock v o2) = ns" using ns by (simp add: wall_clock_def Let_def v_def)
  ultimately show ?thesis using r by (auto simp: ns_def o1_def)
qed

text \<open>On the first of July half past twelve comes back as half past eleven.\<close>

theorem time_tz_shifts_witness:
  "\<exists>t'. time_tz_value summer_time (convert_time_tz summer_time
      \<lparr> t_year = 0, t_month = 1, t_day = 1, t_hour = 12, t_minute = 30, t_second = 0, t_nanosecond = 0 \<rparr> (Named ''Europe/Oslo'') 65150) =
     Inr (VDate t' (FixedZone ''CET'' 3600)) \<and> clock_seconds t' = 11 * 3600 + 30 * 60"
proof -
  let ?t = "\<lparr> t_year = 0, t_month = 1, t_day = 1, t_hour = 12, t_minute = 30, t_second = 0, t_nanosecond = 0 \<rparr>"
  let ?l = "Named ''Europe/Oslo''"
  have "zone_at summer_time ?l sec = (''CET'', 3600)" if "1577836800 \<le> sec" "sec < 1577923200" for sec
    using that by (simp add: zone_at_def summer_time_def oslo_changes_def)
  moreover have "civil_seconds (on_today summer_time ?t) = 1719837000"
    by (simp add: on_today_def summer_time_def civil_seconds_def unix_days_def)
  then have "date_offset summer_time ?l (on_today summer_time ?t) = 7200"
    by (simp add: date_offset_def oslo_lookup_2024)
  moreover have "valid_time_of_day ?t" "known_zone summer_time ?l 65150"
    by (simp_all add: valid_time_of_day_def known_zone_def summer_time_def)
  ultimately show ?thesis
    using time_tz_shifts [of ?t summer_time ?l 65150 "''CET''" 3600] by (simp add: clock_seconds_def) blast
qed

end
