(* ===== verification/Go_Any.thy ===== *)
theory Go_Any
  imports Zoned_Time
begin

text \<open>
  The dynamically typed values an application hands to the driver (\<open>driver.Value\<close>, \<open>any\<close>) and
  the conversions of \<open>batch_encode.go\<close> on them. Integers carry their Go kind; floats are IEEE bit
  patterns. \<open>AOther\<close> is a value of any further type, with the name of the type and what
  \<open>%v\<close> prints for it. The record \<open>num_env\<close> is what is asked of package \<open>strconv\<close> and of the
  hardware: parsing a decimal float, converting an out-of-range float to an integer, printing
  floats and times, and scaling by a power of ten.
\<close>

datatype int_kind = KInt | KInt8 | KInt16 | KInt32 | KInt64 | KUint | KUint8 | KUint16 | KUint32 | KUint64

datatype go_any =
    ANil
  | AInt int_kind int
  | ANamedInt string int
  | AFloat32 "32 word"
  | AFloat64 "64 word"
  | ABool bool
  | AStr string
  | ABytes bytes
  | ATime go_time go_loc
  | AArray "go_any list option"
  | AOther string string

record num_env =
  ne_parse_float :: "string \<Rightarrow> 64 word option"
  ne_float_overflow :: "64 word \<Rightarrow> int"
  ne_show :: "go_any \<Rightarrow> string"
  ne_scaled :: "64 word \<Rightarrow> int32 \<Rightarrow> int"

subsection \<open>Floats\<close>

text \<open>Round to nearest, ties to even: \<open>m / 2 ^ d\<close>.\<close>

definition round_shift :: "nat \<Rightarrow> nat \<Rightarrow> nat" where
  "round_shift m d =
     (let q = m div 2 ^ d; r = m mod 2 ^ d
      in if 2 * r > 2 ^ d \<or> (2 * r = 2 ^ d \<and> odd q) then q + 1 else q)"

text \<open>\<open>float32(f)\<close>: the fields are rounded to the unit of the narrower format, which is never finer
  than its subnormals; a carry out of the fraction moves into the exponent by itself.\<close>

definition narrow_float :: "64 word \<Rightarrow> 32 word" where
  "narrow_float w =
     (let s = unat (drop_bit 63 w); e = unat (drop_bit 52 w AND 0x7ff); f = unat (w AND 0xfffffffffffff)
      in if e = 0x7ff then of_nat (s * 2 ^ 31 + 255 * 2 ^ 23 + (if f = 0 then 0 else (f div 2 ^ 29) mod 2 ^ 22 + 2 ^ 22))
         else
           (let m = (if e = 0 then f else f + 2 ^ 52); k = max (max e 1) 897; d = k + 29 - max e 1;
                bits = (k - 897) * 2 ^ 23 + round_shift m d
            in of_nat (s * 2 ^ 31 + min bits (255 * 2 ^ 23))))"

definition float_of_int :: "int \<Rightarrow> 64 word" where
  "float_of_int i =
     (if i = 0 then 0
      else let m = nat \<bar>i\<bar>; k = top_bit m;
               bits = (if k \<le> 52 then (1022 + k) * 2 ^ 52 + m * 2 ^ (52 - k)
                       else (1022 + k) * 2 ^ 52 + round_shift m (k - 52))
           in of_nat ((if i < 0 then 2 ^ 63 else 0) + bits))"

text \<open>\<open>int64(f)\<close>: truncation; out of range (and for NaN) the result is up to the hardware.\<close>

definition int_of_float :: "num_env \<Rightarrow> 64 word \<Rightarrow> int" where
  "int_of_float ne w =
     (let s = drop_bit 63 w \<noteq> 0; e = unat (drop_bit 52 w AND 0x7ff); f = unat (w AND 0xfffffffffffff);
          m = (if e = 0 then f else f + 2 ^ 52);
          v = int (if e \<ge> 1075 then m * 2 ^ (e - 1075) else m div 2 ^ (1075 - max e 1));
          i = (if s then - v else v)
      in if e = 0x7ff \<or> i < - (2 ^ 63) \<or> i \<ge> 2 ^ 63 then ne_float_overflow ne w else i)"

subsection \<open>Conversions\<close>

text \<open>\<open>int64(t)\<close> on an unsigned value wraps.\<close>

definition wrap64 :: "int \<Rightarrow> int" where
  "wrap64 i = sint (word_of_int i :: int64)"

text \<open>\<open>strconv.ParseInt(s, 10, 64)\<close>\<close>

definition ParseInt64 :: "string \<Rightarrow> int res" where
  "ParseInt64 s =
     (let neg = has_prefix ''-'' s; ds = (if neg \<or> has_prefix ''+'' s then tl s else s)
      in case parse_nat ds of
           None \<Rightarrow> Inl (Plain ''strconv.ParseInt: parsing: invalid syntax'')
         | Some n \<Rightarrow>
             (let i = (if neg then - int n else int n)
              in if ds = '''' then Inl (Plain ''strconv.ParseInt: parsing: invalid syntax'')
                 else if i < - (2 ^ 63) \<or> i \<ge> 2 ^ 63 then Inl (Plain ''strconv.ParseInt: parsing: value out of range'')
                 else Inr i))"

fun toInt64 :: "num_env \<Rightarrow> go_any \<Rightarrow> int res" where
  "toInt64 ne (AInt k i) = Inr (wrap64 i)"
| "toInt64 ne (AFloat64 w) = Inr (int_of_float ne w)"
| "toInt64 ne (AFloat32 w) = Inr (int_of_float ne (widen_float w))"
| "toInt64 ne (AStr s) = ParseInt64 s"
| "toInt64 ne (ABytes b) = ParseInt64 (bytes_to_str b)"
| "toInt64 ne (ANamedInt n i) = Inr i"
| "toInt64 ne v = Inl (Plain ''cannot convert %T to int64'')"

fun toFloat64 :: "num_env \<Rightarrow> go_any \<Rightarrow> 64 word res" where
  "toFloat64 ne (AFloat32 w) = Inr (widen_float w)"
| "toFloat64 ne (AFloat64 w) = Inr w"
| "toFloat64 ne (AInt k i) =
     (if k = KInt \<or> k = KInt32 \<or> k = KInt64 then Inr (float_of_int i) else Inl (Plain ''cannot convert %T to float64''))"
| "toFloat64 ne (AStr s) =
     (case ne_parse_float ne s of Some w \<Rightarrow> Inr w | None \<Rightarrow> Inl (Plain ''strconv.ParseFloat: parsing: invalid syntax''))"
| "toFloat64 ne v = Inl (Plain ''cannot convert %T to float64'')"

fun toBool :: "go_any \<Rightarrow> bool res" where
  "toBool (ABool b) = Inr b"
| "toBool (AInt k i) = (if k = KInt \<or> k = KInt64 then Inr (i \<noteq> 0) else Inl (Plain ''cannot convert %T to bool''))"
| "toBool v = Inl (Plain ''cannot convert %T to bool'')"

text \<open>\<open>fmt.Sprintf("%v", v)\<close>, which a \<open>Stringer\<close> answers itself.\<close>

fun sprint_v :: "num_env \<Rightarrow> go_any \<Rightarrow> string" where
  "sprint_v ne (AInt k i) = itoa i"
| "sprint_v ne (AStr s) = s"
| "sprint_v ne (ABool b) = (if b then ''true'' else ''false'')"
| "sprint_v ne ANil = ''<nil>''"
| "sprint_v ne (AOther t s) = s"
| "sprint_v ne v = ne_show ne v"

fun toString :: "num_env \<Rightarrow> go_any \<Rightarrow> string res" where
  "toString ne (AStr s) = Inr s"
| "toString ne (ABytes b) = Inr (bytes_to_str b)"
| "toString ne v = Inr (sprint_v ne v)"

fun toTime :: "go_any \<Rightarrow> (go_time \<times> go_loc) res" where
  "toTime (ATime t l) = Inr (t, l)"
| "toTime v = Inl (Plain ''cannot convert %T to time.Time'')"

lemma no_panic_conversions [simp]:
  "no_panic (toInt64 ne v)" "no_panic (toFloat64 ne v)" "no_panic (toBool v)" "no_panic (toString ne v)" "no_panic (toTime v)"
proof -
  have "no_panic (ParseInt64 s)" for s by (simp add: ParseInt64_def Let_def split: option.split)
  then show "no_panic (toInt64 ne v)" by (cases v) simp_all
qed (cases v; simp split: option.split)+
end
