(* ===== verification/Array_Shape.thy ===== *)
theory Array_Shape
  imports Go_Any
begin

text \<open>
  The shape of array values (\<open>array.go\<close>): counting elements, the shape of a partly stored array,
  the Go slices an application passes, nested or not, and the target a fetched array is scanned
  into. A Go \<open>int\<close> is \<open>int\<close>; the products that the code guards against overflow are guarded at
  the same bound.
\<close>

definition maxInt :: int where "maxInt = 2 ^ 63 - 1"

subsection \<open>Counting\<close>

fun count_loop :: "array_dimension list \<Rightarrow> int \<Rightarrow> int" where
  "count_loop [] count = count"
| "count_loop (d # ds) count =
     (if ad_Length d \<le> 0 then 0
      else if count > maxInt sdiv ad_Length d then 0
      else count_loop ds (count * ad_Length d))"

definition allElementsCount :: "array_dimension list \<Rightarrow> int" where
  "allElementsCount dims = (if dims = [] then 0 else count_loop dims 1)"

definition elementsInTrailingAxes :: "array_dimension list \<Rightarrow> int" where
  "elementsInTrailingAxes dims = foldl (\<lambda>total d. total * ad_Length d) 1 (tl dims)"

definition lowersOf :: "array_dimension list \<Rightarrow> int list" where
  "lowersOf dims = map LowerBound dims"

subsection \<open>Partly stored arrays\<close>

fun shrink_axes :: "array_dimension list \<Rightarrow> int \<Rightarrow> array_dimension list res" where
  "shrink_axes [] missing = Inr []"
| "shrink_axes (d # ds) missing =
     (let tail = elementsInTrailingAxes (d # ds)
      in if tail \<le> 0 then Inl (Plain ''firebirdsql: array dimension %d is not positive'')
         else bind_res (shrink_axes ds (missing smod tail)) (\<lambda>out.
           Inr (\<lparr> LowerBound = LowerBound d, ad_Length = ad_Length d - missing sdiv tail \<rparr> # out)))"

definition shrinkDimensions :: "array_dimension list \<Rightarrow> int \<Rightarrow> array_dimension list res" where
  "shrinkDimensions declared actual =
     (let missing = allElementsCount declared - actual
      in if missing < 0 then Inl (Plain ''firebirdsql: array holds %d elements but the column declares %d'')
         else shrink_axes declared missing)"

text \<open>The runs of linear indices that hold elements, and the position after them.\<close>

type_synonym ranges = "(int \<times> int) list"

primrec repeat_ranges :: "nat \<Rightarrow> (int \<Rightarrow> ranges \<times> int) \<Rightarrow> int \<Rightarrow> ranges \<times> int" where
  "repeat_ranges 0 f pos = ([], pos)"
| "repeat_ranges (Suc n) f pos =
     (let (rs, pos) = f pos; (rs', pos) = repeat_ranges n f pos in (rs @ rs', pos))"

primrec walkPresentRanges :: "array_dimension list \<Rightarrow> array_dimension list \<Rightarrow> int \<Rightarrow> ranges \<times> int" where
  "walkPresentRanges [] actual pos = ([], pos)"
| "walkPresentRanges (d # ds) actual pos =
     (if ds \<noteq> [] then
        (let (rs, pos) = repeat_ranges (nat (ad_Length (hd actual))) (walkPresentRanges ds (tl actual)) pos
         in (rs, pos + elementsInTrailingAxes (d # ds) * (ad_Length d - ad_Length (hd actual))))
      else ([(pos, pos + ad_Length (hd actual) - 1)], pos + ad_Length d))"

definition presentIndexRanges :: "array_dimension list \<Rightarrow> array_dimension list \<Rightarrow> ranges" where
  "presentIndexRanges declared actual = fst (walkPresentRanges declared actual 0)"

subsection \<open>Slices of slices\<close>

text \<open>
  A Go value of a slice type: its elements, which are slices again down to the element type. How
  many slice levels the type has is static, and is the argument \<open>depth\<close> of the functions that ask
  for the kind of a type.
\<close>

datatype nest = Elem go_any | Nest "nest list"

fun nest_items :: "nest \<Rightarrow> nest list" where
  "nest_items (Nest xs) = xs"
| "nest_items (Elem v) = []"

definition nest_len :: "nest \<Rightarrow> nat" where
  "nest_len s = length (nest_items s)"

text \<open>\<open>isSliceRagged\<close>: \<open>lens\<close> holds the length found first on each level.\<close>

fun ragged_items :: "(nest \<Rightarrow> nat list \<Rightarrow> bool \<times> nat list) \<Rightarrow> nat \<Rightarrow> nat option \<Rightarrow> nest list \<Rightarrow> nat list \<Rightarrow> bool \<times> nat list" where
  "ragged_items inner lvl innerLen [] lens = (False, lens)"
| "ragged_items inner lvl innerLen (s # ss) lens =
     (case innerLen of
        None \<Rightarrow>
          if lvl < length lens then
            (if lens ! lvl \<noteq> nest_len s then (True, lens)
             else (let (r, lens) = inner s lens
                   in if r then (True, lens) else ragged_items inner lvl (Some (nest_len s)) ss lens))
          else (let (r, lens) = inner s (lens @ [nest_len s])
                in if r then (True, lens) else ragged_items inner lvl (Some (nest_len s)) ss lens)
      | Some n \<Rightarrow>
          if nest_len s \<noteq> n then (True, lens)
          else (let (r, lens) = inner s lens
                in if r then (True, lens) else ragged_items inner lvl (Some n) ss lens))"

primrec isSliceRagged :: "nat \<Rightarrow> nat \<Rightarrow> nest \<Rightarrow> nat list \<Rightarrow> bool \<times> nat list" where
  "isSliceRagged 0 lvl s lens = (False, lens)"
| "isSliceRagged (Suc depth) lvl s lens =
     (if depth = 0 then (False, lens)
      else ragged_items (isSliceRagged depth (lvl + 1)) lvl None (nest_items s) lens)"

definition isRagged :: "nat \<Rightarrow> nest \<Rightarrow> bool" where
  "isRagged depth s \<longleftrightarrow> fst (isSliceRagged depth 0 s []) "

text \<open>\<open>anyMultiDimSliceGetter.Dimensions\<close>: one axis for each level, following the first elements.\<close>

definition lower_at :: "int list \<Rightarrow> nat \<Rightarrow> int" where
  "lower_at lowers depth = (if depth < length lowers then lowers ! depth else 1)"

definition too_deep :: go_error where
  "too_deep = Plain ''firebirdsql: array argument has more dimensions than the column''"

primrec first_axes :: "nat \<Rightarrow> int list \<Rightarrow> nat \<Rightarrow> nest \<Rightarrow> array_dimension list res" where
  "first_axes 0 lowers depth s = Inr []"
| "first_axes (Suc levels) lowers depth s =
     (if lowers \<noteq> [] \<and> depth = length lowers then Inl too_deep
      else
        (let axis = \<lparr> LowerBound = lower_at lowers depth, ad_Length = int (nest_len s) \<rparr>
         in if nest_len s = 0 \<or> levels = 0 then Inr [axis]
            else bind_res (first_axes levels lowers (depth + 1) (hd (nest_items s))) (\<lambda>ds. Inr (axis # ds))))"

primrec type_axes :: "nat \<Rightarrow> int list \<Rightarrow> nat \<Rightarrow> array_dimension list res" where
  "type_axes 0 lowers depth = Inr []"
| "type_axes (Suc levels) lowers depth =
     (if lowers \<noteq> [] \<and> depth = length lowers then Inl too_deep
      else bind_res (type_axes levels lowers (depth + 1)) (\<lambda>ds.
        Inr (\<lparr> LowerBound = lower_at lowers depth, ad_Length = 0 \<rparr> # ds)))"

definition multi_Dimensions :: "nat \<Rightarrow> nest \<Rightarrow> int list \<Rightarrow> array_dimension list res" where
  "multi_Dimensions depth s lowers =
     (if nest_len s > 0 then first_axes depth lowers 0 s else type_axes depth lowers 0)"

text \<open>\<open>Index(i)\<close>: the linear index is taken apart from the last axis to the first.\<close>

fun axis_indexes :: "array_dimension list \<Rightarrow> int \<Rightarrow> int list \<Rightarrow> int list" where
  "axis_indexes [] i acc = acc"
| "axis_indexes (d # ds) i acc = axis_indexes ds (i sdiv ad_Length d) ((i smod ad_Length d) # acc)"

fun nest_index :: "nest \<Rightarrow> int list \<Rightarrow> nest res" where
  "nest_index s [] = Inr s"
| "nest_index s (i # is) =
     (if 0 \<le> i \<and> i < int (nest_len s) then nest_index (nest_items s ! nat i) is
      else Inl (Panic ''reflect: slice index out of range''))"

definition multi_Index :: "array_dimension list \<Rightarrow> nest \<Rightarrow> int \<Rightarrow> nest res" where
  "multi_Index dims s i =
     (if length dims \<le> 1 then nest_index s [i] else nest_index s (axis_indexes (rev dims) i []))"

subsection \<open>Arguments\<close>

text \<open>
  What an argument can be: invalid, a nil pointer, a slice of one of the seven element types with a
  case of its own, a slice of slices, another slice, a Go array, or anything else. A nil slice is
  \<open>None\<close>.
\<close>

datatype go_arg =
    GInvalid
  | GNilPtr
  | GTyped "go_any list option"
  | GNested nat "nest option"
  | GSlice "go_any list option"
  | GArray "go_any list"
  | GPlain

datatype getter = FlatSetter "go_any list option" | AnySlice "go_any list option" | AnyArray "go_any list" | MultiDim nat "nest option"

definition getArrayEncodeType :: "go_arg \<Rightarrow> getter res" where
  "getArrayEncodeType v = (case v of
     GInvalid \<Rightarrow> Inl (Plain ''firebirdsql: unsupported array argument type %T'')
   | GNilPtr \<Rightarrow> Inl (Plain ''firebirdsql: cannot encode array from nil %T'')
   | GTyped xs \<Rightarrow> Inr (FlatSetter xs)
   | GNested depth s \<Rightarrow>
       if isRagged depth (case s of Some s \<Rightarrow> s | None \<Rightarrow> Nest [])
       then Inl (Plain ''firebirdsql: cannot encode a ragged multi-dimensional array'')
       else Inr (MultiDim depth s)
   | GSlice xs \<Rightarrow> Inr (AnySlice xs)
   | GArray xs \<Rightarrow> Inr (AnyArray xs)
   | GPlain \<Rightarrow> Inl (Plain ''firebirdsql: unsupported array argument type %T''))"

definition flat_axis :: "int list \<Rightarrow> 'a list \<Rightarrow> array_dimension list" where
  "flat_axis lowers xs =
     [\<lparr> LowerBound = (if lowers \<noteq> [] then hd lowers else 1), ad_Length = int (length xs) \<rparr>]"

text \<open>\<open>Dimensions\<close>: nil for a nil slice; \<open>reflect.Value.IsNil\<close> panics on a Go array.\<close>

fun getter_Dimensions :: "getter \<Rightarrow> int list \<Rightarrow> array_dimension list option res" where
  "getter_Dimensions (FlatSetter None) lowers = Inr None"
| "getter_Dimensions (FlatSetter (Some xs)) lowers = Inr (Some (flat_axis lowers xs))"
| "getter_Dimensions (AnySlice None) lowers = Inr None"
| "getter_Dimensions (AnySlice (Some xs)) lowers = Inr (Some (flat_axis lowers xs))"
| "getter_Dimensions (AnyArray xs) lowers = Inl (Panic ''reflect: call of reflect.Value.IsNil on array Value'')"
| "getter_Dimensions (MultiDim depth None) lowers = Inr None"
| "getter_Dimensions (MultiDim depth (Some s)) lowers = map_sum id Some (multi_Dimensions depth s lowers)"

text \<open>\<open>Index\<close>, with the dimensions the getter reported.\<close>

fun getter_Index :: "getter \<Rightarrow> array_dimension list \<Rightarrow> int \<Rightarrow> nest res" where
  "getter_Index (FlatSetter xs) dims i = map_sum id Elem (go_index (case xs of Some xs \<Rightarrow> xs | None \<Rightarrow> []) i)"
| "getter_Index (AnySlice xs) dims i = map_sum id Elem (go_index (case xs of Some xs \<Rightarrow> xs | None \<Rightarrow> []) i)"
| "getter_Index (AnyArray xs) dims i = map_sum id Elem (go_index xs i)"
| "getter_Index (MultiDim depth s) dims i = multi_Index dims (case s of Some s \<Rightarrow> s | None \<Rightarrow> Nest []) i"

definition isNilValue :: "nest \<Rightarrow> bool" where
  "isNilValue v \<longleftrightarrow> v = Elem ANil"

fun elem_value :: "nest \<Rightarrow> go_any" where
  "elem_value (Elem v) = v"
| "elem_value (Nest xs) = AOther ''slice'' ''''"

primrec read_elements :: "(int \<Rightarrow> nest res) \<Rightarrow> nat \<Rightarrow> int \<Rightarrow> go_any list res" where
  "read_elements idx 0 i = Inr []"
| "read_elements idx (Suc n) i =
     bind_res (idx i) (\<lambda>e.
       if isNilValue e then Inl (Plain ''firebirdsql: cannot encode NULL array element at index %d'')
       else bind_res (read_elements idx n (i + 1)) (\<lambda>es. Inr (elem_value e # es)))"

definition elementsFromGetter ::
    "getter \<Rightarrow> array_dimension list \<Rightarrow> (go_any list \<times> array_dimension list) option res" where
  "elementsFromGetter g declared =
     bind_res (getter_Dimensions g (lowersOf declared)) (\<lambda>d. case d of
       None \<Rightarrow> Inr None
     | Some dims \<Rightarrow>
         (let argCount = allElementsCount dims
          in if declared \<noteq> [] \<and> allElementsCount declared < argCount
             then Inl (Plain ''firebirdsql: array argument has %d elements but the column holds %d'')
             else bind_res (read_elements (getter_Index g dims) (nat argCount) 0) (\<lambda>es. Inr (Some (es, dims)))))"

text \<open>The slice branch of \<open>CheckNamedValue\<close>: the argument becomes a flat \<open>ArrayValue\<close>.\<close>

definition check_slice :: "go_arg \<Rightarrow> go_any res" where
  "check_slice v =
     bind_res (getArrayEncodeType v) (\<lambda>g.
     bind_res (elementsFromGetter g []) (\<lambda>r. Inr (AArray (map_option fst r))))"

subsection \<open>Scan targets\<close>

datatype elem_target = TInt16 | TInt32 | TInt64 | TFloat32 | TFloat64 | TString | TTime | TBool | TOther

definition in_range :: "int \<Rightarrow> int \<Rightarrow> int \<Rightarrow> bool" where
  "in_range lo hi i \<longleftrightarrow> lo \<le> i \<and> i \<le> hi"

definition scanArrayElement :: "num_env \<Rightarrow> elem_target \<Rightarrow> go_any \<Rightarrow> go_any res" where
  "scanArrayElement ne dst src = (case dst of
     TInt16 \<Rightarrow> bind_res (toInt64 ne src) (\<lambda>v.
       if \<not> in_range (-32768) 32767 v then Inl (Plain ''value %d out of int16 range'') else Inr (AInt KInt16 v))
   | TInt32 \<Rightarrow> bind_res (toInt64 ne src) (\<lambda>v.
       if \<not> in_range (-2147483648) 2147483647 v then Inl (Plain ''value %d out of int32 range'') else Inr (AInt KInt32 v))
   | TInt64 \<Rightarrow> bind_res (toInt64 ne src) (\<lambda>v. Inr (AInt KInt64 v))
   | TFloat32 \<Rightarrow> bind_res (toFloat64 ne src) (\<lambda>w. Inr (AFloat32 (narrow_float w)))
   | TFloat64 \<Rightarrow> bind_res (toFloat64 ne src) (\<lambda>w. Inr (AFloat64 w))
   | TString \<Rightarrow> bind_res (toString ne src) (\<lambda>s. Inr (AStr s))
   | TTime \<Rightarrow> (case src of ATime t l \<Rightarrow> Inr (ATime t l) | _ \<Rightarrow> Inl (Plain ''cannot scan %T into time.Time''))
   | TBool \<Rightarrow> (case src of ABool b \<Rightarrow> Inr (ABool b) | _ \<Rightarrow> Inl (Plain ''cannot scan %T into bool''))
   | TOther \<Rightarrow> Inl (Plain ''unsupported element target %T''))"

text \<open>
  \<open>fillArraySetter\<close>: the target is sized to the shape, its elements are filled one after the other
  from the indices of the runs. The result is the shape and the elements filled.
\<close>

definition element_error :: "'a res \<Rightarrow> 'a res" where
  "element_error r = map_sum (Wrapped ''firebirdsql: array element %d: %w'') id r"

primrec fill_run :: "(go_any \<Rightarrow> go_any res) \<Rightarrow> go_any list \<Rightarrow> int \<Rightarrow> nat \<Rightarrow> int \<Rightarrow> int \<Rightarrow> go_any list res" where
  "fill_run scan elements cap 0 i idx = Inr []"
| "fill_run scan elements cap (Suc n) i idx =
     (if idx < int (length elements) then
        (if cap \<le> idx then Inl (Panic ''index out of range'')
         else bind_res (go_index elements i) (\<lambda>e.
              bind_res (element_error (scan e)) (\<lambda>v.
              bind_res (fill_run scan elements cap n (i + 1) (idx + 1)) (\<lambda>vs. Inr (v # vs)))))
      else Inr [])"

fun fill_ranges :: "(go_any \<Rightarrow> go_any res) \<Rightarrow> go_any list \<Rightarrow> int \<Rightarrow> ranges \<Rightarrow> int \<Rightarrow> go_any list res" where
  "fill_ranges scan elements cap [] idx = Inr []"
| "fill_ranges scan elements cap ((start, stop) # rs) idx =
     bind_res (fill_run scan elements cap (nat (stop - start + 1)) start idx) (\<lambda>vs.
     bind_res (fill_ranges scan elements cap rs (idx + int (length vs))) (\<lambda>ws. Inr (vs @ ws)))"

definition fillArraySetter ::
    "(go_any \<Rightarrow> go_any res) \<Rightarrow> array_meta \<Rightarrow> go_any list option \<Rightarrow> (array_dimension list option \<times> go_any list) res" where
  "fillArraySetter scan m elements = (case elements of
     None \<Rightarrow> Inr (None, [])
   | Some es \<Rightarrow>
       if es = [] then Inr (Some [], [])
       else if 1 < length (am_Dimensions m) \<and> int (length es) \<noteq> allElementsCount (am_Dimensions m)
       then Inl (Plain ''firebirdsql: truncated multi-dimensional array: %d of %d elements'')
       else bind_res (shrinkDimensions (am_Dimensions m) (int (length es))) (\<lambda>dims.
            bind_res (fill_ranges scan es (allElementsCount dims) (presentIndexRanges (am_Dimensions m) dims) 0) (\<lambda>vs.
              Inr (Some dims, vs))))"

text \<open>\<open>Scan\<close> of both wrappers: nil, an array value with its metadata, or an error.\<close>

datatype scan_source = SrcNil | SrcArray "array_meta option" "go_any list option" | SrcOther

definition array_Scan ::
    "(go_any \<Rightarrow> go_any res) \<Rightarrow> scan_source \<Rightarrow> (array_dimension list option \<times> go_any list) res" where
  "array_Scan scan src = (case src of
     SrcNil \<Rightarrow> Inr (None, [])
   | SrcOther \<Rightarrow> Inl (Plain ''firebirdsql: cannot scan array column from %T'')
   | SrcArray m es \<Rightarrow>
       (case es of None \<Rightarrow> Inr (None, [])
        | Some _ \<Rightarrow> (case m of None \<Rightarrow> Inl (Plain ''firebirdsql: cannot scan array column: metadata unavailable'')
                     | Some m \<Rightarrow> fillArraySetter scan m es)))"
end
