(* ===== verification/Array_Codec.thy ===== *)
theory Array_Codec
  imports Array_Shape Fetch
begin

text \<open>
  Array slices: the slice description of \<open>array_sdl.go\<close>, the element codec of
  \<open>array_meta.go\<close> and the two slice requests of \<open>wireprotocol.go\<close>. A slice travels element by
  element, each element in its XDR form.
\<close>

subsection \<open>Element types\<close>

definition arrayTypeFromBlr :: "int \<Rightarrow> int res" where
  "arrayTypeFromBlr blr =
     (if blr = blr_type_varying \<or> blr = blr_type_varying2 then Inr SQL_TYPE_VARYING
      else if blr = blr_type_text \<or> blr = blr_type_text2 \<or> blr = blr_type_cstring \<or> blr = blr_type_cstring2 then Inr SQL_TYPE_TEXT
      else if blr = 7 then Inr SQL_TYPE_SHORT
      else if blr = 8 then Inr SQL_TYPE_LONG
      else if blr = 9 then Inr SQL_TYPE_QUAD
      else if blr = blr_type_int64 then Inr SQL_TYPE_INT64
      else if blr = blr_type_double then Inr SQL_TYPE_DOUBLE
      else if blr = 10 then Inr SQL_TYPE_FLOAT
      else if blr = 11 then Inr SQL_TYPE_D_FLOAT
      else if blr = 12 then Inr SQL_TYPE_DATE
      else if blr = 13 then Inr SQL_TYPE_TIME
      else if blr = blr_type_time_tz then Inr SQL_TYPE_TIME_TZ
      else if blr = blr_type_timestamp then Inr SQL_TYPE_TIMESTAMP
      else if blr = blr_type_ts_tz then Inr SQL_TYPE_TIMESTAMP_TZ
      else if blr = blr_type_bool then Inr SQL_TYPE_BOOLEAN
      else if blr = blr_type_dec64 then Inr SQL_TYPE_DEC64
      else if blr = blr_type_dec128 then Inr SQL_TYPE_DEC128
      else if blr = blr_type_int128 then Inr SQL_TYPE_INT128
      else Inl (Plain ''firebirdsql: unknown array element blr type %d''))"

definition arrayElementStride :: "array_meta \<Rightarrow> int" where
  "arrayElementStride m =
     (let t = am_TypeID m in
      if t = SQL_TYPE_SHORT then 2
      else if t \<in> {SQL_TYPE_LONG, SQL_TYPE_FLOAT, SQL_TYPE_DATE, SQL_TYPE_TIME} then 4
      else if t \<in> {SQL_TYPE_INT64, SQL_TYPE_DOUBLE, SQL_TYPE_TIMESTAMP} then 8
      else if t = SQL_TYPE_BOOLEAN then 1
      else if t = SQL_TYPE_TEXT then uint (am_Length m)
      else if t = SQL_TYPE_VARYING then 2 + uint (am_Length m)
      else uint (am_Length m))"

definition arrayGetElementStride :: "array_meta \<Rightarrow> int" where
  "arrayGetElementStride m =
     (if am_TypeID m = SQL_TYPE_TEXT then uint (am_FieldBytes m)
      else if am_TypeID m = SQL_TYPE_VARYING then 2 + uint (am_FieldBytes m)
      else arrayElementStride m)"

definition arraySliceAppLength :: "array_meta \<Rightarrow> array_dimension list \<Rightarrow> int" where
  "arraySliceAppLength m dims =
     (let elements = allElementsCount dims
      in if elements = 0 then 0 else wrap64 (elements * arrayElementStride m))"

definition arraySliceGetLength :: "array_meta \<Rightarrow> array_dimension list \<Rightarrow> int" where
  "arraySliceGetLength m dims =
     (let elements = allElementsCount dims
      in if elements = 0 then 0 else wrap64 (elements * arrayGetElementStride m))"

definition roundUp4 :: "int \<Rightarrow> int" where
  "roundUp4 n = (let r = n smod 4 in if r \<noteq> 0 then n + 4 - r else n)"

text \<open>The wire size of an element, and whether it carries its own length.\<close>

definition sliceWireElementSize :: "array_meta \<Rightarrow> int \<times> bool" where
  "sliceWireElementSize m =
     (let t = am_TypeID m in
      if t \<in> {SQL_TYPE_INT64, SQL_TYPE_DOUBLE, SQL_TYPE_TIMESTAMP} then (8, False)
      else if t = SQL_TYPE_VARYING then (uint (am_FieldBytes m), True)
      else if t = SQL_TYPE_TEXT then (roundUp4 (uint (am_FieldBytes m)), False)
      else (4, False))"

definition putSliceWireElementSize :: "array_meta \<Rightarrow> int" where
  "putSliceWireElementSize m =
     (if am_TypeID m = SQL_TYPE_TEXT then roundUp4 (uint (am_Length m))
      else let (n, varying) = sliceWireElementSize m in if varying then 4 else n)"

subsection \<open>The slice description\<close>

definition appendDimensionBound :: "int \<Rightarrow> bytes" where
  "appendDimensionBound v =
     (if -128 \<le> v \<and> v \<le> 127 then [isc_sdl_tiny_integer, word_of_int v]
      else if -32768 \<le> v \<and> v \<le> 32767 then isc_sdl_short_integer # int16_to_bytes (word_of_int v)
      else isc_sdl_long_integer # int32_to_bytes (word_of_int v))"

definition sdl_type :: "array_meta \<Rightarrow> bool \<Rightarrow> bytes" where
  "sdl_type m forGet =
     (let blr = am_BlrTypeID m in
      if blr \<in> {7, 8, 9, blr_type_int64} then [ucast (am_Scale m)]
      else if blr \<in> {blr_type_text, blr_type_text2, blr_type_cstring, blr_type_cstring2, blr_type_varying} then
        int16_to_bytes (ucast (if forGet then am_FieldBytes m else am_Length m))
      else [])"

fun sdl_axes :: "nat \<Rightarrow> array_dimension list \<Rightarrow> bytes" where
  "sdl_axes i [] = []"
| "sdl_axes i (d # ds) =
     (if LowerBound d = 1 then [isc_sdl_do1, of_nat i]
      else [isc_sdl_do2, of_nat i] @ appendDimensionBound (LowerBound d)) @
     appendDimensionBound (LowerBound d + ad_Length d - 1) @ sdl_axes (Suc i) ds"

definition generateSDL :: "array_meta \<Rightarrow> array_dimension list \<Rightarrow> bool \<Rightarrow> bytes" where
  "generateSDL m dims forGet =
     [isc_sdl_version1, isc_sdl_struct, 1, word_of_int (am_BlrTypeID m)] @ sdl_type m forGet @
     [isc_sdl_relation, of_nat (length (am_TableName m))] @ str_to_bytes (am_TableName m) @
     [isc_sdl_field, of_nat (length (am_FieldName m))] @ str_to_bytes (am_FieldName m) @
     sdl_axes 0 dims @
     [isc_sdl_element, 1, isc_sdl_scalar, 0, of_nat (length dims)] @
     concat (map (\<lambda>i. [isc_sdl_variable, of_nat i]) [0 ..< length dims]) @ [isc_sdl_eoc]"

subsection \<open>Encoding elements\<close>

definition toScaledInt64 :: "num_env \<Rightarrow> go_any \<Rightarrow> int32 \<Rightarrow> int res" where
  "toScaledInt64 ne e scale =
     (if scale = 0 then toInt64 ne e else bind_res (toFloat64 ne e) (\<lambda>f. Inr (ne_scaled ne f scale)))"

definition int_element :: "num_env \<Rightarrow> array_meta \<Rightarrow> go_any \<Rightarrow> int \<Rightarrow> int \<Rightarrow> string \<Rightarrow> bytes res" where
  "int_element ne m e lo hi msg =
     bind_res (toScaledInt64 ne e (am_Scale m)) (\<lambda>v.
       if v < lo \<or> v > hi then Inl (Plain msg) else Inr (bint32_to_bytes (word_of_int v)))"

text \<open>The text padded with blanks to its slot; the copy stops at the end of the slot.\<close>

definition text_slot :: "bytes \<Rightarrow> int \<Rightarrow> bytes" where
  "text_slot enc n = enc @ replicate (nat n - length enc) 0x20"

definition encodeArrayElement :: "num_env \<Rightarrow> wire_protocol \<Rightarrow> array_meta \<Rightarrow> go_any \<Rightarrow> bytes res" where
  "encodeArrayElement ne p m e =
     (let t = am_TypeID m in
      if t = SQL_TYPE_SHORT then int_element ne m e (-32768) 32767 ''value %d out of SMALLINT range''
      else if t = SQL_TYPE_LONG then int_element ne m e (-2147483648) 2147483647 ''value %d out of INTEGER range''
      else if t = SQL_TYPE_INT64 \<or> t = SQL_TYPE_QUAD then
        bind_res (toScaledInt64 ne e (am_Scale m)) (\<lambda>v. Inr (bint64_to_bytes (word_of_int v)))
      else if t = SQL_TYPE_FLOAT then
        bind_res (toFloat64 ne e) (\<lambda>f. Inr (bint32_to_bytes (narrow_float f)))
      else if t = SQL_TYPE_DOUBLE then bind_res (toFloat64 ne e) (\<lambda>f. Inr (bint64_to_bytes f))
      else if t = SQL_TYPE_BOOLEAN then
        (case e of ABool b \<Rightarrow> Inr [if b then 1 else 0, 0, 0, 0] | _ \<Rightarrow> Inl (Plain ''cannot encode %T as BOOLEAN element''))
      else if t = SQL_TYPE_TEXT then
        bind_res (toString ne e) (\<lambda>s. let enc = str_to_bytes (encodeString s p) in
          if int (length enc) > uint (am_Length m) then Inl (Plain ''value %q too long for CHAR(%d) array element'')
          else Inr (text_slot enc (roundUp4 (uint (am_Length m)))))
      else if t = SQL_TYPE_VARYING then
        bind_res (toString ne e) (\<lambda>s. let enc = str_to_bytes (encodeString s p) in
          if int (length enc) > uint (am_Length m) then Inl (Plain ''value %q too long for VARCHAR(%d) array element'')
          else Inr (be_bytes 4 (length enc) @ enc @ replicate (nat (roundUp4 (int (length enc))) - length enc) 0))
      else if t = SQL_TYPE_DATE then bind_res (toTime e) (\<lambda>(c, l). Inr (snd (dateToBlr c)))
      else if t = SQL_TYPE_TIME then bind_res (toTime e) (\<lambda>(c, l). Inr (snd (timeToBlrNoTZ c)))
      else if t = SQL_TYPE_TIMESTAMP then bind_res (toTime e) (\<lambda>(c, l). Inr (snd (timestampToBlrNoTZ c)))
      else if t = SQL_TYPE_TIME_TZ \<or> t = SQL_TYPE_TIMESTAMP_TZ then Inl (Plain ''array elements of type %s are not supported yet'')
      else Inl (Plain ''unsupported array element type %s''))"

primrec encode_elements :: "num_env \<Rightarrow> wire_protocol \<Rightarrow> array_meta \<Rightarrow> go_any list \<Rightarrow> bytes res" where
  "encode_elements ne p m [] = Inr []"
| "encode_elements ne p m (e # es) =
     bind_res (map_sum (Wrapped ''element %d: %w'') id (encodeArrayElement ne p m e)) (\<lambda>b.
     bind_res (encode_elements ne p m es) (\<lambda>bs. Inr (b @ bs)))"

definition encodeSliceElements :: "num_env \<Rightarrow> wire_protocol \<Rightarrow> array_meta \<Rightarrow> go_any list \<Rightarrow> bytes res" where
  "encodeSliceElements ne p m elements =
     (let declared = allElementsCount (am_Dimensions m) in
      if declared > 0 \<and> int (length elements) > declared
      then Inl (Plain ''array argument has %d elements but the column holds %d'')
      else encode_elements ne p m elements)"

definition padSliceWire :: "array_meta \<Rightarrow> bytes \<Rightarrow> int \<Rightarrow> bytes" where
  "padSliceWire m data actual =
     (let missing = allElementsCount (am_Dimensions m) - actual in
      if missing \<le> 0 then data else data @ replicate (nat (missing * putSliceWireElementSize m)) 0)"

subsection \<open>Decoding elements\<close>

function count_varying :: "bytes \<Rightarrow> int \<Rightarrow> int res" where
  "count_varying data count =
     (if data = [] then Inr count
      else if length data < 4 then Inl (Plain ''array varying element length prefix truncated'')
      else let l = be_val (take 4 data) + 4 in
        if l > length data then Inl (Plain ''array varying element length exceeds remaining bytes'')
        else count_varying (drop l data) (count + 1))"
  by pat_completeness auto
termination by (relation "measure (\<lambda>(data, count). length data)") auto

declare count_varying.simps [simp del]

definition sliceElementCount :: "array_meta \<Rightarrow> bytes \<Rightarrow> int res" where
  "sliceElementCount m data =
     (let (elemLen, varying) = sliceWireElementSize m in
      if varying then count_varying data 0
      else if elemLen < 1 then Inl (Plain ''array element length must not be less than 1'')
      else Inr (int (length data) sdiv elemLen))"

text \<open>The bytes of the element at a position, and the position after it.\<close>

definition element_raw :: "array_meta \<Rightarrow> bytes \<Rightarrow> int \<Rightarrow> (bytes \<times> int) res" where
  "element_raw m data pos =
     (let (elemLen, varying) = sliceWireElementSize m in
      if varying then
        (if int (length data) - pos < 4 then Inl (Plain ''array body truncated at element %d'')
         else bind_res (go_slice data pos (pos + 4)) (\<lambda>b. let l = int (be_val b) in
           if l < 0 \<or> pos + 4 + l > int (length data) then Inl (Plain ''array element %d length %d exceeds remaining %d bytes'')
           else bind_res (go_slice data (pos + 4) (pos + 4 + l)) (\<lambda>raw. Inr (raw, pos + 4 + l))))
      else if pos + elemLen > int (length data) then Inl (Plain ''array body truncated at element %d'')
      else bind_res (go_slice data pos (pos + elemLen)) (\<lambda>raw.
        bind_res (if am_TypeID m = SQL_TYPE_BOOLEAN then go_slice raw 0 1 else Inr raw) (\<lambda>raw. Inr (raw, pos + elemLen))))"

text \<open>Fetched elements as application values; the zero bytes of a slot that was never written go.\<close>

fun any_of :: "time_env \<Rightarrow> go_value \<Rightarrow> go_any" where
  "any_of te VNil = ANil"
| "any_of te (VInt i) = AInt KInt64 i"
| "any_of te (VStr s) = AStr s"
| "any_of te (VBytes b) = ABytes b"
| "any_of te (VBool b) = ABool b"
| "any_of te (VFloat w) = AFloat64 w"
| "any_of te (VDate t l) = ATime t l"
| "any_of te (VInstant t l) = ATime (add_seconds t (snd (te_utc_zone te l t))) l"

definition trim_nul :: "string \<Rightarrow> string" where
  "trim_nul s = rev (dropWhile (\<lambda>c. c = CHR 0x00) (rev s))"

definition element_var :: "array_meta \<Rightarrow> xsqlvar" where
  "element_var m = zero_var\<lparr>sqltype := am_TypeID m, sqlscale := sint (am_Scale m), sqlsubtype := sint (am_SubType m),
     sqllen := uint (am_Length m)\<rparr>"

definition element_value :: "time_env \<Rightarrow> wire_protocol \<Rightarrow> array_meta \<Rightarrow> bytes \<Rightarrow> go_value res" where
  "element_value te p m raw =
     bind_res (map_sum (Wrapped ''element %d: %w'') id
       (column_value (p_env p) te (p_timezone p) (p_charset p) (element_var m) raw)) (\<lambda>v.
     Inr (case v of VStr s \<Rightarrow> (if am_TypeID m = SQL_TYPE_TEXT then VStr (trim_nul s) else VStr s) | _ \<Rightarrow> v))"

primrec decode_elements :: "time_env \<Rightarrow> wire_protocol \<Rightarrow> array_meta \<Rightarrow> bytes \<Rightarrow> nat \<Rightarrow> int \<Rightarrow> go_value list res" where
  "decode_elements te p m data 0 pos = Inr []"
| "decode_elements te p m data (Suc n) pos =
     bind_res (element_raw m data pos) (\<lambda>(raw, pos).
     bind_res (element_value te p m raw) (\<lambda>v.
     bind_res (decode_elements te p m data n pos) (\<lambda>vs. Inr (v # vs))))"

definition decodeSliceElements :: "time_env \<Rightarrow> wire_protocol \<Rightarrow> array_meta \<Rightarrow> bytes \<Rightarrow> go_value list res" where
  "decodeSliceElements te p m data =
     (if data = [] then Inr []
      else if am_TypeID m = SQL_TYPE_TIME_TZ \<or> am_TypeID m = SQL_TYPE_TIMESTAMP_TZ
      then Inl (Plain ''array elements of type %s are not supported yet'')
      else bind_res (sliceElementCount m data) (\<lambda>count. decode_elements te p m data (nat count) 0))"

subsection \<open>The slice requests\<close>

text \<open>The next opcode that is not a keep-alive; unlike \<open>skip_dummy\<close> this loop stops on an error.\<close>

function next_op :: "int32 wm" where
  "next_op p = (case recv_int p of (Inl e, q) \<Rightarrow> (Inl e, q)
     | (Inr w, q) \<Rightarrow> if w = op_dummy then next_op q else (Inr w, q))"
  by pat_completeness auto
termination
  by (relation "measure (\<lambda>p. length (p_inbound p))") (auto dest!: sym [of _ "recv_int _"] recv_int_less)

declare next_op.simps [simp del]

definition recv_slice_element :: "array_meta \<Rightarrow> bytes wm" where
  "recv_slice_element m =
     (let (elemLen, varying) = sliceWireElementSize m in
      if varying then
        wbind recv_int (\<lambda>w. let l = sint w in
          if l < 0 \<or> l > uint (am_FieldBytes m) \<or> l > maxWirePayload
          then werr (Wrapped ''firebirdsql: array varchar element length %d out of range: %w'' (BadConn ''driver: bad connection''))
          else wbind (recvPacketsAlignment l) (\<lambda>d. wret (bint32_to_bytes w @ d)))
      else recvPacketsAlignment elemLen)"

primrec recv_slice_elements :: "array_meta \<Rightarrow> nat \<Rightarrow> bytes wm" where
  "recv_slice_elements m 0 = wret []"
| "recv_slice_elements m (Suc n) =
     wbind (recv_slice_element m) (\<lambda>d. wbind (recv_slice_elements m n) (\<lambda>ds. wret (d @ ds)))"

definition slice_body :: "array_meta \<Rightarrow> bytes wm" where
  "slice_body m = wbind recv_int (\<lambda>slr. wbind recv_int (\<lambda>lstr.
     let slrLen = sint slr; lstrLen = sint lstr in
     if lstrLen < 0 \<or> slrLen < 0 \<or> lstrLen > maxWirePayload
     then werr (Wrapped ''firebirdsql: slice length %d/%d out of range: %w'' (BadConn ''driver: bad connection''))
     else if lstrLen = 0 then wret []
     else
       (let stride = arrayGetElementStride m in
        if stride < 1 then werr (Plain ''firebirdsql: invalid array element stride %d'')
        else
          (let count = lstrLen sdiv stride; most = allElementsCount (am_Dimensions m) in
           if most > 0 \<and> count > most
           then werr (Wrapped ''firebirdsql: slice reports %d elements, column declares %d: %w'' (BadConn ''driver: bad connection''))
           else recv_slice_elements m (nat count)))))"

definition opSliceResponse :: "array_meta \<Rightarrow> bytes wm" where
  "opSliceResponse m = wbind next_op (\<lambda>w.
     if w = op_slice_response then slice_body m
     else if w = op_response then
       wbind parse_op_response (\<lambda>(h, oid, buf, err). case err of
         Some e \<Rightarrow> werr e
       | None \<Rightarrow> werr (Plain ''firebirdsql: array slice request failed: %s''))
     else werr (OpResponse (sint w)))"

definition opGetSlice :: "int32 \<Rightarrow> int64 \<Rightarrow> array_meta \<Rightarrow> bytes wm" where
  "opGetSlice transHandle arrayID m =
     (let appLen = arraySliceGetLength m (am_Dimensions m) in
      if appLen \<le> 0 \<or> appLen > maxWirePayload then werr (Plain ''firebirdsql: array slice length %d out of range'')
      else wbind (send_fields [FInt op_get_slice, FInt transHandle, FRaw (bint64_to_bytes arrayID),
               FInt (word_of_int appLen), FBytes (generateSDL m (am_Dimensions m) True), FBytes [], FBytes []]) (\<lambda>_.
           opSliceResponse m))"

text \<open>Like \<open>createBlob\<close> this runs while a packet is being packed: the packet is set aside.\<close>

definition put_slice_request :: "int32 \<Rightarrow> array_meta \<Rightarrow> int \<Rightarrow> bytes \<Rightarrow> bytes wm" where
  "put_slice_request transHandle m appLen wire =
     wbind (send_fields [FInt op_put_slice, FInt transHandle, FRaw (bint64_to_bytes 0), FInt (word_of_int appLen),
         FBytes (generateSDL m (am_Dimensions m) False), FBytes [], FInt (word_of_int appLen), FRaw wire]) (\<lambda>_.
     wbind opResponse (\<lambda>(h, oid, buf). wret oid))"

definition opPutSlice :: "int32 \<Rightarrow> array_meta \<Rightarrow> bytes \<Rightarrow> int \<Rightarrow> int64 wm" where
  "opPutSlice transHandle m data elementCount p =
     (let appLen = arraySliceAppLength m (am_Dimensions m) in
      if appLen \<le> 0 \<or> appLen > maxWirePayload \<or> length data > maxWirePayload
      then (Inl (Plain ''firebirdsql: array slice length %d out of range''), p)
      else
        (let (r, q) = put_slice_request transHandle m appLen (padSliceWire m data elementCount) (p\<lparr>p_buf := []\<rparr>)
         in (bind_res r (\<lambda>oid. bind_res (bytes_to_bint64 oid) (\<lambda>i.
               if i = 0 then Inl (Plain ''firebirdsql: array put failed: server returned array id 0'') else Inr i)),
             resumeBuffer (p_buf p) q)))"

end
