(* ===== verification/Array_Shape_Props.thy ===== *)
theory Array_Shape_Props
  imports Array_Shape
begin

text \<open>
  What holds of array shapes: a fetched array fills its target in wire order, whole or, in one
  dimension, a prefix; a rectangular nested slice is accepted and flattened row by row.
\<close>

subsection \<open>Volumes\<close>

definition volume :: "array_dimension list \<Rightarrow> int" where
  "volume ds = prod_list (map ad_Length ds)"

definition shape_ok :: "array_dimension list \<Rightarrow> bool" where
  "shape_ok ds \<longleftrightarrow> list_all (\<lambda>d. 0 < ad_Length d) ds \<and> volume ds \<le> maxInt"

lemma volume_simps [simp]: "volume [] = 1" "volume (d # ds) = ad_Length d * volume ds"
  by (simp_all add: volume_def)

lemma volume_pos: "list_all (\<lambda>d. 0 < ad_Length d) ds \<Longrightarrow> 0 < volume ds"
  by (induction ds) simp_all

lemma count_loop_eq:
  "list_all (\<lambda>d. 0 < ad_Length d) ds \<Longrightarrow> 0 < count \<Longrightarrow> count * volume ds \<le> maxInt \<Longrightarrow> count_loop ds count = count * volume ds"
proof (induction ds arbitrary: count)
  case (Cons d ds)
  have v: "0 < volume ds" using Cons.prems(1) volume_pos by simp
  have c: "count * ad_Length d * volume ds \<le> maxInt" using Cons.prems(3) by (simp add: mult.assoc)
  have p: "0 < count * ad_Length d" using Cons.prems by simp
  have "count * ad_Length d * 1 \<le> count * ad_Length d * volume ds" using p v by (intro mult_left_mono) simp_all
  then have "count * ad_Length d div ad_Length d \<le> maxInt div ad_Length d" using c Cons.prems(1) by (intro zdiv_mono1) simp_all
  then have "count \<le> maxInt div ad_Length d" using Cons.prems(1) by simp
  then have "\<not> count > maxInt sdiv ad_Length d" using Cons.prems(1) by (simp add: sdiv_nonneg maxInt_def)
  then show ?case using Cons.IH [of "count * ad_Length d"] Cons.prems(1) p c by (simp add: mult.assoc)
qed simp

lemma allElementsCount_eq: "shape_ok ds \<Longrightarrow> ds \<noteq> [] \<Longrightarrow> allElementsCount ds = volume ds"
  using count_loop_eq [of ds 1] by (simp add: allElementsCount_def shape_ok_def)

lemma trailing_eq: "elementsInTrailingAxes (d # ds) = volume ds"
proof -
  have "foldl (\<lambda>total d. total * ad_Length d) c ds = c * volume ds" for c
    by (induction ds arbitrary: c) (simp_all add: mult.assoc)
  then show ?thesis by (simp add: elementsInTrailingAxes_def)
qed

lemma shape_ok_Cons: "shape_ok (d # ds) \<Longrightarrow> shape_ok ds"
proof -
  assume s: "shape_ok (d # ds)"
  then have "0 < volume ds" "0 < ad_Length d" using volume_pos by (auto simp: shape_ok_def)
  then have "1 * volume ds \<le> ad_Length d * volume ds" by (intro mult_right_mono) simp_all
  then show ?thesis using s by (simp add: shape_ok_def)
qed

lemma shrink_none: "list_all (\<lambda>d. 0 < ad_Length d) ds \<Longrightarrow> shrink_axes ds 0 = Inr ds"
proof (induction ds)
  case (Cons d ds)
  have "0 < volume ds" using Cons.prems volume_pos by simp
  then show ?case using Cons by (simp add: trailing_eq Let_def sdiv_nonneg smod_nonneg)
qed simp

subsection \<open>Runs\<close>

definition run_indices :: "ranges \<Rightarrow> int list" where
  "run_indices rs = concat (map (\<lambda>(a, b). [a..b]) rs)"

lemma run_indices_append: "run_indices (rs @ rs') = run_indices rs @ run_indices rs'"
  by (simp add: run_indices_def)

lemma upto_join: "a \<le> b \<Longrightarrow> b \<le> c \<Longrightarrow> [a..b - 1] @ [b..c - 1] = [a..c - (1 :: int)]"
proof (cases "b \<le> c - 1")
  assume "a \<le> b" "b \<le> c" "b \<le> c - 1"
  then show ?thesis using upto_split1 [of a b "c - 1"] by simp
next
  assume "b \<le> c" "\<not> b \<le> c - 1"
  then have "b = c" by simp
  then show ?thesis by simp
qed

lemma repeat_full:
  assumes "0 \<le> v" "\<And>pos. run_indices (fst (f pos)) = [pos..pos + v - 1]" "\<And>pos. snd (f pos) = pos + v"
  shows "run_indices (fst (repeat_ranges n f pos)) = [pos..pos + int n * v - 1] \<and> snd (repeat_ranges n f pos) = pos + int n * v"
proof (induction n arbitrary: pos)
  case (Suc n)
  obtain rs p where f: "f pos = (rs, p)" by fastforce
  have p: "p = pos + v" "run_indices rs = [pos..pos + v - 1]" using assms(2,3) [of pos] f by simp_all
  obtain rs' p' where r: "repeat_ranges n f p = (rs', p')" by fastforce
  have IH: "run_indices rs' = [p..p + int n * v - 1]" "p' = p + int n * v" using Suc [of p] r by simp_all
  have "[pos..p - 1] @ [p..p + int n * v - 1] = [pos..p + int n * v - 1]"
    using assms(1) p by (intro upto_join) simp_all
  then show ?case using f r IH p by (simp add: run_indices_append algebra_simps)
qed (simp add: run_indices_def)

lemma walk_full:
  "ds \<noteq> [] \<Longrightarrow> list_all (\<lambda>d. 0 < ad_Length d) ds \<Longrightarrow>
   run_indices (fst (walkPresentRanges ds ds pos)) = [pos..pos + volume ds - 1] \<and>
   snd (walkPresentRanges ds ds pos) = pos + volume ds"
proof (induction ds arbitrary: pos)
  case (Cons d ds)
  show ?case
  proof (cases "ds = []")
    case False
    have v: "0 \<le> volume ds" using Cons.prems volume_pos [of ds] by simp
    have IH: "run_indices (fst (walkPresentRanges ds ds p)) = [p..p + volume ds - 1]"
      "snd (walkPresentRanges ds ds p) = p + volume ds" for p using Cons.IH [OF False, of p] Cons.prems by simp_all
    show ?thesis
      using repeat_full [OF v IH, of "nat (ad_Length d)" pos] Cons.prems False
      by (simp split: prod.split)
  qed (simp add: run_indices_def)
qed simp

subsection \<open>Filling a target\<close>

lemma fill_run_eq:
  assumes "\<forall>e \<in> set es. scan e = Inr (g e)" "int (length es) \<le> cap"
  shows "k + n \<le> length es \<Longrightarrow> fill_run scan es cap n (int k) (int k) = Inr (map g (take n (drop k es)))"
proof (induction n arbitrary: k)
  case (Suc n)
  have k: "k < length es" using Suc.prems by simp
  have "drop k es = es ! k # drop (Suc k) es" using k by (simp add: Cons_nth_drop_Suc)
  moreover have "scan (es ! k) = Inr (g (es ! k))" using assms(1) k by simp
  moreover have "fill_run scan es cap n (int k + 1) (int k + 1) = Inr (map g (take n (drop (Suc k) es)))"
    using Suc.IH [of "Suc k"] Suc.prems by (simp add: add.commute)
  moreover have "go_index es (int k) = Inr (es ! k)" using k by simp
  ultimately show ?case using k assms(2) by (simp add: element_error_def)
qed simp

lemma first_run:
  assumes "a \<le> b" "[a..b] @ rest = [i..m :: int]"
  shows "a = i \<and> b \<le> m \<and> rest = [b + 1..m]"
proof -
  have ne: "i \<le> m" using assms by (cases "i \<le> m") simp_all
  have a: "a = i" using assms ne upto_rec1 [of a b] upto_rec1 [of i m] by simp
  have "length [a..b] \<le> length [i..m]" using arg_cong [OF assms(2), of length] by simp
  then have b: "b \<le> m" using assms(1) a ne by simp
  have "[i..m] = [i..b] @ [b + 1..m]" using assms(1) a b by (intro upto_split2) simp_all
  then show ?thesis using assms(2) a b by simp
qed

lemma fill_ranges_eq:
  assumes "\<forall>e \<in> set es. scan e = Inr (g e)" "int (length es) \<le> cap"
  shows "run_indices rs = [int k..int (length es) - 1] \<Longrightarrow> k \<le> length es \<Longrightarrow>
    fill_ranges scan es cap rs (int k) = Inr (map g (drop k es))"
proof (induction rs arbitrary: k)
  case (Cons r rs)
  obtain a b where r: "r = (a, b)" by fastforce
  have e: "[a..b] @ run_indices rs = [int k..int (length es) - 1]" using Cons.prems(1) by (simp add: r run_indices_def)
  show ?case
  proof (cases "a \<le> b")
    case True
    define n where "n = nat (b - a + 1)"
    have f: "a = int k" "b \<le> int (length es) - 1" "run_indices rs = [b + 1..int (length es) - 1]"
      using first_run [OF True e] by simp_all
    then have n: "k + n \<le> length es" "b + 1 = int (k + n)" using True by (simp_all add: n_def)
    have "fill_ranges scan es cap rs (int (k + n)) = Inr (map g (drop (k + n) es))"
      by (rule Cons.IH) (use f(3) n in simp_all)
    moreover have "take n (drop k es) @ drop (k + n) es = drop k es"
      by (metis add.commute append_take_drop_id drop_drop)
    ultimately show ?thesis
      using fill_run_eq [OF assms n(1)] n(1) by (simp add: r f(1) n_def [symmetric, unfolded f(1)] flip: map_append)
  next
    case False
    then show ?thesis using Cons.IH [of k] Cons.prems e by (simp add: r)
  qed
qed (simp add: run_indices_def)

lemma fill_whole:
  assumes "shape_ok (am_Dimensions m)" "am_Dimensions m \<noteq> []" "int (length es) = volume (am_Dimensions m)"
    "\<forall>e \<in> set es. scan e = Inr (g e)"
  shows "fillArraySetter scan m (Some es) = Inr (Some (am_Dimensions m), map g es)"
proof -
  let ?ds = "am_Dimensions m"
  have p: "list_all (\<lambda>d. 0 < ad_Length d) ?ds" using assms(1) by (simp add: shape_ok_def)
  have c: "allElementsCount ?ds = int (length es)" using allElementsCount_eq assms(1-3) by simp
  have ne: "es \<noteq> []" using volume_pos [OF p] assms(3) by auto
  have "run_indices (presentIndexRanges ?ds ?ds) = [int 0..int (length es) - 1]"
    using walk_full [OF assms(2) p, of 0] assms(3) by (simp add: presentIndexRanges_def)
  from fill_ranges_eq [OF assms(4) _ this, of "int (length es)"] show ?thesis
    using ne c shrink_none [OF p] by (simp add: fillArraySetter_def shrinkDimensions_def)
qed

lemma fill_prefix:
  assumes "am_Dimensions m = [d]" "int (length es) \<le> ad_Length d" "ad_Length d \<le> maxInt" "es \<noteq> []"
    "\<forall>e \<in> set es. scan e = Inr (g e)"
  shows "fillArraySetter scan m (Some es) = Inr (Some [d\<lparr>ad_Length := int (length es)\<rparr>], map g es)"
proof -
  let ?d = "d\<lparr>ad_Length := int (length es)\<rparr>"
  have p: "0 < int (length es)" using assms(4) by simp
  have d: "0 < ad_Length d" "int (length es) \<le> maxInt" using p assms(2,3) by linarith+
  have ok: "shape_ok [d]" "shape_ok [?d]" using d(2) p by (simp_all add: shape_ok_def d(1) assms(3))
  have c: "allElementsCount [d] = ad_Length d" "allElementsCount [?d] = int (length es)"
    using allElementsCount_eq [OF ok(1)] allElementsCount_eq [OF ok(2)] by simp_all
  have s: "shrinkDimensions [d] (int (length es)) = Inr [?d]"
    using assms(2) by (simp add: shrinkDimensions_def c trailing_eq sdiv_nonneg Let_def)
  have "run_indices (presentIndexRanges [d] [?d]) = [int 0..int (length es) - 1]"
    by (simp add: presentIndexRanges_def run_indices_def)
  from fill_ranges_eq [OF assms(5) _ this, of "int (length es)"] show ?thesis
    using assms(1,4) c s by (simp add: fillArraySetter_def)
qed

subsection \<open>Nested slices\<close>

fun has_shape :: "nat list \<Rightarrow> nest \<Rightarrow> bool" where
  "has_shape [] (Elem v) = True"
| "has_shape (n # ns) (Nest xs) = (length xs = n \<and> list_all (has_shape ns) xs)"
| "has_shape _ _ = False"

fun nest_values :: "nest \<Rightarrow> go_any list" where
  "nest_values (Elem v) = [v]"
| "nest_values (Nest xs) = concat (map nest_values xs)"

definition axes_of :: "nat list \<Rightarrow> array_dimension list" where
  "axes_of ns = map (\<lambda>n. \<lparr> LowerBound = 1, ad_Length = int n \<rparr>) ns"

lemma axes_of_simps [simp]: "axes_of [] = []" "axes_of (n # ns) = \<lparr> LowerBound = 1, ad_Length = int n \<rparr> # axes_of ns"
  "length (axes_of ns) = length ns" "volume (axes_of ns) = int (prod_list ns)"
  by (simp_all add: axes_of_def volume_def) (induction ns; simp)

lemma has_shape_ConsE:
  assumes "has_shape (n # ns) s"
  obtains xs where "s = Nest xs" "length xs = n" "list_all (has_shape ns) xs"
  using assms by (cases s) simp_all

lemma length_nest_values: "has_shape ns s \<Longrightarrow> length (nest_values s) = prod_list ns"
proof (induction ns arbitrary: s)
  case Nil
  then show ?case by (cases s) simp_all
next
  case (Cons n ns)
  obtain xs where xs: "s = Nest xs" "length xs = n" "list_all (has_shape ns) xs" using Cons.prems by (rule has_shape_ConsE)
  have "map (length \<circ> nest_values) xs = replicate n (prod_list ns)"
    using xs Cons.IH by (intro replicate_eqI) (auto simp: list_all_iff)
  then show ?case by (simp add: xs(1) length_concat sum_list_replicate)
qed

lemma nth_concat_blocks:
  "\<forall>y \<in> set ys. length y = P \<Longrightarrow> i < length ys * P \<Longrightarrow> concat ys ! i = ys ! (i div P) ! (i mod P)"
proof (induction ys arbitrary: i)
  case (Cons y ys)
  show ?case
  proof (cases "i < P")
    case False
    then have P: "0 < P" "P \<le> i" using Cons.prems(2) by (cases P; simp)+
    have "concat ys ! (i - P) = ys ! ((i - P) div P) ! ((i - P) mod P)" using Cons P by (intro Cons.IH) auto
    moreover have "i div P = Suc ((i - P) div P)" "(i - P) mod P = i mod P" using P by (simp_all add: le_div_geq le_mod_geq)
    ultimately show ?thesis using Cons.prems(1) False by (simp add: nth_append)
  qed (use Cons.prems in \<open>simp add: nth_append\<close>)
qed simp

primrec coords :: "array_dimension list \<Rightarrow> int \<Rightarrow> int list" where
  "coords [] i = []"
| "coords (d # ds) i = (i div volume ds) # coords ds (i mod volume ds)"

lemma axis_indexes_coords:
  "list_all (\<lambda>d. 0 < ad_Length d) ds \<Longrightarrow> 0 \<le> i \<Longrightarrow>
   axis_indexes (rev ds @ rest) i acc = axis_indexes rest (i div volume ds) (coords ds (i mod volume ds) @ acc)"
proof (induction ds arbitrary: rest acc)
  case (Cons d ds)
  have v: "0 < volume ds" "0 < ad_Length d" using Cons.prems volume_pos by simp_all
  define q r where "q = i div volume ds" and "r = i mod volume ds"
  have q: "0 \<le> q" "0 \<le> r" "r < volume ds" using v Cons.prems(2) by (simp_all add: q_def r_def pos_imp_zdiv_nonneg_iff)
  have m: "i mod (ad_Length d * volume ds) = volume ds * (q mod ad_Length d) + r"
    using zmod_zmult2_eq [of "ad_Length d" i "volume ds"] v by (simp add: q_def r_def mult.commute)
  have "coords (d # ds) (i mod volume (d # ds)) = (q mod ad_Length d) # coords ds r"
    using v q by (simp add: m)
  moreover have "i div volume (d # ds) = q div ad_Length d"
    using zdiv_zmult2_eq [of "ad_Length d" i "volume ds"] v by (simp add: q_def mult.commute)
  moreover have "q sdiv ad_Length d = q div ad_Length d" "q smod ad_Length d = q mod ad_Length d"
    using q v by (simp_all add: sdiv_nonneg smod_nonneg)
  ultimately show ?case using Cons by (simp add: q_def [symmetric] r_def [symmetric])
qed simp

lemma nest_index_coords:
  "has_shape ns s \<Longrightarrow> list_all (\<lambda>n. 0 < n) ns \<Longrightarrow> i < prod_list ns \<Longrightarrow>
   nest_index s (coords (axes_of ns) (int i)) = Inr (Elem (nest_values s ! i))"
proof (induction ns arbitrary: s i)
  case Nil
  then show ?case by (cases s) simp_all
next
  case (Cons n ns)
  obtain xs where xs: "s = Nest xs" "length xs = n" "list_all (has_shape ns) xs" using Cons.prems(1) by (rule has_shape_ConsE)
  define P where "P = prod_list ns"
  have P: "0 < P" using Cons.prems(3) by (cases "P = 0") (simp_all add: P_def)
  have q: "i div P < length xs" using Cons.prems(3) xs(2) P by (simp add: P_def less_mult_imp_div_less mult.commute)
  have sh: "has_shape ns (xs ! (i div P))" using xs(3) q by (simp add: list_all_length)
  have IH: "nest_index (xs ! (i div P)) (coords (axes_of ns) (int (i mod P))) = Inr (Elem (nest_values (xs ! (i div P)) ! (i mod P)))"
    using Cons.prems P by (intro Cons.IH [OF sh]) (simp_all add: P_def)
  have "\<forall>y \<in> set (map nest_values xs). length y = P" using xs(3) length_nest_values by (auto simp: list_all_iff P_def)
  from nth_concat_blocks [OF this, of i] have "nest_values s ! i = nest_values (xs ! (i div P)) ! (i mod P)"
    using Cons.prems(3) xs q by (simp add: P_def)
  moreover have "int i div int P = int (i div P)" "int i mod int P = int (i mod P)" by (simp_all add: zdiv_int zmod_int)
  ultimately show ?case using IH q by (simp add: xs(1) nest_len_def P_def [symmetric])
qed

text \<open>A rectangular slice is not ragged: the lengths found so far are the ones of its shape.\<close>

lemma nest_len_shape: "has_shape (n # ns) s \<Longrightarrow> nest_len s = n"
  by (erule has_shape_ConsE) (simp add: nest_len_def)

lemma ragged_items_shape:
  assumes inner: "\<And>s k. has_shape (n # ns) s \<Longrightarrow> lvl + 1 \<le> k \<Longrightarrow> k \<le> length L \<Longrightarrow>
      \<exists>k'. inner s (take k L) = (False, take k' L) \<and> k \<le> k' \<and> k' \<le> length L"
    and L: "lvl < length L" "L ! lvl = n"
  shows "list_all (has_shape (n # ns)) ss \<Longrightarrow> lvl \<le> k \<Longrightarrow> k \<le> length L \<Longrightarrow> (lens = Some n \<and> lvl + 1 \<le> k \<or> lens = None) \<Longrightarrow>
    \<exists>k'. ragged_items inner lvl lens ss (take k L) = (False, take k' L) \<and> k \<le> k' \<and> k' \<le> length L"
proof (induction ss arbitrary: k lens)
  case (Cons s ss)
  have s: "has_shape (n # ns) s" using Cons.prems(1) by simp
  note s = s nest_len_shape [OF s]
  have step: "\<exists>k'. (let (r, ls) = inner s (take j L) in if r then (True, ls) else ragged_items inner lvl (Some n) ss ls) =
      (False, take k' L) \<and> j \<le> k' \<and> k' \<le> length L" if j: "lvl + 1 \<le> j" "j \<le> length L" for j
  proof -
    obtain j' where j': "inner s (take j L) = (False, take j' L)" "j \<le> j'" "j' \<le> length L"
      using inner [OF s(1) j] by blast
    obtain k' where "ragged_items inner lvl (Some n) ss (take j' L) = (False, take k' L)" "j' \<le> k'" "k' \<le> length L"
      using Cons.IH [of j' "Some n"] Cons.prems(1) j j' by auto
    then show ?thesis using j' by auto
  qed
  show ?case
  proof (cases "lens = Some n")
    case True
    then show ?thesis using step [of k] Cons.prems s by auto
  next
    case False
    then have N: "lens = None" using Cons.prems(4) by blast
    show ?thesis
    proof (cases "lvl < k")
      case True
      then show ?thesis using step [of k] Cons.prems s N L by auto
    next
      case False
      then have k: "k = lvl" using Cons.prems(2) by simp
      have "take k L @ [n] = take (Suc k) L" using L by (simp add: k take_Suc_conv_app_nth)
      then show ?thesis using step [of "Suc k"] Cons.prems s N L k by (auto intro: Suc_leD)
    qed
  qed
qed auto

lemma not_ragged_level:
  "has_shape ns s \<Longrightarrow> drop lvl L = tl ns \<Longrightarrow> ns \<noteq> [] \<Longrightarrow> lvl \<le> k \<Longrightarrow> k \<le> length L \<Longrightarrow>
   \<exists>k'. isSliceRagged (length ns) lvl s (take k L) = (False, take k' L) \<and> k \<le> k' \<and> k' \<le> length L"
proof (induction ns arbitrary: lvl s k)
  case (Cons n ns)
  obtain xs where xs: "s = Nest xs" "length xs = n" "list_all (has_shape ns) xs" using Cons.prems(1) by (rule has_shape_ConsE)
  show ?case
  proof (cases ns)
    case Nil
    then show ?thesis using Cons.prems(5) by (intro exI [of _ k]) simp
  next
    case (Cons n' ns')
    have L: "lvl < length L" "L ! lvl = n'" "drop (Suc lvl) L = ns'"
      using Cons.prems(2) Cons hd_drop_conv_nth [of lvl L] by (cases "lvl < length L"; simp add: drop_Suc tl_drop [symmetric])+
    have inner: "\<exists>k'. isSliceRagged (length ns) (lvl + 1) t (take j L) = (False, take k' L) \<and> j \<le> k' \<and> k' \<le> length L"
      if "has_shape (n' # ns') t" "lvl + 1 \<le> j" "j \<le> length L" for t j
      using Cons.IH [of t "lvl + 1" j] that L(3) Cons by simp
    have "\<exists>k'. ragged_items (isSliceRagged (length ns) (lvl + 1)) lvl None xs (take k L) = (False, take k' L) \<and> k \<le> k' \<and> k' \<le> length L"
      by (rule ragged_items_shape [where n = n' and ns = ns', OF inner L(1,2)]) (use Cons.prems(4,5) xs(3) Cons in simp_all)
    then show ?thesis using xs Cons by simp
  qed
qed simp

lemma not_ragged: "has_shape ns s \<Longrightarrow> ns \<noteq> [] \<Longrightarrow> \<not> isRagged (length ns) s"
  using not_ragged_level [of ns s 0 "tl ns" 0] by (auto simp: isRagged_def)

lemma first_axes_shape:
  "has_shape ns s \<Longrightarrow> list_all (\<lambda>n. 0 < n) ns \<Longrightarrow> first_axes (length ns) [] lvl s = Inr (axes_of ns)"
proof (induction ns arbitrary: s lvl)
  case (Cons n ns)
  obtain xs where xs: "s = Nest xs" "length xs = n" "list_all (has_shape ns) xs" using Cons.prems(1) by (rule has_shape_ConsE)
  have "has_shape ns (hd xs)" using xs(2,3) Cons.prems(2) by (cases xs) auto
  then show ?case using Cons xs by (cases "ns = []") (simp_all add: nest_len_def lower_at_def Let_def)
qed simp

lemma multi_Index_shape:
  assumes "has_shape ns s" "list_all (\<lambda>n. 0 < n) ns" "i < prod_list ns" "ns \<noteq> []"
  shows "multi_Index (axes_of ns) s (int i) = Inr (Elem (nest_values s ! i))"
proof -
  have p: "list_all (\<lambda>d. 0 < ad_Length d) (axes_of ns)" using assms(2) by (simp add: axes_of_def list_all_iff)
  have "axis_indexes (rev (axes_of ns)) (int i) [] = coords (axes_of ns) (int i)"
    using axis_indexes_coords [OF p, of "int i" "[]" "[]"] assms(3) by simp
  moreover have "[int i] = coords (axes_of ns) (int i)" if "length ns \<le> 1"
    using that assms(4) by (cases ns) simp_all
  ultimately show ?thesis
    using nest_index_coords [OF assms(1-3)] by (auto simp: multi_Index_def)
qed

lemma read_elements_eq:
  "(\<And>j. j < length vs \<Longrightarrow> idx (int j) = Inr (Elem (vs ! j)) \<and> vs ! j \<noteq> ANil) \<Longrightarrow> i + n \<le> length vs \<Longrightarrow>
   read_elements idx n (int i) = Inr (take n (drop i vs))"
proof (induction n arbitrary: i)
  case (Suc n)
  have "drop i vs = vs ! i # drop (Suc i) vs" using Suc.prems(2) by (simp add: Cons_nth_drop_Suc)
  moreover have "read_elements idx n (int i + 1) = Inr (take n (drop (Suc i) vs))"
    using Suc.IH [of "Suc i"] Suc.prems by (simp add: add.commute)
  ultimately show ?case using Suc.prems(1) [of i] Suc.prems(2) by (simp add: isNilValue_def)
qed simp

lemma nested_elements:
  assumes "has_shape ns s" "list_all (\<lambda>n. 0 < n) ns" "ns \<noteq> []" "int (prod_list ns) \<le> maxInt" "ANil \<notin> set (nest_values s)"
  shows "check_slice (GNested (length ns) (Some s)) = Inr (AArray (Some (nest_values s)))"
proof -
  have s: "0 < nest_len s" using assms(1-3) nest_len_shape by (cases ns) simp_all
  have d: "getter_Dimensions (MultiDim (length ns) (Some s)) [] = Inr (Some (axes_of ns))"
    using first_axes_shape [OF assms(1,2)] s by (simp add: multi_Dimensions_def)
  have ok: "shape_ok (axes_of ns)" using assms(2,4) by (simp add: shape_ok_def) (simp add: axes_of_def list_all_iff)
  have "axes_of ns \<noteq> []" using assms(3) by (cases ns) simp_all
  then have c: "allElementsCount (axes_of ns) = int (prod_list ns)" using allElementsCount_eq [OF ok] by simp
  have "read_elements (getter_Index (MultiDim (length ns) (Some s)) (axes_of ns)) (prod_list ns) (int 0) =
      Inr (take (prod_list ns) (drop 0 (nest_values s)))"
    using multi_Index_shape [OF assms(1,2) _ assms(3)] length_nest_values [OF assms(1)] assms(5)
    by (intro read_elements_eq) (auto, metis nth_mem)
  then have "read_elements (getter_Index (MultiDim (length ns) (Some s)) (axes_of ns)) (prod_list ns) 0 = Inr (nest_values s)"
    using length_nest_values [OF assms(1)] by simp
  then show ?thesis
    using not_ragged [OF assms(1,3)] d c by (simp add: check_slice_def getArrayEncodeType_def elementsFromGetter_def lowersOf_def)
qed

subsection \<open>Properties\<close>

text \<open>An array argument that is a rectangular slice of slices, of any depth, reaches the wire as its
  elements in row-major order: it is not taken for ragged, and none is dropped or repeated.\<close>

theorem nested_slices_flatten:
  assumes "has_shape ns s" "list_all (\<lambda>n. 0 < n) ns" "ns \<noteq> []" "int (prod_list ns) \<le> maxInt" "ANil \<notin> set (nest_values s)"
  shows "check_slice (GNested (length ns) (Some s)) = Inr (AArray (Some (nest_values s)))"
  by (rule nested_elements [OF assms])

theorem nested_slices_flatten_witness:
  "check_slice (GNested 2 (Some (Nest [Nest [Elem (AInt KInt 1), Elem (AInt KInt 2), Elem (AInt KInt 3)],
     Nest [Elem (AInt KInt 4), Elem (AInt KInt 5), Elem (AInt KInt 6)]]))) =
   Inr (AArray (Some [AInt KInt 1, AInt KInt 2, AInt KInt 3, AInt KInt 4, AInt KInt 5, AInt KInt 6]))"
  using nested_slices_flatten [of "[2, 3]" "Nest [Nest [Elem (AInt KInt 1), Elem (AInt KInt 2), Elem (AInt KInt 3)],
     Nest [Elem (AInt KInt 4), Elem (AInt KInt 5), Elem (AInt KInt 6)]]"]
  by (simp add: maxInt_def numeral_2_eq_2)

text \<open>Scanning a fetched array whose elements all convert fills the target with them in order: the
  whole declared shape when all elements are there, the shortened axis when a one-dimensional array
  was stored in part; a multi-dimensional array stored in part is an error, never misplaced elements.\<close>

theorem array_scan_in_order:
  assumes "shape_ok (am_Dimensions m)" "am_Dimensions m \<noteq> []" "es \<noteq> []" "\<forall>e \<in> set es. scan e = Inr (g e)"
  shows "(int (length es) = volume (am_Dimensions m) \<longrightarrow>
      array_Scan scan (SrcArray (Some m) (Some es)) = Inr (Some (am_Dimensions m), map g es)) \<and>
    (length (am_Dimensions m) = 1 \<and> int (length es) < volume (am_Dimensions m) \<longrightarrow>
      array_Scan scan (SrcArray (Some m) (Some es)) =
        Inr (Some [(hd (am_Dimensions m))\<lparr>ad_Length := int (length es)\<rparr>], map g es)) \<and>
    (1 < length (am_Dimensions m) \<and> int (length es) \<noteq> volume (am_Dimensions m) \<longrightarrow>
      array_Scan scan (SrcArray (Some m) (Some es)) =
        Inl (Plain ''firebirdsql: truncated multi-dimensional array: %d of %d elements''))"
proof (intro conjI impI)
  assume "int (length es) = volume (am_Dimensions m)"
  from fill_whole [OF assms(1,2) this assms(4)]
  show "array_Scan scan (SrcArray (Some m) (Some es)) = Inr (Some (am_Dimensions m), map g es)" by (simp add: array_Scan_def)
next
  assume a: "length (am_Dimensions m) = 1 \<and> int (length es) < volume (am_Dimensions m)"
  then obtain d where d: "am_Dimensions m = [d]" by (auto simp: length_Suc_conv)
  then have "int (length es) \<le> ad_Length d" "ad_Length d \<le> maxInt" using a assms(1) by (simp_all add: shape_ok_def)
  from fill_prefix [OF d this assms(3,4)]
  show "array_Scan scan (SrcArray (Some m) (Some es)) =
      Inr (Some [(hd (am_Dimensions m))\<lparr>ad_Length := int (length es)\<rparr>], map g es)" by (simp add: array_Scan_def d)
next
  assume "1 < length (am_Dimensions m) \<and> int (length es) \<noteq> volume (am_Dimensions m)"
  then show "array_Scan scan (SrcArray (Some m) (Some es)) =
      Inl (Plain ''firebirdsql: truncated multi-dimensional array: %d of %d elements'')"
    using allElementsCount_eq [OF assms(1,2)] assms(3) by (simp add: array_Scan_def fillArraySetter_def)
qed

definition sample_column :: array_meta where
  "sample_column = \<lparr> am_TableName = ''T'', am_FieldName = ''A'', am_TypeID = SQL_TYPE_LONG, am_BlrTypeID = 8, am_Scale = 0,
     am_SubType = 0, am_Length = 4, am_FieldBytes = 4, am_Dimensions = [\<lparr> LowerBound = 1, ad_Length = 3 \<rparr>], am_fieldSource = ''D'' \<rparr>"

theorem array_scan_in_order_witness:
  "array_Scan Inr (SrcArray (Some sample_column) (Some [AInt KInt64 7, AInt KInt64 8])) =
     Inr (Some [\<lparr> LowerBound = 1, ad_Length = 2 \<rparr>], [AInt KInt64 7, AInt KInt64 8])"
  using array_scan_in_order [of sample_column "[AInt KInt64 7, AInt KInt64 8]" Inr "\<lambda>e. e"]
  by (simp add: sample_column_def shape_ok_def maxInt_def)

end
