(* ===== verification/Array_Trip.thy ===== *)
theory Array_Trip
  imports Array_Codec Array_Shape_Props Fetch_Props
begin

text \<open>
  Arrays, end to end: the slots of a slice on the wire, what the driver writes into them and what
  it reads back.
\<close>

subsection \<open>Slots\<close>

text \<open>
  A slot holds the content of one element. On the wire a varying element has its length in front
  and is padded to four bytes; the driver keeps the length and drops the padding.
\<close>

definition slot_wire :: "array_meta \<Rightarrow> bytes \<Rightarrow> bytes" where
  "slot_wire m d = (if snd (sliceWireElementSize m) then bint32_to_bytes (of_nat (length d)) @ xdr_pad d else d)"

definition slot_kept :: "array_meta \<Rightarrow> bytes \<Rightarrow> bytes" where
  "slot_kept m d = (if snd (sliceWireElementSize m) then bint32_to_bytes (of_nat (length d)) @ d else d)"

definition slot_content :: "array_meta \<Rightarrow> bytes \<Rightarrow> bytes" where
  "slot_content m d = (if am_TypeID m = SQL_TYPE_BOOLEAN then take 1 d else d)"

definition slot_ok :: "array_meta \<Rightarrow> bytes \<Rightarrow> bool" where
  "slot_ok m d =
     (if snd (sliceWireElementSize m) then int (length d) \<le> uint (am_FieldBytes m) \<and> length d \<le> maxWirePayload
      else int (length d) = fst (sliceWireElementSize m) \<and> d \<noteq> [] \<and> length d mod 4 = 0)"

lemma recv_slot:
  assumes "slot_ok m d"
  shows "recv_slice_element m (feed (slot_wire m d @ rest) q) = (Inr (slot_kept m d), feed rest q)"
proof (cases "snd (sliceWireElementSize m)")
  case True
  then have l: "int (length d) \<le> uint (am_FieldBytes m)" "length d \<le> maxWirePayload"
    using assms by (simp_all add: slot_ok_def)
  then have "length d < 2 ^ 31" by simp
  then have s: "sint (of_nat (length d) :: int32) = int (length d)" using sint_length32 [of d] by simp
  show ?thesis
    using True l by (simp add: recv_slice_element_def slot_wire_def slot_kept_def case_prod_beta Let_def s)
next
  case False
  then have l: "fst (sliceWireElementSize m) = int (length d)" "length d mod 4 = 0" using assms by (simp_all add: slot_ok_def)
  have "int (length d) mod 4 = 0" using l(2) by presburger
  then have "xdr_pad d = d" by (simp add: xdr_pad_def xdr_padding_def)
  then show ?thesis
    using False l recv_aligned [of "int (length d)" d rest q]
    by (simp add: recv_slice_element_def slot_wire_def slot_kept_def case_prod_beta)
qed

lemma recv_slots:
  "list_all (slot_ok m) ds \<Longrightarrow>
   recv_slice_elements m (length ds) (feed (concat (map (slot_wire m) ds) @ rest) q) =
     (Inr (concat (map (slot_kept m) ds)), feed rest q)"
  by (induction ds) (simp_all add: recv_slot wbind_def)

lemma be_val_length: "length d < 2 ^ 31 \<Longrightarrow> be_val (bint32_to_bytes (of_nat (length d))) = length d"
  by (simp add: bint32_to_bytes_be be_val_be_bytes unat_of_nat take_bit_nat_eq_self)

lemma raw_slot:
  assumes "slot_ok m d"
  shows "element_raw m (pre @ slot_kept m d @ post) (int (length pre)) =
     Inr (slot_content m d, int (length pre) + int (length (slot_kept m d)))"
proof (cases "snd (sliceWireElementSize m)")
  case True
  then have t: "am_TypeID m = SQL_TYPE_VARYING" by (auto simp: sliceWireElementSize_def Let_def split: if_splits)
  have l: "length d < 2 ^ 31" using assms True by (simp add: slot_ok_def)
  show ?thesis
    using True t
    by (simp add: element_raw_def slot_kept_def slot_content_def case_prod_beta Let_def go_slice_def be_val_length [OF l] bint32_codec.enc_length nat_add_distrib)
next
  case False
  then have n: "fst (sliceWireElementSize m) = int (length d)" "1 \<le> length d"
    using assms by (auto simp: slot_ok_def Suc_le_eq)
  then show ?thesis
    using False by (simp add: element_raw_def slot_kept_def slot_content_def case_prod_beta go_slice_def nat_add_distrib)
qed

lemma decode_slots:
  "list_all (slot_ok m) ds \<Longrightarrow> list_all2 (\<lambda>d v. element_value te p m (slot_content m d) = Inr v) ds vs \<Longrightarrow>
   decode_elements te p m (pre @ concat (map (slot_kept m) ds)) (length ds) (int (length pre)) = Inr vs"
proof (induction ds arbitrary: pre vs)
  case (Cons d ds)
  then obtain v ws where vs: "vs = v # ws" "element_value te p m (slot_content m d) = Inr v"
    "list_all2 (\<lambda>d v. element_value te p m (slot_content m d) = Inr v) ds ws" by (auto simp: list_all2_Cons1)
  then show ?case
    using Cons.IH [of ws "pre @ slot_kept m d"] Cons.prems(1) by (simp add: raw_slot)
qed simp

lemma count_slots:
  assumes "list_all (slot_ok m) ds" "ds \<noteq> []"
  shows "sliceElementCount m (concat (map (slot_kept m) ds)) = Inr (int (length ds))"
proof (cases "snd (sliceWireElementSize m)")
  case True
  have "list_all (slot_ok m) ds \<Longrightarrow> count_varying (concat (map (slot_kept m) ds)) n = Inr (n + int (length ds))" for n
  proof (induction ds arbitrary: n)
    case (Cons d ds)
    have l: "length d < 2 ^ 31" using Cons.prems True by (simp add: slot_ok_def)
    show ?case
      using True Cons
      by (subst count_varying.simps)
        (simp add: slot_kept_def [of m d] be_val_length [OF l] bint32_codec.enc_length flip: length_0_conv)
  qed (simp add: count_varying.simps)
  then show ?thesis using True assms(1) by (simp add: sliceElementCount_def case_prod_beta)
next
  case False
  define n where "n = fst (sliceWireElementSize m)"
  have "\<exists>d. slot_ok m d" using assms by (cases ds) auto
  then have n: "0 < n" using False by (auto simp: slot_ok_def n_def simp flip: length_greater_0_conv)
  have "int (length (concat (map (slot_kept m) ds))) = int (length ds) * n"
    using assms(1) False by (induction ds) (simp_all add: slot_kept_def slot_ok_def n_def algebra_simps)
  then show ?thesis
    using False n by (simp add: sliceElementCount_def case_prod_beta sdiv_nonneg flip: n_def)
qed

lemma decode_slice:
  assumes "list_all (slot_ok m) ds" "list_all2 (\<lambda>d v. element_value te p m (slot_content m d) = Inr v) ds vs"
    "am_TypeID m \<noteq> SQL_TYPE_TIME_TZ" "am_TypeID m \<noteq> SQL_TYPE_TIMESTAMP_TZ"
  shows "decodeSliceElements te p m (concat (map (slot_kept m) ds)) = Inr vs"
proof (cases "ds = []")
  case True
  then show ?thesis using assms by (simp add: decodeSliceElements_def)
next
  case False
  then have "concat (map (slot_kept m) ds) \<noteq> []"
    using assms(1) by (cases ds) (auto simp: slot_kept_def slot_ok_def bint32_to_bytes_def split: if_splits)
  then show ?thesis
    using assms(3,4) count_slots [OF assms(1) False] decode_slots [OF assms(1,2), of "[]"]
    by (simp add: decodeSliceElements_def del: concat_eq_Nil_conv)
qed

subsection \<open>What is written and what comes back\<close>

text \<open>The columns of the round trip: no scale, no binary subtype, a text slot of as many characters as bytes.\<close>

definition transferable :: "array_meta \<Rightarrow> bool" where
  "transferable m \<longleftrightarrow> am_Scale m = 0 \<and> am_SubType m \<noteq> 1 \<and>
     am_TypeID m \<in> {SQL_TYPE_SHORT, SQL_TYPE_LONG, SQL_TYPE_INT64, SQL_TYPE_FLOAT, SQL_TYPE_DOUBLE, SQL_TYPE_BOOLEAN,
       SQL_TYPE_DATE, SQL_TYPE_TIMESTAMP, SQL_TYPE_TEXT, SQL_TYPE_VARYING} \<and>
     (am_TypeID m = SQL_TYPE_TEXT \<longrightarrow> am_Length m = am_FieldBytes m \<and> 0 < am_FieldBytes m) \<and>
     (am_TypeID m = SQL_TYPE_VARYING \<longrightarrow> am_Length m \<le> am_FieldBytes m \<and> am_FieldBytes m \<le> maxWirePayload)"

definition fetched_value :: "num_env \<Rightarrow> go_loc \<Rightarrow> array_meta \<Rightarrow> go_any \<Rightarrow> go_value" where
  "fetched_value ne loc m e =
     (let t = am_TypeID m in
      if t \<in> {SQL_TYPE_SHORT, SQL_TYPE_LONG, SQL_TYPE_INT64} then (case toInt64 ne e of Inr i \<Rightarrow> VInt (wrap64 i) | Inl _ \<Rightarrow> VNil)
      else if t = SQL_TYPE_FLOAT then (case toFloat64 ne e of Inr f \<Rightarrow> VFloat (widen_float (narrow_float f)) | Inl _ \<Rightarrow> VNil)
      else if t = SQL_TYPE_DOUBLE then (case toFloat64 ne e of Inr f \<Rightarrow> VFloat f | Inl _ \<Rightarrow> VNil)
      else if t = SQL_TYPE_BOOLEAN then (case e of ABool b \<Rightarrow> VBool b | _ \<Rightarrow> VNil)
      else if t = SQL_TYPE_DATE then
        (case e of ATime c l \<Rightarrow> VDate (c\<lparr>t_hour := 0, t_minute := 0, t_second := 0, t_nanosecond := 0\<rparr>) loc | _ \<Rightarrow> VNil)
      else if t = SQL_TYPE_TIMESTAMP then
        (case e of ATime c l \<Rightarrow> VDate (c\<lparr>t_nanosecond := t_nanosecond c div 100000 * 100000\<rparr>) loc | _ \<Rightarrow> VNil)
      else (case toString ne e of
              Inr s \<Rightarrow> VStr (if t = SQL_TYPE_TEXT then trim_nul (trim_right_blank s) else s)
            | Inl _ \<Rightarrow> VNil))"

fun time_ok :: "go_any \<Rightarrow> bool" where
  "time_ok (ATime t l) \<longleftrightarrow> 1 \<le> t_year t \<and> t_year t \<le> 5000000 \<and> valid_date (t_year t) (t_month t) (t_day t) \<and> valid_time_of_day t"
| "time_ok _ \<longleftrightarrow> True"

text \<open>A connection whose texts are UTF-8, in a location it knows.\<close>

definition plain_session :: "time_env \<Rightarrow> go_loc \<Rightarrow> wire_protocol \<Rightarrow> bool" where
  "plain_session te loc p \<longleftrightarrow> p_charset p = ''UTF8'' \<and> (\<forall>s. encodeString s p = s) \<and> load_zone te (p_timezone p) = Some loc"

definition carries :: "time_env \<Rightarrow> wire_protocol \<Rightarrow> array_meta \<Rightarrow> bytes \<Rightarrow> bytes \<Rightarrow> go_value \<Rightarrow> bool" where
  "carries te p m b d v \<longleftrightarrow> b = slot_wire m d \<and> slot_ok m d \<and> element_value te p m (slot_content m d) = Inr v"

lemma element_var_simps [simp]:
  "sqltype (element_var m) = am_TypeID m" "sqlscale (element_var m) = sint (am_Scale m)"
  "sqlsubtype (element_var m) = sint (am_SubType m)"
  by (simp_all add: element_var_def)

lemma int_slot:
  assumes "am_TypeID m \<in> {SQL_TYPE_SHORT, SQL_TYPE_LONG}" "am_Scale m = 0" "encodeArrayElement ne p m e = Inr b"
  shows "\<exists>d. carries te p m b d (fetched_value ne loc m e)"
proof -
  obtain i where i: "toInt64 ne e = Inr i" "b = bint32_to_bytes (word_of_int i)" "- 2147483648 \<le> i" "i \<le> 2147483647"
    and s: "am_TypeID m = SQL_TYPE_SHORT \<longrightarrow> - 32768 \<le> i \<and> i \<le> 32767"
    using assms by (auto simp: encodeArrayElement_def int_element_def toScaledInt64_def res_simps split: if_splits)
  have w: "sint (word_of_int i :: int32) = i" using i by (intro sint_word_of_int32) simp_all
  have "wrap64 i = i"
    unfolding wrap64_def using i by (simp add: signed_of_int signed_take_bit_int_eq_self)
  moreover have "am_TypeID m = SQL_TYPE_SHORT \<Longrightarrow> sint (ucast (word_of_int i :: int32) :: int16) = i"
    using s by (simp add: unsigned_ucast_eq sint_uint unsigned_of_int signed_take_bit_take_bit signed_take_bit_int_eq_self)
  ultimately have "carries te p m b b (fetched_value ne loc m e)"
    using assms(1,2) i w
    by (auto simp: carries_def slot_wire_def slot_ok_def slot_content_def sliceWireElementSize_def element_value_def
        column_value_def fetched_value_def scaledIntValue_def bint32_codec.dec_enc_Nil bint32_codec.enc_length simp flip: length_greater_0_conv)
  then show ?thesis ..
qed

lemma nat_word64: "unat (w :: int64) < 18446744073709551616"
  using unsigned_less [of w, where 'a = nat] by simp

lemma nat_word32: "unat (w :: int32) < 4294967296"
  using unsigned_less [of w, where 'a = nat] by simp

lemma number_slot:
  assumes "am_TypeID m \<in> {SQL_TYPE_INT64, SQL_TYPE_FLOAT, SQL_TYPE_DOUBLE, SQL_TYPE_BOOLEAN}" "am_Scale m = 0"
    "encodeArrayElement ne p m e = Inr b"
  shows "\<exists>d. carries te p m b d (fetched_value ne loc m e)"
proof -
  have v: "bytes_to_bint64 (bint64_to_bytes w) = Inr w" "of_nat (be_val (bint64_to_bytes w)) = w"
    "of_nat (be_val (bint32_to_bytes u)) = u" for w u
    proof -
    show "of_nat (be_val (bint64_to_bytes w)) = w"
      using nat_word64 [of w] by (simp add: bint64_to_bytes_be be_val_be_bytes)
    show "of_nat (be_val (bint32_to_bytes u)) = u"
      using nat_word32 [of u] by (simp add: bint32_to_bytes_be be_val_be_bytes)
  qed (rule bint64_codec.dec_enc_Nil)
  note c = carries_def slot_wire_def slot_ok_def slot_content_def sliceWireElementSize_def element_value_def column_value_def fetched_value_def
  consider "am_TypeID m = SQL_TYPE_INT64" | "am_TypeID m = SQL_TYPE_DOUBLE" | "am_TypeID m = SQL_TYPE_FLOAT" | "am_TypeID m = SQL_TYPE_BOOLEAN"
    using assms(1) by blast
  then have "carries te p m b b (fetched_value ne loc m e)"
  proof cases
    case 1
    then obtain i where "toInt64 ne e = Inr i" "b = bint64_to_bytes (word_of_int i)"
      using assms(2,3) by (auto simp: encodeArrayElement_def toScaledInt64_def res_simps)
    then show ?thesis using 1 assms(2) by (simp add: c v scaledIntValue_def wrap64_def bint64_codec.enc_length flip: length_greater_0_conv)
  next
    case 2
    then obtain f where "toFloat64 ne e = Inr f" "b = bint64_to_bytes f"
      using assms(3) by (auto simp: encodeArrayElement_def res_simps)
    then show ?thesis using 2 by (simp add: c v read_float64_def bint64_codec.enc_length flip: length_greater_0_conv)
  next
    case 3
    then obtain f where "toFloat64 ne e = Inr f" "b = bint32_to_bytes (narrow_float f)"
      using assms(3) by (auto simp: encodeArrayElement_def res_simps)
    then show ?thesis using 3 by (simp add: c v read_float32_def bint32_codec.enc_length flip: length_greater_0_conv)
  next
    case 4
    then obtain x where "e = ABool x" "b = [if x then 1 else 0, 0, 0, 0]"
      using assms(3) by (auto simp: encodeArrayElement_def split: go_any.splits)
    then show ?thesis using 4 by (simp add: c go_index_def)
  qed
  then show ?thesis ..
qed

lemma time_slot:
  assumes "am_TypeID m \<in> {SQL_TYPE_DATE, SQL_TYPE_TIMESTAMP}" "load_zone te (p_timezone p) = Some loc" "time_ok e"
    "encodeArrayElement ne p m e = Inr b"
  shows "\<exists>d. carries te p m b d (fetched_value ne loc m e)"
proof -
  obtain t l where e: "e = ATime t l" using assms(1,4) by (cases e) (auto simp: encodeArrayElement_def)
  have ok: "1 \<le> t_year t" "t_year t \<le> 5000000" "valid_date (t_year t) (t_month t) (t_day t)" "valid_time_of_day t"
    using assms(3) e by simp_all
  have ne: "convert_date t \<noteq> []" by (simp flip: length_greater_0_conv)
  have "carries te p m b b (fetched_value ne loc m e)"
    using assms(1,2,4) e ne parseDate_convert_date [OF ok(1-3)] fields_convert_timestamp [OF ok, of "[]"]
    by (auto simp: carries_def slot_wire_def slot_ok_def slot_content_def sliceWireElementSize_def element_value_def
        encodeArrayElement_def column_value_def fetched_value_def date_value_def timestamp_value_def go_Date_def
        dateToBlr_def timestampToBlrNoTZ_def convert_timestamp_def)
  then show ?thesis ..
qed

lemma roundUp4_bounds: "0 \<le> n \<Longrightarrow> n \<le> roundUp4 n \<and> roundUp4 n mod 4 = 0 \<and> roundUp4 n < n + 4"
  unfolding roundUp4_def Let_def by (simp add: smod_nonneg) presburger

lemma roundUp4_pad: "0 \<le> n \<Longrightarrow> roundUp4 n = n + xdr_padding n"
  by (simp add: roundUp4_def xdr_padding_def smod_nonneg Let_def)

lemma trim_right_blanks: "trim_right_blank (s @ replicate n CHR 0x20) = trim_right_blank s"
  by (simp add: trim_right_blank_def) (induction n; simp)

lemma char_32: "char_of (32 :: nat) = CHR 0x20"
  by code_simp

lemma text_slot_kept:
  assumes "am_TypeID m \<in> {SQL_TYPE_TEXT, SQL_TYPE_VARYING}" "transferable m" "plain_session te loc p"
    "encodeArrayElement ne p m e = Inr b"
  shows "\<exists>d. carries te p m b d (fetched_value ne loc m e)"
proof -
  have sub: "sint (am_SubType m) \<noteq> 1"
    using assms(2) signed_word_eqI [of "am_SubType m" 1] by (auto simp: transferable_def)
  have cs: "p_charset p = ''UTF8''" "\<And>s. encodeString s p = s" using assms(3) by (simp_all add: plain_session_def)
  note c = carries_def slot_wire_def slot_ok_def slot_content_def sliceWireElementSize_def element_value_def column_value_def fetched_value_def
    text_value_def parseString_def
  obtain s where s: "toString ne e = Inr s" "int (length s) \<le> uint (am_Length m)"
    using assms(1,4) by (auto simp: encodeArrayElement_def res_simps Let_def cs(2) str_to_bytes_def split: if_splits)
  consider "am_TypeID m = SQL_TYPE_TEXT" | "am_TypeID m = SQL_TYPE_VARYING" using assms(1) by blast
  then show ?thesis
  proof cases
    case 1
    define n where "n = uint (am_FieldBytes m)"
    have n: "uint (am_Length m) = n" "0 < n" using assms(2) 1 by (auto simp: transferable_def n_def word_less_def)
    note r = roundUp4_bounds [OF less_imp_le [OF n(2)]]
    have b: "b = str_to_bytes s @ replicate (nat (roundUp4 n) - length s) 0x20"
      using assms(4) 1 s n by (simp add: encodeArrayElement_def Let_def cs(2) text_slot_def str_to_bytes_def split: if_splits)
    have l: "int (length b) = roundUp4 n" using r s(2) n by (simp add: b) linarith
    moreover have "bytes_to_str b = s @ replicate (nat (roundUp4 n) - length s) CHR 0x20"
      using bytes_to_str_str_to_bytes [of s] by (simp add: b bytes_to_str_def char_32)
    ultimately have "carries te p m b b (fetched_value ne loc m e)"
      using 1 s sub r n(2) by (simp add: c n_def cs(1) trim_right_blanks flip: length_greater_0_conv) presburger
    then show ?thesis ..
  next
    case 2
    have n: "uint (am_Length m) \<le> uint (am_FieldBytes m)" "uint (am_FieldBytes m) \<le> maxWirePayload"
      using assms(2) 2 by (simp_all add: transferable_def word_le_def)
    have u: "unat (of_nat (length s) :: int32) = length s" using s(2) n by (simp add: unat_of_nat take_bit_nat_eq_self)
    have "nat (roundUp4 (int (length s))) - length s = nat (xdr_padding (int (length s)))"
      by (simp add: roundUp4_pad nat_add_distrib xdr_padding_range)
    then have "b = slot_wire m (str_to_bytes s)"
      using assms(4) 2 s u
      by (simp add: encodeArrayElement_def Let_def cs(2) slot_wire_def sliceWireElementSize_def xdr_pad_def bint32_to_bytes_be)
    then have "carries te p m b (str_to_bytes s) (fetched_value ne loc m e)"
      using 2 s sub n by (simp add: c cs(1))
    then show ?thesis ..
  qed
qed

lemma element_slot:
  assumes "transferable m" "plain_session te loc p" "time_ok e" "encodeArrayElement ne p m e = Inr b"
  shows "\<exists>d. carries te p m b d (fetched_value ne loc m e)"
proof -
  have m: "am_Scale m = 0" "load_zone te (p_timezone p) = Some loc"
    using assms(1,2) by (simp_all add: transferable_def plain_session_def)
  consider "am_TypeID m \<in> {SQL_TYPE_SHORT, SQL_TYPE_LONG}" | "am_TypeID m \<in> {SQL_TYPE_DATE, SQL_TYPE_TIMESTAMP}"
    | "am_TypeID m \<in> {SQL_TYPE_INT64, SQL_TYPE_FLOAT, SQL_TYPE_DOUBLE, SQL_TYPE_BOOLEAN}" | "am_TypeID m \<in> {SQL_TYPE_TEXT, SQL_TYPE_VARYING}"
    using assms(1) unfolding transferable_def by blast
  then show ?thesis
    using int_slot [OF _ m(1) assms(4)] number_slot [OF _ m(1) assms(4)] time_slot [OF _ m(2) assms(3,4)]
      text_slot_kept [OF _ assms(1,2,4)] by cases
qed

lemma map_sum_eq_Inr: "map_sum f id r = Inr x \<longleftrightarrow> r = Inr x"
  by (cases r) simp_all

lemma elements_slots:
  "transferable m \<Longrightarrow> plain_session te loc p \<Longrightarrow> list_all time_ok es \<Longrightarrow> encode_elements ne p m es = Inr b \<Longrightarrow>
   \<exists>ds. b = concat (map (slot_wire m) ds) \<and> length ds = length es \<and> list_all (slot_ok m) ds \<and>
     list_all2 (\<lambda>d v. element_value te p m (slot_content m d) = Inr v) ds (map (fetched_value ne loc m) es)"
proof (induction es arbitrary: b)
  case (Cons e es)
  then obtain b1 b2 where b: "encodeArrayElement ne p m e = Inr b1" "encode_elements ne p m es = Inr b2" "b = b1 @ b2"
    by (auto simp: bind_res_Inr map_sum_eq_Inr)
  obtain d where d: "carries te p m b1 d (fetched_value ne loc m e)"
    using element_slot [OF Cons.prems(1,2) _ b(1)] Cons.prems(3) by auto
  obtain ds where "b2 = concat (map (slot_wire m) ds) \<and> length ds = length es \<and> list_all (slot_ok m) ds \<and>
     list_all2 (\<lambda>d v. element_value te p m (slot_content m d) = Inr v) ds (map (fetched_value ne loc m) es)"
    using Cons.IH [OF Cons.prems(1,2) _ b(2)] Cons.prems(3) by auto
  then show ?case using d b(3) by (intro exI [of _ "d # ds"]) (simp add: carries_def)
qed simp

subsection \<open>A whole slice\<close>

text \<open>What a slot that was never written holds.\<close>

definition empty_slot :: "array_meta \<Rightarrow> bytes" where
  "empty_slot m = (if am_TypeID m = SQL_TYPE_VARYING then [] else replicate (nat (fst (sliceWireElementSize m))) 0)"

definition empty_value :: "go_loc \<Rightarrow> array_meta \<Rightarrow> go_value" where
  "empty_value loc m =
     (let t = am_TypeID m in
      if t \<in> {SQL_TYPE_SHORT, SQL_TYPE_LONG, SQL_TYPE_INT64} then VInt 0
      else if t = SQL_TYPE_FLOAT \<or> t = SQL_TYPE_DOUBLE then VFloat 0
      else if t = SQL_TYPE_BOOLEAN then VBool False
      else if t = SQL_TYPE_TEXT \<or> t = SQL_TYPE_VARYING then VStr ''''
      else VDate \<lparr> t_year = 1858, t_month = 11, t_day = 17, t_hour = 0, t_minute = 0, t_second = 0, t_nanosecond = 0 \<rparr> loc)"

lemma zero_bytes:
  "bytes_to_bint32 [0, 0, 0, 0] = Inr 0" "bytes_to_bint64 [0, 0, 0, 0, 0, 0, 0, 0] = Inr 0" "be_val [0, 0, 0, 0] = 0"
  "be_val [0, 0, 0, 0, 0, 0, 0, 0] = 0" "parseDate [0, 0, 0, 0] = Inr (1858, 11, 17)"
  "timestamp_fields [0, 0, 0, 0, 0, 0, 0, 0] = Inr \<lparr> t_year = 1858, t_month = 11, t_day = 17, t_hour = 0, t_minute = 0, t_second = 0, t_nanosecond = 0 \<rparr>"
  "widen_float 0 = 0"
proof -
  have b: "be_val [0, 0, 0, 0] = 0" "be_val [0, 0, 0, 0, 0, 0, 0, 0] = 0" by (simp_all add: be_val_Cons)
  show "be_val [0, 0, 0, 0] = 0" "be_val [0, 0, 0, 0, 0, 0, 0, 0] = 0" by (fact b)+
  show i: "bytes_to_bint32 [0, 0, 0, 0] = Inr 0" by (simp add: bytes_to_bint32_def be_uint_def b)
  show "bytes_to_bint64 [0, 0, 0, 0, 0, 0, 0, 0] = Inr 0" by (simp add: bytes_to_bint64_def be_uint_def b)
  show d: "parseDate [0, 0, 0, 0] = Inr (1858, 11, 17)"
    by (simp add: parseDate_def i parse_date_num_def Let_def sdiv_nonneg smod_nonneg)
  have "parseTime [0, 0, 0, 0] = Inr (0, 0, 0, 0)"
    by (simp add: parseTime_def i parse_time_num_def Let_def sdiv_nonneg smod_nonneg)
  then show "timestamp_fields [0, 0, 0, 0, 0, 0, 0, 0] = Inr \<lparr> t_year = 1858, t_month = 11, t_day = 17, t_hour = 0, t_minute = 0, t_second = 0, t_nanosecond = 0 \<rparr>"
    using d by (simp add: timestamp_fields_def go_slice_def)
  show "widen_float 0 = 0" by (simp add: widen_float_def Let_def)
qed

lemma trim_zeros: "trim_nul (trim_right_blank (bytes_to_str (replicate n 0))) = ''''"
proof -
  have "char_of (unat (0 :: byte)) = CHR 0x00" by (simp add: char_of_def)
  then have z: "bytes_to_str (replicate n 0) = replicate n (CHR 0x00)" by (simp add: bytes_to_str_def)
  have "trim_right_blank (replicate n (CHR 0x00)) = replicate n (CHR 0x00)"
    by (simp add: trim_right_blank_def dropWhile_replicate)
  then show ?thesis by (simp add: z trim_nul_def)
qed

lemma empty_carries:
  assumes "transferable m" "plain_session te loc p"
  shows "carries te p m (replicate (nat (putSliceWireElementSize m)) 0) (empty_slot m) (empty_value loc m)"
proof -
  have sub: "sint (am_SubType m) \<noteq> 1"
    using assms(1) signed_word_eqI [of "am_SubType m" 1] by (auto simp: transferable_def)
  have cs: "p_charset p = ''UTF8''" "load_zone te (p_timezone p) = Some loc" using assms(2) by (simp_all add: plain_session_def)
  have b0: "bint32_to_bytes 0 = [0, 0, 0, 0]" by code_simp
  have r4: "replicate 4 (0 :: byte) = [0, 0, 0, 0]" "replicate 8 (0 :: byte) = [0, 0, 0, 0, 0, 0, 0, 0]" by (simp_all add: numeral_eq_Suc)
  have u: "0 \<le> uint (am_FieldBytes m)" by simp
  note r = roundUp4_bounds [OF u]
  have x: "am_TypeID m = SQL_TYPE_TEXT \<Longrightarrow> 0 < uint (am_FieldBytes m)"
    using assms(1) by (auto simp: transferable_def word_less_def)
  note c = carries_def slot_wire_def slot_ok_def slot_content_def sliceWireElementSize_def putSliceWireElementSize_def
    element_value_def column_value_def empty_value_def empty_slot_def
  have t: "am_TypeID m \<in> {SQL_TYPE_SHORT, SQL_TYPE_LONG, SQL_TYPE_INT64, SQL_TYPE_FLOAT, SQL_TYPE_DOUBLE, SQL_TYPE_BOOLEAN,
       SQL_TYPE_DATE, SQL_TYPE_TIMESTAMP, SQL_TYPE_TEXT, SQL_TYPE_VARYING}" and s: "am_Scale m = 0"
    "am_TypeID m = SQL_TYPE_TEXT \<longrightarrow> am_Length m = am_FieldBytes m"
    using assms(1) by (simp_all add: transferable_def)
  show ?thesis
    using t
  proof (elim insertE emptyE)
    assume "am_TypeID m = SQL_TYPE_TEXT"
    moreover have "nat (roundUp4 (uint (am_FieldBytes m))) mod 4 = 0"
      using r u nat_mod_distrib [of "roundUp4 (uint (am_FieldBytes m))" 4] by (simp add: order_trans [OF u])
    ultimately show ?thesis using s sub r x
      by (simp add: c text_value_def parseString_def cs(1) trim_zeros)
  next
    assume "am_TypeID m = SQL_TYPE_VARYING"
    then show ?thesis using sub by (simp add: c parseString_def cs(1) b0 r4 bytes_to_str_def)
  qed (simp_all add: c s(1) zero_bytes scaledIntValue_def read_float32_def read_float64_def go_index_def date_value_def
      timestamp_value_def cs(2) go_Date_def r4)
qed

lemma roundtrip_slots:
  assumes "transferable m" "plain_session te loc p" "list_all time_ok es" "encodeSliceElements ne p m es = Inr data"
    "shape_ok (am_Dimensions m)" "am_Dimensions m \<noteq> []" "n = nat (volume (am_Dimensions m))"
  shows "\<exists>ds. padSliceWire m data (int (length es)) = concat (map (slot_wire m) ds) \<and> length ds = n \<and> list_all (slot_ok m) ds \<and>
     list_all2 (\<lambda>d v. element_value te p m (slot_content m d) = Inr v) ds
       (map (fetched_value ne loc m) es @ replicate (n - length es) (empty_value loc m))"
proof -
  have vol: "allElementsCount (am_Dimensions m) = int n" "0 < n"
    using allElementsCount_eq [OF assms(5,6)] volume_pos [of "am_Dimensions m"] assms(5,7) by (simp_all add: shape_ok_def)
  then have le: "length es \<le> n" and enc: "encode_elements ne p m es = Inr data"
    using assms(4) by (simp_all add: encodeSliceElements_def split: if_splits)
  obtain ds where ds: "data = concat (map (slot_wire m) ds)" "length ds = length es" "list_all (slot_ok m) ds"
    "list_all2 (\<lambda>d v. element_value te p m (slot_content m d) = Inr v) ds (map (fetched_value ne loc m) es)"
    using elements_slots [OF assms(1-3) enc] by blast
  let ?z = "replicate (n - length es) (empty_slot m)"
  note e = empty_carries [OF assms(1,2), unfolded carries_def]
  have "replicate (k * nat (putSliceWireElementSize m)) 0 = concat (map (slot_wire m) (replicate k (empty_slot m)))" for k
    using e by (induction k) (simp_all add: replicate_add)
  then have "padSliceWire m data (int (length es)) = concat (map (slot_wire m) (ds @ ?z))"
    using le by (simp add: padSliceWire_def vol ds(1) Let_def nat_mult_distrib flip: of_nat_diff)
  moreover have "list_all (slot_ok m) (ds @ ?z)" "length (ds @ ?z) = n"
    using ds e le by (auto simp: list_all_iff)
  moreover have "list_all2 (\<lambda>d v. element_value te p m (slot_content m d) = Inr v) ?z (replicate (n - length es) (empty_value loc m))"
    using e by (simp add: list_all2_conv_all_nth)
  ultimately show ?thesis using list_all2_appendI [OF ds(4)] by blast
qed

lemma stride_bounds:
  assumes "transferable m"
  shows "0 < arrayElementStride m" "arrayElementStride m \<le> arrayGetElementStride m"
proof -
  have t: "am_TypeID m \<in> {SQL_TYPE_SHORT, SQL_TYPE_LONG, SQL_TYPE_INT64, SQL_TYPE_FLOAT, SQL_TYPE_DOUBLE, SQL_TYPE_BOOLEAN,
       SQL_TYPE_DATE, SQL_TYPE_TIMESTAMP, SQL_TYPE_TEXT, SQL_TYPE_VARYING}"
    "am_TypeID m = SQL_TYPE_TEXT \<Longrightarrow> am_Length m = am_FieldBytes m \<and> 0 < uint (am_FieldBytes m)"
    "am_TypeID m = SQL_TYPE_VARYING \<Longrightarrow> uint (am_Length m) \<le> uint (am_FieldBytes m)"
    using assms by (auto simp: transferable_def word_less_def word_le_def)
  have "0 \<le> uint (am_Length m)" by simp
  then have "0 < 2 + uint (am_Length m)" by linarith
  then show "0 < arrayElementStride m" "arrayElementStride m \<le> arrayGetElementStride m"
    using t by (auto simp: arrayElementStride_def arrayGetElementStride_def Let_def)
qed

lemma slice_lengths:
  assumes "transferable m" "shape_ok (am_Dimensions m)" "am_Dimensions m \<noteq> []"
    "volume (am_Dimensions m) * arrayGetElementStride m \<le> maxWirePayload"
  shows "arraySliceGetLength m (am_Dimensions m) = volume (am_Dimensions m) * arrayGetElementStride m"
    "0 < arraySliceAppLength m (am_Dimensions m)" "arraySliceAppLength m (am_Dimensions m) \<le> maxWirePayload"
proof -
  have v: "0 < volume (am_Dimensions m)" using assms(2) volume_pos by (simp add: shape_ok_def)
  note s = stride_bounds [OF assms(1)] and c = allElementsCount_eq [OF assms(2,3)]
  have le: "volume (am_Dimensions m) * arrayElementStride m \<le> volume (am_Dimensions m) * arrayGetElementStride m"
    using v s(2) by (intro mult_left_mono) simp_all
  have pos: "0 < volume (am_Dimensions m) * arrayElementStride m" using v s(1) by simp
  have w: "wrap64 i = i" if "0 \<le> i" "i \<le> maxWirePayload" for i
    using that by (simp add: wrap64_def signed_of_int signed_take_bit_int_eq_self)
  have wa: "wrap64 (volume (am_Dimensions m) * arrayElementStride m) = volume (am_Dimensions m) * arrayElementStride m"
    and wg: "wrap64 (volume (am_Dimensions m) * arrayGetElementStride m) = volume (am_Dimensions m) * arrayGetElementStride m"
    using pos le assms(4) by (intro w; linarith)+
  show "arraySliceGetLength m (am_Dimensions m) = volume (am_Dimensions m) * arrayGetElementStride m"
    "0 < arraySliceAppLength m (am_Dimensions m)" "arraySliceAppLength m (am_Dimensions m) \<le> maxWirePayload"
    using order_trans [OF le assms(4)] pos v wa wg
    by (simp_all add: arraySliceGetLength_def arraySliceAppLength_def Let_def c)
qed

text \<open>The answer to a request for a slice: its length twice, and its slots.\<close>

definition slice_answer :: "array_meta \<Rightarrow> bytes \<Rightarrow> bytes" where
  "slice_answer m wire =
     (let n = bint32_to_bytes (word_of_int (arraySliceGetLength m (am_Dimensions m)))
      in bint32_to_bytes op_slice_response @ n @ n @ wire)"

lemma next_op_enc: "w \<noteq> op_dummy \<Longrightarrow> next_op (feed (bint32_to_bytes w @ b) p) = (Inr w, feed b p)"
  by (subst next_op.simps) simp

lemma slice_body_enc:
  assumes "transferable m" "shape_ok (am_Dimensions m)" "am_Dimensions m \<noteq> []"
    "volume (am_Dimensions m) * arrayGetElementStride m \<le> maxWirePayload"
    "list_all (slot_ok m) ds" "length ds = nat (volume (am_Dimensions m))"
  shows "opSliceResponse m (feed (slice_answer m (concat (map (slot_wire m) ds)) @ rest) p) =
    (Inr (concat (map (slot_kept m) ds)), feed rest p)"
proof -
  define n where "n = arraySliceGetLength m (am_Dimensions m)"
  have v: "0 < volume (am_Dimensions m)" using assms(2) volume_pos by (simp add: shape_ok_def)
  have s: "0 < arrayGetElementStride m" using stride_bounds [OF assms(1)] by simp
  have n: "n = volume (am_Dimensions m) * arrayGetElementStride m" "n \<le> maxWirePayload" "0 < n"
    using slice_lengths [OF assms(1-4)] assms(4) v s by (simp_all add: n_def)
  then have i: "sint (word_of_int n :: int32) = n" by (intro sint_word_of_int32) simp_all
  have d: "n sdiv arrayGetElementStride m = volume (am_Dimensions m)" using n(1,3) s by (simp add: sdiv_nonneg)
  show ?thesis
    using n(2,3) s v i d recv_slots [OF assms(5), of rest p] assms(6) allElementsCount_eq [OF assms(2,3)]
    by (simp add: opSliceResponse_def slice_answer_def Let_def wbind_def next_op_enc slice_body_def flip: n_def)
qed

subsection \<open>Properties\<close>

text \<open>C22: An array survives the trip. \<open>opPutSlice\<close> returns the id the server assigns, keeps the
  packet under construction, and the packet it sends ends in one slot for every element the
  column declares: the elements given, in order, then empty ones. When a server
  returns these slots for the slice, \<open>opGetSlice\<close> and \<open>decodeSliceElements\<close> give back the elements
  (texts trimmed, floats at their width, timestamps to the 100 microseconds of the wire), then
  zero values, and leave the rest of the stream unread.\<close>

theorem array_slice_roundtrip:
  assumes "calm p" "transferable m" "plain_session te loc p" "list_all time_ok es" "encodeSliceElements ne p m es = Inr data"
    and "shape_ok (am_Dimensions m)" "am_Dimensions m \<noteq> []" "length data \<le> maxWirePayload"
    and "volume (am_Dimensions m) * arrayGetElementStride m \<le> maxWirePayload"
    and "response_fits r" "clause_codes (r_status r) = []" "r_oid r = bint64_to_bytes i" "i \<noteq> 0"
  shows "\<exists>front wire got.
    fst (opPutSlice tr m data (int (length es)) (feed (response_bytes r) p)) = Inr i \<and>
    p_buf (snd (opPutSlice tr m data (int (length es)) (feed (response_bytes r) p))) = p_buf p \<and>
    p_outbound (snd (opPutSlice tr m data (int (length es)) (feed (response_bytes r) p))) = p_outbound p @ [front @ wire] \<and>
    fst (opGetSlice tr i m (feed (slice_answer m wire @ rest) p)) = Inr got \<and>
    p_inbound (snd (opGetSlice tr i m (feed (slice_answer m wire @ rest) p))) = rest \<and>
    decodeSliceElements te p m got =
      Inr (map (fetched_value ne loc m) es @ replicate (nat (volume (am_Dimensions m)) - length es) (empty_value loc m))"
proof -
  obtain ds where ds: "padSliceWire m data (int (length es)) = concat (map (slot_wire m) ds)"
    "length ds = nat (volume (am_Dimensions m))" "list_all (slot_ok m) ds"
    "list_all2 (\<lambda>d v. element_value te p m (slot_content m d) = Inr v) ds
       (map (fetched_value ne loc m) es @ replicate (nat (volume (am_Dimensions m)) - length es) (empty_value loc m))"
    using roundtrip_slots [OF assms(2-7) refl] by blast
  have tz: "am_TypeID m \<noteq> SQL_TYPE_TIME_TZ" "am_TypeID m \<noteq> SQL_TYPE_TIMESTAMP_TZ" using assms(2) by (auto simp: transferable_def)
  note l = slice_lengths [OF assms(2,6,7,9)] and s = stride_bounds [OF assms(2)]
  have v: "0 < volume (am_Dimensions m)" using assms(6) volume_pos by (simp add: shape_ok_def)
  have g: "0 < volume (am_Dimensions m) * arrayGetElementStride m" using v s by simp
  let ?wire = "padSliceWire m data (int (length es))"
  let ?n = "word_of_int (arraySliceAppLength m (am_Dimensions m)) :: int32"
  define front where "front = concat (map field_bytes [FInt op_put_slice, FInt tr, FRaw (bint64_to_bytes 0), FInt ?n,
    FBytes (generateSDL m (am_Dimensions m) False), FBytes [], FInt ?n])"
  have c: "calm (p\<lparr>p_buf := []\<rparr>)" using assms(1) by (simp add: calm_def)
  have "feed b p\<lparr>p_buf := []\<rparr> = feed b (p\<lparr>p_buf := []\<rparr>)" for b by (simp add: feed_def del: feed_simps)
  then have put: "opPutSlice tr m data (int (length es)) (feed (response_bytes r) p) =
    (Inr i, resumeBuffer (p_buf p) (feed [] (sent (front @ ?wire) (p\<lparr>p_buf := []\<rparr>))))"
    using l(2,3) assms(8,10-13) opResponse_frame [of r "sent (front @ ?wire) (p\<lparr>p_buf := []\<rparr>)" "[]"] c
    by (simp add: opPutSlice_def put_slice_request_def Let_def wbind_def calm_send front_def bint64_codec.dec_enc_Nil calm_def)
  have get: "opGetSlice tr i m (feed (slice_answer m ?wire @ rest) p) = (Inr (concat (map (slot_kept m) ds)),
    feed rest (sent (concat (map field_bytes [FInt op_get_slice, FInt tr, FRaw (bint64_to_bytes i),
      FInt (word_of_int (arraySliceGetLength m (am_Dimensions m))), FBytes (generateSDL m (am_Dimensions m) True), FBytes [], FBytes []])) p))"
    using l(1) assms(1,9) g slice_body_enc [OF assms(2,6,7,9) ds(3,2)]
    by (simp add: opGetSlice_def Let_def wbind_def calm_send ds(1))
  show ?thesis
    by (rule exI [of _ front], rule exI [of _ ?wire], rule exI [of _ "concat (map (slot_kept m) ds)"])
      (use put get decode_slice [OF ds(3,4) tz] in \<open>simp add: resumeBuffer_def\<close>)
qed

definition sample_num :: num_env where
  "sample_num = \<lparr> ne_parse_float = (\<lambda>s. None), ne_float_overflow = (\<lambda>w. - (2 ^ 63)), ne_show = (\<lambda>v. ''''), ne_scaled = (\<lambda>w s. 0) \<rparr>"

definition sample_id :: response where
  "sample_id = \<lparr> r_handle = 0, r_oid = bint64_to_bytes 9, r_data = [], r_status = [] \<rparr>"

theorem array_slice_roundtrip_witness:
  "\<exists>front wire got.
    fst (opPutSlice 4 sample_column [0, 0, 0, 7, 255, 255, 255, 254] 2 (feed (response_bytes sample_id) sample_wire)) = Inr 9 \<and>
    p_outbound (snd (opPutSlice 4 sample_column [0, 0, 0, 7, 255, 255, 255, 254] 2 (feed (response_bytes sample_id) sample_wire))) =
      [front @ wire] \<and>
    fst (opGetSlice 4 9 sample_column (feed (slice_answer sample_column wire @ [1]) sample_wire)) = Inr got \<and>
    decodeSliceElements oslo_time sample_wire sample_column got = Inr [VInt 7, VInt (- 2), VInt 0]"
proof -
  have enc: "encodeSliceElements sample_num sample_wire sample_column [AInt KInt64 7, AInt KInt64 (- 2)] =
    Inr [0, 0, 0, 7, 255, 255, 255, 254]"
    by code_simp
  have dims: "shape_ok (am_Dimensions sample_column)" "am_Dimensions sample_column \<noteq> []" "volume (am_Dimensions sample_column) = 3"
    "arrayGetElementStride sample_column = 4"
    by (simp_all add: sample_column_def shape_ok_def maxInt_def arrayGetElementStride_def arrayElementStride_def Let_def)
  have "calm sample_wire" "transferable sample_column" "plain_session oslo_time Local sample_wire"
    "list_all time_ok [AInt KInt64 7, AInt KInt64 (- 2)]"
    by (simp_all add: calm_def plain_session_def sample_wire_def sample_env_def encodeString_def load_zone_def
        transferable_def sample_column_def)
  note t = array_slice_roundtrip [OF this enc dims(1,2), where r = sample_id and i = 9 and rest = "[1]" and tr = 4]
  have "response_fits sample_id" "clause_codes (r_status sample_id) = []" "r_oid sample_id = bint64_to_bytes 9"
    "p_outbound sample_wire = []" "fetched_value sample_num Local sample_column (AInt KInt64 7) = VInt 7"
    "fetched_value sample_num Local sample_column (AInt KInt64 (- 2)) = VInt (- 2)" "empty_value Local sample_column = VInt 0"
    by (simp_all add: sample_id_def response_fits_def clause_codes_def bint64_codec.enc_length sample_wire_def
        fetched_value_def empty_value_def wrap64_def sample_column_def)
  then show ?thesis using t by (simp add: dims) blast
qed

end
