(* ===== verification/Array_Sdl.thy ===== *)
theory Array_Sdl
  imports Array_Trip
begin

text \<open>
  The slice description as a server reads it, and what a slice request does when the connection
  still owes the answer of an earlier, lazily sent request.
\<close>

subsection \<open>Reading a slice description\<close>

definition read_bound :: "bytes \<Rightarrow> (int \<times> bytes) option" where
  "read_bound bs = (case bs of
     c # rest \<Rightarrow>
       (if c = isc_sdl_tiny_integer then (case rest of b # r \<Rightarrow> Some (sint b, r) | [] \<Rightarrow> None)
        else if c = isc_sdl_short_integer then
          (if length rest < 2 then None else Some (sint (of_nat (le_val (take 2 rest)) :: int16), drop 2 rest))
        else if c = isc_sdl_long_integer then
          (if length rest < 4 then None else Some (sint (of_nat (le_val (take 4 rest)) :: int32), drop 4 rest))
        else None)
   | [] \<Rightarrow> None)"

definition read_name :: "byte \<Rightarrow> bytes \<Rightarrow> (string \<times> bytes) option" where
  "read_name tag bs = (case bs of
     c # n # rest \<Rightarrow> (if c = tag \<and> unat n \<le> length rest then Some (bytes_to_str (take (unat n) rest), drop (unat n) rest) else None)
   | _ \<Rightarrow> None)"

text \<open>The loops: \<open>do1\<close> counts from 1, \<open>do2\<close> names its lower bound; loop \<open>i\<close> sets variable \<open>i\<close>.\<close>

definition read_axis :: "nat \<Rightarrow> bytes \<Rightarrow> ((int \<times> int) \<times> bytes) option" where
  "read_axis i bs = (case bs of
     c # v # rest \<Rightarrow>
       (if v \<noteq> of_nat i then None
        else if c = isc_sdl_do1 then map_option (\<lambda>(u, r). ((1, u), r)) (read_bound rest)
        else if c = isc_sdl_do2 then
          Option.bind (read_bound rest) (\<lambda>(l, r). map_option (\<lambda>(u, r). ((l, u), r)) (read_bound r))
        else None)
   | _ \<Rightarrow> None)"

primrec read_axes :: "nat \<Rightarrow> nat \<Rightarrow> bytes \<Rightarrow> ((int \<times> int) list \<times> bytes) option" where
  "read_axes 0 i bs = Some ([], bs)"
| "read_axes (Suc n) i bs =
     Option.bind (read_axis i bs) (\<lambda>(a, r). map_option (\<lambda>(as, r). (a # as, r)) (read_axes n (Suc i) r))"

record slice_request =
  sr_blr :: int
  sr_detail :: bytes
  sr_table :: string
  sr_field :: string
  sr_axes :: "(int \<times> int) list"

definition detail_size :: "int \<Rightarrow> nat" where
  "detail_size blr =
     (if blr \<in> {7, 8, 9, blr_type_int64} then 1
      else if blr \<in> {blr_type_text, blr_type_text2, blr_type_cstring, blr_type_cstring2, blr_type_varying, blr_type_varying2} then 2
      else 0)"

text \<open>The last part repeats the variables in order; it is compared, not parsed.\<close>

definition element_part :: "nat \<Rightarrow> bytes" where
  "element_part n = [isc_sdl_element, 1, isc_sdl_scalar, 0, of_nat n] @
     concat (map (\<lambda>i. [isc_sdl_variable, of_nat i]) [0 ..< n]) @ [isc_sdl_eoc]"

definition read_sdl :: "nat \<Rightarrow> bytes \<Rightarrow> slice_request option" where
  "read_sdl n bs =
     (if length bs < 4 \<or> take 3 bs \<noteq> [isc_sdl_version1, isc_sdl_struct, 1] then None
      else let blr = uint (bs ! 3); r = drop 4 bs; k = detail_size blr in
        Option.bind (read_name isc_sdl_relation (drop k r)) (\<lambda>(table, r1).
        Option.bind (read_name isc_sdl_field r1) (\<lambda>(field, r2).
        Option.bind (read_axes n 0 r2) (\<lambda>(axes, r3).
        if r3 = element_part n
        then Some \<lparr> sr_blr = blr, sr_detail = take k r, sr_table = table, sr_field = field, sr_axes = axes \<rparr>
        else None))))"

definition bound_fits :: "int \<Rightarrow> bool" where
  "bound_fits i \<longleftrightarrow> - (2 ^ 31) \<le> i \<and> i < 2 ^ 31"

lemma read_bound_enc:
  assumes "bound_fits v"
  shows "read_bound (appendDimensionBound v @ rest) = Some (v, rest)"
proof -
  have l: "le_val (int16_to_bytes w) = unat w" "le_val (int32_to_bytes u) = unat u" for w u
    using unsigned_less [of w, where 'a = nat] unsigned_less [of u, where 'a = nat]
    by (simp_all add: int16_to_bytes_le int32_to_bytes_le le_val_le_bytes)
  have n: "length (int16_to_bytes w) = 2" "length (int32_to_bytes u) = 4" for w u
    by (simp_all add: int16_to_bytes_le int32_to_bytes_le)
  have s: "- 128 \<le> v \<Longrightarrow> v \<le> 127 \<Longrightarrow> sint (word_of_int v :: byte) = v"
    "- 32768 \<le> v \<Longrightarrow> v \<le> 32767 \<Longrightarrow> sint (word_of_int v :: int16) = v"
    "sint (word_of_int v :: int32) = v"
    using assms by (simp_all add: signed_of_int signed_take_bit_int_eq_self bound_fits_def)
  consider "- 128 \<le> v \<and> v \<le> 127" | "\<not> (- 128 \<le> v \<and> v \<le> 127)" "- 32768 \<le> v \<and> v \<le> 32767"
    | "\<not> (- 128 \<le> v \<and> v \<le> 127)" "\<not> (- 32768 \<le> v \<and> v \<le> 32767)" by blast
  then show ?thesis
    by cases (simp_all only: appendDimensionBound_def if_True if_False simp_thms, simp_all add: read_bound_def l n s)
qed

lemma read_name_enc:
  "length s < 256 \<Longrightarrow> read_name tag (tag # of_nat (length s) # str_to_bytes s @ rest) = Some (s, rest)"
  by (simp add: read_name_def unat_of_nat take_bit_nat_eq_self)

definition axis_fits :: "array_dimension \<Rightarrow> bool" where
  "axis_fits d \<longleftrightarrow> bound_fits (LowerBound d) \<and> bound_fits (LowerBound d + ad_Length d - 1)"

lemma read_axes_enc:
  "list_all axis_fits ds \<Longrightarrow>
   read_axes (length ds) i (sdl_axes i ds @ rest) = Some (map (\<lambda>d. (LowerBound d, LowerBound d + ad_Length d - 1)) ds, rest)"
  by (induction ds arbitrary: i) (auto simp: read_axis_def read_bound_enc axis_fits_def)

lemma detail_enc:
  assumes "0 \<le> am_BlrTypeID m" "am_BlrTypeID m < 256" "am_BlrTypeID m \<noteq> blr_type_varying2"
  shows "length (sdl_type m g) = detail_size (am_BlrTypeID m)"
  using assms by (simp add: sdl_type_def detail_size_def Let_def int16_to_bytes_le)

subsection \<open>Properties\<close>

text \<open>What the slice description asks for is the array: a server reads back the element type with its
  length or scale, the table and the column, and for every axis the lower and the upper bound, in order,
  as long as the names fit their length byte and the bounds 32 bits. The type \<open>varying2\<close>, whose length the
  driver does not write, is left out.\<close>

theorem slice_description_reads_back:
  assumes "0 \<le> am_BlrTypeID m" "am_BlrTypeID m < 256" "am_BlrTypeID m \<noteq> blr_type_varying2"
    and "length (am_TableName m) < 256" "length (am_FieldName m) < 256" "list_all axis_fits ds"
  shows "read_sdl (length ds) (generateSDL m ds forGet) = Some \<lparr>
     sr_blr = am_BlrTypeID m, sr_detail = sdl_type m forGet, sr_table = am_TableName m, sr_field = am_FieldName m,
     sr_axes = map (\<lambda>d. (LowerBound d, LowerBound d + ad_Length d - 1)) ds \<rparr>"
proof -
  have blr: "uint (word_of_int (am_BlrTypeID m) :: byte) = am_BlrTypeID m"
    using assms(1,2) by (simp add: unsigned_of_int take_bit_int_eq_self)
  show ?thesis
    using detail_enc [OF assms(1-3), of forGet] read_name_enc [OF assms(4)] read_name_enc [OF assms(5)] read_axes_enc [OF assms(6)]
    by (simp add: read_sdl_def generateSDL_def blr element_part_def)
qed

theorem slice_description_reads_back_witness:
  "read_sdl 2 (generateSDL sample_column [\<lparr> LowerBound = 1, ad_Length = 3 \<rparr>, \<lparr> LowerBound = -200, ad_Length = 4 \<rparr>] True) =
   Some \<lparr> sr_blr = 8, sr_detail = [0], sr_table = ''T'', sr_field = ''A'', sr_axes = [(1, 3), (-200, -197)] \<rparr>"
  using slice_description_reads_back [of sample_column "[\<lparr> LowerBound = 1, ad_Length = 3 \<rparr>, \<lparr> LowerBound = -200, ad_Length = 4 \<rparr>]" True]
  by (simp add: sample_column_def axis_fits_def bound_fits_def sdl_type_def Let_def numeral_2_eq_2)

text \<open>C23: A slice request does not wait for the answers the connection still owes: after a lazily sent
  request, such as the close of a blob that a row of a \<open>BLOB\<close> column leads to, it takes that request's
  successful answer for its own, fails, and leaves the slice in the stream.\<close>

theorem owed_response_breaks_slice:
  assumes "\<forall>n. p_wr_ok p n" "response_fits r" "clause_codes (r_status r) = []"
    and "0 < arraySliceGetLength m (am_Dimensions m)" "arraySliceGetLength m (am_Dimensions m) \<le> maxWirePayload"
  shows "fst (opGetSlice tr i m (feed (response_bytes r @ slice_answer m wire) p)) = Inl (Plain ''firebirdsql: array slice request failed: %s'') \<and>
    p_inbound (snd (opGetSlice tr i m (feed (response_bytes r @ slice_answer m wire) p))) = slice_answer m wire"
proof -
  have "opSliceResponse m (feed (response_bytes r @ slice_answer m wire) q) =
    (Inl (Plain ''firebirdsql: array slice request failed: %s''), feed (slice_answer m wire) q)" for q
  proof -
    have "sv_error (p_env q) (vector_meaning (p_env q) (r_status r)) = None"
      using vector_meaning_codes [where env = "p_env q" and cs = "r_status r"] assms(3) by (simp add: sv_error_None)
    then show ?thesis
      using parse_op_response_body [OF assms(2)] next_op_enc [of op_response "response_body r @ slice_answer m wire" q]
      by (simp add: opSliceResponse_def response_bytes_def wbind_def)
  qed
  then show ?thesis
    using assms by (simp add: opGetSlice_def Let_def wbind_def send_fields_sent)
qed

theorem owed_response_breaks_slice_witness:
  "fst (opGetSlice 4 9 sample_column (feed (response_bytes sample_id @ slice_answer sample_column []) (sample_wire\<lparr>p_lazyResponseCount := 1\<rparr>))) =
     Inl (Plain ''firebirdsql: array slice request failed: %s'')"
  using owed_response_breaks_slice [of "sample_wire\<lparr>p_lazyResponseCount := 1\<rparr>" sample_id sample_column 4 9 "[]"]
  by (simp add: sample_wire_def sample_id_def response_fits_def clause_codes_def bint64_codec.enc_length sample_column_def
      arraySliceGetLength_def allElementsCount_def maxInt_def arrayGetElementStride_def arrayElementStride_def wrap64_def Let_def)

end
