(* ===== verification/Params.thy ===== *)
theory Params
  imports Array_Codec
begin

text \<open>
  Statement parameters (\<open>wireprotocol.go\<close>): the BLR message that types them, the values that go with
  it, the blobs and array slices created on the way, and the two execute requests.
\<close>

abbreviation (input) MAX_CHAR_LENGTH :: "'a::numeral" where "MAX_CHAR_LENGTH \<equiv> 32767"

subsection \<open>Writing a blob\<close>

text \<open>
  Segments of at most \<open>BLOB_SEGMENT_SIZE\<close> bytes, each acknowledged; the value is the error that
  stopped it.
\<close>

definition put_segment :: "int32 \<Rightarrow> bytes \<Rightarrow> go_error option wm" where
  "put_segment blobHandle seg =
     wbind (wtry (opPutSegment blobHandle seg)) (\<lambda>r. case r of
       Inl e \<Rightarrow> wret (Some e)
     | Inr _ \<Rightarrow> wbind op_response_raw (\<lambda>(h, oid, b, err). wret err))"

function put_segments :: "int32 \<Rightarrow> bytes \<Rightarrow> go_error option wm" where
  "put_segments blobHandle value =
     (if value = [] then wret None
      else wbind (put_segment blobHandle (take BLOB_SEGMENT_SIZE value)) (\<lambda>err. case err of
        Some e \<Rightarrow> wret (Some e)
      | None \<Rightarrow> put_segments blobHandle (drop BLOB_SEGMENT_SIZE value)))"
  by pat_completeness auto
termination by (relation "measure (\<lambda>(h, v). length v)") auto

declare put_segments.simps [simp del]

text \<open>
  The send error of the first request is dropped. The id is returned beside the error, and is what
  the server put into a failed response.
\<close>

definition create_blob :: "bytes \<Rightarrow> int32 \<Rightarrow> (bytes \<times> go_error option) wm" where
  "create_blob value transHandle =
     wbind (wtry (opCreateBlob2 transHandle)) (\<lambda>_.
     wbind op_response_raw (\<lambda>(blobHandle, blobId, b, err). case err of
       Some e \<Rightarrow> wret (blobId, Some e)
     | None \<Rightarrow>
         wbind (put_segments blobHandle value) (\<lambda>err. case err of
           Some e \<Rightarrow> wret (blobId, Some e)
         | None \<Rightarrow>
             wbind (wtry (opCloseBlob blobHandle)) (\<lambda>r. case r of
               Inl e \<Rightarrow> wret ([], Some e)
             | Inr _ \<Rightarrow> wbind op_response_raw (\<lambda>(h, oid, b, err). wret (blobId, err))))))"

definition createBlob :: "bytes \<Rightarrow> int32 \<Rightarrow> (bytes \<times> go_error option) wm" where
  "createBlob value transHandle p =
     (let (r, q) = create_blob value transHandle (p\<lparr>p_buf := []\<rparr>) in (r, resumeBuffer (p_buf p) q))"

subsection \<open>Parameters\<close>

fun isArrayParamNull :: "go_any \<Rightarrow> bool" where
  "isArrayParamNull ANil = True"
| "isArrayParamNull (AArray None) = True"
| "isArrayParamNull _ = False"

text \<open>The null bitmap in whole 32-bit words: \<open>nullBytes[i/8] |= 1 << (i % 8)\<close>.\<close>

definition bitmap_size :: "nat \<Rightarrow> nat" where
  "bitmap_size n = (let n = (n + 7) div 8 in if n mod 4 \<noteq> 0 then n + (4 - n mod 4) else n)"

definition set_null :: "nat \<Rightarrow> bytes \<Rightarrow> bytes" where
  "set_null i bs = bs[i div 8 := bs ! (i div 8) OR push_bit (i mod 8) 1]"

definition null_bytes :: "bool list \<Rightarrow> bytes" where
  "null_bytes ns = fold (\<lambda>i bs. if ns ! i then set_null i bs else bs) [0 ..< length ns] (replicate (bitmap_size (length ns)) 0)"

text \<open>A long text becomes a blob; the error of \<open>createBlob\<close> is dropped.\<close>

definition text_param :: "int32 \<Rightarrow> bytes \<Rightarrow> (bytes \<times> bytes) wm" where
  "text_param transHandle b =
     (if length b < MAX_CHAR_LENGTH then wret (bytesToBlr b)
      else wbind (createBlob b transHandle) (\<lambda>(v, err). wret ([9, 0], v)))"

definition bind_type :: "xsqlvar list \<Rightarrow> nat \<Rightarrow> int" where
  "bind_type xs i = (if i < length xs then sqltype (xs ! i) else 0)"

definition time_param :: "time_env \<Rightarrow> int \<Rightarrow> string \<Rightarrow> int \<Rightarrow> go_time \<Rightarrow> go_loc \<Rightarrow> bytes \<times> bytes" where
  "time_param te protocolVersion timezone bt t loc =
     (if bt = SQL_TYPE_TIME then timeToBlrNoTZ t
      else if bt = SQL_TYPE_DATE then dateToBlr t
      else if bt = SQL_TYPE_TIMESTAMP then timestampToBlrNoTZ t
      else if bt = SQL_TYPE_TIME_TZ then timeToBlr te t loc protocolVersion timezone
      else if bt = SQL_TYPE_TIMESTAMP_TZ then timestampToBlr te t loc protocolVersion timezone
      else if t_year t = 0 then timeToBlr te t loc protocolVersion timezone
      else timestampToBlr te t loc protocolVersion timezone)"

definition array_param_error :: "'a res \<Rightarrow> 'a res" where
  "array_param_error r = map_sum (Wrapped ''firebirdsql: array parameter %d: %w'') id r"

definition array_param :: "num_env \<Rightarrow> int32 \<Rightarrow> array_meta option \<Rightarrow> go_any list \<Rightarrow> (bytes \<times> bytes) wm" where
  "array_param ne transHandle meta es p = (case meta of
     None \<Rightarrow> (Inl (Plain ''firebirdsql: array parameter %d: column metadata unavailable''), p)
   | Some m \<Rightarrow>
      (case array_param_error (encodeSliceElements ne p m es) of
         Inl e \<Rightarrow> (Inl e, p)
       | Inr data \<Rightarrow>
          (let (r, q) = opPutSlice transHandle m data (int (length es)) p
           in (bind_res (array_param_error r) (\<lambda>i. Inr ([9, 0], bint64_to_bytes i)), q))))"

definition param_to_blr ::
    "num_env \<Rightarrow> time_env \<Rightarrow> int32 \<Rightarrow> int \<Rightarrow> xsqlvar list \<Rightarrow> nat \<Rightarrow> go_any \<Rightarrow> (bytes \<times> bytes) wm" where
  "param_to_blr ne te transHandle protocolVersion xs i param p =
     (if isArrayParamNull param then (Inr ([14, 0, 0], []), p)
      else case param of
        AStr s \<Rightarrow> text_param transHandle (str_to_bytes (encodeString s p)) p
      | AInt KInt n \<Rightarrow> (Inr (int32ToBlr (word_of_int n)), p)
      | AInt KInt16 n \<Rightarrow> (Inr (int32ToBlr (word_of_int n)), p)
      | AInt KInt32 n \<Rightarrow> (Inr (int32ToBlr (word_of_int n)), p)
      | AInt KInt64 n \<Rightarrow> (Inr (int64ToBlr (word_of_int n)), p)
      | AFloat64 w \<Rightarrow> (Inr (float64ToBlr w), p)
      | ATime t loc \<Rightarrow> (Inr (time_param te protocolVersion (p_timezone p) (bind_type xs i) t loc), p)
      | ABool b \<Rightarrow> (Inr ([23], [if b then 1 else 0, 0, 0, 0]), p)
      | ABytes b \<Rightarrow> text_param transHandle b p
      | AArray (Some es) \<Rightarrow> array_param ne transHandle (if i < length xs then arrayMeta (xs ! i) else None) es p
      | v \<Rightarrow> text_param transHandle (str_to_bytes (sprint_v ne v)) p)"

text \<open>The loop: the BLR pieces and the value pieces; before version 13 a null flag follows each value.\<close>

definition null_flag :: "int \<Rightarrow> go_any \<Rightarrow> bytes" where
  "null_flag protocolVersion param =
     (if protocolVersion < PROTOCOL_VERSION13 then (if isArrayParamNull param then [0xff, 0xff, 0xff, 0xff] else [0, 0, 0, 0]) else [])"

primrec params_loop ::
    "num_env \<Rightarrow> time_env \<Rightarrow> int32 \<Rightarrow> int \<Rightarrow> xsqlvar list \<Rightarrow> nat \<Rightarrow> go_any list \<Rightarrow> (bytes \<times> bytes) wm" where
  "params_loop ne te tr ver xs i [] = wret ([], [])"
| "params_loop ne te tr ver xs i (x # ps) =
     wbind (param_to_blr ne te tr ver xs i x) (\<lambda>(blr, v).
     wbind (params_loop ne te tr ver xs (Suc i) ps) (\<lambda>(blrs, vs).
     wret (blr @ [7, 0] @ blrs, v @ null_flag ver x @ vs)))"

definition paramsToBlr ::
    "num_env \<Rightarrow> time_env \<Rightarrow> int32 \<Rightarrow> go_any list \<Rightarrow> int \<Rightarrow> xsqlvar list \<Rightarrow> (bytes \<times> bytes) wm" where
  "paramsToBlr ne te transHandle params protocolVersion inputXsqlda =
     (let ln = int (length params) * 2;
          nulls = (if protocolVersion \<ge> PROTOCOL_VERSION13 then null_bytes (map isArrayParamNull params) else [])
      in wbind (params_loop ne te transHandle protocolVersion inputXsqlda 0 params) (\<lambda>(blrs, vs).
         wret ([5, 2, 4, 0, go_byte (ln AND 255), go_byte (drop_bit 8 ln)] @ blrs @ [255, 76], nulls @ vs)))"

subsection \<open>Executing\<close>

text \<open>
  The request is packed in place while \<open>paramsToBlr\<close> may exchange packets of its own; when it fails
  the header is dropped. \<open>output\<close> is the BLR of the returned row, for \<open>opExecute2\<close>.
\<close>

definition pack_params :: "num_env \<Rightarrow> time_env \<Rightarrow> int32 \<Rightarrow> go_any list \<Rightarrow> xsqlvar list \<Rightarrow> unit wm" where
  "pack_params ne te transHandle params xs p =
     (if params = [] then (Inr (), pack_fields [FInt 0, FInt 0, FInt 0] p)
      else case paramsToBlr ne te transHandle params (p_protocolVersion p) xs p of
        (Inl e, q) \<Rightarrow> (Inl e, q\<lparr>p_buf := []\<rparr>)
      | (Inr (blr, values), q) \<Rightarrow> (Inr (), appendBytes values (pack_fields [FBytes blr, FInt 0, FInt 1] q)))"

definition opExecute :: "num_env \<Rightarrow> time_env \<Rightarrow> int32 \<Rightarrow> int32 \<Rightarrow> go_any list \<Rightarrow> xsqlvar list \<Rightarrow> unit wm" where
  "opExecute ne te stmtHandle transHandle params xs =
     wbind (wupd (pack_fields [FInt op_execute, FInt stmtHandle, FInt transHandle])) (\<lambda>_.
     wbind (pack_params ne te transHandle params xs) (\<lambda>_.
     wbind (wupd appendExecuteTrailers) (\<lambda>_. sendPackets)))"

definition opExecute2 :: "num_env \<Rightarrow> time_env \<Rightarrow> int32 \<Rightarrow> int32 \<Rightarrow> go_any list \<Rightarrow> bytes \<Rightarrow> xsqlvar list \<Rightarrow> unit wm" where
  "opExecute2 ne te stmtHandle transHandle params outputBlr xs =
     wbind (wupd (pack_fields [FInt op_execute2, FInt stmtHandle, FInt transHandle])) (\<lambda>_.
     wbind (pack_params ne te transHandle params xs) (\<lambda>_.
     wbind (wupd (pack_fields [FBytes outputBlr, FInt 0])) (\<lambda>_.
     wbind (wupd appendExecuteTrailers) (\<lambda>_. sendPackets))))"

end
