(* ===== verification/Transactions.thy ===== *)
theory Transactions
  imports Params
begin

text \<open>
  Connections and their transactions (\<open>connection.go\<close>, \<open>transaction.go\<close>, the part of
  \<open>driver_go18.go\<close> that begins one). The \<open>*firebirdsqlTx\<close> pointers of the code are indices into a
  list of transaction objects that only grows, and so are its statements and batches; \<open>cn_tx\<close> is \<open>fc.tx\<close>, \<open>None\<close> when it is nil, and
  \<open>cn_set\<close> the keys of \<open>transactionSet\<close>. Deadlines are not modelled: a bounded read is the read.
\<close>

abbreviation (input) ISOLATION_LEVEL_READ_COMMITED_LEGACY :: "'a::zero" where "ISOLATION_LEVEL_READ_COMMITED_LEGACY \<equiv> 0"
abbreviation (input) ISOLATION_LEVEL_READ_COMMITED :: "'a::one" where "ISOLATION_LEVEL_READ_COMMITED \<equiv> 1"
abbreviation (input) ISOLATION_LEVEL_REPEATABLE_READ :: "'a::numeral" where "ISOLATION_LEVEL_REPEATABLE_READ \<equiv> 2"
abbreviation (input) ISOLATION_LEVEL_SERIALIZABLE :: "'a::numeral" where "ISOLATION_LEVEL_SERIALIZABLE \<equiv> 3"
abbreviation (input) ISOLATION_LEVEL_READ_COMMITED_RO :: "'a::numeral" where "ISOLATION_LEVEL_READ_COMMITED_RO \<equiv> 4"
abbreviation (input) ISOLATION_LEVEL_READ_COMMITED_NOWAIT :: "'a::numeral" where "ISOLATION_LEVEL_READ_COMMITED_NOWAIT \<equiv> 5"
abbreviation (input) ISOLATION_LEVEL_READ_COMMITED_RO_NOWAIT :: "'a::numeral" where "ISOLATION_LEVEL_READ_COMMITED_RO_NOWAIT \<equiv> 6"
abbreviation (input) LevelReadCommittedNoWait :: "'a::numeral" where "LevelReadCommittedNoWait \<equiv> 1000"

record transaction =
  t_isolationLevel :: int
  t_isAutocommit :: bool
  t_transHandle :: int32
  t_needBegin :: bool

text \<open>
  Statements and prepared batches are shared by pointers too: a statement points to the batch that
  is active on it, a batch to its statement.
\<close>

record stmt =
  s_queryString :: string
  s_stmtHandle :: int32
  s_resultXsqlda :: "xsqlvar list"
  s_inputXsqlda :: "xsqlvar list option"
  s_blr :: bytes
  s_activeBatch :: "nat option"
  s_stmtType :: int32

record batch_options =
  bo_BufferBytes :: int
  bo_ContinueOnError :: bool
  bo_DetailedErrors :: int
  bo_RecordCounts :: bool

record prepared_batch =
  pb_stmt :: "nat option"
  pb_opts :: batch_options
  pb_created :: bool
  pb_closed :: bool
  pb_encodedRows :: "bytes list"
  pb_pendingBytes :: int
  pb_autoFlushSize :: int
  pb_paramBlr :: bytes
  pb_msgLen :: int32

record conn =
  cn_wp :: wire_protocol
  cn_tx :: "nat option"
  cn_isAutocommit :: bool
  cn_columnNameToLower :: bool
  cn_heap :: "transaction list"
  cn_set :: "nat list"
  cn_stmts :: "stmt list"
  cn_batches :: "prepared_batch list"
  cn_resolvingArrayMeta :: bool

subsection \<open>Operations on a connection\<close>

type_synonym 'a cm = "conn \<Rightarrow> 'a res \<times> conn"

definition cret :: "'a \<Rightarrow> 'a cm" where
  "cret x c = (Inr x, c)"

definition cerr :: "go_error \<Rightarrow> 'a cm" where
  "cerr e c = (Inl e, c)"

definition cbind :: "'a cm \<Rightarrow> ('a \<Rightarrow> 'b cm) \<Rightarrow> 'b cm" where
  "cbind m f c = (case m c of (Inl e, c') \<Rightarrow> (Inl e, c') | (Inr x, c') \<Rightarrow> f x c')"

definition ctry :: "'a cm \<Rightarrow> 'a res cm" where
  "ctry m c = (case m c of
     (Inl e, c') \<Rightarrow> if is_panic e then (Inl e, c') else (Inr (Inl e), c')
   | (Inr x, c') \<Rightarrow> (Inr (Inr x), c'))"

definition cupd :: "(conn \<Rightarrow> conn) \<Rightarrow> unit cm" where
  "cupd f c = (Inr (), f c)"

text \<open>\<open>fc.wp\<close>: an operation of the wire protocol on the connection's own.\<close>

definition at_wire :: "'a wm \<Rightarrow> 'a cm" where
  "at_wire m c = (let (r, p) = m (cn_wp c) in (r, c\<lparr>cn_wp := p\<rparr>))"

lemma cbind_simps [simp]:
  "m c = (Inl e, c') \<Longrightarrow> cbind m f c = (Inl e, c')"
  "m c = (Inr x, c') \<Longrightarrow> cbind m f c = f x c'"
  by (simp_all add: cbind_def)

lemma c_apply [simp]: "cret x c = (Inr x, c)" "cerr e c = (Inl e, c)" "cupd f c = (Inr (), f c)"
  by (simp_all add: cret_def cerr_def cupd_def)

lemma at_wire_apply: "m (cn_wp c) = (r, p) \<Longrightarrow> at_wire m c = (r, c\<lparr>cn_wp := p\<rparr>)"
  by (simp add: at_wire_def)

text \<open>An answer whose error is returned after more work has been done.\<close>

definition finish :: "go_error option \<Rightarrow> unit cm" where
  "finish err = (case err of None \<Rightarrow> cret () | Some e \<Rightarrow> cerr e)"

subsection \<open>Transactions\<close>

definition tpbForIsolationLevel :: "int \<Rightarrow> bytes res" where
  "tpbForIsolationLevel level =
     (if level = ISOLATION_LEVEL_READ_COMMITED_LEGACY then
        Inr [isc_tpb_version3, isc_tpb_write, isc_tpb_wait, isc_tpb_read_committed, isc_tpb_no_rec_version]
      else if level = ISOLATION_LEVEL_READ_COMMITED then
        Inr [isc_tpb_version3, isc_tpb_write, isc_tpb_wait, isc_tpb_read_committed, isc_tpb_rec_version]
      else if level = ISOLATION_LEVEL_READ_COMMITED_NOWAIT then
        Inr [isc_tpb_version3, isc_tpb_write, isc_tpb_nowait, isc_tpb_read_committed, isc_tpb_rec_version]
      else if level = ISOLATION_LEVEL_REPEATABLE_READ then
        Inr [isc_tpb_version3, isc_tpb_write, isc_tpb_wait, isc_tpb_concurrency]
      else if level = ISOLATION_LEVEL_SERIALIZABLE then
        Inr [isc_tpb_version3, isc_tpb_write, isc_tpb_wait, isc_tpb_consistency]
      else if level = ISOLATION_LEVEL_READ_COMMITED_RO then
        Inr [isc_tpb_version3, isc_tpb_read, isc_tpb_wait, isc_tpb_read_committed, isc_tpb_rec_version]
      else if level = ISOLATION_LEVEL_READ_COMMITED_RO_NOWAIT then
        Inr [isc_tpb_version3, isc_tpb_read, isc_tpb_nowait, isc_tpb_read_committed, isc_tpb_rec_version]
      else Inl (Plain ''invalid isolation level''))"

definition upd_tx :: "nat \<Rightarrow> (transaction \<Rightarrow> transaction) \<Rightarrow> conn \<Rightarrow> conn" where
  "upd_tx t f c = c\<lparr>cn_heap := (cn_heap c)[t := f (cn_heap c ! t)]\<rparr>"

definition tx_insert :: "nat \<Rightarrow> nat list \<Rightarrow> nat list" where
  "tx_insert t ts = (if t \<in> set ts then ts else ts @ [t])"

text \<open>The handle is stored whether or not the answer is an error.\<close>

definition tx_begin :: "nat \<Rightarrow> unit cm" where
  "tx_begin t c =
     (case tpbForIsolationLevel (t_isolationLevel (cn_heap c ! t)) of
        Inl e \<Rightarrow> (Inl e, c)
      | Inr tpb \<Rightarrow>
          cbind (at_wire (opTransaction tpb)) (\<lambda>_.
          cbind (at_wire op_response_raw) (\<lambda>(h, oid, b, err).
          cbind (cupd (upd_tx t (\<lambda>x. x\<lparr>t_transHandle := h\<rparr>))) (\<lambda>_. case err of
            Some e \<Rightarrow> cerr e
          | None \<Rightarrow> cupd (\<lambda>c. upd_tx t (\<lambda>x. x\<lparr>t_needBegin := False\<rparr>) (c\<lparr>cn_set := tx_insert t (cn_set c)\<rparr>))))) c)"

text \<open>The common end of the three ways to finish: the answer, the cache of inline blobs, the flags.\<close>

definition tx_end :: "(int32 \<Rightarrow> unit wm) \<Rightarrow> (transaction \<Rightarrow> transaction) \<Rightarrow> nat \<Rightarrow> unit cm" where
  "tx_end request mark t c =
     (let h = t_transHandle (cn_heap c ! t)
      in cbind (at_wire (request h)) (\<lambda>_.
         cbind (at_wire op_response_raw) (\<lambda>(_, oid, b, err).
         cbind (at_wire (wupd (clearInlineBlobCache h))) (\<lambda>_.
         cbind (cupd (\<lambda>c. upd_tx t (\<lambda>x. mark (x\<lparr>t_isAutocommit := cn_isAutocommit c\<rparr>)) c)) (\<lambda>_.
         finish err)))) c)"

definition commitRetainging :: "nat \<Rightarrow> unit cm" where
  "commitRetainging = tx_end opCommitRetaining (\<lambda>x. x)"

definition tx_Commit :: "nat \<Rightarrow> unit cm" where
  "tx_Commit = tx_end opCommit (\<lambda>x. x\<lparr>t_needBegin := True\<rparr>)"

definition tx_Rollback :: "nat \<Rightarrow> unit cm" where
  "tx_Rollback = tx_end opRollback (\<lambda>x. x\<lparr>t_needBegin := True\<rparr>)"

definition newFirebirdsqlTx :: "int \<Rightarrow> bool \<Rightarrow> bool \<Rightarrow> nat cm" where
  "newFirebirdsqlTx isolationLevel isAutocommit withBegin c =
     (let t = length (cn_heap c);
          x = \<lparr> t_isolationLevel = isolationLevel, t_isAutocommit = isAutocommit, t_transHandle = 0, t_needBegin = \<not> withBegin \<rparr>;
          c = c\<lparr>cn_heap := cn_heap c @ [x]\<rparr>
      in if withBegin then cbind (tx_begin t) (\<lambda>_. cret t) c else (Inr t, c))"

subsection \<open>Connections\<close>

text \<open>\<open>fc.tx\<close> is replaced on either path: by nil when the transaction could not be started.\<close>

definition conn_begin :: "int \<Rightarrow> nat cm" where
  "conn_begin isolationLevel =
     cbind (ctry (newFirebirdsqlTx isolationLevel False True)) (\<lambda>r. case r of
       Inl e \<Rightarrow> cbind (cupd (\<lambda>c. c\<lparr>cn_tx := None\<rparr>)) (\<lambda>_. cerr e)
     | Inr t \<Rightarrow> cbind (cupd (\<lambda>c. c\<lparr>cn_tx := Some t\<rparr>)) (\<lambda>_. cret t))"

definition conn_Begin :: "nat cm" where
  "conn_Begin = conn_begin ISOLATION_LEVEL_READ_COMMITED"

text \<open>The levels of \<open>database/sql\<close>: default 0, read committed 2, repeatable read 4, serializable 6.\<close>

definition BeginTx :: "bool \<Rightarrow> int \<Rightarrow> nat cm" where
  "BeginTx readOnly isolation =
     (if readOnly then
        (if isolation = LevelReadCommittedNoWait then conn_begin ISOLATION_LEVEL_READ_COMMITED_RO_NOWAIT
         else conn_begin ISOLATION_LEVEL_READ_COMMITED_RO)
      else if isolation = 0 \<or> isolation = 2 then conn_begin ISOLATION_LEVEL_READ_COMMITED
      else if isolation = LevelReadCommittedNoWait then conn_begin ISOLATION_LEVEL_READ_COMMITED_NOWAIT
      else if isolation = 4 then conn_begin ISOLATION_LEVEL_REPEATABLE_READ
      else if isolation = 6 then conn_begin ISOLATION_LEVEL_SERIALIZABLE
      else cerr (Plain ''This isolation level is not supported.''))"

text \<open>The loop over the map runs in an unspecified order, which \<open>order\<close> stands for.\<close>

primrec rollback_each :: "nat list \<Rightarrow> unit cm" where
  "rollback_each [] = cret ()"
| "rollback_each (t # ts) = cbind (ctry (tx_Rollback t)) (\<lambda>_. rollback_each ts)"

definition conn_Close :: "(nat list \<Rightarrow> nat list) \<Rightarrow> unit cm" where
  "conn_Close order c =
     cbind (rollback_each (order (cn_set c))) (\<lambda>_.
     cbind (at_wire (wupd clearAllInlineBlobCache)) (\<lambda>_.
     cbind (at_wire opDetach) (\<lambda>_.
     cbind (at_wire op_response_raw) (\<lambda>(_, oid, b, err). finish err)))) c"

definition current_tx :: "conn \<Rightarrow> transaction res" where
  "current_tx c = (case cn_tx c of Some t \<Rightarrow> Inr (cn_heap c ! t) | None \<Rightarrow> Inl (Panic ''nil pointer dereference''))"

text \<open>\<open>if fc.tx.needBegin { fc.tx.begin() }\<close>\<close>

definition begin_if_needed :: "unit cm" where
  "begin_if_needed c = (case cn_tx c of
     None \<Rightarrow> (Inl (Panic ''nil pointer dereference''), c)
   | Some t \<Rightarrow> if t_needBegin (cn_heap c ! t) then tx_begin t c else (Inr (), c))"

text \<open>The transaction of a fresh connection, started by its first statement.\<close>

definition open_conn :: "wire_protocol \<Rightarrow> bool \<Rightarrow> conn" where
  "open_conn wp lower =
     (let c = \<lparr> cn_wp = wp, cn_tx = None, cn_isAutocommit = True, cn_columnNameToLower = lower, cn_heap = [], cn_set = [],
                cn_stmts = [], cn_batches = [], cn_resolvingArrayMeta = False \<rparr>;
          (r, c) = newFirebirdsqlTx ISOLATION_LEVEL_READ_COMMITED (cn_isAutocommit c) False c
      in case r of Inr t \<Rightarrow> c\<lparr>cn_tx := Some t\<rparr> | Inl e \<Rightarrow> c)"

definition Ping :: "unit cm" where
  "Ping =
     cbind (ctry (at_wire (opInfoDatabase [isc_info_ods_version, isc_info_end]))) (\<lambda>r. case r of
       Inl e \<Rightarrow> cerr (Wrapped ''ping info_database failed: %w: %w'' (BadConn ''driver: bad connection''))
     | Inr _ \<Rightarrow>
         cbind (ctry (at_wire opResponse)) (\<lambda>r. case r of
           Inl e \<Rightarrow> cerr (Wrapped ''ping response failed: %w: %w'' (BadConn ''driver: bad connection''))
         | Inr _ \<Rightarrow> cret ()))"

end
