(* ===== verification/Batch_Wire.thy ===== *)
theory Batch_Wire
  imports Params
begin

text \<open>
  The batch requests and the completion state (\<open>batch_wire.go\<close>). A batch request is followed by a
  ping or a sync packet, so that two answers are owed.
\<close>

subsection \<open>The parameter buffer\<close>

definition pb_putByte :: "byte \<Rightarrow> byte \<Rightarrow> bytes \<Rightarrow> bytes" where
  "pb_putByte tag val buf = buf @ [tag] @ int32_to_bytes 1 @ [val]"

definition pb_putInt32 :: "byte \<Rightarrow> int32 \<Rightarrow> bytes \<Rightarrow> bytes" where
  "pb_putInt32 tag val buf = buf @ [tag] @ int32_to_bytes 4 @ int32_to_bytes val"

subsection \<open>Requests\<close>

definition opPing :: "unit wm" where
  "opPing = send_fields [FInt op_ping]"

text \<open>The loop over two answers stops at the first error.\<close>

definition receiveTwoResponses :: "unit wm" where
  "receiveTwoResponses = wbind opResponse (\<lambda>_. wbind opResponse (\<lambda>_. wret ()))"

definition opBatchCreate :: "int32 \<Rightarrow> bytes \<Rightarrow> int32 \<Rightarrow> bytes \<Rightarrow> unit wm" where
  "opBatchCreate stmtHandle blr msgLen pb =
     wbind (send_fields [FInt op_batch_create, FInt stmtHandle, FBytes blr, FInt msgLen, FBytes pb]) (\<lambda>_.
     wbind opPing (\<lambda>_. receiveTwoResponses))"

definition batch_row_field :: "bytes \<Rightarrow> field" where
  "batch_row_field row = FRaw (row @ replicate (nat ((4 - int (length row)) AND 3)) 0)"

definition opBatchMsg :: "int32 \<Rightarrow> bytes list \<Rightarrow> unit wm" where
  "opBatchMsg stmtHandle rows =
     wbind (send_fields ([FInt op_batch_msg, FInt stmtHandle, FInt (word_of_int (int (length rows)))] @ map batch_row_field rows)) (\<lambda>_.
     wbind (\<lambda>p. if p_protocolVersion p \<ge> PROTOCOL_VERSION17 then send_fields [FInt op_batch_sync] p else opPing p) (\<lambda>_.
     receiveTwoResponses))"

definition opBatchExec :: "int32 \<Rightarrow> int32 \<Rightarrow> unit wm" where
  "opBatchExec stmtHandle transHandle = send_fields [FInt op_batch_exec, FInt stmtHandle, FInt transHandle]"

definition opBatchRelease :: "int32 \<Rightarrow> int32 \<Rightarrow> unit wm" where
  "opBatchRelease stmtHandle kind =
     wbind (send_fields [FInt kind, FInt stmtHandle]) (\<lambda>_. wbind opPing (\<lambda>_. receiveTwoResponses))"

subsection \<open>The completion state\<close>

record batch_completion =
  bc_TotalRecords :: int32
  bc_UpdateCounts :: "int32 list"
  bc_DetailedErrors :: "(int32 \<times> go_error) list"
  bc_SimplifiedErrors :: "int32 list"

definition hasErrors :: "batch_completion \<Rightarrow> bool" where
  "hasErrors c \<longleftrightarrow> bc_DetailedErrors c \<noteq> [] \<or> bc_SimplifiedErrors c \<noteq> []"

definition affected :: "batch_completion \<Rightarrow> int" where
  "affected c = (if bc_UpdateCounts c = [] then sint (bc_TotalRecords c)
     else sum_list (map sint (filter (\<lambda>u. sint u > 0) (bc_UpdateCounts c))))"

definition ErrBatchRowFailed :: go_error where
  "ErrBatchRowFailed = Plain ''batch row failed''"

primrec recv_ints :: "nat \<Rightarrow> int32 list wm" where
  "recv_ints 0 = wret []"
| "recv_ints (Suc n) = wbind recv_int (\<lambda>w. wbind (recv_ints n) (\<lambda>ws. wret (w # ws)))"

text \<open>Unlike the error of a response, the codes of a row error are not filled in from the tables.\<close>

definition row_error :: "status_vector \<Rightarrow> go_error" where
  "row_error v = (if sv_gdsCodes v \<noteq> [] \<or> sv_sqlCode v \<noteq> 0
     then Fb \<lparr> GDSCodes = sv_gdsCodes v, SQLCode = sv_sqlCode v, SQLState = sv_sqlState v, Params = sv_params v,
            Warnings = sv_warnings v, Message = sv_message v \<rparr>
     else ErrBatchRowFailed)"

primrec recv_row_errors :: "nat \<Rightarrow> (int32 \<times> go_error) list wm" where
  "recv_row_errors 0 = wret []"
| "recv_row_errors (Suc n) =
     wbind recv_int (\<lambda>row. wbind parse_status_vector (\<lambda>v.
     wbind (recv_row_errors n) (\<lambda>es. wret ((row, row_error v) # es))))"

text \<open>Owed answers are taken off first; here an error of the loops is returned at once.\<close>

function completion_op :: "int32 \<Rightarrow> int32 wm" where
  "completion_op w p =
     (if w = op_response \<and> p_lazyResponseCount p > 0 then
        (case parse_op_response (p\<lparr>p_lazyResponseCount := p_lazyResponseCount p - 1\<rparr>) of
           (Inl e, p1) \<Rightarrow> (Inl e, p1)
         | (Inr _, p1) \<Rightarrow> (case recv_int p1 of (Inl e, p2) \<Rightarrow> (Inl e, p2) | (Inr w', p2) \<Rightarrow> completion_op w' p2))
      else (Inr w, p))"
  by pat_completeness auto
termination
proof (relation "measure (\<lambda>(w, p). nat (p_lazyResponseCount p))", simp, goal_cases)
  case (1 w p r p1 x r2 p2 w')
  have "p_lazyResponseCount p1 = p_lazyResponseCount p - 1"
    using 1(2) [symmetric] reads_state [OF reads_parse_op_response] by fastforce
  moreover have "p_lazyResponseCount p2 = p_lazyResponseCount p1"
    using 1(4) [symmetric] reads_state [OF reads_recv_int(1)] by fastforce
  ultimately show ?case using 1(1) by simp
qed

declare completion_op.simps [simp del]

definition completion_body :: "batch_completion wm" where
  "completion_body =
     wbind recv_int (\<lambda>_.
     wbind recv_int (\<lambda>total. wbind recv_int (\<lambda>u. wbind recv_int (\<lambda>d. wbind recv_int (\<lambda>s.
     let updateCount = sint u; detailedCount = sint d; simplifiedCount = sint s in
     if updateCount < 0 \<or> detailedCount < 0 \<or> simplifiedCount < 0 \<or>
        updateCount > maxWirePayload \<or> detailedCount > maxWirePayload \<or> simplifiedCount > maxWirePayload
     then werr (Wrapped ''firebirdsql: invalid batch completion counts: %w'' (BadConn ''driver: bad connection''))
     else
       wbind (recv_ints (nat updateCount)) (\<lambda>us.
       wbind (recv_row_errors (nat detailedCount)) (\<lambda>ds.
       wbind (recv_ints (nat simplifiedCount)) (\<lambda>ss.
       wret \<lparr> bc_TotalRecords = total, bc_UpdateCounts = us, bc_DetailedErrors = ds, bc_SimplifiedErrors = ss \<rparr>))))))))"

definition opBatchCompletion :: "batch_completion wm" where
  "opBatchCompletion =
     wbind next_op (\<lambda>w. wbind (completion_op w) (\<lambda>w.
     if w = op_response then
       wbind parse_op_response (\<lambda>(h, oid, b, err). case err of
         Some e \<Rightarrow> werr e
       | None \<Rightarrow> werr (Plain ''firebirdsql: unexpected op_response instead of op_batch_cs''))
     else if w \<noteq> op_batch_cs then werr (Plain ''firebirdsql: expected op_batch_cs, got %d'')
     else completion_body))"

end
