(* ===== verification/Statements.thy ===== *)
theory Statements
  imports Transactions Batch_Wire
begin

text \<open>
  Statements and the rows of a query (\<open>statement.go\<close>, \<open>rows.go\<close>, \<open>opSqlResponse\<close>). The context is one
  that is never cancelled and has no deadline, so the watcher and the drain after a deadline do not
  run. Preparing resolves array columns with queries of its own, which go through the same code:
  \<open>resolve\<close> and \<open>new\<close> stand for \<open>resolveArrayMeta\<close> and \<open>newFirebirdsqlStmt\<close>, tied in \<open>Array_Meta\<close>.
\<close>

definition upd_stmt :: "nat \<Rightarrow> (stmt \<Rightarrow> stmt) \<Rightarrow> conn \<Rightarrow> conn" where
  "upd_stmt s f c = c\<lparr>cn_stmts := (cn_stmts c)[s := f (cn_stmts c ! s)]\<rparr>"

definition upd_batch :: "nat \<Rightarrow> (prepared_batch \<Rightarrow> prepared_batch) \<Rightarrow> conn \<Rightarrow> conn" where
  "upd_batch b f c = c\<lparr>cn_batches := (cn_batches c)[b := f (cn_batches c ! b)]\<rparr>"

text \<open>\<open>fc.tx\<close> dereferenced; \<open>if fc.tx.isAutocommit { err = fc.tx.commitRetainging() }\<close>.\<close>

definition the_tx :: "nat cm" where
  "the_tx c = (case cn_tx c of None \<Rightarrow> (Inl (Panic ''nil pointer dereference''), c) | Some t \<Rightarrow> (Inr t, c))"

definition with_handle :: "(int32 \<Rightarrow> 'a wm) \<Rightarrow> 'a cm" where
  "with_handle m = cbind the_tx (\<lambda>t c. at_wire (m (t_transHandle (cn_heap c ! t))) c)"

definition errof :: "unit res \<Rightarrow> go_error option" where
  "errof r = (case r of Inl e \<Rightarrow> Some e | Inr _ \<Rightarrow> None)"

definition autocommit :: "go_error option cm" where
  "autocommit = cbind the_tx (\<lambda>t c.
     if t_isAutocommit (cn_heap c ! t) then cbind (ctry (commitRetainging t)) (\<lambda>r. cret (errof r)) c else (Inr None, c))"

definition is_lazy :: "wire_protocol \<Rightarrow> bool" where
  "is_lazy p \<longleftrightarrow> p_acceptType p AND ptype_MASK = ptype_lazy_send"

subsection \<open>Freeing\<close>

definition releaseBeforeFree :: "nat \<Rightarrow> unit cm" where
  "releaseBeforeFree b c =
     (if \<not> pb_created (cn_batches c ! b) then (Inr (), c)
      else case pb_stmt (cn_batches c ! b) of
        None \<Rightarrow> (Inl (Panic ''nil pointer dereference''), c)
      | Some s \<Rightarrow> cbind (ctry (at_wire (opBatchRelease (s_stmtHandle (cn_stmts c ! s)) op_batch_rls))) (\<lambda>_.
          cupd (upd_batch b (\<lambda>x. x\<lparr>pb_created := False\<rparr>))) c)"

text \<open>With lazy sending the answer stays owed.\<close>

definition free_answer :: "go_error option wm" where
  "free_answer p =
     (if is_lazy p then (Inr None, p\<lparr>p_lazyResponseCount := p_lazyResponseCount p + 1\<rparr>)
      else wbind op_response_raw (\<lambda>(h, oid, b, err). wret err) p)"

definition release_active :: "nat \<Rightarrow> int32 \<Rightarrow> unit cm" where
  "release_active s mode c =
     (case s_activeBatch (cn_stmts c ! s) of
        Some b \<Rightarrow> if mode = DSQL_drop
          then cbind (releaseBeforeFree b) (\<lambda>_. cupd (upd_stmt s (\<lambda>x. x\<lparr>s_activeBatch := None\<rparr>))) c else (Inr (), c)
      | None \<Rightarrow> (Inr (), c))"

definition freeStatement :: "nat \<Rightarrow> int32 \<Rightarrow> unit cm" where
  "freeStatement s mode =
     cbind (release_active s mode) (\<lambda>_ c.
     cbind (at_wire (opFreeStatement (s_stmtHandle (cn_stmts c ! s)) mode)) (\<lambda>_.
     cbind (at_wire free_answer) (\<lambda>err.
     cbind autocommit (\<lambda>_. finish err))) c)"

text \<open>The deferred assignment runs on every path.\<close>

definition stmt_Close :: "nat \<Rightarrow> unit cm" where
  "stmt_Close s c =
     (if s_stmtHandle (cn_stmts c ! s) = - 1 then (Inr (), c)
      else let (r, c) = freeStatement s DSQL_drop c in (r, upd_stmt s (\<lambda>x. x\<lparr>s_stmtHandle := - 1\<rparr>) c))"

definition is_select :: "stmt \<Rightarrow> bool" where
  "is_select x \<longleftrightarrow> s_stmtType x = isc_info_sql_stmt_select \<or> s_stmtType x = isc_info_sql_stmt_select_for_upd"

definition closeCursor :: "nat \<Rightarrow> unit cm" where
  "closeCursor s c =
     (if s_stmtHandle (cn_stmts c ! s) = - 1 \<or> \<not> is_select (cn_stmts c ! s) then (Inr (), c)
      else freeStatement s DSQL_close c)"

text \<open>\<open>database/sql\<close> is told not to count the arguments.\<close>

definition NumInput :: "stmt \<Rightarrow> int" where
  "NumInput x = - 1"

subsection \<open>Preparing\<close>

text \<open>
  With lazy sending the handle of a new statement is known only after the prepare request went out:
  the count is taken back by one so that the read that follows returns that answer.
\<close>

definition alloc_handle :: "int32 wm" where
  "alloc_handle p =
     (if is_lazy p then (Inr (- 1), p\<lparr>p_lazyResponseCount := p_lazyResponseCount p + 1\<rparr>)
      else wbind opResponse (\<lambda>(h, oid, b). wret h) p)"

definition owed_handle :: "int32 \<Rightarrow> int32 wm" where
  "owed_handle h p =
     (if is_lazy p \<and> p_lazyResponseCount p > 0
      then wbind op_response_raw (\<lambda>(h, oid, b, err). wret h) (p\<lparr>p_lazyResponseCount := p_lazyResponseCount p - 1\<rparr>)
      else (Inr h, p))"

definition new_stmt :: "string \<Rightarrow> stmt" where
  "new_stmt query = \<lparr> s_queryString = query, s_stmtHandle = 0, s_resultXsqlda = [], s_inputXsqlda = None, s_blr = [],
     s_activeBatch = None, s_stmtType = 0 \<rparr>"

definition prepare_handle :: "string \<Rightarrow> int32 cm" where
  "prepare_handle query =
     cbind (at_wire opAllocateStatement) (\<lambda>_.
     cbind (at_wire alloc_handle) (\<lambda>h.
     cbind (with_handle (\<lambda>tr. opPrepareStatement h tr query)) (\<lambda>_.
     at_wire (owed_handle h))))"

text \<open>A descriptor fresh from the server has no array metadata, which is what \<open>resolve\<close> leaves on error.\<close>

definition prepare_stmt :: "(xsqlvar list \<Rightarrow> xsqlvar list cm) \<Rightarrow> string \<Rightarrow> nat cm" where
  "prepare_stmt resolve query c =
     (let s = length (cn_stmts c)
      in cbind (cupd (\<lambda>c. c\<lparr>cn_stmts := cn_stmts c @ [new_stmt query]\<rparr>)) (\<lambda>_.
         cbind (prepare_handle query) (\<lambda>h.
         cbind (cupd (upd_stmt s (\<lambda>x. x\<lparr>s_stmtHandle := h\<rparr>))) (\<lambda>_.
         cbind (at_wire opResponse) (\<lambda>(_, oid, buf).
         cbind (at_wire (parse_xsqlda buf h)) (\<lambda>(t, xs).
         cbind (at_wire (wlift (calcBlr xs))) (\<lambda>blr.
         cbind (cupd (upd_stmt s (\<lambda>x. x\<lparr>s_stmtType := t, s_resultXsqlda := xs, s_blr := blr\<rparr>))) (\<lambda>_.
         cbind (resolve xs) (\<lambda>xs.
         cbind (cupd (upd_stmt s (\<lambda>x. x\<lparr>s_resultXsqlda := xs\<rparr>))) (\<lambda>_. cret s))))))))) c)"

definition reprepare :: "(string \<Rightarrow> nat cm) \<Rightarrow> nat \<Rightarrow> nat cm" where
  "reprepare new s c =
     (if s_stmtHandle (cn_stmts c ! s) = - 1 then new (s_queryString (cn_stmts c ! s)) c else (Inr s, c))"

definition ensureInputXsqlda :: "(xsqlvar list \<Rightarrow> xsqlvar list cm) \<Rightarrow> nat \<Rightarrow> go_any list \<Rightarrow> unit cm" where
  "ensureInputXsqlda resolve s args c =
     (if args = [] \<or> s_inputXsqlda (cn_stmts c ! s) \<noteq> None then (Inr (), c)
      else cbind (at_wire (fetchBindXsqlda (s_stmtHandle (cn_stmts c ! s)))) (\<lambda>xs.
           cbind (cupd (upd_stmt s (\<lambda>x. x\<lparr>s_inputXsqlda := Some xs\<rparr>))) (\<lambda>_.
           cbind (resolve xs) (\<lambda>xs. cupd (upd_stmt s (\<lambda>x. x\<lparr>s_inputXsqlda := Some xs\<rparr>))))) c)"

definition input_vars :: "stmt \<Rightarrow> xsqlvar list" where
  "input_vars x = (case s_inputXsqlda x of None \<Rightarrow> [] | Some xs \<Rightarrow> xs)"

subsection \<open>Executing\<close>

text \<open>
  The counts are 32-bit words added before they are widened. A result comes with an error when the
  statement ran and the commit after it failed.
\<close>

definition row_count :: "int32 \<Rightarrow> bytes \<Rightarrow> int res" where
  "row_count stmtType buf =
     (if length buf \<ge> 32 then
        (if stmtType = isc_info_sql_stmt_select \<or> stmtType = isc_info_sql_stmt_select_for_upd
         then bind_res (bytes_to_int32 (take 4 (drop 20 buf))) (\<lambda>w. Inr (sint w))
         else bind_res (bytes_to_int32 (take 4 (drop 27 buf))) (\<lambda>i.
              bind_res (bytes_to_int32 (take 4 (drop 6 buf))) (\<lambda>u.
              bind_res (bytes_to_int32 (take 4 (drop 13 buf))) (\<lambda>d. Inr (sint (i + u + d))))))
      else Inr 0)"

definition start_execute ::
    "(xsqlvar list \<Rightarrow> xsqlvar list cm) \<Rightarrow> (string \<Rightarrow> nat cm) \<Rightarrow> nat \<Rightarrow> go_any list \<Rightarrow> nat cm" where
  "start_execute resolve new s args =
     cbind begin_if_needed (\<lambda>_.
     cbind (reprepare new s) (\<lambda>s.
     cbind (ensureInputXsqlda resolve s args) (\<lambda>_. cret s)))"

definition stmt_opExecute :: "num_env \<Rightarrow> time_env \<Rightarrow> nat \<Rightarrow> go_any list \<Rightarrow> unit cm" where
  "stmt_opExecute ne te s args c =
     with_handle (\<lambda>tr. opExecute ne te (s_stmtHandle (cn_stmts c ! s)) tr args (input_vars (cn_stmts c ! s))) c"

definition stmt_exec ::
    "num_env \<Rightarrow> time_env \<Rightarrow> (xsqlvar list \<Rightarrow> xsqlvar list cm) \<Rightarrow> (string \<Rightarrow> nat cm) \<Rightarrow> nat \<Rightarrow> go_any list \<Rightarrow>
     (int \<times> go_error option) cm" where
  "stmt_exec ne te resolve new s args =
     cbind (start_execute resolve new s args) (\<lambda>s.
     cbind (stmt_opExecute ne te s args) (\<lambda>_.
     cbind (at_wire opResponse) (\<lambda>_ c.
     cbind (at_wire (opInfoSql (s_stmtHandle (cn_stmts c ! s)) [isc_info_sql_records])) (\<lambda>_.
     cbind (at_wire opResponse) (\<lambda>(_, oid, buf).
     cbind (at_wire (wlift (row_count (s_stmtType (cn_stmts c ! s)) buf))) (\<lambda>n.
     cbind autocommit (\<lambda>err. cret (n, err))))) c)))"

subsection \<open>Rows\<close>

definition opSqlResponse :: "time_env \<Rightarrow> xsqlvar list \<Rightarrow> go_value list option wm" where
  "opSqlResponse te xsqlda =
     wbind next_op (\<lambda>w. wbind (skip_lazy w) (\<lambda>w. wbind (consumeInlineBlobsStarting w) (\<lambda>w.
     if w \<noteq> op_sql_response then werr (Plain ''Error op_sql_response'')
     else wbind recv_int (\<lambda>count. if count = 0 then wret None
       else wbind (readRow te xsqlda) (\<lambda>r. wret (Some r))))))"

record rows =
  r_stmt :: nat
  r_currentChunk :: "go_value list list option"
  r_currentChunkIdx :: nat
  r_moreData :: bool
  r_result :: "go_value list option"
  r_closeStmtOnClose :: bool
  r_badConn :: bool

definition newFirebirdsqlRows :: "nat \<Rightarrow> go_value list option \<Rightarrow> conn \<Rightarrow> rows" where
  "newFirebirdsqlRows s result c = \<lparr> r_stmt = s, r_currentChunk = None, r_currentChunkIdx = 0,
     r_moreData = is_select (cn_stmts c ! s), r_result = result, r_closeStmtOnClose = False, r_badConn = False \<rparr>"

definition stmt_query ::
    "num_env \<Rightarrow> time_env \<Rightarrow> (xsqlvar list \<Rightarrow> xsqlvar list cm) \<Rightarrow> (string \<Rightarrow> nat cm) \<Rightarrow> nat \<Rightarrow> go_any list \<Rightarrow> rows cm" where
  "stmt_query ne te resolve new s args =
     cbind (start_execute resolve new s args) (\<lambda>s c.
     let x = cn_stmts c ! s in
     if s_stmtType x = isc_info_sql_stmt_exec_procedure then
       cbind (with_handle (\<lambda>tr. opExecute2 ne te (s_stmtHandle x) tr args (s_blr x) (input_vars x))) (\<lambda>_.
       cbind (at_wire (opSqlResponse te (s_resultXsqlda x))) (\<lambda>result.
       cbind (at_wire opResponse) (\<lambda>_ c. (Inr (newFirebirdsqlRows s result c), c)))) c
     else
       cbind (stmt_opExecute ne te s args) (\<lambda>_.
       cbind (at_wire opResponse) (\<lambda>_ c. (Inr (newFirebirdsqlRows s None c), c))) c)"

definition Columns :: "conn \<Rightarrow> rows \<Rightarrow> string list" where
  "Columns c r = map (\<lambda>x. if cn_columnNameToLower c then ToLower (aliasname x) else aliasname x)
     (s_resultXsqlda (cn_stmts c ! r_stmt r))"

definition rows_Close :: "rows \<Rightarrow> unit cm" where
  "rows_Close r =
     cbind (ctry (if r_closeStmtOnClose r then stmt_Close (r_stmt r) else closeCursor (r_stmt r))) (\<lambda>e.
     if r_badConn r then cerr (BadConn ''driver: bad connection'') else finish (errof e))"

end
