(* ===== verification/Rows.thy ===== *)
theory Rows
  imports Statements
begin

text \<open>
  Stepping through the rows of a query (\<open>rows.go\<close>) and through a scrollable cursor (\<open>scroll.go\<close>).
  The values of a row are read from the wire as \<open>go_value\<close>; \<open>Next\<close> replaces an array or blob
  identifier by what it names.
\<close>

datatype dest = DVal go_value | DArray array_meta "go_value list"

definition materializeArray :: "time_env \<Rightarrow> int32 res \<Rightarrow> xsqlvar \<Rightarrow> bytes \<Rightarrow> dest wm" where
  "materializeArray te transHandle x v = (case arrayMeta x of
     None \<Rightarrow> werr (Plain ''firebirdsql: array column %s: metadata unavailable'')
   | Some m \<Rightarrow>
       if length v \<noteq> 8
       then werr (Wrapped ''firebirdsql: array column %s: short array id (%d bytes): %w'' (BadConn ''driver: bad connection''))
       else wbind (wlift (bytes_to_bint64 v)) (\<lambda>i.
         if i = 0 then wret (DVal VNil)
         else wbind (wlift transHandle) (\<lambda>tr. wbind (opGetSlice tr i m) (\<lambda>data p.
           (map_sum id (DArray m) (decodeSliceElements te p m data), p)))))"

definition as_bytes :: "go_value \<Rightarrow> bytes res" where
  "as_bytes v = (case v of VBytes b \<Rightarrow> Inr b | _ \<Rightarrow> Inl (Panic ''interface conversion: not []uint8''))"

text \<open>\<open>fc.tx.transHandle\<close>, read where an array or a blob is fetched and not before.\<close>

definition tx_handle :: "conn \<Rightarrow> int32 res" where
  "tx_handle c = (case cn_tx c of
     None \<Rightarrow> Inl (Panic ''nil pointer dereference'') | Some t \<Rightarrow> Inr (t_transHandle (cn_heap c ! t)))"

text \<open>A text blob is decoded only in the rows of a select.\<close>

definition blob_text :: "wire_protocol \<Rightarrow> bytes \<Rightarrow> string" where
  "blob_text p blob = (case decodeCharset (p_env p) blob (p_charset p) of Some s \<Rightarrow> s | None \<Rightarrow> bytes_to_str blob)"

definition dest_value :: "time_env \<Rightarrow> bool \<Rightarrow> int32 res \<Rightarrow> xsqlvar \<Rightarrow> go_value \<Rightarrow> dest wm" where
  "dest_value te decode transHandle x v =
     (if sqltype x = SQL_TYPE_ARRAY \<and> v \<noteq> VNil then wbind (wlift (as_bytes v)) (materializeArray te transHandle x)
      else if sqltype x = SQL_TYPE_BLOB \<and> v \<noteq> VNil then
        wbind (wlift (as_bytes v)) (\<lambda>blobId.
        wbind (wlift transHandle) (\<lambda>tr.
        wbind (getBlobSegments blobId tr) (\<lambda>blob p.
          (Inr (DVal (if decode \<and> sqlsubtype x = 1 then VStr (blob_text p blob) else VBytes blob)), p))))
      else wret (DVal v))"

fun dest_values :: "time_env \<Rightarrow> bool \<Rightarrow> int32 res \<Rightarrow> xsqlvar list \<Rightarrow> go_value list \<Rightarrow> dest list wm" where
  "dest_values te decode tr xs [] = wret []"
| "dest_values te decode tr [] (v # vs) = werr (Panic ''index out of range'')"
| "dest_values te decode tr (x # xs) (v # vs) =
     wbind (dest_value te decode tr x v) (\<lambda>d. wbind (dest_values te decode tr xs vs) (\<lambda>ds. wret (d # ds)))"

definition row_dest :: "time_env \<Rightarrow> bool \<Rightarrow> nat \<Rightarrow> go_value list \<Rightarrow> dest list cm" where
  "row_dest te decode s vs c = at_wire (dest_values te decode (tx_handle c) (s_resultXsqlda (cn_stmts c ! s)) vs) c"

definition EOF :: go_error where "EOF = Plain ''EOF''"

subsection \<open>Next\<close>

text \<open>An error that says the connection is bad is remembered for \<open>Close\<close>.\<close>

definition failed_row :: "go_error \<Rightarrow> rows \<Rightarrow> (dest list res \<times> rows) cm" where
  "failed_row e r = cret (Inl e, r\<lparr>r_badConn := r_badConn r \<or> is_bad_conn e\<rparr>)"

definition next_procedure :: "time_env \<Rightarrow> rows \<Rightarrow> (dest list res \<times> rows) cm" where
  "next_procedure te r = (case r_result r of
     None \<Rightarrow> cret (Inl EOF, r)
   | Some vs \<Rightarrow> cbind (ctry (row_dest te False (r_stmt r) vs)) (\<lambda>x. case x of
       Inl e \<Rightarrow> failed_row e r
     | Inr ds \<Rightarrow> cret (Inr ds, r\<lparr>r_result := None\<rparr>)))"

definition chunk_length :: "rows \<Rightarrow> nat" where
  "chunk_length r = (case r_currentChunk r of None \<Rightarrow> 0 | Some ch \<Rightarrow> length ch)"

definition current_row :: "time_env \<Rightarrow> rows \<Rightarrow> (dest list res \<times> rows) cm" where
  "current_row te r = (case r_currentChunk r of
     None \<Rightarrow> cret (Inl EOF, r)
   | Some ch \<Rightarrow>
       if r_currentChunkIdx r \<ge> length ch then cret (Inl EOF, r)
       else cbind (ctry (row_dest te True (r_stmt r) (ch ! r_currentChunkIdx r))) (\<lambda>x. case x of
         Inl e \<Rightarrow> failed_row e r | Inr ds \<Rightarrow> cret (Inr ds, r)))"

text \<open>The request is sent, then its response replaces the chunk, also when it is an error.\<close>

definition fetch_chunk :: "time_env \<Rightarrow> rows \<Rightarrow> (unit res \<times> rows) cm" where
  "fetch_chunk te r c =
     (let x = cn_stmts c ! r_stmt r in
      cbind (ctry (at_wire (opFetch (s_stmtHandle x) (s_blr x)))) (\<lambda>e. case e of
        Inl e \<Rightarrow> cret (Inl e, r)
      | Inr _ \<Rightarrow>
        cbind (ctry (with_handle (\<lambda>_. opFetchResponse te (s_resultXsqlda x)))) (\<lambda>f. case f of
          Inl e \<Rightarrow> cret (Inl e, r\<lparr>r_currentChunk := None, r_moreData := False\<rparr>)
        | Inr (ch, again) \<Rightarrow> cret (Inr (), r\<lparr>r_currentChunk := Some ch, r_moreData := again\<rparr>))) c)"

definition advance :: "rows \<Rightarrow> rows" where
  "advance r = (if r_currentChunk r \<noteq> None then r\<lparr>r_currentChunkIdx := r_currentChunkIdx r + 1\<rparr> else r)"

definition next_select :: "time_env \<Rightarrow> rows \<Rightarrow> (dest list res \<times> rows) cm" where
  "next_select te r =
     (let r = advance r in
      if r_currentChunkIdx r \<ge> chunk_length r \<and> r_moreData r then
        cbind (fetch_chunk te r) (\<lambda>(e, r). case e of
          Inl e \<Rightarrow> failed_row e r
        | Inr _ \<Rightarrow> current_row te (r\<lparr>r_currentChunkIdx := 0\<rparr>))
      else current_row te r)"

definition rows_Next :: "time_env \<Rightarrow> rows \<Rightarrow> (dest list res \<times> rows) cm" where
  "rows_Next te r c =
     (if s_stmtType (cn_stmts c ! r_stmt r) = isc_info_sql_stmt_exec_procedure then next_procedure te r c
      else next_select te r c)"

subsection \<open>Reading a result to its end\<close>

text \<open>Nothing below puts bytes into the input, and a response that was read took some out.\<close>

lemma inbound_at_wire: "inbound.keeps m \<Longrightarrow> length (p_inbound (cn_wp (snd (at_wire m c)))) \<le> length (p_inbound (cn_wp c))"
  unfolding inbound.keeps_def at_wire_def by (metis (no_types, lifting) case_prod_beta conn.select_convs(1) conn.update_convs(1) conn.surjective snd_conv)

lemma inbound_pair [simp]: "inbound.keeps (Pair r)" "reads (Pair r)"
  by (auto simp: inbound.keeps_def intro: reads_keep)

lemma inbound_segment_loop: "inbound.keeps (segment_loop h m)"
proof -
  have "length (p_inbound (snd (segment_loop h m p))) \<le> length (p_inbound p)" for p
  proof (induction h m p rule: segment_loop.induct)
    case (1 h m p)
    have k: "inbound.keeps (segment_step h)"
      unfolding segment_step_def by (auto intro!: inbound.keeps_bind simp: opGetSegment_def)
    show ?case
    proof (cases "m \<noteq> 2")
      case True
      obtain r q where s: "segment_step h p = (r, q)" by force
      have q: "length (p_inbound q) \<le> length (p_inbound p)" using inbound.keepsD [OF k s] .
      show ?thesis
      proof (cases r)
        case (Inr x)
        then show ?thesis using 1 [OF True s [symmetric], of x] q s True
          by (subst segment_loop.simps) (cases x, auto split: prod.split sum.split dest!: spec)
      qed (use s q True in \<open>subst segment_loop.simps, simp\<close>)
    qed (subst segment_loop.simps, simp)
  qed
  then show ?thesis by (simp add: inbound.keeps_def)
qed

lemma inbound_getBlobSegments: "inbound.keeps (getBlobSegments blobId tr)"
proof -
  have c: "inbound.keeps (close_blob h)" for h
  proof -
    have "inbound.keeps (\<lambda>p. if p_acceptType p AND ptype_MASK = ptype_lazy_send
       then (Inr (), p\<lparr>p_lazyResponseCount := p_lazyResponseCount p + 1\<rparr>) else wbind opResponse (\<lambda>_. wret ()) p)"
      using inbound.keeps_bind [OF inbound.keeps_opResponse, of "\<lambda>_. wret ()"]
      by (simp add: inbound.keeps_def)
    then show ?thesis unfolding close_blob_def by (auto intro!: inbound.keeps_bind simp: opCloseBlob_def)
  qed
  have f: "inbound.keeps (fetch_segments blobId tr)"
    unfolding fetch_segments_def by (auto intro!: inbound.keeps_bind inbound_segment_loop c simp: opOpenBlob2_def)
  have "length (p_inbound (snd (getBlobSegments blobId tr p))) \<le> length (p_inbound p)" for p
  proof -
    have "length (p_inbound (snd (fetch_segments blobId tr (p\<lparr>p_inlineBlobCache := x, p_buf := []\<rparr>)))) \<le> length (p_inbound p)" for x
      using f [unfolded inbound.keeps_def, rule_format, of "p\<lparr>p_inlineBlobCache := x, p_buf := []\<rparr>"] by simp
    then have "fetch_segments blobId tr (p\<lparr>p_inlineBlobCache := x, p_buf := []\<rparr>) = (r, q) \<Longrightarrow>
      length (p_inbound q) \<le> length (p_inbound p)" for x r q
      by (metis snd_conv)
    then show ?thesis by (auto simp: getBlobSegments_def resumeBuffer_def Let_def split: prod.split option.split)
  qed
  then show ?thesis by (simp add: inbound.keeps_def)
qed

lemma inbound_opGetSlice: "inbound.keeps (opGetSlice tr i m)"
proof -
  have e: "inbound.keeps (recv_slice_elements m n)" for n
  proof (induction n)
    case (Suc n)
    have "reads (recv_slice_element m)"
      unfolding recv_slice_element_def Let_def by (auto intro!: reads_bind split: prod.split)
    from inbound.keeps_reads [OF this] show ?case using Suc by (auto intro!: inbound.keeps_bind)
  qed simp
  have b: "inbound.keeps (slice_body m)"
    unfolding slice_body_def Let_def by (auto intro!: inbound.keeps_bind inbound.keeps_reads [OF reads_recv_int(1)] e)
  have "length (p_inbound (snd (next_op p))) \<le> length (p_inbound p)" for p
  proof (induction p rule: next_op.induct)
    case (1 p)
    show ?case
    proof (cases "fst (recv_int p)")
      case (Inl er)
      then obtain q where "recv_int p = (Inl er, q)" by (metis prod.collapse)
      then show ?thesis using reads_le [OF reads_recv_int(1), of p] by (subst next_op.simps) simp
    next
      case (Inr w)
      then obtain q where q: "recv_int p = (Inr w, q)" by (metis prod.collapse)
      then show ?thesis using 1 [OF q [symmetric]] recv_int_less [OF q] by (subst next_op.simps) auto
    qed
  qed
  then have n: "inbound.keeps next_op" by (simp add: inbound.keeps_def)
  show ?thesis
    unfolding opGetSlice_def opSliceResponse_def Let_def
    by (auto intro!: inbound.keeps_bind b n split: option.split simp: inbound.keeps_reads)
qed

lemma inbound_dest_value: "inbound.keeps (dest_value te decode tr x v)"
proof -
  have s: "inbound.keeps (wbind m (\<lambda>x p. (f x p, p)))" if "inbound.keeps m" for m :: "'a wm" and f :: "'a \<Rightarrow> wire_protocol \<Rightarrow> 'b res"
    by (rule inbound.keeps_bind [OF that]) (simp add: inbound.keeps_def)
  show ?thesis
    unfolding dest_value_def materializeArray_def
    by (auto intro!: inbound.keeps_bind s inbound_getBlobSegments inbound_opGetSlice split: option.split)
qed

lemma inbound_dest_values: "inbound.keeps (dest_values te decode tr xs vs)"
  by (induction te decode tr xs vs rule: dest_values.induct) (auto intro!: inbound.keeps_bind inbound_dest_value)

lemma fetch_response_less:
  assumes "opFetchResponse te xs p = (Inr x, q)"
  shows "length (p_inbound q) < length (p_inbound p)"
proof -
  obtain r p1 w p2 v p3 u p4 where 1: "recv_int p = (Inr r, p1)" "skip_dummy r p1 = (Inr w, p2)" "skip_lazy w p2 = (Inr v, p3)"
      "consumeInlineBlobsStarting v p3 = (Inr u, p4)" "fetch_op te xs u p4 = (Inr x, q)"
    using assms unfolding opFetchResponse_def
    by (elim wbind_InrE) (auto elim!: wbind_InrE simp: wtry_def split: prod.splits sum.splits if_splits)
  have "length (p_inbound p4) \<le> length (p_inbound p3)" using consume_le [of v p3] 1(4) by simp
  moreover have "length (p_inbound p3) \<le> length (p_inbound p2)" by (rule inbound.keepsD [OF inbound.keeps_skip_lazy 1(3)])
  moreover have "length (p_inbound p2) \<le> length (p_inbound p1)" by (rule inbound.keepsD [OF inbound.keeps_skip_dummy 1(2)])
  moreover have "length (p_inbound p1) < length (p_inbound p)" by (rule recv_int_less [OF 1(1)])
  moreover have "length (p_inbound q) \<le> length (p_inbound p4)"
  proof -
    have "length (p_inbound (snd (fetch_rows te xs st c p))) \<le> length (p_inbound p)" if "fst (fetch_rows te xs st c p) = Inr y" for st c p y
      using that
    proof (induction te xs st c p arbitrary: y rule: fetch_rows.induct)
      case (1 te xs st c p)
      show ?case
      proof (cases "c > 0")
        case True
        obtain r st' c' q where f: "fetch_step te xs p = (Inr (r, st', c'), q)"
          using 1(2) True by (subst (asm) fetch_rows.simps) (auto split: prod.splits sum.splits)
        obtain z q' where z: "fetch_rows te xs st' c' q = (Inr z, q')"
          using 1(2) True f by (subst (asm) fetch_rows.simps) (auto split: prod.splits sum.splits)
        show ?thesis
          using True f z fetch_step_less [OF f] 1(1) [OF True f [symmetric] refl refl refl, of z]
          by (subst fetch_rows.simps) (simp split: prod.split)
      qed (subst fetch_rows.simps, simp)
    qed
    note rows = this
    obtain st q1 c q2 y where f: "recv_int p4 = (Inr st, q1)" "recv_int q1 = (Inr c, q2)" "fetch_rows te xs st (sint c) q2 = (Inr y, q)"
      using 1(5) unfolding fetch_op_def fetch_failed_def Let_def
      by (auto split: if_splits option.splits elim!: wbind_InrE)
    show ?thesis using rows [of st "sint c" q2 y] f(3) recv_int_less [OF f(1)] recv_int_less [OF f(2)] by simp
  qed
  ultimately show ?thesis by simp
qed

text \<open>A row that was returned came with input read, or brought the position nearer to the chunk's end.\<close>

definition rows_left :: "rows \<Rightarrow> nat" where
  "rows_left r = (if r_result r \<noteq> None then 1 else 0) + (case r_currentChunk r of None \<Rightarrow> 0 | Some ch \<Rightarrow> length ch - r_currentChunkIdx r)"

lemma row_dest_le:
  assumes "row_dest te decode s vs c = (x, d)"
  shows "length (p_inbound (cn_wp d)) \<le> length (p_inbound (cn_wp c))" "cn_stmts d = cn_stmts c" "cn_tx d = cn_tx c"
proof -
  have "length (p_inbound (cn_wp (snd (row_dest te decode s vs c)))) \<le> length (p_inbound (cn_wp c)) \<and>
      cn_stmts (snd (row_dest te decode s vs c)) = cn_stmts c \<and> cn_tx (snd (row_dest te decode s vs c)) = cn_tx c"
    using inbound_at_wire [OF inbound_dest_values] unfolding row_dest_def
    by (auto simp: at_wire_def split: prod.split)
  then show "length (p_inbound (cn_wp d)) \<le> length (p_inbound (cn_wp c))" "cn_stmts d = cn_stmts c" "cn_tx d = cn_tx c"
    using assms by simp_all
qed

lemma current_row_le:
  assumes "current_row te r c = (Inr (Inr ds, r'), d)"
  shows "length (p_inbound (cn_wp d)) \<le> length (p_inbound (cn_wp c))" "r' = r" "r_currentChunkIdx r < chunk_length r"
  using assms row_dest_le(1)
  by (auto simp: current_row_def cbind_def ctry_def failed_row_def chunk_length_def cret_def
      split: option.splits if_splits prod.splits sum.splits)

lemma fetch_chunk_less:
  assumes "fetch_chunk te r c = (Inr (Inr (), r'), d)"
  shows "length (p_inbound (cn_wp d)) < length (p_inbound (cn_wp c))"
    "r_result r' = r_result r"
proof -
  obtain u c1 where 1: "at_wire (opFetch (s_stmtHandle (cn_stmts c ! r_stmt r)) (s_blr (cn_stmts c ! r_stmt r))) c = (Inr u, c1)"
    using assms by (auto simp: fetch_chunk_def cbind_def ctry_def Let_def cret_def split: prod.splits sum.splits if_splits)
  have c1: "length (p_inbound (cn_wp c1)) \<le> length (p_inbound (cn_wp c))"
    using inbound_at_wire [of "opFetch (s_stmtHandle (cn_stmts c ! r_stmt r)) (s_blr (cn_stmts c ! r_stmt r))" c] 1
    by (simp add: opFetch_def)
  obtain x where 2: "with_handle (\<lambda>_. opFetchResponse te (s_resultXsqlda (cn_stmts c ! r_stmt r))) c1 = (Inr x, d)"
      "r' = r\<lparr>r_currentChunk := Some (fst x), r_moreData := snd x\<rparr>"
    using assms 1 by (auto simp: fetch_chunk_def cbind_def ctry_def Let_def cret_def split: prod.splits sum.splits if_splits)
  show "length (p_inbound (cn_wp d)) < length (p_inbound (cn_wp c))"
    using 2(1) c1 fetch_response_less [of te "s_resultXsqlda (cn_stmts c ! r_stmt r)" "cn_wp c1"]
    by (auto simp: with_handle_def the_tx_def cbind_def at_wire_def split: option.splits prod.splits)
  show "r_result r' = r_result r" using 2(2) by simp
qed

lemma rows_Next_less:
  assumes "rows_Next te r c = (Inr (Inr ds, r'), d)"
  shows "((r', d), (r, c)) \<in> measures [\<lambda>(r, c). length (p_inbound (cn_wp c)), \<lambda>(r, c). rows_left r]"
proof (cases "s_stmtType (cn_stmts c ! r_stmt r) = isc_info_sql_stmt_exec_procedure")
  case True
  then obtain vs where "r_result r = Some vs" "row_dest te False (r_stmt r) vs c = (Inr ds, d)" "r' = r\<lparr>r_result := None\<rparr>"
    using assms by (auto simp: rows_Next_def next_procedure_def cbind_def ctry_def failed_row_def cret_def
        split: option.splits prod.splits sum.splits if_splits)
  then show ?thesis using row_dest_le(1) [of te False "r_stmt r" vs c] by (cases "r_currentChunk r") (auto simp: rows_left_def)
next
  case False
  define r1 where "r1 = advance r"
  have n: "next_select te r c = (Inr (Inr ds, r'), d)" using assms False by (simp add: rows_Next_def)
  show ?thesis
  proof (cases "r_currentChunkIdx r1 \<ge> chunk_length r1 \<and> r_moreData r1")
    case True
    then obtain r2 c2 where f: "fetch_chunk te r1 c = (Inr (Inr (), r2), c2)"
        "current_row te (r2\<lparr>r_currentChunkIdx := 0\<rparr>) c2 = (Inr (Inr ds, r'), d)"
      using n by (auto simp: next_select_def r1_def [symmetric] cbind_def failed_row_def cret_def Let_def
          split: prod.splits sum.splits if_splits)
    then show ?thesis using fetch_chunk_less(1) [OF f(1)] current_row_le(1) [OF f(2)] by simp
  next
    case False
    then have "current_row te r1 c = (Inr (Inr ds, r'), d)" using n by (auto simp: next_select_def r1_def [symmetric] Let_def)
    note k = current_row_le [OF this]
    have "rows_left r' < rows_left r" using k(2,3) by (auto simp: rows_left_def r1_def advance_def chunk_length_def split: option.splits if_splits)
    then show ?thesis using k(1) by auto
  qed
qed

text \<open>\<open>for { rows.Next(dest) }\<close>: the rows up to the end, or the error that stopped the loop.\<close>

function drain :: "time_env \<Rightarrow> rows \<Rightarrow> (dest list list res \<times> rows) cm" where
  "drain te r c =
     (case rows_Next te r c of
        (Inl e, d) \<Rightarrow> (Inl e, d)
      | (Inr (Inl e, r'), d) \<Rightarrow> (if e = EOF then (Inr (Inr [], r'), d) else (Inr (Inl e, r'), d))
      | (Inr (Inr ds, r'), d) \<Rightarrow>
          (case drain te r' d of
             (Inl e, d) \<Rightarrow> (Inl e, d)
           | (Inr (Inl e, r'), d) \<Rightarrow> (Inr (Inl e, r'), d)
           | (Inr (Inr dss, r'), d) \<Rightarrow> (Inr (Inr (ds # dss), r'), d)))"
  by pat_completeness auto
termination
  by (relation "inv_image (measures [\<lambda>(r, c). length (p_inbound (cn_wp c)), \<lambda>(r, c). rows_left r]) (\<lambda>(te, r, c). (r, c))")
    (auto dest!: sym [of _ "rows_Next _ _ _"] rows_Next_less)

declare drain.simps [simp del]

end
