(* ===== verification/Array_Meta.thy ===== *)
theory Array_Meta
  imports Rows "HOL-Library.AList"
begin

text \<open>
  The metadata of array columns (\<open>resolveArrayMeta\<close>, \<open>queryArrayMeta\<close> and \<open>internalQuery\<close> of
  \<open>array_meta.go\<close>), asked of the system tables by ordinary statements on the same connection. Go maps
  are association lists.
\<close>

subsection \<open>The queries\<close>

type_synonym array_key = "string \<times> string"

definition quoteMetaLiteral :: "string \<Rightarrow> string" where
  "quoteMetaLiteral s = CHR 0x27 # concat (map (\<lambda>c. if c = CHR 0x27 then [c, c] else [c]) s) @ [CHR 0x27]"

definition text_types :: string where
  "text_types = ''('' @ itoa blr_type_text @ '','' @ itoa blr_type_varying @ '')''"

definition in_list :: "string list \<Rightarrow> string" where
  "in_list ss = ''('' @ join_with '','' (map quoteMetaLiteral ss) @ '')''"

definition meta_query :: "array_key list \<Rightarrow> string" where
  "meta_query pairs =
     ''SELECT Y.RDB$FIELD_TYPE, Y.RDB$FIELD_SCALE, Y.RDB$FIELD_LENGTH, '' @
     ''CASE WHEN Y.RDB$FIELD_TYPE IN '' @ text_types @
     '' THEN Y.RDB$CHARACTER_SET_ID ELSE Y.RDB$FIELD_SUB_TYPE END, '' @
     ''CASE WHEN Y.RDB$FIELD_TYPE IN '' @ text_types @
     '' THEN Y.RDB$CHARACTER_LENGTH ELSE Y.RDB$FIELD_LENGTH END, '' @
     ''X.RDB$FIELD_SOURCE, X.RDB$RELATION_NAME, X.RDB$FIELD_NAME, Y.RDB$FIELD_LENGTH '' @
     ''FROM RDB$RELATION_FIELDS X, RDB$FIELDS Y '' @
     ''WHERE X.RDB$FIELD_SOURCE = Y.RDB$FIELD_NAME '' @
     ''AND X.RDB$RELATION_NAME IN '' @ in_list (map fst pairs) @ '' '' @
     ''AND X.RDB$FIELD_NAME IN '' @ in_list (map snd pairs)"

definition dimension_query :: "string list \<Rightarrow> string" where
  "dimension_query sources =
     ''SELECT X.RDB$LOWER_BOUND, X.RDB$UPPER_BOUND, X.RDB$FIELD_NAME '' @
     ''FROM RDB$FIELD_DIMENSIONS X '' @
     ''WHERE X.RDB$FIELD_NAME IN '' @ in_list sources @ '' '' @
     ''ORDER BY X.RDB$FIELD_NAME, X.RDB$DIMENSION''"

subsection \<open>Their rows\<close>

definition rowAsInt64 :: "dest \<Rightarrow> int res" where
  "rowAsInt64 v = (case v of DVal (VInt i) \<Rightarrow> Inr i | _ \<Rightarrow> Inl (Plain ''expected integer, got %T''))"

definition rowAsString :: "dest \<Rightarrow> string" where
  "rowAsString v = (case v of DVal (VStr s) \<Rightarrow> TrimSpace s | DVal (VBytes b) \<Rightarrow> TrimSpace (bytes_to_str b) | _ \<Rightarrow> '''')"

definition named_int :: "string \<Rightarrow> dest \<Rightarrow> int res" where
  "named_int what v = map_sum (Wrapped (what @ '': %w'')) id (rowAsInt64 v)"

text \<open>The length of a text element is in characters when the system table has it.\<close>

definition element_length :: "int \<Rightarrow> dest \<Rightarrow> int" where
  "element_length fieldBytes v = (case rowAsInt64 v of Inr n \<Rightarrow> if n > 0 then n else fieldBytes | Inl _ \<Rightarrow> fieldBytes)"

definition row_meta :: "dest list \<Rightarrow> (array_key \<times> array_meta) res" where
  "row_meta row =
     (if length row < 9 then Inl (Plain ''short array metadata row (%d columns)'')
      else bind_res (named_int ''array element type'' (row ! 0)) (\<lambda>blr.
           bind_res (named_int ''array element scale'' (row ! 1)) (\<lambda>scale.
           bind_res (named_int ''array element length'' (row ! 2)) (\<lambda>fieldBytes.
           bind_res (if row ! 3 = DVal VNil then Inr 0 else named_int ''array element sub-type'' (row ! 3)) (\<lambda>sub.
           let rel = rowAsString (row ! 6); field = rowAsString (row ! 7) in
           bind_res (arrayTypeFromBlr blr) (\<lambda>typeID.
           Inr ((ToUpper rel, ToUpper field),
             \<lparr> am_TableName = rel, am_FieldName = field, am_TypeID = typeID, am_BlrTypeID = blr, am_Scale = word_of_int scale,
               am_SubType = word_of_int sub, am_Length = word_of_int (element_length fieldBytes (row ! 4)),
               am_FieldBytes = word_of_int fieldBytes, am_Dimensions = [], am_fieldSource = rowAsString (row ! 5) \<rparr>)))))))"

primrec meta_rows :: "dest list list \<Rightarrow> (array_key \<times> array_meta) list res" where
  "meta_rows [] = Inr []"
| "meta_rows (row # rows) = bind_res (row_meta row) (\<lambda>m. bind_res (meta_rows rows) (\<lambda>ms. Inr (m # ms)))"

definition row_dimension :: "dest list \<Rightarrow> (string \<times> array_dimension) res" where
  "row_dimension row =
     (if length row < 3 then Inl (Plain ''short array dimension row (%d columns)'')
      else bind_res (named_int ''array lower bound'' (row ! 0)) (\<lambda>lower.
           bind_res (named_int ''array upper bound'' (row ! 1)) (\<lambda>upper.
           if upper < lower then Inl (Plain ''array field %s has inverted bounds [%d,%d]'')
           else Inr (rowAsString (row ! 2), \<lparr> LowerBound = lower, ad_Length = upper - lower + 1 \<rparr>))))"

primrec dimension_rows :: "dest list list \<Rightarrow> (string \<times> array_dimension) list res" where
  "dimension_rows [] = Inr []"
| "dimension_rows (row # rows) = bind_res (row_dimension row) (\<lambda>d. bind_res (dimension_rows rows) (\<lambda>ds. Inr (d # ds)))"

text \<open>\<open>dimensions[source]\<close> appended to in the order of the rows.\<close>

definition dimensions_of :: "(string \<times> array_dimension) list \<Rightarrow> string \<Rightarrow> array_dimension list" where
  "dimensions_of ds source = map snd (filter (\<lambda>(s, d). s = source) ds)"

subsection \<open>Asking\<close>

text \<open>
  A statement of the driver's own, run to its end; the two deferred closes run on every path once
  the statement exists. \<open>new\<close> and \<open>resolve\<close> are those in force while array metadata is being resolved.
\<close>

definition collect_rows :: "num_env \<Rightarrow> time_env \<Rightarrow> (xsqlvar list \<Rightarrow> xsqlvar list cm) \<Rightarrow> (string \<Rightarrow> nat cm) \<Rightarrow> nat \<Rightarrow> dest list list cm" where
  "collect_rows ne te resolve new s =
     cbind (stmt_query ne te resolve new s []) (\<lambda>r.
     cbind (drain te r) (\<lambda>(out, r).
     cbind (ctry (rows_Close r)) (\<lambda>_. \<lambda>c. (out, c))))"

definition internalQuery :: "num_env \<Rightarrow> time_env \<Rightarrow> (xsqlvar list \<Rightarrow> xsqlvar list cm) \<Rightarrow> (string \<Rightarrow> nat cm) \<Rightarrow> string \<Rightarrow> dest list list cm" where
  "internalQuery ne te resolve new query =
     cbind (new query) (\<lambda>s.
     cbind (ctry (collect_rows ne te resolve new s)) (\<lambda>out.
     cbind (ctry (stmt_Close s)) (\<lambda>_. \<lambda>c. (out, c))))"

definition ask_dimensions :: "num_env \<Rightarrow> time_env \<Rightarrow> (xsqlvar list \<Rightarrow> xsqlvar list cm) \<Rightarrow> (string \<Rightarrow> nat cm) \<Rightarrow> string list \<Rightarrow>
    (string \<times> array_dimension) list cm" where
  "ask_dimensions ne te resolve new sources =
     (if sources = [] then cret []
      else cbind (internalQuery ne te resolve new (dimension_query sources)) (\<lambda>rows. \<lambda>c. (dimension_rows rows, c)))"

definition queryArrayMeta :: "num_env \<Rightarrow> time_env \<Rightarrow> (xsqlvar list \<Rightarrow> xsqlvar list cm) \<Rightarrow> (string \<Rightarrow> nat cm) \<Rightarrow> array_key list \<Rightarrow>
    ((array_key \<times> array_meta) list \<times> (string \<times> array_dimension) list) cm" where
  "queryArrayMeta ne te resolve new pairs =
     cbind (internalQuery ne te resolve new (meta_query pairs)) (\<lambda>rows.
     cbind (\<lambda>c. (meta_rows rows, c)) (\<lambda>ms.
     let metas = fold (\<lambda>(k, m). AList.update k m) ms [] in
     cbind (ask_dimensions ne te resolve new (map (am_fieldSource \<circ> snd) ms)) (\<lambda>ds. cret (metas, ds))))"

definition array_key_of :: "xsqlvar \<Rightarrow> array_key option" where
  "array_key_of x = (if sqltype x \<noteq> SQL_TYPE_ARRAY \<or> relname x = '''' \<or> fieldname x = '''' then None
     else Some (ToUpper (TrimSpace (relname x)), ToUpper (TrimSpace (fieldname x))))"

definition array_pairs :: "xsqlvar list \<Rightarrow> array_key list" where
  "array_pairs xs = rev (remdups (rev (List.map_filter array_key_of xs)))"

definition attach_meta :: "(array_key \<times> array_meta) list \<Rightarrow> (string \<times> array_dimension) list \<Rightarrow> xsqlvar \<Rightarrow> xsqlvar" where
  "attach_meta metas ds x = (case array_key_of x of
     None \<Rightarrow> x\<lparr>arrayMeta := None\<rparr>
   | Some k \<Rightarrow> x\<lparr>arrayMeta := map_option (\<lambda>m. m\<lparr>am_Dimensions := dimensions_of ds (am_fieldSource m)\<rparr>) (map_of metas k)\<rparr>)"

definition array_meta_error :: "'a res \<Rightarrow> 'a res" where
  "array_meta_error r = map_sum (\<lambda>e. if is_panic e then e else Wrapped ''firebirdsql: array metadata lookup failed: %w'' e) id r"

text \<open>The flag is set for the time of the queries; under it the function returns at once.\<close>

definition resolve_with :: "num_env \<Rightarrow> time_env \<Rightarrow> (xsqlvar list \<Rightarrow> xsqlvar list cm) \<Rightarrow> (string \<Rightarrow> nat cm) \<Rightarrow> xsqlvar list \<Rightarrow> xsqlvar list cm" where
  "resolve_with ne te resolve new xs c =
     (if cn_resolvingArrayMeta c then (Inr xs, c)
      else if array_pairs xs = [] then (Inr (map (\<lambda>x. x\<lparr>arrayMeta := None\<rparr>) xs), c)
      else let (r, d) = queryArrayMeta ne te resolve new (array_pairs xs) (c\<lparr>cn_resolvingArrayMeta := True\<rparr>)
           in (bind_res (array_meta_error r) (\<lambda>(metas, ds). Inr (map (attach_meta metas ds) xs)), d\<lparr>cn_resolvingArrayMeta := False\<rparr>))"

text \<open>
  The recursion of the code ends at its second level, where the flag is set: the inner
  \<open>resolveArrayMeta\<close> is the one that returns at once, and would go on only if the flag were clear.
\<close>

definition inner_resolve :: "xsqlvar list \<Rightarrow> xsqlvar list cm" where
  "inner_resolve xs c = (if cn_resolvingArrayMeta c then (Inr xs, c) else (Inl (Panic ''unreachable: nested array metadata''), c))"

definition resolveArrayMeta :: "num_env \<Rightarrow> time_env \<Rightarrow> xsqlvar list \<Rightarrow> xsqlvar list cm" where
  "resolveArrayMeta ne te = resolve_with ne te inner_resolve (prepare_stmt inner_resolve)"

definition newFirebirdsqlStmt :: "num_env \<Rightarrow> time_env \<Rightarrow> string \<Rightarrow> nat cm" where
  "newFirebirdsqlStmt ne te = prepare_stmt (resolveArrayMeta ne te)"

end
