(* ===== verification/Client.thy ===== *)
theory Client
  imports Array_Meta
begin

text \<open>
  What an application reaches of a connection (\<open>connection.go\<close>, \<open>driver_go18.go\<close>, \<open>scroll.go\<close>,
  \<open>execute_immediate.go\<close>): preparing, executing and querying a text, scrollable cursors and
  statements that are run without being prepared.
\<close>

definition stmt_Exec :: "num_env \<Rightarrow> time_env \<Rightarrow> nat \<Rightarrow> go_any list \<Rightarrow> (int \<times> go_error option) cm" where
  "stmt_Exec ne te = stmt_exec ne te (resolveArrayMeta ne te) (newFirebirdsqlStmt ne te)"

definition stmt_Query :: "num_env \<Rightarrow> time_env \<Rightarrow> nat \<Rightarrow> go_any list \<Rightarrow> rows cm" where
  "stmt_Query ne te = stmt_query ne te (resolveArrayMeta ne te) (newFirebirdsqlStmt ne te)"

subsection \<open>Named arguments\<close>

text \<open>The arguments are sorted by ordinal, stably; their values are taken in that order.\<close>

definition flattenNamedValues :: "(int \<times> go_any) list \<Rightarrow> go_any list" where
  "flattenNamedValues named = map snd named"

definition ExecContext :: "num_env \<Rightarrow> time_env \<Rightarrow> nat \<Rightarrow> (int \<times> go_any) list \<Rightarrow> (int \<times> go_error option) cm" where
  "ExecContext ne te s named = stmt_Exec ne te s (flattenNamedValues (sort_key fst named))"

definition QueryContext :: "num_env \<Rightarrow> time_env \<Rightarrow> nat \<Rightarrow> (int \<times> go_any) list \<Rightarrow> rows cm" where
  "QueryContext ne te s named = stmt_Query ne te s (flattenNamedValues named)"

subsection \<open>Connections\<close>

definition conn_prepare :: "num_env \<Rightarrow> time_env \<Rightarrow> string \<Rightarrow> nat cm" where
  "conn_prepare ne te query c =
     (if cn_tx c = None then (Inl (BadConn ''driver: bad connection''), c)
      else cbind begin_if_needed (\<lambda>_. newFirebirdsqlStmt ne te query) c)"

definition conn_exec :: "num_env \<Rightarrow> time_env \<Rightarrow> string \<Rightarrow> go_any list \<Rightarrow> (int \<times> go_error option) cm" where
  "conn_exec ne te query args =
     cbind (conn_prepare ne te query) (\<lambda>s.
     cbind (ctry (stmt_Exec ne te s args)) (\<lambda>r.
     cbind (ctry (stmt_Close s)) (\<lambda>_. \<lambda>c. (r, c))))"

text \<open>A statement whose query fails is not closed.\<close>

definition conn_query :: "num_env \<Rightarrow> time_env \<Rightarrow> string \<Rightarrow> go_any list \<Rightarrow> rows cm" where
  "conn_query ne te query args =
     cbind (conn_prepare ne te query) (\<lambda>s.
     cbind (stmt_Query ne te s args) (\<lambda>r. cret (r\<lparr>r_closeStmtOnClose := True\<rparr>)))"

definition opExecuteImmediate :: "int32 \<Rightarrow> string \<Rightarrow> unit wm" where
  "opExecuteImmediate transHandle sql p = send_fields
     [FInt op_execute_immediate, FInt transHandle, FInt 0, FInt 3, FString sql p, FBytes [], FInt 0] p"

definition ExecImmediate :: "string \<Rightarrow> unit cm" where
  "ExecImmediate sql c =
     (if cn_tx c = None then (Inl (BadConn ''driver: bad connection''), c)
      else cbind begin_if_needed (\<lambda>_.
           cbind (with_handle (\<lambda>tr. opExecuteImmediate tr sql)) (\<lambda>_.
           cbind (at_wire opResponse) (\<lambda>_.
           cbind autocommit finish))) c)"

subsection \<open>Scrollable cursors\<close>

text \<open>The statement is closed on every error after it was prepared.\<close>

definition or_close :: "nat \<Rightarrow> 'a cm \<Rightarrow> 'a cm" where
  "or_close s m = cbind (ctry m) (\<lambda>r. case r of
     Inl e \<Rightarrow> cbind (ctry (stmt_Close s)) (\<lambda>_. cerr e) | Inr x \<Rightarrow> cret x)"

definition with_cursor_flags :: "int32 \<Rightarrow> 'a cm \<Rightarrow> 'a cm" where
  "with_cursor_flags flags m c =
     (let prev = p_cursorFlags (cn_wp c);
          (r, d) = m (c\<lparr>cn_wp := (cn_wp c)\<lparr>p_cursorFlags := flags\<rparr>\<rparr>)
      in (r, d\<lparr>cn_wp := (cn_wp d)\<lparr>p_cursorFlags := prev\<rparr>\<rparr>))"

definition QueryScrollable :: "num_env \<Rightarrow> time_env \<Rightarrow> string \<Rightarrow> go_any list \<Rightarrow> nat cm" where
  "QueryScrollable ne te query args c =
     (if p_protocolVersion (cn_wp c) < PROTOCOL_VERSION18
      then (Inl (Plain ''firebirdsql: scrollable cursors require wire protocol 18+, got %d''), c)
      else cbind begin_if_needed (\<lambda>_.
           cbind (newFirebirdsqlStmt ne te query) (\<lambda>s.
           cbind (or_close s (\<lambda>c. if s_stmtType (cn_stmts c ! s) = isc_info_sql_stmt_exec_procedure
             then (Inl (Plain ''firebirdsql: scrollable cursors are not supported for EXECUTE PROCEDURE''), c) else (Inr (), c))) (\<lambda>_.
           cbind (or_close s (ensureInputXsqlda (resolveArrayMeta ne te) s args)) (\<lambda>_.
           cbind (or_close s (with_cursor_flags CURSOR_TYPE_SCROLLABLE (stmt_opExecute ne te s args))) (\<lambda>_.
           cbind (or_close s (at_wire opResponse)) (\<lambda>_. cret s)))))) c)"

text \<open>A blob of a row is read in place of its identifier; here text is not decoded, nor arrays fetched.\<close>

fun scroll_values :: "int32 \<Rightarrow> xsqlvar list \<Rightarrow> go_value list \<Rightarrow> go_value list wm" where
  "scroll_values tr xs [] = wret []"
| "scroll_values tr [] (v # vs) = werr (Panic ''index out of range'')"
| "scroll_values tr (x # xs) (v # vs) =
     wbind (if sqltype x = SQL_TYPE_BLOB \<and> v \<noteq> VNil
       then wbind (wlift (as_bytes v)) (\<lambda>blobId. wbind (getBlobSegments blobId tr) (\<lambda>blob. wret (VBytes blob))) else wret v) (\<lambda>v.
     wbind (scroll_values tr xs vs) (\<lambda>vs. wret (v # vs)))"

primrec scroll_rows :: "int32 \<Rightarrow> xsqlvar list \<Rightarrow> go_value list list \<Rightarrow> go_value list list wm" where
  "scroll_rows tr xs [] = wret []"
| "scroll_rows tr xs (r # rs) = wbind (scroll_values tr xs r) (\<lambda>r. wbind (scroll_rows tr xs rs) (\<lambda>rs. wret (r # rs)))"

text \<open>\<open>ScrollableStmt\<close> is a statement or nil, \<open>None\<close>, after it was closed.\<close>

definition scroll_Fetch :: "time_env \<Rightarrow> nat option \<Rightarrow> int32 \<Rightarrow> int32 \<Rightarrow> int32 \<Rightarrow> (go_value list list \<times> bool) cm" where
  "scroll_Fetch te sc orientation offset count c = (case sc of
     None \<Rightarrow> (Inl (BadConn ''driver: bad connection''), c)
   | Some s \<Rightarrow>
       if sint count \<le> 0 then (Inl (Plain ''firebirdsql: Fetch count must be > 0''), c)
       else let x = cn_stmts c ! s in
         cbind (at_wire (opFetchScroll (s_stmtHandle x) (s_blr x) orientation offset count)) (\<lambda>_.
         cbind (with_handle (\<lambda>_. opFetchResponse te (s_resultXsqlda x))) (\<lambda>(rows, again).
         cbind (with_handle (\<lambda>tr. scroll_rows tr (s_resultXsqlda x) rows)) (\<lambda>rows. cret (rows, again)))) c)"

definition FetchOne :: "time_env \<Rightarrow> nat option \<Rightarrow> int32 \<Rightarrow> int32 \<Rightarrow> go_value list cm" where
  "FetchOne te sc orientation offset =
     cbind (scroll_Fetch te sc orientation offset 1) (\<lambda>(rows, again).
     case rows of [] \<Rightarrow> cerr EOF | r # rs \<Rightarrow> cret r)"

definition scroll_Columns :: "nat option \<Rightarrow> conn \<Rightarrow> string list" where
  "scroll_Columns sc c = (case sc of None \<Rightarrow> []
     | Some s \<Rightarrow> map (\<lambda>x. if aliasname x = '''' then fieldname x else aliasname x) (s_resultXsqlda (cn_stmts c ! s)))"

definition scroll_Close :: "nat option \<Rightarrow> unit cm" where
  "scroll_Close sc = (case sc of None \<Rightarrow> cret () | Some s \<Rightarrow> stmt_Close s)"

end
