(* ===== verification/Params_Props.thy ===== *)
theory Params_Props
  imports Params Fetch_Trip Array_Trip
begin

text \<open>
  What the parameters of a statement look like to a server: a row, laid out as the rows it sends,
  with the types the BLR message gives; and a blob that is written comes back when it is read.
\<close>

subsection \<open>The null bitmap\<close>

lemma length_null_fold:
  "length (fold (\<lambda>i bs. if ns ! i then set_null i bs else bs) is bs) = length bs"
  by (induction "is" arbitrary: bs) (simp_all add: set_null_def)

lemma set_null_bit:
  assumes "i div 8 < length bs" "k < length bs" "m < 8"
  shows "bit (set_null i bs ! k) m \<longleftrightarrow> bit (bs ! k) m \<or> (k = i div 8 \<and> m = i mod 8)"
  using assms by (auto simp: set_null_def nth_list_update bit_or_iff bit_exp_iff possible_bit_word)

lemma null_fold_bit:
  assumes "\<forall>i \<in> set is. i div 8 < length bs" "k < length bs" "m < 8"
  shows "bit (fold (\<lambda>i bs. if ns ! i then set_null i bs else bs) is bs ! k) m \<longleftrightarrow>
    bit (bs ! k) m \<or> (8 * k + m \<in> set is \<and> ns ! (8 * k + m))"
  using assms
proof (induction "is" arbitrary: bs)
  case (Cons i "is")
  have e: "i = 8 * k + m \<longleftrightarrow> k = i div 8 \<and> m = i mod 8" using \<open>m < 8\<close> by auto
  let ?b = "if ns ! i then set_null i bs else bs"
  have l: "length ?b = length bs" by (simp add: set_null_def)
  have "bit (?b ! k) m \<longleftrightarrow> bit (bs ! k) m \<or> (ns ! i \<and> i = 8 * k + m)"
    using set_null_bit [of i bs k m] Cons.prems unfolding e by auto
  then show ?case using Cons.IH [of ?b] Cons.prems l by auto
qed simp

lemma bitmap_size_pad: "bitmap_size n = (n + 7) div 8 + nat (xdr_padding (int ((n + 7) div 8)))"
proof -
  define j where "j = (n + 7) div 8"
  have m: "int j mod 4 = int (j mod 4)" by (simp add: zmod_int)
  have "nat (4 - int (j mod 4)) = 4 - j mod 4" by simp
  then show ?thesis by (simp add: bitmap_size_def xdr_padding_def m flip: j_def)
qed

lemma null_bytes_bitmap: "null_bytes ns = xdr_pad (null_bitmap ns)"
proof (rule nth_equalityI)
  define j where "j = (length ns + 7) div 8"
  have l: "length (null_bitmap ns) = j" by (simp add: null_bitmap_def j_def)
  show len: "length (null_bytes ns) = length (xdr_pad (null_bitmap ns))"
    by (simp add: null_bytes_def length_null_fold bitmap_size_pad xdr_pad_def l j_def)
  fix k assume "k < length (null_bytes ns)"
  then have k: "k < bitmap_size (length ns)" by (simp add: null_bytes_def length_null_fold)
  have b: "\<forall>i \<in> set [0 ..< length ns]. i div 8 < length (replicate (bitmap_size (length ns)) (0 :: byte))"
    by (auto simp: bitmap_size_pad)
  show "null_bytes ns ! k = xdr_pad (null_bitmap ns) ! k"
  proof (rule bit_word_eqI)
    fix m assume "m < LENGTH(8)"
    then have m: "m < 8" by simp
    have "bit (null_bytes ns ! k) m \<longleftrightarrow> 8 * k + m < length ns \<and> ns ! (8 * k + m)"
      using null_fold_bit [OF b, of k m ns] k m by (simp add: null_bytes_def)
    moreover have "bit (xdr_pad (null_bitmap ns) ! k) m \<longleftrightarrow> 8 * k + m < length ns \<and> ns ! (8 * k + m)"
    proof (cases "k < j")
      case True
      have "bit (null_bitmap ns ! k) m \<longleftrightarrow> m < length (take 8 (drop (8 * k) ns)) \<and> take 8 (drop (8 * k) ns) ! m"
        using True m by (simp add: null_bitmap_def j_def bit_horner_sum_bit_word_iff)
      then show ?thesis using True m l by (auto simp: xdr_pad_def nth_append)
    next
      case False
      then have "length ns \<le> 8 * k" by (simp add: j_def)
      moreover have "k - j < nat (xdr_padding (int j))" using k False by (simp add: bitmap_size_pad j_def)
      ultimately show ?thesis using False l by (simp add: xdr_pad_def nth_append)
    qed
    ultimately show "bit (null_bytes ns ! k) m = bit (xdr_pad (null_bitmap ns) ! k) m" by simp
  qed
qed

subsection \<open>Parameters as a row\<close>

text \<open>
  The column each parameter is sent as and the value a reader of that column gets. Left out are
  texts long enough to become blobs, arrays, and times for a column with a time zone.
\<close>

fun plain_param :: "wire_protocol \<Rightarrow> int \<Rightarrow> go_any \<Rightarrow> bool" where
  "plain_param p bt ANil = True"
| "plain_param p bt (AArray None) = True"
| "plain_param p bt (AStr s) = (length s < MAX_CHAR_LENGTH)"
| "plain_param p bt (ABytes b) = (length b < MAX_CHAR_LENGTH)"
| "plain_param p bt (AInt k n) = (k = KInt \<or> k = KInt16 \<or> k = KInt32 \<or> k = KInt64)"
| "plain_param p bt (AFloat64 w) = True"
| "plain_param p bt (ABool b) = True"
| "plain_param p bt (ATime t l) = ((bt = SQL_TYPE_DATE \<or> bt = SQL_TYPE_TIMESTAMP) \<and> time_ok (ATime t l))"
| "plain_param p bt _ = False"

fun param_column :: "int \<Rightarrow> go_any \<Rightarrow> xsqlvar" where
  "param_column bt (AStr s) = zero_var\<lparr>sqltype := SQL_TYPE_TEXT, sqllen := int (length s)\<rparr>"
| "param_column bt (ABytes b) = zero_var\<lparr>sqltype := SQL_TYPE_TEXT, sqllen := int (length b), sqlsubtype := 1\<rparr>"
| "param_column bt (AInt k n) = zero_var\<lparr>sqltype := if k = KInt64 then SQL_TYPE_INT64 else SQL_TYPE_LONG\<rparr>"
| "param_column bt (AFloat64 w) = zero_var\<lparr>sqltype := SQL_TYPE_DOUBLE\<rparr>"
| "param_column bt (ABool b) = zero_var\<lparr>sqltype := SQL_TYPE_BOOLEAN\<rparr>"
| "param_column bt (ATime t l) = zero_var\<lparr>sqltype := bt\<rparr>"
| "param_column bt _ = zero_var\<lparr>sqltype := SQL_TYPE_TEXT\<rparr>"

fun param_raw :: "int \<Rightarrow> go_any \<Rightarrow> bytes" where
  "param_raw bt (AStr s) = str_to_bytes s"
| "param_raw bt (ABytes b) = b"
| "param_raw bt (AInt k n) = (if k = KInt64 then bint64_to_bytes (word_of_int n) else bint32_to_bytes (word_of_int n))"
| "param_raw bt (AFloat64 w) = be_bytes 8 (unat w)"
| "param_raw bt (ABool b) = [if b then 1 else 0]"
| "param_raw bt (ATime t l) = (if bt = SQL_TYPE_DATE then convert_date t else convert_timestamp t)"
| "param_raw bt _ = []"

fun param_value :: "go_loc \<Rightarrow> int \<Rightarrow> go_any \<Rightarrow> go_value" where
  "param_value loc bt (AStr s) = VStr (trim_right_blank s)"
| "param_value loc bt (ABytes b) = VBytes b"
| "param_value loc bt (AInt k n) = VInt (if k = KInt64 then wrap64 n else sint (word_of_int n :: int32))"
| "param_value loc bt (AFloat64 w) = VFloat w"
| "param_value loc bt (ABool b) = VBool b"
| "param_value loc bt (ATime t l) = VDate
     (if bt = SQL_TYPE_DATE then t\<lparr>t_hour := 0, t_minute := 0, t_second := 0, t_nanosecond := 0\<rparr>
      else t\<lparr>t_nanosecond := t_nanosecond t div 100000 * 100000\<rparr>) loc"
| "param_value loc bt _ = VNil"

lemma be_val_word64: "of_nat (be_val (be_bytes 8 (unat w))) = (w :: 64 word)"
  using nat_word64 [of w] by (simp add: be_val_be_bytes)

lemma sint_small: "(am :: int32) = 0 \<Longrightarrow> sint am = 0" by simp

lemma param_means:
  assumes "plain_session te loc p" "plain_param p bt x"
  shows "raw_fits (param_column bt x) (param_raw bt x) \<and>
    (if isArrayParamNull x then param_value loc bt x = VNil
     else column_value (p_env p) te (p_timezone p) (p_charset p) (param_column bt x) (param_raw bt x) = Inr (param_value loc bt x))"
proof -
  note c = raw_fits_def ioLength_def lookup_or_def xsqlvarTypeLength_def column_value_def zero_var_def
  have cs: "p_charset p = ''UTF8''" "load_zone te (p_timezone p) = Some loc" using assms(1) by (simp_all add: plain_session_def)
  show ?thesis
    using assms(2)
  proof (cases x)
    case (AInt k n)
    then show ?thesis using assms(2)
      by (cases "k = KInt64") (simp_all add: c bint64_codec.enc_length bint32_codec.enc_length bint64_codec.dec_enc_Nil bint32_codec.dec_enc_Nil scaledIntValue_def wrap64_def)
  next
    case (AFloat64 w)
    then show ?thesis by (simp add: c read_float64_def be_val_word64)
  next
    case (AStr s)
    then show ?thesis using assms(2) by (simp add: c text_value_def parseString_def cs)
  next
    case (ABytes b)
    then show ?thesis using assms(2) by (simp add: c text_value_def)
  next
    case (ABool b)
    then show ?thesis by (simp add: c go_index_def)
  next
    case (ATime t l)
    then have ok: "1 \<le> t_year t" "t_year t \<le> 5000000" "valid_date (t_year t) (t_month t) (t_day t)" "valid_time_of_day t"
      and bt: "bt = SQL_TYPE_DATE \<or> bt = SQL_TYPE_TIMESTAMP" using assms(2) by simp_all
    show ?thesis
      using bt ATime parseDate_convert_date [OF ok(1-3)] fields_convert_timestamp [OF ok, of "[]"] cs(2)
      by (auto simp: c date_value_def timestamp_value_def go_Date_def convert_timestamp_def)
  next
    case (AArray es)
    then show ?thesis using assms(2) by (cases es) (simp_all add: c)
  qed (simp_all add: c)
qed

lemma param_sent:
  assumes "plain_session te loc p" "plain_param p (bind_type xs i) x"
  shows "param_to_blr ne te tr ver xs i x p =
    (Inr (blr_column (param_column (bind_type xs i) x),
      if isArrayParamNull x then [] else cell_bytes (param_column (bind_type xs i) x) (param_raw (bind_type xs i) x)), p)"
proof -
  note c = param_to_blr_def blr_column_def cell_bytes_def ioLength_def lookup_or_def xsqlvarTypeLength_def zero_var_def text_param_def
    xdr_pad_def xdr_padding_def go_byte_def
  have cs: "\<And>s. encodeString s p = s" using assms(1) by (simp add: plain_session_def)
  show ?thesis
    using assms(2)
  proof (cases x)
    case (AInt k n)
    then show ?thesis using assms(2)
      by (cases k) (simp_all add: c int32ToBlr_def int64ToBlr_def bint64_codec.enc_length bint32_codec.enc_length)
  next
    case (AFloat64 w)
    then show ?thesis by (simp add: c float64ToBlr_def)
  next
    case (AStr s)
    then show ?thesis using assms(2) bytesToBlr_value [of "str_to_bytes s"]
      by (simp add: c cs bytesToBlr_def wret_def Let_def)
  next
    case (ABytes b)
    then show ?thesis using assms(2) bytesToBlr_value [of b] by (simp add: c bytesToBlr_def wret_def Let_def)
  next
    case (ABool b)
    then show ?thesis by (simp add: c numeral_eq_Suc)
  next
    case (ATime t l)
    then have bt: "bind_type xs i = SQL_TYPE_DATE \<or> bind_type xs i = SQL_TYPE_TIMESTAMP" using assms(2) by simp
    then show ?thesis using ATime
      by (auto simp: c time_param_def dateToBlr_def timestampToBlrNoTZ_def convert_timestamp_def)
  next
    case (AArray es)
    then show ?thesis using assms(2) by (cases es) (simp_all add: c)
  qed (simp_all add: c)
qed

primrec param_columns :: "xsqlvar list \<Rightarrow> nat \<Rightarrow> go_any list \<Rightarrow> xsqlvar list" where
  "param_columns xs i [] = []"
| "param_columns xs i (x # ps) = param_column (bind_type xs i) x # param_columns xs (Suc i) ps"

primrec param_cells :: "xsqlvar list \<Rightarrow> nat \<Rightarrow> go_any list \<Rightarrow> cell list" where
  "param_cells xs i [] = []"
| "param_cells xs i (x # ps) = (param_raw (bind_type xs i) x, isArrayParamNull x) # param_cells xs (Suc i) ps"

primrec param_values :: "go_loc \<Rightarrow> xsqlvar list \<Rightarrow> nat \<Rightarrow> go_any list \<Rightarrow> go_value list" where
  "param_values loc xs i [] = []"
| "param_values loc xs i (x # ps) = param_value loc (bind_type xs i) x # param_values loc xs (Suc i) ps"

primrec plain_params :: "wire_protocol \<Rightarrow> xsqlvar list \<Rightarrow> nat \<Rightarrow> go_any list \<Rightarrow> bool" where
  "plain_params p xs i [] = True"
| "plain_params p xs i (x # ps) = (plain_param p (bind_type xs i) x \<and> plain_params p xs (Suc i) ps)"

lemma param_lengths [simp]:
  "length (param_columns xs i ps) = length ps" "length (param_cells xs i ps) = length ps"
  "map snd (param_cells xs i ps) = map isArrayParamNull ps"
  by (induction ps arbitrary: i) simp_all

lemma params_mean:
  "plain_session te loc p \<Longrightarrow> plain_params p xs i ps \<Longrightarrow>
   row_means te p (param_columns xs i ps) (param_cells xs i ps) (param_values loc xs i ps)"
  by (induction ps arbitrary: i) (auto dest: param_means split: if_splits)

lemma null_cell: "isArrayParamNull x \<Longrightarrow> cell_bytes (param_column bt x) (param_raw bt x) = []"
  by (cases x rule: isArrayParamNull.cases) (simp_all add: cell_bytes_def ioLength_def zero_var_def)

lemma params_sent:
  "plain_session te loc p \<Longrightarrow> plain_params p xs i ps \<Longrightarrow>
   params_loop ne te tr ver xs i ps p =
     (Inr (Xsqlvar.row_bytes (param_columns xs i ps),
        if ver < PROTOCOL_VERSION13 then cells_flags (param_columns xs i ps) (param_cells xs i ps)
        else cells_bitmap (param_columns xs i ps) (param_cells xs i ps)), p)"
proof (induction ps arbitrary: i)
  case (Cons x ps)
  have f: "bint32_to_bytes (- 1) = [0xff, 0xff, 0xff, 0xff]" "bint32_to_bytes 0 = [0, 0, 0, 0]" by code_simp+
  show ?case
    using Cons param_sent [OF Cons.prems(1), of xs i x ne tr ver] null_cell [of x "bind_type xs i"]
    by (auto simp: wbind_def null_flag_def Xsqlvar.row_bytes_def f)
qed (simp add: Xsqlvar.row_bytes_def)

subsection \<open>Properties\<close>

text \<open>C24: The parameters of an execute are a row of the kind the server itself sends. The BLR message is the
  one \<open>calcBlr\<close> writes for the columns the parameters stand for, and reading the values as a row of
  these columns, at any protocol version, gives the parameters back, nulls at their places and the
  stream at its end: integers of 32 bits for all but \<open>int64\<close>, texts without trailing blanks, dates and
  timestamps in the session's zone.\<close>

theorem params_read_back:
  assumes "plain_session te loc p" "plain_params p xs 0 ps"
  shows "\<exists>blr values. paramsToBlr ne te tr ps (p_protocolVersion p) xs p = (Inr (blr, values), p) \<and>
    calcBlr (param_columns xs 0 ps) = Inr blr \<and>
    readRow te (param_columns xs 0 ps) (feed (values @ rest) p) = (Inr (param_values loc xs 0 ps), feed rest p)"
proof -
  have "paramsToBlr ne te tr ps (p_protocolVersion p) xs p =
    (Inr ([5, 2, 4, 0, go_byte (int (length ps) * 2 AND 255), go_byte (drop_bit 8 (int (length ps) * 2))]
       @ Xsqlvar.row_bytes (param_columns xs 0 ps) @ [255, 76],
      Fetch_Trip.row_bytes (p_protocolVersion p) (param_columns xs 0 ps) (param_cells xs 0 ps)), p)"
    by (simp add: paramsToBlr_def wbind_def params_sent [OF assms] Fetch_Trip.row_bytes_def null_bytes_bitmap Let_def)
  then show ?thesis
    using readRow_enc [OF params_mean [OF assms]] by (simp add: calcBlr_eq)
qed

theorem params_read_back_witness:
  "\<exists>blr values. paramsToBlr sample_num oslo_time 4 [AStr ''hi'', ANil, AInt KInt64 (- 5), ABool True] 13 [] sample_wire = (Inr (blr, values), sample_wire) \<and>
    readRow oslo_time (param_columns [] 0 [AStr ''hi'', ANil, AInt KInt64 (- 5), ABool True]) (feed (values @ [9]) sample_wire) =
      (Inr [VStr ''hi'', VNil, VInt (- 5), VBool True], feed [9] sample_wire)"
proof -
  have "plain_session oslo_time Local sample_wire" "p_protocolVersion sample_wire = 13"
    by (simp_all add: plain_session_def sample_wire_def sample_env_def encodeString_def load_zone_def)
  moreover have "trim_right_blank ''hi'' = ''hi''" "wrap64 (- 5) = - 5"
    by (simp_all add: trim_right_blank_def wrap64_def)
  ultimately show ?thesis
    using params_read_back [of oslo_time Local sample_wire "[]" "[AStr ''hi'', ANil, AInt KInt64 (- 5), ABool True]" sample_num 4 "[9]"]
    by (auto simp del: feed_simps)
qed

end
