(* ===== verification/Blob_Trip.thy ===== *)
theory Blob_Trip
  imports Params_Props
begin

text \<open>
  Blobs written by \<open>createBlob\<close> and read by \<open>getBlobSegments\<close>, with the packets in between.
\<close>

subsection \<open>Writing\<close>

fun blob_chunks :: "bytes \<Rightarrow> bytes list" where
  "blob_chunks v = (if v = [] then [] else take BLOB_SEGMENT_SIZE v # blob_chunks (drop BLOB_SEGMENT_SIZE v))"

declare blob_chunks.simps [simp del]

lemma blob_chunks_join: "concat (blob_chunks v) = v"
  by (induction v rule: blob_chunks.induct) (subst blob_chunks.simps, simp)

lemma blob_chunks_size: "list_all (\<lambda>s. s \<noteq> [] \<and> length s \<le> BLOB_SEGMENT_SIZE) (blob_chunks v)"
  by (induction v rule: blob_chunks.induct) (subst blob_chunks.simps, simp)

text \<open>An answer without an error, and the packets in the order they were sent.\<close>

definition fine_reply :: "response \<Rightarrow> bool" where
  "fine_reply r \<longleftrightarrow> response_fits r \<and> clause_codes (r_status r) = []"

definition sent_packets :: "bytes list \<Rightarrow> wire_protocol \<Rightarrow> wire_protocol" where
  "sent_packets ps p = fold sent ps p"

lemma sent_packets_simps [simp]:
  "sent_packets [] p = p" "sent_packets (b # bs) p = sent_packets bs (sent b p)"
  "sent_packets (as @ bs) p = sent_packets bs (sent_packets as p)"
  by (simp_all add: sent_packets_def)

lemma sent_packets_state:
  "p_buf p = [] \<Longrightarrow> p_outbound (sent_packets ps p) = p_outbound p @ ps \<and> p_buf (sent_packets ps p) = []"
  by (induction ps arbitrary: p) simp_all

lemma sent_packets_calm [simp]: "calm (sent_packets ps p) = calm p"
  by (induction ps arbitrary: p) simp_all

lemma sent_packets_keep [simp]:
  "p_acceptType (sent_packets ps p) = p_acceptType p" "p_env (sent_packets ps p) = p_env p"
  by (induction ps arbitrary: p) (simp_all add: sent_def)

lemma raw_reply:
  assumes "calm p" "fine_reply r"
  shows "op_response_raw (feed (response_bytes r @ rest) p) = (Inr (r_handle r, r_oid r, r_data r, None), feed rest p)"
proof -
  have "sv_error (p_env p) (vector_meaning (p_env p) (r_status r)) = None"
    using vector_meaning_codes [where env = "p_env p" and cs = "r_status r"] assms(2) by (simp add: sv_error_None fine_reply_def)
  then show ?thesis
    using op_response_frames [of "[]" r p 0 rest] assms by (simp add: dummies_def lazy_self calm_def fine_reply_def)
qed

definition put_packet :: "int32 \<Rightarrow> bytes \<Rightarrow> bytes" where
  "put_packet h seg =
     (let ln = int (length seg)
      in concat (map field_bytes [FInt op_put_segment, FInt h, FInt (word_of_int ln), FInt (word_of_int ln),
           FRaw seg, FRaw (replicate (nat ((4 - ln) AND 3)) 0)]))"

lemma put_segment_enc:
  assumes "calm p" "fine_reply r"
  shows "put_segment h seg (feed (response_bytes r @ rest) p) = (Inr None, feed rest (sent (put_packet h seg) p))"
  using assms raw_reply [of "sent (put_packet h seg) p" r rest]
  by (simp add: put_segment_def opPutSegment_def Let_def wbind_def wtry_def calm_send put_packet_def)

lemma put_segments_enc:
  "calm p \<Longrightarrow> list_all fine_reply rs \<Longrightarrow> length rs = length (blob_chunks v) \<Longrightarrow>
   put_segments h v (feed (concat (map response_bytes rs) @ rest) p) =
     (Inr None, feed rest (sent_packets (map (put_packet h) (blob_chunks v)) p))"
proof (induction v arbitrary: p rs rule: blob_chunks.induct)
  case (1 v)
  show ?case
  proof (cases "v = []")
    case False
    then have c: "blob_chunks v = take BLOB_SEGMENT_SIZE v # blob_chunks (drop BLOB_SEGMENT_SIZE v)"
      by (subst blob_chunks.simps) simp
    then obtain r rs' where rs: "rs = r # rs'" "fine_reply r" "list_all fine_reply rs'" "length rs' = length (blob_chunks (drop BLOB_SEGMENT_SIZE v))"
      using 1(3,4) by (cases rs) auto
    show ?thesis
      using False rs 1(1) [OF False, of "sent (put_packet h (take BLOB_SEGMENT_SIZE v)) p" rs'] 1(2)
      by (subst put_segments.simps) (simp add: wbind_def put_segment_enc c)
  qed (use 1 in \<open>simp add: put_segments.simps blob_chunks.simps\<close>)
qed

definition create_packet :: "int32 \<Rightarrow> bytes" where
  "create_packet tr = concat (map field_bytes [FInt op_create_blob2, FInt 0, FInt tr, FInt 0, FInt 0])"

definition close_packet :: "int32 \<Rightarrow> bytes" where
  "close_packet h = concat (map field_bytes [FInt op_close_blob, FInt h])"

definition blob_packets :: "int32 \<Rightarrow> int32 \<Rightarrow> bytes \<Rightarrow> bytes list" where
  "blob_packets tr h v = [create_packet tr] @ map (put_packet h) (blob_chunks v) @ [close_packet h]"

lemma create_blob_enc:
  assumes "calm p" "fine_reply c" "list_all fine_reply rs" "length rs = length (blob_chunks v)" "fine_reply e"
  shows "create_blob v tr (feed (response_bytes c @ concat (map response_bytes rs) @ response_bytes e @ rest) p) =
    (Inr (r_oid c, None), feed rest (sent_packets (blob_packets tr (r_handle c) v) p))"
proof -
  define p1 where "p1 = sent (create_packet tr) p"
  define p2 where "p2 = sent_packets (map (put_packet (r_handle c)) (blob_chunks v)) p1"
  have c1: "calm p1" "calm p2" using assms(1) by (simp_all add: p1_def p2_def)
  have "opCreateBlob2 tr (feed b p) = (Inr (), feed b p1)" for b
    using assms(1) by (simp add: opCreateBlob2_def calm_send create_packet_def p1_def)
  moreover have "opCloseBlob (r_handle c) (feed b p2) = (Inr (), feed b (sent (close_packet (r_handle c)) p2))" for b
    using c1(2) by (simp add: opCloseBlob_def calm_send close_packet_def)
  moreover have "put_segments (r_handle c) v (feed (concat (map response_bytes rs) @ response_bytes e @ rest) p1) =
      (Inr None, feed (response_bytes e @ rest) p2)"
    unfolding p2_def by (rule put_segments_enc [OF c1(1) assms(3,4)])
  ultimately show ?thesis
    using raw_reply [OF c1(1) assms(2)] raw_reply [of "sent (close_packet (r_handle c)) p2" e rest] c1(2) assms(5)
    by (simp add: create_blob_def wbind_def wtry_def blob_packets_def) (simp add: p1_def p2_def)
qed

subsection \<open>Reading\<close>

lemma split_segments_bytes:
  "list_all (\<lambda>s. length s < 65536) segs \<Longrightarrow> split_segments (segments_bytes segs) = Inr (concat segs)"
proof (induction segs)
  case (Cons s segs)
  have "segments_bytes (s # segs) = le_bytes 2 (length s) @ s @ segments_bytes segs" by (simp add: segments_bytes_def)
  moreover have "bytes_to_uint16 (le_bytes 2 (length s)) = Inr (length s)"
    using Cons.prems by (simp add: bytes_to_uint16_def le_uint_def le_val_le_bytes)
  moreover have "le_bytes 2 (length s) \<noteq> []" by (simp add: numeral_2_eq_2)
  ultimately show ?case
    using Cons by (subst split_segments.simps) (simp add: Let_def)
qed (simp add: segments_bytes_def split_segments.simps)

text \<open>
  A server that sends the segments in batches: each answer holds a batch and the number 2 in place of
  a handle when it is the last.
\<close>

definition batch_reply :: "bool \<Rightarrow> bytes list \<Rightarrow> response" where
  "batch_reply final segs = \<lparr> r_handle = (if final then 2 else 0), r_oid = replicate 8 0, r_data = segments_bytes segs, r_status = [] \<rparr>"

fun batch_answers :: "bytes list list \<Rightarrow> bytes" where
  "batch_answers [] = []"
| "batch_answers (b # bs) = response_bytes (batch_reply (bs = []) b) @ batch_answers bs"

definition batches_fit :: "bytes list list \<Rightarrow> bool" where
  "batches_fit bs \<longleftrightarrow> bs \<noteq> [] \<and> list_all (\<lambda>b. length (segments_bytes b) \<le> maxWirePayload \<and> list_all (\<lambda>s. length s < 65536) b) bs"

definition get_packet :: "int32 \<Rightarrow> bytes" where
  "get_packet h = concat (map field_bytes [FInt op_get_segment, FInt h, FInt BLOB_SEGMENT_SIZE, FInt 0])"

lemma opResponse_fine:
  "calm p \<Longrightarrow> fine_reply r \<Longrightarrow> opResponse (feed (response_bytes r @ rest) p) = (Inr (r_handle r, r_oid r, r_data r), feed rest p)"
  by (simp add: opResponse_def wbind_def raw_reply)

lemma batch_reply_fine:
  "length (segments_bytes b) \<le> maxWirePayload \<Longrightarrow> fine_reply (batch_reply final b)"
  by (simp add: fine_reply_def response_fits_def batch_reply_def clause_codes_def)

lemma segment_step_enc:
  assumes "calm p" "length (segments_bytes b) \<le> maxWirePayload" "list_all (\<lambda>s. length s < 65536) b"
  shows "segment_step h (feed (response_bytes (batch_reply final b) @ rest) p) =
    (Inr (if final then 2 else 0, concat b), feed rest (sent (get_packet h) p))"
  using assms opResponse_fine [of "sent (get_packet h) p" "batch_reply final b" rest] batch_reply_fine [OF assms(2)]
    split_segments_bytes [OF assms(3)]
  by (simp add: segment_step_def opGetSegment_def wbind_def wtry_def calm_send get_packet_def batch_reply_def)

lemma segment_loop_enc:
  "batches_fit bs \<Longrightarrow> calm p \<Longrightarrow> m \<noteq> 2 \<Longrightarrow>
   segment_loop h m (feed (batch_answers bs @ rest) p) =
     (Inr (concat (concat bs)), feed rest (sent_packets (map (\<lambda>_. get_packet h) bs) p))"
proof (induction bs arbitrary: p m)
  case (Cons b bs)
  have b: "length (segments_bytes b) \<le> maxWirePayload" "list_all (\<lambda>s. length s < 65536) b"
    using Cons.prems(1) by (simp_all add: batches_fit_def)
  note s = segment_step_enc [OF Cons.prems(2) b]
  show ?case
  proof (cases "bs = []")
    case True
    then show ?thesis using Cons.prems(3) by (subst segment_loop.simps) (simp add: s segment_loop.simps)
  next
    case False
    then have "batches_fit bs" using Cons.prems(1) by (simp add: batches_fit_def)
    from Cons.IH [OF this, of "sent (get_packet h) p" 0] show ?thesis
      using False Cons.prems(2,3) by (subst segment_loop.simps) (simp add: s)
  qed
qed (simp add: batches_fit_def)

lemma fetch_segments_enc:
  assumes "calm p" "fine_reply s" "batches_fit bs" "fine_reply e" "lazy = (p_acceptType p AND ptype_MASK = ptype_lazy_send)"
  shows "\<exists>q. fetch_segments i tr (feed (response_bytes s @ batch_answers bs @ (if lazy then [] else response_bytes e) @ rest) p) =
      (Inr (concat (concat bs)), q) \<and> p_inbound q = rest \<and> p_lazyResponseCount q = (if lazy then 1 else 0)"
proof -
  let ?open = "concat (map field_bytes [FInt op_open_blob2, FInt 0, FInt tr, FRaw i])"
  define p1 where "p1 = sent ?open p"
  define p2 where "p2 = sent_packets (map (\<lambda>_. get_packet (r_handle s)) bs) p1"
  define p3 where "p3 = sent (close_packet (r_handle s)) p2"
  have c: "calm p1" "calm p2" "calm p3" using assms(1) by (simp_all add: p1_def p2_def p3_def)
  have a: "p_acceptType p3 = p_acceptType p" by (simp add: p1_def p2_def p3_def) (simp add: sent_def)
  have "opOpenBlob2 i tr (feed b p) = (Inr (), feed b p1)" for b
    using assms(1) by (simp add: opOpenBlob2_def calm_send p1_def)
  moreover have "segment_loop (r_handle s) 1 (feed (batch_answers bs @ b) p1) = (Inr (concat (concat bs)), feed b p2)" for b
    using segment_loop_enc [OF assms(3) c(1), of 1 "r_handle s" b] by (simp add: p2_def)
  moreover have "opCloseBlob (r_handle s) (feed b p2) = (Inr (), feed b p3)" for b
    using c(2) by (simp add: opCloseBlob_def calm_send close_packet_def p3_def)
  ultimately show ?thesis
    using opResponse_fine [OF c(1) assms(2)] opResponse_fine [OF c(3) assms(4), of rest] c(3) a assms(5)
    by (simp add: fetch_segments_def close_blob_def wbind_def wtry_def calm_def)
qed

subsection \<open>Properties\<close>

text \<open>C25: A blob survives the trip. Writing sends the value in order in segments of at most 32000 bytes
  between a create and a close, answers the id the server gave, and leaves the packet under construction
  as it was. Whatever batches a server cuts these segments into, reading the blob joins them to the
  value written, and the answer to the lazily sent close is the only thing owed.\<close>

theorem blob_roundtrip:
  assumes "calm p" "p_inlineBlobCache p = None" "list_all fine_reply (c # rs @ [e, s])" "length rs = length (blob_chunks v)"
    and "batches_fit bs" "concat bs = blob_chunks v" "lazy = (p_acceptType p AND ptype_MASK = ptype_lazy_send)"
  shows "(\<exists>q. createBlob v tr (feed (response_bytes c @ concat (map response_bytes rs) @ response_bytes e @ rest) p) = (Inr (r_oid c, None), q) \<and>
      p_outbound q = p_outbound p @ blob_packets tr (r_handle c) v \<and> p_buf q = p_buf p \<and> p_inbound q = rest) \<and>
    concat (blob_chunks v) = v \<and> list_all (\<lambda>seg. length seg \<le> BLOB_SEGMENT_SIZE) (blob_chunks v) \<and>
    (\<exists>q. getBlobSegments i tr (feed (response_bytes s @ batch_answers bs @ (if lazy then [] else response_bytes e) @ rest) p) = (Inr v, q) \<and>
      p_buf q = p_buf p \<and> p_inbound q = rest \<and> p_lazyResponseCount q = (if lazy then 1 else 0))"
proof (intro conjI)
  have c: "calm (p\<lparr>p_buf := []\<rparr>)" using assms(1) by (simp add: calm_def)
  have f: "feed b p\<lparr>p_buf := []\<rparr> = feed b (p\<lparr>p_buf := []\<rparr>)" "p_buf (feed b p) = p_buf p" "p_inlineBlobCache (feed b p) = None"
    "feed b p\<lparr>p_inlineBlobCache := None, p_buf := []\<rparr> = feed b (p\<lparr>p_buf := []\<rparr>)" for b
    using assms(2) by (simp_all add: feed_def del: feed_simps)
  show "\<exists>q. createBlob v tr (feed (response_bytes c @ concat (map response_bytes rs) @ response_bytes e @ rest) p) = (Inr (r_oid c, None), q) \<and>
      p_outbound q = p_outbound p @ blob_packets tr (r_handle c) v \<and> p_buf q = p_buf p \<and> p_inbound q = rest"
    using create_blob_enc [OF c, of "c" rs v e tr rest] assms(3,4) sent_packets_state [of "p\<lparr>p_buf := []\<rparr>" "blob_packets tr (r_handle c) v"]
    by (simp add: createBlob_def f(1,2) resumeBuffer_def)
  show "concat (blob_chunks v) = v" by (rule blob_chunks_join)
  show "list_all (\<lambda>seg. length seg \<le> BLOB_SEGMENT_SIZE) (blob_chunks v)"
    using blob_chunks_size [of v] by (simp add: list_all_iff)
  obtain q where "fetch_segments i tr (feed (response_bytes s @ batch_answers bs @ (if lazy then [] else response_bytes e) @ rest) (p\<lparr>p_buf := []\<rparr>)) =
      (Inr (concat (concat bs)), q)" "p_inbound q = rest" "p_lazyResponseCount q = (if lazy then 1 else 0)"
    using fetch_segments_enc [OF c, of s bs e lazy i tr rest] assms(3,5,7) by auto
  then show "\<exists>q. getBlobSegments i tr (feed (response_bytes s @ batch_answers bs @ (if lazy then [] else response_bytes e) @ rest) p) = (Inr v, q) \<and>
      p_buf q = p_buf p \<and> p_inbound q = rest \<and> p_lazyResponseCount q = (if lazy then 1 else 0)"
    using assms(6) blob_chunks_join [of v]
    by (auto simp: getBlobSegments_def getAndRemove_def assms(2) f resumeBuffer_def split: sum.split)
qed

theorem blob_roundtrip_witness:
  "(\<exists>q. createBlob [1, 2, 3] 4 (feed (concat (replicate 3 (response_bytes sample_id))) sample_wire) = (Inr (bint64_to_bytes 9, None), q) \<and>
      p_outbound q = blob_packets 4 0 [1, 2, 3]) \<and>
   (\<exists>q. getBlobSegments (bint64_to_bytes 9) 4 (feed (response_bytes sample_id @ batch_answers [[], [[1, 2, 3]]]) sample_wire) = (Inr [1, 2, 3], q) \<and>
      p_lazyResponseCount q = 1)"
proof -
  have c: "blob_chunks [1, 2, 3] = [[1, 2, 3]]" by (simp add: blob_chunks.simps)
  have "fine_reply sample_id" by (simp add: fine_reply_def sample_id_def response_fits_def clause_codes_def bint64_codec.enc_length)
  moreover have "calm sample_wire" "p_inlineBlobCache sample_wire = None" "p_acceptType sample_wire AND ptype_MASK = ptype_lazy_send"
    "p_outbound sample_wire = []"
    by (simp_all add: calm_def sample_wire_def)
  moreover have "batches_fit [[], [[1, 2, 3]]]" by (simp add: batches_fit_def segments_bytes_def)
  moreover have "r_oid sample_id = bint64_to_bytes 9" "r_handle sample_id = 0" by (simp_all add: sample_id_def)
  ultimately show ?thesis
    using blob_roundtrip [of sample_wire "sample_id" "[sample_id]" sample_id sample_id "[1, 2, 3]" "[[], [[1, 2, 3]]]" True 4 "[]" "bint64_to_bytes 9"]
    by (simp add: c numeral_3_eq_3 del: batch_answers.simps) blast
qed

end
