(* ===== verification/Transaction_Props.thy ===== *)
theory Transaction_Props
  imports Transactions Blob_Trip
begin

text \<open>
  What the connection keeps of its transactions: an invariant of every sequence of operations,
  whatever the server answers, and the exchanges of begin, commit and close with a server that
  answers well.
\<close>

subsection \<open>Sequences of operations\<close>

text \<open>
  What a client can do with the transactions of a connection; \<open>OpNet\<close> is everything else that
  happens to the wire, the statements the connection runs and the bytes the server sends included.
\<close>

datatype client_op =
    OpBegin bool int
  | OpNeed
  | OpCommit nat
  | OpRollback nat
  | OpRetain nat
  | OpNet wire_protocol

text \<open>A transaction named by an operation exists: a pointer to it was returned.\<close>

definition op_ok :: "client_op \<Rightarrow> conn \<Rightarrow> bool" where
  "op_ok op c = (case op of OpCommit t \<Rightarrow> t < length (cn_heap c) | OpRollback t \<Rightarrow> t < length (cn_heap c)
     | OpRetain t \<Rightarrow> t < length (cn_heap c) | _ \<Rightarrow> True)"

fun run_op :: "client_op \<Rightarrow> conn \<Rightarrow> conn" where
  "run_op (OpBegin ro level) c = snd (BeginTx ro level c)"
| "run_op OpNeed c = snd (begin_if_needed c)"
| "run_op (OpCommit t) c = (if op_ok (OpCommit t) c then snd (tx_Commit t c) else c)"
| "run_op (OpRollback t) c = (if op_ok (OpRollback t) c then snd (tx_Rollback t c) else c)"
| "run_op (OpRetain t) c = (if op_ok (OpRetain t) c then snd (commitRetainging t c) else c)"
| "run_op (OpNet p) c = c\<lparr>cn_wp := p\<rparr>"

text \<open>The set names transactions that exist, each once; the current one, if running, is in it.\<close>

definition tx_inv :: "conn \<Rightarrow> bool" where
  "tx_inv c \<longleftrightarrow> (\<forall>t \<in> set (cn_set c). t < length (cn_heap c)) \<and> distinct (cn_set c) \<and>
     (case cn_tx c of None \<Rightarrow> True
      | Some t \<Rightarrow> t < length (cn_heap c) \<and> (\<not> t_needBegin (cn_heap c ! t) \<longrightarrow> t \<in> set (cn_set c)))"

lemma at_wire_fields [simp]:
  "cn_tx (snd (at_wire m c)) = cn_tx c" "cn_heap (snd (at_wire m c)) = cn_heap c" "cn_set (snd (at_wire m c)) = cn_set c"
  "cn_isAutocommit (snd (at_wire m c)) = cn_isAutocommit c"
  by (simp_all add: at_wire_def split: prod.split)

lemma at_wire_eq: "at_wire m c = (r, d) \<Longrightarrow> d = c\<lparr>cn_wp := cn_wp d\<rparr>"
  by (auto simp: at_wire_def split: prod.splits)

text \<open>What an operation on one transaction leaves: its handle and flags, the set, and the wire.\<close>

definition touches :: "nat \<Rightarrow> conn \<Rightarrow> conn \<Rightarrow> bool" where
  "touches t c d \<longleftrightarrow> (\<exists>x p. t_isolationLevel x = t_isolationLevel (cn_heap c ! t) \<and>
     (t \<in> set (cn_set d) \<or> t_needBegin x = t_needBegin (cn_heap c ! t) \<or> t_needBegin x) \<and>
     (cn_set d = cn_set c \<or> cn_set d = tx_insert t (cn_set c)) \<and>
     d = c\<lparr>cn_wp := p, cn_heap := (cn_heap c)[t := x], cn_set := cn_set d\<rparr>)"

lemma touches_wire: "touches t c (c\<lparr>cn_wp := p\<rparr>)"
  unfolding touches_def by (rule exI [of _ "cn_heap c ! t"], rule exI [of _ p]) simp

lemma touches_self [simp]: "touches t c c"
  using touches_wire [of t c "cn_wp c"] by simp

lemma touches_at_wire: "at_wire m c = (r, d) \<Longrightarrow> touches t c d"
  using touches_wire [of t c "cn_wp d"] at_wire_eq [of m c r d] by simp

lemma tx_begin_touches:
  assumes "tx_begin t c = (r, d)" "t < length (cn_heap c)"
  shows "touches t c d"
proof (cases "tpbForIsolationLevel (t_isolationLevel (cn_heap c ! t))")
  case (Inr tpb)
  obtain r1 c1 where c1: "at_wire (opTransaction tpb) c = (r1, c1)" by force
  obtain r2 c2 where c2: "at_wire op_response_raw c1 = (r2, c2)" by force
  obtain p1 p2 where e: "c1 = c\<lparr>cn_wp := p1\<rparr>" "c2 = c\<lparr>cn_wp := p2\<rparr>"
    using at_wire_eq [OF c1] at_wire_eq [OF c2] by (metis conn.surjective conn.update_convs(1))
  have w: "touches t c c1" "touches t c c2" using e touches_wire [of t c] by simp_all
  show ?thesis
  proof (cases r1)
    case (Inl e1)
    then show ?thesis using assms(1) Inr c1 w by (simp add: tx_begin_def)
  next
    case r1: (Inr u)
    show ?thesis
    proof (cases r2)
      case (Inl e2)
      then show ?thesis using assms(1) Inr c1 c2 r1 w by (simp add: tx_begin_def)
    next
      case r2: (Inr v)
      obtain h oid b err where v: "v = (h, oid, b, err)" by (cases v) auto
      show ?thesis
        using assms Inr c1 c2 r1 r2 v e
        unfolding touches_def
        by (cases err)
          (auto simp: tx_begin_def upd_tx_def tx_insert_def intro!: exI [of _ "cn_heap d ! t"] exI [of _ "cn_wp d"])
    qed
  qed
qed (use assms in \<open>simp add: tx_begin_def\<close>)

lemma tx_end_touches:
  assumes "tx_end request mark t c = (r, d)" "t < length (cn_heap c)"
    and mark: "\<And>x. t_isolationLevel (mark x) = t_isolationLevel x" "\<And>x. t_needBegin (mark x) = t_needBegin x \<or> t_needBegin (mark x)"
  shows "touches t c d"
proof -
  obtain r1 c1 where c1: "at_wire (request (t_transHandle (cn_heap c ! t))) c = (r1, c1)" by force
  obtain r2 c2 where c2: "at_wire op_response_raw c1 = (r2, c2)" by force
  obtain p1 p2 where e: "c1 = c\<lparr>cn_wp := p1\<rparr>" "c2 = c\<lparr>cn_wp := p2\<rparr>"
    using at_wire_eq [OF c1] at_wire_eq [OF c2] by (metis conn.surjective conn.update_convs(1))
  have w: "touches t c c1" "touches t c c2" using e touches_wire [of t c] by simp_all
  show ?thesis
  proof (cases r1)
    case (Inl e1)
    then show ?thesis using assms(1) c1 w by (simp add: tx_end_def)
  next
    case r1: (Inr u)
    show ?thesis
    proof (cases r2)
      case (Inl e2)
      then show ?thesis using assms(1) c1 c2 r1 w by (simp add: tx_end_def)
    next
      case r2: (Inr v)
      obtain h oid b err where v: "v = (h, oid, b, err)" by (cases v) auto
      define x where "x = mark ((cn_heap c ! t)\<lparr>t_isAutocommit := cn_isAutocommit c\<rparr>)"
      have "d = c\<lparr>cn_wp := cn_wp d, cn_heap := (cn_heap c)[t := x], cn_set := cn_set d\<rparr>" "cn_set d = cn_set c"
        using assms(1) c1 c2 r1 r2 v e
        by (cases err; auto simp: tx_end_def upd_tx_def x_def at_wire_def wupd_def finish_def Let_def cbind_def)+
      moreover have "t_isolationLevel x = t_isolationLevel (cn_heap c ! t)" "t_needBegin x = t_needBegin (cn_heap c ! t) \<or> t_needBegin x"
        using mark(2) [of "(cn_heap c ! t)\<lparr>t_isAutocommit := cn_isAutocommit c\<rparr>"] by (simp_all add: x_def mark(1))
      ultimately show ?thesis unfolding touches_def by blast
    qed
  qed
qed

lemma tx_ends_touch:
  assumes "t < length (cn_heap c)"
  shows "touches t c (snd (commitRetainging t c))" "touches t c (snd (tx_Commit t c))" "touches t c (snd (tx_Rollback t c))"
  using assms tx_end_touches [where c = c and t = t]
  by (auto simp: commitRetainging_def tx_Commit_def tx_Rollback_def prod_eq_iff intro!: tx_end_touches [OF surjective_pairing])

lemma touches_inv:
  assumes "touches t c d" "t < length (cn_heap c)" "tx_inv c"
  shows "tx_inv d" "set (cn_set c) \<subseteq> set (cn_set d)" "length (cn_heap d) = length (cn_heap c)"
    "t_isolationLevel (cn_heap d ! u) = t_isolationLevel (cn_heap c ! u)"
proof -
  obtain x p where x: "t_isolationLevel x = t_isolationLevel (cn_heap c ! t)"
      "t \<in> set (cn_set d) \<or> t_needBegin x = t_needBegin (cn_heap c ! t) \<or> t_needBegin x"
      "cn_set d = cn_set c \<or> cn_set d = tx_insert t (cn_set c)"
      "d = c\<lparr>cn_wp := p, cn_heap := (cn_heap c)[t := x], cn_set := cn_set d\<rparr>"
    using assms(1) unfolding touches_def by blast
  have f: "cn_heap d = (cn_heap c)[t := x]" "cn_tx d = cn_tx c" by (subst x(4), simp)+
  show "set (cn_set c) \<subseteq> set (cn_set d)" using x(3) by (auto simp: tx_insert_def)
  then show "tx_inv d"
    using x(2,3) f assms(2,3) by (auto simp: tx_inv_def tx_insert_def nth_list_update split: option.splits if_splits)
  show "length (cn_heap d) = length (cn_heap c)" using f by simp
  show "t_isolationLevel (cn_heap d ! u) = t_isolationLevel (cn_heap c ! u)"
    using f x(1) assms(2) by (cases "u = t") simp_all
qed

lemma tx_begin_done:
  assumes "tx_begin t c = (Inr (), d)" "t < length (cn_heap c)"
  shows "t \<in> set (cn_set d)"
  using assms
  by (auto simp: tx_begin_def upd_tx_def tx_insert_def cbind_def at_wire_def split: sum.splits prod.splits option.splits)

lemma tx_inv_grow: "tx_inv c \<Longrightarrow> tx_inv (c\<lparr>cn_heap := cn_heap c @ [x]\<rparr>)"
  by (auto simp: tx_inv_def nth_append split: option.splits)

lemma newTx_inv:
  assumes "newFirebirdsqlTx level ac wb c = (r, d)" "tx_inv c"
  shows "tx_inv d" "set (cn_set c) \<subseteq> set (cn_set d)" "length (cn_heap d) = Suc (length (cn_heap c))"
    "r = Inr t \<Longrightarrow> t = length (cn_heap c) \<and> (wb \<longrightarrow> t \<in> set (cn_set d))"
proof -
  define c0 where "c0 = c\<lparr>cn_heap := cn_heap c @ [\<lparr> t_isolationLevel = level, t_isAutocommit = ac, t_transHandle = 0, t_needBegin = \<not> wb \<rparr>]\<rparr>"
  have c0: "tx_inv c0" "length (cn_heap c) < length (cn_heap c0)" "cn_set c0 = cn_set c" "length (cn_heap c0) = Suc (length (cn_heap c))"
    using tx_inv_grow [OF assms(2)] by (simp_all add: c0_def)
  have new: "newFirebirdsqlTx level ac wb c =
      (if wb then cbind (tx_begin (length (cn_heap c))) (\<lambda>_. cret (length (cn_heap c))) c0 else (Inr (length (cn_heap c)), c0))"
    by (simp add: newFirebirdsqlTx_def c0_def Let_def)
  have d: "\<exists>r0. tx_begin (length (cn_heap c)) c0 = (r0, d) \<and> (r = Inr t \<longrightarrow> r0 = Inr () \<and> t = length (cn_heap c))" if wb for t
    using assms(1) that unfolding new by (auto simp: cbind_def split: prod.splits sum.splits)
  have d': "d = c0 \<and> r = Inr (length (cn_heap c))" if "\<not> wb"
    using assms(1) that unfolding new by simp
  have "touches (length (cn_heap c)) c0 d"
    using d d' tx_begin_touches [OF _ c0(2)] by (cases wb) auto
  from touches_inv [OF this c0(2,1)] show "tx_inv d" "set (cn_set c) \<subseteq> set (cn_set d)" "length (cn_heap d) = Suc (length (cn_heap c))"
    using c0(3,4) by simp_all
  show "r = Inr t \<Longrightarrow> t = length (cn_heap c) \<and> (wb \<longrightarrow> t \<in> set (cn_set d))"
    using d [of t] d' tx_begin_done [OF _ c0(2), of d] by (cases wb) auto
qed

lemma conn_begin_inv:
  assumes "tx_inv c"
  shows "tx_inv (snd (conn_begin level c))" "set (cn_set c) \<subseteq> set (cn_set (snd (conn_begin level c)))"
proof -
  obtain r d where n: "newFirebirdsqlTx level False True c = (r, d)" by force
  note i = newTx_inv [OF n assms]
  have s: "snd (conn_begin level c) = d \<or> snd (conn_begin level c) = d\<lparr>cn_tx := None\<rparr> \<or>
     (\<exists>t. r = Inr t \<and> snd (conn_begin level c) = d\<lparr>cn_tx := Some t\<rparr>)"
    using n by (auto simp: conn_begin_def cbind_def ctry_def split: sum.split prod.split)
  then show "set (cn_set c) \<subseteq> set (cn_set (snd (conn_begin level c)))" using i(2) by auto
  show "tx_inv (snd (conn_begin level c))"
    using s i(1,3) i(4) by (auto simp: tx_inv_def split: option.splits)
qed

lemma BeginTx_cases: "snd (BeginTx ro level c) = c \<or> (\<exists>l. snd (BeginTx ro level c) = snd (conn_begin l c))"
  by (auto simp: BeginTx_def)

interpretation transactions: machine run_op "\<lambda>c. tx_inv c \<and> S \<subseteq> set (cn_set c)" for S
proof
  fix c op assume i: "tx_inv c \<and> S \<subseteq> set (cn_set c)"
  have t: "tx_inv d \<and> S \<subseteq> set (cn_set d)" if "touches t c d" "t < length (cn_heap c)" for t d
    using touches_inv [OF that] i by blast
  show "tx_inv (run_op op c) \<and> S \<subseteq> set (cn_set (run_op op c))"
  proof (cases op)
    case (OpBegin ro level)
    then consider "run_op op c = c" | l where "run_op op c = snd (conn_begin l c)" using BeginTx_cases [of ro level c] by auto
    then show ?thesis
    proof cases
      case (2 l)
      then show ?thesis using conn_begin_inv [of c l] i by auto
    qed (use i in simp)
  next
    case OpNeed
    show ?thesis
    proof (cases "cn_tx c")
      case (Some u)
      then have "u < length (cn_heap c)" using i by (simp add: tx_inv_def)
      then show ?thesis
        using Some OpNeed i t [OF tx_begin_touches [OF surjective_pairing]] by (simp add: begin_if_needed_def)
    qed (use i OpNeed in \<open>simp add: begin_if_needed_def\<close>)
  next
    case (OpNet p)
    then show ?thesis using i by (cases "cn_tx c") (simp_all add: tx_inv_def)
  next
    case (OpCommit u)
    then show ?thesis using t [OF tx_ends_touch(2)] i by (simp add: op_ok_def)
  next
    case (OpRollback u)
    then show ?thesis using t [OF tx_ends_touch(3)] i by (simp add: op_ok_def)
  next
    case (OpRetain u)
    then show ?thesis using t [OF tx_ends_touch(1)] i by (simp add: op_ok_def)
  qed
qed

lemma open_conn_inv: "tx_inv (open_conn wp lower)" "cn_set (open_conn wp lower) = []"
  by (simp_all add: open_conn_def newFirebirdsqlTx_def Let_def tx_inv_def)

text \<open>C26: Whatever the client does and the server answers, the connection's set names each of its
  transactions once, the transaction of the connection is in it unless it still has to be begun, and a
  transaction once begun is never dropped from it.\<close>

theorem transactions_are_kept:
  "let c = run_ops run_op ops (open_conn wp lower); d = run_ops run_op ops2 c
   in tx_inv c \<and> set (cn_set c) \<subseteq> set (cn_set d)"
  unfolding Let_def
  using transactions.run_inv [of "open_conn wp lower" "{}" ops] open_conn_inv
    transactions.run_inv [of "run_ops run_op ops (open_conn wp lower)" "set (cn_set (run_ops run_op ops (open_conn wp lower)))" ops2]
  by simp

subsection \<open>Exchanges with the server\<close>

text \<open>A connection whose server has sent \<open>b\<close>, and one that has sent the packet \<open>b\<close>.\<close>

definition fed :: "bytes \<Rightarrow> conn \<Rightarrow> conn" where
  "fed b c = c\<lparr>cn_wp := feed b (cn_wp c)\<rparr>"

definition csent :: "bytes \<Rightarrow> conn \<Rightarrow> conn" where
  "csent b c = c\<lparr>cn_wp := sent b (cn_wp c)\<rparr>"

lemma fed_simps [simp]:
  "cn_wp (fed b c) = feed b (cn_wp c)" "cn_tx (fed b c) = cn_tx c" "cn_heap (fed b c) = cn_heap c" "cn_set (fed b c) = cn_set c"
  "cn_isAutocommit (fed b c) = cn_isAutocommit c"
  "cn_wp (csent b c) = sent b (cn_wp c)" "cn_tx (csent b c) = cn_tx c" "cn_heap (csent b c) = cn_heap c" "cn_set (csent b c) = cn_set c"
  "cn_isAutocommit (csent b c) = cn_isAutocommit c"
  by (simp_all add: fed_def csent_def)

lemma upd_tx_simps [simp]:
  "cn_wp (upd_tx t f c) = cn_wp c" "cn_tx (upd_tx t f c) = cn_tx c" "cn_set (upd_tx t f c) = cn_set c"
  "cn_isAutocommit (upd_tx t f c) = cn_isAutocommit c" "length (cn_heap (upd_tx t f c)) = length (cn_heap c)"
  by (simp_all add: upd_tx_def)

lemma upd_tx_upd [simp]: "upd_tx t f (upd_tx t g c) = upd_tx t (\<lambda>x. f (g x)) c"
  by (cases "t < length (cn_heap c)") (simp_all add: upd_tx_def list_update_beyond)

lemma upd_tx_commute:
  "upd_tx t f (fed b c) = fed b (upd_tx t f c)" "upd_tx t f (c\<lparr>cn_set := ts\<rparr>) = (upd_tx t f c)\<lparr>cn_set := ts\<rparr>"
  "(fed b c)\<lparr>cn_set := ts\<rparr> = fed b (c\<lparr>cn_set := ts\<rparr>)" "(fed b c)\<lparr>cn_heap := xs\<rparr> = fed b (c\<lparr>cn_heap := xs\<rparr>)"
  "(fed b c)\<lparr>cn_tx := u\<rparr> = fed b (c\<lparr>cn_tx := u\<rparr>)"
  by (simp_all add: upd_tx_def fed_def)

definition packet :: "field list \<Rightarrow> bytes" where
  "packet fs = concat (map field_bytes fs)"

lemma ask:
  assumes "calm (cn_wp c)" "m (feed b (cn_wp c)) = send_fields (FInt w # fs) (feed b (cn_wp c))"
  shows "at_wire m (fed b c) = (Inr (), fed b (csent (packet (FInt w # fs)) c))"
  using assms by (simp add: at_wire_def fed_def csent_def packet_def calm_send)

lemma answered:
  assumes "calm (cn_wp c)" "fine_reply r"
  shows "at_wire op_response_raw (fed (response_bytes r @ rest) c) = (Inr (r_handle r, r_oid r, r_data r, None), fed rest c)"
  using raw_reply [OF assms] by (simp add: at_wire_def fed_def)

definition transaction_packet :: "bytes \<Rightarrow> conn \<Rightarrow> bytes" where
  "transaction_packet tpb c = packet [FInt op_transaction, FInt (p_dbHandle (cn_wp c)), FBytes tpb]"

text \<open>A transaction that the server has started under a handle, and one it has ended.\<close>

definition started :: "nat \<Rightarrow> int32 \<Rightarrow> conn \<Rightarrow> conn" where
  "started t h c = upd_tx t (\<lambda>x. x\<lparr>t_transHandle := h, t_needBegin := False\<rparr>) (c\<lparr>cn_set := tx_insert t (cn_set c)\<rparr>)"

definition ended :: "nat \<Rightarrow> conn \<Rightarrow> conn" where
  "ended t c = upd_tx t (\<lambda>x. x\<lparr>t_isAutocommit := cn_isAutocommit c, t_needBegin := True\<rparr>)
     (c\<lparr>cn_wp := clearInlineBlobCache (t_transHandle (cn_heap c ! t)) (cn_wp c)\<rparr>)"

lemma tx_begin_fine:
  assumes "calm (cn_wp c)" "fine_reply r" "tpbForIsolationLevel (t_isolationLevel (cn_heap c ! t)) = Inr tpb"
  shows "tx_begin t (fed (response_bytes r @ rest) c) = (Inr (), fed rest (started t (r_handle r) (csent (transaction_packet tpb c) c)))"
proof -
  have "at_wire (opTransaction tpb) (fed b c) = (Inr (), fed b (csent (transaction_packet tpb c) c))" for b
    unfolding transaction_packet_def using assms(1) by (rule ask) (simp add: opTransaction_def)
  then show ?thesis
    using assms answered [of "csent (transaction_packet tpb c) c" r rest]
    by (simp add: tx_begin_def upd_tx_commute started_def)
qed

lemma clearInlineBlobCache_simps [simp]:
  "clearInlineBlobCache h (feed b p) = feed b (clearInlineBlobCache h p)" "calm (clearInlineBlobCache h p) = calm p"
  "p_outbound (clearInlineBlobCache h p) = p_outbound p" "p_buf (clearInlineBlobCache h p) = p_buf p"
  "p_dbHandle (clearInlineBlobCache h p) = p_dbHandle p"
  by (simp_all add: clearInlineBlobCache_def calm_def feed_def del: feed_simps)

lemma at_wire_upd: "at_wire (wupd f) c = (Inr (), c\<lparr>cn_wp := f (cn_wp c)\<rparr>)"
  by (simp add: at_wire_def wupd_def)

lemma tx_end_fine:
  assumes "calm (cn_wp c)" "fine_reply r"
  shows "tx_Commit t (fed (response_bytes r @ rest) c) =
      (Inr (), fed rest (ended t (csent (packet [FInt op_commit, FInt (t_transHandle (cn_heap c ! t))]) c)))"
    "tx_Rollback t (fed (response_bytes r @ rest) c) =
      (Inr (), fed rest (ended t (csent (packet [FInt op_rollback, FInt (t_transHandle (cn_heap c ! t))]) c)))"
proof -
  have a: "at_wire (opCommit h) (fed b c) = (Inr (), fed b (csent (packet [FInt op_commit, FInt h]) c))"
    "at_wire (opRollback h) (fed b c) = (Inr (), fed b (csent (packet [FInt op_rollback, FInt h]) c))" for h b
    using assms(1) ask [of c "opCommit h" b op_commit "[FInt h]"] ask [of c "opRollback h" b op_rollback "[FInt h]"]
    by (simp_all add: opCommit_def opRollback_def)
  show "tx_Commit t (fed (response_bytes r @ rest) c) =
      (Inr (), fed rest (ended t (csent (packet [FInt op_commit, FInt (t_transHandle (cn_heap c ! t))]) c)))"
    "tx_Rollback t (fed (response_bytes r @ rest) c) =
      (Inr (), fed rest (ended t (csent (packet [FInt op_rollback, FInt (t_transHandle (cn_heap c ! t))]) c)))"
    using assms answered [of "csent (packet fs) c" r rest for fs] a
    by (simp_all add: tx_Commit_def tx_Rollback_def tx_end_def Let_def at_wire_upd finish_def ended_def)
      (simp_all add: fed_def upd_tx_def)
qed

text \<open>Rolling back one transaction leaves the handles of all alone, so the packets name the handles of \<open>c\<close>.\<close>

lemma ended_simps [simp]:
  "calm (cn_wp (ended t c)) = calm (cn_wp c)" "p_outbound (cn_wp (ended t c)) = p_outbound (cn_wp c)"
  "p_buf (cn_wp (ended t c)) = p_buf (cn_wp c)" "p_dbHandle (cn_wp (ended t c)) = p_dbHandle (cn_wp c)"
  "length (cn_heap (ended t c)) = length (cn_heap c)" "cn_set (ended t c) = cn_set c" "cn_tx (ended t c) = cn_tx c"
  by (simp_all add: ended_def upd_tx_def)

lemma ended_nth:
  "t < length (cn_heap c) \<Longrightarrow> u < length (cn_heap c) \<Longrightarrow>
   cn_heap (ended t c) ! u = (if u = t then (cn_heap c ! t)\<lparr>t_isAutocommit := cn_isAutocommit c, t_needBegin := True\<rparr> else cn_heap c ! u)"
  by (auto simp: ended_def upd_tx_def)

definition rollback_packet :: "conn \<Rightarrow> nat \<Rightarrow> bytes" where
  "rollback_packet c t = packet [FInt op_rollback, FInt (t_transHandle (cn_heap c ! t))]"

lemma sent_dbHandle [simp]: "p_dbHandle (sent b p) = p_dbHandle p"
  by (simp add: sent_def)

lemma rollback_each_fine:
  assumes "calm (cn_wp c)" "p_buf (cn_wp c) = []" "list_all fine_reply rs" "length rs = length ts" "\<forall>t \<in> set ts. t < length (cn_heap c)"
  shows "\<exists>d. rollback_each ts (fed (concat (map response_bytes rs) @ rest) c) = (Inr (), fed rest d) \<and> calm (cn_wp d) \<and>
    p_buf (cn_wp d) = [] \<and> p_dbHandle (cn_wp d) = p_dbHandle (cn_wp c) \<and>
    p_outbound (cn_wp d) = p_outbound (cn_wp c) @ map (rollback_packet c) ts"
  using assms
proof (induction ts arbitrary: rs c)
  case (Cons t ts)
  obtain r rs' where rs: "rs = r # rs'" "fine_reply r" "list_all fine_reply rs'" "length rs' = length ts"
    using Cons.prems(3,4) by (cases rs) auto
  define c1 where "c1 = ended t (csent (rollback_packet c t) c)"
  have t: "tx_Rollback t (fed (response_bytes r @ concat (map response_bytes rs') @ rest) c) = (Inr (), fed (concat (map response_bytes rs') @ rest) c1)"
    using tx_end_fine(2) [OF Cons.prems(1) rs(2), of t] by (simp add: c1_def rollback_packet_def)
  have h: "rollback_packet c1 u = rollback_packet c u" if "u < length (cn_heap c)" for u
    using that Cons.prems(5) by (simp add: rollback_packet_def c1_def ended_nth)
  have c1: "calm (cn_wp c1)" "p_buf (cn_wp c1) = []" "\<forall>t \<in> set ts. t < length (cn_heap c1)"
    "p_outbound (cn_wp c1) = p_outbound (cn_wp c) @ [rollback_packet c t]" "p_dbHandle (cn_wp c1) = p_dbHandle (cn_wp c)"
    using Cons.prems by (simp_all add: c1_def)
  have m: "map (rollback_packet c1) ts = map (rollback_packet c) ts" using h Cons.prems(5) by simp
  show ?case
    using Cons.IH [OF c1(1,2) rs(3,4) c1(3)] t c1(4,5) m by (simp add: rs(1) ctry_def)
qed (auto simp: fed_def)

lemma conn_Close_fine:
  assumes "calm (cn_wp c)" "p_buf (cn_wp c) = []" "tx_inv c" "set (order (cn_set c)) = set (cn_set c)" "distinct (order (cn_set c))"
    "list_all fine_reply rs" "length rs = length (cn_set c)" "fine_reply r"
  shows "\<exists>d. conn_Close order (fed (concat (map response_bytes rs) @ response_bytes r @ rest) c) = (Inr (), fed rest d) \<and>
    p_outbound (cn_wp d) = p_outbound (cn_wp c) @ map (rollback_packet c) (order (cn_set c)) @
      [packet [FInt op_detach, FInt (p_dbHandle (cn_wp c))]]"
proof -
  have l: "length rs = length (order (cn_set c))" "\<forall>t \<in> set (order (cn_set c)). t < length (cn_heap c)"
    using assms(3,4,5,7) distinct_card [of "order (cn_set c)"] distinct_card [of "cn_set c"] by (simp_all add: tx_inv_def)
  obtain d where d: "rollback_each (order (cn_set c)) (fed (concat (map response_bytes rs) @ response_bytes r @ rest) c) =
      (Inr (), fed (response_bytes r @ rest) d)" "calm (cn_wp d)" "p_buf (cn_wp d) = []"
      "p_dbHandle (cn_wp d) = p_dbHandle (cn_wp c)" "p_outbound (cn_wp d) = p_outbound (cn_wp c) @ map (rollback_packet c) (order (cn_set c))"
    using rollback_each_fine [OF assms(1,2,6) l, of "response_bytes r @ rest"] by blast
  define d1 where "d1 = d\<lparr>cn_wp := clearAllInlineBlobCache (cn_wp d)\<rparr>"
  have d1: "calm (cn_wp d1)" "p_buf (cn_wp d1) = []" "p_dbHandle (cn_wp d1) = p_dbHandle (cn_wp c)" "p_outbound (cn_wp d1) = p_outbound (cn_wp d)"
    "at_wire (wupd clearAllInlineBlobCache) (fed b d) = (Inr (), fed b d1)" for b
    using d(2,3,4) by (simp_all add: d1_def clearAllInlineBlobCache_def calm_def at_wire_upd fed_def feed_def del: feed_simps)
  have q: "at_wire opDetach (fed b d1) = (Inr (), fed b (csent (packet [FInt op_detach, FInt (p_dbHandle (cn_wp c))]) d1))" for b
    using d1(1) by (rule ask) (simp add: opDetach_def d1(3))
  show ?thesis
    using d d1 q answered [of "csent (packet [FInt op_detach, FInt (p_dbHandle (cn_wp c))]) d1" r rest] assms(8)
    by (simp add: conn_Close_def finish_def) (rule exI, rule conjI, rule refl, simp)
qed

text \<open>Closing a connection, whatever was done with it before, asks for the rollback of every
  transaction that was ever begun on it, each once and in some order, then detaches; a transaction
  that was committed is among them, so its old handle is sent again.\<close>

theorem close_rolls_back_every_transaction:
  assumes "c = run_ops run_op ops (open_conn wp lower)" "calm (cn_wp c)" "p_buf (cn_wp c) = []"
    "set (order (cn_set c)) = set (cn_set c)" "distinct (order (cn_set c))" "list_all fine_reply rs" "length rs = length (cn_set c)" "fine_reply r"
  shows "\<exists>d. conn_Close order (fed (concat (map response_bytes rs) @ response_bytes r @ rest) c) = (Inr (), fed rest d) \<and>
    p_outbound (cn_wp d) = p_outbound (cn_wp c) @ map (rollback_packet c) (order (cn_set c)) @
      [packet [FInt op_detach, FInt (p_dbHandle (cn_wp c))]]"
proof -
  have "tx_inv c"
    using transactions.run_inv [of "open_conn wp lower" "{}" ops] open_conn_inv(1) by (simp add: assms(1))
  then show ?thesis using conn_Close_fine assms(2-8) by blast
qed

text \<open>A transaction the connection has begun and made its own.\<close>

definition begun :: "int \<Rightarrow> bytes \<Rightarrow> int32 \<Rightarrow> conn \<Rightarrow> conn" where
  "begun level tpb h c =
     (started (length (cn_heap c)) h (csent (transaction_packet tpb c)
        (c\<lparr>cn_heap := cn_heap c @ [\<lparr> t_isolationLevel = level, t_isAutocommit = False, t_transHandle = 0, t_needBegin = False \<rparr>]\<rparr>)))
     \<lparr>cn_tx := Some (length (cn_heap c))\<rparr>"

lemma conn_begin_fine:
  assumes "calm (cn_wp c)" "tpbForIsolationLevel level = Inr tpb" "fine_reply a"
  shows "conn_begin level (fed (response_bytes a @ x) c) = (Inr (length (cn_heap c)), fed x (begun level tpb (r_handle a) c))"
proof -
  define c0 where "c0 = c\<lparr>cn_heap := cn_heap c @ [\<lparr> t_isolationLevel = level, t_isAutocommit = False, t_transHandle = 0, t_needBegin = False \<rparr>]\<rparr>"
  have l: "t_isolationLevel (cn_heap c0 ! length (cn_heap c)) = level" "cn_wp c0 = cn_wp c" "transaction_packet tpb c0 = transaction_packet tpb c"
    by (simp_all add: c0_def transaction_packet_def)
  have new: "newFirebirdsqlTx level False True (fed x c) = cbind (tx_begin (length (cn_heap c))) (\<lambda>_. cret (length (cn_heap c))) (fed x c0)" for x
    by (simp add: newFirebirdsqlTx_def c0_def upd_tx_commute Let_def)
  show ?thesis
    using tx_begin_fine [of c0 a "length (cn_heap c)" tpb x] assms l
    by (simp add: conn_begin_def ctry_def new begun_def upd_tx_commute c0_def [symmetric])
qed

lemma begun_simps [simp]:
  "cn_heap (begun level tpb h c) ! length (cn_heap c) = \<lparr> t_isolationLevel = level, t_isAutocommit = False, t_transHandle = h, t_needBegin = False \<rparr>"
  "length (cn_heap (begun level tpb h c)) = Suc (length (cn_heap c))" "cn_tx (begun level tpb h c) = Some (length (cn_heap c))"
  "cn_wp (begun level tpb h c) = sent (transaction_packet tpb c) (cn_wp c)" "cn_isAutocommit (begun level tpb h c) = cn_isAutocommit c"
  "cn_set (begun level tpb h c) = tx_insert (length (cn_heap c)) (cn_set c)"
  by (simp_all add: begun_def started_def upd_tx_def csent_def)

text \<open>C27: A commit leaves the finished transaction as the connection's own, and the next statement
  begins it again with the isolation level it was made for: after a read-only transaction, or one of
  another level, the statements outside a transaction run under that level too.\<close>

theorem next_statement_inherits_isolation:
  assumes "calm (cn_wp c)" "tpbForIsolationLevel level = Inr tpb" "fine_reply a" "fine_reply b" "fine_reply e" "p_buf (cn_wp c) = []"
  shows "\<exists>t d. cbind (conn_begin level) (\<lambda>t. cbind (tx_Commit t) (\<lambda>_. begin_if_needed))
      (fed (response_bytes a @ response_bytes b @ response_bytes e @ rest) c) = (Inr (), fed rest d) \<and>
    p_outbound (cn_wp d) = p_outbound (cn_wp c) @
      [transaction_packet tpb c, packet [FInt op_commit, FInt (r_handle a)], transaction_packet tpb c] \<and>
    cn_tx d = Some t \<and> t_transHandle (cn_heap d ! t) = r_handle e \<and> t_isAutocommit (cn_heap d ! t) = cn_isAutocommit c"
proof -
  let ?t = "length (cn_heap c)" and ?tp = "transaction_packet tpb c" and ?cp = "packet [FInt op_commit, FInt (r_handle a)]"
  define c1 where "c1 = begun level tpb (r_handle a) c"
  define c2 where "c2 = ended ?t (csent ?cp c1)"
  define c3 where "c3 = started ?t (r_handle e) (csent ?tp c2)"
  have b1: "conn_begin level (fed (response_bytes a @ x) c) = (Inr ?t, fed x c1)" for x
    unfolding c1_def by (rule conn_begin_fine [OF assms(1,2,3)])
  have h1: "t_transHandle (cn_heap c1 ! ?t) = r_handle a" "calm (cn_wp c1)" "p_buf (cn_wp c1) = []" "cn_tx c1 = Some ?t"
      "p_outbound (cn_wp c1) = p_outbound (cn_wp c) @ [?tp]" "?t < length (cn_heap c1)" "t_isolationLevel (cn_heap c1 ! ?t) = level"
      "p_dbHandle (cn_wp c1) = p_dbHandle (cn_wp c)" "cn_isAutocommit c1 = cn_isAutocommit c"
    using assms(1,6) by (simp_all add: c1_def)
  have b2: "tx_Commit ?t (fed (response_bytes b @ x) c1) = (Inr (), fed x c2)" for x
    using tx_end_fine(1) [OF h1(2) assms(4), of ?t x] h1(1) by (simp add: c2_def)
  have h2: "calm (cn_wp c2)" "p_buf (cn_wp c2) = []" "cn_tx c2 = Some ?t" "p_outbound (cn_wp c2) = p_outbound (cn_wp c) @ [?tp, ?cp]"
      "?t < length (cn_heap c2)" "t_isolationLevel (cn_heap c2 ! ?t) = level" "t_needBegin (cn_heap c2 ! ?t)"
      "t_isAutocommit (cn_heap c2 ! ?t) = cn_isAutocommit c" "transaction_packet tpb c2 = ?tp"
    using h1 by (simp_all add: c2_def ended_nth transaction_packet_def)
  have b3: "begin_if_needed (fed (response_bytes e @ rest) c2) = (Inr (), fed rest c3)"
    using tx_begin_fine [OF h2(1) assms(5), of ?t tpb rest] assms(2) h2 by (simp add: begin_if_needed_def c3_def)
  have "p_outbound (cn_wp c3) = p_outbound (cn_wp c) @ [?tp, ?cp, ?tp]" "cn_tx c3 = Some ?t"
      "t_transHandle (cn_heap c3 ! ?t) = r_handle e" "t_isAutocommit (cn_heap c3 ! ?t) = cn_isAutocommit c"
    using h2 by (simp_all add: c3_def started_def upd_tx_def)
  then show ?thesis using b1 b2 b3 by (intro exI [of _ ?t] exI [of _ c3]) simp
qed

subsection \<open>Witnesses\<close>

definition sample_answer :: response where
  "sample_answer = \<lparr> r_handle = 7, r_oid = replicate 8 0, r_data = [], r_status = [] \<rparr>"

definition sample_conn :: conn where
  "sample_conn = open_conn sample_wire False"

lemma sample_answer_fine [simp]: "fine_reply sample_answer" "r_handle sample_answer = 7"
  by (simp_all add: fine_reply_def sample_answer_def response_fits_def clause_codes_def)

lemma sample_wire_calm [simp]: "calm sample_wire" "p_buf sample_wire = []" "p_outbound sample_wire = []"
  by (simp_all add: calm_def sample_wire_def)

lemma sample_conn_simps [simp]:
  "cn_wp sample_conn = sample_wire" "length (cn_heap sample_conn) = 1" "cn_set sample_conn = []" "cn_isAutocommit sample_conn"
  by (simp_all add: sample_conn_def open_conn_def newFirebirdsqlTx_def Let_def)

lemma sample_tpb: "tpbForIsolationLevel 4 = Inr [3, 8, 6, 15, 17]"
  by (simp add: tpbForIsolationLevel_def)

lemma sample_run:
  "\<exists>c. run_ops run_op [OpNet (feed (response_bytes sample_answer) sample_wire), OpBegin True 0, OpNet sample_wire] sample_conn = c \<and>
     cn_wp c = sample_wire \<and> cn_set c = [1] \<and> rollback_packet c 1 = packet [FInt op_rollback, FInt 7]"
proof -
  have "snd (BeginTx True 0 (fed (response_bytes sample_answer @ []) sample_conn)) = fed [] (begun 4 [3, 8, 6, 15, 17] 7 sample_conn)"
    using conn_begin_fine [of sample_conn 4 _ sample_answer "[]"] sample_tpb by (simp add: BeginTx_def)
  moreover have "sample_conn\<lparr>cn_wp := feed (response_bytes sample_answer) sample_wire\<rparr> = fed (response_bytes sample_answer @ []) sample_conn"
    by (simp add: fed_def)
  moreover have "t_transHandle (cn_heap (begun 4 [3, 8, 6, 15, 17] 7 sample_conn) ! 1) = 7"
    using begun_simps(1) [of 4 "[3, 8, 6, 15, 17]" 7 sample_conn] by simp
  ultimately show ?thesis
    by (simp add: tx_insert_def rollback_packet_def del: One_nat_def)
qed

theorem close_rolls_back_every_transaction_witness:
  "\<exists>c d. run_ops run_op [OpNet (feed (response_bytes sample_answer) sample_wire), OpBegin True 0, OpNet sample_wire] sample_conn = c \<and>
     conn_Close rev (fed (response_bytes sample_answer @ response_bytes sample_answer) c) = (Inr (), fed [] d) \<and>
     p_outbound (cn_wp d) = [packet [FInt op_rollback, FInt 7], packet [FInt op_detach, FInt (p_dbHandle sample_wire)]]"
proof -
  define ops where "ops = [OpNet (feed (response_bytes sample_answer) sample_wire), OpBegin True 0, OpNet sample_wire]"
  obtain c where c: "run_ops run_op ops sample_conn = c" "cn_wp c = sample_wire" "cn_set c = [1]"
      "rollback_packet c 1 = packet [FInt op_rollback, FInt 7]"
    unfolding ops_def using sample_run by blast
  show ?thesis
    unfolding ops_def [symmetric]
    using close_rolls_back_every_transaction [OF c(1) [symmetric, unfolded sample_conn_def], of rev "[sample_answer]" sample_answer "[]"] c
    by (simp del: fed_simps)
qed

theorem next_statement_inherits_isolation_witness:
  "\<exists>t d. cbind (conn_begin ISOLATION_LEVEL_READ_COMMITED_RO) (\<lambda>t. cbind (tx_Commit t) (\<lambda>_. begin_if_needed))
      (fed (response_bytes sample_answer @ response_bytes sample_answer @ response_bytes sample_answer @ []) sample_conn) = (Inr (), fed [] d) \<and>
    p_outbound (cn_wp d) = [transaction_packet [3, 8, 6, 15, 17] sample_conn, packet [FInt op_commit, FInt 7],
      transaction_packet [3, 8, 6, 15, 17] sample_conn] \<and> cn_tx d = Some t \<and> t_isAutocommit (cn_heap d ! t)"
  using next_statement_inherits_isolation [of sample_conn 4 "[3, 8, 6, 15, 17]" sample_answer sample_answer sample_answer "[]"] sample_tpb
  by auto

end
