(* ===== verification/Rows_Props.thy ===== *)
theory Rows_Props
  imports Rows Fetch_Trip Transaction_Props
begin

text \<open>
  Reading the result of a select to its end from a server that answers every fetch with a batch of
  rows: every row is returned once, in order, however the server cuts the batches.
\<close>

subsection \<open>What the server sends\<close>

type_synonym batch_answer = "sent_blob list \<times> int32 \<times> sent_row list"

fun batch_status :: "batch_answer \<Rightarrow> int32" where
  "batch_status (bs, st, rows) = rows_status st rows"

fun batch_rows :: "batch_answer \<Rightarrow> sent_row list" where
  "batch_rows (bs, st, rows) = rows"

fun batch_bytes :: "int \<Rightarrow> xsqlvar list \<Rightarrow> batch_answer \<Rightarrow> bytes" where
  "batch_bytes version xs (bs, st, rows) = fetch_answer version xs bs st rows"

fun batch_means :: "time_env \<Rightarrow> wire_protocol \<Rightarrow> xsqlvar list \<Rightarrow> batch_answer \<Rightarrow> go_value list list \<Rightarrow> bool" where
  "batch_means te p xs (bs, st, rows) vss \<longleftrightarrow> list_all blob_fits bs \<and>
     list_all2 (\<lambda>(cs, bs, st) vs. row_means te p xs cs vs \<and> list_all blob_fits bs) rows vss"

text \<open>Every batch but the last has rows and says that more follow; the last says 100.\<close>

fun in_batches :: "batch_answer list \<Rightarrow> bool" where
  "in_batches [] = False"
| "in_batches [a] = (batch_status a = 100)"
| "in_batches (a # as) = (batch_status a \<noteq> 100 \<and> batch_rows a \<noteq> [] \<and> in_batches as)"

definition plain_columns :: "xsqlvar list \<Rightarrow> bool" where
  "plain_columns xs \<longleftrightarrow> list_all (\<lambda>x. sqltype x \<noteq> SQL_TYPE_BLOB \<and> sqltype x \<noteq> SQL_TYPE_ARRAY) xs"

lemma batch_means_cong: "p_env q = p_env p \<Longrightarrow> p_timezone q = p_timezone p \<Longrightarrow> p_charset q = p_charset p \<Longrightarrow>
   batch_means te q xs a = batch_means te p xs a"
  by (cases a) (simp add: fun_eq_iff row_means_same [of q p])

lemma batch_means_rows: "batch_means te p xs a vss \<Longrightarrow> (vss = []) = (batch_rows a = []) \<and> list_all (\<lambda>vs. length vs = length xs) vss"
proof (cases a)
  case (fields bs st rows)
  assume "batch_means te p xs a vss"
  then have "list_all2 (\<lambda>(cs, bs, st) vs. row_means te p xs cs vs \<and> list_all blob_fits bs) rows vss" by (simp add: fields)
  then have "(vss = []) = (rows = []) \<and> list_all (\<lambda>vs. length vs = length xs) vss"
  proof (induction rows vss)
    case (Cons row rows vs vss)
    then show ?case by (cases row) (auto dest: row_means_lengths)
  qed simp
  then show ?thesis by (simp add: fields)
qed

subsection \<open>Stepping inside a batch\<close>

lemma dest_values_plain:
  "plain_columns xs \<Longrightarrow> length vs = length xs \<Longrightarrow> dest_values te decode tr xs vs p = (Inr (map DVal vs), p)"
proof (induction xs arbitrary: vs)
  case (Cons x xs)
  then obtain v vs' where vs: "vs = v # vs'" by (cases vs) auto
  then show ?case using Cons by (simp add: plain_columns_def dest_value_def wbind_def)
qed simp

definition open_tx :: "conn \<Rightarrow> bool" where
  "open_tx c \<longleftrightarrow> cn_tx c \<noteq> None"

lemma row_dest_plain:
  assumes "open_tx c" "plain_columns (s_resultXsqlda (cn_stmts c ! s))" "length vs = length (s_resultXsqlda (cn_stmts c ! s))"
  shows "row_dest te decode s vs c = (Inr (map DVal vs), c)"
  using assms dest_values_plain [of "s_resultXsqlda (cn_stmts c ! s)" vs]
  by (simp add: row_dest_def at_wire_def)

definition prepend :: "dest list list \<Rightarrow> (dest list list res \<times> rows) res \<times> conn \<Rightarrow> (dest list list res \<times> rows) res \<times> conn" where
  "prepend ds x = (case x of
     (Inr (Inr dss, r), d) \<Rightarrow> (Inr (Inr (ds @ dss), r), d) | _ \<Rightarrow> x)"

lemma prepend_simps [simp]: "prepend [] x = x" "prepend as (prepend bs x) = prepend (as @ bs) x"
  "prepend as (Inr (Inr dss, r), d) = (Inr (Inr (as @ dss), r), d)"
  by (auto simp: prepend_def split: prod.splits sum.splits)

lemma drain_step: "rows_Next te r c = (Inr (Inr ds, r'), d) \<Longrightarrow> drain te r c = prepend [ds] (drain te r' d)"
  by (subst drain.simps) (auto simp: prepend_def split: prod.splits sum.splits)

lemma drain_end: "rows_Next te r c = (Inr (Inl EOF, r'), d) \<Longrightarrow> drain te r c = (Inr (Inr [], r'), d)"
  by (subst drain.simps) simp

text \<open>A select under way on a statement with plain columns.\<close>

definition selecting :: "rows \<Rightarrow> conn \<Rightarrow> bool" where
  "selecting r c \<longleftrightarrow> open_tx c \<and> plain_columns (s_resultXsqlda (cn_stmts c ! r_stmt r)) \<and>
     s_stmtType (cn_stmts c ! r_stmt r) \<noteq> isc_info_sql_stmt_exec_procedure"

lemma current_row_plain:
  assumes "selecting r c" "r_currentChunk r = Some ch" "r_currentChunkIdx r < length ch"
    "list_all (\<lambda>vs. length vs = length (s_resultXsqlda (cn_stmts c ! r_stmt r))) ch"
  shows "current_row te r c = (Inr (Inr (map DVal (ch ! r_currentChunkIdx r)), r), c)"
  using assms row_dest_plain [of c "r_stmt r" "ch ! r_currentChunkIdx r" te True]
  by (simp add: current_row_def selecting_def ctry_def list_all_length)

lemma drain_walk:
  assumes "selecting r c" "r_currentChunk r = Some ch" "Suc (r_currentChunkIdx r + n) = length ch"
    "list_all (\<lambda>vs. length vs = length (s_resultXsqlda (cn_stmts c ! r_stmt r))) ch"
  shows "drain te r c = prepend (map (map DVal) (drop (Suc (r_currentChunkIdx r)) ch)) (drain te (r\<lparr>r_currentChunkIdx := length ch - 1\<rparr>) c)"
  using assms
proof (induction n arbitrary: r)
  case 0
  have e: "length ch - 1 = r_currentChunkIdx r" using 0(3) by simp
  have "r\<lparr>r_currentChunkIdx := length ch - 1\<rparr> = r" unfolding e by simp
  then show ?case using 0(3) e by (simp del: One_nat_def)
next
  case (Suc n)
  define r1 where "r1 = r\<lparr>r_currentChunkIdx := Suc (r_currentChunkIdx r)\<rparr>"
  have a: "advance r = r1" "r_currentChunk r1 = Some ch" "r_currentChunkIdx r1 = Suc (r_currentChunkIdx r)" "r_stmt r1 = r_stmt r"
    "chunk_length r1 = length ch" "selecting r1 c" "Suc (r_currentChunkIdx r1 + n) = length ch"
    "r1\<lparr>r_currentChunkIdx := length ch - 1\<rparr> = r\<lparr>r_currentChunkIdx := length ch - 1\<rparr>"
    using Suc.prems(1-3) by (simp_all add: advance_def r1_def chunk_length_def selecting_def)
  have "current_row te r1 c = (Inr (Inr (map DVal (ch ! Suc (r_currentChunkIdx r))), r1), c)"
    using current_row_plain [OF a(6,2)] a(3,4) Suc.prems(3,4) by simp
  then have "rows_Next te r c = (Inr (Inr (map DVal (ch ! Suc (r_currentChunkIdx r))), r1), c)"
    using Suc.prems(1,3) a(3,5) by (simp add: rows_Next_def next_select_def a(1) Let_def selecting_def)
  moreover have "drop (Suc (r_currentChunkIdx r)) ch = ch ! Suc (r_currentChunkIdx r) # drop (Suc (Suc (r_currentChunkIdx r))) ch"
    using Suc.prems(3) by (intro Cons_nth_drop_Suc [symmetric]) simp
  ultimately show ?case using drain_step Suc.IH [OF a(6,2,7)] Suc.prems(4) a(3,4,8) by simp
qed

subsection \<open>A fetch\<close>

lemma fed_more [simp]:
  "cn_stmts (fed b c) = cn_stmts c" "cn_batches (fed b c) = cn_batches c" "cn_stmts (csent b c) = cn_stmts c"
  "cn_batches (csent b c) = cn_batches c" "(fed b c)\<lparr>cn_wp := p\<rparr> = c\<lparr>cn_wp := p\<rparr>"
  by (simp_all add: fed_def csent_def)

lemma open_tx_same [simp]: "open_tx (fed b c) = open_tx c" "open_tx (c\<lparr>cn_wp := p\<rparr>) = open_tx c"
  by (simp_all add: open_tx_def fed_def)

lemma keep_blobs_more [simp]:
  "calm (keep_blobs bs p) = calm p" "p_outbound (keep_blobs bs p) = p_outbound p" "p_buf (keep_blobs bs p) = p_buf p"
proof -
  have "calm (keep_blob b p) = calm p \<and> p_outbound (keep_blob b p) = p_outbound p \<and> p_buf (keep_blob b p) = p_buf p" for b p
    by (cases b) (simp add: cache_blob_def calm_def)
  then show "calm (keep_blobs bs p) = calm p" "p_outbound (keep_blobs bs p) = p_outbound p" "p_buf (keep_blobs bs p) = p_buf p"
    unfolding keep_blobs_def by (induction bs arbitrary: p) simp_all
qed

definition fetch_packet :: "stmt \<Rightarrow> bytes" where
  "fetch_packet x = packet [FInt op_fetch, FInt (s_stmtHandle x), FBytes (s_blr x), FInt 0, FInt fetchRowBatchSize]"

lemma sent_session [simp]: "p_timezone (sent b p) = p_timezone p" "p_charset (sent b p) = p_charset p" "p_protocolVersion (sent b p) = p_protocolVersion p"
  by (simp_all add: sent_def)

text \<open>The wire of a connection after an exchange: the same session, ready again, with more sent.\<close>

definition follows :: "bytes list \<Rightarrow> wire_protocol \<Rightarrow> wire_protocol \<Rightarrow> bool" where
  "follows ps p q \<longleftrightarrow> calm q \<and> p_buf q = [] \<and> p_env q = p_env p \<and> p_timezone q = p_timezone p \<and> p_charset q = p_charset p \<and>
     p_protocolVersion q = p_protocolVersion p \<and> p_outbound q = p_outbound p @ ps"

lemma follows_trans: "follows ps p q \<Longrightarrow> follows qs q r \<Longrightarrow> follows (ps @ qs) p r"
  by (simp add: follows_def)

lemma fetch_chunk_fine:
  assumes "calm (cn_wp c)" "p_buf (cn_wp c) = []" "open_tx c" "batch_means te (cn_wp c) (s_resultXsqlda (cn_stmts c ! r_stmt r)) a vss"
  shows "\<exists>q. fetch_chunk te r (fed (batch_bytes (p_protocolVersion (cn_wp c)) (s_resultXsqlda (cn_stmts c ! r_stmt r)) a @ rest) c) =
      (Inr (Inr (), r\<lparr>r_currentChunk := Some vss, r_moreData := batch_status a \<noteq> 100\<rparr>), fed rest (c\<lparr>cn_wp := q\<rparr>)) \<and>
    follows [fetch_packet (cn_stmts c ! r_stmt r)] (cn_wp c) q"
proof -
  let ?x = "cn_stmts c ! r_stmt r"
  obtain bs st rows where a: "a = (bs, st, rows)" by (cases a) auto
  define p where "p = sent (fetch_packet ?x) (cn_wp c)"
  define q where "q = keep_blobs (bs @ rows_blobs rows) (p\<lparr>p_lazyResponseCount := 0\<rparr>)"
  have p: "calm p" "p_buf p = []" "p_env p = p_env (cn_wp c)" "p_timezone p = p_timezone (cn_wp c)" "p_charset p = p_charset (cn_wp c)"
    "p_protocolVersion p = p_protocolVersion (cn_wp c)" "p_outbound p = p_outbound (cn_wp c) @ [fetch_packet ?x]"
    using assms(1,2) by (simp_all add: p_def)
  have lz: "p_lazyResponseCount p = 0" using p(1) by (simp add: calm_def)
  have s: "at_wire (opFetch (s_stmtHandle ?x) (s_blr ?x)) (fed b c) = (Inr (), fed b (csent (fetch_packet ?x) c))" for b
    unfolding fetch_packet_def using assms(1) by (rule ask) (simp add: opFetch_def)
  have "batch_means te p (s_resultXsqlda ?x) a vss"
    using assms(4) batch_means_cong [OF p(3,4,5), of te "s_resultXsqlda ?x" a] by metis
  then have m: "list_all blob_fits bs" "list_all2 (\<lambda>(cs, bs, st) vs. row_means te p (s_resultXsqlda ?x) cs vs \<and> list_all blob_fits bs) rows vss"
    unfolding a by simp_all
  have f: "opFetchResponse te (s_resultXsqlda ?x) (feed (fetch_answer (p_protocolVersion p) (s_resultXsqlda ?x) bs st rows @ rest) p) =
      (Inr (vss, rows_status st rows \<noteq> 100), feed rest q)"
    using fetch_answer_enc [OF m, where rs = "[]" and k = 0 and rest = rest and st = st] lz by (simp add: q_def dummies_def)
  have c: "fed x (csent (fetch_packet ?x) c) = c\<lparr>cn_wp := feed x p\<rparr>" "fed x (c\<lparr>cn_wp := q\<rparr>) = c\<lparr>cn_wp := feed x q\<rparr>" for x
    by (simp_all add: fed_def csent_def p_def)
  obtain t where t: "cn_tx c = Some t" using assms(3) by (auto simp: open_tx_def)
  have w: "with_handle (\<lambda>_. opFetchResponse te (s_resultXsqlda ?x)) (c\<lparr>cn_wp := feed (fetch_answer (p_protocolVersion p) (s_resultXsqlda ?x) bs st rows @ rest) p\<rparr>) =
      (Inr (vss, rows_status st rows \<noteq> 100), c\<lparr>cn_wp := feed rest q\<rparr>)"
    using f t by (simp add: with_handle_def the_tx_def at_wire_def)
  have "follows [fetch_packet ?x] (cn_wp c) q"
    using p by (simp add: follows_def q_def) (simp add: calm_def)
  moreover have "fetch_chunk te r (fed (batch_bytes (p_protocolVersion (cn_wp c)) (s_resultXsqlda ?x) a @ rest) c) =
      (Inr (Inr (), r\<lparr>r_currentChunk := Some vss, r_moreData := batch_status a \<noteq> 100\<rparr>), fed rest (c\<lparr>cn_wp := q\<rparr>))"
    using s w by (simp add: fetch_chunk_def Let_def ctry_def a c p(6))
  ultimately show ?thesis by blast
qed

text \<open>At the end of a batch, or before the first one, the next row comes from a new batch.\<close>

definition at_batch_end :: "rows \<Rightarrow> bool" where
  "at_batch_end r \<longleftrightarrow> r_moreData r \<and> (case r_currentChunk r of None \<Rightarrow> True | Some ch \<Rightarrow> length ch \<le> Suc (r_currentChunkIdx r))"

lemma drain_batch:
  assumes "calm (cn_wp c)" "p_buf (cn_wp c) = []" "selecting r c" "at_batch_end r"
    "batch_means te (cn_wp c) (s_resultXsqlda (cn_stmts c ! r_stmt r)) a vss"
  shows "\<exists>q r'. follows [fetch_packet (cn_stmts c ! r_stmt r)] (cn_wp c) q \<and> r_stmt r' = r_stmt r \<and>
      r_moreData r' = (batch_status a \<noteq> 100) \<and> (vss \<noteq> [] \<longrightarrow> r_currentChunk r' = Some vss \<and> Suc (r_currentChunkIdx r') = length vss) \<and>
      drain te r (fed (batch_bytes (p_protocolVersion (cn_wp c)) (s_resultXsqlda (cn_stmts c ! r_stmt r)) a @ rest) c) =
        (if vss = [] then (Inr (Inr [], r'), fed rest (c\<lparr>cn_wp := q\<rparr>))
         else prepend (map (map DVal) vss) (drain te r' (fed rest (c\<lparr>cn_wp := q\<rparr>))))"
proof -
  let ?x = "cn_stmts c ! r_stmt r" and ?in = "batch_bytes (p_protocolVersion (cn_wp c)) (s_resultXsqlda (cn_stmts c ! r_stmt r)) a @ rest"
  define r1 where "r1 = advance r"
  have r1: "r_stmt r1 = r_stmt r" "chunk_length r1 \<le> r_currentChunkIdx r1" "r_moreData r1"
    using assms(4) by (auto simp: r1_def advance_def at_batch_end_def chunk_length_def split: option.splits)
  obtain q where q: "fetch_chunk te r1 (fed ?in c) = (Inr (Inr (), r1\<lparr>r_currentChunk := Some vss, r_moreData := batch_status a \<noteq> 100\<rparr>), fed rest (c\<lparr>cn_wp := q\<rparr>))"
      "follows [fetch_packet ?x] (cn_wp c) q"
    using fetch_chunk_fine [of c te r1 a vss rest] assms(1,2,3,5) r1(1) by (auto simp: selecting_def)
  define r2 where "r2 = r1\<lparr>r_currentChunk := Some vss, r_moreData := batch_status a \<noteq> 100, r_currentChunkIdx := 0\<rparr>"
  define d where "d = fed rest (c\<lparr>cn_wp := q\<rparr>)"
  have n: "rows_Next te r (fed ?in c) = current_row te r2 d"
    using q(1) r1 assms(3) by (simp add: rows_Next_def next_select_def r1_def [symmetric] r2_def d_def Let_def selecting_def)
  have r2: "r_stmt r2 = r_stmt r" "r_currentChunk r2 = Some vss" "r_currentChunkIdx r2 = 0" "r_moreData r2 = (batch_status a \<noteq> 100)"
    by (simp_all add: r2_def r1)
  have sel: "selecting r2 d" using assms(3) by (simp add: selecting_def d_def r2(1))
  have len: "list_all (\<lambda>vs. length vs = length (s_resultXsqlda (cn_stmts d ! r_stmt r2))) vss"
    using batch_means_rows [OF assms(5)] by (simp add: d_def r2(1))
  show ?thesis
  proof (cases vss)
    case Nil
    have "rows_Next te r (fed ?in c) = (Inr (Inl EOF, r2), d)" unfolding n by (simp add: current_row_def r2 Nil)
    then have "drain te r (fed ?in c) = (Inr (Inr [], r2), d)" by (rule drain_end)
    then show ?thesis using q(2) Nil r2 d_def by (intro exI [of _ q] exI [of _ r2]) simp
  next
    case (Cons v vs)
    have "rows_Next te r (fed ?in c) = (Inr (Inr (map DVal v), r2), d)"
      unfolding n using current_row_plain [OF sel r2(2) _ len] by (simp add: r2 Cons)
    moreover have "drain te r2 d = prepend (map (map DVal) vs) (drain te (r2\<lparr>r_currentChunkIdx := length vss - 1\<rparr>) d)"
      using drain_walk [OF sel r2(2) _ len, of "length vs" te] by (simp add: r2(3) Cons)
    ultimately show ?thesis
      using drain_step [of te r "fed ?in c"] q(2) r2 Cons d_def
      by (intro exI [of _ q] exI [of _ "r2\<lparr>r_currentChunkIdx := length vss - 1\<rparr>"]) simp
  qed
qed

lemma drain_finished:
  assumes "selecting r c" "r_currentChunk r = Some ch" "length ch \<le> Suc (r_currentChunkIdx r)" "\<not> r_moreData r"
  shows "drain te r c = (Inr (Inr [], advance r), c)"
proof (rule drain_end)
  show "rows_Next te r c = (Inr (Inl EOF, advance r), c)"
    using assms by (simp add: rows_Next_def next_select_def Let_def selecting_def) (simp add: current_row_def advance_def)
qed

text \<open>C29: Reading a select to its end returns every row the server sends, once and in order, however
  the server cuts the rows into batches and whatever blobs it sends ahead; one fetch request is
  sent for each batch, and what follows the last batch is left unread.\<close>

theorem every_row_once:
  assumes "calm (cn_wp c)" "p_buf (cn_wp c) = []" "selecting r c" "at_batch_end r" "in_batches as"
    "list_all2 (batch_means te (cn_wp c) (s_resultXsqlda (cn_stmts c ! r_stmt r))) as vsss"
  shows "\<exists>q r'. drain te r (fed (concat (map (batch_bytes (p_protocolVersion (cn_wp c)) (s_resultXsqlda (cn_stmts c ! r_stmt r))) as) @ rest) c) =
      (Inr (Inr (map (map DVal) (concat vsss)), r'), fed rest (c\<lparr>cn_wp := q\<rparr>)) \<and>
    follows (replicate (length as) (fetch_packet (cn_stmts c ! r_stmt r))) (cn_wp c) q"
  using assms
proof (induction as arbitrary: c r vsss rule: in_batches.induct)
  case 1
  then show ?case by simp
next
  case (2 a)
  obtain vss where v: "vsss = [vss]" "batch_means te (cn_wp c) (s_resultXsqlda (cn_stmts c ! r_stmt r)) a vss"
    using 2(6) by (auto simp: list_all2_Cons1)
  obtain q r' where q: "follows [fetch_packet (cn_stmts c ! r_stmt r)] (cn_wp c) q" "r_stmt r' = r_stmt r" "\<not> r_moreData r'"
      "vss \<noteq> [] \<Longrightarrow> r_currentChunk r' = Some vss \<and> Suc (r_currentChunkIdx r') = length vss"
      "drain te r (fed (batch_bytes (p_protocolVersion (cn_wp c)) (s_resultXsqlda (cn_stmts c ! r_stmt r)) a @ rest) c) =
        (if vss = [] then (Inr (Inr [], r'), fed rest (c\<lparr>cn_wp := q\<rparr>))
         else prepend (map (map DVal) vss) (drain te r' (fed rest (c\<lparr>cn_wp := q\<rparr>))))"
    using drain_batch [OF 2(1-4) v(2), of rest] 2(5) by auto
  have s: "selecting r' (fed rest (c\<lparr>cn_wp := q\<rparr>))" using 2(3) by (simp add: selecting_def q(2))
  have "vss \<noteq> [] \<Longrightarrow> drain te r' (fed rest (c\<lparr>cn_wp := q\<rparr>)) = (Inr (Inr [], advance r'), fed rest (c\<lparr>cn_wp := q\<rparr>))"
    using drain_finished [OF s] q(3,4) by simp
  then show ?case using q(1,5) v(1) by (cases "vss = []") auto
next
  case (3 a b as)
  obtain vss vsss' where v: "vsss = vss # vsss'" "batch_means te (cn_wp c) (s_resultXsqlda (cn_stmts c ! r_stmt r)) a vss"
      "list_all2 (batch_means te (cn_wp c) (s_resultXsqlda (cn_stmts c ! r_stmt r))) (b # as) vsss'"
    using 3(7) by (auto simp: list_all2_Cons1)
  define tl where "tl = concat (map (batch_bytes (p_protocolVersion (cn_wp c)) (s_resultXsqlda (cn_stmts c ! r_stmt r))) (b # as)) @ rest"
  have ne: "vss \<noteq> []" using batch_means_rows [OF v(2)] 3(6) by simp
  obtain q r' where q: "follows [fetch_packet (cn_stmts c ! r_stmt r)] (cn_wp c) q" "r_stmt r' = r_stmt r" "r_moreData r'"
      "r_currentChunk r' = Some vss" "Suc (r_currentChunkIdx r') = length vss"
      "drain te r (fed (batch_bytes (p_protocolVersion (cn_wp c)) (s_resultXsqlda (cn_stmts c ! r_stmt r)) a @ tl) c) =
        prepend (map (map DVal) vss) (drain te r' (fed tl (c\<lparr>cn_wp := q\<rparr>)))"
    using drain_batch [OF 3(2-5) v(2), of tl] 3(6) ne by auto
  let ?c = "c\<lparr>cn_wp := q\<rparr>"
  have f: "calm q" "p_buf q = []" "p_env q = p_env (cn_wp c)" "p_timezone q = p_timezone (cn_wp c)" "p_charset q = p_charset (cn_wp c)"
      "p_protocolVersion q = p_protocolVersion (cn_wp c)"
    using q(1) by (simp_all add: follows_def)
  have m: "list_all2 (batch_means te q (s_resultXsqlda (cn_stmts c ! r_stmt r))) (b # as) vsss'"
    using v(3) batch_means_cong [OF f(3,4,5), of te "s_resultXsqlda (cn_stmts c ! r_stmt r)"] by (simp add: list_all2_conv_all_nth)
  have "selecting r' ?c" "at_batch_end r'" using 3(4) q(2-5) by (simp_all add: selecting_def at_batch_end_def)
  then obtain q2 r2 where q2: "drain te r' (fed tl ?c) = (Inr (Inr (map (map DVal) (concat vsss')), r2), fed rest (?c\<lparr>cn_wp := q2\<rparr>))"
      "follows (replicate (length (b # as)) (fetch_packet (cn_stmts c ! r_stmt r))) q q2"
    using 3(1) [of ?c r' vsss'] f(1,2,6) 3(6) m q(2) by (auto simp: tl_def)
  show ?case
    using q(6) q2(1) follows_trans [OF q(1) q2(2)] v(1) by (intro exI [of _ q2] exI [of _ r2]) (simp add: tl_def)
qed

definition sample_query :: conn where
  "sample_query = sample_conn\<lparr>cn_stmts := [(new_stmt ''select'')\<lparr>s_stmtHandle := 3, s_stmtType := 1, s_resultXsqlda := sample_row_cols\<rparr>]\<rparr>"

text \<open>One row in the first batch with a blob sent ahead of it, none in the second.\<close>

definition sample_batches :: "batch_answer list" where
  "sample_batches = [([(7, 8, [], [])], 0, [([(bint32_to_bytes 1250, False), ([104, 105], False)], [], 0)]), ([], 100, [])]"

lemma sample_query_simps [simp]:
  "cn_wp sample_query = sample_wire" "open_tx sample_query" "s_resultXsqlda (cn_stmts sample_query ! 0) = sample_row_cols"
  "s_stmtType (cn_stmts sample_query ! 0) = 1"
  by (simp_all add: sample_query_def open_tx_def sample_conn_def open_conn_def newFirebirdsqlTx_def Let_def)

theorem every_row_once_witness:
  "\<exists>q r'. drain oslo_time (newFirebirdsqlRows 0 None sample_query)
      (fed (concat (map (batch_bytes (p_protocolVersion sample_wire) sample_row_cols) sample_batches) @ [9]) sample_query) =
    (Inr (Inr [[DVal (VStr ''12.50''), DVal (VStr ''hi'')]], r'), fed [9] (sample_query\<lparr>cn_wp := q\<rparr>)) \<and>
    length (p_outbound q) = 2"
proof -
  let ?n = "zero_var\<lparr>sqltype := SQL_TYPE_LONG, sqlscale := -2\<rparr>" and ?s = "zero_var\<lparr>sqltype := SQL_TYPE_VARYING, sqllen := 20\<rparr>"
  let ?r = "newFirebirdsqlRows 0 None sample_query"
  have p: "p_timezone sample_wire = ''''" "p_charset sample_wire = ''UTF8''" by (simp_all add: sample_wire_def)
  have v: "column_value (p_env sample_wire) oslo_time '''' ''UTF8'' ?n (bint32_to_bytes 1250) = Inr (VStr ''12.50'')"
    "column_value (p_env sample_wire) oslo_time '''' ''UTF8'' ?s [104, 105] = Inr (VStr ''hi'')" by code_simp+
  have l: "ioLength ?n = 4" "ioLength ?s = -1" by code_simp+
  have "row_means oslo_time sample_wire sample_row_cols [(bint32_to_bytes 1250, False), ([104, 105], False)] [VStr ''12.50'', VStr ''hi'']"
    by (simp_all add: sample_row_cols_def raw_fits_def l p v bint32_codec.enc_length)
  then have m: "list_all2 (batch_means oslo_time sample_wire sample_row_cols) sample_batches [[[VStr ''12.50'', VStr ''hi'']], []]"
    by (simp add: sample_batches_def segments_bytes_def)
  have r: "r_stmt ?r = 0" "r_currentChunk ?r = None" "r_moreData ?r" by (simp_all add: newFirebirdsqlRows_def is_select_def)
  have "plain_columns sample_row_cols" by (simp add: plain_columns_def sample_row_cols_def)
  then have "selecting ?r sample_query" "at_batch_end ?r" by (simp_all add: selecting_def at_batch_end_def r)
  moreover have "in_batches sample_batches" by (simp add: sample_batches_def)
  ultimately show ?thesis
    using every_row_once [of sample_query ?r sample_batches oslo_time "[[[VStr ''12.50'', VStr ''hi'']], []]" "[9]"] m
    by (auto simp: r(1) follows_def sample_batches_def)
qed

end
