(* ===== verification/Client_Props.thy ===== *)
theory Client_Props
  imports Client Describe_Trip Rows_Props
begin

text \<open>
  Preparing a statement stays in step with the server whether or not requests are sent lazily, and
  however many answers are owed; the names in the metadata queries are quoted safely.
\<close>

subsection \<open>Requests with answers owed\<close>

definition writable :: "wire_protocol \<Rightarrow> bool" where
  "writable p \<longleftrightarrow> (\<forall>n. p_wr_ok p n)"

lemma writable_simps [simp]:
  "writable (feed b p) = writable p" "writable (sent b p) = writable p" "writable (p\<lparr>p_lazyResponseCount := n\<rparr>) = writable p"
  by (simp_all add: writable_def)

lemma calm_writable: "calm p = (writable p \<and> p_lazyResponseCount p = 0)"
  by (simp add: calm_def writable_def)

lemma sent_lazy [simp]:
  "(sent b p)\<lparr>p_lazyResponseCount := n\<rparr> = sent b (p\<lparr>p_lazyResponseCount := n\<rparr>)"
  "(feed b p)\<lparr>p_lazyResponseCount := n\<rparr> = feed b (p\<lparr>p_lazyResponseCount := n\<rparr>)"
  "p_acceptType (sent b p) = p_acceptType p" "is_lazy (sent b p) = is_lazy p" "is_lazy (feed b p) = is_lazy p"
  "is_lazy (p\<lparr>p_lazyResponseCount := n\<rparr>) = is_lazy p"
  by (simp_all add: sent_def feed_def is_lazy_def del: feed_simps)

lemma ask_writable:
  assumes "writable (cn_wp c)" "m (feed b (cn_wp c)) = send_fields (FInt w # fs) (feed b (cn_wp c))"
  shows "at_wire m (fed b c) = (Inr (), fed b (csent (packet (FInt w # fs)) c))"
proof -
  have "send_fields (FInt w # fs) (feed b (cn_wp c)) = (Inr (), sent (packet (FInt w # fs)) (feed b (cn_wp c)))"
    unfolding packet_def using assms(1) by (intro send_fields_sent) (simp_all add: writable_def)
  then show ?thesis using assms(2) by (simp add: at_wire_def fed_def csent_def)
qed

lemma owed_reply:
  assumes "list_all response_fits rs" "p_lazyResponseCount p = int (length rs)" "fine_reply r"
  shows "op_response_raw (feed (concat (map response_bytes rs) @ response_bytes r @ rest) p) =
    (Inr (r_handle r, r_oid r, r_data r, None), feed rest (p\<lparr>p_lazyResponseCount := 0\<rparr>))"
proof -
  have "sv_error (p_env p) (vector_meaning (p_env p) (r_status r)) = None"
    using vector_meaning_codes [where env = "p_env p" and cs = "r_status r"] assms(3) by (simp add: sv_error_None fine_reply_def)
  then show ?thesis
    using op_response_frames [of rs r p 0 rest] assms by (simp add: dummies_def fine_reply_def)
qed

lemma owed_response:
  assumes "list_all response_fits rs" "p_lazyResponseCount p = int (length rs)" "fine_reply r"
  shows "opResponse (feed (concat (map response_bytes rs) @ response_bytes r @ rest) p) =
    (Inr (r_handle r, r_oid r, r_data r), feed rest (p\<lparr>p_lazyResponseCount := 0\<rparr>))"
  using owed_reply [OF assms] by (simp add: opResponse_def wbind_def)

subsection \<open>Preparing\<close>

definition allocate_packet :: "wire_protocol \<Rightarrow> bytes" where
  "allocate_packet p = packet [FInt op_allocate_statement, FInt (p_dbHandle p)]"

text \<open>With lazy sending the new statement is named by \<open>-1\<close>, the one allocated last.\<close>

definition prepare_packet :: "int32 \<Rightarrow> int32 \<Rightarrow> string \<Rightarrow> wire_protocol \<Rightarrow> bytes" where
  "prepare_packet h tr query p = packet [FInt op_prepare_statement, FInt tr, FInt h, FInt 3, FString query p,
     FBytes ([isc_info_sql_stmt_type] @ INFO_SQL_SELECT_DESCRIBE_VARS), FInt BUFFER_LEN]"

lemma FString_same: "p_env q = p_env p \<Longrightarrow> p_charset q = p_charset p \<Longrightarrow> FString s q = FString s p"
  by (simp add: FString_def encodeString_def)

definition prepared_wire :: "int32 \<Rightarrow> int32 \<Rightarrow> string \<Rightarrow> wire_protocol \<Rightarrow> wire_protocol" where
  "prepared_wire h tr query p =
     sent (prepare_packet (if is_lazy p then - 1 else h) tr query p) (sent (allocate_packet p) (p\<lparr>p_lazyResponseCount := 0\<rparr>))"

lemma prepare_handle_enc:
  assumes "writable (cn_wp c)" "list_all response_fits rs" "p_lazyResponseCount (cn_wp c) = int (length rs)" "fine_reply a"
    "cn_tx c = Some t"
  shows "prepare_handle query (fed (concat (map response_bytes rs) @ response_bytes a @ rest) c) =
    (Inr (r_handle a), fed rest (c\<lparr>cn_wp := prepared_wire (r_handle a) (t_transHandle (cn_heap c ! t)) query (cn_wp c)\<rparr>))"
proof -
  let ?p = "cn_wp c" and ?tr = "t_transHandle (cn_heap c ! t)"
  let ?h = "if is_lazy ?p then - 1 else r_handle a"
  let ?in = "concat (map response_bytes rs) @ response_bytes a @ rest"
  have 1: "at_wire opAllocateStatement (fed b c) = (Inr (), fed b (csent (allocate_packet ?p) c))" for b
    unfolding allocate_packet_def using assms(1) by (rule ask_writable) (simp add: opAllocateStatement_def)
  define c1 where "c1 = csent (allocate_packet ?p) c"
  have c1: "writable (cn_wp c1)" "cn_tx c1 = Some t" "cn_heap c1 = cn_heap c" "p_lazyResponseCount (cn_wp c1) = int (length rs)"
    "cn_wp c1 = sent (allocate_packet ?p) ?p"
    using assms by (simp_all add: c1_def)
  have prep: "with_handle (\<lambda>tr. opPrepareStatement h tr query) (fed b (c1\<lparr>cn_wp := (cn_wp c1)\<lparr>p_lazyResponseCount := n\<rparr>\<rparr>)) =
      (Inr (), fed b (c1\<lparr>cn_wp := sent (prepare_packet h ?tr query ?p) ((cn_wp c1)\<lparr>p_lazyResponseCount := n\<rparr>)\<rparr>))" for h b n
  proof -
    define c2 where "c2 = c1\<lparr>cn_wp := (cn_wp c1)\<lparr>p_lazyResponseCount := n\<rparr>\<rparr>"
    have w: "writable (cn_wp c2)" using c1(1) by (simp add: c2_def)
    have "FString query (feed b (cn_wp c2)) = FString query ?p" by (rule FString_same) (simp_all add: c2_def c1(5))
    then have "at_wire (opPrepareStatement h ?tr query) (fed b c2) = (Inr (), fed b (csent (prepare_packet h ?tr query ?p) c2))"
      unfolding prepare_packet_def using w by (intro ask_writable) (simp_all add: opPrepareStatement_def Let_def)
    then show ?thesis
      using c1(2,3) by (simp add: with_handle_def the_tx_def c2_def) (simp add: fed_def csent_def)
  qed
  show ?thesis
  proof (cases "is_lazy ?p")
    case True
    have a: "at_wire alloc_handle (fed b c1) = (Inr (- 1), fed b (c1\<lparr>cn_wp := (cn_wp c1)\<lparr>p_lazyResponseCount := int (length rs) + 1\<rparr>\<rparr>))" for b
      using True c1(4,5) by (simp add: at_wire_def alloc_handle_def fed_def)
    define q where "q = sent (prepare_packet (- 1) ?tr query ?p) ((cn_wp c1)\<lparr>p_lazyResponseCount := int (length rs)\<rparr>)"
    have "op_response_raw (feed ?in q) = (Inr (r_handle a, r_oid a, r_data a, None), feed rest (q\<lparr>p_lazyResponseCount := 0\<rparr>))"
      by (rule owed_reply [OF assms(2) _ assms(4)]) (simp add: q_def)
    then have "at_wire (owed_handle (- 1)) (fed ?in (c1\<lparr>cn_wp := sent (prepare_packet (- 1) ?tr query ?p) ((cn_wp c1)\<lparr>p_lazyResponseCount := int (length rs) + 1\<rparr>)\<rparr>)) =
        (Inr (r_handle a), fed rest (c1\<lparr>cn_wp := q\<lparr>p_lazyResponseCount := 0\<rparr>\<rparr>))"
      using True c1(5) by (simp add: at_wire_def owed_handle_def fed_def q_def wbind_def)
    then show ?thesis
      using True prep 1 a by (simp add: prepare_handle_def c1_def [symmetric]) (simp add: c1_def csent_def q_def prepared_wire_def)
  next
    case False
    have r: "opResponse (feed ?in (cn_wp c1)) = (Inr (r_handle a, r_oid a, r_data a), feed rest ((cn_wp c1)\<lparr>p_lazyResponseCount := 0\<rparr>))"
      by (rule owed_response [OF assms(2) c1(4) assms(4)])
    have a: "at_wire alloc_handle (fed ?in c1) = (Inr (r_handle a), fed rest (c1\<lparr>cn_wp := (cn_wp c1)\<lparr>p_lazyResponseCount := 0\<rparr>\<rparr>))"
      using False c1(5) r by (simp add: at_wire_def alloc_handle_def fed_def wbind_def)
    have "at_wire (owed_handle h) (fed b (c1\<lparr>cn_wp := q\<rparr>)) = (Inr h, fed b (c1\<lparr>cn_wp := q\<rparr>))" if "\<not> is_lazy q" for h b q
      using that by (simp add: at_wire_def owed_handle_def fed_def)
    then show ?thesis
      using False prep [of "r_handle a" rest 0] 1 a c1(5) by (simp add: prepare_handle_def c1_def [symmetric]) (simp add: c1_def csent_def prepared_wire_def)
  qed
qed

definition prepared :: "string \<Rightarrow> int32 \<Rightarrow> int32 \<Rightarrow> xsqlvar list \<Rightarrow> bytes \<Rightarrow> stmt" where
  "prepared query h ty xs blr = (new_stmt query)\<lparr>s_stmtHandle := h, s_resultXsqlda := xs, s_blr := blr, s_stmtType := ty\<rparr>"

lemma fed_stmts: "(fed b c)\<lparr>cn_stmts := ss\<rparr> = fed b (c\<lparr>cn_stmts := ss\<rparr>)" "upd_stmt s f (fed b c) = fed b (upd_stmt s f c)"
  by (simp_all add: fed_def upd_stmt_def)

lemma upd_stmt_last:
  "cn_stmts c = ss @ [x] \<Longrightarrow> upd_stmt (length ss) f c = c\<lparr>cn_stmts := ss @ [f x]\<rparr>"
  by (simp add: upd_stmt_def)

lemma resolve_plain:
  assumes "list_all (\<lambda>x. sqltype x \<noteq> SQL_TYPE_ARRAY \<and> arrayMeta x = None) xs"
  shows "resolveArrayMeta ne te xs c = (Inr xs, c)"
proof -
  have "array_pairs xs = []" using assms by (induction xs) (auto simp: array_pairs_def map_filter_simps array_key_of_def)
  moreover have "map (\<lambda>x. x\<lparr>arrayMeta := None\<rparr>) xs = xs" using assms by (induction xs) simp_all
  ultimately show ?thesis by (simp add: resolveArrayMeta_def resolve_with_def)
qed

text \<open>C28: Preparing a statement stays in step with the server, with requests sent lazily or not and with
  any number of answers owed to earlier requests: it takes those off, gets the handle from the
  answer to the allocation and the columns from the answers to the description, however the server
  cuts them, and leaves what follows unread, with nothing owed any more.\<close>

theorem prepare_in_step:
  assumes "writable (cn_wp c)" "list_all response_fits rs" "p_lazyResponseCount (cn_wp c) = int (length rs)" "fine_reply a" "fine_reply d"
    "cn_tx c = Some t" "\<not> t_needBegin (cn_heap c ! t)"
    "list_all (describable \<circ> snd) cols" "length cols < 65536" "cuts_ok (length cols) 1 cs" "answers_fit (answers cols 1 cs)"
    "stale_number cols cs \<noteq> 1045" "stale_number cols cs \<noteq> 1796"
    "r_data d = prepare_answer ty (length cols) (hd (answers cols 1 cs))"
    "list_all (\<lambda>x. sqltype (snd x) \<noteq> SQL_TYPE_ARRAY) cols" "calcBlr (map snd cols) = Inr blr"
  shows "conn_prepare ne te query
      (fed (concat (map response_bytes rs) @ response_bytes a @ response_bytes d @ describe_answers cols cs @ rest) c) =
    (Inr (length (cn_stmts c)), fed rest (c\<lparr>cn_stmts := cn_stmts c @ [prepared query (r_handle a) ty (map snd cols) blr],
       cn_wp := asked (r_handle a) INFO_SQL_SELECT_DESCRIBE_VARS (tl (starts 1 cs))
         (prepared_wire (r_handle a) (t_transHandle (cn_heap c ! t)) query (cn_wp c))\<rparr>))"
proof -
  let ?s = "length (cn_stmts c)" and ?xs = "map snd cols"
  define p where "p = prepared_wire (r_handle a) (t_transHandle (cn_heap c ! t)) query (cn_wp c)"
  define q where "q = asked (r_handle a) INFO_SQL_SELECT_DESCRIBE_VARS (tl (starts 1 cs)) p"
  define ss where "ss x = c\<lparr>cn_stmts := cn_stmts c @ [x]\<rparr>" for x
  have pl: "p_lazyResponseCount p = 0" "writable p" using assms(1) by (simp_all add: p_def prepared_wire_def)
  then have pc: "calm p" by (simp add: calm_writable)
  have xs: "list_all (\<lambda>x. sqltype x \<noteq> SQL_TYPE_ARRAY \<and> arrayMeta x = None) ?xs"
    using assms(8,15) by (auto simp: list_all_iff describable_def var_ok_def)
  have 1: "prepare_handle query (fed (concat (map response_bytes rs) @ response_bytes a @ b) (ss x)) = (Inr (r_handle a), fed b ((ss x)\<lparr>cn_wp := p\<rparr>))" for b x
    using prepare_handle_enc [of "ss x" rs a t query b] assms(1-4,6) by (simp add: ss_def p_def)
  have 2: "at_wire opResponse (fed (response_bytes d @ b) (y\<lparr>cn_wp := p\<rparr>)) = (Inr (r_handle d, r_oid d, r_data d), fed b (y\<lparr>cn_wp := p\<rparr>))" for b and y :: conn
    using opResponse_fine [OF pc assms(5), of b] by (simp add: at_wire_def fed_def)
  have 3: "at_wire (parse_xsqlda (r_data d) (r_handle a)) (fed (describe_answers cols cs @ b) (y\<lparr>cn_wp := p\<rparr>)) = (Inr (ty, ?xs), fed b (y\<lparr>cn_wp := q\<rparr>))" for b and y :: conn
    using describe_roundtrip_steps [OF pc assms(8-13), of ty "r_handle a" b] by (simp add: at_wire_def fed_def q_def assms(14))
  have u: "upd_stmt ?s f ((ss x)\<lparr>cn_wp := w\<rparr>) = (ss (f x))\<lparr>cn_wp := w\<rparr>" for f x w
    using upd_stmt_last [of "(ss x)\<lparr>cn_wp := w\<rparr>" "cn_stmts c" x f] by (simp add: ss_def)
  have l: "at_wire (wlift (Inr v)) y = (Inr v, y)" for v :: bytes and y :: conn by (simp add: at_wire_def wlift_def)
  have "newFirebirdsqlStmt ne te query (fed (concat (map response_bytes rs) @ response_bytes a @ response_bytes d @ describe_answers cols cs @ rest) c) =
      (Inr ?s, fed rest ((ss (prepared query (r_handle a) ty ?xs blr))\<lparr>cn_wp := q\<rparr>))"
    using 1 2 3 u l assms(16) resolve_plain [OF xs]
    by (simp add: newFirebirdsqlStmt_def prepare_stmt_def Let_def fed_stmts ss_def [symmetric] prepared_def new_stmt_def)
  then show ?thesis
    using assms(6,7) by (simp add: conn_prepare_def begin_if_needed_def ss_def q_def p_def)
qed

definition sample_ready :: conn where
  "sample_ready = sample_conn\<lparr>cn_heap := [\<lparr> t_isolationLevel = 1, t_isAutocommit = True, t_transHandle = 7, t_needBegin = False \<rparr>],
     cn_wp := sample_wire\<lparr>p_lazyResponseCount := 1\<rparr>\<rparr>"

lemma sample_ready_simps [simp]:
  "cn_wp sample_ready = sample_wire\<lparr>p_lazyResponseCount := 1\<rparr>" "cn_tx sample_ready = Some 0" "\<not> t_needBegin (cn_heap sample_ready ! 0)"
  "cn_stmts sample_ready = []"
  by (simp_all add: sample_ready_def sample_conn_def open_conn_def newFirebirdsqlTx_def Let_def)

definition sample_description :: response where
  "sample_description = sample_answer\<lparr>r_data := prepare_answer 1 2 (hd (answers sample_cols 1 [(0, 3), (1, 0)]))\<rparr>"

theorem prepare_in_step_witness:
  "\<exists>d. conn_prepare sample_num oslo_time ''select name, price from t''
      (fed (response_bytes sample_answer @ response_bytes sample_answer @ response_bytes sample_description @
        describe_answers sample_cols [(0, 3), (1, 0)] @ [9]) sample_ready) = (Inr 0, fed [9] d) \<and>
    cn_stmts d = [prepared ''select name, price from t'' 7 1 (map snd sample_cols) (projr (calcBlr (map snd sample_cols)))] \<and>
    p_lazyResponseCount (cn_wp d) = 0"
proof -
  have l: "length sample_cols = 2" by (simp add: sample_cols_def)
  have 1: "list_all (describable \<circ> snd) sample_cols"
    by (simp add: sample_cols_def describable_def var_ok_def zero_var_def)
  have 2: "cuts_ok (length sample_cols) 1 [(0, 3), (1, 0)]" by (simp add: l cut_ok_def next_start_def)
  have 3: "answers_fit (answers sample_cols 1 [(0, 3), (1, 0)])"
    by (simp add: answers_fit_def cut_bytes_def next_start_def sample_cols_def column_bytes_def column_items_def item_bytes_def zero_var_def)
  have 4: "fine_reply sample_description"
    using 3 by (simp add: fine_reply_def sample_description_def sample_answer_def response_fits_def clause_codes_def
        answers_fit_def prepare_answer_def int32_codec.enc_length cut_bytes_def next_start_def sample_cols_def column_bytes_def column_items_def item_bytes_def zero_var_def)
  have "\<not> isl (calcBlr (map snd sample_cols))" by code_simp
  then have 5: "calcBlr (map snd sample_cols) = Inr (projr (calcBlr (map snd sample_cols)))" by simp
  have 6: "list_all response_fits [sample_answer]" "response_fits sample_answer" using sample_answer_fine by (simp_all add: fine_reply_def)
  have 7: "list_all (\<lambda>x. sqltype (snd x) \<noteq> SQL_TYPE_ARRAY) sample_cols" by (simp add: sample_cols_def)
  have 8: "p_lazyResponseCount (asked h v ns p) = p_lazyResponseCount p" for h v ns p
    unfolding asked_def by (induction ns arbitrary: p) simp_all
  have 9: "writable (cn_wp sample_ready)" by (simp add: writable_def sample_wire_def)
  have 10: "r_data sample_description = prepare_answer 1 (length sample_cols) (hd (answers sample_cols 1 [(0, 3), (1, 0)]))"
    by (simp add: sample_description_def l)
  show ?thesis
    using prepare_in_step [of sample_ready "[sample_answer]" sample_answer sample_description 0 sample_cols "[(0, 3), (1, 0)]" 1 _ sample_num oslo_time
        "''select name, price from t''" "[9]", OF 9 6(1) _ _ 4 _ _ 1 _ 2 3 _ _ 10 7 5]
    by (simp add: l stale_number_def next_start_def prepared_wire_def split del: if_split)
      (rule exI, rule conjI, rule refl, simp add: 8)
qed

subsection \<open>The names in the metadata queries\<close>

text \<open>A reader of SQL literals: in quotes, a quote of the text doubled; and of a list in parentheses.\<close>

fun literal_tail :: "string \<Rightarrow> (string \<times> string) option" where
  "literal_tail [] = None"
| "literal_tail (c # cs) =
     (if c = CHR 0x27
      then (case cs of d # ds \<Rightarrow> if d = CHR 0x27 then map_option (apfst (Cons d)) (literal_tail ds) else Some ([], cs)
            | [] \<Rightarrow> Some ([], []))
      else map_option (apfst (Cons c)) (literal_tail cs))"

primrec read_literals :: "nat \<Rightarrow> string \<Rightarrow> (string list \<times> string) option" where
  "read_literals 0 s = None"
| "read_literals (Suc n) s = (if s = [] \<or> hd s \<noteq> CHR 0x27 then None else case literal_tail (tl s) of
     None \<Rightarrow> None
   | Some (name, r) \<Rightarrow>
       if r = [] then None
       else if hd r = CHR '','' then map_option (apfst (Cons name)) (read_literals n (tl r))
       else if hd r = CHR '')'' then Some ([name], tl r) else None)"

definition read_in_list :: "string \<Rightarrow> (string list \<times> string) option" where
  "read_in_list s = (if s = [] \<or> hd s \<noteq> CHR ''('' then None else read_literals (length s) (tl s))"

lemma literal_tail_quoted:
  "rest = [] \<or> hd rest \<noteq> CHR 0x27 \<Longrightarrow>
   literal_tail (concat (map (\<lambda>c. if c = CHR 0x27 then [c, c] else [c]) s) @ CHR 0x27 # rest) = Some (s, rest)"
  by (induction s) (auto split: list.split)

lemma read_literals_quoted:
  "length ss < n \<Longrightarrow> read_literals n (join_with '','' (map quoteMetaLiteral (s # ss)) @ CHR '')'' # rest) = Some (s # ss, rest)"
proof (induction ss arbitrary: n s)
  case Nil
  then obtain m where "n = Suc m" by (cases n) auto
  then show ?case by (simp add: quoteMetaLiteral_def literal_tail_quoted)
next
  case (Cons t ss)
  then obtain m where "n = Suc m" "length ss < m" by (cases n) auto
  then show ?case using Cons.IH [of m t] by (simp add: quoteMetaLiteral_def literal_tail_quoted)
qed

lemma in_list_long: "length (map quoteMetaLiteral ss) \<le> length (join_with '','' (map quoteMetaLiteral ss))"
proof (induction ss)
  case (Cons s ss)
  then show ?case by (cases ss) (auto simp: quoteMetaLiteral_def)
qed simp

text \<open>C30: The names that go into a metadata query, whatever characters they have, are quoted so that a
  reader of SQL literals gets back exactly these names and the text after the list: no table or
  column name changes the query.\<close>

theorem metadata_names_read_back:
  "ss \<noteq> [] \<Longrightarrow> read_in_list (in_list ss @ rest) = Some (ss, rest)"
  using read_literals_quoted [of "tl ss" "length (in_list ss @ rest)" "hd ss" rest] in_list_long [of ss]
  by (cases ss) (simp_all add: read_in_list_def in_list_def)

theorem metadata_names_read_back_witness:
  "read_in_list (in_list [''A'' @ [CHR 0x27] @ '') OR 1=1 --'', ''B,C''] @ '' AND'') = Some ([''A'' @ [CHR 0x27] @ '') OR 1=1 --'', ''B,C''], '' AND'')"
  using metadata_names_read_back [of "[''A'' @ [CHR 0x27] @ '') OR 1=1 --'', ''B,C'']" "'' AND''"] by simp

end
