(* ===== verification/Batch.thy ===== *)
theory Batch
  imports Client
begin

text \<open>
  Prepared batches (\<open>batch.go\<close>) and the rows they send (\<open>batch_encode.go\<close>). Rows wait in the driver
  until they would be too many bytes, then go to the server's buffer, and are executed together.
  A \<open>*PreparedBatch\<close> is an index into \<open>cn_batches\<close>; the context is one that is never cancelled.
\<close>

subsection \<open>Rows\<close>

definition field_align :: "int \<Rightarrow> int" where
  "field_align t =
     (if t \<in> {SQL_TYPE_TEXT, SQL_TYPE_NULL, SQL_TYPE_BOOLEAN} then 1
      else if t \<in> {SQL_TYPE_SHORT, SQL_TYPE_VARYING} then 2
      else if t \<in> {SQL_TYPE_DOUBLE, SQL_TYPE_D_FLOAT, SQL_TYPE_INT64, SQL_TYPE_DEC64, SQL_TYPE_DEC128, SQL_TYPE_INT128} then 8
      else 4)"

definition message_field :: "int \<Rightarrow> xsqlvar \<Rightarrow> int" where
  "message_field len x =
     (let fieldLength = (if sqltype x = SQL_TYPE_VARYING then sqllen x + 2 else sqllen x);
          align = field_align (sqltype x);
          len = (if align > 1 then (len + align - 1) AND NOT (align - 1) else len);
          len = len + fieldLength
      in ((len + 1) AND NOT 1) + 2)"

definition calculateBatchMessageLength :: "xsqlvar list \<Rightarrow> int" where
  "calculateBatchMessageLength xsqlda = foldl message_field 0 xsqlda"

text \<open>A number is taken as it is, without the scale of its column; a longer text is cut.\<close>

definition encodeBatchField :: "num_env \<Rightarrow> wire_protocol \<Rightarrow> xsqlvar \<Rightarrow> go_any \<Rightarrow> bytes res" where
  "encodeBatchField ne p x arg =
     (let t = sqltype x in
      if t = SQL_TYPE_SHORT \<or> t = SQL_TYPE_LONG then bind_res (toInt64 ne arg) (\<lambda>v. Inr (bint32_to_bytes (word_of_int v)))
      else if t = SQL_TYPE_INT64 \<or> t = SQL_TYPE_QUAD then bind_res (toInt64 ne arg) (\<lambda>v. Inr (bint64_to_bytes (word_of_int v)))
      else if t = SQL_TYPE_FLOAT then bind_res (toFloat64 ne arg) (\<lambda>f. Inr (bint32_to_bytes (narrow_float f)))
      else if t = SQL_TYPE_DOUBLE then bind_res (toFloat64 ne arg) (\<lambda>f. Inr (bint64_to_bytes f))
      else if t = SQL_TYPE_BOOLEAN then bind_res (toBool arg) (\<lambda>b. Inr [if b then 1 else 0])
      else if t = SQL_TYPE_TEXT \<or> t = SQL_TYPE_VARYING then
        bind_res (toString ne arg) (\<lambda>s. let b = str_to_bytes (encodeString s p) in
          Inr (if sqllen x > 0 \<and> int (length b) > sqllen x then take (nat (sqllen x)) b else b))
      else if t = SQL_TYPE_DATE then bind_res (toTime arg) (\<lambda>(c, l). Inr (convert_date c))
      else if t = SQL_TYPE_TIME then bind_res (toTime arg) (\<lambda>(c, l). Inr (convert_time c))
      else if t = SQL_TYPE_TIMESTAMP then bind_res (toTime arg) (\<lambda>(c, l). Inr (convert_timestamp c))
      else if t = SQL_TYPE_BLOB \<or> t = SQL_TYPE_ARRAY then Inl (Plain ''firebirdsql: batch does not support blob/array parameters'')
      else bind_res (toString ne arg) (\<lambda>s. Inr (str_to_bytes (encodeString s p))))"

primrec encode_fields :: "num_env \<Rightarrow> wire_protocol \<Rightarrow> (xsqlvar \<times> go_any) list \<Rightarrow> bytes list res" where
  "encode_fields ne p [] = Inr []"
| "encode_fields ne p (xa # xas) =
     bind_res (if snd xa = ANil then Inr [] else encodeBatchField ne p (fst xa) (snd xa)) (\<lambda>b.
     bind_res (encode_fields ne p xas) (\<lambda>bs. Inr (b # bs)))"

definition pad4 :: "int \<Rightarrow> byte \<Rightarrow> bytes" where
  "pad4 n b = replicate (nat ((4 - n) AND 3)) b"

definition field_slot :: "xsqlvar \<Rightarrow> bytes \<Rightarrow> bytes res" where
  "field_slot x fb =
     (let t = sqltype x; n = int (length fb) in
      if t = SQL_TYPE_NULL then Inr []
      else if t = SQL_TYPE_VARYING then Inr (bint32_to_bytes (word_of_int n) @ fb @ pad4 n 0x20)
      else if t = SQL_TYPE_TEXT then
        bind_res (if n > sqllen x then go_slice fb 0 (sqllen x) else Inr fb) (\<lambda>fb.
          Inr (fb @ replicate (nat (sqllen x - int (length fb))) 0x20 @ pad4 (sqllen x) 0x20))
      else if t = SQL_TYPE_BOOLEAN then Inr (fb @ pad4 n 0)
      else Inr fb)"

primrec field_slots :: "((xsqlvar \<times> go_any) \<times> bytes) list \<Rightarrow> bytes res" where
  "field_slots [] = Inr []"
| "field_slots (f # fs) =
     bind_res (if snd (fst f) = ANil then Inr [] else field_slot (fst (fst f)) (snd f)) (\<lambda>b.
     bind_res (field_slots fs) (\<lambda>bs. Inr (b @ bs)))"

definition encodeBatchRow :: "num_env \<Rightarrow> wire_protocol \<Rightarrow> xsqlvar list \<Rightarrow> go_any list \<Rightarrow> bytes res" where
  "encodeBatchRow ne p xsqlda args =
     (if length args \<noteq> length xsqlda then Inl (Plain ''firebirdsql: expected %d batch args, got %d'')
      else bind_res (encode_fields ne p (zip xsqlda args)) (\<lambda>fbs.
           bind_res (field_slots (zip (zip xsqlda args) fbs)) (\<lambda>b.
           Inr (null_bytes (map (\<lambda>a. a = ANil) args) @ b))))"

subsection \<open>Preparing a batch\<close>

definition normalizeBatchOptions :: "batch_options \<Rightarrow> batch_options" where
  "normalizeBatchOptions opts =
     (let opts = opts\<lparr>bo_RecordCounts := True\<rparr> in
      if bo_ContinueOnError opts then (if bo_DetailedErrors opts = 0 then opts\<lparr>bo_DetailedErrors := - 1\<rparr> else opts)
      else if bo_DetailedErrors opts = 0 then opts\<lparr>bo_DetailedErrors := 1\<rparr> else opts)"

definition unsupported_param :: "xsqlvar list \<Rightarrow> go_error option" where
  "unsupported_param xs = (case find (\<lambda>x. sqltype x = SQL_TYPE_BLOB \<or> sqltype x = SQL_TYPE_ARRAY) xs of
     None \<Rightarrow> None
   | Some x \<Rightarrow> Some (Plain (if sqltype x = SQL_TYPE_BLOB then ''batch does not support blob parameters (arg %d)''
       else ''batch does not support array parameters (arg %d)'')))"

definition not_dml :: go_error where
  "not_dml = Plain ''batch supports only insert, update, and delete statements without result sets''"

definition validateBatchStatement :: "stmt \<Rightarrow> unit res" where
  "validateBatchStatement x =
     (if input_vars x = [] then Inl (Plain ''statement used in batch must have parameters'')
      else case unsupported_param (input_vars x) of
        Some e \<Rightarrow> Inl e
      | None \<Rightarrow>
         if s_resultXsqlda x \<noteq> [] then Inl not_dml
         else if s_stmtType x \<in> {isc_info_sql_stmt_insert, isc_info_sql_stmt_update, isc_info_sql_stmt_delete} then Inr ()
         else Inl not_dml)"

definition defaultPreparedBatchFlushSize :: int where
  "defaultPreparedBatchFlushSize = 128 * 1024"

definition new_batch :: "nat \<Rightarrow> batch_options \<Rightarrow> bytes \<Rightarrow> int32 \<Rightarrow> prepared_batch" where
  "new_batch s opts blr msgLen = \<lparr> pb_stmt = Some s, pb_opts = opts, pb_created = False, pb_closed = False, pb_encodedRows = [],
     pb_pendingBytes = 0, pb_autoFlushSize = defaultPreparedBatchFlushSize, pb_paramBlr = blr, pb_msgLen = msgLen \<rparr>"

definition PrepareBatch :: "num_env \<Rightarrow> time_env \<Rightarrow> string \<Rightarrow> batch_options \<Rightarrow> nat cm" where
  "PrepareBatch ne te sql opts c =
     (if p_protocolVersion (cn_wp c) < PROTOCOL_VERSION16
      then (Inl (Plain ''firebirdsql: batch requires wire protocol 16+, got %d''), c)
      else cbind begin_if_needed (\<lambda>_.
           cbind (newFirebirdsqlStmt ne te sql) (\<lambda>s.
           cbind (or_close s (\<lambda>c. at_wire (fetchBindXsqlda (s_stmtHandle (cn_stmts c ! s))) c)) (\<lambda>xs.
           cbind (cupd (upd_stmt s (\<lambda>x. x\<lparr>s_inputXsqlda := Some xs\<rparr>))) (\<lambda>_.
           cbind (or_close s (\<lambda>c. (validateBatchStatement (cn_stmts c ! s), c))) (\<lambda>_.
           cbind (\<lambda>c. (calcBlr xs, c)) (\<lambda>blr c.
             let b = length (cn_batches c) in
             (Inr b, upd_stmt s (\<lambda>x. x\<lparr>s_activeBatch := Some b\<rparr>)
               (c\<lparr>cn_batches := cn_batches c @ [new_batch s (normalizeBatchOptions opts) blr
                  (word_of_int (calculateBatchMessageLength xs))]\<rparr>)))))))) c)"

subsection \<open>Filling and sending\<close>

definition parameterBuffer :: "batch_options \<Rightarrow> bytes" where
  "parameterBuffer opts =
     (let pb = [batchVersion1];
          pb = (if bo_ContinueOnError opts then pb_putInt32 batchTagMultiError 1 pb else pb);
          pb = (if bo_RecordCounts opts then pb_putInt32 batchTagRecordCounts 1 pb else pb);
          pb = (if bo_DetailedErrors opts \<ge> 0 then pb_putInt32 batchTagDetailedErrors (word_of_int (bo_DetailedErrors opts)) pb else pb);
          pb = (if bo_BufferBytes opts > 0 then pb_putInt32 batchTagBufferBytes (word_of_int (bo_BufferBytes opts)) pb else pb)
      in pb_putByte batchTagBlobPolicy batchBlobIDUser pb)"

text \<open>\<open>b.stmt.stmtHandle\<close>\<close>

definition batch_handle :: "nat \<Rightarrow> (int32 \<Rightarrow> 'a wm) \<Rightarrow> 'a cm" where
  "batch_handle b m c = (case pb_stmt (cn_batches c ! b) of
     None \<Rightarrow> (Inl (Panic ''nil pointer dereference''), c)
   | Some s \<Rightarrow> at_wire (m (s_stmtHandle (cn_stmts c ! s))) c)"

definition ensureCreated :: "nat \<Rightarrow> unit cm" where
  "ensureCreated b c =
     (let x = cn_batches c ! b in
      if pb_closed x then (Inl (Plain ''prepared batch is closed''), c)
      else if pb_created x then (Inr (), c)
      else cbind (batch_handle b (\<lambda>h. opBatchCreate h (pb_paramBlr x) (pb_msgLen x) (parameterBuffer (pb_opts x)))) (\<lambda>_.
           cupd (upd_batch b (\<lambda>x. x\<lparr>pb_created := True\<rparr>))) c)"

definition PendingBytes :: "nat \<Rightarrow> conn \<Rightarrow> int" where
  "PendingBytes b c = pb_pendingBytes (cn_batches c ! b)"

text \<open>The queue is emptied before the rows are sent.\<close>

definition batch_Flush :: "nat \<Rightarrow> unit cm" where
  "batch_Flush b c =
     (if pb_closed (cn_batches c ! b) then (Inl (Plain ''prepared batch is closed''), c)
      else if pb_encodedRows (cn_batches c ! b) = [] then (Inr (), c)
      else cbind (ensureCreated b) (\<lambda>_ c.
        let rows = pb_encodedRows (cn_batches c ! b) in
        cbind (cupd (upd_batch b (\<lambda>x. x\<lparr>pb_encodedRows := [], pb_pendingBytes := 0\<rparr>))) (\<lambda>_.
        batch_handle b (\<lambda>h. opBatchMsg h rows)) c) c)"

definition batch_vars :: "nat \<Rightarrow> conn \<Rightarrow> xsqlvar list res" where
  "batch_vars b c = (case pb_stmt (cn_batches c ! b) of
     None \<Rightarrow> Inl (Panic ''nil pointer dereference'') | Some s \<Rightarrow> Inr (input_vars (cn_stmts c ! s)))"

definition batch_row :: "num_env \<Rightarrow> nat \<Rightarrow> go_any list \<Rightarrow> conn \<Rightarrow> bytes res" where
  "batch_row ne b args c =
     bind_res (batch_vars b c) (\<lambda>xs.
     if length args \<noteq> length xs then Inl (Plain ''expected %d arguments, got %d'')
     else if list_ex (\<lambda>x. sqltype x = SQL_TYPE_BLOB \<or> sqltype x = SQL_TYPE_ARRAY) xs
     then Inl (Plain ''batch does not support blob/array parameters (arg %d)'')
     else encodeBatchRow ne (cn_wp c) xs args)"

definition must_flush :: "prepared_batch \<Rightarrow> bytes \<Rightarrow> bool" where
  "must_flush x row \<longleftrightarrow> pb_autoFlushSize x > 0 \<and> pb_pendingBytes x > 0 \<and>
     pb_pendingBytes x + int (length row) > pb_autoFlushSize x"

definition enqueue :: "bytes \<Rightarrow> prepared_batch \<Rightarrow> prepared_batch" where
  "enqueue row x = x\<lparr>pb_encodedRows := pb_encodedRows x @ [row], pb_pendingBytes := pb_pendingBytes x + int (length row)\<rparr>"

definition batch_Add :: "num_env \<Rightarrow> nat \<Rightarrow> go_any list \<Rightarrow> unit cm" where
  "batch_Add ne b args c =
     (if pb_closed (cn_batches c ! b) then (Inl (Plain ''prepared batch is closed''), c)
      else case batch_row ne b args c of
        Inl e \<Rightarrow> (Inl e, c)
      | Inr row \<Rightarrow>
          cbind (\<lambda>c. if must_flush (cn_batches c ! b) row then batch_Flush b c else (Inr (), c)) (\<lambda>_.
          cupd (upd_batch b (enqueue row))) c)"

subsection \<open>Executing and closing\<close>

record batch_result =
  br_Affected :: int
  br_UpdateCounts :: "int list"

datatype batch_error = RowErrors "(int \<times> go_error) list" | CommitError go_error

definition batch_result_of :: "batch_completion \<Rightarrow> batch_result" where
  "batch_result_of c = \<lparr> br_Affected = affected c, br_UpdateCounts = map sint (bc_UpdateCounts c) \<rparr>"

definition row_errors :: "batch_completion \<Rightarrow> batch_error option" where
  "row_errors c = (if hasErrors c
     then Some (RowErrors (map (\<lambda>(row, e). (sint row, e)) (bc_DetailedErrors c) @
            map (\<lambda>row. (sint row, ErrBatchRowFailed)) (bc_SimplifiedErrors c)))
     else None)"

definition release_batch :: "nat \<Rightarrow> unit res cm" where
  "release_batch b =
     cbind (ctry (batch_handle b (\<lambda>h. opBatchRelease h op_batch_rls))) (\<lambda>r.
     cbind (cupd (upd_batch b (\<lambda>x. x\<lparr>pb_created := False\<rparr>))) (\<lambda>_. cret r))"

text \<open>With autocommit the transaction is rolled back when a row failed, and otherwise committed.\<close>

definition finish_batch :: "batch_error option \<Rightarrow> batch_error option cm" where
  "finish_batch batchErr =
     cbind the_tx (\<lambda>t c.
     if \<not> t_isAutocommit (cn_heap c ! t) then (Inr batchErr, c)
     else if batchErr \<noteq> None then cbind (ctry (tx_Rollback t)) (\<lambda>_. cret batchErr) c
     else cbind (ctry (commitRetainging t)) (\<lambda>r. cret (map_option CommitError (errof r))) c)"

definition batch_Exec :: "nat \<Rightarrow> (batch_result \<times> batch_error option) cm" where
  "batch_Exec b c =
     (if pb_closed (cn_batches c ! b) then (Inl (Plain ''prepared batch is closed''), c)
      else cbind (batch_Flush b) (\<lambda>_ c.
        if \<not> pb_created (cn_batches c ! b) then (Inr (\<lparr> br_Affected = 0, br_UpdateCounts = [] \<rparr>, None), c)
        else cbind the_tx (\<lambda>t c.
          cbind (batch_handle b (\<lambda>h. opBatchExec h (t_transHandle (cn_heap c ! t)))) (\<lambda>_.
          cbind (ctry (at_wire opBatchCompletion)) (\<lambda>r.
          cbind (release_batch b) (\<lambda>_.
          case r of Inl e \<Rightarrow> cerr e
          | Inr completion \<Rightarrow>
              cbind (finish_batch (row_errors completion)) (\<lambda>e. cret (batch_result_of completion, e))))) c) c) c)"

definition batch_Cancel :: "nat \<Rightarrow> unit cm" where
  "batch_Cancel b c =
     (if pb_closed (cn_batches c ! b) then (Inr (), c)
      else cbind (cupd (upd_batch b (\<lambda>x. x\<lparr>pb_encodedRows := [], pb_pendingBytes := 0\<rparr>))) (\<lambda>_ c.
        if \<not> pb_created (cn_batches c ! b) then (Inr (), c)
        else cbind (release_batch b) (\<lambda>r. finish (errof r)) c) c)"

definition batch_Close :: "nat \<Rightarrow> unit cm" where
  "batch_Close b c =
     (if pb_closed (cn_batches c ! b) then (Inr (), c)
      else cbind (ctry (batch_Cancel b)) (\<lambda>_.
           cbind (cupd (upd_batch b (\<lambda>x. x\<lparr>pb_closed := True\<rparr>))) (\<lambda>_ c.
           case pb_stmt (cn_batches c ! b) of
             None \<Rightarrow> (Inr (), c)
           | Some s \<Rightarrow>
               cbind (cupd (upd_stmt s (\<lambda>x. x\<lparr>s_activeBatch := None\<rparr>))) (\<lambda>_.
               cbind (ctry (stmt_Close s)) (\<lambda>r.
               cbind (cupd (upd_batch b (\<lambda>x. x\<lparr>pb_stmt := None\<rparr>))) (\<lambda>_. finish (errof r)))) c)) c)"

end
