(* ===== verification/Conn_Relation.thy ===== *)
theory Conn_Relation
  imports Batch
begin

text \<open>
  What the operations of a connection keep: a relation between the states before and after that
  every exchange on the wire and every change of a transaction satisfies is kept by all that is
  built of them.
\<close>

locale conn_relation =
  fixes R :: "conn \<Rightarrow> conn \<Rightarrow> bool"
  assumes stay: "R c c"
    and trans: "R c d \<Longrightarrow> R d e \<Longrightarrow> R c e"
    and wire: "R c (c\<lparr>cn_wp := p\<rparr>)"
    and txs: "R c (c\<lparr>cn_heap := h, cn_set := ts\<rparr>)"
    and stmts: "R c (c\<lparr>cn_stmts := ss\<rparr>)"
begin

definition keeps :: "'a cm \<Rightarrow> bool" where
  "keeps m \<longleftrightarrow> (\<forall>c. R c (snd (m c)))"

lemma keepsD: "keeps m \<Longrightarrow> m c = (r, d) \<Longrightarrow> R c d"
  unfolding keeps_def by (metis snd_conv)

lemma keeps_bind: "keeps m \<Longrightarrow> (\<And>x. keeps (f x)) \<Longrightarrow> keeps (cbind m f)"
  unfolding keeps_def cbind_def by (auto split: prod.splits sum.splits) (metis snd_conv trans)+

lemma keeps_state: "(\<And>x. keeps (m x)) \<Longrightarrow> keeps (\<lambda>c. m c c)"
  by (simp add: keeps_def)

lemma keeps_basic [simp]: "keeps (cret x)" "keeps (cerr e)" "keeps (Pair r)" "keeps (at_wire m)" "keeps the_tx"
  by (auto simp: keeps_def stay the_tx_def at_wire_def wire split: prod.splits option.splits)

lemma keeps_value [simp]: "keeps (\<lambda>c. (f c, c))"
  by (simp add: keeps_def stay)

lemma keeps_try [simp]: "keeps m \<Longrightarrow> keeps (ctry m)"
  unfolding keeps_def ctry_def by (auto split: prod.splits sum.splits) (metis snd_conv)+

lemma keeps_upd: "(\<And>c. R c (f c)) \<Longrightarrow> keeps (cupd f)"
  by (simp add: keeps_def)

lemma keeps_finish [simp]: "keeps (finish e)"
  by (cases e) (simp_all add: finish_def)

lemma heap_only: "R c (c\<lparr>cn_heap := h\<rparr>)"
  using txs [where c = c and h = h and ts = "cn_set c"] by simp

lemma keeps_tx [simp]: "keeps (cupd (upd_tx t f))" "keeps (cupd (\<lambda>c. upd_tx t (g c) c))"
  "keeps (cupd (\<lambda>c. upd_tx t f (c\<lparr>cn_set := tx_insert t (cn_set c)\<rparr>)))"
proof -
  show "keeps (cupd (upd_tx t f))" "keeps (cupd (\<lambda>c. upd_tx t (g c) c))"
    by (auto intro!: keeps_upd simp: upd_tx_def heap_only)
  have "c\<lparr>cn_set := ts, cn_heap := h\<rparr> = c\<lparr>cn_heap := h, cn_set := ts\<rparr>" for c :: conn and ts h by simp
  then have "R c (c\<lparr>cn_set := ts, cn_heap := h\<rparr>)" for c ts h
    using txs [where c = c and h = h and ts = ts] by metis
  then show "keeps (cupd (\<lambda>c. upd_tx t f (c\<lparr>cn_set := tx_insert t (cn_set c)\<rparr>)))"
    by (auto intro!: keeps_upd simp: upd_tx_def)
qed

lemma keeps_upd_stmt [simp]: "keeps (cupd (upd_stmt s f))" "keeps (cupd (\<lambda>c. c\<lparr>cn_stmts := cn_stmts c @ [x]\<rparr>))"
  by (auto intro!: keeps_upd simp: upd_stmt_def stmts)

lemma keeps_tx_begin [simp]: "keeps (tx_begin t)"
proof -
  have "keeps (case tpbForIsolationLevel (t_isolationLevel (cn_heap x ! t)) of
      Inl e \<Rightarrow> Pair (Inl e)
    | Inr tpb \<Rightarrow> cbind (at_wire (opTransaction tpb)) (\<lambda>_. cbind (at_wire op_response_raw) (\<lambda>(h, oid, b, err).
        cbind (cupd (upd_tx t (\<lambda>x. x\<lparr>t_transHandle := h\<rparr>))) (\<lambda>_. case err of Some e \<Rightarrow> cerr e
          | None \<Rightarrow> cupd (\<lambda>c. upd_tx t (\<lambda>x. x\<lparr>t_needBegin := False\<rparr>) (c\<lparr>cn_set := tx_insert t (cn_set c)\<rparr>))))))" for x
    by (auto intro!: keeps_bind split: sum.split option.split)
  from keeps_state [of "\<lambda>x. case tpbForIsolationLevel (t_isolationLevel (cn_heap x ! t)) of
      Inl e \<Rightarrow> Pair (Inl e)
    | Inr tpb \<Rightarrow> cbind (at_wire (opTransaction tpb)) (\<lambda>_. cbind (at_wire op_response_raw) (\<lambda>(h, oid, b, err).
        cbind (cupd (upd_tx t (\<lambda>x. x\<lparr>t_transHandle := h\<rparr>))) (\<lambda>_. case err of Some e \<Rightarrow> cerr e
          | None \<Rightarrow> cupd (\<lambda>c. upd_tx t (\<lambda>x. x\<lparr>t_needBegin := False\<rparr>) (c\<lparr>cn_set := tx_insert t (cn_set c)\<rparr>)))))", OF this]
  show ?thesis unfolding keeps_def tx_begin_def by (auto split: sum.splits)
qed

lemma keeps_tx_end: "keeps (tx_end request mark t)"
proof -
  have "keeps (\<lambda>c. (\<lambda>x. cbind (at_wire (request (t_transHandle (cn_heap x ! t)))) (\<lambda>_.
         cbind (at_wire op_response_raw) (\<lambda>(_, oid, b, err).
         cbind (at_wire (wupd (clearInlineBlobCache (t_transHandle (cn_heap x ! t))))) (\<lambda>_.
         cbind (cupd (\<lambda>c. upd_tx t (\<lambda>x. mark (x\<lparr>t_isAutocommit := cn_isAutocommit c\<rparr>)) c)) (\<lambda>_.
         finish err))))) c c)"
    by (rule keeps_state) (auto intro!: keeps_bind keeps_tx(2) simp del: c_apply)
  then show ?thesis by (simp add: keeps_def tx_end_def Let_def)
qed

lemma keeps_ends [simp]: "keeps (commitRetainging t)" "keeps (tx_Commit t)" "keeps (tx_Rollback t)"
  by (simp_all add: commitRetainging_def tx_Commit_def tx_Rollback_def keeps_tx_end)

lemma keeps_begin_if_needed [simp]: "keeps begin_if_needed"
  using keepsD [OF keeps_tx_begin] unfolding keeps_def begin_if_needed_def
  by (auto simp: stay split: option.split) (metis prod.collapse)

lemma keeps_if: "keeps m \<Longrightarrow> keeps m' \<Longrightarrow> keeps (\<lambda>c. if P c then m c else m' c)"
  by (simp add: keeps_def)

lemma keeps_autocommit [simp]: "keeps autocommit"
  unfolding autocommit_def by (intro keeps_bind keeps_if) (auto intro: keeps_bind)

lemma keeps_with_handle [simp]: "keeps (with_handle m)"
proof -
  have "keeps (\<lambda>c. (\<lambda>x. at_wire (m (t_transHandle (cn_heap x ! t)))) c c)" for t
    by (rule keeps_state) simp
  then show ?thesis unfolding with_handle_def by (intro keeps_bind) simp_all
qed

end

end
