(* ===== verification/Batch_Props.thy ===== *)
theory Batch_Props
  imports Conn_Relation Rows_Props
begin

text \<open>
  The queue of a batch stays within its size whatever is done with it, and what the two answers to a
  batch request do to the stream when the first is an error.
\<close>

subsection \<open>The queue\<close>

text \<open>The count is the bytes waiting; more than the flush size waits only as the row added last.\<close>

definition queue_ok :: "prepared_batch \<Rightarrow> bool" where
  "queue_ok x \<longleftrightarrow> pb_pendingBytes x = int (length (concat (pb_encodedRows x))) \<and>
     (0 < pb_autoFlushSize x \<and> pb_encodedRows x \<noteq> [] \<longrightarrow>
       pb_pendingBytes x \<le> pb_autoFlushSize x \<or> pb_pendingBytes x = int (length (last (pb_encodedRows x))))"

definition queues_ok :: "conn \<Rightarrow> bool" where
  "queues_ok c \<longleftrightarrow> list_all queue_ok (cn_batches c)"

interpretation queues: conn_relation "\<lambda>c d. (queues_ok c \<longrightarrow> queues_ok d) \<and> length (cn_batches d) = length (cn_batches c)"
  by unfold_locales (auto simp: queues_ok_def)

lemma queues_upd: "(\<And>x. queue_ok x \<Longrightarrow> queue_ok (f x)) \<Longrightarrow> queues.keeps (cupd (upd_batch b f))"
proof (rule queues.keeps_upd)
  fix c assume f: "\<And>x. queue_ok x \<Longrightarrow> queue_ok (f x)"
  show "(queues_ok c \<longrightarrow> queues_ok (upd_batch b f c)) \<and> length (cn_batches (upd_batch b f c)) = length (cn_batches c)"
    using f by (cases "b < length (cn_batches c)") (auto simp: queues_ok_def upd_batch_def list_all_length nth_list_update)
qed

lemma queue_simps [simp]:
  "queue_ok (x\<lparr>pb_encodedRows := [], pb_pendingBytes := 0\<rparr>)" "queue_ok (x\<lparr>pb_created := v\<rparr>) = queue_ok x"
  "queue_ok (x\<lparr>pb_closed := v\<rparr>) = queue_ok x" "queue_ok (x\<lparr>pb_stmt := s\<rparr>) = queue_ok x"
  by (simp_all add: queue_ok_def)

lemma enqueue_ok:
  assumes "queue_ok x" "\<not> must_flush x row"
  shows "queue_ok (enqueue row x)"
proof -
  have "pb_pendingBytes x \<ge> 0" using assms(1) by (simp add: queue_ok_def)
  then show ?thesis
    using assms by (auto simp: queue_ok_def enqueue_def must_flush_def)
qed

lemma batch_handle_keeps [simp]: "queues.keeps (batch_handle b m)"
proof -
  have "queues.keeps (\<lambda>c. (\<lambda>x. case pb_stmt (cn_batches x ! b) of None \<Rightarrow> Pair (Inl (Panic ''nil pointer dereference''))
     | Some s \<Rightarrow> at_wire (m (s_stmtHandle (cn_stmts x ! s)))) c c)"
    by (rule queues.keeps_state) (simp split: option.split)
  then show ?thesis by (simp add: queues.keeps_def batch_handle_def split: option.splits)
qed

lemma ensureCreated_keeps [simp]: "queues.keeps (ensureCreated b)"
proof -
  have "queues.keeps (cbind (batch_handle b m) (\<lambda>_. cupd (upd_batch b (\<lambda>x. x\<lparr>pb_created := True\<rparr>))))" for m :: "int32 \<Rightarrow> unit wm"
    by (intro queues.keeps_bind queues_upd) simp_all
  then show ?thesis by (auto simp: queues.keeps_def ensureCreated_def Let_def)
qed

lemma release_batch_keeps [simp]: "queues.keeps (release_batch b)"
  unfolding release_batch_def by (intro queues.keeps_bind queues_upd) simp_all

text \<open>A flush that succeeds leaves the queue empty.\<close>

lemma batch_Flush_keeps [simp]: "queues.keeps (batch_Flush b)"
proof -
  have "queues.keeps (cbind (cupd (upd_batch b (\<lambda>x. x\<lparr>pb_encodedRows := [], pb_pendingBytes := 0\<rparr>))) (\<lambda>_. batch_handle b (\<lambda>h. opBatchMsg h rows)))" for rows
    by (intro queues.keeps_bind queues_upd) simp_all
  then have "queues.keeps (\<lambda>c. let rows = pb_encodedRows (cn_batches c ! b) in
      cbind (cupd (upd_batch b (\<lambda>x. x\<lparr>pb_encodedRows := [], pb_pendingBytes := 0\<rparr>))) (\<lambda>_. batch_handle b (\<lambda>h. opBatchMsg h rows)) c)"
    by (simp add: queues.keeps_def Let_def)
  then have "queues.keeps (cbind (ensureCreated b) (\<lambda>_ c. let rows = pb_encodedRows (cn_batches c ! b) in
      cbind (cupd (upd_batch b (\<lambda>x. x\<lparr>pb_encodedRows := [], pb_pendingBytes := 0\<rparr>))) (\<lambda>_. batch_handle b (\<lambda>h. opBatchMsg h rows)) c))"
    by (intro queues.keeps_bind) simp_all
  then show ?thesis by (auto simp: queues.keeps_def batch_Flush_def)
qed

lemma flushed:
  assumes "batch_Flush b c = (Inr (), d)" "b < length (cn_batches c)"
  shows "pb_encodedRows (cn_batches d ! b) = []"
proof (cases "pb_encodedRows (cn_batches c ! b) = []")
  case True
  then show ?thesis using assms(1) by (simp add: batch_Flush_def split: if_splits)
next
  case False
  then obtain c1 rows where 1: "ensureCreated b c = (Inr (), c1)"
      "batch_handle b (\<lambda>h. opBatchMsg h rows) (upd_batch b (\<lambda>x. x\<lparr>pb_encodedRows := [], pb_pendingBytes := 0\<rparr>) c1) = (Inr (), d)"
    using assms(1) by (auto simp: batch_Flush_def cbind_def Let_def split: if_splits prod.splits sum.splits)
  have "length (cn_batches c1) = length (cn_batches c)" using queues.keepsD [OF ensureCreated_keeps 1(1)] by simp
  moreover have "cn_batches d = cn_batches (upd_batch b (\<lambda>x. x\<lparr>pb_encodedRows := [], pb_pendingBytes := 0\<rparr>) c1)"
    using 1(2) by (auto simp: batch_handle_def at_wire_def split: option.splits prod.splits)
  ultimately show ?thesis using assms(2) by (simp add: upd_batch_def)
qed

lemma batch_Add_keeps: "queues.keeps (batch_Add ne b args)"
  unfolding queues.keeps_def
proof
  fix c
  show "(queues_ok c \<longrightarrow> queues_ok (snd (batch_Add ne b args c))) \<and> length (cn_batches (snd (batch_Add ne b args c))) = length (cn_batches c)"
  proof (cases "pb_closed (cn_batches c ! b) \<or> (\<exists>e. batch_row ne b args c = Inl e)")
    case True
    then show ?thesis by (auto simp: batch_Add_def)
  next
    case False
    then obtain row where row: "\<not> pb_closed (cn_batches c ! b)" "batch_row ne b args c = Inr row" by (cases "batch_row ne b args c") auto
    obtain r d where f: "(if must_flush (cn_batches c ! b) row then batch_Flush b c else (Inr (), c)) = (r, d)" by force
    then have k: "queues_ok c \<longrightarrow> queues_ok d" "length (cn_batches d) = length (cn_batches c)"
      using queues.keepsD [OF batch_Flush_keeps, of b c r d] by (auto split: if_splits)
    show ?thesis
    proof (cases r)
      case (Inl e)
      then show ?thesis using k row f by (simp add: batch_Add_def cbind_def split: if_splits)
    next
      case (Inr u)
      have a: "snd (batch_Add ne b args c) = upd_batch b (enqueue row) d"
        using row f Inr by (simp add: batch_Add_def cbind_def split: if_splits)
      have "queue_ok (enqueue row (cn_batches d ! b))" if "queues_ok c" "b < length (cn_batches c)"
      proof (rule enqueue_ok)
        show ok: "queue_ok (cn_batches d ! b)" using k that by (simp add: queues_ok_def list_all_length)
        show "\<not> must_flush (cn_batches d ! b) row"
        proof (cases "must_flush (cn_batches c ! b) row")
          case True
          then have "pb_encodedRows (cn_batches d ! b) = []" using f Inr flushed [of b c d] that by simp
          then show ?thesis using ok by (simp add: queue_ok_def must_flush_def)
        qed (use f in simp)
      qed
      then show ?thesis
        using k by (cases "b < length (cn_batches c)") (auto simp: a upd_batch_def queues_ok_def list_all_length nth_list_update)
    qed
  qed
qed

lemma finish_batch_keeps [simp]: "queues.keeps (finish_batch e)"
proof -
  have "queues.keeps (\<lambda>c. if \<not> t_isAutocommit (cn_heap c ! t) then Pair (Inr e) c
     else if e \<noteq> None then cbind (ctry (tx_Rollback t)) (\<lambda>_. cret e) c
     else cbind (ctry (commitRetainging t)) (\<lambda>r. cret (map_option CommitError (errof r))) c)" for t
    by (intro queues.keeps_if queues.keeps_bind) simp_all
  then show ?thesis unfolding finish_batch_def by (intro queues.keeps_bind) simp_all
qed

lemma batch_Exec_keeps: "queues.keeps (batch_Exec b)"
proof -
  have t: "queues.keeps (case r of Inl e \<Rightarrow> cerr e
      | Inr completion \<Rightarrow> cbind (finish_batch (row_errors completion)) (\<lambda>e. cret (batch_result_of completion, e)))" for r
    by (auto intro!: queues.keeps_bind split: sum.split)
  have "queues.keeps (cbind (batch_handle b m) (\<lambda>_. cbind (ctry (at_wire opBatchCompletion)) (\<lambda>r. cbind (release_batch b) (\<lambda>_.
      case r of Inl e \<Rightarrow> cerr e
      | Inr completion \<Rightarrow> cbind (finish_batch (row_errors completion)) (\<lambda>e. cret (batch_result_of completion, e))))))" for m :: "int32 \<Rightarrow> unit wm"
    by (intro queues.keeps_bind t) simp_all
  then have x: "queues.keeps (\<lambda>c. cbind (batch_handle b (\<lambda>h. opBatchExec h (t_transHandle (cn_heap c ! t)))) (\<lambda>_.
      cbind (ctry (at_wire opBatchCompletion)) (\<lambda>r. cbind (release_batch b) (\<lambda>_.
      case r of Inl e \<Rightarrow> cerr e
      | Inr completion \<Rightarrow> cbind (finish_batch (row_errors completion)) (\<lambda>e. cret (batch_result_of completion, e))))) c)" for t
    by (simp add: queues.keeps_def)
  have "queues.keeps (cbind the_tx (\<lambda>t c. cbind (batch_handle b (\<lambda>h. opBatchExec h (t_transHandle (cn_heap c ! t)))) (\<lambda>_.
      cbind (ctry (at_wire opBatchCompletion)) (\<lambda>r. cbind (release_batch b) (\<lambda>_.
      case r of Inl e \<Rightarrow> cerr e
      | Inr completion \<Rightarrow> cbind (finish_batch (row_errors completion)) (\<lambda>e. cret (batch_result_of completion, e))))) c))"
    by (intro queues.keeps_bind x) simp_all
  then have "queues.keeps (\<lambda>c. if \<not> pb_created (cn_batches c ! b) then (Inr (\<lparr> br_Affected = 0, br_UpdateCounts = [] \<rparr>, None), c)
      else cbind the_tx (\<lambda>t c. cbind (batch_handle b (\<lambda>h. opBatchExec h (t_transHandle (cn_heap c ! t)))) (\<lambda>_.
      cbind (ctry (at_wire opBatchCompletion)) (\<lambda>r. cbind (release_batch b) (\<lambda>_.
      case r of Inl e \<Rightarrow> cerr e
      | Inr completion \<Rightarrow> cbind (finish_batch (row_errors completion)) (\<lambda>e. cret (batch_result_of completion, e))))) c) c)"
    by (simp add: queues.keeps_def)
  from queues.keeps_bind [OF batch_Flush_keeps this] show ?thesis by (simp add: queues.keeps_def batch_Exec_def)
qed

lemma freeStatement_keeps [simp]: "queues.keeps (freeStatement s mode)"
proof -
  have "queues.keeps (cbind (ctry (at_wire m)) (\<lambda>_. cupd (upd_batch b (\<lambda>x. x\<lparr>pb_created := False\<rparr>))))" for m :: "unit wm" and b
    by (intro queues.keeps_bind queues_upd) simp_all
  then have r: "queues.keeps (releaseBeforeFree b)" for b
    by (simp add: queues.keeps_def releaseBeforeFree_def split: option.split)
  have "queues.keeps (cbind (releaseBeforeFree b) (\<lambda>_. cupd (upd_stmt s (\<lambda>x. x\<lparr>s_activeBatch := None\<rparr>))))" for b
    by (intro queues.keeps_bind r) simp
  then have a: "queues.keeps (release_active s mode)"
    by (simp add: queues.keeps_def release_active_def split: option.split)
  have "queues.keeps (cbind (at_wire m) (\<lambda>_. cbind (at_wire free_answer) (\<lambda>err. cbind autocommit (\<lambda>_. finish err))))" for m :: "unit wm"
    by (intro queues.keeps_bind) simp_all
  then have "queues.keeps (\<lambda>c. cbind (at_wire (opFreeStatement (s_stmtHandle (cn_stmts c ! s)) mode)) (\<lambda>_.
      cbind (at_wire free_answer) (\<lambda>err. cbind autocommit (\<lambda>_. finish err))) c)"
    by (simp add: queues.keeps_def)
  from queues.keeps_bind [OF a this] show ?thesis by (simp add: freeStatement_def)
qed

lemma stmt_Close_keeps [simp]: "queues.keeps (stmt_Close s)"
proof -
  have "queues_ok (upd_stmt s f d) = queues_ok d" "cn_batches (upd_stmt s f d) = cn_batches d" for f d
    by (simp_all add: queues_ok_def upd_stmt_def)
  then show ?thesis
    using freeStatement_keeps [of s DSQL_drop] by (simp add: queues.keeps_def stmt_Close_def split: prod.split) (metis snd_conv)
qed

lemma batch_Cancel_keeps [simp]: "queues.keeps (batch_Cancel b)"
proof -
  have "queues.keeps (\<lambda>c. if \<not> pb_created (cn_batches c ! b) then (Inr (), c) else cbind (release_batch b) (\<lambda>r. finish (errof r)) c)"
  proof -
    have "queues.keeps (cbind (release_batch b) (\<lambda>r. finish (errof r)))"
      by (intro queues.keeps_bind) simp_all
    then show ?thesis by (simp add: queues.keeps_def)
  qed
  from queues.keeps_bind [OF _ this, of "cupd (upd_batch b (\<lambda>x. x\<lparr>pb_encodedRows := [], pb_pendingBytes := 0\<rparr>))"]
  have "queues.keeps (cbind (cupd (upd_batch b (\<lambda>x. x\<lparr>pb_encodedRows := [], pb_pendingBytes := 0\<rparr>))) (\<lambda>_ c.
      if \<not> pb_created (cn_batches c ! b) then (Inr (), c) else cbind (release_batch b) (\<lambda>r. finish (errof r)) c))"
    using queues_upd [of "\<lambda>x. x\<lparr>pb_encodedRows := [], pb_pendingBytes := 0\<rparr>" b] by simp
  then show ?thesis by (auto simp: queues.keeps_def batch_Cancel_def)
qed

lemma batch_Close_keeps: "queues.keeps (batch_Close b)"
proof -
  have "queues.keeps (cbind (cupd (upd_stmt s (\<lambda>x. x\<lparr>s_activeBatch := None\<rparr>))) (\<lambda>_. cbind (ctry (stmt_Close s)) (\<lambda>r.
      cbind (cupd (upd_batch b (\<lambda>x. x\<lparr>pb_stmt := None\<rparr>))) (\<lambda>_. finish (errof r)))))" for s
    by (intro queues.keeps_bind queues_upd) simp_all
  then have t: "queues.keeps (\<lambda>c. case pb_stmt (cn_batches c ! b) of None \<Rightarrow> (Inr (), c)
      | Some s \<Rightarrow> cbind (cupd (upd_stmt s (\<lambda>x. x\<lparr>s_activeBatch := None\<rparr>))) (\<lambda>_. cbind (ctry (stmt_Close s)) (\<lambda>r.
          cbind (cupd (upd_batch b (\<lambda>x. x\<lparr>pb_stmt := None\<rparr>))) (\<lambda>_. finish (errof r)))) c)"
    by (simp add: queues.keeps_def split: option.split)
  have "queues.keeps (cbind (ctry (batch_Cancel b)) (\<lambda>_. cbind (cupd (upd_batch b (\<lambda>x. x\<lparr>pb_closed := True\<rparr>))) (\<lambda>_ c.
      case pb_stmt (cn_batches c ! b) of None \<Rightarrow> (Inr (), c)
      | Some s \<Rightarrow> cbind (cupd (upd_stmt s (\<lambda>x. x\<lparr>s_activeBatch := None\<rparr>))) (\<lambda>_. cbind (ctry (stmt_Close s)) (\<lambda>r.
          cbind (cupd (upd_batch b (\<lambda>x. x\<lparr>pb_stmt := None\<rparr>))) (\<lambda>_. finish (errof r)))) c)))"
    by (intro queues.keeps_bind t queues_upd) simp_all
  then show ?thesis by (simp add: queues.keeps_def batch_Close_def)
qed

subsection \<open>Any use of a batch\<close>

datatype batch_op = BAdd nat "go_any list" | BFlush nat | BExec nat | BCancel nat | BClose nat | BNet wire_protocol

fun batch_step :: "num_env \<Rightarrow> batch_op \<Rightarrow> conn \<Rightarrow> conn" where
  "batch_step ne (BAdd b args) c = snd (batch_Add ne b args c)"
| "batch_step ne (BFlush b) c = snd (batch_Flush b c)"
| "batch_step ne (BExec b) c = snd (batch_Exec b c)"
| "batch_step ne (BCancel b) c = snd (batch_Cancel b c)"
| "batch_step ne (BClose b) c = snd (batch_Close b c)"
| "batch_step ne (BNet p) c = c\<lparr>cn_wp := p\<rparr>"

interpretation batches: machine "batch_step ne" "\<lambda>c. queues_ok c \<and> length (cn_batches c) = n" for ne n
proof
  fix c op assume a: "queues_ok c \<and> length (cn_batches c) = n"
  note k = batch_Add_keeps batch_Flush_keeps batch_Exec_keeps batch_Cancel_keeps batch_Close_keeps
  show "queues_ok (batch_step ne op c) \<and> length (cn_batches (batch_step ne op c)) = n"
  proof (cases op)
    case (BNet p)
    then show ?thesis using a by (simp add: queues_ok_def)
  qed (use a k [unfolded queues.keeps_def] in simp_all)
qed

text \<open>C36: Whatever rows are added and however a batch is flushed, executed, cancelled and closed, whatever
  the server answers, the pending bytes are those of the rows that wait, and never more than the
  flush size unless the row added last is by itself longer.\<close>

theorem pending_bytes_bounded:
  assumes "queues_ok c" "b < length (cn_batches c)"
  shows "let d = run_ops (batch_step ne) ops c; x = cn_batches d ! b in
    PendingBytes b d = int (length (concat (pb_encodedRows x))) \<and>
    (0 < pb_autoFlushSize x \<and> pb_encodedRows x \<noteq> [] \<longrightarrow>
      PendingBytes b d \<le> max (pb_autoFlushSize x) (int (length (last (pb_encodedRows x)))))"
proof -
  define d where "d = run_ops (batch_step ne) ops c"
  have "queues_ok d" "length (cn_batches d) = length (cn_batches c)"
    using batches.run_inv [of c "length (cn_batches c)" ne ops] assms(1) by (simp_all add: d_def)
  then have "queue_ok (cn_batches d ! b)" using assms(2) by (simp add: queues_ok_def list_all_length)
  then show ?thesis by (auto simp: PendingBytes_def queue_ok_def Let_def simp flip: d_def)
qed

definition sample_batch :: conn where
  "sample_batch = sample_query\<lparr>cn_stmts := [(new_stmt ''insert'')\<lparr>s_stmtHandle := 3, s_inputXsqlda := Some [zero_var\<lparr>sqltype := SQL_TYPE_LONG\<rparr>]\<rparr>],
     cn_batches := [new_batch 0 \<lparr> bo_BufferBytes = 0, bo_ContinueOnError = False, bo_DetailedErrors = 1, bo_RecordCounts = True \<rparr> [] 8]\<rparr>"

lemma sample_batch_simps [simp]:
  "cn_batches sample_batch = [new_batch 0 \<lparr> bo_BufferBytes = 0, bo_ContinueOnError = False, bo_DetailedErrors = 1, bo_RecordCounts = True \<rparr> [] 8]"
  "input_vars (cn_stmts sample_batch ! 0) = [zero_var\<lparr>sqltype := SQL_TYPE_LONG\<rparr>]" "cn_wp sample_batch = sample_wire"
  by (simp_all add: sample_batch_def input_vars_def)

text \<open>A row of eight bytes and one of four, a null, wait; an addition with no arguments adds none.\<close>

theorem pending_bytes_bounded_witness:
  "PendingBytes 0 (run_ops (batch_step sample_num) [BAdd 0 [AInt KInt 5], BAdd 0 [ANil], BAdd 0 []] sample_batch) = 12"
proof -
  let ?x = "zero_var\<lparr>sqltype := SQL_TYPE_LONG\<rparr>"
  have n: "null_bytes [False] = [0, 0, 0, 0]" "null_bytes [True] = [1, 0, 0, 0]" by code_simp+
  have "encodeBatchField sample_num sample_wire ?x (AInt KInt 5) = Inr (bint32_to_bytes 5)"
    by (simp add: encodeBatchField_def Let_def wrap64_def)
  then have r: "encodeBatchRow sample_num sample_wire [?x] [AInt KInt 5] = Inr ([0, 0, 0, 0] @ bint32_to_bytes 5)"
    "encodeBatchRow sample_num sample_wire [?x] [ANil] = Inr [1, 0, 0, 0]"
    by (simp_all add: encodeBatchRow_def n field_slot_def Let_def)
  have rows: "pb_encodedRows (cn_batches (run_ops (batch_step sample_num) [BAdd 0 [AInt KInt 5], BAdd 0 [ANil], BAdd 0 []] sample_batch) ! 0) =
      [[0, 0, 0, 0] @ bint32_to_bytes 5, [1, 0, 0, 0]]"
    using r by (simp add: batch_Add_def batch_row_def batch_vars_def new_batch_def must_flush_def enqueue_def upd_batch_def
        defaultPreparedBatchFlushSize_def bint32_codec.enc_length)
  have "queues_ok sample_batch" by (simp add: queues_ok_def queue_ok_def new_batch_def)
  from pending_bytes_bounded [OF this, of 0 sample_num "[BAdd 0 [AInt KInt 5], BAdd 0 [ANil], BAdd 0 []]"] show ?thesis
    unfolding Let_def rows by (simp add: bint32_codec.enc_length)
qed

subsection \<open>A refused request\<close>

lemma calm_refusal:
  assumes "calm p" "response_fits r" "clause_codes (r_status r) \<noteq> []"
  shows "\<exists>e. opResponse (feed (response_bytes r @ rest) p) = (Inl e, feed rest p)"
proof -
  obtain e where "sv_error (p_env p) (vector_meaning (p_env p) (r_status r)) = Some e"
    using vector_meaning_codes(1) [where env = "p_env p" and cs = "r_status r"] assms(3)
      sv_error_None [of "p_env p" "vector_meaning (p_env p) (r_status r)"] by fastforce
  then show ?thesis
    using op_response_frames [of "[]" r p 0 rest] assms(1,2) by (simp add: dummies_def lazy_self calm_def opResponse_def wbind_def)
qed

definition refused :: "response \<Rightarrow> bool" where
  "refused r \<longleftrightarrow> response_fits r \<and> clause_codes (r_status r) \<noteq> []"

lemma refused_rows:
  assumes "calm p" "refused r"
  shows "\<exists>e q. opBatchMsg h rows (feed (response_bytes r @ rest) p) = (Inl e, feed rest q) \<and> calm q"
proof -
  let ?x = "response_bytes r @ rest" and ?m = "FInt op_batch_msg # FInt h # FInt (word_of_int (int (length rows))) # map batch_row_field rows"
  define q1 where "q1 = sent (concat (map field_bytes ?m)) p"
  define w :: int32 where "w = (if p_protocolVersion (feed ?x q1) \<ge> PROTOCOL_VERSION17 then op_batch_sync else op_ping)"
  have w: "(if p_protocolVersion (feed ?x q1) \<ge> PROTOCOL_VERSION17 then send_fields [FInt op_batch_sync] (feed ?x q1) else opPing (feed ?x q1)) =
      send_fields [FInt w] (feed ?x q1)"
    by (simp add: opPing_def w_def)
  define q where "q = sent (bint32_to_bytes w) q1"
  have calm: "calm q1" "calm q" using assms(1) by (simp_all add: q_def q1_def)
  have "send_fields ?m (feed ?x p) = (Inr (), feed ?x q1)"
    using assms(1) calm_send [of "feed ?x p"] by (simp add: q1_def)
  moreover have "send_fields [FInt w] (feed ?x q1) = (Inr (), feed ?x q)"
    using calm(1) calm_send [of "feed ?x q1"] by (simp add: q_def)
  moreover obtain e where "receiveTwoResponses (feed ?x q) = (Inl e, feed rest q)"
    using calm_refusal [of q r rest] calm(2) assms(2) by (auto simp: refused_def receiveTwoResponses_def wbind_def)
  ultimately have "opBatchMsg h rows (feed ?x p) = (Inl e, feed rest q)"
    using w by (simp add: opBatchMsg_def wbind_def)
  then show ?thesis using calm(2) by blast
qed

text \<open>C37: A refused batch message loses step with the server: of the two answers owed, the second is not
  read when the first is an error, so the flush fails and leaves it in the stream, and the commit that
  follows takes it for its own and succeeds, whatever the server says of the commit.\<close>

theorem refused_rows_shift_answers:
  assumes "calm (cn_wp c)" "b < length (cn_batches c)" "\<not> pb_closed (cn_batches c ! b)" "pb_created (cn_batches c ! b)"
    and "pb_encodedRows (cn_batches c ! b) \<noteq> []" "pb_stmt (cn_batches c ! b) = Some s" "refused r" "fine_reply a"
  shows "\<exists>e d d'. batch_Flush b (fed (response_bytes r @ response_bytes a @ answer) c) = (Inl e, d) \<and>
    tx_Commit t d = (Inr (), d') \<and> p_inbound (cn_wp d') = answer"
proof -
  let ?c = "upd_batch b (\<lambda>x. x\<lparr>pb_encodedRows := [], pb_pendingBytes := 0\<rparr>) c"
  have f: "cn_wp (upd_batch b f c) = cn_wp c" "cn_batches (fed x c) = cn_batches c"
    "upd_batch b f (fed x c) = fed x (upd_batch b f c)" "cn_stmts (upd_batch b f c) = cn_stmts c" for f x
    by (simp_all add: upd_batch_def fed_def)
  have s: "pb_stmt (cn_batches ?c ! b) = Some s" using assms(2,6) by (simp add: upd_batch_def)
  obtain e q where e: "opBatchMsg (s_stmtHandle (cn_stmts c ! s)) (pb_encodedRows (cn_batches c ! b))
      (feed (response_bytes r @ response_bytes a @ answer) (cn_wp c)) = (Inl e, feed (response_bytes a @ answer) q)" "calm q"
    using refused_rows [OF assms(1,7)] by blast
  have "batch_Flush b (fed (response_bytes r @ response_bytes a @ answer) c) = (Inl e, fed (response_bytes a @ answer) (?c\<lparr>cn_wp := q\<rparr>))"
    using assms(2-6) e s by (simp add: batch_Flush_def ensureCreated_def Let_def f batch_handle_def) (simp add: at_wire_def fed_def f)
  moreover have "calm (cn_wp (?c\<lparr>cn_wp := q\<rparr>))" using e(2) by simp
  ultimately show ?thesis
    using tx_end_fine(1) [OF _ assms(8), of "?c\<lparr>cn_wp := q\<rparr>" t answer] by (auto simp: fed_def)
qed

definition sample_refusal :: response where
  "sample_refusal = \<lparr> r_handle = 0, r_oid = replicate 8 0, r_data = [], r_status = [ClGds 335544665] \<rparr>"

text \<open>The server refuses the commit too; the commit succeeds and that refusal is not read.\<close>

theorem refused_rows_shift_answers_witness:
  "\<exists>e d d'. batch_Flush 0 (fed (response_bytes sample_refusal @ response_bytes sample_answer @ response_bytes sample_refusal)
      (sample_batch\<lparr>cn_batches := [enqueue [0, 0, 0, 0, 0, 0, 0, 5] (hd (cn_batches sample_batch)\<lparr>pb_created := True\<rparr>)]\<rparr>)) = (Inl e, d) \<and>
    tx_Commit 0 d = (Inr (), d') \<and> p_inbound (cn_wp d') = response_bytes sample_refusal"
proof -
  have "refused sample_refusal" by (simp add: refused_def sample_refusal_def response_fits_def clause_codes_def)
  then show ?thesis
    by (intro refused_rows_shift_answers [where s = 0]) (simp_all add: enqueue_def new_batch_def)
qed

end
