(* ===== verification/Batch_Trip.thy ===== *)
theory Batch_Trip
  imports Batch Params_Props
begin

text \<open>
  What the rows of a batch look like to a server: rows of the kind it sends itself, whatever is in
  their padding; numbers arrive as the unscaled contents of their columns and texts cut to size.
\<close>

subsection \<open>Rows read back\<close>

text \<open>Values a column takes as they are; texts go to text columns of any length.\<close>

fun plain_slot :: "xsqlvar \<Rightarrow> go_any \<Rightarrow> bool" where
  "plain_slot x ANil = True"
| "plain_slot x (AInt k n) = (sqltype x \<in> {SQL_TYPE_SHORT, SQL_TYPE_LONG, SQL_TYPE_INT64})"
| "plain_slot x (AFloat64 w) = (sqltype x = SQL_TYPE_DOUBLE)"
| "plain_slot x (ABool b) = (sqltype x = SQL_TYPE_BOOLEAN)"
| "plain_slot x (AStr s) = (sqltype x \<in> {SQL_TYPE_TEXT, SQL_TYPE_VARYING} \<and> sqlsubtype x \<noteq> 1 \<and>
     0 \<le> sqllen x \<and> sqllen x \<le> maxWirePayload \<and> length s \<le> maxWirePayload)"
| "plain_slot x (ATime t l) = (sqltype x \<in> {SQL_TYPE_DATE, SQL_TYPE_TIMESTAMP} \<and> time_ok (ATime t l))"
| "plain_slot x _ = False"

definition cut_text :: "xsqlvar \<Rightarrow> string \<Rightarrow> string" where
  "cut_text x s = (if sqllen x > 0 \<or> sqltype x = SQL_TYPE_TEXT then take (nat (sqllen x)) s else s)"

text \<open>The number \<open>n\<close> becomes the unscaled contents of the column, at its width.\<close>

definition slot_number :: "xsqlvar \<Rightarrow> int \<Rightarrow> int" where
  "slot_number x n = (if sqltype x = SQL_TYPE_SHORT then sint (word_of_int n :: int16)
     else if sqltype x = SQL_TYPE_LONG then sint (word_of_int n :: int32) else wrap64 n)"

fun slot_value :: "go_loc \<Rightarrow> xsqlvar \<Rightarrow> go_any \<Rightarrow> go_value res" where
  "slot_value loc x (AInt k n) = scaledIntValue x (slot_number x n)"
| "slot_value loc x (AFloat64 w) = Inr (VFloat w)"
| "slot_value loc x (ABool b) = Inr (VBool b)"
| "slot_value loc x (AStr s) = Inr (VStr (if sqltype x = SQL_TYPE_TEXT then trim_right_blank (cut_text x s) else cut_text x s))"
| "slot_value loc x (ATime t l) = Inr (VDate
     (if sqltype x = SQL_TYPE_DATE then t\<lparr>t_hour := 0, t_minute := 0, t_second := 0, t_nanosecond := 0\<rparr>
      else t\<lparr>t_nanosecond := t_nanosecond t div 100000 * 100000\<rparr>) loc)"
| "slot_value loc x _ = Inr VNil"

fun slot_values :: "go_loc \<Rightarrow> xsqlvar list \<Rightarrow> go_any list \<Rightarrow> go_value list res" where
  "slot_values loc (x # xs) (a # as) = bind_res (slot_value loc x a) (\<lambda>v. bind_res (slot_values loc xs as) (\<lambda>vs. Inr (v # vs)))"
| "slot_values loc _ _ = Inr []"

text \<open>The padding of a cell is its reader's to skip, whatever it holds.\<close>

lemma recv_padded:
  assumes "n = int (length b)" "int (length pad) = xdr_padding n"
  shows "recvPacketsAlignment n (feed (b @ pad @ rest) p) = (Inr b, feed rest p)"
  using assms by (simp add: recvPacketsAlignment_eq Let_def nat_add_distrib)

lemma xdr_padding_and: "xdr_padding n = (4 - n) AND 3" if "0 \<le> n" for n :: int
proof -
  have "(4 - n) AND 3 = (4 - n) mod 4"
    using take_bit_eq_mod [of 2 "4 - n"] by (simp add: take_bit_eq_mask mask_eq_exp_minus_1)
  then show ?thesis by (simp add: xdr_padding_def) presburger
qed

lemma length_pad4: "0 \<le> n \<Longrightarrow> int (length (pad4 n b)) = xdr_padding n"
  using xdr_padding_range [of n] by (simp add: pad4_def flip: xdr_padding_and)

text \<open>A column that is \<open>raw\<close> with any padding, and the value its reader gets.\<close>

definition reads_slot :: "time_env \<Rightarrow> wire_protocol \<Rightarrow> xsqlvar \<Rightarrow> bytes \<Rightarrow> go_value \<Rightarrow> bool" where
  "reads_slot te p x slot v \<longleftrightarrow>
     (\<forall>rest. wbind (recv_column x) (wire_value te x) (feed (slot @ rest) p) = (Inr v, feed rest p))"

lemma reads_slotI:
  assumes "column_value (p_env p) te (p_timezone p) (p_charset p) x raw = Inr v" "length raw \<le> maxWirePayload"
    and "slot = (if ioLength x < 0 then bint32_to_bytes (word_of_int (int (length raw))) else []) @ raw @ pad"
    and "0 \<le> ioLength x \<Longrightarrow> int (length raw) = ioLength x"
    and "int (length pad) = xdr_padding (int (length raw))"
  shows "reads_slot te p x slot v"
proof -
  have l: "length raw < 2 ^ 31" using assms(2) by simp
  have "recv_column x (feed (slot @ rest) p) = (Inr raw, feed rest p)" for rest
    using assms(2-5) recv_padded [of "int (length raw)" raw pad rest p]
    by (cases "ioLength x < 0") (auto simp: recv_column_def wbind_def sint_length32 [OF l] simp del: of_int_of_nat_eq)
  then show ?thesis using assms(1) by (simp add: reads_slot_def wbind_def wire_value_enc)
qed

lemma narrow_wrap64: "(word_of_int (wrap64 n) :: int32) = word_of_int n" "(ucast (word_of_int n :: int32) :: int16) = word_of_int n"
  by (rule bit_word_eqI; simp add: wrap64_def bit_word_of_int_iff bit_ucast_iff bit_signed_take_bit_iff sint_sbintrunc' min_def)+

lemma slot_reads:
  assumes "plain_session te loc p" "plain_slot x a" "a \<noteq> ANil" "slot_value loc x a = Inr v"
  shows "\<exists>fb slot. encodeBatchField ne p x a = Inr fb \<and> field_slot x fb = Inr slot \<and> reads_slot te p x slot v"
proof -
  have cs: "p_charset p = ''UTF8''" "\<And>s. encodeString s p = s" "load_zone te (p_timezone p) = Some loc"
    using assms(1) by (simp_all add: plain_session_def)
  note c = encodeBatchField_def field_slot_def Let_def ioLength_def lookup_or_def xsqlvarTypeLength_def column_value_def
  have pad0: "int (length []) = xdr_padding 4" "int (length []) = xdr_padding 8" by (simp_all add: xdr_padding_def)
  show ?thesis
  proof (cases a)
    case (AInt k n)
    then consider "sqltype x = SQL_TYPE_SHORT" | "sqltype x = SQL_TYPE_LONG" | "sqltype x = SQL_TYPE_INT64"
      using assms(2) by auto
    then show ?thesis
    proof cases
      case 1
      then have "reads_slot te p x (bint32_to_bytes (word_of_int (wrap64 n))) v"
        using assms(4) AInt pad0
        by (intro reads_slotI [where raw = "bint32_to_bytes (word_of_int (wrap64 n))" and pad = "[]"])
          (auto simp: c bint32_codec.enc_length bint32_codec.dec_enc_Nil slot_number_def narrow_wrap64)
      then show ?thesis using 1 AInt by (simp add: c)
    next
      case 2
      then have "reads_slot te p x (bint32_to_bytes (word_of_int (wrap64 n))) v"
        using assms(4) AInt pad0
        by (intro reads_slotI [where raw = "bint32_to_bytes (word_of_int (wrap64 n))" and pad = "[]"])
          (auto simp: c bint32_codec.enc_length bint32_codec.dec_enc_Nil slot_number_def narrow_wrap64)
      then show ?thesis using 2 AInt by (simp add: c)
    next
      case 3
      then have "reads_slot te p x (bint64_to_bytes (word_of_int (wrap64 n))) v"
        using assms(4) AInt pad0
        by (intro reads_slotI [where raw = "bint64_to_bytes (word_of_int (wrap64 n))" and pad = "[]"])
          (auto simp: c bint64_codec.enc_length bint64_codec.dec_enc_Nil slot_number_def wrap64_def)
      then show ?thesis using 3 AInt by (simp add: c)
    qed
  next
    case (AFloat64 w)
    then have t: "sqltype x = SQL_TYPE_DOUBLE" using assms(2) by simp
    then have "reads_slot te p x (bint64_to_bytes w) v"
      using assms(4) AFloat64 pad0 be_val_word64 [of w]
      by (intro reads_slotI [where raw = "bint64_to_bytes w" and pad = "[]"])
        (auto simp: c bint64_codec.enc_length read_float64_def bint64_to_bytes_be)
    then show ?thesis using t AFloat64 by (simp add: c)
  next
    case (ABool b)
    then have t: "sqltype x = SQL_TYPE_BOOLEAN" using assms(2) by simp
    then have "reads_slot te p x ([if b then 1 else 0] @ pad4 1 0) v"
      using assms(4) ABool length_pad4 [of 1 0]
      by (intro reads_slotI [where raw = "[if b then 1 else 0]" and pad = "pad4 1 0"]) (auto simp: c go_index_def)
    then show ?thesis using t ABool by (simp add: c)
  next
    case (ATime t l)
    then have ok: "1 \<le> t_year t" "t_year t \<le> 5000000" "valid_date (t_year t) (t_month t) (t_day t)" "valid_time_of_day t"
      using assms(2) by simp_all
    consider "sqltype x = SQL_TYPE_DATE" | "sqltype x = SQL_TYPE_TIMESTAMP" using assms(2) ATime by auto
    then show ?thesis
    proof cases
      case 1
      then have "reads_slot te p x (convert_date t) v"
        using assms(4) ATime pad0 parseDate_convert_date [OF ok(1-3)] cs(3)
        by (intro reads_slotI [where raw = "convert_date t" and pad = "[]"]) (auto simp: c date_value_def go_Date_def)
      then show ?thesis using 1 ATime by (simp add: c)
    next
      case 2
      then have "reads_slot te p x (convert_timestamp t) v"
        using assms(4) ATime pad0 fields_convert_timestamp [OF ok, of "[]"] cs(3)
        by (intro reads_slotI [where raw = "convert_timestamp t" and pad = "[]"])
          (auto simp: c timestamp_value_def go_Date_def convert_timestamp_def)
      then show ?thesis using 2 ATime by (simp add: c)
    qed
  next
    case (AStr s)
    have sub: "sqlsubtype x \<noteq> 1" "0 \<le> sqllen x" "sqllen x \<le> maxWirePayload" "length s \<le> maxWirePayload"
      using assms(2) AStr by simp_all
    consider "sqltype x = SQL_TYPE_TEXT" | "sqltype x = SQL_TYPE_VARYING" using assms(2) AStr by auto
    then show ?thesis
    proof cases
      case 1
      define b where "b = take (nat (sqllen x)) (str_to_bytes s)"
      define raw where "raw = b @ replicate (nat (sqllen x - int (length b))) 0x20"
      have lb: "int (length b) \<le> sqllen x" using sub(2) by (simp add: b_def)
      have lr: "int (length raw) = sqllen x" using lb by (simp add: raw_def)
      have "bytes_to_str raw = cut_text x s @ replicate (nat (sqllen x - int (length b))) (CHR 0x20)"
      proof -
        have "b = str_to_bytes (cut_text x s)" using 1 by (simp add: b_def cut_text_def str_to_bytes_def take_map)
        moreover have "bytes_to_str (replicate n 0x20) = replicate n (CHR 0x20)" for n
        proof -
          have "char_of (32 :: nat) = CHR 0x20" by code_simp
          then show ?thesis by (simp add: bytes_to_str_def)
        qed
        moreover have "bytes_to_str (u @ w) = bytes_to_str u @ bytes_to_str w" for u w by (simp add: bytes_to_str_def)
        ultimately show ?thesis by (simp add: raw_def)
      qed
      then have v: "column_value (p_env p) te (p_timezone p) (p_charset p) x raw = Inr v"
        using 1 assms(4) AStr sub(1) by (auto simp: c text_value_def parseString_def cs trim_right_blanks)
      then have "reads_slot te p x (raw @ pad4 (sqllen x) 0x20) v"
        using 1 lr sub(3) length_pad4 [OF sub(2)]
        by (intro reads_slotI [where raw = raw and pad = "pad4 (sqllen x) 0x20"]) (auto simp: c)
      then show ?thesis
        using 1 AStr sub(2) lb by (cases s) (auto simp: c cs raw_def b_def go_slice_def str_to_bytes_def)
    next
      case 2
      define b where "b = str_to_bytes (cut_text x s)"
      have l: "length b \<le> maxWirePayload" using sub(4) by (auto simp: b_def cut_text_def)
      have "column_value (p_env p) te (p_timezone p) (p_charset p) x b = Inr v"
        using 2 assms(4) AStr sub(1) by (auto simp: c parseString_def cs b_def)
      then have "reads_slot te p x (bint32_to_bytes (word_of_int (int (length b))) @ b @ pad4 (int (length b)) 0x20) v"
        using 2 l length_pad4 [of "int (length b)"]
        by (intro reads_slotI [where raw = b and pad = "pad4 (int (length b)) 0x20"]) (auto simp: c)
      moreover have "encodeBatchField ne p x a = Inr b"
        using 2 AStr by (auto simp: c cs b_def cut_text_def str_to_bytes_def take_map)
      ultimately show ?thesis using 2 by (simp add: c)
    qed
  qed (use assms(2,3) in auto)
qed

lemma bitmap_step:
  assumes "i < length (map P all)"
  shows "row_bitmap te (null_bitmap (map P all)) i (x # xs) q =
    wbind (if P (all ! i) then wret VNil else wbind (recv_column x) (wire_value te x)) (\<lambda>v.
    wbind (row_bitmap te (null_bitmap (map P all)) (Suc i) xs) (\<lambda>vs. wret (v # vs))) q"
  using null_bitmap_bit [OF assms] assms by (cases "P (all ! i)") (auto simp: wbind_def)

lemma slots_read:
  assumes "plain_session te loc p"
  shows "list_all2 plain_slot xs as \<Longrightarrow> slot_values loc xs as = Inr vs \<Longrightarrow> drop i all = as \<Longrightarrow> i + length as = length all \<Longrightarrow>
    \<exists>fbs b. encode_fields ne p (zip xs as) = Inr fbs \<and> field_slots (zip (zip xs as) fbs) = Inr b \<and>
      row_bitmap te (null_bitmap (map (\<lambda>a. a = ANil) all)) i xs (feed (b @ rest) p) = (Inr vs, feed rest p)"
proof (induction xs as arbitrary: i vs rule: list_all2_induct)
  case (Cons x xs a as)
  obtain v vs' where v: "slot_value loc x a = Inr v" "slot_values loc xs as = Inr vs'" "vs = v # vs'"
    using Cons.prems(1) by (auto simp: bind_res_Inr)
  have i: "i < length all" "all ! i = a" "drop (Suc i) all = as"
    using Cons.prems(2,3) hd_drop_conv_nth [of i all] by (auto simp: drop_Suc drop_tl)
  obtain fbs b where b: "encode_fields ne p (zip xs as) = Inr fbs" "field_slots (zip (zip xs as) fbs) = Inr b"
      "row_bitmap te (null_bitmap (map (\<lambda>a. a = ANil) all)) (Suc i) xs (feed (b @ rest) p) = (Inr vs', feed rest p)"
    using Cons.IH [OF v(2) i(3)] Cons.prems(3) by auto
  have step: "row_bitmap te (null_bitmap (map (\<lambda>a. a = ANil) all)) i (x # xs) q =
    wbind (if a = ANil then wret VNil else wbind (recv_column x) (wire_value te x)) (\<lambda>v.
    wbind (row_bitmap te (null_bitmap (map (\<lambda>a. a = ANil) all)) (Suc i) xs) (\<lambda>vs. wret (v # vs))) q" for q
    using bitmap_step [of i "\<lambda>a. a = ANil" all te x xs q] i by simp
  show ?case
  proof (cases "a = ANil")
    case True
    then show ?thesis using b v by (simp add: step wbind_def del: row_bitmap.simps)
  next
    case False
    obtain fb slot where f: "encodeBatchField ne p x a = Inr fb" "field_slot x fb = Inr slot" "reads_slot te p x slot v"
      using slot_reads [OF assms Cons.hyps(1) False v(1)] by blast
    have "wbind (recv_column x) (wire_value te x) (feed (slot @ b @ rest) p) = (Inr v, feed (b @ rest) p)"
      using f(3) by (simp add: reads_slot_def)
    then show ?thesis
      using False b v f(1,2)
      by (intro exI [of _ "fb # fbs"] exI [of _ "slot @ b"]) (simp add: step wbind_def [of "if _ then _ else _"] wbind_def [of "row_bitmap _ _ _ _"] del: row_bitmap.simps)
  qed
qed simp

subsection \<open>Properties\<close>

text \<open>C35: The rows of a batch are read back as rows of the server. From values that suit the columns and a
  plain session, \<open>encodeBatchRow\<close> makes bytes that the driver's own row reader takes off the stream to
  the last: nulls at their places, floats, booleans, dates and timestamps unchanged, texts cut to their column, and numbers
  wrapped to the width of the column and taken as its unscaled contents, so that \<open>12\<close> in a
  \<open>NUMERIC(9,2)\<close> is read back as \<open>0.12\<close>.\<close>

theorem batch_row_reads_back:
  assumes "plain_session te loc p" "PROTOCOL_VERSION16 \<le> p_protocolVersion p"
    and "list_all2 plain_slot xs as" "slot_values loc xs as = Inr vs"
  shows "\<exists>row. encodeBatchRow ne p xs as = Inr row \<and> readRow te xs (feed (row @ rest) p) = (Inr vs, feed rest p)"
proof -
  have l: "length as = length xs" using list_all2_lengthD [OF assms(3)] by simp
  obtain fbs b where b: "encode_fields ne p (zip xs as) = Inr fbs" "field_slots (zip (zip xs as) fbs) = Inr b"
      "row_bitmap te (null_bitmap (map (\<lambda>a. a = ANil) as)) 0 xs (feed (b @ rest) p) = (Inr vs, feed rest p)"
    using slots_read [OF assms(1,3,4), of 0 as ne rest] by auto
  have "(int (length xs) + 7) sdiv 8 = int (length (null_bitmap (map (\<lambda>a. a = ANil) as)))"
    by (simp add: sdiv_nonneg null_bitmap_def l zdiv_int)
  then show ?thesis
    using b assms(2) l by (simp add: encodeBatchRow_def readRow_def wbind_def null_bytes_bitmap)
qed

definition sample_price :: "xsqlvar list" where
  "sample_price = [zero_var\<lparr>sqltype := SQL_TYPE_LONG, sqlscale := - 2\<rparr>, zero_var\<lparr>sqltype := SQL_TYPE_VARYING, sqllen := 2\<rparr>,
     zero_var\<lparr>sqltype := SQL_TYPE_BOOLEAN\<rparr>]"

theorem batch_row_reads_back_witness:
  "\<exists>row. encodeBatchRow sample_num (sample_wire\<lparr>p_protocolVersion := 17\<rparr>) sample_price [AInt KInt 12, AStr ''ink'', ANil] = Inr row \<and>
    readRow oslo_time sample_price (feed (row @ [9]) (sample_wire\<lparr>p_protocolVersion := 17\<rparr>)) =
      (Inr [VStr ''0.12'', VStr ''in'', VNil], feed [9] (sample_wire\<lparr>p_protocolVersion := 17\<rparr>))"
proof -
  have s: "plain_session oslo_time Local (sample_wire\<lparr>p_protocolVersion := 17\<rparr>)"
    by (simp add: plain_session_def sample_wire_def sample_env_def encodeString_def load_zone_def)
  have "slot_values Local sample_price [AInt KInt 12, AStr ''ink'', ANil] = Inr [VStr ''0.12'', VStr ''in'', VNil]" by code_simp
  moreover have "list_all2 plain_slot sample_price [AInt KInt 12, AStr ''ink'', ANil]"
    by (simp add: sample_price_def zero_var_def)
  ultimately show ?thesis
    using batch_row_reads_back [OF s, of sample_price _ _ sample_num "[9]"] by simp
qed

end
