(* ===== verification/Events.thy ===== *)
theory Events
  imports Transactions
begin

text \<open>
  Database events (\<open>remoteEvent.go\<close>, \<open>eventmanager.go\<close>, \<open>subscriber.go\<close>, \<open>event.go\<close>): the event
  buffer and the counts it carries, the messages of the auxiliary connection, its address, and the
  requests of a subscription. Package \<open>netip\<close> is modelled as far as the driver prints an address.
\<close>

abbreviation (input) afInet :: "'a::{numeral}" where "afInet \<equiv> 2"
abbreviation (input) afInet6Linux :: "'a::{numeral}" where "afInet6Linux \<equiv> 10"
abbreviation (input) afInet6Windows :: "'a::{numeral}" where "afInet6Windows \<equiv> 23"
abbreviation (input) afInet6Darwin :: "'a::{numeral}" where "afInet6Darwin \<equiv> 30"

subsection \<open>The event buffer\<close>

text \<open>A count that is not in the map reads as zero.\<close>

definition count_of :: "(string \<rightharpoonup> int) \<Rightarrow> string \<Rightarrow> int" where
  "count_of counts name = (case counts name of Some n \<Rightarrow> n | None \<Rightarrow> 0)"

record remote_event =
  re_id :: int32
  re_rid :: int32
  re_events :: "string list"
  re_counts :: "string \<rightharpoonup> int"
  re_prevCounts :: "string \<rightharpoonup> int"
  re_running :: bool

record event =
  ev_Name :: string
  ev_Count :: int
  ev_ID :: int32
  ev_RemoteID :: int32

definition newRemoteEvent :: remote_event where
  "newRemoteEvent = \<lparr> re_id = 0, re_rid = 0, re_events = [], re_counts = Map.empty, re_prevCounts = Map.empty, re_running = False \<rparr>"

definition maxEpbLength :: int where "maxEpbLength = 65535"

definition maxEventNameLength :: nat where "maxEventNameLength = 255"

definition buildEpbSlice :: "string list \<Rightarrow> (string \<rightharpoonup> int) \<Rightarrow> bytes" where
  "buildEpbSlice events counts =
     EPB_version1 # concat (map (\<lambda>ev. of_nat (length ev) # str_to_bytes ev @ int32_to_bytes (word_of_int (count_of counts ev + 1))) events)"

definition buildEpb :: "remote_event \<Rightarrow> bytes" where
  "buildEpb e = buildEpbSlice (re_events e) (re_counts e)"

definition re_queueEvents :: "string list \<Rightarrow> remote_event \<Rightarrow> go_error option \<times> remote_event" where
  "re_queueEvents events e =
     (if re_running e then (Some (Plain ''events are already running''), e)
      else if events = [] then (Some (Plain ''at least one event is needed''), e)
      else if list_ex (\<lambda>ev. length ev > maxEventNameLength) events then (Some (Plain ''length name events are longer than 255''), e)
      else if int (length (buildEpbSlice events Map.empty)) > maxEpbLength then (Some (Plain ''whole events buffer is bigger than 65535''), e)
      else let zeros = (\<lambda>ev. if ev \<in> set events then Some 0 else None)
        in (None, e\<lparr>re_running := True, re_events := re_events e @ events, re_counts := zeros, re_prevCounts := zeros\<rparr>))"

definition re_cancelEvents :: "remote_event \<Rightarrow> remote_event" where
  "re_cancelEvents e = e\<lparr>re_events := [], re_counts := Map.empty, re_prevCounts := Map.empty, re_running := False\<rparr>"

text \<open>The records of a buffer; what was read before an error stays read.\<close>

function scan_counts :: "bytes \<Rightarrow> (string \<rightharpoonup> int) \<Rightarrow> unit res \<times> (string \<rightharpoonup> int)" where
  "scan_counts [] counts = (Inr (), counts)"
| "scan_counts (n # data) counts =
     (if unat n > length data then (Inl (Plain ''firebirdsql: event name length %d exceeds buffer''), counts)
      else let name = bytes_to_str (take (unat n) data); rest = drop (unat n) data in
        if length rest < 4 then (Inl (Plain ''firebirdsql: event count truncated for %q''), counts)
        else if name \<in> dom counts then
          (case bytes_to_int32 rest of
             Inl e \<Rightarrow> (Inl e, counts)
           | Inr w \<Rightarrow> scan_counts (drop 4 rest) (counts(name \<mapsto> sint (w - 1))))
        else scan_counts (drop 4 rest) counts)"
  by pat_completeness auto
termination by (relation "measure (length \<circ> fst)") auto

definition report :: "remote_event \<Rightarrow> string \<Rightarrow> event option" where
  "report e name =
     (let count = count_of (re_counts e) name - count_of (re_prevCounts e) name
      in if count = 0 then None
         else Some \<lparr> ev_Name = name, ev_Count = count, ev_ID = re_id e, ev_RemoteID = re_rid e \<rparr>)"

definition getEventCounts :: "bytes \<Rightarrow> remote_event \<Rightarrow> event list res \<times> remote_event" where
  "getEventCounts data e =
     (if data = [] \<or> hd data \<noteq> EPB_version1
      then (Inl (Plain ''firebirdsql: malformed event buffer (bad or missing version byte)''), e)
      else let (r, counts) = scan_counts (tl data) (map_option (\<lambda>_. 0) \<circ> re_counts e);
               e = e\<lparr>re_prevCounts := re_counts e, re_counts := counts\<rparr>
           in case r of Inl err \<Rightarrow> (Inl err, e) | Inr _ \<Rightarrow> (Inr (List.map_filter (report e) (re_events e)), e))"

subsection \<open>Messages of the auxiliary connection\<close>

definition event_buffer :: "bytes wm" where
  "event_buffer =
     wbind recv_int (\<lambda>_.
     wbind recv_int (\<lambda>sz.
     if sint sz < 0 \<or> sint sz > maxEpbLength then werr (Plain ''firebirdsql: event buffer size %d out of range'')
     else wbind (recvPacketsAlignment (sint sz)) (\<lambda>buffer.
          wbind (recvPackets 8) (\<lambda>_.
          wbind recv_int (\<lambda>_. wret buffer)))))"

text \<open>One turn of the loop; an unknown operation is passed over.\<close>

definition event_message :: "remote_event \<Rightarrow> (event list \<times> remote_event) wm" where
  "event_message e =
     wbind recv_int (\<lambda>w.
     if w = op_event then
       wbind event_buffer (\<lambda>buffer. let (r, e) = getEventCounts buffer e in wbind (wlift r) (\<lambda>evs. wret (evs, e)))
     else wret ([], e))"

lemma reads_event_buffer [simp]: "reads event_buffer"
  unfolding event_buffer_def by (auto intro!: reads_bind)

lemma event_message_less:
  assumes "event_message e p = (Inr (evs, e'), p')"
  shows "length (p_inbound p') < length (p_inbound p)"
proof -
  obtain w p1 where w: "recv_int p = (Inr w, p1)" using assms by (cases "recv_int p", cases "fst (recv_int p)") (auto simp: event_message_def wbind_def)
  have l: "length (p_inbound p1) < length (p_inbound p)" using w by (auto simp: recv_int_eq split: if_splits)
  show ?thesis
  proof (cases "w = op_event")
    case False
    then show ?thesis using assms w l by (simp add: event_message_def wbind_def)
  next
    case True
    obtain r p2 where b: "event_buffer p1 = (r, p2)" by force
    have "length (p_inbound p2) \<le> length (p_inbound p1)" using reads_le [OF reads_event_buffer, of p1] b by simp
    moreover have "p' = p2"
      using assms w b True by (cases r) (auto simp: event_message_def wbind_def wlift_def split: prod.splits sum.splits)
    ultimately show ?thesis using l by simp
  qed
qed

text \<open>The loop ends with the error it puts into its channel; the events are those it sends on the way.\<close>

function event_wait :: "remote_event \<Rightarrow> wire_protocol \<Rightarrow> (event list \<times> go_error \<times> remote_event) \<times> wire_protocol" where
  "event_wait e p =
     (case event_message e p of
        (Inl err, p) \<Rightarrow> (([], err, e), p)
      | (Inr (evs, e), p) \<Rightarrow> (case event_wait e p of ((evs', err, e), p) \<Rightarrow> ((evs @ evs', err, e), p)))"
  by pat_completeness auto
termination
  by (relation "measure (\<lambda>(e, p). length (p_inbound p))") (auto dest!: sym [of _ "event_message _ _"] event_message_less)

declare event_wait.simps [simp del]

subsection \<open>The address of the auxiliary connection\<close>

text \<open>\<open>netip.Addr\<close>: four bytes, or sixteen.\<close>

datatype ip_addr = IPv4 bytes | IPv6 bytes

definition IsUnspecified :: "ip_addr \<Rightarrow> bool" where
  "IsUnspecified a = (case a of IPv4 b \<Rightarrow> \<forall>x \<in> set b. x = 0 | IPv6 b \<Rightarrow> \<forall>x \<in> set b. x = 0)"

fun hex_num :: "nat \<Rightarrow> string" where
  "hex_num n = (if n < 16 then [hex_digit n] else hex_num (n div 16) @ [hex_digit (n mod 16)])"

declare hex_num.simps [simp del]

definition ipv4_string :: "bytes \<Rightarrow> string" where
  "ipv4_string b = join_with ''.'' (map (\<lambda>x. itoa (uint x)) b)"

text \<open>The first of the longest runs of at least two zero groups is written \<open>::\<close>.\<close>

fun groups :: "bytes \<Rightarrow> nat list" where
  "groups (a # b # rest) = (unat a * 256 + unat b) # groups rest"
| "groups _ = []"

fun zero_run :: "nat list \<Rightarrow> nat" where
  "zero_run (g # gs) = (if g = 0 then Suc (zero_run gs) else 0)"
| "zero_run [] = 0"

definition longest_run :: "nat list \<Rightarrow> nat \<times> nat" where
  "longest_run gs = foldl (\<lambda>(start, len) i. let n = zero_run (drop i gs) in if n \<ge> 2 \<and> n > len then (i, n) else (start, len))
     (0, 0) [0..<length gs]"

definition ipv6_string :: "bytes \<Rightarrow> string" where
  "ipv6_string b =
     (if take 12 b = replicate 10 0 @ [0xff, 0xff] then ''::ffff:'' @ ipv4_string (drop 12 b)
      else let gs = groups b; (start, len) = longest_run gs; text = (\<lambda>gs. join_with '':'' (map hex_num gs))
        in if len = 0 then text gs else text (take start gs) @ ''::'' @ text (drop (start + len) gs))"

definition addr_string :: "ip_addr \<Rightarrow> string" where
  "addr_string a = (case a of IPv4 b \<Rightarrow> ipv4_string b | IPv6 b \<Rightarrow> ipv6_string b)"

text \<open>\<open>net.SplitHostPort\<close> and \<open>net.JoinHostPort\<close>: the host of an address and back.\<close>

definition index_of :: "char \<Rightarrow> string \<Rightarrow> nat option" where
  "index_of c s = (if c \<in> set s then Some (length (takeWhile (\<lambda>x. x \<noteq> c) s)) else None)"

definition host_error :: "string \<Rightarrow> 'a res" where
  "host_error why = Inl (Plain (''address: '' @ why))"

definition SplitHost :: "string \<Rightarrow> string res" where
  "SplitHost s =
     (case index_of (CHR '':'') (rev s) of
        None \<Rightarrow> host_error ''missing port in address''
      | Some j \<Rightarrow>
          let i = length s - Suc j in
          if hd s = CHR ''['' then
            (case index_of (CHR '']'') s of
               None \<Rightarrow> host_error ''missing ] in address''
             | Some e \<Rightarrow>
                 if Suc e = length s then host_error ''missing port in address''
                 else if Suc e \<noteq> i then
                   host_error (if s ! Suc e = CHR '':'' then ''too many colons in address'' else ''missing port in address'')
                 else if CHR ''['' \<in> set (tl s) then host_error ''unexpected [ in address''
                 else if CHR '']'' \<in> set (drop (Suc e) s) then host_error ''unexpected ] in address''
                 else Inr (take (e - 1) (tl s)))
          else if CHR '':'' \<in> set (take i s) then host_error ''too many colons in address''
          else if CHR ''['' \<in> set s then host_error ''unexpected [ in address''
          else if CHR '']'' \<in> set s then host_error ''unexpected ] in address''
          else Inr (take i s))"

definition JoinHostPort :: "string \<Rightarrow> string \<Rightarrow> string" where
  "JoinHostPort host port = (if CHR '':'' \<in> set host then ''['' @ host @ '']:'' @ port else host @ '':'' @ port)"

definition mapped_prefix :: bytes where
  "mapped_prefix = replicate 14 0 @ [0xff, 0xff]"

definition aux_addr :: "bytes \<Rightarrow> ip_addr res" where
  "aux_addr buf =
     bind_res (bind_res (go_slice buf 0 2) bytes_to_int16) (\<lambda>family.
     if family = afInet then
       (if length buf < 8 then Inl (Plain ''firebirdsql: aux connection IPv4 address truncated (%d bytes)'')
        else bind_res (go_slice buf 4 8) (\<lambda>b. Inr (IPv4 b)))
     else if family = afInet6Linux \<or> family = afInet6Windows \<or> family = afInet6Darwin then
       (if length buf < 24 then Inl (Plain ''firebirdsql: aux connection IPv6 address truncated (%d bytes)'')
        else bind_res (go_slice buf 4 20) (\<lambda>b.
             if b = mapped_prefix then bind_res (go_slice buf 20 24) (\<lambda>b. Inr (IPv4 b)) else Inr (IPv6 b)))
     else Inl (Plain ''unsupported  family protocol: %x''))"

definition aux_address :: "string \<Rightarrow> bytes \<Rightarrow> string res" where
  "aux_address dsn_addr buf =
     (if length buf < 4 then Inl (Plain ''firebirdsql: aux connection response too short (%d bytes)'')
      else bind_res (bind_res (go_slice buf 2 4) bytes_to_buint16) (\<lambda>port.
           bind_res (aux_addr buf) (\<lambda>addr.
           bind_res (if IsUnspecified addr then SplitHost dsn_addr else Inr (addr_string addr)) (\<lambda>host.
           Inr (JoinHostPort host (itoa (int port)))))))"

definition connAuxRequest :: "string \<Rightarrow> (int32 \<times> string) wm" where
  "connAuxRequest dsn_addr =
     wbind opConnectRequest (\<lambda>_.
     wbind opResponse (\<lambda>(auxHandle, oid, buf).
     wbind (wlift (aux_address dsn_addr buf)) (\<lambda>address. wret (auxHandle, address))))"

subsection \<open>The requests of a subscription\<close>

record subscription =
  sb_fc :: conn
  sb_revent :: remote_event
  sb_auxHandle :: int32

definition on_fc :: "'a wm \<Rightarrow> subscription \<Rightarrow> 'a res \<times> subscription" where
  "on_fc m s = (let (r, fc) = at_wire m (sb_fc s) in (r, s\<lparr>sb_fc := fc\<rparr>))"

definition sub_queueEvents :: "int32 \<Rightarrow> subscription \<Rightarrow> unit res \<times> subscription" where
  "sub_queueEvents eventID s =
     (let i = eventID + 1 in
      case on_fc (wbind (opQueEvents (sb_auxHandle s) (buildEpb (sb_revent s)) i) (\<lambda>_. opResponse)) s of
        (Inl e, s) \<Rightarrow> (Inl e, s)
      | (Inr (rid, oid, buf), s) \<Rightarrow> (Inr (), s\<lparr>sb_revent := (sb_revent s)\<lparr>re_id := i, re_rid := rid\<rparr>\<rparr>))"

definition sub_cancelEvents :: "bool \<Rightarrow> subscription \<Rightarrow> unit res \<times> subscription" where
  "sub_cancelEvents closed s =
     (if closed then (Inr (), s)
      else case on_fc (wbind (opCancelEvents (re_id (sb_revent s))) (\<lambda>_. opResponse)) s of
        (Inl e, s) \<Rightarrow> (Inl e, s)
      | (Inr _, s) \<Rightarrow> (Inr (), s\<lparr>sb_revent := re_cancelEvents (sb_revent s)\<rparr>))"

text \<open>
  \<open>dial\<close> opens a connection to an address. The connection made for the subscription comes back on
  every path: the error paths leave it open. The outcome of the first request is not looked at.
\<close>

definition newSubscription ::
    "(string \<Rightarrow> wire_protocol res) \<Rightarrow> string \<Rightarrow> string list \<Rightarrow> conn \<Rightarrow> (subscription \<times> wire_protocol) res \<times> conn" where
  "newSubscription dial dsn_addr events fc =
     (case at_wire (connAuxRequest dsn_addr) fc of
        (Inl e, fc) \<Rightarrow> (Inl e, fc)
      | (Inr (auxHandle, address), fc) \<Rightarrow>
          (case dial address of
             Inl e \<Rightarrow> (Inl e, fc)
           | Inr manager \<Rightarrow>
               (case re_queueEvents events newRemoteEvent of
                  (Some e, revent) \<Rightarrow> (Inl e, fc)
                | (None, revent) \<Rightarrow>
                    let s = snd (sub_queueEvents 0 \<lparr> sb_fc = fc, sb_revent = revent, sb_auxHandle = auxHandle \<rparr>)
                    in (Inr (s, manager), sb_fc s))))"

text \<open>What the loop does for an event that was counted: the handler gets it and the events are asked for again.\<close>

definition sub_event :: "event \<Rightarrow> subscription \<Rightarrow> event \<times> subscription" where
  "sub_event ev s = (ev, snd (sub_queueEvents (ev_ID ev) s))"

subsection \<open>The subscribers of an event source\<close>

record fb_event =
  fe_subscribers :: "nat list"
  fe_closed :: bool

definition fe_newSubscriber :: "nat \<Rightarrow> fb_event \<Rightarrow> fb_event" where
  "fe_newSubscriber s e = e\<lparr>fe_subscribers := fe_subscribers e @ [s]\<rparr>"

definition fe_Count :: "fb_event \<Rightarrow> int" where
  "fe_Count e = int (length (fe_subscribers e))"

text \<open>The last takes the place of the one that goes.\<close>

primrec first_index :: "'a \<Rightarrow> 'a list \<Rightarrow> nat" where
  "first_index x [] = 0"
| "first_index x (y # ys) = (if y = x then 0 else Suc (first_index x ys))"

definition shutdownSubscriber :: "nat \<Rightarrow> fb_event \<Rightarrow> fb_event" where
  "shutdownSubscriber s e =
     (let xs = fe_subscribers e; i = first_index s xs
      in if i < length xs then e\<lparr>fe_subscribers := butlast (xs[i := last xs])\<rparr> else e)"

definition ErrFbEventClosed :: go_error where
  "ErrFbEventClosed = Plain ''fbevent already closed''"

text \<open>The subscribers to be told are those of the list; the errors of all are joined.\<close>

definition fe_Close :: "fb_event \<Rightarrow> nat list res \<times> fb_event" where
  "fe_Close e =
     (if fe_closed e then (Inl ErrFbEventClosed, e)
      else (Inr (fe_subscribers e), e\<lparr>fe_closed := True, fe_subscribers := []\<rparr>))"

definition PostEvent :: "string \<Rightarrow> string" where
  "PostEvent name = ''execute block as begin post_event '' @ [CHR 0x27] @ name @ [CHR 0x27] @ ''; end''"

end
