(* ===== verification/Events_Props.thy ===== *)
theory Events_Props
  imports Events Transaction_Props
begin

text \<open>
  Event buffers are read back as the counts they carry, the reports of a subscription add up to the
  counts of the server, and what is made of an IPv6 address.
\<close>

subsection \<open>Buffers\<close>

text \<open>A name fits its length byte; a count fits a signed word when one is added to it.\<close>

definition names_fit :: "string list \<Rightarrow> bool" where
  "names_fit names \<longleftrightarrow> list_all (\<lambda>n. length n \<le> 255) names"

definition counts_fit :: "(string \<Rightarrow> int) \<Rightarrow> bool" where
  "counts_fit m \<longleftrightarrow> (\<forall>n. 0 \<le> m n \<and> m n < 2 ^ 31 - 1)"

definition records_bytes :: "string list \<Rightarrow> (string \<Rightarrow> int) \<Rightarrow> bytes" where
  "records_bytes names m = concat (map (\<lambda>n. of_nat (length n) # str_to_bytes n @ int32_to_bytes (word_of_int (m n + 1))) names)"

lemma count_word: "0 \<le> n \<Longrightarrow> n < 2 ^ 31 - 1 \<Longrightarrow> sint ((word_of_int (n + 1) :: int32) - 1) = n"
  using sint_word_of_int32 [of n] by simp

lemma scan_records:
  assumes "names_fit names" "counts_fit m" "set names \<subseteq> dom counts"
  shows "scan_counts (records_bytes names m) counts = (Inr (), \<lambda>n. if n \<in> set names then Some (m n) else counts n)"
  using assms(1,3)
proof (induction names arbitrary: counts)
  case (Cons n names)
  have u: "unat (of_nat (length n) :: byte) = length n"
    using Cons.prems(1) by (simp add: names_fit_def unat_of_nat take_bit_nat_eq_self)
  have c: "sint ((word_of_int (m n + 1) :: int32) - 1) = m n" using assms(2) by (intro count_word) (simp_all add: counts_fit_def)
  have "scan_counts (records_bytes (n # names) m) counts = scan_counts (records_bytes names m) (counts(n \<mapsto> m n))"
    using Cons.prems(2) c by (auto simp: records_bytes_def u int32_codec.enc_length int32_codec.dec_enc)
  also have "\<dots> = (Inr (), \<lambda>x. if x \<in> set names then Some (m x) else (counts(n \<mapsto> m n)) x)"
    using Cons.prems by (intro Cons.IH) (auto simp: names_fit_def)
  finally show ?case by (auto simp: fun_eq_iff)
qed (simp add: records_bytes_def)

lemma buildEpbSlice_records: "buildEpbSlice names (\<lambda>n. Some (m n)) = EPB_version1 # records_bytes names m"
  by (simp add: buildEpbSlice_def records_bytes_def count_of_def)

text \<open>A subscription that knows the counts \<open>m\<close>.\<close>

definition knows :: "string list \<Rightarrow> (string \<Rightarrow> int) \<Rightarrow> remote_event \<Rightarrow> bool" where
  "knows names m e \<longleftrightarrow> re_events e = names \<and> re_counts e = (\<lambda>n. if n \<in> set names then Some (m n) else None)"

definition changes :: "string list \<Rightarrow> (string \<Rightarrow> int) \<Rightarrow> (string \<Rightarrow> int) \<Rightarrow> remote_event \<Rightarrow> event list" where
  "changes names m m' e = map (\<lambda>n. \<lparr> ev_Name = n, ev_Count = m' n - m n, ev_ID = re_id e, ev_RemoteID = re_rid e \<rparr>)
     (filter (\<lambda>n. m' n \<noteq> m n) names)"

lemma getEventCounts_enc:
  assumes "names_fit names" "counts_fit m'" "knows names m e"
  shows "\<exists>e'. getEventCounts (buildEpbSlice names (\<lambda>n. Some (m' n))) e = (Inr (changes names m m' e), e') \<and> knows names m' e' \<and>
    re_id e' = re_id e \<and> re_rid e' = re_rid e"
proof -
  let ?e = "e\<lparr>re_prevCounts := re_counts e, re_counts := \<lambda>n. if n \<in> set names then Some (m' n) else None\<rparr>"
  have "set names \<subseteq> dom (map_option (\<lambda>_. 0) \<circ> re_counts e)" using assms(3) by (auto simp: knows_def dom_def)
  from scan_records [OF assms(1,2) this]
  have s: "scan_counts (records_bytes names m') (map_option (\<lambda>_. 0) \<circ> re_counts e) = (Inr (), \<lambda>n. if n \<in> set names then Some (m' n) else None)"
    using assms(3) by (simp add: knows_def fun_eq_iff)
  have "List.map_filter (report ?e) ns = map (\<lambda>n. \<lparr> ev_Name = n, ev_Count = m' n - m n, ev_ID = re_id e, ev_RemoteID = re_rid e \<rparr>)
      (filter (\<lambda>n. m' n \<noteq> m n) ns)" if "set ns \<subseteq> set names" for ns
    using that assms(3) by (induction ns) (auto simp: report_def count_of_def knows_def Let_def List.map_filter_simps)
  from this [of names] have "getEventCounts (buildEpbSlice names (\<lambda>n. Some (m' n))) e = (Inr (changes names m m' e), ?e)"
    using s assms(3) by (simp add: getEventCounts_def buildEpbSlice_records changes_def knows_def)
  then show ?thesis using assms(3) by (auto simp: knows_def)
qed

subsection \<open>Messages\<close>

text \<open>A message as the server sends it, with the handle and identifier it likes, and the counts \<open>m\<close>.\<close>

definition event_packet :: "string list \<Rightarrow> int32 \<times> (string \<Rightarrow> int) \<times> bytes \<times> int32 \<Rightarrow> bytes" where
  "event_packet names x = (case x of (h, m, ast, i) \<Rightarrow>
     bint32_to_bytes op_event @ bint32_to_bytes h @ xdrBytes (buildEpbSlice names (\<lambda>n. Some (m n))) @ ast @ bint32_to_bytes i)"

definition packet_fits :: "string list \<Rightarrow> int32 \<times> (string \<Rightarrow> int) \<times> bytes \<times> int32 \<Rightarrow> bool" where
  "packet_fits names x \<longleftrightarrow> (case x of (h, m, ast, i) \<Rightarrow> counts_fit m \<and> length ast = 8)"

lemma length_buildEpbSlice: "length (buildEpbSlice names c) = length (buildEpbSlice names c')"
proof -
  have "length (concat (map (\<lambda>ev. of_nat (length ev) # str_to_bytes ev @ int32_to_bytes (word_of_int (count_of c ev + 1))) names)) =
      length (concat (map (\<lambda>ev. (of_nat (length ev) :: byte) # str_to_bytes ev @ int32_to_bytes (word_of_int (count_of c' ev + 1))) names))"
    by (induction names) (simp_all add: int32_codec.enc_length)
  then show ?thesis by (simp add: buildEpbSlice_def)
qed

lemma event_message_enc:
  assumes "names_fit names" "length (buildEpbSlice names Map.empty) \<le> 65535" "packet_fits names x" "knows names m e"
  shows "\<exists>e'. event_message e (feed (event_packet names x @ rest) p) = (Inr (changes names m (fst (snd x)) e, e'), feed rest p) \<and>
    knows names (fst (snd x)) e' \<and> re_id e' = re_id e \<and> re_rid e' = re_rid e"
proof -
  obtain h m' ast i where x: "x = (h, m', ast, i)" by (cases x) auto
  let ?b = "buildEpbSlice names (\<lambda>n. Some (m' n))"
  have l: "length ?b \<le> 65535" using assms(2) length_buildEpbSlice [of names "\<lambda>n. Some (m' n)" Map.empty] by simp
  then have l31: "length ?b < 2 ^ 31" by simp
  have s: "sint (word_of_int (int (length ?b)) :: int32) = int (length ?b)" by (rule sint_length32 [OF l31])
  have fits: "counts_fit m'" "length ast = 8" using assms(3) by (simp_all add: packet_fits_def x)
  obtain e' where e': "getEventCounts ?b e = (Inr (changes names m m' e), e')" "knows names m' e'" "re_id e' = re_id e" "re_rid e' = re_rid e"
    using getEventCounts_enc [OF assms(1) fits(1) assms(4)] by blast
  have "event_buffer (feed (bint32_to_bytes h @ xdrBytes ?b @ ast @ bint32_to_bytes i @ rest) p) = (Inr ?b, feed rest p)"
    using l fits(2) unfolding event_buffer_def xdrBytes_counted [OF l31]
    by (simp add: wbind_def s maxEpbLength_def del: of_int_of_nat_eq)
  then have "event_message e (feed (event_packet names x @ rest) p) = (Inr (changes names m m' e, e'), feed rest p)"
    using e'(1) by (simp add: event_message_def event_packet_def x wbind_def)
  then show ?thesis using e' by (simp add: x)
qed

definition named_total :: "string \<Rightarrow> event list \<Rightarrow> int" where
  "named_total n evs = sum_list (map ev_Count (filter (\<lambda>ev. ev_Name ev = n) evs))"

lemma named_total_append [simp]: "named_total n (as @ bs) = named_total n as + named_total n bs"
  by (simp add: named_total_def)

lemma changes_total:
  assumes "distinct names" "n \<in> set names"
  shows "named_total n (changes names m m' e) = m' n - m n"
proof -
  have "named_total n (map (\<lambda>n. \<lparr> ev_Name = n, ev_Count = m' n - m n, ev_ID = a, ev_RemoteID = b \<rparr>) (filter (\<lambda>n. m' n \<noteq> m n) ns)) =
      (if n \<in> set ns then m' n - m n else 0)" if "distinct ns" for ns a b
    using that by (induction ns) (auto simp: named_total_def)
  from this [OF assms(1)] show ?thesis using assms(2) by (simp add: changes_def)
qed

lemma event_wait_enc:
  assumes "names_fit names" "length (buildEpbSlice names Map.empty) \<le> 65535" "distinct names"
  shows "list_all (packet_fits names) xs \<Longrightarrow> knows names m e \<Longrightarrow>
    \<exists>evs e'. event_wait e (feed (concat (map (event_packet names) xs)) p) = ((evs, NetErr, e'), feed [] p) \<and>
      list_all (\<lambda>ev. ev_Name ev \<in> set names \<and> ev_Count ev \<noteq> 0) evs \<and>
      (\<forall>n \<in> set names. named_total n evs = last (m # map (\<lambda>x. fst (snd x)) xs) n - m n)"
proof (induction xs arbitrary: m e)
  case Nil
  have "event_message e (feed [] p) = (Inl NetErr, feed [] p)" by (simp add: event_message_def wbind_def recv_int_eq)
  then show ?case by (subst event_wait.simps) (simp add: named_total_def)
next
  case (Cons x xs)
  let ?m = "fst (snd x)" and ?tl = "concat (map (event_packet names) xs)"
  obtain e1 where e1: "event_message e (feed (event_packet names x @ ?tl) p) = (Inr (changes names m ?m e, e1), feed ?tl p)" "knows names ?m e1"
    using event_message_enc [OF assms(1,2) _ Cons.prems(2), of x ?tl p] Cons.prems(1) by auto
  obtain evs e' where r: "event_wait e1 (feed ?tl p) = ((evs, NetErr, e'), feed [] p)"
      "list_all (\<lambda>ev. ev_Name ev \<in> set names \<and> ev_Count ev \<noteq> 0) evs"
      "\<forall>n \<in> set names. named_total n evs = last (?m # map (\<lambda>x. fst (snd x)) xs) n - ?m n"
    using Cons.IH [OF _ e1(2)] Cons.prems(1) by auto
  have "event_wait e (feed (concat (map (event_packet names) (x # xs))) p) = ((changes names m ?m e @ evs, NetErr, e'), feed [] p)"
    by (subst event_wait.simps) (simp add: e1(1) r(1))
  moreover have "list_all (\<lambda>ev. ev_Name ev \<in> set names \<and> ev_Count ev \<noteq> 0) (changes names m ?m e)"
    by (auto simp: changes_def list_all_iff)
  ultimately show ?case
    using r(2,3) changes_total [OF assms(3)] by (auto simp: last_map)
qed

subsection \<open>Properties\<close>

text \<open>C31: The reports of a subscription add up. For events queued together, a server that sends their
  counts in any number of messages over a connection that then ends is read to the end: every report
  is of a queued event and of a change, and the reports of an event sum to the count the server
  sent last.\<close>

theorem event_reports_add_up:
  assumes "re_queueEvents names newRemoteEvent = (None, e)" "distinct names" "list_all (packet_fits names) xs"
  shows "\<exists>evs e'. event_wait e (feed (concat (map (event_packet names) xs)) p) = ((evs, NetErr, e'), feed [] p) \<and>
    list_all (\<lambda>ev. ev_Name ev \<in> set names \<and> ev_Count ev \<noteq> 0) evs \<and>
    (\<forall>n \<in> set names. named_total n evs = last ((\<lambda>_. 0) # map (\<lambda>x. fst (snd x)) xs) n)"
proof -
  have q: "names_fit names" "length (buildEpbSlice names Map.empty) \<le> 65535" "knows names (\<lambda>_. 0) e"
    using assms(1) by (auto simp: re_queueEvents_def newRemoteEvent_def names_fit_def maxEventNameLength_def maxEpbLength_def
        knows_def list_ex_iff list_all_iff not_less Let_def split: if_splits)
  show ?thesis using event_wait_enc [OF q(1,2) assms(2,3) q(3), of p] by simp
qed

definition sample_counts :: "int \<Rightarrow> int \<Rightarrow> string \<Rightarrow> int" where
  "sample_counts a b n = (if n = ''paid'' then a else if n = ''sent'' then b else 0)"

theorem event_reports_add_up_witness:
  "\<exists>evs e'. event_wait (snd (re_queueEvents [''paid'', ''sent''] newRemoteEvent))
      (feed (concat (map (event_packet [''paid'', ''sent'']) [(1, sample_counts 2 0, replicate 8 0, 1), (1, sample_counts 5 1, replicate 8 0, 1)])) sample_wire) =
      ((evs, NetErr, e'), feed [] sample_wire) \<and>
    named_total ''paid'' evs = 5 \<and> named_total ''sent'' evs = 1"
proof -
  have "fst (re_queueEvents [''paid'', ''sent''] newRemoteEvent) = None"
    by (simp add: re_queueEvents_def newRemoteEvent_def maxEventNameLength_def maxEpbLength_def buildEpbSlice_def int32_codec.enc_length Let_def)
  then have q: "re_queueEvents [''paid'', ''sent''] newRemoteEvent = (None, snd (re_queueEvents [''paid'', ''sent''] newRemoteEvent))"
    by (metis prod.collapse)
  have "list_all (packet_fits [''paid'', ''sent'']) [(1, sample_counts 2 0, replicate 8 0, 1), (1, sample_counts 5 1, replicate 8 0, 1)]"
    by (simp add: packet_fits_def counts_fit_def sample_counts_def)
  from event_reports_add_up [OF q _ this, of sample_wire] show ?thesis by (auto simp: sample_counts_def)
qed

text \<open>C32: An IPv6 address is read four bytes early. From the socket address of the server, family, port,
  flow information, sixteen bytes of address and the scope, the driver makes an address of the flow
  information and the first twelve bytes: it connects to another host, or, where these bytes are all
  zero as for \<open>::1\<close>, to the host of the data source name. Only addresses that are mapped from IPv4 are right.\<close>

theorem ipv6_address_is_shifted:
  assumes "family \<in> {afInet6Linux, afInet6Windows, afInet6Darwin}" "length flow = 4" "length a = 16"
    and "flow @ take 12 a \<noteq> mapped_prefix"
  shows "aux_address dsn_addr (int16_to_bytes family @ be_bytes 2 port @ flow @ a @ scope) =
    bind_res (if \<forall>x \<in> set (flow @ take 12 a). x = 0 then SplitHost dsn_addr else Inr (ipv6_string (flow @ take 12 a))) (\<lambda>host.
    Inr (JoinHostPort host (itoa (int (port mod 2 ^ 16)))))"
proof -
  let ?buf = "int16_to_bytes family @ be_bytes 2 port @ flow @ a @ scope"
  have l: "length (int16_to_bytes family) = 2" "length (be_bytes 2 port) = 2" by (simp_all add: int16_codec.enc_length)
  have f: "bind_res (go_slice ?buf 0 2) bytes_to_int16 = Inr family"
    using l by (simp add: go_slice_def int16_codec.dec_enc_Nil)
  have p: "bind_res (go_slice ?buf 2 4) bytes_to_buint16 = Inr (port mod 2 ^ 16)"
    using l by (simp add: go_slice_def bytes_to_buint16_def be_uint_def be_val_be_bytes)
  have b: "go_slice ?buf 4 20 = Inr (flow @ take 12 a)"
    using l assms(2,3) by (simp add: go_slice_def take_Cons')
  have "aux_addr ?buf = Inr (IPv6 (flow @ take 12 a))"
    using assms f b l by (auto simp: aux_addr_def)
  then show ?thesis
    using p l assms(2,3) by (simp add: aux_address_def IsUnspecified_def addr_string_def)
qed

text \<open>A server at \<open>2001:db8::7\<close>.\<close>

theorem ipv6_address_is_shifted_witness:
  "aux_address ''db.example:3050'' ([10, 0, 11, 235] @ [0, 0, 0, 0] @ [0x20, 1, 0x0d, 0xb8, 0, 0, 0, 0, 0, 0, 0, 0, 0, 0, 0, 7] @ [0, 0, 0, 0]) =
    Inr ''[0:0:2001:db8::]:3051''"
proof -
  have e: "int16_to_bytes 10 = [10, 0]" "be_bytes 2 3051 = [11, 235]" by code_simp+
  let ?b = "[0, 0, 0, 0, 0x20, 1, 0x0d, 0xb8, 0, 0, 0, 0, 0, 0, 0, 0] :: bytes"
  have g: "groups ?b = [0, 0, 8193, 3512, 0, 0, 0, 0]" by simp
  have h: "map hex_num [0, 0, 8193, 3512] = [''0'', ''0'', ''2001'', ''db8'']" 
  proof -
    have "map hex_digit [0, 1, 2, 8, 11, 13] = [CHR ''0'', CHR ''1'', CHR ''2'', CHR ''8'', CHR ''b'', CHR ''d'']" by code_simp
    then show ?thesis by (simp add: hex_num.simps)
  qed
  have "longest_run (groups ?b) = (4, 4)" unfolding g by (simp add: longest_run_def upt_rec Let_def)
  then have "ipv6_string ?b = ''0:0:2001:db8::''" using g h by (simp add: ipv6_string_def Let_def)
  moreover have "itoa 3051 = ''3051''" 
  proof -
    have "map digit_char [0, 1, 3, 5] = ''0135''" by code_simp
    then show ?thesis by (simp add: itoa_def nat_itoa.simps)
  qed
  ultimately have s: "JoinHostPort (ipv6_string ?b) (itoa (int (3051 mod 2 ^ 16))) = ''[0:0:2001:db8::]:3051''"
    by (simp add: JoinHostPort_def)
  show ?thesis
    using ipv6_address_is_shifted [of 10 "[0, 0, 0, 0]" "[0x20, 1, 0x0d, 0xb8, 0, 0, 0, 0, 0, 0, 0, 0, 0, 0, 0, 7]" "''db.example:3050''" 3051 "[0, 0, 0, 0]"] s
    by (simp add: e mapped_prefix_def)
qed

subsection \<open>No panics\<close>

lemma no_panic_aux_address: "no_panic (aux_address dsn_addr buf)"
proof -
  have "no_panic (SplitHost s)" for s
    by (simp add: SplitHost_def host_error_def Let_def split: option.split)
  then show ?thesis
    by (auto simp: aux_address_def aux_addr_def go_slice_def bytes_to_int16_def bytes_to_buint16_def le_uint_def be_uint_def
        intro!: no_panic_bind split: if_splits)
qed

end
