(* ===== verification/Subscription.thy ===== *)
theory Subscription
  imports Events
begin

text \<open>
  The life of a subscription (\<open>subscriber.go\<close>): the goroutine that reads the auxiliary connection,
  the one that waits for events and errors, one call of \<open>Unsubscribe\<close> and any number of calls of
  \<open>Close\<close>, interleaved. A step is what runs between two points where another goroutine can come
  in: loading the closed flag, storing it, and the body of \<open>closer.Do\<close>, which \<open>sync.Once\<close> makes one step.
\<close>

text \<open>Where a call that closes the subscription is; \<open>Done r\<close> has returned \<open>r\<close>.\<close>

datatype close_pc = Start | Checked | Stored | Done "go_error option"

datatype user_pc = UStart | UOpen | UManagerClosed | UCancelling | UClosing close_pc

datatype wait_pc = Waiting | Got go_error close_pc | Stopped

record life =
  lf_closed :: bool
  lf_once :: bool
  lf_doneCloses :: nat
  lf_fcCloses :: nat
  lf_notified :: "go_error list"
  lf_told :: nat
  lf_noNotify :: bool
  lf_manager :: bool
  lf_reading :: bool
  lf_chErr :: "go_error option"
  lf_waiter :: wait_pc
  lf_user :: user_pc
  lf_callers :: "nat \<Rightarrow> close_pc"
  lf_net_ok :: bool

definition new_life :: "bool \<Rightarrow> bool \<Rightarrow> life" where
  "new_life noNotify net_ok = \<lparr> lf_closed = False, lf_once = False, lf_doneCloses = 0, lf_fcCloses = 0, lf_notified = [],
     lf_told = 0, lf_noNotify = noNotify, lf_manager = True, lf_reading = True, lf_chErr = None, lf_waiter = Waiting,
     lf_user = UStart, lf_callers = (\<lambda>_. Start), lf_net_ok = net_ok \<rparr>"

text \<open>The body of \<open>closer.Do\<close>: it runs for the first caller only.\<close>

definition run_once :: "go_error option \<Rightarrow> life \<Rightarrow> life" where
  "run_once err s =
     (if lf_once s then s
      else s\<lparr>lf_once := True, lf_doneCloses := lf_doneCloses s + 1,
        lf_notified := lf_notified s @ (case err of None \<Rightarrow> [] | Some e \<Rightarrow> [e]),
        lf_fcCloses := lf_fcCloses s + 1, lf_told := lf_told s + (if lf_noNotify s then 0 else 1)\<rparr>)"

text \<open>
  \<open>Close\<close> and \<open>closeWithError err\<close> from one point to the next; the body returns what closing the
  connection does, \<open>None\<close> where the network holds.
\<close>

inductive close_step :: "go_error option \<Rightarrow> close_pc \<Rightarrow> life \<Rightarrow> close_pc \<Rightarrow> life \<Rightarrow> bool" for err where
  already: "lf_closed s \<Longrightarrow> close_step err Start s (Done (Some ErrFbEventClosed)) s"
| check: "\<not> lf_closed s \<Longrightarrow> close_step err Start s Checked s"
| store: "close_step err Checked s Stored (s\<lparr>lf_closed := True\<rparr>)"
| first: "\<not> lf_once s \<Longrightarrow> lf_net_ok s \<longrightarrow> r = None \<Longrightarrow> close_step err Stored s (Done r) (run_once err s)"
| later: "lf_once s \<Longrightarrow> close_step err Stored s (Done None) s"

text \<open>The goroutine of \<open>eventManager.wait\<close> stops at the first error and leaves it in its channel.\<close>

inductive reader_step :: "life \<Rightarrow> life \<Rightarrow> bool" where
  "lf_reading s \<Longrightarrow> \<not> lf_manager s \<or> \<not> lf_net_ok s \<Longrightarrow> reader_step s (s\<lparr>lf_reading := False, lf_chErr := Some NetErr\<rparr>)"

text \<open>\<open>Subscription.wait\<close>: what \<open>closeWithError\<close> returns is dropped.\<close>

inductive wait_step :: "life \<Rightarrow> life \<Rightarrow> bool" where
  stop: "lf_waiter s = Waiting \<Longrightarrow> 0 < lf_doneCloses s \<Longrightarrow> wait_step s (s\<lparr>lf_waiter := Stopped\<rparr>)"
| got: "lf_waiter s = Waiting \<Longrightarrow> lf_chErr s = Some e \<Longrightarrow> wait_step s (s\<lparr>lf_chErr := None, lf_waiter := Got e Start\<rparr>)"
| closing: "lf_waiter s = Got e pc \<Longrightarrow> close_step (Some e) pc s pc' s' \<Longrightarrow> wait_step s (s'\<lparr>lf_waiter := Got e pc'\<rparr>)"
| again: "lf_waiter s = Got e (Done r) \<Longrightarrow> wait_step s (s\<lparr>lf_waiter := Waiting\<rparr>)"

text \<open>
  \<open>Unsubscribe\<close>: closing the manager ends the reader; the events are cancelled unless the flag is set
  by then, over the connection that the waiter may close meanwhile.
\<close>

inductive user_step :: "life \<Rightarrow> life \<Rightarrow> bool" where
  closed: "lf_user s = UStart \<Longrightarrow> lf_closed s \<Longrightarrow> user_step s (s\<lparr>lf_user := UClosing (Done None)\<rparr>)"
| opened: "lf_user s = UStart \<Longrightarrow> \<not> lf_closed s \<Longrightarrow> user_step s (s\<lparr>lf_user := UOpen\<rparr>)"
| manager_failed: "lf_user s = UOpen \<Longrightarrow> \<not> lf_net_ok s \<Longrightarrow> user_step s (s\<lparr>lf_manager := False, lf_user := UClosing (Done (Some e))\<rparr>)"
| manager: "lf_user s = UOpen \<Longrightarrow> user_step s (s\<lparr>lf_manager := False, lf_user := UManagerClosed\<rparr>)"
| skip_cancel: "lf_user s = UManagerClosed \<Longrightarrow> lf_closed s \<Longrightarrow> user_step s (s\<lparr>lf_user := UClosing Start\<rparr>)"
| start_cancel: "lf_user s = UManagerClosed \<Longrightarrow> \<not> lf_closed s \<Longrightarrow> user_step s (s\<lparr>lf_user := UCancelling\<rparr>)"
| cancelled: "lf_user s = UCancelling \<Longrightarrow> lf_fcCloses s = 0 \<Longrightarrow> user_step s (s\<lparr>lf_user := UClosing Start\<rparr>)"
| cancel_failed: "lf_user s = UCancelling \<Longrightarrow> 0 < lf_fcCloses s \<or> \<not> lf_net_ok s \<Longrightarrow>
    user_step s (s\<lparr>lf_user := UClosing (Done (Some e))\<rparr>)"
| close: "lf_user s = UClosing pc \<Longrightarrow> close_step None pc s pc' s' \<Longrightarrow> user_step s (s'\<lparr>lf_user := UClosing pc'\<rparr>)"

text \<open>Any other call of \<open>Close\<close>.\<close>

inductive caller_step :: "life \<Rightarrow> life \<Rightarrow> bool" where
  "close_step None (lf_callers s i) s pc' s' \<Longrightarrow> caller_step s (s'\<lparr>lf_callers := (lf_callers s')(i := pc')\<rparr>)"

inductive life_step :: "life \<Rightarrow> life \<Rightarrow> bool" where
  "reader_step s s' \<Longrightarrow> life_step s s'"
| "wait_step s s' \<Longrightarrow> life_step s s'"
| "user_step s s' \<Longrightarrow> life_step s s'"
| "caller_step s s' \<Longrightarrow> life_step s s'"

inductive reachable :: "bool \<Rightarrow> bool \<Rightarrow> life \<Rightarrow> bool" for noNotify net_ok where
  start: "reachable noNotify net_ok (new_life noNotify net_ok)"
| step: "reachable noNotify net_ok s \<Longrightarrow> life_step s s' \<Longrightarrow> reachable noNotify net_ok s'"

end
