(* ===== verification/Subscription_Props.thy ===== *)
theory Subscription_Props
  imports Subscription
begin

text \<open>
  However the goroutines of a subscription are interleaved, it is closed once; but what \<open>Unsubscribe\<close>
  returns depends on the interleaving, even when nothing fails.
\<close>


subsection \<open>The invariant\<close>

text \<open>What the counters say of the body, and that a call past its store, or one that returned well, left the flag set.\<close>

definition body_ok :: "life \<Rightarrow> bool" where
  "body_ok s \<longleftrightarrow> lf_doneCloses s = of_bool (lf_once s) \<and> lf_fcCloses s = of_bool (lf_once s) \<and>
     length (lf_notified s) \<le> of_bool (lf_once s) \<and> lf_told s = of_bool (lf_once s \<and> \<not> lf_noNotify s) \<and>
     (lf_once s \<longrightarrow> lf_closed s)"

definition pc_ok :: "bool \<Rightarrow> close_pc \<Rightarrow> bool" where
  "pc_ok closed pc \<longleftrightarrow> (pc = Stored \<or> pc = Done None \<longrightarrow> closed)"

fun user_pc_ok :: "bool \<Rightarrow> user_pc \<Rightarrow> bool" where
  "user_pc_ok closed (UClosing pc) = pc_ok closed pc"
| "user_pc_ok closed _ = True"

fun wait_pc_ok :: "bool \<Rightarrow> wait_pc \<Rightarrow> bool" where
  "wait_pc_ok closed (Got e pc) = pc_ok closed pc"
| "wait_pc_ok closed _ = True"

definition pcs_ok :: "life \<Rightarrow> bool" where
  "pcs_ok s \<longleftrightarrow> user_pc_ok (lf_closed s) (lf_user s) \<and> wait_pc_ok (lf_closed s) (lf_waiter s) \<and>
     (\<forall>i. pc_ok (lf_closed s) (lf_callers s i))"

definition life_ok :: "life \<Rightarrow> bool" where
  "life_ok s \<longleftrightarrow> body_ok s \<and> pcs_ok s"

lemma body_ok_upd [simp]:
  "body_ok (s\<lparr>lf_user := u\<rparr>) = body_ok s" "body_ok (s\<lparr>lf_waiter := w\<rparr>) = body_ok s" "body_ok (s\<lparr>lf_callers := f\<rparr>) = body_ok s"
  "body_ok (s\<lparr>lf_manager := b\<rparr>) = body_ok s" "body_ok (s\<lparr>lf_reading := b\<rparr>) = body_ok s" "body_ok (s\<lparr>lf_chErr := x\<rparr>) = body_ok s"
  by (simp_all add: body_ok_def)

lemma pc_ok_simps [simp]:
  "pc_ok c Start" "pc_ok c Checked" "pc_ok True pc" "pc_ok c Stored = c" "pc_ok c (Done r) = (r = None \<longrightarrow> c)"
  by (simp_all add: pc_ok_def)

lemma pc_ok_mono: "pc_ok c pc \<Longrightarrow> c \<longrightarrow> c' \<Longrightarrow> pc_ok c' pc"
  by (auto simp: pc_ok_def)

lemma pcs_ok_mono:
  assumes "pcs_ok s" "lf_closed s \<longrightarrow> lf_closed s'" "lf_user s' = lf_user s" "lf_waiter s' = lf_waiter s" "lf_callers s' = lf_callers s"
  shows "pcs_ok s'"
  using assms pc_ok_mono by (cases "lf_user s"; cases "lf_waiter s"; fastforce simp: pcs_ok_def)

lemma run_once_fields [simp]:
  "lf_closed (run_once err s) = lf_closed s" "lf_user (run_once err s) = lf_user s" "lf_waiter (run_once err s) = lf_waiter s"
  "lf_callers (run_once err s) = lf_callers s" "lf_once (run_once err s)"
  by (simp_all add: run_once_def)

lemma run_once_ok: "body_ok s \<Longrightarrow> lf_closed s \<Longrightarrow> body_ok (run_once err s)"
  by (cases err; cases "lf_once s") (simp_all add: body_ok_def run_once_def)

lemma close_step_ok:
  assumes "close_step err pc s pc' s'" "life_ok s" "pc_ok (lf_closed s) pc"
  shows "body_ok s'" "pcs_ok s'" "pc_ok (lf_closed s') pc'" "lf_user s' = lf_user s" "lf_waiter s' = lf_waiter s" "lf_callers s' = lf_callers s"
proof -
  have "body_ok s' \<and> pc_ok (lf_closed s') pc' \<and> (lf_closed s \<longrightarrow> lf_closed s') \<and>
    lf_user s' = lf_user s \<and> lf_waiter s' = lf_waiter s \<and> lf_callers s' = lf_callers s"
    using assms(1)
  proof (cases rule: close_step.cases)
    case first
    then show ?thesis using assms(2,3) run_once_ok by (simp add: life_ok_def)
  qed (use assms(2,3) in \<open>auto simp: life_ok_def body_ok_def\<close>)
  then show "body_ok s'" "pcs_ok s'" "pc_ok (lf_closed s') pc'" "lf_user s' = lf_user s" "lf_waiter s' = lf_waiter s" "lf_callers s' = lf_callers s"
    using pcs_ok_mono [of s s'] assms(2) by (simp_all add: life_ok_def)
qed

lemma wait_step_ok:
  assumes "wait_step s s'" "life_ok s"
  shows "life_ok s'"
  using assms(1)
proof (cases rule: wait_step.cases)
  case (closing e pc pc' s2)
  have "pc_ok (lf_closed s) pc" using closing assms(2) by (auto simp: life_ok_def pcs_ok_def)
  then show ?thesis using close_step_ok [OF closing(3) assms(2)] closing(1) by (simp add: life_ok_def pcs_ok_def)
qed (use assms(2) in \<open>auto simp: life_ok_def pcs_ok_def\<close>)

lemma user_step_ok:
  assumes "user_step s s'" "life_ok s"
  shows "life_ok s'"
  using assms(1)
proof (cases rule: user_step.cases)
  case (close pc pc' s2)
  have "pc_ok (lf_closed s) pc" using close assms(2) by (auto simp: life_ok_def pcs_ok_def)
  then show ?thesis using close_step_ok [OF close(3) assms(2)] close(1) by (simp add: life_ok_def pcs_ok_def)
qed (use assms(2) in \<open>auto simp: life_ok_def pcs_ok_def\<close>)

lemma life_step_ok:
  assumes "life_step s s'" "life_ok s"
  shows "life_ok s'"
  using assms(1)
proof (cases rule: life_step.cases)
  case 1
  then show ?thesis using assms(2) by (cases rule: reader_step.cases) (simp add: life_ok_def pcs_ok_def)
next
  case 2
  then show ?thesis using assms(2) by (rule wait_step_ok)
next
  case 3
  then show ?thesis using assms(2) by (rule user_step_ok)
next
  case 4
  then show ?thesis
  proof (cases rule: caller_step.cases)
    case (1 i pc' s2)
    then show ?thesis using close_step_ok [OF 1(2) assms(2)] assms(2) by (simp add: life_ok_def pcs_ok_def)
  qed
qed

lemma reachable_ok: "reachable nn net s \<Longrightarrow> life_ok s"
  by (induction rule: reachable.induct) (auto simp: life_step_ok, simp add: life_ok_def pcs_ok_def new_life_def body_ok_def)

lemma reachable_noNotify: "reachable nn net s \<Longrightarrow> lf_noNotify s = nn"
proof (induction rule: reachable.induct)
  case (step s s')
  have c: "lf_noNotify t' = lf_noNotify t" if "close_step err pc t pc' t'" for err pc t pc' t'
    using that by cases (simp_all add: run_once_def)
  show ?case
    using step(2,3)
    by cases (auto elim!: reader_step.cases wait_step.cases user_step.cases caller_step.cases dest!: c)
qed (simp add: new_life_def)

subsection \<open>Properties\<close>

text \<open>C33: However the reader, the waiter, a call of \<open>Unsubscribe\<close> and any number of calls of \<open>Close\<close> are
  interleaved, and whatever fails, the subscription is closed at most once: its channel (closing it
  again would panic), its connection, the notice to its owner and the error to its listeners; and
  a call that returned without an error left it marked as closed.\<close>

theorem subscription_closes_once:
  assumes "reachable noNotify net_ok s"
  shows "lf_doneCloses s \<le> 1 \<and> lf_fcCloses s = lf_doneCloses s \<and> length (lf_notified s) \<le> lf_doneCloses s \<and>
    lf_told s = (if noNotify then 0 else lf_doneCloses s) \<and>
    (lf_user s = UClosing (Done None) \<or> (\<exists>i. lf_callers s i = Done None) \<longrightarrow> lf_closed s)"
proof -
  have ok: "body_ok s" "pcs_ok s" "lf_noNotify s = noNotify"
    using reachable_ok [OF assms] reachable_noNotify [OF assms] by (simp_all add: life_ok_def)
  have "lf_closed s" if "lf_user s = UClosing (Done None) \<or> (\<exists>i. lf_callers s i = Done None)"
    using that ok(2) pc_ok_simps(5) [of "lf_closed s" None] by (auto simp: pcs_ok_def simp del: pc_ok_simps) metis
  then show ?thesis using ok(1,3) by (cases "lf_once s") (auto simp: body_ok_def)
qed

text \<open>What a call of \<open>Unsubscribe\<close> does up to the end of its reader, and then the waiter, before the call goes on.\<close>

lemmas reach_reader = reachable.step [OF _ life_step.intros(1)]
lemmas reach_wait = reachable.step [OF _ life_step.intros(2)]
lemmas reach_user = reachable.step [OF _ life_step.intros(3)]

definition manager_closed :: "bool \<Rightarrow> life" where
  "manager_closed nn = (new_life nn True)\<lparr>lf_manager := False, lf_user := UManagerClosed\<rparr>"

lemma manager_closed_reachable: "reachable nn True (manager_closed nn)"
proof -
  have "reachable nn True ((new_life nn True)\<lparr>lf_user := UOpen\<rparr>)"
    by (rule reach_user [OF reachable.start user_step.opened]) (simp_all add: new_life_def)
  from reach_user [OF this user_step.manager] show ?thesis by (simp add: manager_closed_def new_life_def)
qed

definition waiter_stored :: "life \<Rightarrow> life" where
  "waiter_stored s = s\<lparr>lf_reading := False, lf_chErr := None, lf_closed := True, lf_waiter := Got NetErr Stored\<rparr>"

text \<open>Up to its store the waiter reads the flag only: what the user does after the waiter looked comes too late.\<close>

lemma waiter_stored_reachable:
  assumes "reachable nn True s" "lf_reading s" "\<not> lf_manager s" "\<not> lf_closed s" "lf_waiter s = Waiting" "lf_chErr s = None"
  shows "reachable nn True (waiter_stored s)"
proof -
  have "reachable nn True (s\<lparr>lf_reading := False, lf_chErr := Some NetErr\<rparr>)"
    by (rule reach_reader [OF assms(1) reader_step.intros]) (use assms in simp_all)
  from reach_wait [OF this wait_step.got [of _ NetErr]]
  have "reachable nn True (s\<lparr>lf_reading := False, lf_chErr := None, lf_waiter := Got NetErr Start\<rparr>)" using assms by simp
  from reach_wait [OF this wait_step.closing [OF _ close_step.check]]
  have "reachable nn True (s\<lparr>lf_reading := False, lf_chErr := None, lf_waiter := Got NetErr Checked\<rparr>)" using assms by simp
  from reach_wait [OF this wait_step.closing [OF _ close_step.store]]
  show ?thesis using assms(6) by (simp add: waiter_stored_def)
qed

definition waiter_done :: "life \<Rightarrow> life" where
  "waiter_done s = (run_once (Some NetErr) (waiter_stored s))\<lparr>lf_waiter := Got NetErr (Done None)\<rparr>"

lemma waiter_done_reachable:
  assumes "reachable nn True (waiter_stored s)" "\<not> lf_once s"
  shows "reachable nn True (waiter_done s)"
  unfolding waiter_done_def
  by (rule reach_wait [OF assms(1) wait_step.closing [OF _ close_step.first]]) (use assms(2) in \<open>simp_all add: waiter_stored_def\<close>)

text \<open>C34: What \<open>Unsubscribe\<close> returns is a matter of luck, even when nothing on the network fails. Closing
  the manager makes its reader stop with an error, and the waiter then closes the subscription with
  that error. Depending on who comes first the call succeeds in silence; or the listeners are told
  of a connection failure and the call returns \<open>ErrFbEventClosed\<close>; or the request to cancel the events
  finds its connection already closed and the call returns that error.\<close>

theorem unsubscribe_races_reader:
  "(\<exists>s. reachable noNotify True s \<and> lf_user s = UClosing (Done None) \<and> lf_notified s = []) \<and>
   (\<exists>s. reachable noNotify True s \<and> lf_user s = UClosing (Done (Some ErrFbEventClosed)) \<and> lf_notified s = [NetErr]) \<and>
   (\<exists>s. reachable noNotify True s \<and> lf_user s = UClosing (Done (Some NetErr)) \<and> lf_notified s = [NetErr])"
proof (intro conjI)
  let ?m = "manager_closed noNotify"
  have m: "reachable noNotify True ?m" by (rule manager_closed_reachable)
  from reach_user [OF m user_step.start_cancel] have c: "reachable noNotify True (?m\<lparr>lf_user := UCancelling\<rparr>)"
    by (simp add: manager_closed_def new_life_def)
  from reach_user [OF c user_step.cancelled] have "reachable noNotify True (?m\<lparr>lf_user := UClosing Start\<rparr>)"
    by (simp add: manager_closed_def new_life_def)
  from reach_user [OF this user_step.close [OF _ close_step.check]] have "reachable noNotify True (?m\<lparr>lf_user := UClosing Checked\<rparr>)"
    by (simp add: manager_closed_def new_life_def)
  from reach_user [OF this user_step.close [OF _ close_step.store]]
  have "reachable noNotify True (?m\<lparr>lf_closed := True, lf_user := UClosing Stored\<rparr>)" by (simp add: manager_closed_def new_life_def)
  from reach_user [OF this user_step.close [OF _ close_step.first [where r = None]]]
  show "\<exists>s. reachable noNotify True s \<and> lf_user s = UClosing (Done None) \<and> lf_notified s = []"
    by (force simp: manager_closed_def new_life_def run_once_def)
  have "reachable noNotify True (waiter_done ?m)"
    using waiter_done_reachable [OF waiter_stored_reachable [OF m]] by (simp add: manager_closed_def new_life_def)
  from reach_user [OF this user_step.skip_cancel] have "reachable noNotify True ((waiter_done ?m)\<lparr>lf_user := UClosing Start\<rparr>)"
    by (simp add: waiter_done_def waiter_stored_def manager_closed_def new_life_def)
  from reach_user [OF this user_step.close [OF _ close_step.already]]
  show "\<exists>s. reachable noNotify True s \<and> lf_user s = UClosing (Done (Some ErrFbEventClosed)) \<and> lf_notified s = [NetErr]"
    by (force simp: waiter_done_def waiter_stored_def manager_closed_def new_life_def run_once_def)
  have "reachable noNotify True (waiter_done (?m\<lparr>lf_user := UCancelling\<rparr>))"
    using waiter_done_reachable [OF waiter_stored_reachable [OF c]] by (simp add: manager_closed_def new_life_def)
  from reach_user [OF this user_step.cancel_failed [where e = NetErr]]
  show "\<exists>s. reachable noNotify True s \<and> lf_user s = UClosing (Done (Some NetErr)) \<and> lf_notified s = [NetErr]"
    by (force simp: waiter_done_def waiter_stored_def manager_closed_def new_life_def run_once_def)
qed

theorem subscription_closes_once_witness:
  "\<exists>s. reachable False True s \<and> lf_doneCloses s = 1 \<and> lf_fcCloses s = 1 \<and> lf_told s = 1"
proof -
  have r: "reachable False True (waiter_done (manager_closed False))"
    by (rule waiter_done_reachable [OF waiter_stored_reachable [OF manager_closed_reachable]]) (simp_all add: manager_closed_def new_life_def)
  have "lf_doneCloses (waiter_done (manager_closed False)) = 1"
    by (simp add: waiter_done_def waiter_stored_def manager_closed_def new_life_def run_once_def)
  then show ?thesis using subscription_closes_once [OF r] r by (intro exI [of _ "waiter_done (manager_closed False)"]) simp
qed

end
