(* ===== verification/Connect.thy ===== *)
theory Connect
  imports Client Handshake
begin

text \<open>
  Opening a connection (\<open>driver.go\<close>, \<open>openFirebirdsqlConn\<close>): the socket, the handshake, the attachment
  and the connection's first transaction; the arguments \<open>database/sql\<close> lets through
  (\<open>CheckNamedValue\<close>), what it learns of the columns, and the server's version banner.

  \<open>dial\<close> is \<open>net.Dial\<close>: what is on the other side of an address, as the bytes it will send and the
  writes it will take. \<open>rnd\<close> is what \<open>crypto/rand\<close> gives for the client's secret.
\<close>

subsection \<open>Connections\<close>

record socket =
  so_env :: go_env
  so_inbound :: bytes
  so_wr_ok :: "nat \<Rightarrow> bool"

definition newWireProtocol :: "(string \<Rightarrow> socket res) \<Rightarrow> string \<Rightarrow> string \<Rightarrow> string \<Rightarrow> wire_protocol res" where
  "newWireProtocol dial addr timezone charset =
     bind_res (dial addr) (\<lambda>so. Inr
       \<lparr> p_buf = [], p_inbound = so_inbound so, p_outbound = [], p_wr_ok = so_wr_ok so, p_chan = newWireChannel,
         p_env = so_env so, p_dbHandle = 0, p_protocolVersion = 0, p_acceptArchitecture = 0, p_acceptType = 0,
         p_lazyResponseCount = 0, p_pluginName = '''', p_user = '''', p_password = '''', p_authData = None,
         p_charset = charset, p_charsetByteLen = charsetLen charset, p_timezone = timezone, p_clientVersion = '''',
         p_osUser = '''', p_hostName = '''', p_cursorFlags = 0, p_maxInlineBlobSize = 0, p_maxBlobCacheSize = 0,
         p_inlineBlobCache = None \<rparr>)"

text \<open>What the options say of the connection; sizes are cut to 32 bits.\<close>

definition configured :: "options \<Rightarrow> wire_protocol \<Rightarrow> wire_protocol" where
  "configured opts p =
     (let cacheSize = word_of_int (parseOptionInt (opts ''max_blob_cache_size'') 10485760) :: int32
      in p\<lparr>p_clientVersion := opts ''client_version'', p_osUser := opts ''os_user'', p_hostName := opts ''host_name'',
           p_maxInlineBlobSize := word_of_int (parseOptionInt (opts ''max_inline_blob_size'') 65536),
           p_maxBlobCacheSize := cacheSize, p_inlineBlobCache := Some (newInlineBlobCache (sint cacheSize))\<rparr>)"

text \<open>The handshake, the operation on the database and its answer.\<close>

definition establish :: "(string \<Rightarrow> int) \<Rightarrow> bytes \<Rightarrow> firebird_dsn \<Rightarrow> unit wm \<Rightarrow> unit wm" where
  "establish undef rnd dsn dbOp =
     (let opts = opt_get (d_options dsn); (clientPublic, clientSecret) = getClientSeed rnd in
      wbind (opConnect (d_dbName dsn) (d_user dsn) (d_passwd dsn) opts clientPublic) (\<lambda>_.
      wbind (parse_connect_response undef (d_user dsn) (d_passwd dsn) opts clientPublic clientSecret) (\<lambda>_.
      wbind dbOp (\<lambda>_.
      wbind op_response_raw (\<lambda>(h, oid, b, err).
      wbind (wupd (\<lambda>p. p\<lparr>p_dbHandle := h\<rparr>)) (\<lambda>_. case err of Some e \<Rightarrow> werr e | None \<Rightarrow> wret ()))))))"

definition openFirebirdsqlConn ::
    "(string \<Rightarrow> socket res) \<Rightarrow> (string \<Rightarrow> int) \<Rightarrow> bytes \<Rightarrow> firebird_dsn \<Rightarrow> unit wm \<Rightarrow> conn res" where
  "openFirebirdsqlConn dial undef rnd dsn dbOp =
     (let opts = opt_get (d_options dsn) in
      bind_res (newWireProtocol dial (d_addr dsn) (opts ''timezone'') (opts ''charset'')) (\<lambda>p.
      case establish undef rnd dsn dbOp (configured opts p) of
        (Inl e, _) \<Rightarrow> Inl e
      | (Inr _, p) \<Rightarrow> Inr (open_conn p (convertToBool (opts ''column_name_to_lower'') False))))"

definition attachFirebirdsqlConn :: "(string \<Rightarrow> socket res) \<Rightarrow> (string \<Rightarrow> int) \<Rightarrow> bytes \<Rightarrow> firebird_dsn \<Rightarrow> conn res" where
  "attachFirebirdsqlConn dial undef rnd dsn = openFirebirdsqlConn dial undef rnd dsn
     (opAttach (d_dbName dsn) (d_user dsn) (d_passwd dsn) (opt_get (d_options dsn) ''role''))"

definition createFirebirdsqlConn :: "(string \<Rightarrow> socket res) \<Rightarrow> (string \<Rightarrow> int) \<Rightarrow> bytes \<Rightarrow> firebird_dsn \<Rightarrow> conn res" where
  "createFirebirdsqlConn dial undef rnd dsn = openFirebirdsqlConn dial undef rnd dsn
     (opCreate (d_dbName dsn) (d_user dsn) (d_passwd dsn) (opt_get (d_options dsn) ''role''))"

definition driver_Open :: "(string \<Rightarrow> parsed_url res) \<Rightarrow> (string \<Rightarrow> socket res) \<Rightarrow> (string \<Rightarrow> int) \<Rightarrow> bytes \<Rightarrow> string \<Rightarrow> conn res" where
  "driver_Open url_Parse dial undef rnd dsns = bind_res (parseDSN url_Parse dsns) (attachFirebirdsqlConn dial undef rnd)"

definition createdb_Open :: "(string \<Rightarrow> parsed_url res) \<Rightarrow> (string \<Rightarrow> socket res) \<Rightarrow> (string \<Rightarrow> int) \<Rightarrow> bytes \<Rightarrow> string \<Rightarrow> conn res" where
  "createdb_Open url_Parse dial undef rnd dsns = bind_res (parseDSN url_Parse dsns) (createFirebirdsqlConn dial undef rnd)"

text \<open>A connector reads the data source name once.\<close>

definition OpenConnector :: "(string \<Rightarrow> parsed_url res) \<Rightarrow> string \<Rightarrow> firebird_dsn res" where
  "OpenConnector url_Parse dsns = bind_res (parseDSN url_Parse dsns) Inr"

definition connector_Connect :: "(string \<Rightarrow> socket res) \<Rightarrow> (string \<Rightarrow> int) \<Rightarrow> bytes \<Rightarrow> firebird_dsn \<Rightarrow> conn res" where
  "connector_Connect dial undef rnd dsn = attachFirebirdsqlConn dial undef rnd dsn"

definition WireCipher :: "conn \<Rightarrow> string" where
  "WireCipher c = ch_plugin (p_chan (cn_wp c))"

definition conn_ProtocolVersion :: "conn \<Rightarrow> int" where
  "conn_ProtocolVersion c = p_protocolVersion (cn_wp c)"

subsection \<open>Arguments\<close>

text \<open>
  \<open>driver.DefaultParameterConverter.ConvertValue\<close>, on the dynamic types of the model: a type that is
  none of these has no value.
\<close>

fun ConvertValue :: "go_any \<Rightarrow> go_any res" where
  "ConvertValue (AInt k n) =
     (if k = KUint64 \<and> n \<ge> 2 ^ 63 then Inl (Plain ''uint64 values with high bit set are not supported'')
      else Inr (AInt KInt64 (wrap64 n)))"
| "ConvertValue (ANamedInt name n) = Inr (AInt KInt64 n)"
| "ConvertValue (AFloat32 w) = Inr (AFloat64 (widen_float w))"
| "ConvertValue (AArray es) = Inl (Plain ''unsupported type %T, a %s'')"
| "ConvertValue (AOther t s) = Inl (Plain ''unsupported type %T, a %s'')"
| "ConvertValue v = Inr v"

text \<open>An argument: an \<open>ArrayValue\<close>, a \<open>driver.Valuer\<close> with what its \<open>Value\<close> gives, a slice or array, anything else.\<close>

datatype named_arg = NArray "go_any list option" | NValuer "go_any res" | NSlice go_arg | NPlain go_any

text \<open>The \<open>Value\<close> of a \<open>FlatArray\<close>, nil or its elements, and of an \<open>Array\<close>; the dimensions stay behind.\<close>

definition IsNull :: "go_any list option \<Rightarrow> bool" where
  "IsNull es \<longleftrightarrow> es = None"

definition FlatArray_Value :: "go_any list option \<Rightarrow> go_any res" where
  "FlatArray_Value a = Inr (case a of None \<Rightarrow> ANil | Some es \<Rightarrow> AArray (Some es))"

record array_value =
  av_Elements :: "go_any list"
  av_Dims :: "array_dimension list"
  av_Valid :: bool

definition Array_Value :: "array_value \<Rightarrow> go_any res" where
  "Array_Value a = Inr (if av_Valid a then AArray (Some (av_Elements a)) else ANil)"

definition CheckNamedValue :: "named_arg \<Rightarrow> go_any res" where
  "CheckNamedValue v = (case v of
     NArray es \<Rightarrow> Inr (AArray es)
   | NValuer r \<Rightarrow> bind_res r (\<lambda>x. case x of AArray es \<Rightarrow> Inr (AArray es) | _ \<Rightarrow> ConvertValue x)
   | NSlice a \<Rightarrow> check_slice a
   | NPlain x \<Rightarrow> ConvertValue x)"

subsection \<open>Columns\<close>

definition nth_column :: "rows \<Rightarrow> int \<Rightarrow> conn \<Rightarrow> xsqlvar res" where
  "nth_column r i c = go_index (s_resultXsqlda (cn_stmts c ! r_stmt r)) i"

definition ColumnTypeDatabaseTypeName :: "rows \<Rightarrow> int \<Rightarrow> conn \<Rightarrow> string res" where
  "ColumnTypeDatabaseTypeName r i c = bind_res (nth_column r i c) (\<lambda>x. Inr (typename x))"

definition ColumnTypeLength :: "rows \<Rightarrow> int \<Rightarrow> conn \<Rightarrow> (int \<times> bool) res" where
  "ColumnTypeLength r i c = bind_res (nth_column r i c) (\<lambda>x. Inr (displayLength x, True))"

definition ColumnTypeNullable :: "rows \<Rightarrow> int \<Rightarrow> conn \<Rightarrow> (bool \<times> bool) res" where
  "ColumnTypeNullable r i c = bind_res (nth_column r i c) (\<lambda>x. Inr (null_ok x, True))"

definition ColumnTypePrecisionScale :: "rows \<Rightarrow> int \<Rightarrow> conn \<Rightarrow> (int \<times> int \<times> bool) res" where
  "ColumnTypePrecisionScale r i c = bind_res (nth_column r i c) (\<lambda>x. Inr (displayLength x, sqlscale x, hasPrecisionScale x))"

definition ColumnTypeScanType :: "rows \<Rightarrow> int \<Rightarrow> conn \<Rightarrow> scan_type res" where
  "ColumnTypeScanType r i c = bind_res (nth_column r i c) (\<lambda>x. Inr (scantype x))"

subsection \<open>Results\<close>

text \<open>A result is its affected rows; there is no last inserted identifier.\<close>

definition LastInsertId :: "int \<Rightarrow> int res" where
  "LastInsertId affectedRows = Inr (- 1)"

definition RowsAffected :: "int \<Rightarrow> int res" where
  "RowsAffected affectedRows = Inr affectedRows"

subsection \<open>The version banner\<close>

record banner = firebird_version +
  v_BuildNumber :: int
  v_Platform :: string
  v_Type :: string
  v_Full :: string
  v_Raw :: string

definition is_word :: "char \<Rightarrow> bool" where
  "is_word c \<longleftrightarrow> is_digit c \<or> c = CHR ''_'' \<or> (97 \<le> (of_char (to_lower_char c) :: nat) \<and> (of_char (to_lower_char c) :: nat) \<le> 122)"

text \<open>\<open>strconv.Atoi\<close> of digits gives the greatest number when they are too many, and the error is dropped.\<close>

definition number :: "string \<Rightarrow> int" where
  "number ds = (case parse_nat ds of None \<Rightarrow> 0 | Some n \<Rightarrow> min (int n) (2 ^ 63 - 1))"

text \<open>\<open>(\d+)\.(\d+)\.(\d+)\.(\d+)\<close>: numbers with dots between them, and the rest.\<close>

primrec dotted :: "nat \<Rightarrow> string \<Rightarrow> (int list \<times> string) option" where
  "dotted 0 s = Some ([], s)"
| "dotted (Suc k) s =
     (let ds = takeWhile is_digit s; rest = dropWhile is_digit s in
      if ds = [] then None
      else if k = 0 then Some ([number ds], rest)
      else case rest of
        c # rest \<Rightarrow> (if c = CHR ''.'' then map_option (\<lambda>(ns, r). (number ds # ns, r)) (dotted k rest) else None)
      | [] \<Rightarrow> None)"

text \<open>\<open>(?:-\S+)?\<close>, which takes what it can.\<close>

definition after_suffix :: "string \<Rightarrow> string" where
  "after_suffix s = (case s of c # d # r \<Rightarrow> if c = CHR ''-'' \<and> \<not> is_space d then dropWhile (\<lambda>x. \<not> is_space x) (d # r) else s | _ \<Rightarrow> s)"

text \<open>The pattern at the head of a text.\<close>

definition match_banner :: "string \<Rightarrow> string \<Rightarrow> banner option" where
  "match_banner raw s = (case s of
     a # b # d # t # rest \<Rightarrow>
       if is_word a \<and> is_word b \<and> d = CHR ''-'' \<and> is_word t then
         (case dotted 4 rest of
            Some ([major, minor, patch, build], rest) \<Rightarrow>
              (case after_suffix rest of
                 c # e # r \<Rightarrow>
                   if c = CHR '' '' \<and> e \<noteq> CHR 0x0A
                   then Some \<lparr> v_Major = major, v_Minor = minor, v_Patch = patch, v_BuildNumber = build, v_Platform = [a, b],
                     v_Type = [t], v_Full = take (length s - length (c # e # r)) s, v_Raw = raw \<rparr>
                   else None
               | _ \<Rightarrow> None)
          | _ \<Rightarrow> None)
       else None
   | _ \<Rightarrow> None)"

primrec find_banner :: "string \<Rightarrow> string \<Rightarrow> banner option" where
  "find_banner raw [] = None"
| "find_banner raw (c # s) = (case match_banner raw (c # s) of Some v \<Rightarrow> Some v | None \<Rightarrow> find_banner raw s)"

definition ParseFirebirdVersion :: "string \<Rightarrow> banner" where
  "ParseFirebirdVersion raw = (case find_banner raw raw of
     Some v \<Rightarrow> v
   | None \<Rightarrow> \<lparr> v_Major = 0, v_Minor = 0, v_Patch = 0, v_BuildNumber = 0, v_Platform = '''', v_Type = '''', v_Full = '''', v_Raw = raw \<rparr>)"

definition GetServerVersion :: "string res \<Rightarrow> banner res" where
  "GetServerVersion r = bind_res r (\<lambda>ver.
     let parsed = ParseFirebirdVersion ver
     in if v_Full parsed = '''' then Inl (Plain ''firebirdsql: unrecognized server version banner %q'') else Inr parsed)"

end
