(* ===== verification/Cancel.thy ===== *)
theory Cancel
  imports Wire_Relation
begin

text \<open>
  Reading under a context (\<open>withCancelWatcher\<close>, \<open>cancelAndDrain\<close> of \<open>statement.go\<close>): the read and the
  goroutine that sends \<open>op_cancel\<close> when the context ends, interleaved. Both work on one
  \<open>wireProtocol\<close> without a lock. An action is what a goroutine does to it in one go; the read is a
  list of them, with its local variables.
\<close>

subsection \<open>The two goroutines\<close>

type_synonym 'a act = "wire_protocol \<Rightarrow> 'a \<Rightarrow> wire_protocol \<times> 'a"

datatype watch_pc = Selecting | Cancelling "(wire_protocol \<Rightarrow> wire_protocol) list" | Ended

record 'a guarded =
  gd_wp :: wire_protocol
  gd_local :: 'a
  gd_todo :: "'a act list"
  gd_done :: bool
  gd_stop :: bool
  gd_watcher :: watch_pc
  gd_returned :: bool

text \<open>A context whose \<open>Done\<close> channel is nil has no watcher.\<close>

definition withCancelWatcher :: "bool \<Rightarrow> 'a act list \<Rightarrow> 'a \<Rightarrow> wire_protocol \<Rightarrow> 'a guarded" where
  "withCancelWatcher cancellable fn x p = \<lparr> gd_wp = p, gd_local = x, gd_todo = fn, gd_done = False, gd_stop = False,
     gd_watcher = (if cancellable then Selecting else Ended), gd_returned = False \<rparr>"

text \<open>\<open>opCancel\<close> packs two words and sends; what sending returns is dropped.\<close>

definition cancel_acts :: "(wire_protocol \<Rightarrow> wire_protocol) list" where
  "cancel_acts = [packInt op_cancel, packInt fb_cancel_raise, snd \<circ> sendPackets]"

text \<open>Where both cases of the \<open>select\<close> are ready either may be taken.\<close>

inductive guard_step :: "'a guarded \<Rightarrow> 'a guarded \<Rightarrow> bool" where
  expire: "\<not> gd_done s \<Longrightarrow> guard_step s (s\<lparr>gd_done := True\<rparr>)"
| raise: "gd_watcher s = Selecting \<Longrightarrow> gd_done s \<Longrightarrow> guard_step s (s\<lparr>gd_watcher := Cancelling cancel_acts\<rparr>)"
| stopped: "gd_watcher s = Selecting \<Longrightarrow> gd_stop s \<Longrightarrow> guard_step s (s\<lparr>gd_watcher := Ended\<rparr>)"
| writes: "gd_watcher s = Cancelling (f # fs) \<Longrightarrow> guard_step s (s\<lparr>gd_wp := f (gd_wp s), gd_watcher := Cancelling fs\<rparr>)"
| written: "gd_watcher s = Cancelling [] \<Longrightarrow> guard_step s (s\<lparr>gd_watcher := Ended\<rparr>)"
| act: "gd_todo s = f # fs \<Longrightarrow> f (gd_wp s) (gd_local s) = (p, x) \<Longrightarrow>
    guard_step s (s\<lparr>gd_wp := p, gd_local := x, gd_todo := fs\<rparr>)"
| stop: "gd_todo s = [] \<Longrightarrow> \<not> gd_stop s \<Longrightarrow> guard_step s (s\<lparr>gd_stop := True\<rparr>)"
| join: "gd_stop s \<Longrightarrow> gd_watcher s = Ended \<Longrightarrow> \<not> gd_returned s \<Longrightarrow> guard_step s (s\<lparr>gd_returned := True\<rparr>)"

inductive_cases guard_stepE: "guard_step s s'"

text \<open>The read alone.\<close>

primrec run_acts :: "'a act list \<Rightarrow> wire_protocol \<Rightarrow> 'a \<Rightarrow> wire_protocol \<times> 'a" where
  "run_acts [] p x = (p, x)"
| "run_acts (f # fs) p x = (let (p, x) = f p x in run_acts fs p x)"

subsection \<open>Abandoning a request\<close>

text \<open>The deadline is taken off, the request cancelled, and its answer read; an error of sending is dropped.\<close>

definition cancelAndDrain :: "go_error option wm" where
  "cancelAndDrain =
     wbind (wtry (opCancel fb_cancel_raise)) (\<lambda>_.
     wbind op_response_raw (\<lambda>(h, oid, b, err). wret err))"

text \<open>
  \<open>contextErrOrDeadlineExceeded\<close>: the error of the context, or the one of its deadline where the
  clock has passed it; times are numbers.
\<close>

definition DeadlineExceeded :: go_error where
  "DeadlineExceeded = Plain ''context deadline exceeded''"

definition contextErrOrDeadlineExceeded :: "go_error option \<Rightarrow> int option \<Rightarrow> int \<Rightarrow> go_error option" where
  "contextErrOrDeadlineExceeded ctx_err deadline now = (case ctx_err of
     Some e \<Rightarrow> Some e
   | None \<Rightarrow> (case deadline of Some dl \<Rightarrow> if \<not> now < dl then Some DeadlineExceeded else None | None \<Rightarrow> None))"

end
