(* ===== verification/Cancel_Props.thy ===== *)
theory Cancel_Props
  imports Cancel
begin

text \<open>
  A guarded read gives what it gives alone, and leaves at most one whole \<open>op_cancel\<close> behind, as long
  as it only reads; it returns in a bounded number of steps; and the one response reader that also
  writes breaks the rule.
\<close>

subsection \<open>Reads\<close>

text \<open>An action that neither looks at what is to be sent nor changes it.\<close>

definition read_act :: "'a act \<Rightarrow> bool" where
  "read_act f \<longleftrightarrow> (\<forall>p x. p_wr_ok (fst (f p x)) = p_wr_ok p \<and>
     (\<forall>b out. f (p\<lparr>p_buf := b, p_outbound := out\<rparr>) x = ((fst (f p x))\<lparr>p_buf := b, p_outbound := out\<rparr>, snd (f p x))))"

lemma same_writer: "p_buf q = b \<Longrightarrow> p_outbound q = out \<Longrightarrow> q\<lparr>p_buf := b, p_outbound := out\<rparr> = q"
  by auto

lemma same_buffer: "p_buf q = b \<Longrightarrow> q\<lparr>p_buf := b, p_outbound := out\<rparr> = q\<lparr>p_outbound := out\<rparr>"
  by (cases q) simp

lemma run_acts_snoc: "run_acts (fs @ [f]) p x = f (fst (run_acts fs p x)) (snd (run_acts fs p x))"
  by (induction fs arbitrary: p x) (simp_all add: case_prod_beta)

lemma read_act_frame: "read_act f \<Longrightarrow> p_wr_ok (fst (f p x)) = p_wr_ok p \<and> p_buf (fst (f p x)) = p_buf p \<and> p_outbound (fst (f p x)) = p_outbound p"
proof -
  assume "read_act f"
  then have "f (p\<lparr>p_buf := p_buf p, p_outbound := p_outbound p\<rparr>) x = ((fst (f p x))\<lparr>p_buf := p_buf p, p_outbound := p_outbound p\<rparr>, snd (f p x))"
      "p_wr_ok (fst (f p x)) = p_wr_ok p"
    unfolding read_act_def by blast+
  moreover have "p\<lparr>p_buf := p_buf p, p_outbound := p_outbound p\<rparr> = p" by simp
  ultimately have e: "fst (f p x) = (fst (f p x))\<lparr>p_buf := p_buf p, p_outbound := p_outbound p\<rparr>" by (metis fst_conv)
  have "p_buf (fst (f p x)) = p_buf p" "p_outbound (fst (f p x)) = p_outbound p"
    using arg_cong [OF e, of p_buf] arg_cong [OF e, of p_outbound] by simp_all
  then show ?thesis using \<open>p_wr_ok (fst (f p x)) = p_wr_ok p\<close> by simp
qed

lemma run_acts_frame:
  "list_all read_act fs \<Longrightarrow> p_wr_ok (fst (run_acts fs p x)) = p_wr_ok p \<and> p_buf (fst (run_acts fs p x)) = p_buf p \<and>
    p_outbound (fst (run_acts fs p x)) = p_outbound p"
  by (induction fs arbitrary: p x) (simp_all add: case_prod_beta read_act_frame)

text \<open>Receiving a number of bytes is such an action.\<close>

definition recv_act :: "int \<Rightarrow> bytes res act" where
  "recv_act n p x = (snd (recvPackets n p), fst (recvPackets n p))"

lemma read_recv_act: "read_act (recv_act n)"
  by (simp add: read_act_def recv_act_def recvPackets_def wbind_def recv_raw_def feed_def del: feed_simps)

subsection \<open>The watcher\<close>

definition cancel_packet :: bytes where
  "cancel_packet = bint32_to_bytes op_cancel @ bint32_to_bytes fb_cancel_raise"

lemma opCancel_packet:
  assumes "\<forall>n. p_wr_ok p n" "p_buf p = []"
  shows "snd (opCancel fb_cancel_raise p) = p\<lparr>p_outbound := p_outbound p @ [cancel_packet]\<rparr>"
  using assms send_fields_sent [of p "[FInt op_cancel, FInt fb_cancel_raise]"]
  by (simp add: opCancel_def sent_def cancel_packet_def)

text \<open>What is to be sent and what was sent, by where the watcher is.\<close>

fun writer_ok :: "bool \<Rightarrow> bytes list \<Rightarrow> watch_pc \<Rightarrow> bytes \<Rightarrow> bytes list \<Rightarrow> bool" where
  "writer_ok d out0 Selecting b out \<longleftrightarrow> b = [] \<and> out = out0"
| "writer_ok d out0 Ended b out \<longleftrightarrow> b = [] \<and> (out = out0 \<or> d \<and> out = out0 @ [cancel_packet])"
| "writer_ok d out0 (Cancelling fs) b out \<longleftrightarrow> d \<and>
     (fs = cancel_acts \<and> b = [] \<and> out = out0 \<or> fs = drop 1 cancel_acts \<and> b = bint32_to_bytes op_cancel \<and> out = out0 \<or>
      fs = drop 2 cancel_acts \<and> b = cancel_packet \<and> out = out0 \<or> fs = [] \<and> b = [] \<and> out = out0 @ [cancel_packet])"

lemma cancel_packet_nonempty [simp]: "cancel_packet \<noteq> []"
  by (simp add: cancel_packet_def)

lemma writer_ok_write:
  assumes "writer_ok d out0 (Cancelling (f # fs)) b out" "\<forall>n. p_wr_ok q n"
  shows "\<exists>b' out'. f (q\<lparr>p_buf := b, p_outbound := out\<rparr>) = q\<lparr>p_buf := b', p_outbound := out'\<rparr> \<and> writer_ok d out0 (Cancelling fs) b' out'"
  using assms by (auto simp: cancel_acts_def packInt_bytes appendBytes_def sendPackets_def cancel_packet_def)

text \<open>The state of a run: what is done of the read, with what the watcher did beside it.\<close>

definition guard_ok :: "bool \<Rightarrow> 'a act list \<Rightarrow> 'a \<Rightarrow> wire_protocol \<Rightarrow> 'a guarded \<Rightarrow> bool" where
  "guard_ok cancellable fn x p s \<longleftrightarrow>
     (\<exists>pre b out. fn = pre @ gd_todo s \<and> gd_wp s = (fst (run_acts pre p x))\<lparr>p_buf := b, p_outbound := out\<rparr> \<and>
        gd_local s = snd (run_acts pre p x) \<and> writer_ok (cancellable \<and> gd_done s) (p_outbound p) (gd_watcher s) b out) \<and>
     (gd_watcher s = Selecting \<longrightarrow> cancellable) \<and> (gd_stop s \<longrightarrow> gd_todo s = []) \<and>
     (gd_returned s \<longrightarrow> gd_stop s \<and> gd_watcher s = Ended)"

lemma writer_ok_done: "writer_ok d out0 w b out \<Longrightarrow> d \<longrightarrow> d' \<Longrightarrow> writer_ok d' out0 w b out"
  by (cases w) auto

lemma guard_ok_start: "p_buf p = [] \<Longrightarrow> guard_ok cancellable fn x p (withCancelWatcher cancellable fn x p)"
  unfolding guard_ok_def withCancelWatcher_def
  by (auto intro!: exI [of _ "[]"] exI [of _ "p_outbound p"])

lemma guard_ok_step:
  assumes "guard_step s s'" "guard_ok cancellable fn x p s" "list_all read_act fn" "\<forall>n. p_wr_ok p n"
  shows "guard_ok cancellable fn x p s'"
proof -
  obtain pre b out where i: "fn = pre @ gd_todo s" "gd_wp s = (fst (run_acts pre p x))\<lparr>p_buf := b, p_outbound := out\<rparr>"
      "gd_local s = snd (run_acts pre p x)" "writer_ok (cancellable \<and> gd_done s) (p_outbound p) (gd_watcher s) b out"
      and flags: "gd_watcher s = Selecting \<longrightarrow> cancellable" "gd_stop s \<longrightarrow> gd_todo s = []"
      "gd_returned s \<longrightarrow> gd_stop s \<and> gd_watcher s = Ended"
    using assms(2) unfolding guard_ok_def by blast
  have ok: "\<forall>n. p_wr_ok (fst (run_acts pre p x)) n" using run_acts_frame [of pre p x] assms(3,4) i(1) by simp
  have keep: "guard_ok cancellable fn x p s'"
    if "gd_todo s' = gd_todo s" "gd_wp s' = (fst (run_acts pre p x))\<lparr>p_buf := b', p_outbound := out'\<rparr>" "gd_local s' = gd_local s"
      "writer_ok (cancellable \<and> gd_done s') (p_outbound p) (gd_watcher s') b' out'" "gd_watcher s' = Selecting \<longrightarrow> cancellable"
      "gd_stop s' \<longrightarrow> gd_todo s = []" "gd_returned s' \<longrightarrow> gd_stop s' \<and> gd_watcher s' = Ended" for b' out'
    unfolding guard_ok_def using that i(1,3)
    by (intro conjI exI [of _ pre] exI [of _ b'] exI [of _ out']) simp_all
  from assms(1) show ?thesis
  proof (cases rule: guard_step.cases)
    case expire
    then show ?thesis using i flags by (intro keep [where b' = b and out' = out]) (auto intro: writer_ok_done)
  next
    case raise
    then show ?thesis using i flags by (intro keep [where b' = b and out' = out]) auto
  next
    case (writes f fs)
    then obtain b' out' where "f (gd_wp s) = (fst (run_acts pre p x))\<lparr>p_buf := b', p_outbound := out'\<rparr>"
        "writer_ok (cancellable \<and> gd_done s) (p_outbound p) (Cancelling fs) b' out'"
      using writer_ok_write [of "cancellable \<and> gd_done s" "p_outbound p" f fs b out "fst (run_acts pre p x)"] i(2,4) ok by auto
    then show ?thesis using writes i flags by (intro keep [where b' = b' and out' = out']) auto
  next
    case (act f fs q y)
    have "read_act f" using assms(3) i(1) act by simp
    then have "f (gd_wp s) (gd_local s) = ((fst (run_acts (pre @ [f]) p x))\<lparr>p_buf := b, p_outbound := out\<rparr>, snd (run_acts (pre @ [f]) p x))"
      unfolding i(2,3) run_acts_snoc read_act_def by blast
    then show ?thesis unfolding guard_ok_def
      using act i flags by (intro conjI exI [of _ "pre @ [f]"] exI [of _ b] exI [of _ out]) auto
  next
    case stopped
    then show ?thesis using i flags by (intro keep [where b' = b and out' = out]) auto
  next
    case written
    then show ?thesis using i flags by (intro keep [where b' = b and out' = out]) (auto simp: cancel_acts_def)
  next
    case stop
    then show ?thesis using i flags by (intro keep [where b' = b and out' = out]) auto
  next
    case join
    then show ?thesis using i flags by (intro keep [where b' = b and out' = out]) auto
  qed
qed

lemma guard_ok_reachable:
  assumes "guard_step\<^sup>*\<^sup>* (withCancelWatcher cancellable fn x p) s" "list_all read_act fn" "\<forall>n. p_wr_ok p n" "p_buf p = []"
  shows "guard_ok cancellable fn x p s"
  using assms(1)
proof induction
  case base
  show ?case by (rule guard_ok_start [OF assms(4)])
next
  case (step y z)
  show ?case by (rule guard_ok_step [OF step(2,3) assms(2,3)])
qed

subsection \<open>Bounds\<close>

fun watch_work :: "watch_pc \<Rightarrow> nat" where
  "watch_work Selecting = 5"
| "watch_work (Cancelling fs) = Suc (length fs)"
| "watch_work Ended = 0"

definition work :: "'a guarded \<Rightarrow> nat" where
  "work s = length (gd_todo s) + watch_work (gd_watcher s) + of_bool (\<not> gd_done s) + of_bool (\<not> gd_stop s) + of_bool (\<not> gd_returned s)"

lemma guard_step_work: "guard_step s s' \<Longrightarrow> work s' < work s"
  by (induction rule: guard_step.induct) (simp_all add: work_def cancel_acts_def)

lemma guard_steps_work: "(guard_step ^^ n) s s' \<Longrightarrow> n + work s' \<le> work s"
  by (induction n arbitrary: s') (fastforce dest: guard_step_work)+

lemma guard_step_goes_on:
  assumes "\<not> gd_returned s"
  shows "\<exists>s'. guard_step s s' \<and> gd_done s' = gd_done s"
proof (cases "gd_todo s")
  case (Cons f fs)
  then show ?thesis using guard_step.act [of s f fs] by (cases "f (gd_wp s) (gd_local s)") fastforce
next
  case Nil
  show ?thesis
  proof (cases "gd_stop s")
    case False
    then show ?thesis using guard_step.stop [of s] Nil by fastforce
  next
    case True
    show ?thesis
    proof (cases "gd_watcher s")
      case Selecting
      then show ?thesis using guard_step.stopped [of s] True by fastforce
    next
      case (Cancelling fs)
      then show ?thesis using guard_step.writes [of s] guard_step.written [of s] by (cases fs) fastforce+
    next
      case Ended
      then show ?thesis using guard_step.join [of s] True assms by fastforce
    qed
  qed
qed

subsection \<open>Properties\<close>

text \<open>C38: A read under a context is as good as the read alone. Once \<open>withCancelWatcher\<close> has returned, and
  whenever the context ended, the local variables of the read, its error among them, are those of the
  read without a watcher; the connection is the one the read leaves, or, only where the context ended,
  that connection with one \<open>op_cancel\<close> sent in one piece; and nothing the watcher does later touches
  it. The read must not write, and the writes of the connection are taken.\<close>

theorem guarded_read_is_alone:
  assumes "guard_step\<^sup>*\<^sup>* (withCancelWatcher cancellable fn x p) s" "gd_returned s"
    and "list_all read_act fn" "\<forall>n. p_wr_ok p n" "p_buf p = []"
  shows "gd_local s = snd (run_acts fn p x) \<and>
    (gd_wp s = fst (run_acts fn p x) \<or>
     cancellable \<and> gd_done s \<and> gd_wp s = snd (opCancel fb_cancel_raise (fst (run_acts fn p x)))) \<and>
    (\<forall>s'. guard_step s s' \<longrightarrow> gd_wp s' = gd_wp s)"
proof -
  let ?q = "fst (run_acts fn p x)"
  have g: "guard_ok cancellable fn x p s" by (rule guard_ok_reachable [OF assms(1,3-5)])
  then have r: "gd_stop s" "gd_watcher s = Ended" "gd_todo s = []" using assms(2) by (auto simp: guard_ok_def)
  have f: "\<forall>n. p_wr_ok ?q n" "p_buf ?q = []" "p_outbound ?q = p_outbound p" using run_acts_frame [OF assms(3), of p x] assms(4,5) by simp_all
  obtain out where o: "gd_wp s = ?q\<lparr>p_buf := [], p_outbound := out\<rparr>" "gd_local s = snd (run_acts fn p x)"
      "out = p_outbound p \<or> cancellable \<and> gd_done s \<and> out = p_outbound p @ [cancel_packet]"
    using g r by (auto simp: guard_ok_def)
  have "?q\<lparr>p_buf := [], p_outbound := p_outbound p\<rparr> = ?q" by (rule same_writer [OF f(2,3)])
  moreover have "?q\<lparr>p_buf := [], p_outbound := p_outbound p @ [cancel_packet]\<rparr> = snd (opCancel fb_cancel_raise ?q)"
    unfolding opCancel_packet [OF f(1,2)] same_buffer [OF f(2)] f(3) ..
  moreover have "gd_wp s' = gd_wp s" if "guard_step s s'" for s'
    using that r assms(2) by (auto elim: guard_stepE)
  ultimately show ?thesis using o by auto
qed

text \<open>C39: \<open>withCancelWatcher\<close> returns: with a read of \<open>n\<close> actions no run has more than \<open>n + 8\<close> steps, and as
  long as it has not returned one of its two goroutines has a step, whatever the context does.\<close>

theorem guarded_read_returns:
  assumes "(guard_step ^^ n) (withCancelWatcher cancellable fn x p) s"
  shows "n \<le> length fn + 8 \<and> (\<not> gd_returned s \<longrightarrow> (\<exists>s'. guard_step s s' \<and> gd_done s' = gd_done s))"
proof -
  have "work (withCancelWatcher cancellable fn x p) \<le> length fn + 8" by (simp add: work_def withCancelWatcher_def)
  then show ?thesis using guard_steps_work [OF assms] guard_step_goes_on [of s] by auto
qed

text \<open>What \<open>opResponse\<close> does when the server asks for the key of an encrypted database.\<close>

definition callback_acts :: "unit act list" where
  "callback_acts = map (\<lambda>f p x. (f p, x)) [packInt op_crypt_key_callback, packInt 0, packInt BUFFER_LEN, snd \<circ> sendPackets]"

lemma callback_acts_alone: "run_acts callback_acts p x = (snd (opCryptCallback p), x)"
  by (simp add: callback_acts_def opCryptCallback_def)

lemma goes: "guard_step s s' \<Longrightarrow> guard_step\<^sup>*\<^sup>* s' t \<Longrightarrow> guard_step\<^sup>*\<^sup>* s t"
  by (rule converse_rtranclp_into_rtranclp)

lemmas go = guard_step.intros [THEN goes]

text \<open>C40: \<open>opResponse\<close> is not a read in this sense: where the server asks for the key of the database it
  answers, in the same buffer. If the context ends meanwhile the two requests are torn: the server
  gets the operation of the one, the other, and the operands of the first as an operation.\<close>

theorem key_callback_tears_cancel:
  assumes "\<forall>n. p_wr_ok p n" "p_buf p = []"
  shows "\<exists>s. guard_step\<^sup>*\<^sup>* (withCancelWatcher True callback_acts () p) s \<and> gd_returned s \<and>
    p_outbound (gd_wp s) = p_outbound p @
      [bint32_to_bytes op_crypt_key_callback @ bint32_to_bytes op_cancel @ bint32_to_bytes fb_cancel_raise,
       bint32_to_bytes 0 @ bint32_to_bytes BUFFER_LEN]"
proof -
  let ?s = "withCancelWatcher True callback_acts () p"
  let ?p1 = "packInt op_crypt_key_callback p"
  let ?p2 = "snd (sendPackets (packInt fb_cancel_raise (packInt op_cancel ?p1)))"
  let ?t = "?s\<lparr>gd_wp := ?p2, gd_todo := tl callback_acts, gd_done := True, gd_watcher := Ended\<rparr>"
  let ?p3 = "snd (sendPackets (packInt BUFFER_LEN (packInt 0 ?p2)))"
  have 1: "guard_step\<^sup>*\<^sup>* ?s ?t"
    unfolding withCancelWatcher_def callback_acts_def cancel_acts_def
    by (rule go(6), simp, simp, rule go(1), simp, rule go(2), simp, simp, rule go(4), simp add: cancel_acts_def,
        rule go(4), simp, rule go(4), simp, rule go(5), simp, simp)
  let ?u = "?s\<lparr>gd_wp := ?p3, gd_todo := [], gd_done := True, gd_stop := True, gd_watcher := Ended, gd_returned := True\<rparr>"
  have 2: "guard_step\<^sup>*\<^sup>* ?t ?u"
    unfolding withCancelWatcher_def callback_acts_def
    by (rule go(6), simp, simp, rule go(6), simp, simp, rule go(6), simp, simp, rule go(7), simp, simp, rule go(8), simp, simp, simp, simp)
  have "guard_step\<^sup>*\<^sup>* ?s ?u" by (rule rtranclp_trans [OF 1 2])
  moreover have "p_outbound ?p3 = p_outbound p @
      [bint32_to_bytes op_crypt_key_callback @ bint32_to_bytes op_cancel @ bint32_to_bytes fb_cancel_raise,
       bint32_to_bytes 0 @ bint32_to_bytes BUFFER_LEN]"
    using assms by (simp add: packInt_bytes appendBytes_def sendPackets_def)
  ultimately show ?thesis by (intro exI conjI) auto
qed

theorem key_callback_tears_cancel_witness:
  "\<exists>s. guard_step\<^sup>*\<^sup>* (withCancelWatcher True callback_acts () sample_wire) s \<and> gd_returned s \<and>
    p_outbound (gd_wp s) = [[0, 0, 0, 97, 0, 0, 0, 91, 0, 0, 0, 3], [0, 0, 0, 0, 0, 0, 4, 0]]"
proof -
  have b: "bint32_to_bytes 97 = [0, 0, 0, 97]" "bint32_to_bytes 91 = [0, 0, 0, 91]" "bint32_to_bytes 3 = [0, 0, 0, 3]"
      "bint32_to_bytes 0 = [0, 0, 0, 0]" "bint32_to_bytes 1024 = [0, 0, 4, 0]" by code_simp+
  show ?thesis using key_callback_tears_cancel [of sample_wire] by (simp add: b sample_wire_def)
qed

text \<open>A read of four bytes that is cancelled and comes to its end all the same.\<close>

theorem guarded_read_is_alone_witness:
  "\<exists>s. gd_returned s \<and> gd_local s = Inr [0, 0, 0, 9] \<and>
    guard_step\<^sup>*\<^sup>* (withCancelWatcher True [recv_act 4] (Inr []) (feed [0, 0, 0, 9] sample_wire)) s \<and> gd_done s"
proof -
  let ?p = "feed [0, 0, 0, 9] sample_wire"
  let ?s = "withCancelWatcher True [recv_act 4] (Inr []) ?p"
  obtain q x where q: "recv_act 4 ?p (Inr []) = (q, x)" by fastforce
  let ?t = "?s\<lparr>gd_wp := (snd \<circ> sendPackets) (packInt fb_cancel_raise (packInt op_cancel q)), gd_local := x, gd_todo := [],
    gd_done := True, gd_stop := True, gd_watcher := Ended, gd_returned := True\<rparr>"
  have r: "guard_step\<^sup>*\<^sup>* ?s ?t"
    unfolding withCancelWatcher_def
    by (rule go(6), simp, simp add: q, rule go(1), simp, rule go(2), simp, simp, rule go(4), simp add: cancel_acts_def,
        rule go(4), simp, rule go(4), simp, rule go(5), simp, rule go(7), simp, simp, rule go(8), simp, simp, simp, simp)
  have "list_all read_act [recv_act 4]" "\<forall>n. p_wr_ok ?p n" "p_buf ?p = []"
    by (simp_all add: read_recv_act sample_wire_def feed_def del: feed_simps)
  from guarded_read_is_alone [OF r _ this] have "gd_local ?t = snd (run_acts [recv_act 4] ?p (Inr []))" by simp
  also have "\<dots> = Inr [0, 0, 0, 9]"
    by (simp add: recv_act_def recvPackets_def wbind_def recv_raw_def feed_def del: feed_simps)
  finally show ?thesis using r by (intro exI [of _ ?t]) simp
qed

theorem guarded_read_returns_witness:
  "\<exists>s. guard_step ((withCancelWatcher True [recv_act 4] (Inr []) sample_wire)\<lparr>gd_done := True\<rparr>) s \<and> gd_done s"
proof -
  let ?s = "withCancelWatcher True [recv_act 4] (Inr []) sample_wire"
  have "guard_step ?s (?s\<lparr>gd_done := True\<rparr>)" by (rule guard_step.intros(1)) (simp add: withCancelWatcher_def)
  then have "(guard_step ^^ 1) ?s (?s\<lparr>gd_done := True\<rparr>)" by (simp only: relpowp_1)
  from guarded_read_returns [OF this] show ?thesis by (auto simp: withCancelWatcher_def)
qed

end
