(* ===== verification/Charset.thy ===== *)
theory Charset
  imports Wire_Protocol
begin

text \<open>
  The character sets of a connection (\<open>charset.go\<close>): which encoding of \<open>golang.org/x/text\<close> a name stands
  for. The encoders are parameters; what they make of a text they cannot encode is taken as it is,
  and their error is dropped.
\<close>

datatype text_encoding = ShiftJIS | EUCJP | ISO8859 nat | EUCKR | Windows125 nat | Big5 | HZGB2312 | KOI8R | KOI8U

definition charsetEncoding :: "string \<Rightarrow> text_encoding option" where
  "charsetEncoding = map_of
     [(''SJIS_0208'', ShiftJIS),
      (''EUCJ_0208'', EUCJP),
      (''ISO8859_1'', ISO8859 1),
      (''ISO8859_2'', ISO8859 2),
      (''ISO8859_3'', ISO8859 3),
      (''ISO8859_4'', ISO8859 4),
      (''ISO8859_5'', ISO8859 5),
      (''ISO8859_6'', ISO8859 6),
      (''ISO8859_7'', ISO8859 7),
      (''ISO8859_8'', ISO8859 8),
      (''ISO8859_9'', ISO8859 9),
      (''ISO8859_13'', ISO8859 13),
      (''KSC_5601'', EUCKR),
      (''WIN1250'', Windows125 0),
      (''WIN1251'', Windows125 1),
      (''WIN1252'', Windows125 2),
      (''WIN1253'', Windows125 3),
      (''WIN1254'', Windows125 4),
      (''BIG_5'', Big5),
      (''GB_2312'', HZGB2312),
      (''WIN1255'', Windows125 5),
      (''WIN1256'', Windows125 6),
      (''WIN1257'', Windows125 7),
      (''KOI8R'', KOI8R),
      (''KOI8U'', KOI8U),
      (''WIN1258'', Windows125 8)]"

definition charset_decode :: "(text_encoding \<Rightarrow> bytes \<Rightarrow> string \<times> go_error option) \<Rightarrow> bytes \<Rightarrow> string \<Rightarrow> string option" where
  "charset_decode decoder raw charset = map_option (\<lambda>enc. fst (decoder enc raw)) (charsetEncoding charset)"

definition charset_encode :: "(text_encoding \<Rightarrow> string \<Rightarrow> string \<times> go_error option) \<Rightarrow> string \<Rightarrow> string \<Rightarrow> string option" where
  "charset_encode encoder str charset = map_option (\<lambda>enc. fst (encoder enc str)) (charsetEncoding charset)"

text \<open>The environment of a driver with these encoders.\<close>

definition with_encoders ::
    "(text_encoding \<Rightarrow> bytes \<Rightarrow> string \<times> go_error option) \<Rightarrow> (text_encoding \<Rightarrow> string \<Rightarrow> string \<times> go_error option) \<Rightarrow> go_env \<Rightarrow> go_env" where
  "with_encoders decoder encoder env = env\<lparr>decodeCharset := charset_decode decoder, encodeCharset := charset_encode encoder\<rparr>"

text \<open>
  Where an encoder takes back what it made, a text that is packed is unpacked again; of a name
  without an entry, UTF-8 among them, the bytes of the text are those of the wire.
\<close>

lemma packed_text_decodes:
  assumes "p_env p = with_encoders decoder encoder env"
    and "\<And>enc. charsetEncoding (p_charset p) = Some enc \<Longrightarrow> fst (decoder enc (str_to_bytes (fst (encoder enc s)))) = s"
  shows "(case decodeCharset (p_env p) (str_to_bytes (encodeString s p)) (p_charset p) of Some t \<Rightarrow> t | None \<Rightarrow> encodeString s p) = s"
  using assms
  by (cases "charsetEncoding (p_charset p)") (simp_all add: encodeString_def with_encoders_def charset_encode_def charset_decode_def)

lemma utf8_has_no_encoder: "charsetEncoding ''UTF8'' = None" "charsetEncoding ''NONE'' = None"
  by (simp_all add: charsetEncoding_def)

end
