(* ===== verification/Spec2Isabelle.thy ===== *)
theory Spec2Isabelle
  imports Calendar Param_Block Wire_Channel Wire_Requests Handshake_Run Service_Props Describe_Trip Fetch_Trip Array_Sdl Client_Props Batch_Props Batch_Trip Events_Props Subscription_Props Connect Cancel_Props Charset
begin

text \<open>
  A verification library for firebirdsql-go, a pure Go driver for the Firebird database.

  \<^bold>\<open>The program.\<close> An application opens a connection through \<open>database/sql\<close> (\<open>driver.go\<close>,
  \<open>connection.go\<close>). The driver reads the data source name, dials, negotiates protocol, authentication
  and wire encryption, and attaches. Statements are prepared, executed and fetched by requests that
  \<open>wireprotocol.go\<close> packs into a buffer and answers it unpacks from the stream; values cross the wire
  as the bytes of their columns (\<open>xsqlvar.go\<close>, \<open>decfloat.go\<close>, \<open>array*.go\<close>, \<open>inline_blob.go\<close>). Beside
  the statements there are batches, scrollable cursors, database events on an auxiliary connection,
  and the service manager with the managers built on it.

  \<^bold>\<open>Conventions.\<close> A Go \<open>byte\<close> is an \<open>8 word\<close>, a handle an \<open>int32\<close> word, a Go \<open>int\<close> an \<open>int\<close> with the
  wrap-around written where the code converts; a nil pointer or slice is \<open>None\<close> where the code tells it
  from an empty one; an error is a value of \<open>go_error\<close> with the format text of the source, and a
  panic is one of its constructors, so that \<open>no_panic\<close> and \<open>never_panics\<close> can be stated. A method of
  the wire protocol is a \<open>'a wm\<close>, a function from the connection to a result and the connection left
  behind, also on error; one of the connection is a \<open>'a cm\<close>, over the record \<open>conn\<close> that holds the
  transactions, statements and batches by index, which is how the code's pointers alias. The bytes
  the server will send are the field \<open>p_inbound\<close>, the packets that went out \<open>p_outbound\<close>, and
  \<open>p_wr_ok\<close> says which writes succeed.

  \<^bold>\<open>Theories, by part of the program.\<close>
  \<^item> Shared: \<open>Go_Prelude\<close> (bytes, slices, results, the locale \<open>machine\<close> of state machines with an
    invariant), \<open>Go_Strings\<close> and \<open>Go_Any\<close> (the standard library as far as it is used), \<open>Consts\<close>
    (\<open>consts.go\<close>).
  \<^item> Bytes: \<open>Wire_Codec\<close> (\<open>utils.go\<close>; locale \<open>fixed_codec\<close>, interpreted on its five integer codecs),
    \<open>Calendar\<close> and \<open>Zoned_Time\<close> (dates and times), \<open>Param_Block\<close> (\<open>xpb.go\<close>; locale \<open>bounded_read\<close>,
    interpreted on every read of \<open>XPBReader\<close>), \<open>Charset\<close> (\<open>charset.go\<close>).
  \<^item> The wire: \<open>Wire_Channel\<close> (\<open>wirechannel.go\<close>; locale \<open>stream_cipher\<close>, interpreted on RC4 and ChaCha20),
    \<open>Wire_Protocol\<close>, \<open>Wire_Response\<close> and \<open>Wire_Requests\<close> (\<open>wireprotocol.go\<close>), \<open>Wire_Relation\<close> (a locale
    for what every exchange keeps of the connection), \<open>Blob_Cache\<close> (\<open>inline_blob.go\<close>).
  \<^item> Connecting: \<open>Policy\<close> (\<open>dsn.go\<close>, \<open>wire_crypt.go\<close>, \<open>auth_plugin.go\<close>), \<open>Srp\<close> (\<open>srp.go\<close>), \<open>Handshake\<close>,
    \<open>Handshake_Run\<close> (whole handshakes with a server that follows the protocol), \<open>Connect\<close> (\<open>driver.go\<close>,
    \<open>openFirebirdsqlConn\<close>, arguments, column types, \<open>firebird_version.go\<close>).
  \<^item> Statements: \<open>Xsqlvar\<close>, \<open>Describe\<close>, \<open>Describe_Props\<close>, \<open>Describe_Trip\<close> (the description of a
    statement), \<open>Decfloat\<close>, \<open>Decfloat_Text\<close>, \<open>Column_Values\<close> (values of columns), \<open>Params\<close>,
    \<open>Params_Props\<close>, \<open>Blob_Trip\<close> (parameters and blobs), \<open>Fetch\<close>, \<open>Fetch_Props\<close>, \<open>Fetch_Trip\<close> (fetching),
    \<open>Transactions\<close>, \<open>Transaction_Props\<close>, \<open>Conn_Relation\<close> (a locale as \<open>Wire_Relation\<close>, for connections),
    \<open>Statements\<close>, \<open>Rows\<close>, \<open>Rows_Props\<close>, \<open>Client\<close>, \<open>Client_Props\<close> (\<open>transaction.go\<close>, \<open>statement.go\<close>,
    \<open>rows.go\<close>, \<open>scroll.go\<close>, \<open>connection.go\<close>, \<open>execute_immediate.go\<close>), \<open>Cancel\<close>, \<open>Cancel_Props\<close> (reads
    under a context).
  \<^item> Arrays: \<open>Array_Shape\<close>, \<open>Array_Codec\<close>, \<open>Array_Meta\<close> with \<open>Array_Shape_Props\<close>, \<open>Array_Trip\<close>,
    \<open>Array_Sdl\<close> (\<open>array.go\<close>, \<open>array_meta.go\<close>, \<open>array_sdl.go\<close>).
  \<^item> Batches: \<open>Batch_Wire\<close>, \<open>Batch\<close> with \<open>Batch_Props\<close>, \<open>Batch_Trip\<close> (\<open>batch*.go\<close>).
  \<^item> Events: \<open>Events\<close>, \<open>Events_Props\<close> (\<open>remoteEvent.go\<close>, \<open>eventmanager.go\<close>, the requests of
    \<open>subscriber.go\<close>), \<open>Subscription\<close>, \<open>Subscription_Props\<close> (its goroutines), \<open>event.go\<close> in \<open>Events\<close>.
  \<^item> Services: \<open>Service_Requests\<close>, \<open>Service_Manager\<close>, \<open>Service_Reports\<close>, \<open>Service_Ops\<close>, \<open>Service_Props\<close>
    (\<open>service_manager.go\<close> and the \<open>*_manager.go\<close> files).

  \<^bold>\<open>What the theorems show.\<close>
  \<^item> Round trips: what one side writes the other reads back, from integers and parameter blocks to
    whole descriptions, rows with their blobs, parameters, array slices, batch rows and decimals. The
    server's half is a definition of the wire format (\<open>column_bytes\<close>, \<open>response_bytes\<close>, \<open>event_packet\<close>,
    ...), never an inverse made from the reader.
  \<^item> Totality: whatever a server sends, responses, descriptions, rows and services are read without a
    panic and to an end; every loop that reads is a terminating function, because each turn
    consumes input or ends (measures on the unread bytes). Only the loops over a finished report
    share a loop with fuel, one unit for each byte of the report and one more, which
    \<open>read_loop_fuel\<close> shows to be enough.
  \<^item> Invariants and bounds of what a connection keeps: the blob cache and its size, the open
    transactions, the queue of a batch, the life of a subscription.
  \<^item> Agreement: both ends of SRP and of the handshake compute one key, and a policy that requires
    encryption ends a handshake without a cipher in an error, but for one answer of the server that
    skips the policy. A cipher that is armed is not the whole of it: with wire compression on it is
    never used (\<open>compression_bypasses_cipher\<close>).
  \<^item> Behaviour that surprises is proved as it is, under names that say so
    (\<open>compression_bypasses_cipher\<close>, \<open>empty_response_skips_policy\<close>, \<open>wide_select_loses_statement_type\<close>,
    \<open>owed_response_breaks_slice\<close>, \<open>next_statement_inherits_isolation\<close>, \<open>refused_rows_shift_answers\<close>,
    \<open>ipv6_address_is_shifted\<close>, \<open>unsubscribe_races_reader\<close>, \<open>key_callback_tears_cancel\<close>).
  \<^item> Interleaving: \<open>Subscription\<close> and \<open>Cancel\<close> model goroutines as inductive step relations with explicit
    program points; their properties hold of every interleaving.

  \<^bold>\<open>Parameters.\<close> Code outside the repository is an argument: the block function of ChaCha20, hashes, what
  \<open>crypto/rand\<close> gives, the legacy \<open>crypt\<close>, the text encoders, what \<open>zlib.NewReader\<close> says of a stream, the
  time zone database (\<open>Location.lookup\<close>, over which \<open>time.Date\<close> and \<open>Zone\<close> are modelled), \<open>net.Dial\<close>,
  \<open>net/url\<close>, and the printing and parsing of floating point numbers. What is relied on is a named
  hypothesis where a theorem needs it.

  \<^bold>\<open>Not modelled.\<close>
  \<^item> The generated tables of messages, codes and time zone names, which are data without code; they
    are functions of the environment, and the time zone table a map.
  \<^item> Socket deadlines and real time, hence what a statement does after its context has expired: apart
    from \<open>Cancel\<close> the context is one that never ends.
  \<^item> The compressed stream itself: \<open>compress/flate\<close> is the Go library's.
  \<^item> Debug output, the \<open>sql.DB\<close> that \<open>FbEvent\<close> posts with, and the pool of \<open>database/sql\<close>.
\<close>

end
